(* ===== verification/CK_Prelude.thy ===== *)
theory CK_Prelude
  imports Complex_Main "HOL-Library.AList" "HOL-Library.Word"
begin

text \<open>
  Shared vocabulary of the development: the named collections of facts, byte strings and
  big-endian integers (Python's \<^verbatim>\<open>int.to_bytes(n, "big")\<close> / \<^verbatim>\<open>int.from_bytes\<close> and
  \<^verbatim>\<open>struct.pack(">H")\<close>, \<^verbatim>\<open>">Q"\<close>), Python floats with their non-finite values, and
  \<^verbatim>\<open>OrderedDict\<close> as an association list in insertion order (\<open>AList.update\<close> replaces in
  place and appends new keys at the end, \<open>AList.delete\<close> is \<^verbatim>\<open>pop\<close>).
\<close>

named_theorems od_simps "facts about ordered dictionaries"
named_theorems ck_simps "unfolding facts of the components' small helpers"

section \<open>Byte strings and big-endian integers\<close>

type_synonym byte = "8 word"
type_synonym bytes = "byte list"

text \<open>\<open>be_bytes n x\<close> is the \<open>n\<close>-byte big-endian form of the low \<open>8 n\<close> bits of \<open>x\<close>.\<close>

primrec be_bytes :: "nat \<Rightarrow> nat \<Rightarrow> bytes" where
  "be_bytes 0 x = []"
| "be_bytes (Suc n) x = be_bytes n (x div 256) @ [word_of_nat x]"

definition be_val :: "bytes \<Rightarrow> nat" where
  "be_val bs = foldl (\<lambda>a b. a * 256 + unat b) 0 bs"

lemma byte_less [simp]: "unat (b :: byte) < 256"
  using unsigned_less [of b] by simp

lemma length_be_bytes [simp]: "length (be_bytes n x) = n"
  by (induction n arbitrary: x) auto

lemma be_val_Nil [simp]: "be_val [] = 0"
  by (simp add: be_val_def)

lemma be_val_snoc [simp]: "be_val (bs @ [b]) = be_val bs * 256 + unat b"
  by (simp add: be_val_def)

lemma be_val_be_bytes: "be_val (be_bytes n x) = x mod 256 ^ n"
proof (induction n arbitrary: x)
  case 0
  then show ?case by simp
next
  case (Suc n)
  have "be_val (be_bytes (Suc n) x) = (x div 256 mod 256 ^ n) * 256 + x mod 256"
    using Suc.IH [of "x div 256"] by (simp add: unat_of_nat)
  also have "\<dots> = x mod (256 * 256 ^ n)"
    by (simp add: mod_mult2_eq)
  finally show ?case by simp
qed

lemma be_val_be_bytes_id [simp]: "x < 256 ^ n \<Longrightarrow> be_val (be_bytes n x) = x"
  by (simp add: be_val_be_bytes)

lemma be_val_less: "be_val bs < 256 ^ length bs"
proof (induction bs rule: rev_induct)
  case Nil
  then show ?case by simp
next
  case (snoc b bs)
  have "unat b < 256" by simp
  with snoc have "be_val bs * 256 + unat b < (be_val bs + 1) * 256" by simp
  also have "\<dots> \<le> 256 ^ length bs * 256" using snoc by simp
  finally show ?case by simp
qed

lemma be_bytes_be_val: "be_bytes (length bs) (be_val bs) = bs"
proof (induction bs rule: rev_induct)
  case Nil
  then show ?case by simp
next
  case (snoc b bs)
  have b: "unat b < 256" by simp
  then have q: "(be_val bs * 256 + unat b) div 256 = be_val bs" by simp
  have "unat (word_of_nat (be_val bs * 256 + unat b) :: byte) = unat b"
    using b by (simp add: unat_of_nat del: of_nat_add of_nat_mult)
  then have "(word_of_nat (be_val bs * 256 + unat b) :: byte) = b"
    by (simp only: word_unat_eq_iff)
  with q snoc show ?case by simp
qed

lemma be_bytes_inject:
  "x < 256 ^ n \<Longrightarrow> y < 256 ^ n \<Longrightarrow> be_bytes n x = be_bytes n y \<Longrightarrow> x = y"
  by (metis be_val_be_bytes_id)

lemma take_append_length [simp]: "length xs = n \<Longrightarrow> take n (xs @ ys) = xs"
  by simp

lemma drop_append_length [simp]: "length xs = n \<Longrightarrow> drop n (xs @ ys) = ys"
  by simp

text \<open>Text as its bytes and back.\<close>

definition str_bytes :: "string \<Rightarrow> bytes" where
  "str_bytes s = map (\<lambda>c. word_of_nat (of_char c)) s"

definition bytes_str :: "bytes \<Rightarrow> string" where
  "bytes_str b = map (\<lambda>w. char_of (unat w)) b"

lemma bytes_str_str_bytes [simp]: "bytes_str (str_bytes s) = s"
proof -
  have "char_of (unat (word_of_nat (of_char c) :: byte)) = c" for c
    by (simp add: unat_of_nat)
  then show ?thesis by (simp add: bytes_str_def str_bytes_def comp_def)
qed

lemma split_at_first:
  assumes "x \<notin> set a" "x \<notin> set b" "a @ x # u = b @ x # v"
  shows "a = b \<and> u = v"
proof -
  have tw: "takeWhile (\<lambda>y. y \<noteq> x) (c @ x # w) = c" if "x \<notin> set c" for c w
    using that by (induction c) auto
  have "a = b" using arg_cong [OF assms(3), of "takeWhile (\<lambda>y. y \<noteq> x)"] tw assms(1,2) by simp
  with assms(3) show ?thesis by simp
qed

section \<open>Python floats\<close>

text \<open>
  A float is a finite real or one of the three non-finite values. Rounding and overflow of
  finite arithmetic are not modelled; NaN compares false with everything, as in IEEE 754.
\<close>

datatype pyfloat = Fin real | PInf | NInf | NaN

fun pf_add :: "pyfloat \<Rightarrow> pyfloat \<Rightarrow> pyfloat" where
  "pf_add (Fin x) (Fin y) = Fin (x + y)"
| "pf_add NaN _ = NaN"
| "pf_add _ NaN = NaN"
| "pf_add PInf NInf = NaN"
| "pf_add NInf PInf = NaN"
| "pf_add PInf _ = PInf"
| "pf_add _ PInf = PInf"
| "pf_add NInf _ = NInf"
| "pf_add _ NInf = NInf"

fun pf_neg :: "pyfloat \<Rightarrow> pyfloat" where
  "pf_neg (Fin x) = Fin (- x)"
| "pf_neg PInf = NInf"
| "pf_neg NInf = PInf"
| "pf_neg NaN = NaN"

definition pf_sub :: "pyfloat \<Rightarrow> pyfloat \<Rightarrow> pyfloat" where
  "pf_sub x y = pf_add x (pf_neg y)"

fun pf_le :: "pyfloat \<Rightarrow> pyfloat \<Rightarrow> bool" where
  "pf_le NaN _ = False"
| "pf_le _ NaN = False"
| "pf_le (Fin x) (Fin y) = (x \<le> y)"
| "pf_le NInf _ = True"
| "pf_le _ PInf = True"
| "pf_le _ _ = False"

fun isfinite :: "pyfloat \<Rightarrow> bool" where
  "isfinite (Fin _) = True"
| "isfinite _ = False"

lemma isfinite_iff: "isfinite x \<longleftrightarrow> (\<exists>r. x = Fin r)"
  by (cases x) auto

lemma pf_sub_Fin [simp]: "pf_sub (Fin x) (Fin y) = Fin (x - y)"
  by (simp add: pf_sub_def)

section \<open>Ordered dictionaries\<close>

type_synonym ('k, 'v) odict = "('k \<times> 'v) list"

text \<open>\<^verbatim>\<open>OrderedDict.move_to_end(key)\<close> for a key that is present; a missing key is left alone.\<close>

definition move_to_end :: "'k \<Rightarrow> ('k, 'v) odict \<Rightarrow> ('k, 'v) odict" where
  "move_to_end k d = (case map_of d k of None \<Rightarrow> d | Some v \<Rightarrow> AList.delete k d @ [(k, v)])"

definition od_keys :: "('k, 'v) odict \<Rightarrow> 'k list" where
  "od_keys d = map fst d"

text \<open>Total weight of the stored values, the quantity the byte counters claim to track.\<close>

definition od_weight :: "('v \<Rightarrow> int) \<Rightarrow> ('k, 'v) odict \<Rightarrow> int" where
  "od_weight w d = sum_list (map (\<lambda>(k, v). w v) d)"

lemma od_weight_simps [simp]:
  "od_weight w [] = 0"
  "od_weight w ((k, v) # d) = w v + od_weight w d"
  "od_weight w (d @ d') = od_weight w d + od_weight w d'"
  by (simp_all add: od_weight_def)

lemma delete_notin [simp]: "k \<notin> fst ` set d \<Longrightarrow> AList.delete k d = d"
  by (induction d) (auto simp: AList.delete_eq)

lemma delete_simps [simp]:
  "AList.delete k [] = []"
  "AList.delete k ((a, b) # d) = (if a = k then AList.delete k d else (a, b) # AList.delete k d)"
  by (simp_all add: AList.delete_eq)

lemma delete_append [simp]: "AList.delete k (d @ d') = AList.delete k d @ AList.delete k d'"
  by (simp add: AList.delete_eq)

lemma delete_filter: "AList.delete k d = filter (\<lambda>p. fst p \<noteq> k) d"
  by (induction d) auto

lemma keys_delete [simp]: "fst ` set (AList.delete k d) = fst ` set d - {k}"
  by (induction d) auto

lemma od_weight_delete:
  "distinct (map fst d) \<Longrightarrow> map_of d k = Some v \<Longrightarrow>
   od_weight w (AList.delete k d) = od_weight w d - w v"
  by (induction d) (auto split: if_splits simp: image_iff)

lemma od_weight_update:
  "distinct (map fst d) \<Longrightarrow>
   od_weight w (AList.update k v d) =
     od_weight w d + w v - (case map_of d k of None \<Rightarrow> 0 | Some u \<Rightarrow> w u)"
  by (induction d) (auto split: option.splits dest: eq_key_imp_eq_value)

lemma od_weight_nonneg: "(\<And>v. 0 \<le> w v) \<Longrightarrow> 0 \<le> od_weight w d"
  by (induction d) auto

lemma distinct_map_fst_delete [simp]:
  "distinct (map fst d) \<Longrightarrow> distinct (map fst (AList.delete k d))"
  by (simp add: distinct_delete)

lemma update_new: "k \<notin> fst ` set d \<Longrightarrow> AList.update k v d = d @ [(k, v)]"
  by (induction d) auto

lemma map_of_eq_None_keys [od_simps]: "map_of d k = None \<longleftrightarrow> k \<notin> fst ` set d"
  by (rule map_of_eq_None_iff)

lemma map_le_Some: "m \<subseteq>\<^sub>m m' \<Longrightarrow> m k = Some e \<Longrightarrow> m' k = Some e"
  unfolding map_le_def by (metis domI)

lemma map_of_move_to_end [simp]:
  "map_of (move_to_end k d) k' = map_of d k'"
  by (auto simp: move_to_end_def map_add_def AList.delete_conv split: option.splits)

lemma keys_move_to_end [simp]: "fst ` set (move_to_end k d) = fst ` set d"
  by (force simp: move_to_end_def split: option.splits dest: map_of_SomeD)

lemma distinct_move_to_end [simp]:
  "distinct (map fst d) \<Longrightarrow> distinct (map fst (move_to_end k d))"
  by (auto simp: move_to_end_def split: option.splits)

lemma od_weight_move_to_end [simp]:
  "distinct (map fst d) \<Longrightarrow> od_weight w (move_to_end k d) = od_weight w d"
  by (auto simp: move_to_end_def od_weight_delete split: option.splits)

lemma set_move_to_end [simp]:
  "distinct (map fst d) \<Longrightarrow> set (move_to_end k d) = set d"
  by (auto simp: move_to_end_def delete_filter split: option.splits
      dest: map_of_SomeD eq_key_imp_eq_value)

lemma length_move_to_end [simp]:
  "distinct (map fst d) \<Longrightarrow> length (move_to_end k d) = length d"
  by (metis distinct_map distinct_card distinct_move_to_end set_move_to_end)

lemma length_delete_present:
  "distinct (map fst d) \<Longrightarrow> map_of d k = Some v \<Longrightarrow> Suc (length (AList.delete k d)) = length d"
  by (induction d) (auto split: if_splits simp: image_iff)

end
