(* ===== verification/Backend_Errors.thy ===== *)
theory Backend_Errors
  imports CK_Prelude
begin

text \<open>
  \<^verbatim>\<open>backends/errors.py\<close>, \<^verbatim>\<open>reliability/error_classification.py\<close> and the three exception
  classifiers of the backends (\<^verbatim>\<open>redis/error_handler.py\<close>, \<^verbatim>\<open>memcached/error_handler.py\<close>,
  \<^verbatim>\<open>cachekitio/error_handler.py\<close>). The exception classes of redis-py, pymemcache and httpx are
  third-party code: an \<^verbatim>\<open>isinstance\<close> test against one of them is the parameter \<open>isa\<close> of the
  classifier.
\<close>

section \<open>Error values\<close>

datatype backend_error_type = TRANSIENT | PERMANENT | TIMEOUT | AUTHENTICATION | UNKNOWN

fun error_type_value :: "backend_error_type \<Rightarrow> string" where
  "error_type_value TRANSIENT = ''transient''"
| "error_type_value PERMANENT = ''permanent''"
| "error_type_value TIMEOUT = ''timeout''"
| "error_type_value AUTHENTICATION = ''authentication''"
| "error_type_value UNKNOWN = ''unknown''"

text \<open>
  An exception object: a \<^verbatim>\<open>BackendError\<close> with its context, or any other exception, known by
  its class name and text.
\<close>

datatype pyexn =
    BackendExn backend_error
  | PyExn (exn_class: string) (exn_text: string)
and backend_error =
    BackendError (message: string) (error_type: backend_error_type)
      (original_exception: "pyexn option") (operation: "string option") (err_key: "string option")

fun str_join :: "string \<Rightarrow> string list \<Rightarrow> string" where
  "str_join sep [] = []"
| "str_join sep [x] = x"
| "str_join sep (x # y # ys) = x @ sep @ str_join sep (y # ys)"

text \<open>Python truth of an optional string: neither \<^verbatim>\<open>None\<close> nor empty.\<close>

fun truthy_str :: "string option \<Rightarrow> bool" where
  "truthy_str None = False"
| "truthy_str (Some s) = (s \<noteq> [])"

definition key_display :: "string \<Rightarrow> string" where
  "key_display k = (if length k > 50 then take 50 k @ ''...'' else k)"

definition format_message :: "backend_error \<Rightarrow> string" where
  "format_message e = str_join '' | ''
     ([message e]
      @ (if truthy_str (operation e) then [''operation='' @ the (operation e)] else [])
      @ (if truthy_str (err_key e) then [''key='' @ key_display (the (err_key e))] else [])
      @ [''type='' @ error_type_value (error_type e)])"

definition is_transient :: "backend_error \<Rightarrow> bool" where
  "is_transient e \<longleftrightarrow> error_type e = TRANSIENT"

definition is_permanent :: "backend_error \<Rightarrow> bool" where
  "is_permanent e \<longleftrightarrow> error_type e = PERMANENT"

definition is_timeout :: "backend_error \<Rightarrow> bool" where
  "is_timeout e \<longleftrightarrow> error_type e = TIMEOUT"

definition is_authentication :: "backend_error \<Rightarrow> bool" where
  "is_authentication e \<longleftrightarrow> error_type e = AUTHENTICATION"

definition capability_not_available_error :: "string \<Rightarrow> backend_error" where
  "capability_not_available_error msg = BackendError msg PERMANENT None None None"

section \<open>BackendErrorClassifier\<close>

fun is_circuit_breaker_failure :: "pyexn \<Rightarrow> bool" where
  "is_circuit_breaker_failure (BackendExn e) =
     (if error_type e \<in> {TRANSIENT, TIMEOUT} then True
      else if error_type e \<in> {PERMANENT, AUTHENTICATION} then False
      else if error_type e = UNKNOWN then True
      else False)"
| "is_circuit_breaker_failure (PyExn _ _) = False"

fun get_error_category :: "pyexn \<Rightarrow> string" where
  "get_error_category (BackendExn e) = error_type_value (error_type e)"
| "get_error_category (PyExn _ _) = ''application''"

section \<open>The backends' classifiers\<close>

fun exn_str :: "pyexn \<Rightarrow> string" where
  "exn_str (BackendExn e) = format_message e"
| "exn_str (PyExn _ t) = t"

subsection \<open>Redis\<close>

datatype redis_class =
    AuthenticationError | NoPermissionError | RedisTimeoutError | RedisConnectionError
  | BusyLoadingError | ReadOnlyError | ResponseError | DataError | ClusterDownError

text \<open>
  \<open>installed\<close>: whether redis-py can be imported; \<open>has_cluster\<close>: whether it has
  \<^verbatim>\<open>ClusterDownError\<close> (redis-py 4.0 and later).
\<close>

definition classify_redis_error ::
  "bool \<Rightarrow> bool \<Rightarrow> (pyexn \<Rightarrow> redis_class \<Rightarrow> bool) \<Rightarrow> pyexn \<Rightarrow> string option \<Rightarrow> string option
   \<Rightarrow> backend_error" where
  "classify_redis_error installed has_cluster isa exc op key =
     (let mk = (\<lambda>msg ty. BackendError (msg @ exn_str exc) ty (Some exc) op key) in
      if \<not> installed then mk ''Redis error (redis-py not installed): '' UNKNOWN
      else if isa exc AuthenticationError \<or> isa exc NoPermissionError
        then mk ''Redis authentication error: '' AUTHENTICATION
      else if isa exc RedisTimeoutError then mk ''Redis timeout: '' TIMEOUT
      else if isa exc RedisConnectionError \<or> isa exc BusyLoadingError \<or> isa exc ReadOnlyError
        then mk ''Transient Redis error: '' TRANSIENT
      else if isa exc ResponseError \<or> isa exc DataError
        then mk ''Permanent Redis error: '' PERMANENT
      else if has_cluster \<and> isa exc ClusterDownError
        then mk ''Redis cluster down: '' TRANSIENT
      else mk ''Unknown Redis error: '' UNKNOWN)"

subsection \<open>Memcached\<close>

datatype memcached_class =
    SocketTimeout | BuiltinTimeoutError | MemcacheUnexpectedCloseError | MemcacheServerError
  | BuiltinConnectionError | BuiltinOSError | MemcacheIllegalInputError | MemcacheClientError

fun fmt_opt :: "string option \<Rightarrow> string" where
  "fmt_opt None = ''None''"
| "fmt_opt (Some s) = s"

definition classify_memcached_error ::
  "(pyexn \<Rightarrow> memcached_class \<Rightarrow> bool) \<Rightarrow> pyexn \<Rightarrow> string option \<Rightarrow> string option \<Rightarrow> backend_error"
where
  "classify_memcached_error isa exc op key =
     (let mk = (\<lambda>kind ty. BackendError
                 (''Memcached '' @ kind @ '' during '' @ fmt_opt op @ '': '' @ exn_str exc)
                 ty (Some exc) op key) in
      if isa exc SocketTimeout \<or> isa exc BuiltinTimeoutError then mk ''timeout'' TIMEOUT
      else if isa exc MemcacheUnexpectedCloseError \<or> isa exc MemcacheServerError
              \<or> isa exc BuiltinConnectionError \<or> isa exc BuiltinOSError
        then mk ''transient error'' TRANSIENT
      else if isa exc MemcacheIllegalInputError \<or> isa exc MemcacheClientError
        then mk ''permanent error'' PERMANENT
      else mk ''unknown error'' UNKNOWN)"

subsection \<open>HTTP (cachekit.io)\<close>

datatype httpx_class = TimeoutException | ConnectError | NetworkError

text \<open>The decimal text of a status code, for the messages.\<close>

function (sequential) dec_str :: "nat \<Rightarrow> string" where
  "dec_str n = (if n < 10 then [char_of (48 + n)] else dec_str (n div 10) @ [char_of (48 + n mod 10)])"
  by pat_completeness auto
termination
  by (relation "measure id") auto

declare dec_str.simps [simp del]

definition classify_http_error ::
  "(pyexn \<Rightarrow> httpx_class \<Rightarrow> bool) \<Rightarrow> pyexn \<Rightarrow> nat option \<Rightarrow> string option \<Rightarrow> string option
   \<Rightarrow> backend_error" where
  "classify_http_error isa exc response op key =
     (let mk = (\<lambda>msg ty. BackendError msg ty (Some exc) op key);
          network =
            (if isa exc TimeoutException then mk (''Request timeout: '' @ exn_str exc) TIMEOUT
             else if isa exc ConnectError \<or> isa exc NetworkError
               then mk (''Connection failed: '' @ exn_str exc) TRANSIENT
             else mk (''Unknown HTTP error: '' @ exn_str exc) UNKNOWN)
      in case response of
           None \<Rightarrow> network
         | Some status \<Rightarrow>
             if status = 401 \<or> status = 403
               then mk (''Authentication failed: HTTP '' @ dec_str status) AUTHENTICATION
             else if status = 429 then mk ''Rate limit exceeded'' TRANSIENT
             else if 500 \<le> status \<and> status < 600
               then mk (''Server error: HTTP '' @ dec_str status) TRANSIENT
             else if status = 413
               then mk (''Value too large for cachekit.io backend (HTTP 413): value exceeds the ''
                        @ ''server's maximum cache value size'') PERMANENT
             else if 400 \<le> status \<and> status < 500
               then mk (''Client error: HTTP '' @ dec_str status) PERMANENT
             else network)"

section \<open>The contract of a classifier\<close>

text \<open>
  Every backend wraps a foreign exception into a \<^verbatim>\<open>BackendError\<close> that keeps the exception and the
  operation's context. What the reliability code relies on follows from these laws alone.
\<close>

locale error_classifier =
  fixes classify :: "pyexn \<Rightarrow> string option \<Rightarrow> string option \<Rightarrow> backend_error"
  assumes keeps_exception: "original_exception (classify exc op key) = Some exc"
    and keeps_operation: "operation (classify exc op key) = op"
    and keeps_key: "err_key (classify exc op key) = key"
begin

lemma classified_injective:
  "classify exc op key = classify exc' op' key' \<Longrightarrow> exc = exc' \<and> op = op' \<and> key = key'"
  by (metis keeps_exception keeps_key keeps_operation option.inject)

lemma classified_category: "get_error_category (BackendExn (classify exc op key)) \<noteq> ''application''"
  by (cases "error_type (classify exc op key)") simp_all

lemma classified_failure_iff:
  "is_circuit_breaker_failure (BackendExn (classify exc op key)) \<longleftrightarrow>
   \<not> is_permanent (classify exc op key) \<and> \<not> is_authentication (classify exc op key)"
  by (cases "error_type (classify exc op key)") (simp_all add: is_permanent_def is_authentication_def)

end

interpretation redis_err: error_classifier "classify_redis_error installed has_cluster isa"
  by unfold_locales (simp_all add: classify_redis_error_def Let_def)

interpretation memcached_err: error_classifier "classify_memcached_error isa"
  by unfold_locales (simp_all add: classify_memcached_error_def Let_def)

interpretation http_err: error_classifier "\<lambda>exc. classify_http_error isa exc response"
  by unfold_locales (simp_all add: classify_http_error_def Let_def split: option.split)

section \<open>Properties\<close>

lemma length_key_display: "length (key_display k) \<le> 53"
  by (simp add: key_display_def)

text \<open>
  The three classifiers never lose the cause: two calls that give the same \<^verbatim>\<open>BackendError\<close>
  wrapped the same exception, in the same operation, on the same key; and a classified error trips
  the breaker's failure test exactly when it is neither PERMANENT nor AUTHENTICATION.
\<close>

theorem classifiers_faithful:
  "(classify_redis_error i c r exc op key = classify_redis_error i c r exc' op' key'
      \<longrightarrow> exc = exc' \<and> op = op' \<and> key = key')
   \<and> (classify_memcached_error m exc op key = classify_memcached_error m exc' op' key'
      \<longrightarrow> exc = exc' \<and> op = op' \<and> key = key')
   \<and> (classify_http_error h exc resp op key = classify_http_error h exc' resp op' key'
      \<longrightarrow> exc = exc' \<and> op = op' \<and> key = key')
   \<and> (\<forall>e \<in> {classify_redis_error i c r exc op key, classify_memcached_error m exc op key,
            classify_http_error h exc resp op key}.
        is_circuit_breaker_failure (BackendExn e)
          \<longleftrightarrow> \<not> is_permanent e \<and> \<not> is_authentication e)"
  using redis_err.classified_injective memcached_err.classified_injective
    http_err.classified_injective redis_err.classified_failure_iff
    memcached_err.classified_failure_iff http_err.classified_failure_iff
  by simp

theorem classifiers_faithful_witness:
  "classify_http_error (\<lambda>_ _. False) (PyExn ''E'' ''x'') (Some 503) (Some ''get'') None
     = BackendError ''Server error: HTTP 503'' TRANSIENT (Some (PyExn ''E'' ''x'')) (Some ''get'') None
   \<and> is_circuit_breaker_failure (BackendExn
        (classify_http_error (\<lambda>_ _. False) (PyExn ''E'' ''x'') (Some 503) (Some ''get'') None))"
proof -
  have d: "dec_str 503 = ''503''"
    by code_simp
  have e: "classify_http_error (\<lambda>_ _. False) (PyExn ''E'' ''x'') (Some 503) (Some ''get'') None
     = BackendError ''Server error: HTTP 503'' TRANSIENT (Some (PyExn ''E'' ''x'')) (Some ''get'') None"
    by (simp add: classify_http_error_def d)
  moreover have "is_circuit_breaker_failure (BackendExn
      (classify_http_error (\<lambda>_ _. False) (PyExn ''E'' ''x'') (Some 503) (Some ''get'') None))"
    using classifiers_faithful [of True True "\<lambda>_ _. False" "PyExn ''E'' ''x''" "Some ''get''" None
        "PyExn ''E'' ''x''" "Some ''get''" None "\<lambda>_ _. False" "\<lambda>_ _. False" "Some 503"] e
    by (simp add: is_permanent_def is_authentication_def)
  ultimately show ?thesis by blast
qed

text \<open>
  The status-code table of the cachekit.io classifier: authentication for 401 and 403,
  TRANSIENT for 429 and 5xx, PERMANENT for every other 4xx (413 included), whatever the exception
  was; and without a response, or with any other status, the exception's class decides.
\<close>

theorem classify_http_error_table:
  "error_type (classify_http_error isa exc (Some status) op key) =
     (if status \<in> {401, 403} then AUTHENTICATION
      else if status = 429 \<or> status div 100 = 5 then TRANSIENT
      else if status div 100 = 4 then PERMANENT
      else error_type (classify_http_error isa exc None op key))"
proof -
  have "status div 100 = 5 \<longleftrightarrow> 500 \<le> status \<and> status < 600" by auto
  moreover have "status div 100 = 4 \<longleftrightarrow> 400 \<le> status \<and> status < 500" by auto
  ultimately show ?thesis by (simp add: classify_http_error_def Let_def)
qed

text \<open>
  Whenever redis-py's \<^verbatim>\<open>ClusterDownError\<close> is a subclass of \<^verbatim>\<open>ResponseError\<close> (as in every
  release that has the class), the branch that would make it TRANSIENT is dead: a cluster-down
  error that is not also an authentication, timeout or connection error is classified PERMANENT,
  although the documented rule is TRANSIENT.
\<close>

theorem cluster_down_is_permanent:
  assumes hierarchy: "\<And>e. isa e ClusterDownError \<Longrightarrow> isa e ResponseError"
    and exc: "isa exc ClusterDownError"
    and other: "\<forall>c \<in> {AuthenticationError, NoPermissionError, RedisTimeoutError,
                       RedisConnectionError, BusyLoadingError, ReadOnlyError}. \<not> isa exc c"
  shows "is_permanent (classify_redis_error True True isa exc op key)"
  using assms by (simp add: classify_redis_error_def Let_def is_permanent_def)

theorem cluster_down_is_permanent_witness:
  "is_permanent (classify_redis_error True True
     (\<lambda>e c. exn_class e = ''ClusterDownError'' \<and> c \<in> {ClusterDownError, ResponseError})
     (PyExn ''ClusterDownError'' ''CLUSTERDOWN'') (Some ''get'') None)"
  by (rule cluster_down_is_permanent) simp_all

end
