(* ===== verification/Envelope.thy ===== *)
theory Envelope
  imports Backend_Errors
begin

text \<open>
  \<^verbatim>\<open>serializers/wrapper.py\<close>: the v3 binary frame around serialized data. \<^verbatim>\<open>json.dumps(...).encode()\<close> and
  \<^verbatim>\<open>json.loads\<close> on the header, and the reader of the legacy base64-in-JSON envelope, are arguments; the framing
  itself is modelled byte by byte.
\<close>

definition FRAME_MAGIC :: bytes where "FRAME_MAGIC = [0x43, 0x4B]"
definition FRAME_VERSION :: byte where "FRAME_VERSION = 3"
definition HEADER_LEN_BYTES :: nat where "HEADER_LEN_BYTES = 4"
definition PREFIX_LEN :: nat where "PREFIX_LEN = length FRAME_MAGIC + 1 + HEADER_LEN_BYTES"

record 'm frame_header =
  fh_serializer :: string
  fh_metadata :: 'm
  fh_version :: string

datatype frame_error =
    HeaderOverflow nat
  | TruncatedFrame nat
  | UnsupportedVersion byte
  | InvalidHeaderLength nat nat
  | MalformedHeader pyexn
  | LegacyError pyexn

text \<open>The exceptions behind these values.\<close>

fun frame_exn :: "frame_error \<Rightarrow> pyexn" where
  "frame_exn (HeaderOverflow n) = PyExn ''OverflowError'' ''int too big to convert''"
| "frame_exn (TruncatedFrame n) = PyExn ''ValueError'' ''Truncated cache envelope frame''"
| "frame_exn (UnsupportedVersion v) = PyExn ''ValueError'' ''Unsupported cache envelope frame version''"
| "frame_exn (InvalidHeaderLength n m) = PyExn ''ValueError'' ''Invalid cache envelope header length''"
| "frame_exn (MalformedHeader e) = e"
| "frame_exn (LegacyError e) = e"

text \<open>\<^verbatim>\<open>len(header).to_bytes(4, "big")\<close> raises \<^verbatim>\<open>OverflowError\<close> for a header of 4 GiB or more.\<close>

definition wrap_prefix ::
  "('m frame_header \<Rightarrow> bytes) \<Rightarrow> 'm \<Rightarrow> string \<Rightarrow> string \<Rightarrow> frame_error + bytes" where
  "wrap_prefix dumps metadata serializer_name version =
     (let header = dumps \<lparr>fh_serializer = serializer_name, fh_metadata = metadata, fh_version = version\<rparr> in
      if length header \<ge> 256 ^ HEADER_LEN_BYTES then Inl (HeaderOverflow (length header))
      else Inr (FRAME_MAGIC @ [FRAME_VERSION] @ be_bytes HEADER_LEN_BYTES (length header) @ header))"

definition wrap ::
  "('m frame_header \<Rightarrow> bytes) \<Rightarrow> bytes \<Rightarrow> 'm \<Rightarrow> string \<Rightarrow> string \<Rightarrow> frame_error + bytes" where
  "wrap dumps data metadata serializer_name version =
     (case wrap_prefix dumps metadata serializer_name version of Inl e \<Rightarrow> Inl e | Inr p \<Rightarrow> Inr (p @ data))"

text \<open>
  \<^verbatim>\<open>unwrap\<close>. \<open>loads\<close> gives the metadata and the serializer name of a header, with the defaults of the two
  \<^verbatim>\<open>header.get\<close> calls, or the exception of \<^verbatim>\<open>json.loads\<close> or \<^verbatim>\<open>get\<close>; \<open>legacy\<close> reads anything that is no frame.
\<close>

definition unwrap ::
  "(bytes \<Rightarrow> pyexn + 'm \<times> 'n) \<Rightarrow> (bytes \<Rightarrow> pyexn + bytes \<times> 'm \<times> 'n) \<Rightarrow> bytes
   \<Rightarrow> frame_error + bytes \<times> 'm \<times> 'n" where
  "unwrap loads legacy w =
     (if take (length FRAME_MAGIC) w = FRAME_MAGIC then
        if length w < PREFIX_LEN then Inl (TruncatedFrame (length w))
        else if w ! length FRAME_MAGIC \<noteq> FRAME_VERSION then Inl (UnsupportedVersion (w ! length FRAME_MAGIC))
        else
          let hdr_len = be_val (take HEADER_LEN_BYTES (drop (length FRAME_MAGIC + 1) w));
              header_end = PREFIX_LEN + hdr_len
          in if header_end > length w then Inl (InvalidHeaderLength hdr_len (length w))
             else (case loads (take hdr_len (drop PREFIX_LEN w)) of
                     Inl e \<Rightarrow> Inl (MalformedHeader e)
                   | Inr (m, s) \<Rightarrow> Inr (drop header_end w, m, s))
      else (case legacy w of Inl e \<Rightarrow> Inl (LegacyError e) | Inr r \<Rightarrow> Inr r))"

section \<open>Properties\<close>

lemmas frame_defs = FRAME_MAGIC_def FRAME_VERSION_def HEADER_LEN_BYTES_def PREFIX_LEN_def

lemma frame_sizes: "length FRAME_MAGIC = 2" "PREFIX_LEN = 7" "(2 :: nat) + 1 = 3" "HEADER_LEN_BYTES = 4"
  by (simp_all add: frame_defs)

lemma unwrap_frame:
  assumes "length header < 256 ^ 4"
  shows "unwrap loads legacy (FRAME_MAGIC @ [FRAME_VERSION] @ be_bytes 4 (length header) @ header @ data) =
    (case loads header of Inl e \<Rightarrow> Inl (MalformedHeader e) | Inr (m, s) \<Rightarrow> Inr (data, m, s))"
proof -
  have "be_val (be_bytes 4 (length header)) = length header" using assms by (rule be_val_be_bytes_id)
  moreover have "drop (7 + length header) (([67, 75, 3] @ be_bytes 4 (length header) @ header) @ data) = data"
    by (rule drop_append_length) (simp del: be_bytes.simps)
  ultimately show ?thesis
    by (simp add: unwrap_def frame_defs Let_def del: be_bytes.simps split: sum.split)
qed

lemma unwrap_short:
  assumes "take 2 w = FRAME_MAGIC"
    "length w < 7 \<or> (w ! 2 = FRAME_VERSION \<and> length w < 7 + be_val (take 4 (drop 3 w)))"
  shows "\<exists>e. unwrap loads legacy w = Inl e"
  using assms unfolding unwrap_def frame_sizes Let_def by (auto simp: frame_sizes)

text \<open>
  Round trip: whatever the payload bytes are, unwrapping a wrapped frame returns exactly the payload,
  the metadata and the serializer name, provided the JSON library reads back the header it wrote; and
  the prefix written ahead of a streamed payload gives the same bytes as wrapping the whole payload.
\<close>

theorem frame_roundtrip:
  assumes "\<forall>h. loads (dumps h) = Inr (fh_metadata h, fh_serializer h)" "wrap dumps data m s ver = Inr w"
  shows "unwrap loads legacy w = Inr (data, m, s)
    \<and> (\<exists>p. wrap_prefix dumps m s ver = Inr p \<and> w = p @ data)"
proof -
  let ?h = "dumps \<lparr>fh_serializer = s, fh_metadata = m, fh_version = ver\<rparr>"
  have len: "length ?h < 256 ^ 4"
    and w: "w = FRAME_MAGIC @ [FRAME_VERSION] @ be_bytes 4 (length ?h) @ ?h @ data"
    and p: "wrap_prefix dumps m s ver = Inr (FRAME_MAGIC @ [FRAME_VERSION] @ be_bytes 4 (length ?h) @ ?h)"
    using assms(2) by (auto simp: wrap_def wrap_prefix_def Let_def HEADER_LEN_BYTES_def split: if_splits)
  show ?thesis using unwrap_frame [OF len, of loads legacy data] assms(1) by (simp add: w p)
qed

theorem frame_roundtrip_witness:
  "\<exists>w. wrap (\<lambda>h. str_bytes (fh_serializer h)) [0, 255] () ''auto'' ''2.0'' = Inr w
     \<and> unwrap (\<lambda>b. Inr ((), bytes_str b)) (\<lambda>b. Inl (PyExn ''ValueError'' [])) w = Inr ([0, 255], (), ''auto'')"
proof -
  have json: "\<forall>h :: unit frame_header. (Inr ((), bytes_str (str_bytes (fh_serializer h))) :: pyexn + _) = Inr (fh_metadata h, fh_serializer h)"
    by simp
  obtain w where w: "wrap (\<lambda>h. str_bytes (fh_serializer h)) [0, 255] () ''auto'' ''2.0'' = Inr w"
    by (simp add: wrap_def wrap_prefix_def HEADER_LEN_BYTES_def str_bytes_def)
  from frame_roundtrip [where loads = "\<lambda>b. Inr ((), bytes_str b)", OF json w] w show ?thesis by blast
qed

text \<open>
  A damaged frame is never read as a shorter value: every proper prefix of a frame that ends before
  the payload is rejected with an error (or, within the two magic bytes, handed to the legacy reader).
\<close>

theorem truncated_frame_rejected:
  assumes "wrap_prefix dumps m s ver = Inr p" "w = p @ data" "n < length p" "2 \<le> n"
  shows "\<exists>e. unwrap loads legacy (take n w) = Inl e"
proof -
  let ?h = "dumps \<lparr>fh_serializer = s, fh_metadata = m, fh_version = ver\<rparr>"
  have len: "length ?h < 256 ^ 4" and p: "p = [0x43, 0x4B, 3] @ be_bytes 4 (length ?h) @ ?h"
    using assms(1) by (auto simp: wrap_prefix_def Let_def frame_defs split: if_splits)
  have n: "n < 7 + length ?h" using assms(3) by (simp add: p)
  let ?f = "[0x43, 0x4B, 3] @ be_bytes 4 (length ?h) @ ?h @ data"
  have w: "take n w = take n ?f" by (simp add: assms(2) p)
  have len_w: "length (take n w) \<le> n" by simp
  have "take 2 (take n w) = take 2 ?f" using assms(4) by (simp only: w take_take min_absorb1)
  then have magic: "take 2 (take n w) = FRAME_MAGIC" by (simp add: frame_defs)
  show ?thesis
  proof (cases "n < 7")
    case True
    with len_w have "length (take n w) < 7" by linarith
    then show ?thesis by (intro unwrap_short [OF magic]) blast
  next
    case False
    have "take n w ! 2 = FRAME_VERSION" using False by (simp add: w frame_defs)
    moreover have "take 4 (drop 3 (take n w)) = take 4 (drop 3 ?f)"
      using False by (simp only: w drop_take take_take) (simp add: min_def)
    then have "be_val (take 4 (drop 3 (take n w))) = length ?h"
      using be_val_be_bytes_id [OF len] by (simp del: be_bytes.simps)
    ultimately show ?thesis using n len_w by (intro unwrap_short [OF magic]) linarith
  qed
qed

end
