(* ===== verification/Encryption.thy ===== *)
theory Encryption
  imports Envelope
begin

text \<open>
  \<^verbatim>\<open>serializers/base.py\<close> (the metadata of a serialized value) and \<^verbatim>\<open>serializers/encryption_wrapper.py\<close>
  (AES-256-GCM around any serializer, with additional authenticated data and a keyring). The cipher, the key
  derivation and the keyring are code of the Rust extension: the record \<open>crypto\<close> of functions. A Python string is
  represented by its UTF-8 form; a string that holds a lone surrogate, which \<^verbatim>\<open>encode\<close> refuses, is one whose
  form is not valid UTF-8.
\<close>

section \<open>Exception classes of the read and write paths\<close>

text \<open>
  The \<^verbatim>\<open>isinstance\<close> tests of the handlers. An exception is known by its class name; an instance of a subclass that is
  not listed goes by the nearest listed ancestor.
\<close>

fun exn_in :: "string list \<Rightarrow> pyexn \<Rightarrow> bool" where
  "exn_in cs (PyExn c t) = (c \<in> set cs)"
| "exn_in cs (BackendExn e) = False"

definition is_serialization_error :: "pyexn \<Rightarrow> bool" where
  "is_serialization_error = exn_in [''SerializationError'', ''SuspiciousCacheEntryError'', ''EncryptionError'',
     ''DecryptionAuthenticationError'', ''InteropDecodeError'']"

definition is_auth_error :: "pyexn \<Rightarrow> bool" where
  "is_auth_error = exn_in [''DecryptionAuthenticationError'']"

definition is_suspicious :: "pyexn \<Rightarrow> bool" where
  "is_suspicious = exn_in [''SuspiciousCacheEntryError'']"

definition is_keyring_error :: "pyexn \<Rightarrow> bool" where
  "is_keyring_error = exn_in [''KeyringConfigurationError'']"

definition is_interop_error :: "pyexn \<Rightarrow> bool" where
  "is_interop_error = exn_in [''InteropError'']"

definition is_value_error :: "pyexn \<Rightarrow> bool" where
  "is_value_error = exn_in [''ValueError'', ''KeyringConfigurationError'', ''InteropError'', ''UnicodeError'',
     ''UnicodeEncodeError'', ''UnicodeDecodeError'', ''JSONDecodeError'']"

lemmas exn_class_defs = is_serialization_error_def is_auth_error_def is_suspicious_def is_keyring_error_def
  is_interop_error_def is_value_error_def

section \<open>UTF-8 and hexadecimal text\<close>

definition cont :: "byte \<Rightarrow> bool" where
  "cont b \<longleftrightarrow> 0x80 \<le> unat b \<and> unat b \<le> 0xBF"

text \<open>The strict decoder: no overlong form, no surrogate, nothing above U+10FFFF.\<close>

fun utf8_valid :: "bytes \<Rightarrow> bool" where
  "utf8_valid [] = True"
| "utf8_valid (b # bs) =
     (let x = unat b in
      if x < 0x80 then utf8_valid bs
      else if x < 0xC2 then False
      else if x \<le> 0xDF then (case bs of c # r \<Rightarrow> cont c \<and> utf8_valid r | _ \<Rightarrow> False)
      else if x \<le> 0xEF then
        (case bs of
           c # d # r \<Rightarrow> cont c \<and> cont d \<and> (x = 0xE0 \<longrightarrow> 0xA0 \<le> unat c) \<and> (x = 0xED \<longrightarrow> unat c \<le> 0x9F) \<and> utf8_valid r
         | _ \<Rightarrow> False)
      else if x \<le> 0xF4 then
        (case bs of
           c # d # e # r \<Rightarrow> cont c \<and> cont d \<and> cont e \<and> (x = 0xF0 \<longrightarrow> 0x90 \<le> unat c) \<and> (x = 0xF4 \<longrightarrow> unat c \<le> 0x8F)
             \<and> utf8_valid r
         | _ \<Rightarrow> False)
      else False)"

definition encode_utf8 :: "string \<Rightarrow> pyexn + bytes" where
  "encode_utf8 s = (if utf8_valid (str_bytes s) then Inr (str_bytes s) else Inl (PyExn ''UnicodeEncodeError'' s))"

definition decode_utf8 :: "bytes \<Rightarrow> pyexn + string" where
  "decode_utf8 b = (if utf8_valid b then Inr (bytes_str b) else Inl (PyExn ''UnicodeDecodeError'' []))"

definition hexval :: "char \<Rightarrow> nat option" where
  "hexval c = (let n = of_char c :: nat in
     if 48 \<le> n \<and> n \<le> 57 then Some (n - 48)
     else if 97 \<le> n \<and> n \<le> 102 then Some (n - 87)
     else if 65 \<le> n \<and> n \<le> 70 then Some (n - 55) else None)"

definition ascii_space :: "char \<Rightarrow> bool" where
  "ascii_space c \<longleftrightarrow> (of_char c :: nat) \<in> {9, 10, 11, 12, 13, 32}"

text \<open>\<^verbatim>\<open>bytes.fromhex\<close>: white space is skipped between bytes, not inside them.\<close>

fun fromhex :: "string \<Rightarrow> bytes option" where
  "fromhex [] = Some []"
| "fromhex (c # cs) =
     (if ascii_space c then fromhex cs
      else (case cs of
              [] \<Rightarrow> None
            | d # ds \<Rightarrow>
                (case (hexval c, hexval d) of
                   (Some a, Some b) \<Rightarrow> map_option (\<lambda>r. word_of_nat (16 * a + b) # r) (fromhex ds)
                 | _ \<Rightarrow> None)))"

section \<open>Metadata\<close>

datatype serialization_format = MSGPACK | ORJSON | ARROW

fun format_value :: "serialization_format \<Rightarrow> string" where
  "format_value MSGPACK = ''msgpack''"
| "format_value ORJSON = ''orjson''"
| "format_value ARROW = ''arrow''"

text \<open>
  A value of the unauthenticated JSON header, whatever a writer put there: numbers, lists and dictionaries are known by
  their \<^verbatim>\<open>str()\<close> and their truth value.
\<close>

datatype hval =
    HNone | HBool bool | HStr string | HNum string bool | HList string bool | HDict string bool

fun hv_str :: "hval \<Rightarrow> string" where
  "hv_str HNone = ''None''"
| "hv_str (HBool b) = (if b then ''True'' else ''False'')"
| "hv_str (HStr s) = s"
| "hv_str (HNum t _) = t"
| "hv_str (HList t _) = t"
| "hv_str (HDict t _) = t"

fun hv_truthy :: "hval \<Rightarrow> bool" where
  "hv_truthy HNone = False"
| "hv_truthy (HBool b) = b"
| "hv_truthy (HStr s) = (s \<noteq> [])"
| "hv_truthy (HNum _ b) = b"
| "hv_truthy (HList _ b) = b"
| "hv_truthy (HDict _ b) = b"

fun opt_hval :: "string option \<Rightarrow> hval" where
  "opt_hval None = HNone"
| "opt_hval (Some s) = HStr s"

record ser_metadata =
  sm_format :: serialization_format
  sm_encoding :: hval
  sm_compressed :: hval
  sm_original_type :: hval
  sm_encrypted :: hval
  sm_tenant_id :: hval
  sm_encryption_algorithm :: hval
  sm_key_fingerprint :: hval

definition base_metadata :: "serialization_format \<Rightarrow> hval \<Rightarrow> hval \<Rightarrow> hval \<Rightarrow> ser_metadata" where
  "base_metadata f enc compr ot = \<lparr>sm_format = f, sm_encoding = enc, sm_compressed = compr, sm_original_type = ot,
     sm_encrypted = HBool False, sm_tenant_id = HNone, sm_encryption_algorithm = HNone, sm_key_fingerprint = HNone\<rparr>"

text \<open>The header's metadata: a dictionary, or some other JSON value that subscripting refuses.\<close>

datatype md_value = MDict "(string \<times> hval) list" | MOther

definition to_dict :: "ser_metadata \<Rightarrow> md_value" where
  "to_dict m = MDict
     ([(''format'', HStr (format_value (sm_format m))), (''encoding'', sm_encoding m),
       (''compressed'', sm_compressed m), (''original_type'', sm_original_type m)]
      @ (if hv_truthy (sm_encrypted m)
         then [(''encrypted'', sm_encrypted m), (''tenant_id'', sm_tenant_id m),
               (''encryption_algorithm'', sm_encryption_algorithm m), (''key_fingerprint'', sm_key_fingerprint m)]
         else []))"

definition dget :: "(string \<times> hval) list \<Rightarrow> string \<Rightarrow> hval \<Rightarrow> hval" where
  "dget d k dflt = (case map_of d k of None \<Rightarrow> dflt | Some v \<Rightarrow> v)"

fun format_of :: "hval \<Rightarrow> pyexn + serialization_format" where
  "format_of (HStr s) =
     (if s = ''msgpack'' then Inr MSGPACK else if s = ''orjson'' then Inr ORJSON
      else if s = ''arrow'' then Inr ARROW else Inl (PyExn ''ValueError'' ''not a valid SerializationFormat''))"
| "format_of _ = Inl (PyExn ''ValueError'' ''not a valid SerializationFormat'')"

fun from_dict :: "md_value \<Rightarrow> pyexn + ser_metadata" where
  "from_dict MOther = Inl (PyExn ''TypeError'' ''not subscriptable by a string'')"
| "from_dict (MDict d) =
     (case map_of d ''format'' of
        None \<Rightarrow> Inl (PyExn ''KeyError'' ''format'')
      | Some v \<Rightarrow>
          (case format_of v of
             Inl e \<Rightarrow> Inl e
           | Inr f \<Rightarrow> Inr \<lparr>sm_format = f, sm_encoding = dget d ''encoding'' (HStr ''utf-8''),
               sm_compressed = dget d ''compressed'' (HBool False), sm_original_type = dget d ''original_type'' HNone,
               sm_encrypted = dget d ''encrypted'' (HBool False), sm_tenant_id = dget d ''tenant_id'' HNone,
               sm_encryption_algorithm = dget d ''encryption_algorithm'' HNone,
               sm_key_fingerprint = dget d ''key_fingerprint'' HNone\<rparr>))"

section \<open>Additional authenticated data\<close>

definition aad_original_type :: "hval \<Rightarrow> pyexn + bytes list" where
  "aad_original_type v =
     (if \<not> hv_truthy v then Inr []
      else case v of
             HStr s \<Rightarrow> (case encode_utf8 s of Inl e \<Rightarrow> Inl e | Inr b \<Rightarrow> Inr [b])
           | _ \<Rightarrow> Inl (PyExn ''AttributeError'' ''encode''))"

definition aad_components :: "string \<Rightarrow> ser_metadata \<Rightarrow> string \<Rightarrow> pyexn + bytes list" where
  "aad_components tenant m cache_key =
     (case encode_utf8 tenant of Inl e \<Rightarrow> Inl e | Inr t \<Rightarrow>
      (case encode_utf8 cache_key of Inl e \<Rightarrow> Inl e | Inr k \<Rightarrow>
       (case encode_utf8 (format_value (sm_format m)) of Inl e \<Rightarrow> Inl e | Inr f \<Rightarrow>
        (case encode_utf8 (hv_str (sm_compressed m)) of Inl e \<Rightarrow> Inl e | Inr c \<Rightarrow>
         (case aad_original_type (sm_original_type m) of Inl e \<Rightarrow> Inl e | Inr os \<Rightarrow> Inr ([t, k, f, c] @ os))))))"

fun frame_components :: "bytes list \<Rightarrow> pyexn + bytes" where
  "frame_components [] = Inr []"
| "frame_components (b # bs) =
     (if length b \<ge> 256 ^ 4 then Inl (PyExn ''OverflowError'' ''int too big to convert'')
      else (case frame_components bs of Inl e \<Rightarrow> Inl e | Inr r \<Rightarrow> Inr (be_bytes 4 (length b) @ b @ r)))"

definition create_aad :: "string \<Rightarrow> ser_metadata \<Rightarrow> string \<Rightarrow> pyexn + bytes" where
  "create_aad tenant m cache_key =
     (case aad_components tenant m cache_key of
        Inl e \<Rightarrow> Inl e
      | Inr cs \<Rightarrow> (case frame_components cs of Inl e \<Rightarrow> Inl e | Inr r \<Rightarrow> Inr (0x03 # r)))"

function parse_components :: "bytes \<Rightarrow> pyexn + string list" where
  "parse_components r =
     (if r = [] then Inr []
      else if length r < 4 then Inl (PyExn ''ValueError'' ''Invalid AAD: truncated length field'')
      else
        let n = be_val (take 4 r); rest = drop 4 r in
        if length rest < n then Inl (PyExn ''ValueError'' ''Invalid AAD: truncated component'')
        else
          (case decode_utf8 (take n rest) of
             Inl e \<Rightarrow> Inl e
           | Inr c \<Rightarrow> (case parse_components (drop n rest) of Inl e \<Rightarrow> Inl e | Inr cs \<Rightarrow> Inr (c # cs))))"
  by pat_completeness auto
termination
  by (relation "measure length") (auto simp: Let_def)

declare parse_components.simps [simp del]

record parsed_aad =
  pa_tenant_id :: string
  pa_cache_key :: string
  pa_format :: string
  pa_compressed :: string
  pa_original_type :: "string option"

definition nth_or :: "'a list \<Rightarrow> nat \<Rightarrow> 'a \<Rightarrow> 'a" where
  "nth_or xs n d = (if n < length xs then xs ! n else d)"

definition parse_aad :: "bytes \<Rightarrow> pyexn + parsed_aad" where
  "parse_aad aad =
     (case aad of
        [] \<Rightarrow> Inl (PyExn ''ValueError'' ''Empty AAD'')
      | v # r \<Rightarrow>
          if v \<noteq> 0x03 then Inl (PyExn ''ValueError'' ''Unsupported AAD version'')
          else (case parse_components r of
                  Inl e \<Rightarrow> Inl e
                | Inr cs \<Rightarrow> Inr \<lparr>pa_tenant_id = nth_or cs 0 [], pa_cache_key = nth_or cs 1 [], pa_format = nth_or cs 2 [],
                    pa_compressed = nth_or cs 3 [],
                    pa_original_type = (if length cs > 4 then Some (cs ! 4) else None)\<rparr>))"

section \<open>The wrapper\<close>

text \<open>
  A serializer; and the functions of the Rust extension: \<^verbatim>\<open>derive_tenant_keys\<close>, the fingerprint of derived keys in
  hexadecimal, \<^verbatim>\<open>encrypt_with_keys\<close> (the random nonce is an argument), \<^verbatim>\<open>decrypt_with_keys\<close>, the \<^verbatim>\<open>Keyring\<close> constructor
  and its methods.
\<close>

record 'a serializer =
  sr_serialize :: "'a \<Rightarrow> pyexn + bytes \<times> ser_metadata"
  sr_deserialize :: "bytes \<Rightarrow> ser_metadata option \<Rightarrow> pyexn + 'a"

record ('k, 'r) crypto =
  cr_derive :: "bytes \<Rightarrow> string \<Rightarrow> pyexn + 'k"
  cr_fingerprint :: "'k \<Rightarrow> string"
  cr_encrypt :: "bytes \<Rightarrow> bytes \<Rightarrow> bytes \<Rightarrow> 'k \<Rightarrow> pyexn + bytes"
  cr_decrypt :: "bytes \<Rightarrow> bytes \<Rightarrow> 'k \<Rightarrow> pyexn + bytes"
  cr_keyring :: "bytes \<Rightarrow> bytes list \<Rightarrow> pyexn + 'r"
  cr_keyring_fingerprints :: "'r \<Rightarrow> string \<Rightarrow> pyexn + string list"
  cr_decrypt_at :: "'r \<Rightarrow> nat \<Rightarrow> bytes \<Rightarrow> string \<Rightarrow> bytes \<Rightarrow> pyexn + bytes"
  cr_keyring_decrypt :: "'r \<Rightarrow> bytes \<Rightarrow> string \<Rightarrow> bytes \<Rightarrow> pyexn + bytes"

record ('k, 'r) encryption_wrapper =
  ew_tenant_id :: string
  ew_fail_closed :: bool
  ew_tenant_keys :: 'k
  ew_fingerprint :: string
  ew_keyring :: 'r
  ew_keyring_fingerprints :: "string list"

text \<open>The settings the encryption layer reads; keys are hexadecimal text.\<close>

record key_settings =
  ks_master_key :: "string option"
  ks_previous_master_keys :: "string list"

fun fromhex_all :: "string list \<Rightarrow> bytes list option" where
  "fromhex_all [] = Some []"
| "fromhex_all (h # hs) =
     (case fromhex h of None \<Rightarrow> None | Some b \<Rightarrow> map_option (\<lambda>bs. b # bs) (fromhex_all hs))"

definition master_key_bytes :: "key_settings \<Rightarrow> bytes option \<Rightarrow> pyexn + bytes" where
  "master_key_bytes st master_key =
     (case master_key of
        Some k \<Rightarrow> Inr k
      | None \<Rightarrow>
          if \<not> truthy_str (ks_master_key st) then Inl (PyExn ''EncryptionError'' ''Master key required'')
          else (case fromhex (the (ks_master_key st)) of
                  None \<Rightarrow> Inl (PyExn ''EncryptionError'' ''Invalid master key format in configuration'')
                | Some k \<Rightarrow> Inr k))"

definition previous_keys :: "key_settings \<Rightarrow> bytes list option \<Rightarrow> pyexn + bytes list" where
  "previous_keys st previous =
     (case (case previous of Some ps \<Rightarrow> Some ps | None \<Rightarrow> fromhex_all (ks_previous_master_keys st)) of
        None \<Rightarrow> Inl (PyExn ''ValueError'' ''non-hexadecimal number found in fromhex() arg'')
      | Some ps \<Rightarrow>
          if list_ex (\<lambda>k. length k < 32) ps then Inl (PyExn ''ValueError'' ''Previous master key must be at least 32 bytes'')
          else Inr ps)"

text \<open>
  \<^verbatim>\<open>__init__\<close> with \<^verbatim>\<open>_setup_encryption\<close>. The tenant is a header value: the read path hands over what the stored header
  says, and \<^verbatim>\<open>derive_tenant_keys\<close> refuses everything but a string.
\<close>

definition derive_keys :: "('k, 'r) crypto \<Rightarrow> bytes \<Rightarrow> hval \<Rightarrow> pyexn + 'k" where
  "derive_keys cr mk tenant =
     (case (case tenant of HStr t \<Rightarrow> cr_derive cr mk t | _ \<Rightarrow> Inl (PyExn ''TypeError'' ''tenant_id'')) of
        Inl e \<Rightarrow> Inl (PyExn ''EncryptionError'' (''Failed to derive tenant keys: '' @ exn_str e))
      | Inr k \<Rightarrow> Inr k)"

definition make_wrapper ::
  "('k, 'r) crypto \<Rightarrow> key_settings \<Rightarrow> bytes option \<Rightarrow> hval \<Rightarrow> bool \<Rightarrow> bytes list option
   \<Rightarrow> pyexn + ('k, 'r) encryption_wrapper" where
  "make_wrapper cr st master_key tenant fail_closed previous =
     (case master_key_bytes st master_key of Inl e \<Rightarrow> Inl e | Inr mk \<Rightarrow>
      if length mk < 32 then Inl (PyExn ''EncryptionError'' ''Master key must be at least 32 bytes (256 bits)'')
      else
      (case previous_keys st previous of Inl e \<Rightarrow> Inl e | Inr ps \<Rightarrow>
       (case cr_keyring cr mk ps of Inl e \<Rightarrow> Inl e | Inr kr \<Rightarrow>
        (case derive_keys cr mk tenant of Inl e \<Rightarrow> Inl e | Inr keys \<Rightarrow>
         (case cr_keyring_fingerprints cr kr (hv_str tenant) of Inl e \<Rightarrow> Inl e | Inr fps \<Rightarrow>
          if fps = [] then Inl (PyExn ''IndexError'' ''list index out of range'')
          else if hd fps \<noteq> cr_fingerprint cr keys
          then Inl (PyExn ''ValueError'' ''cachekit-core invariant violation: keyring entry 0 fingerprint'')
          else Inr \<lparr>ew_tenant_id = hv_str tenant, ew_fail_closed = fail_closed, ew_tenant_keys = keys,
                    ew_fingerprint = cr_fingerprint cr keys, ew_keyring = kr, ew_keyring_fingerprints = fps\<rparr>)))))"

definition enc_serialize ::
  "('k, 'r) crypto \<Rightarrow> 'a serializer \<Rightarrow> bytes \<Rightarrow> ('k, 'r) encryption_wrapper \<Rightarrow> 'a \<Rightarrow> string
   \<Rightarrow> pyexn + bytes \<times> ser_metadata" where
  "enc_serialize cr sr nonce w obj cache_key =
     (if cache_key = [] then Inl (PyExn ''ValueError'' ''cache_key is required when encryption is enabled'')
      else
      (case sr_serialize sr obj of
         Inl e \<Rightarrow> if is_value_error e then Inl e
                  else Inl (PyExn ''SerializationError'' (''Serialization failed: '' @ exn_str e))
       | Inr (raw, m) \<Rightarrow>
           (case create_aad (ew_tenant_id w) m cache_key of
              Inl e \<Rightarrow> Inl (PyExn ''EncryptionError'' (''Encryption failed: '' @ exn_str e))
            | Inr aad \<Rightarrow>
                (case cr_encrypt cr nonce raw aad (ew_tenant_keys w) of
                   Inl e \<Rightarrow> Inl (PyExn ''EncryptionError'' (''Encryption failed: '' @ exn_str e))
                 | Inr ct \<Rightarrow>
                     Inr (ct, \<lparr>sm_format = sm_format m, sm_encoding = sm_encoding m, sm_compressed = sm_compressed m,
                       sm_original_type = sm_original_type m, sm_encrypted = HBool True,
                       sm_tenant_id = HStr (ew_tenant_id w), sm_encryption_algorithm = HStr ''AES-256-GCM'',
                       sm_key_fingerprint = HStr (ew_fingerprint w)\<rparr>)))))"

text \<open>\<^verbatim>\<open>list.index\<close> of a header value in the fingerprints, and the slice \<^verbatim>\<open>[:12]\<close> of the log messages, which a header can break.\<close>

fun index_of :: "string list \<Rightarrow> hval \<Rightarrow> nat option" where
  "index_of [] v = None"
| "index_of (f # fs) v = (if v = HStr f then Some 0 else map_option Suc (index_of fs v))"

fun sliceable :: "hval \<Rightarrow> bool" where
  "sliceable (HStr _) = True"
| "sliceable (HList _ _) = True"
| "sliceable _ = False"

definition raw_metadata :: "ser_metadata \<Rightarrow> ser_metadata" where
  "raw_metadata m = base_metadata (sm_format m) (sm_encoding m) (sm_compressed m) (sm_original_type m)"

definition decrypted_object :: "'a serializer \<Rightarrow> ser_metadata \<Rightarrow> pyexn + bytes \<Rightarrow> pyexn + 'a" where
  "decrypted_object sr m r =
     (case r of
        Inl e \<Rightarrow> if is_keyring_error e then Inl e
                 else Inl (PyExn ''DecryptionAuthenticationError'' (''Decryption failed: '' @ exn_str e))
      | Inr p \<Rightarrow>
          (case sr_deserialize sr p (Some (raw_metadata m)) of
             Inl e \<Rightarrow> Inl (PyExn ''EncryptionError'' (''Deserialization failed after successful decryption: '' @ exn_str e))
           | Inr v \<Rightarrow> Inr v))"

definition enc_deserialize ::
  "('k, 'r) crypto \<Rightarrow> 'a serializer \<Rightarrow> ('k, 'r) encryption_wrapper \<Rightarrow> bytes \<Rightarrow> ser_metadata \<Rightarrow> string \<Rightarrow> pyexn + 'a" where
  "enc_deserialize cr sr w data m cache_key =
     (if \<not> hv_truthy (sm_encrypted m)
      then Inl (PyExn ''DecryptionAuthenticationError'' ''EncryptionWrapper.deserialize received an entry claiming plaintext'')
      else if cache_key = [] then Inl (PyExn ''ValueError'' ''cache_key is required to decrypt data'')
      else if sm_tenant_id m \<noteq> HStr (ew_tenant_id w)
      then Inl (PyExn ''DecryptionAuthenticationError'' ''Tenant mismatch'')
      else
        let i = index_of (ew_keyring_fingerprints w) (sm_key_fingerprint m) in
        if i = None \<and> hv_truthy (sm_key_fingerprint m) \<and> \<not> sliceable (sm_key_fingerprint m)
        then Inl (PyExn ''TypeError'' ''key_fingerprint is not subscriptable'')
        else if i = None \<and> ew_fail_closed w
        then Inl (PyExn ''DecryptionAuthenticationError'' ''Key fingerprint mismatch'')
        else decrypted_object sr m
          (case create_aad (ew_tenant_id w) (raw_metadata m) cache_key of
             Inl e \<Rightarrow> Inl e
           | Inr aad \<Rightarrow>
               (case i of
                  Some (Suc j) \<Rightarrow> cr_decrypt_at cr (ew_keyring w) (Suc j) data (ew_tenant_id w) aad
                | _ \<Rightarrow> cr_decrypt cr data aad (ew_tenant_keys w))))"

definition deserialize_without_key_identity ::
  "('k, 'r) crypto \<Rightarrow> 'a serializer \<Rightarrow> ('k, 'r) encryption_wrapper \<Rightarrow> bytes \<Rightarrow> ser_metadata \<Rightarrow> string \<Rightarrow> pyexn + 'a" where
  "deserialize_without_key_identity cr sr w data m cache_key =
     (if cache_key = [] then Inl (PyExn ''ValueError'' ''cache_key is required to decrypt data'')
      else decrypted_object sr m
        (case create_aad (ew_tenant_id w) (raw_metadata m) cache_key of
           Inl e \<Rightarrow> Inl e
         | Inr aad \<Rightarrow>
             if length (ew_keyring_fingerprints w) = 1 then cr_decrypt cr data aad (ew_tenant_keys w)
             else cr_keyring_decrypt cr (ew_keyring w) data (ew_tenant_id w) aad))"

section \<open>Authenticated data\<close>

lemma encode_utf8_Inr [simp]: "encode_utf8 s = Inr b \<longleftrightarrow> utf8_valid (str_bytes s) \<and> b = str_bytes s"
  by (auto simp: encode_utf8_def)

lemma parse_frame_components:
  assumes "frame_components (map str_bytes ss) = Inr r" "list_all (\<lambda>s. utf8_valid (str_bytes s)) ss"
  shows "parse_components r = Inr ss"
  using assms
proof (induction ss arbitrary: r)
  case Nil
  then show ?case by (simp add: parse_components.simps)
next
  case (Cons s ss)
  let ?b = "str_bytes s"
  from Cons.prems(1) obtain r' where len: "length ?b < 256 ^ 4" and r': "frame_components (map str_bytes ss) = Inr r'"
    and r: "r = be_bytes 4 (length ?b) @ ?b @ r'"
    by (auto split: if_splits sum.splits)
  have rest: "parse_components r' = Inr ss" using Cons.IH [OF r'] Cons.prems(2) by simp
  have "be_val (take 4 r) = length ?b" "drop 4 r = ?b @ r'"
    using be_val_be_bytes_id [OF len] by (simp_all add: r del: be_bytes.simps)
  moreover have "r \<noteq> []" "\<not> length r < 4"
    using length_be_bytes [of 4 "length ?b"] by (auto simp: r simp del: be_bytes.simps length_be_bytes)
  ultimately show ?case
    using rest Cons.prems(2) by (subst parse_components.simps) (simp add: Let_def decode_utf8_def)
qed

lemma format_value_inject [simp]: "format_value f = format_value g \<longleftrightarrow> f = g"
  by (cases f; cases g) simp_all

definition shown_type :: "hval \<Rightarrow> string option" where
  "shown_type v = (if hv_truthy v then Some (hv_str v) else None)"

lemma aad_original_type_Inr:
  "aad_original_type v = Inr os \<Longrightarrow>
   (\<exists>ss. os = map str_bytes ss \<and> list_all (\<lambda>s. utf8_valid (str_bytes s)) ss
      \<and> ss = (case shown_type v of None \<Rightarrow> [] | Some s \<Rightarrow> [s]))"
  by (auto simp: aad_original_type_def shown_type_def encode_utf8_def split: if_splits hval.splits)

lemma aad_components_Inr:
  assumes "aad_components t m k = Inr cs"
  shows "\<exists>ss. cs = map str_bytes ss \<and> list_all (\<lambda>s. utf8_valid (str_bytes s)) ss
    \<and> ss = [t, k, format_value (sm_format m), hv_str (sm_compressed m)]
           @ (case shown_type (sm_original_type m) of None \<Rightarrow> [] | Some s \<Rightarrow> [s])"
  using assms aad_original_type_Inr [of "sm_original_type m"]
  by (auto simp: aad_components_def encode_utf8_def split: if_splits sum.splits)

lemma parse_create_aad:
  assumes "create_aad t m k = Inr a"
  shows "parse_aad a = Inr \<lparr>pa_tenant_id = t, pa_cache_key = k, pa_format = format_value (sm_format m),
    pa_compressed = hv_str (sm_compressed m), pa_original_type = shown_type (sm_original_type m)\<rparr>"
proof -
  from assms obtain cs r where cs: "aad_components t m k = Inr cs" and r: "frame_components cs = Inr r" and a: "a = 3 # r"
    by (auto simp: create_aad_def split: sum.splits)
  from aad_components_Inr [OF cs] obtain ss where ss: "cs = map str_bytes ss" "list_all (\<lambda>s. utf8_valid (str_bytes s)) ss"
    "ss = [t, k, format_value (sm_format m), hv_str (sm_compressed m)]
       @ (case shown_type (sm_original_type m) of None \<Rightarrow> [] | Some s \<Rightarrow> [s])" by blast
  have "parse_components r = Inr ss" using parse_frame_components r ss(1,2) by blast
  then show ?thesis
    by (simp add: parse_aad_def a ss(3) nth_or_def nth_append split: option.split)
qed

lemma create_aad_inject:
  assumes "create_aad t m k = Inr a" "create_aad t' m' k' = Inr a"
  shows "t = t' \<and> k = k' \<and> sm_format m = sm_format m'
    \<and> hv_str (sm_compressed m) = hv_str (sm_compressed m')
    \<and> shown_type (sm_original_type m) = shown_type (sm_original_type m')"
  using parse_create_aad [OF assms(1)] parse_create_aad [OF assms(2)] by simp

text \<open>
  The authenticated data is unambiguous: parsing it returns the components it was made from, and two calls
  produce the same bytes only for the same tenant, cache key, format, compression flag and original type, whatever
  those strings contain.
\<close>

theorem aad_roundtrip:
  assumes "create_aad t m k = Inr a"
  shows "parse_aad a = Inr \<lparr>pa_tenant_id = t, pa_cache_key = k, pa_format = format_value (sm_format m),
      pa_compressed = hv_str (sm_compressed m), pa_original_type = shown_type (sm_original_type m)\<rparr>
    \<and> (\<forall>t' m' k'. create_aad t' m' k' = Inr a \<longrightarrow> t' = t \<and> k' = k \<and> sm_format m' = sm_format m
         \<and> hv_str (sm_compressed m') = hv_str (sm_compressed m)
         \<and> shown_type (sm_original_type m') = shown_type (sm_original_type m))"
  using parse_create_aad [OF assms] create_aad_inject [OF _ assms] by (intro conjI allI impI) blast+

theorem aad_roundtrip_witness:
  "\<exists>a. create_aad ''t'' (base_metadata ARROW (HStr ''utf-8'') (HBool True) (HStr ''df'')) ''a:b'' = Inr a
     \<and> parse_aad a = Inr \<lparr>pa_tenant_id = ''t'', pa_cache_key = ''a:b'', pa_format = ''arrow'', pa_compressed = ''True'',
         pa_original_type = Some ''df''\<rparr>"
proof -
  let ?m = "base_metadata ARROW (HStr ''utf-8'') (HBool True) (HStr ''df'')"
  have "\<exists>a. create_aad ''t'' (base_metadata ARROW (HStr ''utf-8'') (HBool True) (HStr ''df'')) ''a:b'' = Inr a"
    by (simp add: create_aad_def aad_components_def base_metadata_def aad_original_type_def encode_utf8_def str_bytes_def)
  then obtain a where a: "create_aad ''t'' (base_metadata ARROW (HStr ''utf-8'') (HBool True) (HStr ''df'')) ''a:b'' = Inr a" by blast
  have "sm_format ?m = ARROW" "hv_str (sm_compressed ?m) = ''True''" "shown_type (sm_original_type ?m) = Some ''df''"
    by (simp_all add: base_metadata_def shown_type_def)
  with aad_roundtrip [OF a] have "parse_aad a = Inr \<lparr>pa_tenant_id = ''t'', pa_cache_key = ''a:b'', pa_format = ''arrow'',
      pa_compressed = ''True'', pa_original_type = Some ''df''\<rparr>" by simp
  with a show ?thesis by blast
qed

section \<open>What the encryption layer promises\<close>

text \<open>
  The documented behaviour of the extension that the round trip needs: decryption inverts encryption for the same
  keys and data; a keyring's entries are the current and the previous master keys in order, addressed by the fingerprints
  of the keys derived from them, and \<^verbatim>\<open>decrypt_at\<close> uses exactly the entry it is given; different derived keys have
  different fingerprints.
\<close>

definition cipher_inverts :: "('k, 'r) crypto \<Rightarrow> bool" where
  "cipher_inverts cr \<longleftrightarrow> (\<forall>n p a k c. cr_encrypt cr n p a k = Inr c \<longrightarrow> cr_decrypt cr c a k = Inr p)"

definition keyring_lawful :: "('k, 'r) crypto \<Rightarrow> bool" where
  "keyring_lawful cr \<longleftrightarrow>
     (\<forall>mk ps kr t fps. cr_keyring cr mk ps = Inr kr \<and> cr_keyring_fingerprints cr kr t = Inr fps \<longrightarrow>
       (\<exists>ks. list_all2 (\<lambda>m k. cr_derive cr m t = Inr k) (mk # ps) ks \<and> fps = map (cr_fingerprint cr) ks
          \<and> (\<forall>i c a. i < length ks \<longrightarrow> cr_decrypt_at cr kr i c t a = cr_decrypt cr c a (ks ! i))))
     \<and> (\<forall>k k'. cr_fingerprint cr k = cr_fingerprint cr k' \<longrightarrow> k = k')"

definition serializer_inverts :: "'a serializer \<Rightarrow> bool" where
  "serializer_inverts sr \<longleftrightarrow>
     (\<forall>obj raw m. sr_serialize sr obj = Inr (raw, m) \<longrightarrow> sr_deserialize sr raw (Some (raw_metadata m)) = Inr obj)"

lemma index_of_Some: "index_of fs v = Some i \<Longrightarrow> i < length fs \<and> v = HStr (fs ! i)"
  by (induction fs arbitrary: i) (auto split: if_splits)

lemma index_of_mem: "f \<in> set fs \<Longrightarrow> \<exists>i. index_of fs (HStr f) = Some i"
  by (induction fs) auto

lemma raw_metadata_idem [simp]: "raw_metadata (raw_metadata m) = raw_metadata m"
  by (simp add: raw_metadata_def base_metadata_def)

lemma raw_metadata_sel [simp]:
  "sm_format (raw_metadata m) = sm_format m" "sm_compressed (raw_metadata m) = sm_compressed m"
  "sm_original_type (raw_metadata m) = sm_original_type m"
  by (simp_all add: raw_metadata_def base_metadata_def)

lemma create_aad_raw [simp]: "create_aad t (raw_metadata m) k = create_aad t m k"
  unfolding create_aad_def aad_components_def raw_metadata_sel ..

lemma enc_serialize_Inr:
  assumes "enc_serialize cr sr n w obj k = Inr (ct, md)"
  obtains raw m aad where "k \<noteq> []" "sr_serialize sr obj = Inr (raw, m)" "create_aad (ew_tenant_id w) m k = Inr aad"
    "cr_encrypt cr n raw aad (ew_tenant_keys w) = Inr ct" "raw_metadata md = raw_metadata m"
    "sm_encrypted md = HBool True" "sm_tenant_id md = HStr (ew_tenant_id w)"
    "sm_key_fingerprint md = HStr (ew_fingerprint w)"
proof -
  from assms obtain raw m aad where
    "k \<noteq> []" "sr_serialize sr obj = Inr (raw, m)" "create_aad (ew_tenant_id w) m k = Inr aad"
    "cr_encrypt cr n raw aad (ew_tenant_keys w) = Inr ct"
    "md = \<lparr>sm_format = sm_format m, sm_encoding = sm_encoding m, sm_compressed = sm_compressed m,
        sm_original_type = sm_original_type m, sm_encrypted = HBool True, sm_tenant_id = HStr (ew_tenant_id w),
        sm_encryption_algorithm = HStr ''AES-256-GCM'', sm_key_fingerprint = HStr (ew_fingerprint w)\<rparr>"
    by (auto simp: enc_serialize_def split: if_splits sum.splits)
  then show thesis by (intro that) (auto simp: raw_metadata_def base_metadata_def)
qed

lemma make_wrapper_Inr:
  assumes "make_wrapper cr st (Some mk) (HStr t) fc (Some ps) = Inr w"
  obtains kr fps where "cr_keyring cr mk ps = Inr kr" "cr_derive cr mk t = Inr (ew_tenant_keys w)"
    "cr_keyring_fingerprints cr kr t = Inr fps" "fps \<noteq> []" "hd fps = cr_fingerprint cr (ew_tenant_keys w)"
    "ew_tenant_id w = t" "ew_fail_closed w = fc" "ew_fingerprint w = cr_fingerprint cr (ew_tenant_keys w)"
    "ew_keyring w = kr" "ew_keyring_fingerprints w = fps"
  using assms
  by (auto simp: make_wrapper_def master_key_bytes_def previous_keys_def derive_keys_def split: if_splits sum.splits)

lemma make_wrapper_fields:
  assumes "make_wrapper cr st mk tenant fc ps = Inr w"
  shows "ew_keyring_fingerprints w \<noteq> [] \<and> hd (ew_keyring_fingerprints w) = ew_fingerprint w \<and> tenant = HStr (ew_tenant_id w)
    \<and> ew_fail_closed w = fc"
  using assms by (auto simp: make_wrapper_def derive_keys_def split: if_splits sum.splits hval.splits)

lemma enc_roundtrip_same:
  assumes "cipher_inverts cr" "serializer_inverts sr" "make_wrapper cr st mk tenant fc ps = Inr w"
    "enc_serialize cr sr n w obj k = Inr (ct, md)"
  shows "enc_deserialize cr sr w ct md k = Inr obj"
proof -
  obtain raw m aad where e: "k \<noteq> []" "sr_serialize sr obj = Inr (raw, m)" "create_aad (ew_tenant_id w) m k = Inr aad"
    "cr_encrypt cr n raw aad (ew_tenant_keys w) = Inr ct" "raw_metadata md = raw_metadata m" "sm_encrypted md = HBool True"
    "sm_tenant_id md = HStr (ew_tenant_id w)" "sm_key_fingerprint md = HStr (ew_fingerprint w)"
    by (rule enc_serialize_Inr [OF assms(4)])
  have dec: "cr_decrypt cr ct aad (ew_tenant_keys w) = Inr raw" using assms(1) e(4) unfolding cipher_inverts_def by blast
  have obj: "sr_deserialize sr raw (Some (raw_metadata m)) = Inr obj"
    using assms(2) e(2) unfolding serializer_inverts_def by blast
  have i: "index_of (ew_keyring_fingerprints w) (sm_key_fingerprint md) = Some 0"
    using make_wrapper_fields [OF assms(3)] e(8) by (cases "ew_keyring_fingerprints w") auto
  have aad: "create_aad (ew_tenant_id w) (raw_metadata md) k = Inr aad" using e(3,5) create_aad_raw by metis
  show ?thesis using e dec obj i aad by (simp add: enc_deserialize_def decrypted_object_def)
qed

lemma metadata_roundtrip:
  "from_dict (to_dict m) = Inr (if hv_truthy (sm_encrypted m) then m else raw_metadata m)"
  by (cases "sm_format m") (auto simp: to_dict_def dget_def raw_metadata_def base_metadata_def)

lemma keyring_entry:
  assumes laws: "keyring_lawful cr" and w: "make_wrapper cr st (Some mk) (HStr t) fc (Some ps) = Inr w"
    and m: "m \<in> set (mk # ps)" "cr_derive cr m t = Inr k"
  obtains i where "index_of (ew_keyring_fingerprints w) (HStr (cr_fingerprint cr k)) = Some i"
    "i = 0 \<Longrightarrow> ew_tenant_keys w = k" "\<And>c a. cr_decrypt_at cr (ew_keyring w) i c t a = cr_decrypt cr c a k"
proof -
  obtain kr fps where kr: "cr_keyring cr mk ps = Inr kr" "cr_keyring_fingerprints cr kr t = Inr fps" "fps \<noteq> []"
    "hd fps = cr_fingerprint cr (ew_tenant_keys w)" "ew_keyring w = kr" "ew_keyring_fingerprints w = fps"
    using make_wrapper_Inr [OF w] by metis
  obtain ks where ks: "list_all2 (\<lambda>m k. cr_derive cr m t = Inr k) (mk # ps) ks" "fps = map (cr_fingerprint cr) ks"
    "\<And>i c a. i < length ks \<Longrightarrow> cr_decrypt_at cr kr i c t a = cr_decrypt cr c a (ks ! i)"
    using laws kr(1,2) unfolding keyring_lawful_def by blast
  from m obtain j where j: "j < length (mk # ps)" "(mk # ps) ! j = m" by (metis in_set_conv_nth)
  with ks(1) m(2) have "j < length ks" "ks ! j = k" by (auto simp: list_all2_conv_all_nth)
  then have "cr_fingerprint cr k \<in> set fps" by (auto simp: ks(2))
  then obtain i where i: "index_of fps (HStr (cr_fingerprint cr k)) = Some i" using index_of_mem by blast
  from index_of_Some [OF i] have il: "i < length ks" and fp: "cr_fingerprint cr (ks ! i) = cr_fingerprint cr k"
    by (auto simp: ks(2))
  from fp laws have ki: "ks ! i = k" unfolding keyring_lawful_def by blast
  have "ew_tenant_keys w = k" if "i = 0"
  proof -
    have "cr_fingerprint cr (ew_tenant_keys w) = cr_fingerprint cr (ks ! 0)"
      using kr(3,4) il that by (simp add: ks(2) hd_map hd_conv_nth)
    with laws ki that show ?thesis unfolding keyring_lawful_def by metis
  qed
  with i ki il ks(3) kr(5,6) show thesis by (intro that [of i]) auto
qed

text \<open>
  C21: Key rotation keeps old entries readable: a value encrypted under a master key that is now the current key or one of
  the previous keys of the keyring is decrypted to the same value, under the same cache key, whatever the fail-closed
  setting, provided the cipher, the keyring and the serializer do what they document.
\<close>

theorem rotation_roundtrip:
  assumes "cipher_inverts cr" "keyring_lawful cr" "serializer_inverts sr"
    and "make_wrapper cr st0 (Some mk0) (HStr t) fc0 (Some ps0) = Inr w0"
    and "enc_serialize cr sr n w0 obj k = Inr (ct, md)"
    and "make_wrapper cr st (Some mk) (HStr t) fc (Some ps) = Inr w" "mk0 \<in> set (mk # ps)"
  shows "enc_deserialize cr sr w ct md k = Inr obj"
proof -
  have w0: "cr_derive cr mk0 t = Inr (ew_tenant_keys w0)" "ew_tenant_id w0 = t"
    "ew_fingerprint w0 = cr_fingerprint cr (ew_tenant_keys w0)"
    by (rule make_wrapper_Inr [OF assms(4)], simp)+
  have w: "ew_tenant_id w = t" by (rule make_wrapper_Inr [OF assms(6)], simp)
  obtain raw m aad where e: "k \<noteq> []" "sr_serialize sr obj = Inr (raw, m)" "create_aad t m k = Inr aad"
    "cr_encrypt cr n raw aad (ew_tenant_keys w0) = Inr ct" "raw_metadata md = raw_metadata m"
    "sm_encrypted md = HBool True" "sm_tenant_id md = HStr t" "sm_key_fingerprint md = HStr (ew_fingerprint w0)"
    using enc_serialize_Inr [OF assms(5)] w0(2) by metis
  have dec: "cr_decrypt cr ct aad (ew_tenant_keys w0) = Inr raw" using assms(1) e(4) unfolding cipher_inverts_def by blast
  have obj: "sr_deserialize sr raw (Some (raw_metadata m)) = Inr obj" using assms(3) e(2) unfolding serializer_inverts_def by blast
  obtain i where i: "index_of (ew_keyring_fingerprints w) (HStr (ew_fingerprint w0)) = Some i"
    "i = 0 \<Longrightarrow> ew_tenant_keys w = ew_tenant_keys w0"
    "\<And>c a. cr_decrypt_at cr (ew_keyring w) i c t a = cr_decrypt cr c a (ew_tenant_keys w0)"
    using keyring_entry [OF assms(2,6,7) w0(1)] w0(3) by metis
  have aad: "create_aad t (raw_metadata md) k = Inr aad" using e(3,5) create_aad_raw by metis
  have "(case i of 0 \<Rightarrow> cr_decrypt cr ct aad (ew_tenant_keys w)
      | Suc j \<Rightarrow> cr_decrypt_at cr (ew_keyring w) (Suc j) ct t aad) = Inr raw"
    using i dec by (cases i) auto
  then show ?thesis using e i(1) aad obj
    by (cases i) (simp_all add: enc_deserialize_def decrypted_object_def w Let_def)
qed

text \<open>A concrete instance of the extension's interface: the derived key is the master key with the tenant appended.\<close>

definition demo_decrypt :: "bytes \<Rightarrow> bytes \<Rightarrow> bytes \<Rightarrow> pyexn + bytes" where
  "demo_decrypt c a k = (if take (length (k @ a)) c = k @ a then Inr (drop (length (k @ a)) c) else Inl (PyExn ''ValueError'' ''tag''))"

definition demo_crypto :: "(bytes, bytes list) crypto" where
  "demo_crypto = \<lparr>cr_derive = (\<lambda>m t. Inr (m @ str_bytes t)), cr_fingerprint = bytes_str,
     cr_encrypt = (\<lambda>n p a k. Inr (k @ a @ p)), cr_decrypt = demo_decrypt,
     cr_keyring = (\<lambda>m ps. Inr (m # ps)),
     cr_keyring_fingerprints = (\<lambda>r t. Inr (map (\<lambda>m. bytes_str (m @ str_bytes t)) r)),
     cr_decrypt_at = (\<lambda>r i c t a. if i < length r then demo_decrypt c a (r ! i @ str_bytes t)
                                  else Inl (PyExn ''KeyringConfigurationError'' ''index'')),
     cr_keyring_decrypt = (\<lambda>r c t a. demo_decrypt c a (hd r @ str_bytes t))\<rparr>"

definition demo_serializer :: "bytes serializer" where
  "demo_serializer = \<lparr>sr_serialize = (\<lambda>b. Inr (b, base_metadata MSGPACK (HStr ''utf-8'') (HBool False) HNone)),
     sr_deserialize = (\<lambda>b m. Inr b)\<rparr>"

definition demo_settings :: key_settings where
  "demo_settings = \<lparr>ks_master_key = None, ks_previous_master_keys = []\<rparr>"

definition key_a :: bytes where "key_a = replicate 32 1"
definition key_b :: bytes where "key_b = replicate 32 2"

lemma bytes_str_inject: "bytes_str a = bytes_str b \<longleftrightarrow> a = b"
proof
  have inj: "inj (\<lambda>w :: byte. char_of (unat w) :: char)"
  proof (rule injI)
    fix x y :: byte
    assume "(char_of (unat x) :: char) = char_of (unat y)"
    then have "(of_char (char_of (unat x) :: char) :: nat) = of_char (char_of (unat y) :: char)" by simp
    then have "unat x mod 256 = unat y mod 256" by (simp only: of_char_of)
    then have "unat x = unat y" by (metis byte_less mod_less)
    then show "x = y" by (simp only: word_unat_eq_iff)
  qed
  assume "bytes_str a = bytes_str b"
  then show "a = b" using inj by (simp add: bytes_str_def inj_map_eq_map)
qed simp

lemma demo_laws: "cipher_inverts demo_crypto" "keyring_lawful demo_crypto" "serializer_inverts demo_serializer"
proof -
  show "cipher_inverts demo_crypto" by (simp add: cipher_inverts_def demo_crypto_def demo_decrypt_def)
  have "list_all2 (\<lambda>m k. (Inr (m @ str_bytes t) :: pyexn + bytes) = Inr k) ps (map (\<lambda>m. m @ str_bytes t) ps)" for ps t
    by (simp add: list_all2_conv_all_nth)
  moreover have "((mk @ str_bytes t) # map (\<lambda>m. m @ str_bytes t) ps) ! i = (mk # ps) ! i @ str_bytes t"
    if "i < Suc (length ps)" for mk ps t i
    using that by (cases i) auto
  ultimately show "keyring_lawful demo_crypto"
    unfolding keyring_lawful_def demo_crypto_def
    by (auto simp: bytes_str_inject comp_def intro!: exI [of _ "map (\<lambda>m. m @ str_bytes _) (_ # _)"])
  show "serializer_inverts demo_serializer" by (simp add: serializer_inverts_def demo_serializer_def)
qed

lemma demo_wrapper:
  "length mk = 32 \<Longrightarrow> list_all (\<lambda>k. length k = 32) ps \<Longrightarrow>
   make_wrapper demo_crypto demo_settings (Some mk) (HStr t) fc (Some ps) =
     Inr \<lparr>ew_tenant_id = t, ew_fail_closed = fc, ew_tenant_keys = mk @ str_bytes t, ew_fingerprint = bytes_str (mk @ str_bytes t),
       ew_keyring = mk # ps, ew_keyring_fingerprints = map (\<lambda>m. bytes_str (m @ str_bytes t)) (mk # ps)\<rparr>"
  by (simp add: make_wrapper_def master_key_bytes_def previous_keys_def derive_keys_def demo_crypto_def
      list_ex_iff list_all_iff)

lemma demo_aad:
  "\<exists>a. create_aad ''t'' (base_metadata MSGPACK (HStr ''utf-8'') (HBool False) HNone) ''k'' = Inr a \<and> length a < 100"
  by (simp add: create_aad_def aad_components_def base_metadata_def aad_original_type_def encode_utf8_def str_bytes_def)

theorem rotation_roundtrip_witness:
  "\<exists>w0 ct md w. make_wrapper demo_crypto demo_settings (Some key_a) (HStr ''t'') False (Some []) = Inr w0
     \<and> enc_serialize demo_crypto demo_serializer [] w0 [7] ''k'' = Inr (ct, md)
     \<and> make_wrapper demo_crypto demo_settings (Some key_b) (HStr ''t'') True (Some [key_a]) = Inr w
     \<and> enc_deserialize demo_crypto demo_serializer w ct md ''k'' = Inr [7]"
proof -
  obtain w0 where w0: "make_wrapper demo_crypto demo_settings (Some key_a) (HStr ''t'') False (Some []) = Inr w0"
      "ew_tenant_id w0 = ''t''"
    using demo_wrapper [of key_a "[]"] by (simp add: key_a_def)
  obtain w where w: "make_wrapper demo_crypto demo_settings (Some key_b) (HStr ''t'') True (Some [key_a]) = Inr w"
    using demo_wrapper [of key_b "[key_a]"] by (simp add: key_a_def key_b_def)
  obtain ct md where e: "enc_serialize demo_crypto demo_serializer [] w0 [7] ''k'' = Inr (ct, md)"
    using demo_aad w0(2) by (auto simp: enc_serialize_def demo_serializer_def demo_crypto_def)
  have "enc_deserialize demo_crypto demo_serializer w ct md ''k'' = Inr [7]"
    by (rule rotation_roundtrip [OF demo_laws w0(1) e w]) simp
  with w0(1) w e show ?thesis by blast
qed

text \<open>
  Authenticity of the cipher, relative to the encryptions made so far: whatever any decryption entry point of the wrapper
  accepts was produced by one of them, by a wrapper of any tenant and key, from the same data and authenticated data.
\<close>

type_synonym ('a, 'k, 'r) enc_log = "(('k, 'r) encryption_wrapper \<times> 'a \<times> string \<times> bytes) list"

definition sealed_by ::
  "('k, 'r) crypto \<Rightarrow> 'a serializer \<Rightarrow> ('k, 'r) encryption_wrapper \<times> 'a \<times> string \<times> bytes \<Rightarrow> bytes \<Rightarrow> bytes \<Rightarrow> bytes \<Rightarrow> bool" where
  "sealed_by cr sr x c a p = (case x of (w, obj, k, n) \<Rightarrow>
     k \<noteq> [] \<and> (\<exists>m. sr_serialize sr obj = Inr (p, m) \<and> create_aad (ew_tenant_id w) m k = Inr a
       \<and> cr_encrypt cr n p a (ew_tenant_keys w) = Inr c))"

definition unforgeable ::
  "('k, 'r) crypto \<Rightarrow> 'a serializer \<Rightarrow> ('k, 'r) encryption_wrapper \<Rightarrow> ('a, 'k, 'r) enc_log \<Rightarrow> bool" where
  "unforgeable cr sr w made \<longleftrightarrow>
     (\<forall>c a p. cr_decrypt cr c a (ew_tenant_keys w) = Inr p
        \<or> (\<exists>i. cr_decrypt_at cr (ew_keyring w) i c (ew_tenant_id w) a = Inr p)
        \<or> cr_keyring_decrypt cr (ew_keyring w) c (ew_tenant_id w) a = Inr p
        \<longrightarrow> (\<exists>x \<in> set made. sealed_by cr sr x c a p))"

lemma sealed_same_key:
  assumes "sealed_by cr sr (w', obj, k', n) c a p" "create_aad t md k = Inr a"
  shows "ew_tenant_id w' = t \<and> k' = k \<and> (\<exists>md'. enc_serialize cr sr n w' obj k = Inr (c, md') \<and> sm_format md' = sm_format md
    \<and> hv_str (sm_compressed md') = hv_str (sm_compressed md))"
proof -
  from assms(1) obtain m where m: "k' \<noteq> []" "sr_serialize sr obj = Inr (p, m)" "create_aad (ew_tenant_id w') m k' = Inr a"
    "cr_encrypt cr n p a (ew_tenant_keys w') = Inr c" by (auto simp: sealed_by_def)
  have eq: "ew_tenant_id w' = t" "k' = k" "sm_format m = sm_format md" "hv_str (sm_compressed m) = hv_str (sm_compressed md)"
    using create_aad_inject [OF m(3) assms(2)] by simp_all
  show ?thesis using m eq by (auto simp: enc_serialize_def)
qed

lemma decrypted_object_Inr:
  "decrypted_object sr m r = Inr v \<longleftrightarrow> (\<exists>p. r = Inr p \<and> sr_deserialize sr p (Some (raw_metadata m)) = Inr v)"
  by (auto simp: decrypted_object_def split: sum.splits if_splits)

lemma enc_read_Inr:
  assumes "enc_deserialize cr sr w data md k = Inr v \<or> deserialize_without_key_identity cr sr w data md k = Inr v"
  obtains a p where "create_aad (ew_tenant_id w) md k = Inr a" "sr_deserialize sr p (Some (raw_metadata md)) = Inr v"
    "cr_decrypt cr data a (ew_tenant_keys w) = Inr p \<or> (\<exists>i. cr_decrypt_at cr (ew_keyring w) i data (ew_tenant_id w) a = Inr p)
     \<or> cr_keyring_decrypt cr (ew_keyring w) data (ew_tenant_id w) a = Inr p"
  using assms unfolding enc_deserialize_def deserialize_without_key_identity_def Let_def create_aad_raw
  by (auto simp: decrypted_object_Inr split: if_splits sum.splits option.splits nat.splits)

lemma enc_read_bound:
  assumes "unforgeable cr sr w made"
    and "enc_deserialize cr sr w data md k = Inr v \<or> deserialize_without_key_identity cr sr w data md k = Inr v"
  shows "\<exists>w' obj n md'. (w', obj, k, n) \<in> set made \<and> ew_tenant_id w' = ew_tenant_id w
    \<and> enc_serialize cr sr n w' obj k = Inr (data, md') \<and> sm_format md' = sm_format md
    \<and> hv_str (sm_compressed md') = hv_str (sm_compressed md)"
proof -
  obtain a p where ap: "create_aad (ew_tenant_id w) md k = Inr a"
    "cr_decrypt cr data a (ew_tenant_keys w) = Inr p \<or> (\<exists>i. cr_decrypt_at cr (ew_keyring w) i data (ew_tenant_id w) a = Inr p)
     \<or> cr_keyring_decrypt cr (ew_keyring w) data (ew_tenant_id w) a = Inr p"
    using enc_read_Inr [OF assms(2)] by metis
  with assms(1) obtain w' obj k' n where x: "(w', obj, k', n) \<in> set made" "sealed_by cr sr (w', obj, k', n) data a p"
    unfolding unforgeable_def by (metis prod_cases4)
  from x(1) sealed_same_key [OF x(2) ap(1)] show ?thesis by blast
qed

text \<open>
  Ciphertexts cannot be moved: if the cipher is authentic, then whatever the wrapper returns under a cache key, on the
  frame path or the keyless interop path and with whatever metadata the unauthenticated header claims, was encrypted by a
  wrapper of the same tenant under the same cache key, and the header's format and compression flag are those of the
  encryption.
\<close>

theorem ciphertext_bound_to_key:
  assumes "unforgeable cr sr w made"
    and "enc_deserialize cr sr w data md k = Inr v \<or> deserialize_without_key_identity cr sr w data md k = Inr v"
  shows "\<exists>w' obj n md'. (w', obj, k, n) \<in> set made \<and> ew_tenant_id w' = ew_tenant_id w
    \<and> enc_serialize cr sr n w' obj k = Inr (data, md') \<and> sm_format md' = sm_format md
    \<and> hv_str (sm_compressed md') = hv_str (sm_compressed md)"
  by (rule enc_read_bound [OF assms])

text \<open>An instance that is authentic for one encryption: \<^verbatim>\<open>decrypt\<close> accepts that ciphertext and nothing else.\<close>

definition demo_wrapper_a :: "(bytes, bytes list) encryption_wrapper" where
  "demo_wrapper_a = \<lparr>ew_tenant_id = ''t'', ew_fail_closed = True, ew_tenant_keys = key_a, ew_fingerprint = ''fp'',
     ew_keyring = [key_a], ew_keyring_fingerprints = [''fp'']\<rparr>"

definition sealed_crypto :: "bytes \<Rightarrow> bytes \<Rightarrow> (bytes, bytes list) crypto" where
  "sealed_crypto c0 a0 = demo_crypto
     \<lparr>cr_decrypt := (\<lambda>c a k. if c = c0 \<and> a = a0 then Inr [7] else Inl (PyExn ''ValueError'' ''tag'')),
      cr_decrypt_at := (\<lambda>r i c t a. Inl (PyExn ''ValueError'' ''tag'')),
      cr_keyring_decrypt := (\<lambda>r c t a. Inl (PyExn ''ValueError'' ''tag''))\<rparr>"

theorem ciphertext_bound_to_key_witness:
  "\<exists>cr data md w' obj n md'. enc_deserialize cr demo_serializer demo_wrapper_a data md ''k'' = Inr [7]
     \<and> (w', obj, ''k'', n) \<in> {(demo_wrapper_a, [7], ''k'', [])} \<and> enc_serialize cr demo_serializer n w' obj ''k'' = Inr (data, md')"
proof -
  obtain a0 where a0: "create_aad ''t'' (base_metadata MSGPACK (HStr ''utf-8'') (HBool False) HNone) ''k'' = Inr a0"
    using demo_aad by blast
  let ?cr = "sealed_crypto (key_a @ a0 @ [7]) a0"
  let ?made = "[(demo_wrapper_a, [7], ''k'', [])]"
  have unf: "unforgeable ?cr demo_serializer demo_wrapper_a ?made"
    using a0 by (simp add: unforgeable_def sealed_by_def sealed_crypto_def demo_crypto_def demo_serializer_def
        demo_wrapper_a_def split: if_splits)
  obtain ct md where e: "enc_serialize ?cr demo_serializer [] demo_wrapper_a [7] ''k'' = Inr (ct, md)"
    using a0 by (auto simp: enc_serialize_def demo_serializer_def sealed_crypto_def demo_crypto_def demo_wrapper_a_def)
  obtain raw m aad where m: "sr_serialize demo_serializer [7] = Inr (raw, m)" "create_aad ''t'' m ''k'' = Inr aad"
    "cr_encrypt ?cr [] raw aad key_a = Inr ct" "raw_metadata md = raw_metadata m" "sm_encrypted md = HBool True"
    "sm_tenant_id md = HStr ''t''" "sm_key_fingerprint md = HStr ''fp''"
    by (rule enc_serialize_Inr [OF e]) (auto simp: demo_wrapper_a_def)
  have ct: "aad = a0" "ct = key_a @ a0 @ [7]" using m(1-3) a0 by (auto simp: demo_serializer_def sealed_crypto_def demo_crypto_def)
  have "create_aad ''t'' (raw_metadata md) ''k'' = Inr a0" unfolding m(4) create_aad_raw using m(2) ct(1) by simp
  then have d: "enc_deserialize ?cr demo_serializer demo_wrapper_a ct md ''k'' = Inr [7]"
    using m(5-7) by (simp add: enc_deserialize_def demo_wrapper_a_def decrypted_object_def sealed_crypto_def demo_serializer_def ct)
  from ciphertext_bound_to_key [OF unf, of ct md "''k''" "[7]"] d show ?thesis by fastforce
qed

end
