(* ===== verification/Circuit_Breaker.thy ===== *)
theory Circuit_Breaker
  imports Backend_Errors
begin

text \<open>
  \<^verbatim>\<open>reliability/circuit_breaker.py\<close>: the breaker's configuration with its validation, the breaker
  object and all its operations. Each method runs under the instance lock, so a concurrent run is a
  sequence of whole operations; \<^verbatim>\<open>time.time()\<close> is the argument \<open>now\<close>. The Prometheus gauge of the
  breaker's namespace is the field \<open>state_gauge\<close>.
\<close>

section \<open>Configuration\<close>

datatype circuit_state = CLOSED | OPEN | HALF_OPEN

fun state_value :: "circuit_state \<Rightarrow> nat" where
  "state_value CLOSED = 0"
| "state_value OPEN = 1"
| "state_value HALF_OPEN = 2"

record cb_config =
  failure_threshold :: int
  success_threshold :: int
  timeout_seconds :: real
  half_open_requests :: int
  excluded_error_types :: "backend_error_type list"

definition default_cb_config :: cb_config where
  "default_cb_config = \<lparr>failure_threshold = 5, success_threshold = 3, timeout_seconds = 30,
     half_open_requests = 1, excluded_error_types = []\<rparr>"

datatype cb_config_error =
  BadFailureThreshold int | BadSuccessThreshold int | BadTimeout real | BadHalfOpenRequests int

text \<open>\<^verbatim>\<open>CircuitBreakerConfig.__post_init__\<close>: the first violated bound raises \<^verbatim>\<open>ValueError\<close>.\<close>

definition make_cb_config :: "cb_config \<Rightarrow> cb_config_error + cb_config" where
  "make_cb_config c =
     (if failure_threshold c \<le> 0 then Inl (BadFailureThreshold (failure_threshold c))
      else if success_threshold c \<le> 0 then Inl (BadSuccessThreshold (success_threshold c))
      else if timeout_seconds c < 0 then Inl (BadTimeout (timeout_seconds c))
      else if half_open_requests c \<le> 0 then Inl (BadHalfOpenRequests (half_open_requests c))
      else Inr c)"

definition valid_config :: "cb_config \<Rightarrow> bool" where
  "valid_config c \<longleftrightarrow> 0 < failure_threshold c \<and> 0 < success_threshold c
     \<and> 0 \<le> timeout_seconds c \<and> 0 < half_open_requests c"

section \<open>Local operation metrics\<close>

record cache_operation_metrics =
  total_operations :: int
  cache_hits :: int
  cache_misses :: int
  op_errors :: int
  fallbacks :: int
  circuit_opens :: int

definition hit_rate :: "cache_operation_metrics \<Rightarrow> real" where
  "hit_rate m = (if total_operations m = 0 then 0 else of_int (cache_hits m) / of_int (total_operations m))"

definition error_rate :: "cache_operation_metrics \<Rightarrow> real" where
  "error_rate m = (if total_operations m = 0 then 0 else of_int (op_errors m) / of_int (total_operations m))"

section \<open>The breaker\<close>

record breaker =
  config :: cb_config
  cb_namespace :: string
  cb_state :: circuit_state
  failure_count :: int
  success_count :: int
  last_failure_time :: real
  half_open_permits :: int
  half_open_total_attempts :: int
  state_gauge :: nat

definition init_breaker :: "cb_config \<Rightarrow> string \<Rightarrow> breaker" where
  "init_breaker c ns = \<lparr>config = c, cb_namespace = ns, cb_state = CLOSED, failure_count = 0,
     success_count = 0, last_failure_time = 0, half_open_permits = 0,
     half_open_total_attempts = 0, state_gauge = state_value CLOSED\<rparr>"

definition transition_to_closed :: "breaker \<Rightarrow> breaker" where
  "transition_to_closed b = b\<lparr>cb_state := CLOSED, failure_count := 0, success_count := 0,
     half_open_permits := 0, half_open_total_attempts := 0, state_gauge := state_value CLOSED\<rparr>"

definition transition_to_open :: "breaker \<Rightarrow> breaker" where
  "transition_to_open b = b\<lparr>cb_state := OPEN, success_count := 0, state_gauge := state_value OPEN\<rparr>"

definition transition_to_half_open :: "breaker \<Rightarrow> breaker" where
  "transition_to_half_open b = b\<lparr>cb_state := HALF_OPEN, success_count := 0, half_open_permits := 0,
     half_open_total_attempts := 0, state_gauge := state_value HALF_OPEN\<rparr>"

definition allow_half_open_request :: "breaker \<Rightarrow> bool \<times> breaker" where
  "allow_half_open_request b =
     (if half_open_total_attempts b < half_open_requests (config b)
      then (True, b\<lparr>half_open_permits := half_open_permits b + 1,
                    half_open_total_attempts := half_open_total_attempts b + 1\<rparr>)
      else (False, b))"

definition allow_request :: "real \<Rightarrow> breaker \<Rightarrow> bool \<times> breaker" where
  "allow_request now b =
     (case cb_state b of
        CLOSED \<Rightarrow> (True, b)
      | OPEN \<Rightarrow>
          if now - last_failure_time b > timeout_seconds (config b)
          then (if cb_state b = OPEN
                then allow_half_open_request (transition_to_half_open b)
                else (False, b))
          else (False, b)
      | HALF_OPEN \<Rightarrow> allow_half_open_request b)"

definition on_success :: "breaker \<Rightarrow> breaker" where
  "on_success b =
     (if cb_state b = HALF_OPEN
      then (let b1 = b\<lparr>half_open_permits := max 0 (half_open_permits b - 1),
                       success_count := success_count b + 1\<rparr>
            in if success_count b1 \<ge> success_threshold (config b1)
               then transition_to_closed b1 else b1)
      else b)"

fun excluded :: "cb_config \<Rightarrow> pyexn \<Rightarrow> bool" where
  "excluded c (BackendExn e) = (error_type e \<in> set (excluded_error_types c))"
| "excluded c (PyExn _ _) = False"

definition on_failure :: "real \<Rightarrow> pyexn \<Rightarrow> breaker \<Rightarrow> breaker" where
  "on_failure now err b =
     (if excluded (config b) err then b
      else (let b1 = (if cb_state b = HALF_OPEN
                      then b\<lparr>half_open_permits := max 0 (half_open_permits b - 1)\<rparr> else b);
                b2 = b1\<lparr>failure_count := failure_count b1 + 1, last_failure_time := now\<rparr>
            in case cb_state b2 of
                 CLOSED \<Rightarrow> if failure_count b2 \<ge> failure_threshold (config b2)
                           then transition_to_open b2 else b2
               | HALF_OPEN \<Rightarrow> transition_to_open b2
               | OPEN \<Rightarrow> b2))"

definition reset :: "breaker \<Rightarrow> breaker" where
  "reset b = transition_to_closed b"

definition record_failure :: "real \<Rightarrow> pyexn option \<Rightarrow> breaker \<Rightarrow> breaker" where
  "record_failure now err b =
     on_failure now (case err of None \<Rightarrow> PyExn ''Exception'' ''Test failure'' | Some e \<Rightarrow> e) b"

definition record_success :: "breaker \<Rightarrow> breaker" where
  "record_success b = on_success b"

definition should_attempt_call :: "real \<Rightarrow> breaker \<Rightarrow> bool \<times> breaker" where
  "should_attempt_call now b = allow_request now b"

definition get_state :: "breaker \<Rightarrow> circuit_state" where
  "get_state b = cb_state b"

fun state_name :: "circuit_state \<Rightarrow> string" where
  "state_name CLOSED = ''CLOSED''"
| "state_name OPEN = ''OPEN''"
| "state_name HALF_OPEN = ''HALF_OPEN''"

record cb_stats =
  st_state :: string
  st_failure_count :: int
  st_success_count :: int
  st_half_open_permits :: int
  st_last_failure_time :: real
  st_namespace :: string
  st_config :: "int \<times> int \<times> real \<times> int"

definition cb_get_stats :: "breaker \<Rightarrow> cb_stats" where
  "cb_get_stats b = \<lparr>st_state = state_name (cb_state b), st_failure_count = failure_count b,
     st_success_count = success_count b, st_half_open_permits = half_open_permits b,
     st_last_failure_time = last_failure_time b, st_namespace = cb_namespace b,
     st_config = (failure_threshold (config b), success_threshold (config b),
                  timeout_seconds (config b), half_open_requests (config b))\<rparr>"

section \<open>Runs\<close>

text \<open>The calls a client can make, and the breaker after a sequence of them.\<close>

datatype cb_event = Allow real | Success | Failure real pyexn | Reset

fun cb_exec :: "cb_event \<Rightarrow> breaker \<Rightarrow> bool option \<times> breaker" where
  "cb_exec (Allow now) b = (let (r, b') = should_attempt_call now b in (Some r, b'))"
| "cb_exec Success b = (None, record_success b)"
| "cb_exec (Failure now e) b = (None, record_failure now (Some e) b)"
| "cb_exec Reset b = (None, reset b)"

inductive cb_reachable :: "cb_config \<Rightarrow> breaker \<Rightarrow> bool" for c where
  cb_start: "cb_reachable c (init_breaker c ns)"
| cb_more: "cb_reachable c b \<Longrightarrow> cb_reachable c (snd (cb_exec ev b))"

fun cb_run :: "cb_event list \<Rightarrow> breaker \<Rightarrow> breaker" where
  "cb_run [] b = b"
| "cb_run (ev # evs) b = cb_run evs (snd (cb_exec ev b))"

text \<open>
  How many requests a run admits while it stays in HALF_OPEN: \<open>None\<close> when some event leaves it.
\<close>

fun half_open_grants :: "cb_event list \<Rightarrow> breaker \<Rightarrow> int option" where
  "half_open_grants [] b = (if cb_state b = HALF_OPEN then Some 0 else None)"
| "half_open_grants (ev # evs) b =
     (if cb_state b \<noteq> HALF_OPEN then None
      else case half_open_grants evs (snd (cb_exec ev b)) of
             None \<Rightarrow> None
           | Some n \<Rightarrow> Some (n + (if fst (cb_exec ev b) = Some True then 1 else 0)))"

definition cb_inv :: "breaker \<Rightarrow> bool" where
  "cb_inv b \<longleftrightarrow>
     state_gauge b = state_value (cb_state b)
   \<and> 0 \<le> half_open_permits b \<and> half_open_permits b \<le> half_open_total_attempts b
   \<and> half_open_total_attempts b \<le> half_open_requests (config b)
   \<and> 0 \<le> failure_count b
   \<and> (cb_state b = CLOSED \<longrightarrow>
        failure_count b < failure_threshold (config b) \<and> success_count b = 0
        \<and> half_open_total_attempts b = 0)
   \<and> (cb_state b = OPEN \<longrightarrow> success_count b = 0)
   \<and> (cb_state b = HALF_OPEN \<longrightarrow>
        0 \<le> success_count b \<and> success_count b < success_threshold (config b))"

text \<open>
  A disciplined client records one outcome for each request the breaker admitted to it:
  \<open>n\<close> requests are in flight.
\<close>

inductive disciplined :: "breaker \<Rightarrow> breaker \<Rightarrow> nat \<Rightarrow> bool" for b0 where
  d_start: "disciplined b0 b0 0"
| d_admit: "disciplined b0 b n \<Longrightarrow> should_attempt_call now b = (True, b') \<Longrightarrow> disciplined b0 b' (Suc n)"
| d_refuse: "disciplined b0 b n \<Longrightarrow> should_attempt_call now b = (False, b') \<Longrightarrow> disciplined b0 b' n"
| d_success: "disciplined b0 b (Suc n) \<Longrightarrow> disciplined b0 (record_success b) n"
| d_failure: "disciplined b0 b (Suc n) \<Longrightarrow> disciplined b0 (record_failure now e b) n"

lemmas cb_defs = transition_to_closed_def transition_to_open_def transition_to_half_open_def
  allow_half_open_request_def allow_request_def on_success_def on_failure_def reset_def
  record_failure_def record_success_def should_attempt_call_def get_state_def

section \<open>Lemmas\<close>

lemma make_cb_config_iff: "make_cb_config c = Inr c' \<longleftrightarrow> c' = c \<and> valid_config c"
  by (auto simp: make_cb_config_def valid_config_def)

lemma default_config_valid: "make_cb_config default_cb_config = Inr default_cb_config"
  by (simp add: make_cb_config_def default_cb_config_def)

lemma config_frame [simp]:
  "config (snd (allow_request now b)) = config b"
  "config (on_success b) = config b"
  "config (on_failure now e b) = config b"
  "config (reset b) = config b"
  by (auto simp: cb_defs Let_def split: circuit_state.splits)

lemma cb_exec_config [simp]: "config (snd (cb_exec ev b)) = config b"
  by (cases ev) (simp_all add: should_attempt_call_def record_success_def record_failure_def
      case_prod_beta)

lemma cb_run_config [simp]: "config (cb_run evs b) = config b"
  by (induction evs arbitrary: b) simp_all

lemma init_inv: "valid_config c \<Longrightarrow> cb_inv (init_breaker c ns)"
  by (simp add: cb_inv_def init_breaker_def valid_config_def)

lemma allow_request_inv:
  "valid_config (config b) \<Longrightarrow> cb_inv b \<Longrightarrow> cb_inv (snd (allow_request now b))"
  by (auto simp: cb_inv_def cb_defs valid_config_def split: circuit_state.splits)

lemma on_success_inv: "valid_config (config b) \<Longrightarrow> cb_inv b \<Longrightarrow> cb_inv (on_success b)"
  by (auto simp: cb_inv_def cb_defs valid_config_def Let_def max_def)

lemma on_failure_inv: "valid_config (config b) \<Longrightarrow> cb_inv b \<Longrightarrow> cb_inv (on_failure now e b)"
  by (auto simp: cb_inv_def cb_defs valid_config_def Let_def max_def split: circuit_state.splits)

lemma reset_inv: "valid_config (config b) \<Longrightarrow> cb_inv (reset b)"
  by (auto simp: cb_inv_def cb_defs valid_config_def)

lemma cb_exec_inv: "valid_config (config b) \<Longrightarrow> cb_inv b \<Longrightarrow> cb_inv (snd (cb_exec ev b))"
  by (cases ev) (simp_all add: allow_request_inv on_success_inv on_failure_inv reset_inv
      should_attempt_call_def record_success_def record_failure_def case_prod_beta)

lemma cb_reachable_config: "cb_reachable c b \<Longrightarrow> config b = c"
  by (induction rule: cb_reachable.induct) (simp_all add: init_breaker_def)

lemma half_open_exec_attempts:
  assumes "cb_state b = HALF_OPEN" "cb_state (snd (cb_exec ev b)) = HALF_OPEN"
  shows "half_open_total_attempts (snd (cb_exec ev b)) = half_open_total_attempts b
           + (if fst (cb_exec ev b) = Some True then 1 else 0)"
  using assms
  by (cases ev) (auto simp: cb_defs Let_def split: if_splits prod.splits)

lemma half_open_grants_attempts:
  "half_open_grants evs b = Some n \<Longrightarrow>
   cb_state (cb_run evs b) = HALF_OPEN
   \<and> n = half_open_total_attempts (cb_run evs b) - half_open_total_attempts b"
proof (induction evs arbitrary: b n)
  case Nil
  then show ?case by (simp split: if_splits)
next
  case (Cons ev evs)
  let ?b = "snd (cb_exec ev b)"
  from Cons.prems obtain m where h: "cb_state b = HALF_OPEN"
    and m: "half_open_grants evs ?b = Some m"
    and n: "n = m + (if fst (cb_exec ev b) = Some True then 1 else 0)"
    by (auto split: if_splits option.splits)
  from m have "cb_state ?b = HALF_OPEN"
    by (cases evs) (auto split: if_splits)
  from half_open_exec_attempts [OF h this] Cons.IH [OF m] n show ?case by simp
qed

lemma cb_run_inv: "valid_config (config b) \<Longrightarrow> cb_inv b \<Longrightarrow> cb_inv (cb_run evs b)"
  by (induction evs arbitrary: b) (simp_all add: cb_exec_inv)

text \<open>Under one test request at a time the client is never ahead of the breaker's attempts.\<close>

definition starved :: "breaker \<Rightarrow> nat \<Rightarrow> bool" where
  "starved b n \<longleftrightarrow> cb_state b \<noteq> CLOSED
     \<and> (cb_state b = OPEN \<longrightarrow> n = 0)
     \<and> (cb_state b = HALF_OPEN \<longrightarrow> 0 \<le> success_count b \<and> half_open_total_attempts b \<le> 1
          \<and> success_count b + int n \<le> half_open_total_attempts b)"

lemma starved_allow:
  assumes "half_open_requests (config b) = 1" "starved b n" "allow_request now b = (r, b')"
  shows "starved b' (if r then Suc n else n)"
  using assms by (auto simp: starved_def cb_defs split: circuit_state.splits if_splits)

lemma starved_success:
  assumes "2 \<le> success_threshold (config b)" "starved b (Suc n)"
  shows "starved (on_success b) n"
proof -
  from assms(2) have "cb_state b = HALF_OPEN" by (cases "cb_state b") (auto simp: starved_def)
  with assms show ?thesis by (auto simp: starved_def cb_defs Let_def)
qed

lemma starved_failure:
  assumes "starved b (Suc n)"
  shows "starved (on_failure now e b) n"
proof -
  from assms have h: "cb_state b = HALF_OPEN" by (cases "cb_state b") (auto simp: starved_def)
  with assms have "n = 0" by (auto simp: starved_def)
  with h assms show ?thesis
    by (cases "excluded (config b) e") (auto simp: starved_def cb_defs Let_def)
qed

lemma disciplined_starved:
  assumes "disciplined b0 b n" "half_open_requests (config b0) = 1"
    "2 \<le> success_threshold (config b0)" "cb_state b0 = OPEN"
  shows "starved b n \<and> config b = config b0"
  using assms
proof (induction rule: disciplined.induct)
  case d_start
  then show ?case by (simp add: starved_def)
next
  case (d_admit b n now b')
  then show ?case
    using starved_allow [of b n now True b'] config_frame(1) [of now b]
    by (simp add: should_attempt_call_def)
next
  case (d_refuse b n now b')
  then show ?case
    using starved_allow [of b n now False b'] config_frame(1) [of now b]
    by (simp add: should_attempt_call_def)
next
  case (d_success b n)
  then show ?case by (simp add: starved_success record_success_def)
next
  case (d_failure b n now e)
  then show ?case by (simp add: starved_failure record_failure_def)
qed

text \<open>Counting the failures of a run that are not excluded.\<close>

fun counted_failures :: "cb_config \<Rightarrow> cb_event list \<Rightarrow> int" where
  "counted_failures c [] = 0"
| "counted_failures c (Failure now e # evs) = (if excluded c e then 0 else 1) + counted_failures c evs"
| "counted_failures c (_ # evs) = counted_failures c evs"

fun outcome_event :: "cb_event \<Rightarrow> bool" where
  "outcome_event Success = True"
| "outcome_event (Failure _ _) = True"
| "outcome_event _ = False"

lemma counted_failures_nonneg: "0 \<le> counted_failures c evs"
  by (induction c evs rule: counted_failures.induct) auto

lemma open_outcomes:
  "cb_state b = OPEN \<Longrightarrow> list_all outcome_event evs \<Longrightarrow> cb_state (cb_run evs b) = OPEN"
proof (induction evs arbitrary: b)
  case (Cons ev evs)
  then have "cb_state (snd (cb_exec ev b)) = OPEN"
    by (cases ev) (auto simp: cb_defs Let_def)
  with Cons show ?case by simp
qed simp

lemma closed_outcomes:
  "cb_state b = CLOSED \<Longrightarrow> failure_count b < failure_threshold (config b) \<Longrightarrow>
   list_all outcome_event evs \<Longrightarrow>
   cb_state (cb_run evs b) =
     (if failure_count b + counted_failures (config b) evs < failure_threshold (config b)
      then CLOSED else OPEN)"
proof (induction evs arbitrary: b)
  case (Cons ev evs)
  let ?b = "snd (cb_exec ev b)"
  let ?n = "counted_failures (config b) [ev]"
  have split: "counted_failures (config b) (ev # evs) = ?n + counted_failures (config b) evs"
    by (cases ev) auto
  show ?case
  proof (cases "failure_count b + ?n < failure_threshold (config b)")
    case True
    have "cb_state ?b = CLOSED"
      using True Cons.prems(1,3) by (cases ev) (simp_all add: cb_defs Let_def split: if_splits)
    moreover have "failure_count ?b = failure_count b + ?n"
      using True Cons.prems(1,3) by (cases ev) (simp_all add: cb_defs Let_def split: if_splits)
    ultimately show ?thesis
      using Cons.IH [of ?b] Cons.prems True split by (simp add: algebra_simps)
  next
    case False
    with Cons.prems(1-3) have "cb_state ?b = OPEN"
      by (cases ev) (simp_all add: cb_defs Let_def split: if_splits)
    with Cons.prems open_outcomes [of ?b evs] False split
      counted_failures_nonneg [of "config b" evs] show ?thesis by simp
  qed
qed simp

lemma half_open_recovers:
  "cb_state h = HALF_OPEN \<Longrightarrow> success_threshold (config h) \<le> half_open_requests (config h) \<Longrightarrow>
   success_count h = success_threshold (config h) - int n \<Longrightarrow>
   half_open_total_attempts h = success_threshold (config h) - int n \<Longrightarrow> 0 < n \<Longrightarrow>
   cb_state (cb_run (concat (replicate n [Allow now, Success])) h) = CLOSED"
proof (induction n arbitrary: h)
  case (Suc n)
  let ?h = "record_success (snd (should_attempt_call now h))"
  have run: "cb_run (concat (replicate (Suc n) [Allow now, Success])) h
      = cb_run (concat (replicate n [Allow now, Success])) ?h"
    by (simp add: case_prod_beta)
  show ?case
  proof (cases "n = 0")
    case True
    with Suc.prems show ?thesis by (simp add: cb_defs Let_def)
  next
    case False
    with Suc.prems have "cb_state ?h = HALF_OPEN" "config ?h = config h"
      "success_count ?h = success_threshold (config h) - int n"
      "half_open_total_attempts ?h = success_threshold (config h) - int n"
      by (simp_all add: cb_defs Let_def)
    with Suc.IH [of ?h] Suc.prems(2) False run show ?thesis by simp
  qed
qed simp

section \<open>Properties\<close>



text \<open>
  The HALF_OPEN budget: however a run of calls interleaves while the breaker stays in
  HALF_OPEN, the requests it admits are at most \<^verbatim>\<open>half_open_requests\<close> minus those already admitted
  in this cycle.
\<close>

theorem half_open_budget:
  assumes "valid_config (config b)" "cb_inv b" "half_open_grants evs b = Some n"
  shows "n \<le> half_open_requests (config b) - half_open_total_attempts b"
proof -
  have "cb_inv (cb_run evs b)" using assms by (simp add: cb_run_inv)
  then have "half_open_total_attempts (cb_run evs b) \<le> half_open_requests (config b)"
    by (simp add: cb_inv_def)
  with half_open_grants_attempts [OF assms(3)] show ?thesis by simp
qed

theorem half_open_budget_witness:
  "(1::int) \<le> half_open_requests default_cb_config"
proof -
  let ?b = "transition_to_half_open (init_breaker default_cb_config ''n'')"
  have "half_open_grants [Allow 1, Allow 2] ?b = Some 1"
    by (simp add: cb_defs init_breaker_def default_cb_config_def)
  moreover have "valid_config (config ?b)" "cb_inv ?b"
    by (simp_all add: valid_config_def cb_inv_def cb_defs init_breaker_def default_cb_config_def)
  ultimately show ?thesis
    using half_open_budget [of ?b "[Allow 1, Allow 2]" 1]
    by (simp add: cb_defs init_breaker_def)
qed

text \<open>
  An OPEN breaker refuses every request until more than \<^verbatim>\<open>timeout_seconds\<close> have passed since the
  last counted failure, without changing; the first request after that is admitted as the first
  test of a fresh HALF_OPEN cycle.
\<close>

theorem open_until_timeout:
  assumes "valid_config (config b)" "cb_state b = OPEN"
  shows "if now - last_failure_time b \<le> timeout_seconds (config b)
         then should_attempt_call now b = (False, b)
         else fst (should_attempt_call now b)
              \<and> cb_state (snd (should_attempt_call now b)) = HALF_OPEN
              \<and> half_open_total_attempts (snd (should_attempt_call now b)) = 1
              \<and> success_count (snd (should_attempt_call now b)) = 0"
  using assms by (auto simp: cb_defs valid_config_def)

theorem open_until_timeout_witness:
  "fst (should_attempt_call 31 (transition_to_open (init_breaker default_cb_config ''n'')))
   \<and> \<not> fst (should_attempt_call 30 (transition_to_open (init_breaker default_cb_config ''n'')))"
  using open_until_timeout [of "transition_to_open (init_breaker default_cb_config ''n'')" 31]
    open_until_timeout [of "transition_to_open (init_breaker default_cb_config ''n'')" 30]
  by (simp add: cb_defs init_breaker_def default_cb_config_def valid_config_def)

text \<open>
  When a CLOSED breaker trips: over any sequence of recorded outcomes it is OPEN exactly when the
  failures that are not excluded, added to those counted before, reach \<^verbatim>\<open>failure_threshold\<close>.
  Successes in between never reset the count, so the failures need not be consecutive (the
  configuration documents "consecutive failures"), and excluded errors never count.
\<close>

theorem trips_on_total_failures:
  assumes "make_cb_config c = Inr c'" "cb_reachable c' b" "cb_state b = CLOSED"
    and "list_all outcome_event evs"
  shows "cb_state (cb_run evs b) =
     (if failure_count b + counted_failures c' evs < failure_threshold c' then CLOSED else OPEN)"
proof -
  from assms(1) have v: "valid_config c'" by (simp add: make_cb_config_iff)
  from assms(2) have c: "config b = c'" by (rule cb_reachable_config)
  from assms(2) v have "cb_inv b"
    by (induction rule: cb_reachable.induct)
      (auto simp: init_inv intro: cb_exec_inv simp: cb_reachable_config)
  with assms(3) have "failure_count b < failure_threshold (config b)" by (simp add: cb_inv_def)
  from closed_outcomes [OF assms(3) this assms(4)] c show ?thesis by simp
qed

theorem trips_on_total_failures_witness:
  "cb_state (cb_run (concat (replicate 5 [Failure 1 (PyExn ''E'' ''x''), Success]))
      (init_breaker default_cb_config ''n'')) = OPEN"
  using trips_on_total_failures [OF default_config_valid cb_start [of default_cb_config "''n''"],
      of "concat (replicate 5 [Failure 1 (PyExn ''E'' ''x''), Success])"]
  by (simp add: init_breaker_def default_cb_config_def numeral_eq_Suc)

text \<open>
  With one test request per cycle and a success threshold of at least two (the default
  configuration allows one and asks for three), an open breaker whose clients record one outcome
  per admitted request never closes again: recovery is impossible short of \<^verbatim>\<open>reset\<close>.
\<close>

theorem default_breaker_never_recovers:
  assumes "half_open_requests (config b0) = 1" "2 \<le> success_threshold (config b0)"
    and "cb_state b0 = OPEN" and "disciplined b0 b n"
  shows "cb_state b \<noteq> CLOSED"
  using disciplined_starved [OF assms(4,1,2,3)] by (simp add: starved_def)

theorem default_breaker_never_recovers_witness:
  "cb_state (record_success (snd (should_attempt_call 100
      (transition_to_open (init_breaker default_cb_config ''n''))))) = HALF_OPEN
   \<and> cb_state (record_success (snd (should_attempt_call 100
      (transition_to_open (init_breaker default_cb_config ''n''))))) \<noteq> CLOSED"
proof -
  let ?b0 = "transition_to_open (init_breaker default_cb_config ''n'')"
  have a: "should_attempt_call 100 ?b0 = (True, snd (should_attempt_call 100 ?b0))"
    by (simp add: cb_defs init_breaker_def default_cb_config_def)
  have d: "disciplined ?b0 (record_success (snd (should_attempt_call 100 ?b0))) 0"
    by (rule d_success, rule d_admit [OF d_start a])
  have "cb_state (record_success (snd (should_attempt_call 100 ?b0))) \<noteq> CLOSED"
    by (rule default_breaker_never_recovers [OF _ _ _ d])
      (simp_all add: cb_defs init_breaker_def default_cb_config_def)
  moreover have "cb_state (record_success (snd (should_attempt_call 100 ?b0))) = HALF_OPEN"
    by (simp add: cb_defs init_breaker_def default_cb_config_def)
  ultimately show ?thesis by blast
qed

text \<open>
  The recovery that does work: when \<^verbatim>\<open>half_open_requests\<close> is at least \<^verbatim>\<open>success_threshold\<close>, an OPEN
  breaker whose timeout has passed closes, with its counters cleared, after \<^verbatim>\<open>success_threshold\<close>
  admitted requests that succeed.
\<close>

theorem recovers_when_budget_allows:
  assumes "valid_config (config b)" "success_threshold (config b) \<le> half_open_requests (config b)"
    and "cb_state b = OPEN" "now - last_failure_time b > timeout_seconds (config b)"
  shows "cb_state (cb_run (concat (replicate (nat (success_threshold (config b))) [Allow now, Success])) b)
         = CLOSED"
proof -
  let ?k = "success_threshold (config b)"
  let ?h = "record_success (snd (should_attempt_call now b))"
  have k: "0 < ?k" using assms(1) by (simp add: valid_config_def)
  then obtain m where m: "nat ?k = Suc m" by (cases "nat ?k") auto
  with k have km: "?k = int m + 1" by simp
  have "cb_run (concat (replicate (nat ?k) [Allow now, Success])) b
      = cb_run (concat (replicate m [Allow now, Success])) ?h"
    by (simp add: m case_prod_beta)
  moreover have "cb_state (cb_run (concat (replicate m [Allow now, Success])) ?h) = CLOSED"
  proof (cases "m = 0")
    case True
    with km assms show ?thesis
      by (simp add: cb_defs Let_def valid_config_def)
  next
    case False
    with km assms have "cb_state ?h = HALF_OPEN" "config ?h = config b"
      "success_count ?h = ?k - int m" "half_open_total_attempts ?h = ?k - int m"
      by (simp_all add: cb_defs Let_def valid_config_def)
    with half_open_recovers [of ?h m now] False assms(2) show ?thesis by simp
  qed
  ultimately show ?thesis by simp
qed

theorem recovers_when_budget_allows_witness:
  "cb_state (cb_run [Allow 100, Success, Allow 100, Success]
     (transition_to_open (init_breaker (default_cb_config\<lparr>success_threshold := 2, half_open_requests := 2\<rparr>) ''n'')))
   = CLOSED"
  using recovers_when_budget_allows [of "transition_to_open
      (init_breaker (default_cb_config\<lparr>success_threshold := 2, half_open_requests := 2\<rparr>) ''n'')" 100]
  by (simp add: transition_to_open_def init_breaker_def default_cb_config_def valid_config_def
      numeral_2_eq_2 del: cb_exec.simps)

end
