(* ===== verification/Load_Control.thy ===== *)
theory Load_Control
  imports Backend_Errors
begin

text \<open>
  \<^verbatim>\<open>reliability/load_control.py\<close>: the backpressure controller. \<^verbatim>\<open>acquire\<close> is a context manager whose
  body runs between several short critical sections, so it is modelled as a step relation over any
  number of threads: each critical section (\<^verbatim>\<open>with self._lock\<close>), each semaphore operation and the
  protected body is one atomic step, and the steps of the threads interleave freely. Asynchronous
  interrupts (\<^verbatim>\<open>KeyboardInterrupt\<close>), which \<^verbatim>\<open>except Exception\<close> does not catch, are not modelled.
\<close>

section \<open>The controller\<close>

record controller =
  max_concurrent :: nat
  queue_size :: int
  semaphore :: nat
  queue_depth :: int
  rejected_count :: int

definition init_controller :: "nat \<Rightarrow> int \<Rightarrow> controller" where
  "init_controller m q = \<lparr>max_concurrent = m, queue_size = q, semaphore = m, queue_depth = 0,
     rejected_count = 0\<rparr>"

definition default_controller :: controller where
  "default_controller = init_controller 100 1000"

text \<open>Phase 1 of \<^verbatim>\<open>acquire\<close>: reject when the queue is full, otherwise join it.\<close>

definition join_queue :: "controller \<Rightarrow> (backend_error + unit) \<times> controller" where
  "join_queue c =
     (if queue_depth c \<ge> queue_size c
      then (Inl (BackendError ''Request queue full'' TRANSIENT None None None),
            c\<lparr>rejected_count := rejected_count c + 1\<rparr>)
      else (Inr (), c\<lparr>queue_depth := queue_depth c + 1\<rparr>))"

text \<open>Phase 2: the semaphore, the accounting of a timed-out wait, leaving the queue, release.\<close>

definition sem_acquire :: "controller \<Rightarrow> controller option" where
  "sem_acquire c = (if semaphore c > 0 then Some (c\<lparr>semaphore := semaphore c - 1\<rparr>) else None)"

definition count_timeout :: "controller \<Rightarrow> backend_error \<times> controller" where
  "count_timeout c = (BackendError ''Failed to acquire permit'' TIMEOUT None None None,
     c\<lparr>rejected_count := rejected_count c + 1\<rparr>)"

definition leave_queue :: "controller \<Rightarrow> controller" where
  "leave_queue c = c\<lparr>queue_depth := queue_depth c - 1\<rparr>"

definition sem_release :: "controller \<Rightarrow> controller" where
  "sem_release c = c\<lparr>semaphore := semaphore c + 1\<rparr>"

definition reset_stats :: "controller \<Rightarrow> controller" where
  "reset_stats c = c\<lparr>rejected_count := 0\<rparr>"

record bp_stats =
  bs_queue_depth :: int
  bs_rejected_count :: int
  bs_max_concurrent :: nat
  bs_queue_size :: int
  bs_healthy :: bool

definition bp_get_stats :: "controller \<Rightarrow> bp_stats" where
  "bp_get_stats c = \<lparr>bs_queue_depth = queue_depth c, bs_rejected_count = rejected_count c,
     bs_max_concurrent = max_concurrent c, bs_queue_size = queue_size c,
     bs_healthy = (of_int (queue_depth c) < of_int (queue_size c) * (8 / 10 :: real))\<rparr>"

section \<open>Threads inside \<^verbatim>\<open>acquire\<close>\<close>

text \<open>
  Where a thread is: outside; counted in the queue and waiting for the semaphore; holding a permit
  but still counted (\<open>Permitted\<close>); without a permit, before or after the rejection was counted
  (\<open>Expired\<close>, \<open>Unwinding\<close>); or running the protected body.
\<close>

datatype phase = Outside | InQueue | Permitted | Expired | Unwinding | Running

record bp_sys =
  ctl :: controller
  threads :: "nat \<Rightarrow> phase"

definition set_phase :: "nat \<Rightarrow> phase \<Rightarrow> controller \<Rightarrow> bp_sys \<Rightarrow> bp_sys" where
  "set_phase t p c s = \<lparr>ctl = c, threads = (threads s)(t := p)\<rparr>"

inductive bp_step :: "bp_sys \<Rightarrow> bp_sys \<Rightarrow> bool" where
  reject_full: "threads s t = Outside \<Longrightarrow> join_queue (ctl s) = (Inl e, c) \<Longrightarrow>
     bp_step s (set_phase t Outside c s)"
| join: "threads s t = Outside \<Longrightarrow> join_queue (ctl s) = (Inr (), c) \<Longrightarrow>
     bp_step s (set_phase t InQueue c s)"
| get_permit: "threads s t = InQueue \<Longrightarrow> sem_acquire (ctl s) = Some c \<Longrightarrow>
     bp_step s (set_phase t Permitted c s)"
| wait_expires: "threads s t = InQueue \<Longrightarrow> bp_step s (set_phase t Expired (ctl s) s)"
| reject_timeout: "threads s t = Expired \<Longrightarrow>
     bp_step s (set_phase t Unwinding (snd (count_timeout (ctl s))) s)"
| unwind: "threads s t = Unwinding \<Longrightarrow> bp_step s (set_phase t Outside (leave_queue (ctl s)) s)"
| dequeue: "threads s t = Permitted \<Longrightarrow> bp_step s (set_phase t Running (leave_queue (ctl s)) s)"
| body_done: "threads s t = Running \<Longrightarrow> bp_step s (set_phase t Outside (sem_release (ctl s)) s)"
| reset_counter: "bp_step s (s\<lparr>ctl := reset_stats (ctl s)\<rparr>)"

inductive bp_reachable :: "nat \<Rightarrow> int \<Rightarrow> bp_sys \<Rightarrow> bool" for m q where
  bp_start: "bp_reachable m q \<lparr>ctl = init_controller m q, threads = (\<lambda>_. Outside)\<rparr>"
| bp_more: "bp_reachable m q s \<Longrightarrow> bp_step s s' \<Longrightarrow> bp_reachable m q s'"

abbreviation queued :: "phase set" where
  "queued \<equiv> {InQueue, Permitted, Expired, Unwinding}"

abbreviation holding :: "phase set" where
  "holding \<equiv> {Permitted, Running}"

definition population :: "phase set \<Rightarrow> (nat \<Rightarrow> phase) \<Rightarrow> nat" where
  "population P f = card {t. f t \<in> P}"

definition bp_inv :: "nat \<Rightarrow> int \<Rightarrow> bp_sys \<Rightarrow> bool" where
  "bp_inv m q s \<longleftrightarrow>
     max_concurrent (ctl s) = m \<and> queue_size (ctl s) = q
   \<and> finite {t. threads s t \<noteq> Outside}
   \<and> semaphore (ctl s) + population holding (threads s) = m
   \<and> queue_depth (ctl s) = int (population queued (threads s))
   \<and> queue_depth (ctl s) \<le> max 0 q
   \<and> 0 \<le> rejected_count (ctl s)"

section \<open>Lemmas\<close>

lemmas bp_defs = join_queue_def sem_acquire_def count_timeout_def leave_queue_def sem_release_def
  reset_stats_def set_phase_def

lemma population_upd:
  assumes "finite {t. f t \<noteq> Outside}" "Outside \<notin> P"
  shows "population P (f(i := x)) + (if f i \<in> P then 1 else 0)
       = population P f + (if x \<in> P then 1 else 0)"
proof -
  let ?A = "{t. f t \<in> P}"
  have fin: "finite ?A" using assms by (rule_tac finite_subset [OF _ assms(1)]) auto
  have "{t. (f(i := x)) t \<in> P} = (if x \<in> P then insert i (?A - {i}) else ?A - {i})"
    by auto
  moreover have "card (insert i (?A - {i})) = Suc (card (?A - {i}))"
    using fin by (simp add: card.insert_remove)
  moreover have "card (?A - {i}) + (if f i \<in> P then 1 else 0) = card ?A"
    using fin card_Suc_Diff1 [of ?A i] by (simp del: card_Diff_insert)
  ultimately show ?thesis by (simp add: population_def split: if_splits)
qed

lemma finite_threads_upd:
  "finite {t. f t \<noteq> Outside} \<Longrightarrow> finite {t. (f(i := x)) t \<noteq> Outside}"
  by (rule finite_subset [of _ "insert i {t. f t \<noteq> Outside}"]) auto

lemma bp_inv_start: "bp_inv m q \<lparr>ctl = init_controller m q, threads = (\<lambda>_. Outside)\<rparr>"
  by (simp add: bp_inv_def init_controller_def population_def)

lemma bp_inv_finite: "bp_inv m q s \<Longrightarrow> finite {t. threads s t \<noteq> Outside}"
  by (simp add: bp_inv_def)

lemma bp_step_inv:
  assumes "bp_step s s'" "bp_inv m q s"
  shows "bp_inv m q s'"
proof -
  note upd = population_upd [OF bp_inv_finite [OF assms(2)]]
  note fin = finite_threads_upd [OF bp_inv_finite [OF assms(2)]]
  from assms(1) show ?thesis
  proof cases
    case (reject_full t e c)
    then have "(threads s)(t := Outside) = threads s" by (simp add: fun_upd_idem)
    with reject_full assms(2) show ?thesis
      by (auto simp: bp_inv_def bp_defs split: if_splits)
  next
    case (join t c)
    with assms(2) upd [of queued t InQueue] upd [of holding t InQueue] fin [of t InQueue]
    show ?thesis by (auto simp: bp_inv_def bp_defs split: if_splits)
  next
    case (get_permit t c)
    with assms(2) upd [of queued t Permitted] upd [of holding t Permitted] fin [of t Permitted]
    show ?thesis by (auto simp: bp_inv_def bp_defs split: if_splits)
  next
    case (wait_expires t)
    with assms(2) upd [of queued t Expired] upd [of holding t Expired] fin [of t Expired]
    show ?thesis by (auto simp: bp_inv_def bp_defs)
  next
    case (reject_timeout t)
    with assms(2) upd [of queued t Unwinding] upd [of holding t Unwinding] fin [of t Unwinding]
    show ?thesis by (auto simp: bp_inv_def bp_defs)
  next
    case (unwind t)
    with assms(2) upd [of queued t Outside] upd [of holding t Outside] fin [of t Outside]
    show ?thesis by (auto simp: bp_inv_def bp_defs)
  next
    case (dequeue t)
    with assms(2) upd [of queued t Running] upd [of holding t Running] fin [of t Running]
    show ?thesis by (auto simp: bp_inv_def bp_defs)
  next
    case (body_done t)
    with assms(2) upd [of queued t Outside] upd [of holding t Outside] fin [of t Outside]
    show ?thesis by (auto simp: bp_inv_def bp_defs)
  next
    case reset_counter
    with assms(2) show ?thesis by (simp add: bp_inv_def bp_defs)
  qed
qed

lemma bp_reachable_inv: "bp_reachable m q s \<Longrightarrow> bp_inv m q s"
  by (induction rule: bp_reachable.induct) (auto simp: bp_inv_start intro: bp_step_inv)

lemma population_mono:
  "finite {t. f t \<noteq> Outside} \<Longrightarrow> Outside \<notin> B \<Longrightarrow> A \<subseteq> B \<Longrightarrow> population A f \<le> population B f"
  unfolding population_def
  by (rule card_mono) (auto elim: finite_subset [rotated])

section \<open>Properties\<close>

text \<open>
  C15: The two bounds hold in every interleaving of any number of threads: no more than
  \<^verbatim>\<open>max_concurrent\<close> bodies run at once, no more than \<^verbatim>\<open>queue_size\<close> threads wait, and the counters
  tell the truth (permits plus permit holders is \<^verbatim>\<open>max_concurrent\<close>, the queue depth is the number of
  threads counted in the queue).
\<close>

theorem backpressure_bounds:
  assumes "bp_reachable m q s"
  shows "population {Running} (threads s) \<le> m
       \<and> int (population {InQueue} (threads s)) \<le> max 0 q
       \<and> semaphore (ctl s) + population holding (threads s) = max_concurrent (ctl s)
       \<and> queue_depth (ctl s) = int (population queued (threads s))"
proof -
  have inv: "bp_inv m q s" using assms by (rule bp_reachable_inv)
  note fin = bp_inv_finite [OF inv]
  have "population {Running} (threads s) \<le> population holding (threads s)"
    and "population {InQueue} (threads s) \<le> population queued (threads s)"
    by (rule population_mono [OF fin]; simp)+
  with inv show ?thesis by (auto simp: bp_inv_def)
qed

text \<open>A run in which one thread holds the only permit and a second one waits.\<close>

definition contended :: bp_sys where
  "contended = \<lparr>ctl = init_controller 1 5\<lparr>semaphore := 0, queue_depth := 1\<rparr>,
     threads = (\<lambda>_. Outside)(1 := Running, 2 := InQueue)\<rparr>"

lemma contended_reachable: "bp_reachable 1 5 contended"
proof -
  let ?s0 = "\<lparr>ctl = init_controller 1 5, threads = (\<lambda>_. Outside)\<rparr>"
  let ?s1 = "\<lparr>ctl = init_controller 1 5\<lparr>queue_depth := 1\<rparr>, threads = (\<lambda>_. Outside)(1 := InQueue)\<rparr>"
  let ?s2 = "\<lparr>ctl = init_controller 1 5\<lparr>semaphore := 0, queue_depth := 1\<rparr>,
               threads = (\<lambda>_. Outside)(1 := Permitted)\<rparr>"
  let ?s3 = "\<lparr>ctl = init_controller 1 5\<lparr>semaphore := 0\<rparr>, threads = (\<lambda>_. Outside)(1 := Running)\<rparr>"
  have "bp_reachable 1 5 ?s1"
    using bp_more [OF bp_start, of 1 5] bp_step.join [of ?s0 1 "ctl ?s1"]
    by (simp add: bp_defs init_controller_def)
  then have "bp_reachable 1 5 ?s2"
    using bp_more [of 1 5 ?s1] bp_step.get_permit [of ?s1 1 "ctl ?s2"]
    by (simp add: bp_defs init_controller_def)
  then have "bp_reachable 1 5 ?s3"
    using bp_more [of 1 5 ?s2] bp_step.dequeue [of ?s2 1]
    by (simp add: bp_defs init_controller_def)
  then show ?thesis
    using bp_more [of 1 5 ?s3] bp_step.join [of ?s3 2 "ctl contended"]
    by (simp add: bp_defs init_controller_def contended_def)
qed

theorem backpressure_bounds_witness:
  "semaphore (ctl contended) = 0 \<and> queue_depth (ctl contended) = 1
   \<and> population {Running} (threads contended) \<le> 1"
  using backpressure_bounds [OF contended_reachable]
  by (simp add: contended_def init_controller_def)

text \<open>
  Nothing leaks: whenever no thread is inside \<^verbatim>\<open>acquire\<close>, whichever way the earlier calls ended
  (success, an exception in the body, a full queue, an expired wait), all permits are back and the
  queue depth is zero, so a later call is admitted as long as \<^verbatim>\<open>queue_size\<close> is positive.
\<close>

theorem backpressure_no_leak:
  assumes "bp_reachable m q s" "\<forall>t. threads s t = Outside"
  shows "semaphore (ctl s) = m \<and> queue_depth (ctl s) = 0
       \<and> (fst (join_queue (ctl s)) = Inr () \<longleftrightarrow> 0 < q)"
proof -
  from assms(2) have "population P (threads s) = 0" if "Outside \<notin> P" for P
    using that by (simp add: population_def)
  with bp_reachable_inv [OF assms(1)] show ?thesis
    by (simp add: bp_inv_def join_queue_def)
qed

theorem backpressure_no_leak_witness:
  "fst (join_queue (ctl \<lparr>ctl = default_controller, threads = (\<lambda>_. Outside)\<rparr>)) = Inr ()"
  using backpressure_no_leak [OF bp_start [of 100 1000]] by (simp add: default_controller_def)

text \<open>
  A waiting thread is never stuck: if it is in the queue and some permit is free it can take the
  permit and then run; if none is free, another thread holds one and can give it back.
\<close>

theorem backpressure_progress:
  assumes "bp_reachable m q s" "threads s t = InQueue" "0 < m"
  shows "(\<exists>s'. bp_step s s' \<and> threads s' t = Permitted)
       \<or> (\<exists>u s'. u \<noteq> t \<and> threads s u \<in> holding \<and> bp_step s s' \<and>
             (threads s' u = Running \<or> threads s' u = Outside))"
proof (cases "0 < semaphore (ctl s)")
  case True
  then obtain c where "sem_acquire (ctl s) = Some c" by (auto simp: sem_acquire_def)
  from get_permit [OF assms(2) this] have
    "bp_step s (set_phase t Permitted c s) \<and> threads (set_phase t Permitted c s) t = Permitted"
    by (simp add: set_phase_def)
  then show ?thesis by blast
next
  case False
  with bp_reachable_inv [OF assms(1)] assms(3) have "population holding (threads s) \<noteq> 0"
    by (simp add: bp_inv_def)
  then obtain u where u: "threads s u \<in> holding"
    unfolding population_def by (metis (mono_tags, lifting) card.empty empty_Collect_eq)
  with assms(2) have "u \<noteq> t" by auto
  moreover from u have "\<exists>s'. bp_step s s' \<and> (threads s' u = Running \<or> threads s' u = Outside)"
    using dequeue [of s u] body_done [of s u] by (auto simp: set_phase_def)
  ultimately show ?thesis using u by blast
qed

theorem backpressure_progress_witness:
  "(\<exists>s'. bp_step contended s' \<and> threads s' 2 = Permitted)
   \<or> (\<exists>u s'. u \<noteq> 2 \<and> threads contended u \<in> holding \<and> bp_step contended s' \<and>
         (threads s' u = Running \<or> threads s' u = Outside))"
  by (rule backpressure_progress [OF contended_reachable]) (simp_all add: contended_def)

end
