(* ===== verification/Orchestrator.thy ===== *)
theory Orchestrator
  imports Circuit_Breaker Load_Control
begin

text \<open>
  \<^verbatim>\<open>decorators/orchestrator.py\<close>: the feature orchestrator every decorated function owns. It holds the
  circuit breaker and the backpressure controller and funnels outcomes to them. The metrics
  collector is kept as the list of calls made to it (newest first); logging has no effect on the
  state and is left out, as are the correlation identifiers.
\<close>

record metric_call =
  mc_operation :: string
  mc_namespace :: string
  mc_success :: bool
  mc_duration_ms :: real

record orchestrator =
  orch_namespace :: string
  orch_breaker :: "breaker option"
  orch_load :: "controller option"
  orch_metrics :: "metric_call list option"
  op_context :: "(string \<times> real) option"

text \<open>
  The constructor: a missing breaker configuration means the defaults, a dictionary or an object goes
  through \<^verbatim>\<open>CircuitBreakerConfig\<close>'s validation.
\<close>

definition make_orchestrator ::
  "string \<Rightarrow> bool \<Rightarrow> bool \<Rightarrow> bool \<Rightarrow> cb_config option \<Rightarrow> (nat \<times> int) option
   \<Rightarrow> cb_config_error + orchestrator" where
  "make_orchestrator ns cb_enabled bp_enabled stats cfg bp_cfg =
     (let load = (if bp_enabled
                  then Some (case bp_cfg of None \<Rightarrow> default_controller
                                          | Some (m, q) \<Rightarrow> init_controller m q)
                  else None);
          build = (\<lambda>b. \<lparr>orch_namespace = ns, orch_breaker = b, orch_load = load,
                       orch_metrics = (if stats then Some [] else None), op_context = None\<rparr>)
      in if \<not> cb_enabled then Inr (build None)
         else case make_cb_config (case cfg of None \<Rightarrow> default_cb_config | Some c \<Rightarrow> c) of
                Inl e \<Rightarrow> Inl e
              | Inr c \<Rightarrow> Inr (build (Some (init_breaker c ns))))"

definition should_allow_request :: "orchestrator \<Rightarrow> bool" where
  "should_allow_request f =
     (case orch_breaker f of None \<Rightarrow> True | Some b \<Rightarrow> get_state b \<noteq> OPEN)"

definition can_accept_request :: "orchestrator \<Rightarrow> bool" where
  "can_accept_request f = (case orch_load f of None \<Rightarrow> True | Some _ \<Rightarrow> True)"

definition record_cache_operation :: "metric_call \<Rightarrow> orchestrator \<Rightarrow> orchestrator" where
  "record_cache_operation m f = f\<lparr>orch_metrics := map_option (\<lambda>ms. m # ms) (orch_metrics f)\<rparr>"

definition set_operation_context :: "string \<Rightarrow> real \<Rightarrow> orchestrator \<Rightarrow> orchestrator" where
  "set_operation_context op d f = f\<lparr>op_context := Some (op, d)\<rparr>"

definition context_metric :: "bool \<Rightarrow> orchestrator \<Rightarrow> metric_call" where
  "context_metric ok f =
     (let (op, d) = (case op_context f of None \<Rightarrow> (''cache_operation'', 0) | Some c \<Rightarrow> c)
      in \<lparr>mc_operation = op, mc_namespace = orch_namespace f, mc_success = ok, mc_duration_ms = d\<rparr>)"

definition orch_record_failure :: "real \<Rightarrow> pyexn \<Rightarrow> orchestrator \<Rightarrow> orchestrator" where
  "orch_record_failure now err f =
     (let f1 = f\<lparr>orch_breaker := map_option (on_failure now err) (orch_breaker f)\<rparr>
      in record_cache_operation (context_metric False f) f1)"

definition orch_record_success :: "orchestrator \<Rightarrow> orchestrator" where
  "orch_record_success f =
     (let f1 = f\<lparr>orch_breaker := map_option on_success (orch_breaker f)\<rparr>
      in record_cache_operation (context_metric True f) f1)"

definition record_exception :: "orchestrator \<Rightarrow> orchestrator" where
  "record_exception f = record_cache_operation
     \<lparr>mc_operation = ''exception'', mc_namespace = orch_namespace f, mc_success = False, mc_duration_ms = 0\<rparr> f"

text \<open>\<open>sp\<close>: whether a tracing span is given.\<close>

definition handle_cache_error ::
  "real \<Rightarrow> pyexn \<Rightarrow> string \<Rightarrow> bool \<Rightarrow> real \<Rightarrow> orchestrator \<Rightarrow> orchestrator" where
  "handle_cache_error now err op sp dur f =
     (let f1 = (if sp then record_exception f else f);
          f2 = set_operation_context op dur f1
      in orch_record_failure now err f2)"

record health_status =
  h_namespace :: string
  overall_healthy :: bool
  healthy :: bool
  h_breaker :: "cb_stats option"
  h_load :: "bp_stats option"

fun lower_state_name :: "circuit_state \<Rightarrow> string" where
  "lower_state_name CLOSED = ''closed''"
| "lower_state_name OPEN = ''open''"
| "lower_state_name HALF_OPEN = ''half_open''"

definition get_health_status :: "orchestrator \<Rightarrow> health_status" where
  "get_health_status f =
     (let ok = (case orch_breaker f of None \<Rightarrow> True | Some b \<Rightarrow> get_state b \<noteq> OPEN)
      in \<lparr>h_namespace = orch_namespace f, overall_healthy = ok, healthy = ok,
          h_breaker = map_option (\<lambda>b. (cb_get_stats b)\<lparr>st_state := lower_state_name (get_state b)\<rparr>)
                        (orch_breaker f),
          h_load = map_option bp_get_stats (orch_load f)\<rparr>)"

definition check_health :: "orchestrator \<Rightarrow> string \<times> string" where
  "check_health f = (if healthy (get_health_status f) then ''healthy'' else ''unhealthy'',
     h_namespace (get_health_status f))"

section \<open>Runs of a decorated function's orchestrator\<close>

text \<open>Everything the wrappers do to it.\<close>

datatype orch_event =
    OSuccess
  | OFailure real pyexn
  | OError real pyexn string bool real
  | OContext string real
  | OMetric metric_call

fun orch_exec :: "orch_event \<Rightarrow> orchestrator \<Rightarrow> orchestrator" where
  "orch_exec OSuccess f = orch_record_success f"
| "orch_exec (OFailure now e) f = orch_record_failure now e f"
| "orch_exec (OError now e op sp dur) f = handle_cache_error now e op sp dur f"
| "orch_exec (OContext op d) f = set_operation_context op d f"
| "orch_exec (OMetric m) f = record_cache_operation m f"

fun orch_run :: "orch_event list \<Rightarrow> orchestrator \<Rightarrow> orchestrator" where
  "orch_run [] f = f"
| "orch_run (e # es) f = orch_run es (orch_exec e f)"

lemmas orch_defs = record_cache_operation_def set_operation_context_def orch_record_failure_def
  orch_record_success_def record_exception_def handle_cache_error_def Let_def

text \<open>The breaker sees an orchestrator event as at most one of its own outcomes.\<close>

fun breaker_events :: "orch_event \<Rightarrow> cb_event list" where
  "breaker_events OSuccess = [Success]"
| "breaker_events (OFailure now e) = [Failure now e]"
| "breaker_events (OError now e _ _ _) = [Failure now e]"
| "breaker_events _ = []"

lemma orch_exec_breaker:
  "orch_breaker (orch_exec ev f) = map_option (cb_run (breaker_events ev)) (orch_breaker f)"
  by (cases ev; cases "orch_breaker f")
    (simp_all add: orch_defs record_success_def record_failure_def)

lemma cb_run_append: "cb_run (xs @ ys) b = cb_run ys (cb_run xs b)"
  by (induction xs arbitrary: b) simp_all

lemma orch_run_breaker:
  "orch_breaker (orch_run evs f) =
   map_option (cb_run (concat (map breaker_events evs))) (orch_breaker f)"
proof (induction evs arbitrary: f)
  case Nil
  then show ?case by (cases "orch_breaker f") simp_all
next
  case (Cons ev evs)
  then show ?case by (cases "orch_breaker f") (simp_all add: orch_exec_breaker cb_run_append)
qed

lemma breaker_events_outcomes: "list_all outcome_event (concat (map breaker_events evs))"
proof (induction evs)
  case (Cons ev evs)
  then show ?case by (cases ev) simp_all
qed simp

section \<open>Properties\<close>

text \<open>
  C19: Through the orchestrator an open circuit is open for ever: \<^verbatim>\<open>should_allow_request\<close> only reads the
  state and never asks the breaker for a test request, so once the breaker is OPEN every later
  check refuses, whatever successes and failures are recorded in between and however long the
  timeout has passed.
\<close>

theorem orchestrator_open_forever:
  assumes "orch_breaker f = Some b" "cb_state b = OPEN"
  shows "\<not> should_allow_request (orch_run evs f)"
  using open_outcomes [OF assms(2) breaker_events_outcomes] assms(1)
  by (simp add: should_allow_request_def orch_run_breaker get_state_def)

theorem orchestrator_open_forever_witness:
  "\<not> should_allow_request (orch_run [OSuccess, OFailure 1000000 (PyExn ''E'' ''''), OSuccess, OSuccess]
      \<lparr>orch_namespace = ''n'', orch_breaker = Some (transition_to_open (init_breaker default_cb_config ''n'')),
       orch_load = None, orch_metrics = None, op_context = None\<rparr>)"
  by (rule orchestrator_open_forever [where b = "transition_to_open (init_breaker default_cb_config ''n'')"])
    (simp_all add: transition_to_open_def)

text \<open>
  What the orchestrator counts against the breaker: from a fresh orchestrator, whatever the
  exceptions are, requests are allowed exactly while fewer than \<^verbatim>\<open>failure_threshold\<close> failures that
  are not excluded by type have been recorded. Exceptions that are no \<^verbatim>\<open>BackendError\<close> (application
  errors, for which \<^verbatim>\<open>BackendErrorClassifier\<close> answers "not a breaker failure") count like any other.
\<close>

theorem orchestrator_allows_iff_below_threshold:
  assumes "make_orchestrator ns True bp st cfg bpc = Inr f"
    and "make_cb_config (case cfg of None \<Rightarrow> default_cb_config | Some c \<Rightarrow> c) = Inr c"
  shows "should_allow_request (orch_run evs f) \<longleftrightarrow>
         counted_failures c (concat (map breaker_events evs)) < failure_threshold c"
proof -
  from assms have f: "orch_breaker f = Some (init_breaker c ns)"
    by (auto simp: make_orchestrator_def Let_def split: sum.splits)
  from assms(2) have v: "valid_config c" by (simp add: make_cb_config_iff split: option.splits)
  have "cb_state (cb_run (concat (map breaker_events evs)) (init_breaker c ns)) =
     (if counted_failures c (concat (map breaker_events evs)) < failure_threshold c then CLOSED else OPEN)"
    using closed_outcomes [of "init_breaker c ns", OF _ _ breaker_events_outcomes [of evs]] v
    by (simp add: init_breaker_def valid_config_def)
  with f show ?thesis
    by (simp add: should_allow_request_def orch_run_breaker get_state_def)
qed

theorem orchestrator_allows_iff_below_threshold_witness:
  "\<exists>f. make_orchestrator ''n'' True True True None None = Inr f
     \<and> \<not> is_circuit_breaker_failure (PyExn ''KeyError'' ''user bug'')
     \<and> \<not> should_allow_request (orch_run (replicate 5 (OFailure 1 (PyExn ''KeyError'' ''user bug''))) f)"
proof -
  obtain f where f: "make_orchestrator ''n'' True True True None None = Inr f"
    by (simp add: make_orchestrator_def default_config_valid Let_def)
  have c: "make_cb_config (case None of None \<Rightarrow> default_cb_config | Some c \<Rightarrow> c) = Inr default_cb_config"
    by (simp add: default_config_valid)
  have n: "failure_threshold default_cb_config = 5" by (simp add: default_cb_config_def)
  let ?evs = "replicate 5 (OFailure 1 (PyExn ''KeyError'' ''user bug''))"
  have "counted_failures default_cb_config (concat (map breaker_events ?evs)) = 5"
    by (simp add: numeral_eq_Suc)
  with orchestrator_allows_iff_below_threshold [OF f c, of ?evs] n
  have "\<not> should_allow_request (orch_run ?evs f)" by linarith
  with f show ?thesis by auto
qed

text \<open>
  The health report agrees with what the wrappers do: it is unhealthy exactly when requests are
  refused.
\<close>

theorem health_iff_requests_allowed:
  "(fst (check_health f) = ''healthy'') = should_allow_request f"
  by (simp add: check_health_def get_health_status_def should_allow_request_def Let_def
      split: option.split)

end
