(* ===== verification/Cache_Handler.thy ===== *)
theory Cache_Handler
  imports Encryption Orchestrator
begin

text \<open>
  \<^verbatim>\<open>cache_handler.py\<close>: the serialization handler (envelope, optional encryption, the per-tenant cache of encryption
  wrappers), the policy for entries that fail to decrypt, the standard cache handler in front of a backend, the operation
  handler and the invalidator. The backend, the JSON library, the serializer and the cipher are arguments.
\<close>

section \<open>Serialization handler\<close>

text \<open>
  What the handler calls: the base serializer, the cipher, \<^verbatim>\<open>json\<close> on envelope headers, the legacy reader, the Arrow
  serializer's \<^verbatim>\<open>serialize_to_sink\<close> with its byte budget (\<open>None\<close> for every other serializer) and the settings.
\<close>

record ('a, 'k, 'r) ser_env =
  en_base :: "'a serializer"
  en_crypto :: "('k, 'r) crypto"
  en_dumps :: "md_value frame_header \<Rightarrow> bytes"
  en_loads :: "bytes \<Rightarrow> pyexn + md_value \<times> hval"
  en_legacy :: "bytes \<Rightarrow> pyexn + bytes \<times> md_value \<times> hval"
  en_stream :: "(int \<Rightarrow> 'a \<Rightarrow> pyexn + bytes) option"
  en_stream_metadata :: ser_metadata
  en_keys :: key_settings
  en_max_value_size :: int

text \<open>The handler; \<open>'g\<close> is the type of the arguments of a call, from which a tenant may be extracted.\<close>

record ('g, 'k, 'r) ser_handler =
  sh_string_name :: string
  sh_return_pandas :: bool
  sh_encryption :: bool
  sh_extractor :: "('g \<Rightarrow> pyexn + string) option"
  sh_deployment_uuid :: "string option"
  sh_master_key :: "string option"
  sh_fail_closed :: bool
  sh_interop :: bool
  sh_wrappers :: "(string, ('k, 'r) encryption_wrapper) odict"
  sh_drift_warned :: "string list"
  sh_counters :: "(string \<times> (string \<times> string) list) list"

definition ENCRYPTION_CACHE_MAXSIZE :: nat where "ENCRYPTION_CACHE_MAXSIZE = 256"

definition record_security_counter ::
  "string \<Rightarrow> (string \<times> string) list \<Rightarrow> ('g, 'k, 'r) ser_handler \<Rightarrow> ('g, 'k, 'r) ser_handler" where
  "record_security_counter name labels h = h\<lparr>sh_counters := sh_counters h @ [(name, labels)]\<rparr>"

fun hashable :: "hval \<Rightarrow> bool" where
  "hashable (HList _ _) = False"
| "hashable (HDict _ _) = False"
| "hashable _ = True"

definition handler_master_key :: "('g, 'k, 'r) ser_handler \<Rightarrow> pyexn + bytes option" where
  "handler_master_key h =
     (if truthy_str (sh_master_key h)
      then (case fromhex (the (sh_master_key h)) of
              None \<Rightarrow> Inl (PyExn ''ValueError'' ''non-hexadecimal number found in fromhex() arg'')
            | Some b \<Rightarrow> Inr (Some b))
      else Inr None)"

definition new_wrapper ::
  "('a, 'k, 'r) ser_env \<Rightarrow> hval \<Rightarrow> ('g, 'k, 'r) ser_handler \<Rightarrow> pyexn + ('k, 'r) encryption_wrapper" where
  "new_wrapper en tenant h =
     (case handler_master_key h of
        Inl e \<Rightarrow> Inl e
      | Inr mk \<Rightarrow> make_wrapper (en_crypto en) (en_keys en) mk tenant (sh_fail_closed h) None)"

text \<open>
  \<^verbatim>\<open>_get_cached_encryption_wrapper\<close>. The two checks around the lock collapse: the body runs under the lock. The tenant of
  the read path comes from the stored header and may be any JSON value; only strings ever get a wrapper.
\<close>

definition get_cached_encryption_wrapper ::
  "('a, 'k, 'r) ser_env \<Rightarrow> hval \<Rightarrow> ('g, 'k, 'r) ser_handler
   \<Rightarrow> (pyexn + ('k, 'r) encryption_wrapper) \<times> ('g, 'k, 'r) ser_handler" where
  "get_cached_encryption_wrapper en tenant h =
     (if \<not> hashable tenant then (Inl (PyExn ''TypeError'' ''unhashable type''), h)
      else case (case tenant of HStr t \<Rightarrow> map_of (sh_wrappers h) t | _ \<Rightarrow> None) of
        Some w \<Rightarrow> (Inr w, h\<lparr>sh_wrappers := move_to_end (hv_str tenant) (sh_wrappers h)\<rparr>)
      | None \<Rightarrow>
          (case new_wrapper en tenant h of
             Inl e \<Rightarrow> (Inl e, h)
           | Inr w \<Rightarrow>
               (let kept = (if length (sh_wrappers h) \<ge> ENCRYPTION_CACHE_MAXSIZE then tl (sh_wrappers h) else sh_wrappers h)
                in (Inr w, h\<lparr>sh_wrappers := AList.update (hv_str tenant) w kept\<rparr>))))"

text \<open>\<^verbatim>\<open>except ValueError: raise\<close>; everything else becomes a \<^verbatim>\<open>SerializationError\<close>.\<close>

definition serialize_exn :: "pyexn \<Rightarrow> pyexn" where
  "serialize_exn e = (if is_value_error e then e
     else PyExn ''SerializationError'' (''Failed to serialize data: '' @ exn_str e))"

definition deserialize_exn :: "pyexn \<Rightarrow> pyexn" where
  "deserialize_exn e = (if is_value_error e \<or> is_serialization_error e then e
     else PyExn ''SerializationError'' (''Failed to deserialize data: '' @ exn_str e))"

definition write_tenant :: "'g \<Rightarrow> ('g, 'k, 'r) ser_handler \<Rightarrow> pyexn + string" where
  "write_tenant args h =
     (case sh_extractor h of
        Some f \<Rightarrow> f args
      | None \<Rightarrow> (case sh_deployment_uuid h of None \<Rightarrow> Inl (PyExn ''RuntimeError'' ''deployment_uuid should be set'') | Some u \<Rightarrow> Inr u))"

definition serialize_payload ::
  "('a, 'k, 'r) ser_env \<Rightarrow> bytes \<Rightarrow> 'g \<Rightarrow> 'a \<Rightarrow> string \<Rightarrow> ('g, 'k, 'r) ser_handler
   \<Rightarrow> (pyexn + bytes \<times> ser_metadata) \<times> ('g, 'k, 'r) ser_handler" where
  "serialize_payload en nonce args obj key h =
     (if sh_encryption h then
        (case write_tenant args h of
           Inl e \<Rightarrow> (Inl e, h)
         | Inr t \<Rightarrow>
             (case get_cached_encryption_wrapper en (HStr t) h of
                (Inl e, h1) \<Rightarrow> (Inl e, h1)
              | (Inr w, h1) \<Rightarrow> (enc_serialize (en_crypto en) (en_base en) nonce w obj key, h1)))
      else (sr_serialize (en_base en) obj, h))"

definition serialize_data ::
  "('a, 'k, 'r) ser_env \<Rightarrow> bytes \<Rightarrow> 'g \<Rightarrow> 'a \<Rightarrow> string \<Rightarrow> ('g, 'k, 'r) ser_handler
   \<Rightarrow> (pyexn + bytes) \<times> ('g, 'k, 'r) ser_handler" where
  "serialize_data en nonce args obj key h =
     (case serialize_payload en nonce args obj key h of
        (Inl e, h1) \<Rightarrow> (Inl (serialize_exn e), h1)
      | (Inr (data, m), h1) \<Rightarrow>
          (case (if sh_interop h then Inr data
                 else case wrap (en_dumps en) data (to_dict m) (sh_string_name h) ''2.0'' of
                        Inl fe \<Rightarrow> Inl (serialize_exn (frame_exn fe)) | Inr w \<Rightarrow> Inr w) of
             Inl e \<Rightarrow> (Inl e, h1)
           | Inr wrapped \<Rightarrow>
               if int (length wrapped) > en_max_value_size en
               then (Inl (PyExn ''ValueError'' ''Serialized value exceeds max_value_size''), h1)
               else (Inr wrapped, h1)))"

definition supports_mmap_read :: "('g, 'k, 'r) ser_handler \<Rightarrow> bool" where
  "supports_mmap_read h \<longleftrightarrow> \<not> sh_encryption h \<and> sh_string_name h = ''arrow'' \<and> sh_return_pandas h"

definition supports_streaming :: "('g, 'k, 'r) ser_handler \<Rightarrow> bool" where
  "supports_streaming h \<longleftrightarrow> \<not> sh_encryption h \<and> \<not> sh_interop h \<and> sh_string_name h = ''arrow''"

text \<open>The config-drift record: a counter on every such read, a warning for the first 1024 keys.\<close>

definition note_drift :: "string \<Rightarrow> ('g, 'k, 'r) ser_handler \<Rightarrow> ('g, 'k, 'r) ser_handler" where
  "note_drift key h =
     (if sh_encryption h then h
      else
        let h1 = record_security_counter ''cachekit_config_drift_reads_total'' [(''reason'', ''encryption_disabled'')] h in
        if key \<notin> set (sh_drift_warned h1) \<and> length (sh_drift_warned h1) < 1024
        then h1\<lparr>sh_drift_warned := sh_drift_warned h1 @ [key]\<rparr> else h1)"

definition deserialize_framed ::
  "('a, 'k, 'r) ser_env \<Rightarrow> bytes \<Rightarrow> string \<Rightarrow> ('g, 'k, 'r) ser_handler \<Rightarrow> (pyexn + 'a) \<times> ('g, 'k, 'r) ser_handler" where
  "deserialize_framed en data key h =
     (case unwrap (en_loads en) (en_legacy en) data of
        Inl fe \<Rightarrow> (Inl (frame_exn fe), h)
      | Inr (payload, md, name) \<Rightarrow>
          (case from_dict md of
             Inl e \<Rightarrow> (Inl e, h)
           | Inr m \<Rightarrow>
               if name \<noteq> HStr (sh_string_name h) \<and> name \<noteq> HStr ''unknown''
               then (Inl (PyExn ''SerializationError'' ''Serializer mismatch''), h)
               else if sh_encryption h \<and> \<not> hv_truthy (sm_encrypted m)
               then (Inl (PyExn ''SuspiciousCacheEntryError'' ''header claims plaintext''), h)
               else if hv_truthy (sm_encrypted m) then
                 (let h1 = note_drift key h in
                  if \<not> hv_truthy (sm_tenant_id m)
                  then (Inl (PyExn ''SuspiciousCacheEntryError'' ''missing tenant_id''), h1)
                  else
                    (case get_cached_encryption_wrapper en (sm_tenant_id m) h1 of
                       (Inl e, h2) \<Rightarrow> (Inl e, h2)
                     | (Inr w, h2) \<Rightarrow> (enc_deserialize (en_crypto en) (en_base en) w payload m key, h2)))
               else (sr_deserialize (en_base en) payload (Some m), h)))"

definition interop_metadata :: "string \<Rightarrow> ser_metadata" where
  "interop_metadata t = (base_metadata MSGPACK (HStr ''utf-8'') (HBool False) HNone)
     \<lparr>sm_encrypted := HBool True, sm_tenant_id := HStr t, sm_encryption_algorithm := HStr ''AES-256-GCM''\<rparr>"

definition deserialize_interop ::
  "('a, 'k, 'r) ser_env \<Rightarrow> bytes \<Rightarrow> string \<Rightarrow> ('g, 'k, 'r) ser_handler \<Rightarrow> (pyexn + 'a) \<times> ('g, 'k, 'r) ser_handler" where
  "deserialize_interop en data key h =
     (if sh_encryption h then
        (case sh_deployment_uuid h of
           None \<Rightarrow> (Inl (PyExn ''SerializationError'' ''interop encryption requires single-tenant mode''), h)
         | Some t \<Rightarrow>
             (case get_cached_encryption_wrapper en (HStr t) h of
                (Inl e, h1) \<Rightarrow> (Inl e, h1)
              | (Inr w, h1) \<Rightarrow>
                  (deserialize_without_key_identity (en_crypto en) (en_base en) w data (interop_metadata t) key, h1)))
      else (sr_deserialize (en_base en) data None, h))"

definition deserialize_data ::
  "('a, 'k, 'r) ser_env \<Rightarrow> bytes \<Rightarrow> string \<Rightarrow> ('g, 'k, 'r) ser_handler \<Rightarrow> (pyexn + 'a) \<times> ('g, 'k, 'r) ser_handler" where
  "deserialize_data en data key h =
     (case (if sh_interop h then deserialize_interop en data key h else deserialize_framed en data key h) of
        (Inl e, h1) \<Rightarrow> (Inl (deserialize_exn e), h1)
      | (Inr v, h1) \<Rightarrow> (Inr v, h1))"

text \<open>What \<^verbatim>\<open>write_serialized_to\<close> puts into the sink, or the exception it ends with.\<close>

definition write_serialized_to :: "('a, 'k, 'r) ser_env \<Rightarrow> 'a \<Rightarrow> ('g, 'k, 'r) ser_handler \<Rightarrow> pyexn + bytes" where
  "write_serialized_to en obj h =
     (case en_stream en of
        None \<Rightarrow> Inl (PyExn ''SerializationError'' ''write_serialized_to requires the arrow serializer'')
      | Some f \<Rightarrow>
          (case wrap_prefix (en_dumps en) (to_dict (en_stream_metadata en)) (sh_string_name h) ''2.0'' of
             Inl fe \<Rightarrow> Inl (frame_exn fe)
           | Inr p \<Rightarrow>
               (case f (en_max_value_size en - int (length p)) obj of Inl e \<Rightarrow> Inl e | Inr b \<Rightarrow> Inr (p @ b))))"

section \<open>The policy for entries that fail to decrypt\<close>

definition failure_reason :: "pyexn \<Rightarrow> string" where
  "failure_reason e =
     (if is_auth_error e then ''auth_tamper'' else if is_suspicious e then ''suspicious_envelope'' else ''corruption'')"

definition handle_decrypt_failure ::
  "pyexn \<Rightarrow> string \<Rightarrow> bool \<Rightarrow> ('g, 'k, 'r) ser_handler \<Rightarrow> (pyexn + string) \<times> ('g, 'k, 'r) ser_handler" where
  "handle_decrypt_failure e tier fail_closed h =
     (let reason = failure_reason e;
          h1 = record_security_counter ''cachekit_decrypt_failures_total'' [(''reason'', reason), (''tier'', tier)] h
      in if fail_closed \<and> is_auth_error e then (Inl e, h1) else (Inr reason, h1))"

section \<open>Standard cache handler\<close>

text \<open>
  A backend as the handler sees it: the three basic operations and the optional capabilities it probes with
  \<^verbatim>\<open>hasattr\<close>; the last argument of \<^verbatim>\<open>set\<close> is the stale window. A streamed write is handed the bytes its producer writes, or the exception the producer ends with.
\<close>

record 's backend =
  bk_get :: "string \<Rightarrow> 's \<Rightarrow> (pyexn + bytes option) \<times> 's"
  bk_set :: "string \<Rightarrow> bytes \<Rightarrow> int option \<Rightarrow> int option \<Rightarrow> 's \<Rightarrow> (pyexn + unit) \<times> 's"
  bk_delete :: "string \<Rightarrow> 's \<Rightarrow> (pyexn + bool) \<times> 's"
  bk_get_buffer :: "(string \<Rightarrow> 's \<Rightarrow> (pyexn + bytes option) \<times> 's) option"
  bk_set_streaming :: "(string \<Rightarrow> pyexn + bytes \<Rightarrow> int option \<Rightarrow> 's \<Rightarrow> (pyexn + unit) \<times> 's) option"
  bk_get_with_freshness :: "(string \<Rightarrow> 's \<Rightarrow> (pyexn + (bytes \<times> bool) option) \<times> 's) option"
  bk_get_ttl :: "(string \<Rightarrow> 's \<Rightarrow> (pyexn + int option) \<times> 's) option"
  bk_refresh_ttl :: "(string \<Rightarrow> int \<Rightarrow> 's \<Rightarrow> (pyexn + bool) \<times> 's) option"

text \<open>
  The state an operation works on: the serialization handler, the backend's state and the orchestrator, which owns the
  backpressure controller and receives reports of unreadable entries.
\<close>

record ('g, 'k, 'r, 's) op_state =
  os_ser :: "('g, 'k, 'r) ser_handler"
  os_backend :: 's
  os_features :: orchestrator

definition on_backend :: "('s \<Rightarrow> 'b \<times> 's) \<Rightarrow> ('g, 'k, 'r, 's) op_state \<Rightarrow> 'b \<times> ('g, 'k, 'r, 's) op_state" where
  "on_backend f st = (case f (os_backend st) of (r, s) \<Rightarrow> (r, st\<lparr>os_backend := s\<rparr>))"

definition set_load :: "controller \<Rightarrow> ('g, 'k, 'r, 's) op_state \<Rightarrow> ('g, 'k, 'r, 's) op_state" where
  "set_load c st = st\<lparr>os_features := (os_features st)\<lparr>orch_load := Some c\<rparr>\<rparr>"

text \<open>
  One backend call under the controller. The state of the controller before the call is whatever the other threads made
  it; the call itself gives back its place in the queue before and its permit after the operation.
\<close>

definition with_backpressure ::
  "('s \<Rightarrow> (pyexn + 'b) \<times> 's) \<Rightarrow> ('g, 'k, 'r, 's) op_state \<Rightarrow> (pyexn + 'b) \<times> ('g, 'k, 'r, 's) op_state" where
  "with_backpressure f st =
     (case orch_load (os_features st) of
        None \<Rightarrow> on_backend f st
      | Some c \<Rightarrow>
          (case join_queue c of
             (Inl e, c1) \<Rightarrow> (Inl (BackendExn e), set_load c1 st)
           | (Inr _, c1) \<Rightarrow>
               (case sem_acquire c1 of
                  None \<Rightarrow> (case count_timeout c1 of (e, c2) \<Rightarrow> (Inl (BackendExn e), set_load (leave_queue c2) st))
                | Some c2 \<Rightarrow>
                    (case on_backend f (set_load (leave_queue c2) st) of
                       (r, st1) \<Rightarrow> (r, set_load (sem_release (leave_queue c2)) st1)))))"

text \<open>Every method logs and swallows every exception, a \<^verbatim>\<open>BackendError\<close> or not.\<close>

definition swallow :: "'b \<Rightarrow> (pyexn + 'b) \<times> 't \<Rightarrow> 'b \<times> 't" where
  "swallow d r = (case r of (Inl e, st) \<Rightarrow> (d, st) | (Inr v, st) \<Rightarrow> (v, st))"

definition std_get ::
  "'s backend \<Rightarrow> string \<Rightarrow> ('g, 'k, 'r, 's) op_state \<Rightarrow> bytes option \<times> ('g, 'k, 'r, 's) op_state" where
  "std_get bk key st = swallow None (with_backpressure (bk_get bk key) st)"

definition std_get_buffer ::
  "'s backend \<Rightarrow> string \<Rightarrow> ('g, 'k, 'r, 's) op_state \<Rightarrow> bytes option \<times> ('g, 'k, 'r, 's) op_state" where
  "std_get_buffer bk key st =
     (case bk_get_buffer bk of None \<Rightarrow> (None, st) | Some f \<Rightarrow> swallow None (with_backpressure (f key) st))"

definition std_get_with_freshness ::
  "'s backend \<Rightarrow> string \<Rightarrow> ('g, 'k, 'r, 's) op_state \<Rightarrow> (bytes \<times> bool) option \<times> ('g, 'k, 'r, 's) op_state" where
  "std_get_with_freshness bk key st =
     (case bk_get_with_freshness bk of
        None \<Rightarrow> (case std_get bk key st of (v, st1) \<Rightarrow> (map_option (\<lambda>b. (b, False)) v, st1))
      | Some f \<Rightarrow> swallow None (with_backpressure (f key) st))"

definition std_set ::
  "'s backend \<Rightarrow> string \<Rightarrow> bytes \<Rightarrow> int option \<Rightarrow> int option \<Rightarrow> ('g, 'k, 'r, 's) op_state \<Rightarrow> bool \<times> ('g, 'k, 'r, 's) op_state" where
  "std_set bk key v ttl stale_ttl st =
     (let call = (if stale_ttl \<noteq> None \<and> bk_get_with_freshness bk \<noteq> None then bk_set bk key v ttl stale_ttl
                  else bk_set bk key v ttl None)
      in case with_backpressure call st of (Inl e, st1) \<Rightarrow> (False, st1) | (Inr _, st1) \<Rightarrow> (True, st1))"

definition std_set_streaming ::
  "'s backend \<Rightarrow> string \<Rightarrow> pyexn + bytes \<Rightarrow> int option \<Rightarrow> ('g, 'k, 'r, 's) op_state \<Rightarrow> bool option \<times> ('g, 'k, 'r, 's) op_state" where
  "std_set_streaming bk key produced ttl st =
     (case bk_set_streaming bk of
        None \<Rightarrow> (None, st)
      | Some f \<Rightarrow> (case with_backpressure (f key produced ttl) st of
                     (Inl e, st1) \<Rightarrow> (Some False, st1) | (Inr _, st1) \<Rightarrow> (Some True, st1)))"

definition std_delete ::
  "'s backend \<Rightarrow> string \<Rightarrow> ('g, 'k, 'r, 's) op_state \<Rightarrow> bool \<times> ('g, 'k, 'r, 's) op_state" where
  "std_delete bk key st = swallow False (with_backpressure (bk_delete bk key) st)"

text \<open>\<^verbatim>\<open>_maybe_refresh_ttl\<close>: called by the asynchronous \<^verbatim>\<open>get\<close> only; every failure is swallowed.\<close>

definition maybe_refresh_ttl ::
  "'s backend \<Rightarrow> real \<Rightarrow> string \<Rightarrow> int \<Rightarrow> ('g, 'k, 'r, 's) op_state \<Rightarrow> ('g, 'k, 'r, 's) op_state" where
  "maybe_refresh_ttl bk threshold key refresh_ttl st =
     (case (bk_get_ttl bk, bk_refresh_ttl bk) of
        (Some get_ttl, Some refresh) \<Rightarrow>
          (case on_backend (get_ttl key) st of
             (Inr (Some remaining), st1) \<Rightarrow>
               if of_int remaining < of_int refresh_ttl * threshold
               then snd (on_backend (refresh key refresh_ttl) st1) else st1
           | (_, st1) \<Rightarrow> st1)
      | _ \<Rightarrow> st)"

definition std_get_async ::
  "'s backend \<Rightarrow> real \<Rightarrow> string \<Rightarrow> int option \<Rightarrow> ('g, 'k, 'r, 's) op_state \<Rightarrow> bytes option \<times> ('g, 'k, 'r, 's) op_state" where
  "std_get_async bk threshold key refresh_ttl st =
     (case std_get bk key st of
        (Some v, st1) \<Rightarrow>
          (case refresh_ttl of
             None \<Rightarrow> (Some v, st1)
           | Some t \<Rightarrow> (Some v, maybe_refresh_ttl bk threshold key t st1))
      | (None, st1) \<Rightarrow> (None, st1))"

section \<open>Operation handler\<close>

text \<open>
  The tail of a failed read: the policy decides; if it does not raise, the entry is evicted and the failure is reported to
  the orchestrator. \<open>now\<close> is the clock of that report.
\<close>

definition handle_l2_read_error ::
  "'s backend \<Rightarrow> real \<Rightarrow> pyexn \<Rightarrow> string \<Rightarrow> ('g, 'k, 'r, 's) op_state \<Rightarrow> (pyexn + unit) \<times> ('g, 'k, 'r, 's) op_state" where
  "handle_l2_read_error bk now e key st =
     (case handle_decrypt_failure e ''l2'' (sh_fail_closed (os_ser st)) (os_ser st) of
        (Inl x, h1) \<Rightarrow> (Inl x, st\<lparr>os_ser := h1\<rparr>)
      | (Inr reason, h1) \<Rightarrow>
          (case std_delete bk key (st\<lparr>os_ser := h1\<rparr>) of
             (_, st1) \<Rightarrow> (Inr (), st1\<lparr>os_features := handle_cache_error now e ''cache_get_deserialize'' False 0 (os_features st1)\<rparr>)))"

definition on_ser ::
  "(('g, 'k, 'r) ser_handler \<Rightarrow> 'b \<times> ('g, 'k, 'r) ser_handler) \<Rightarrow> ('g, 'k, 'r, 's) op_state \<Rightarrow> 'b \<times> ('g, 'k, 'r, 's) op_state" where
  "on_ser f st = (case f (os_ser st) of (r, h) \<Rightarrow> (r, st\<lparr>os_ser := h\<rparr>))"

text \<open>The \<^verbatim>\<open>except\<close> clauses the four readers share, around a deserialization.\<close>

definition read_outcome ::
  "'s backend \<Rightarrow> real \<Rightarrow> string \<Rightarrow> (pyexn + 'a) \<times> ('g, 'k, 'r, 's) op_state
   \<Rightarrow> (pyexn + 'a option) \<times> ('g, 'k, 'r, 's) op_state" where
  "read_outcome bk now key r =
     (case r of
        (Inr v, st) \<Rightarrow> (Inr (Some v), st)
      | (Inl e, st) \<Rightarrow>
          if is_keyring_error e then (Inl e, st)
          else if is_serialization_error e then
            (case handle_l2_read_error bk now e key st of
               (Inl x, st1) \<Rightarrow> (Inl x, st1)
             | (Inr _, st1) \<Rightarrow> (Inr None, st1))
          else (Inr None, st))"

text \<open>The bytes of an entry: through the zero-copy path when the handler and the backend have one and it yields something.\<close>

definition read_entry ::
  "'s backend \<Rightarrow> string \<Rightarrow> ('g, 'k, 'r, 's) op_state \<Rightarrow> bytes option \<times> ('g, 'k, 'r, 's) op_state" where
  "read_entry bk key st =
     (if supports_mmap_read (os_ser st) then
        (case std_get_buffer bk key st of
           (Some view, st0) \<Rightarrow> (Some view, st0)
         | (None, st0) \<Rightarrow> std_get bk key st0)
      else std_get bk key st)"

definition get_cached_value ::
  "('a, 'k, 'r) ser_env \<Rightarrow> 's backend \<Rightarrow> real \<Rightarrow> string \<Rightarrow> ('g, 'k, 'r, 's) op_state
   \<Rightarrow> (pyexn + 'a option) \<times> ('g, 'k, 'r, 's) op_state" where
  "get_cached_value en bk now key st =
     (case read_entry bk key st of
        (None, st1) \<Rightarrow> (Inr None, st1)
      | (Some data, st1) \<Rightarrow> read_outcome bk now key (on_ser (deserialize_data en data key) st1))"

definition get_cached_value_with_freshness ::
  "('a, 'k, 'r) ser_env \<Rightarrow> 's backend \<Rightarrow> real \<Rightarrow> string \<Rightarrow> ('g, 'k, 'r, 's) op_state
   \<Rightarrow> (pyexn + ('a \<times> bool) option) \<times> ('g, 'k, 'r, 's) op_state" where
  "get_cached_value_with_freshness en bk now key st =
     (case std_get_with_freshness bk key st of
        (None, st1) \<Rightarrow> (Inr None, st1)
      | (Some (data, stale), st1) \<Rightarrow>
          (case read_outcome bk now key (on_ser (deserialize_data en data key) st1) of
             (Inl e, st2) \<Rightarrow> (Inl e, st2)
           | (Inr r, st2) \<Rightarrow> (Inr (map_option (\<lambda>v. (v, stale)) r), st2)))"

text \<open>The asynchronous readers also hand out the raw bytes, for the L1 cache.\<close>

definition get_cached_value_async ::
  "('a, 'k, 'r) ser_env \<Rightarrow> 's backend \<Rightarrow> real \<Rightarrow> real \<Rightarrow> string \<Rightarrow> int option \<Rightarrow> ('g, 'k, 'r, 's) op_state
   \<Rightarrow> (pyexn + ('a \<times> bytes) option) \<times> ('g, 'k, 'r, 's) op_state" where
  "get_cached_value_async en bk threshold now key refresh_ttl st =
     (case std_get_async bk threshold key refresh_ttl st of
        (None, st1) \<Rightarrow> (Inr None, st1)
      | (Some data, st1) \<Rightarrow>
          (case read_outcome bk now key (on_ser (deserialize_data en data key) st1) of
             (Inl e, st2) \<Rightarrow> (Inl e, st2)
           | (Inr r, st2) \<Rightarrow> (Inr (map_option (\<lambda>v. (v, data)) r), st2)))"

text \<open>\<^verbatim>\<open>store_result\<close>: the result is \<open>Inr (Some bytes)\<close> whenever the buffered \<^verbatim>\<open>set\<close> was called, whatever it returned.\<close>

definition store_buffered ::
  "('a, 'k, 'r) ser_env \<Rightarrow> 's backend \<Rightarrow> bytes \<Rightarrow> string \<Rightarrow> 'a \<Rightarrow> int option \<Rightarrow> 'g \<Rightarrow> int option \<Rightarrow> ('g, 'k, 'r, 's) op_state
   \<Rightarrow> (pyexn + bytes option) \<times> ('g, 'k, 'r, 's) op_state" where
  "store_buffered en bk nonce key obj ttl args stale_ttl st =
     (case on_ser (serialize_data en nonce args obj key) st of
        (Inl e, st1) \<Rightarrow> if is_interop_error e then (Inl e, st1) else (Inr None, st1)
      | (Inr data, st1) \<Rightarrow> (case std_set bk key data ttl stale_ttl st1 of (_, st2) \<Rightarrow> (Inr (Some data), st2)))"

definition store_result ::
  "('a, 'k, 'r) ser_env \<Rightarrow> 's backend \<Rightarrow> bytes \<Rightarrow> string \<Rightarrow> 'a \<Rightarrow> int option \<Rightarrow> 'g \<Rightarrow> int option \<Rightarrow> ('g, 'k, 'r, 's) op_state
   \<Rightarrow> (pyexn + bytes option) \<times> ('g, 'k, 'r, 's) op_state" where
  "store_result en bk nonce key obj ttl args stale_ttl st =
     (if stale_ttl = None \<and> supports_streaming (os_ser st) then
        (case std_set_streaming bk key (write_serialized_to en obj (os_ser st)) ttl st of
           (Some _, st1) \<Rightarrow> (Inr None, st1)
         | (None, st1) \<Rightarrow> store_buffered en bk nonce key obj ttl args stale_ttl st1)
      else store_buffered en bk nonce key obj ttl args stale_ttl st)"

section \<open>Invalidator\<close>

definition invalidate_key :: "'s backend \<Rightarrow> string \<Rightarrow> 's \<Rightarrow> 's" where
  "invalidate_key bk key s = snd (bk_delete bk key s)"

section \<open>The wrapper cache\<close>

text \<open>
  The cache of encryption wrappers is transparent: every cached wrapper is the one that would be built now; and it is
  bounded. Every operation of the handler keeps this.
\<close>

definition wrappers_ok :: "('a, 'k, 'r) ser_env \<Rightarrow> ('g, 'k, 'r) ser_handler \<Rightarrow> bool" where
  "wrappers_ok en h \<longleftrightarrow> distinct (map fst (sh_wrappers h)) \<and> length (sh_wrappers h) \<le> ENCRYPTION_CACHE_MAXSIZE
     \<and> (\<forall>t w. map_of (sh_wrappers h) t = Some w \<longrightarrow> new_wrapper en (HStr t) h = Inr w)"

definition same_config :: "('g, 'k, 'r) ser_handler \<Rightarrow> ('g, 'k, 'r) ser_handler \<Rightarrow> bool" where
  "same_config h h' \<longleftrightarrow> sh_string_name h' = sh_string_name h \<and> sh_encryption h' = sh_encryption h
     \<and> sh_extractor h' = sh_extractor h \<and> sh_deployment_uuid h' = sh_deployment_uuid h \<and> sh_master_key h' = sh_master_key h
     \<and> sh_fail_closed h' = sh_fail_closed h \<and> sh_interop h' = sh_interop h \<and> sh_return_pandas h' = sh_return_pandas h"

lemma same_config_refl [simp]: "same_config h h"
  by (simp add: same_config_def)

lemma new_wrapper_cong:
  assumes "sh_master_key h = sh_master_key h'" "sh_fail_closed h = sh_fail_closed h'"
  shows "new_wrapper en t h = new_wrapper en t h'"
  unfolding new_wrapper_def handler_master_key_def assms ..

lemma new_wrapper_upd [simp]:
  "new_wrapper en t (h\<lparr>sh_wrappers := x\<rparr>) = new_wrapper en t h"
  "new_wrapper en t (h\<lparr>sh_counters := y\<rparr>) = new_wrapper en t h"
  "new_wrapper en t (h\<lparr>sh_drift_warned := z\<rparr>) = new_wrapper en t h"
  by (rule new_wrapper_cong; simp)+

lemma new_wrapper_str:
  assumes "new_wrapper en tenant h = Inr w"
  shows "tenant = HStr (ew_tenant_id w)"
  using assms
  by (auto simp: new_wrapper_def make_wrapper_def derive_keys_def split: sum.splits if_splits hval.splits)

lemma map_of_tl: "distinct (map fst d) \<Longrightarrow> map_of (tl d) \<subseteq>\<^sub>m map_of d"
  by (cases d) (force simp: map_le_def dom_map_of_conv_image_fst)+

lemma distinct_fst_tl: "distinct (map fst d) \<Longrightarrow> distinct (map fst (tl d))"
  by (cases d) auto

lemma length_update_le: "length (AList.update k v d) \<le> Suc (length d)"
  by (induction d) auto

lemma get_wrapper:
  assumes ok: "wrappers_ok en h" and g: "get_cached_encryption_wrapper en tenant h = (r, h')"
  shows "wrappers_ok en h' \<and> same_config h h' \<and> sh_counters h' = sh_counters h
    \<and> (hashable tenant \<longrightarrow> r = new_wrapper en tenant h) \<and> (\<not> hashable tenant \<longrightarrow> r = Inl (PyExn ''TypeError'' ''unhashable type''))"
proof (cases "hashable tenant")
  case False
  with ok g show ?thesis by (auto simp: get_cached_encryption_wrapper_def)
next
  case True
  show ?thesis
  proof (cases "case tenant of HStr t \<Rightarrow> map_of (sh_wrappers h) t | _ \<Rightarrow> None")
    case (Some w)
    then obtain t where t: "tenant = HStr t" "map_of (sh_wrappers h) t = Some w" by (cases tenant) auto
    from g True t have "r = Inr w" "h' = h\<lparr>sh_wrappers := move_to_end t (sh_wrappers h)\<rparr>"
      by (auto simp: get_cached_encryption_wrapper_def)
    with ok t True show ?thesis by (auto simp: wrappers_ok_def same_config_def)
  next
    case None
    show ?thesis
    proof (cases "new_wrapper en tenant h")
      case (Inl e)
      from g True None Inl have "r = Inl e" "h' = h" by (auto simp: get_cached_encryption_wrapper_def)
      with ok True Inl show ?thesis by simp
    next
      case (Inr w)
      let ?d = "sh_wrappers h"
      let ?kept = "if length ?d \<ge> ENCRYPTION_CACHE_MAXSIZE then tl ?d else ?d"
      from g True None Inr have r: "r = Inr w" and h': "h' = h\<lparr>sh_wrappers := AList.update (hv_str tenant) w ?kept\<rparr>"
        by (auto simp: get_cached_encryption_wrapper_def Let_def)
      have d: "distinct (map fst ?d)" "length ?d \<le> ENCRYPTION_CACHE_MAXSIZE"
        and t: "\<And>t w. map_of ?d t = Some w \<Longrightarrow> new_wrapper en (HStr t) h = Inr w"
        using ok by (auto simp: wrappers_ok_def)
      have kept: "map_of ?kept \<subseteq>\<^sub>m map_of ?d" "distinct (map fst ?kept)" "Suc (length ?kept) \<le> ENCRYPTION_CACHE_MAXSIZE"
        using d map_of_tl [OF d(1)] distinct_fst_tl [OF d(1)] by (auto simp: ENCRYPTION_CACHE_MAXSIZE_def)
      have "length (sh_wrappers h') \<le> ENCRYPTION_CACHE_MAXSIZE"
        using length_update_le [of "hv_str tenant" w ?kept] kept(3) by (simp add: h')
      moreover have "new_wrapper en (HStr t') h' = Inr w'" if m: "map_of (sh_wrappers h') t' = Some w'" for t' w'
      proof (cases "t' = hv_str tenant")
        case True
        with m have "w' = w" by (simp add: h' update_conv')
        moreover have "tenant = HStr t'" using new_wrapper_str [OF Inr] True by (metis hv_str.simps(3))
        ultimately show ?thesis using Inr by (simp add: h')
      next
        case False
        with m have "map_of ?kept t' = Some w'" by (simp add: h' update_conv' del: if_split)
        from t [OF map_le_Some [OF kept(1) this]] show ?thesis by (simp add: h')
      qed
      moreover have "distinct (map fst (sh_wrappers h'))" using kept(2) by (simp add: h' distinct_update del: if_split)
      ultimately have "wrappers_ok en h'" unfolding wrappers_ok_def by blast
      with r Inr True show ?thesis by (simp add: h' same_config_def)
    qed
  qed
qed

lemma same_config_trans: "same_config h h' \<Longrightarrow> same_config h' h'' \<Longrightarrow> same_config h h''"
  by (simp add: same_config_def)

lemma serialize_data_ok:
  assumes "wrappers_ok en h" "serialize_data en n args obj key h = (r, h')"
  shows "wrappers_ok en h' \<and> same_config h h' \<and> sh_counters h' = sh_counters h"
proof -
  obtain r1 h1 where p: "serialize_payload en n args obj key h = (r1, h1)" by (cases "serialize_payload en n args obj key h")
  have "h' = h1" using assms(2) p by (auto simp: serialize_data_def split: sum.splits prod.splits if_splits)
  moreover have "wrappers_ok en h1 \<and> same_config h h1 \<and> sh_counters h1 = sh_counters h"
    using p assms(1) get_wrapper [OF assms(1)]
    by (auto simp: serialize_payload_def split: if_splits sum.splits prod.splits)
  ultimately show ?thesis by simp
qed

lemma note_drift_ok:
  assumes "wrappers_ok en h"
  shows "wrappers_ok en (note_drift key h) \<and> same_config h (note_drift key h)"
  using assms by (auto simp: note_drift_def record_security_counter_def wrappers_ok_def same_config_def Let_def)

lemma deserialize_data_ok:
  assumes "wrappers_ok en h" "deserialize_data en data key h = (r, h')"
  shows "wrappers_ok en h' \<and> same_config h h'"
proof -
  have framed: "wrappers_ok en h1 \<and> same_config h h1" if "deserialize_framed en data key h = (r1, h1)" for r1 h1
  proof -
    have d: "wrappers_ok en (note_drift key h)" "same_config h (note_drift key h)" using note_drift_ok [OF assms(1)] by auto
    have g: "wrappers_ok en h2 \<and> same_config h h2" if "get_cached_encryption_wrapper en t (note_drift key h) = (r2, h2)" for t r2 h2
      using get_wrapper [OF d(1) that] d(2) same_config_trans by blast
    show ?thesis using that d g assms(1)
      by (auto simp: deserialize_framed_def Let_def split: sum.splits prod.splits if_splits)
  qed
  have interop: "wrappers_ok en h1 \<and> same_config h h1" if "deserialize_interop en data key h = (r1, h1)" for r1 h1
    using that assms(1) get_wrapper [OF assms(1)]
    by (auto simp: deserialize_interop_def split: if_splits sum.splits prod.splits option.splits)
  show ?thesis using assms(2) framed interop
    by (auto simp: deserialize_data_def split: if_splits sum.splits prod.splits)
qed

section \<open>Round trip and isolation\<close>

definition entry_header :: "('g, 'k, 'r) ser_handler \<Rightarrow> ser_metadata \<Rightarrow> md_value frame_header" where
  "entry_header h m = \<lparr>fh_serializer = sh_string_name h, fh_metadata = to_dict m, fh_version = ''2.0''\<rparr>"

definition plain_serializer :: "'a serializer \<Rightarrow> bool" where
  "plain_serializer sr \<longleftrightarrow> (\<forall>obj raw m. sr_serialize sr obj = Inr (raw, m) \<longrightarrow> \<not> hv_truthy (sm_encrypted m))"

lemma serialize_data_frame:
  assumes "serialize_data en n args obj key h = (Inr data, h')" "\<not> sh_interop h"
  obtains payload m where "serialize_payload en n args obj key h = (Inr (payload, m), h')"
    "wrap (en_dumps en) payload (to_dict m) (sh_string_name h) ''2.0'' = Inr data"
  using assms by (auto simp: serialize_data_def split: sum.splits prod.splits if_splits)

lemma unwrap_entry:
  assumes "wrap (en_dumps en) payload (to_dict m) (sh_string_name h) ''2.0'' = Inr data"
    "en_loads en (en_dumps en (entry_header h m)) = Inr (to_dict m, name)"
  shows "unwrap (en_loads en) (en_legacy en) data = Inr (payload, to_dict m, name)"
proof -
  let ?h = "en_dumps en (entry_header h m)"
  have "length ?h < 256 ^ 4" "data = FRAME_MAGIC @ [FRAME_VERSION] @ be_bytes 4 (length ?h) @ ?h @ payload"
    using assms(1) by (auto simp: wrap_def wrap_prefix_def Let_def HEADER_LEN_BYTES_def entry_header_def split: if_splits)
  with unwrap_frame [of ?h "en_loads en" "en_legacy en" payload] assms(2) show ?thesis by simp
qed

lemma encrypted_payload:
  assumes "wrappers_ok en h" "sh_encryption h" "serialize_payload en n args obj key h = (Inr (payload, m), h')"
  obtains t w where "write_tenant args h = Inr t" "new_wrapper en (HStr t) h = Inr w"
    "enc_serialize (en_crypto en) (en_base en) n w obj key = Inr (payload, m)"
  using assms get_wrapper [OF assms(1), of "HStr _"]
  by (fastforce simp: serialize_payload_def split: sum.splits prod.splits)

lemma read_encrypted:
  assumes "wrappers_ok en h" "\<not> sh_interop h"
    "unwrap (en_loads en) (en_legacy en) data = Inr (payload, md, HStr (sh_string_name h))" "from_dict md = Inr m"
    "hv_truthy (sm_encrypted m)" "sm_tenant_id m = HStr t" "t \<noteq> []" "new_wrapper en (HStr t) h = Inr w"
    "enc_deserialize (en_crypto en) (en_base en) w payload m key = Inr v"
  shows "fst (deserialize_data en data key h) = Inr v"
proof -
  have d: "wrappers_ok en (note_drift key h)" "same_config h (note_drift key h)" using note_drift_ok [OF assms(1)] by auto
  have "new_wrapper en (HStr t) (note_drift key h) = Inr w"
    using assms(8) new_wrapper_cong [of h "note_drift key h" en] d(2) by (simp add: same_config_def)
  then obtain h2 where "get_cached_encryption_wrapper en (HStr t) (note_drift key h) = (Inr w, h2)"
    using get_wrapper [OF d(1)] by (metis hashable.simps(5) surj_pair)
  then show ?thesis using assms(2-7,9)
    by (simp add: deserialize_data_def deserialize_framed_def Let_def)
qed

lemma stored_entry_decodes:
  assumes "wrappers_ok en h1" "wrappers_ok en h2" "\<not> sh_interop h1" "\<not> sh_interop h2"
    and "sh_string_name h2 = sh_string_name h1" "sh_encryption h2 = sh_encryption h1"
    and "sh_master_key h2 = sh_master_key h1" "sh_fail_closed h2 = sh_fail_closed h1"
    and "cipher_inverts (en_crypto en)" "serializer_inverts (en_base en)" "plain_serializer (en_base en)"
    and json: "\<And>payload m h'. serialize_payload en n args obj key h1 = (Inr (payload, m), h') \<Longrightarrow>
          en_loads en (en_dumps en (entry_header h1 m)) = Inr (to_dict m, HStr (sh_string_name h1))"
    and "write_tenant args h1 \<noteq> Inr []"
    and ser: "serialize_data en n args obj key h1 = (Inr data, h1')"
  shows "fst (deserialize_data en data key h2) = Inr obj"
proof -
  obtain payload m where pm: "serialize_payload en n args obj key h1 = (Inr (payload, m), h1')"
    "wrap (en_dumps en) payload (to_dict m) (sh_string_name h1) ''2.0'' = Inr data"
    by (rule serialize_data_frame [OF ser assms(3)])
  have un: "unwrap (en_loads en) (en_legacy en) data = Inr (payload, to_dict m, HStr (sh_string_name h1))"
    by (rule unwrap_entry [OF pm(2) json [OF pm(1)]])
  show ?thesis
  proof (cases "sh_encryption h1")
    case True
    obtain t w where tw: "write_tenant args h1 = Inr t" "new_wrapper en (HStr t) h1 = Inr w"
      "enc_serialize (en_crypto en) (en_base en) n w obj key = Inr (payload, m)"
      by (rule encrypted_payload [OF assms(1) True pm(1)])
    have m: "sm_encrypted m = HBool True" "sm_tenant_id m = HStr (ew_tenant_id w)" by (rule enc_serialize_Inr [OF tw(3)], simp)+
    have t: "t = ew_tenant_id w" "t \<noteq> []" using new_wrapper_str [OF tw(2)] tw(1) assms(13) by auto
    from tw(2) obtain mk where "make_wrapper (en_crypto en) (en_keys en) mk (HStr t) (sh_fail_closed h1) None = Inr w"
      by (auto simp: new_wrapper_def split: sum.splits)
    then have dec: "enc_deserialize (en_crypto en) (en_base en) w payload m key = Inr obj"
      using enc_roundtrip_same [OF assms(9,10) _ tw(3)] by blast
    have w2: "new_wrapper en (HStr t) h2 = Inr w" using tw(2) new_wrapper_cong [of h2 h1 en] assms(7,8) by simp
    have md: "from_dict (to_dict m) = Inr m" "hv_truthy (sm_encrypted m)" "sm_tenant_id m = HStr t"
      using m t(1) by (simp_all add: metadata_roundtrip)
    show ?thesis using un assms(5) read_encrypted [OF assms(2,4) _ md t(2) w2 dec] by simp
  next
    case False
    then have raw: "sr_serialize (en_base en) obj = Inr (payload, m)" using pm(1) by (simp add: serialize_payload_def)
    then have "\<not> hv_truthy (sm_encrypted m)" "sr_deserialize (en_base en) payload (Some (raw_metadata m)) = Inr obj"
      using assms(10,11) unfolding plain_serializer_def serializer_inverts_def by blast+
    then show ?thesis using un False assms(4-6)
      by (simp add: deserialize_data_def deserialize_framed_def metadata_roundtrip)
         (simp add: raw_metadata_def base_metadata_def)
  qed
qed


lemma read_through_wrapper:
  assumes "wrappers_ok en h" "sh_encryption h" "deserialize_data en data key h = (Inr v, h')"
  obtains t w payload md where "new_wrapper en (HStr t) h = Inr w"
    "enc_deserialize (en_crypto en) (en_base en) w payload md key = Inr v
     \<or> deserialize_without_key_identity (en_crypto en) (en_base en) w payload md key = Inr v"
    "sh_interop h \<Longrightarrow> payload = data"
    "\<not> sh_interop h \<Longrightarrow> \<exists>m name. unwrap (en_loads en) (en_legacy en) data = Inr (payload, m, name)"
proof (cases "sh_interop h")
  case True
  then obtain t w h1 where "get_cached_encryption_wrapper en (HStr t) h = (Inr w, h1)"
    "deserialize_without_key_identity (en_crypto en) (en_base en) w data (interop_metadata t) key = Inr v"
    using assms(2,3) by (auto simp: deserialize_data_def deserialize_interop_def split: sum.splits prod.splits option.splits)
  with get_wrapper [OF assms(1)] True that show ?thesis by (metis hashable.simps(5))
next
  case False
  then obtain payload md name m w h1 where un: "unwrap (en_loads en) (en_legacy en) data = Inr (payload, md, name)"
    and g: "get_cached_encryption_wrapper en (sm_tenant_id m) (note_drift key h) = (Inr w, h1)"
    and d: "enc_deserialize (en_crypto en) (en_base en) w payload m key = Inr v"
    using assms(2,3)
    by (auto simp: deserialize_data_def deserialize_framed_def Let_def split: sum.splits prod.splits if_splits)
  have "note_drift key h = h" using assms(2) by (simp add: note_drift_def)
  with g have g: "get_cached_encryption_wrapper en (sm_tenant_id m) h = (Inr w, h1)" by simp
  have "hashable (sm_tenant_id m)" using g by (auto simp: get_cached_encryption_wrapper_def split: if_splits)
  then have "new_wrapper en (sm_tenant_id m) h = Inr w" using get_wrapper [OF assms(1) g] by simp
  with new_wrapper_str [OF this] un d False that show ?thesis by metis
qed


section \<open>Operations\<close>

lemma with_backpressure_ser [simp]:
  "with_backpressure f st = (r, st') \<Longrightarrow> os_ser st' = os_ser st"
  by (auto simp: with_backpressure_def on_backend_def set_load_def split: option.splits prod.splits sum.splits)

lemma std_ops_ser:
  "std_get bk key st = (v, st') \<Longrightarrow> os_ser st' = os_ser st"
  "std_get_buffer bk key st = (v, st') \<Longrightarrow> os_ser st' = os_ser st"
  "std_delete bk key st = (b, st') \<Longrightarrow> os_ser st' = os_ser st"
  "std_set bk key d ttl sttl st = (b, st') \<Longrightarrow> os_ser st' = os_ser st"
  "std_set_streaming bk key p ttl st = (ob, st') \<Longrightarrow> os_ser st' = os_ser st"
  by (auto simp: std_get_def std_get_buffer_def std_delete_def std_set_def std_set_streaming_def swallow_def Let_def
      split: prod.splits sum.splits option.splits if_splits)

lemma read_entry_ser: "read_entry bk key st = (v, st') \<Longrightarrow> os_ser st' = os_ser st"
  by (auto simp: read_entry_def split: if_splits prod.splits option.splits) (metis std_ops_ser(1,2))+

lemma read_outcome_raise:
  assumes "read_outcome bk now key (r, st) = (Inl e, st')"
  shows "(is_keyring_error e \<or> is_auth_error e \<and> sh_fail_closed (os_ser st)) \<and> r = Inl e \<and> os_backend st' = os_backend st
    \<and> os_features st' = os_features st"
  using assms
  by (auto simp: read_outcome_def handle_l2_read_error_def handle_decrypt_failure_def Let_def
      split: sum.splits if_splits prod.splits)

text \<open>
  A read from the backend raises only for a fault of the local keyring or, when the handler fails closed, for an entry
  that fails authentication; whenever it raises, nothing but the read itself touched the backend: the entry is kept as
  evidence, and the breaker is not told. No failure of the backend, of the controller or of the serializer is ever raised.
\<close>

theorem read_raises_only_tamper:
  assumes "wrappers_ok en (os_ser st)" "get_cached_value en bk now key st = (Inl e, st')"
  shows "(is_keyring_error e \<or> is_auth_error e \<and> sh_fail_closed (os_ser st))
    \<and> (\<exists>data st1. read_entry bk key st = (Some data, st1) \<and> os_backend st' = os_backend st1
         \<and> os_features st' = os_features st1 \<and> fst (deserialize_data en data key (os_ser st)) = Inl e)"
proof -
  from assms(2) obtain data st1 where re: "read_entry bk key st = (Some data, st1)"
    and out: "read_outcome bk now key (on_ser (deserialize_data en data key) st1) = (Inl e, st')"
    by (auto simp: get_cached_value_def split: prod.splits option.splits)
  obtain r h where d: "deserialize_data en data key (os_ser st1) = (r, h)" by force
  have os: "on_ser (deserialize_data en data key) st1 = (r, st1\<lparr>os_ser := h\<rparr>)" using d by (simp add: on_ser_def)
  have same: "os_ser st1 = os_ser st" using read_entry_ser [OF re] .
  have "sh_fail_closed h = sh_fail_closed (os_ser st)"
    using deserialize_data_ok [OF _ d] assms(1) same by (simp add: same_config_def)
  with read_outcome_raise [OF out [unfolded os]] re d same show ?thesis by auto
qed

text \<open>
  A malformed frame is a silent miss: when the envelope cannot be parsed (truncated, of another version, with a
  broken header), the read reports a miss, evicts nothing, counts nothing and tells nobody.
\<close>

theorem malformed_frame_is_silent:
  assumes "\<not> sh_interop (os_ser st)" "read_entry bk key st = (Some data, st1)"
    and "unwrap (en_loads en) (en_legacy en) data = Inl fe" "is_value_error (frame_exn fe)" "\<not> is_keyring_error (frame_exn fe)"
    "\<not> is_serialization_error (frame_exn fe)"
  shows "get_cached_value en bk now key st = (Inr None, st1)"
proof -
  have "os_ser st1 = os_ser st" using read_entry_ser [OF assms(2)] .
  then have "deserialize_data en data key (os_ser st1) = (Inl (frame_exn fe), os_ser st1)"
    using assms(1,3,4) by (simp add: deserialize_data_def deserialize_framed_def deserialize_exn_def)
  then show ?thesis using assms(2,5,6) by (simp add: get_cached_value_def on_ser_def read_outcome_def)
qed

text \<open>
  The outcome a store reports does not depend on the backend: two backends, one of which may fail every write, give
  the same result, so a failed write is reported as stored and its bytes go to the L1 cache.
\<close>

theorem store_outcome_ignores_backend:
  assumes "\<not> supports_streaming (os_ser st)" "os_ser st' = os_ser st"
  shows "fst (store_result en bk n key obj ttl args sttl st) = fst (store_result en bk' n key obj ttl args sttl st')"
proof -
  have "fst (store_buffered en bk n key obj ttl args sttl st) = fst (store_buffered en bk' n key obj ttl args sttl st')"
    using assms(2) by (simp add: store_buffered_def on_ser_def case_prod_beta split: sum.split)
  with assms show ?thesis by (simp add: store_result_def)
qed

section \<open>Concrete instances\<close>

definition demo_md :: ser_metadata where
  "demo_md = \<lparr>sm_format = MSGPACK, sm_encoding = HStr ''utf-8'', sm_compressed = HBool False, sm_original_type = HNone,
     sm_encrypted = HBool True, sm_tenant_id = HStr ''t'', sm_encryption_algorithm = HStr ''AES-256-GCM'',
     sm_key_fingerprint = HStr (bytes_str (key_a @ str_bytes ''t''))\<rparr>"

definition demo_env :: "(bytes, bytes list) crypto \<Rightarrow> ser_metadata \<Rightarrow> (bytes, bytes, bytes list) ser_env" where
  "demo_env cr md = \<lparr>en_base = demo_serializer, en_crypto = cr, en_dumps = (\<lambda>_. []),
     en_loads = (\<lambda>_. Inr (to_dict md, HStr ''default'')), en_legacy = (\<lambda>_. Inl (PyExn ''ValueError'' ''legacy'')),
     en_stream = None, en_stream_metadata = md, en_keys = demo_settings, en_max_value_size = 1000000\<rparr>"

text \<open>The master key in hexadecimal: 32 bytes of value 1.\<close>

definition demo_handler :: "string \<Rightarrow> (unit, bytes, bytes list) ser_handler" where
  "demo_handler uuid = \<lparr>sh_string_name = ''default'', sh_return_pandas = False, sh_encryption = True, sh_extractor = None,
     sh_deployment_uuid = Some uuid, sh_master_key = Some (concat (replicate 32 ''01'')), sh_fail_closed = True, sh_interop = False,
     sh_wrappers = [], sh_drift_warned = [], sh_counters = []\<rparr>"

lemma fromhex_replicate: "fromhex (concat (replicate n ''01'')) = Some (replicate n 1)"
  by (induction n) (simp_all add: ascii_space_def hexval_def)

lemma demo_handler_ok [simp]: "wrappers_ok en (demo_handler u)"
  by (simp add: wrappers_ok_def demo_handler_def)

lemma demo_new_wrapper:
  assumes "cr_derive cr = cr_derive demo_crypto" "cr_fingerprint cr = cr_fingerprint demo_crypto"
    "cr_keyring cr = cr_keyring demo_crypto" "cr_keyring_fingerprints cr = cr_keyring_fingerprints demo_crypto"
  shows "new_wrapper (demo_env cr md) (HStr t) (demo_handler u) =
    Inr \<lparr>ew_tenant_id = t, ew_fail_closed = True, ew_tenant_keys = key_a @ str_bytes t,
      ew_fingerprint = bytes_str (key_a @ str_bytes t), ew_keyring = [key_a],
      ew_keyring_fingerprints = [bytes_str (key_a @ str_bytes t)]\<rparr>"
proof -
  have "handler_master_key (demo_handler u) = Inr (Some key_a)"
    using fromhex_replicate [of 32] by (simp add: handler_master_key_def demo_handler_def key_a_def)
  then show ?thesis using assms
    by (simp add: new_wrapper_def make_wrapper_def master_key_bytes_def previous_keys_def derive_keys_def demo_env_def
        demo_settings_def demo_crypto_def demo_handler_def key_a_def)
qed

lemma demo_env_sel [simp]:
  "en_base (demo_env cr md) = demo_serializer" "en_crypto (demo_env cr md) = cr" "en_dumps (demo_env cr md) x = []"
  "en_loads (demo_env cr md) b = Inr (to_dict md, HStr ''default'')" "en_max_value_size (demo_env cr md) = 1000000"
  by (simp_all add: demo_env_def)

lemma demo_handler_sel [simp]:
  "sh_encryption (demo_handler u)" "\<not> sh_interop (demo_handler u)" "sh_string_name (demo_handler u) = ''default''"
  "sh_fail_closed (demo_handler u)" "write_tenant x (demo_handler u) = Inr u"
  by (simp_all add: demo_handler_def write_tenant_def)

definition demo_crypto_like :: "(bytes, bytes list) crypto \<Rightarrow> bool" where
  "demo_crypto_like cr \<longleftrightarrow> cr_derive cr = cr_derive demo_crypto \<and> cr_fingerprint cr = cr_fingerprint demo_crypto
     \<and> cr_keyring cr = cr_keyring demo_crypto \<and> cr_keyring_fingerprints cr = cr_keyring_fingerprints demo_crypto
     \<and> cr_encrypt cr = cr_encrypt demo_crypto"

lemma demo_serialize:
  assumes cr: "demo_crypto_like cr"
    and aad: "create_aad ''t'' (base_metadata MSGPACK (HStr ''utf-8'') (HBool False) HNone) ''k'' = Inr a0"
  obtains h' where "serialize_payload (demo_env cr md) [] () [7] ''k'' (demo_handler ''t'') =
      (Inr (key_a @ str_bytes ''t'' @ a0 @ [7], demo_md), h')"
proof -
  let ?en = "demo_env cr md"
  obtain r h1 where g: "get_cached_encryption_wrapper ?en (HStr ''t'') (demo_handler ''t'') = (r, h1)" by force
  obtain w where w: "r = Inr w" "ew_tenant_id w = ''t''" "ew_tenant_keys w = key_a @ str_bytes ''t''"
      "ew_fingerprint w = bytes_str (key_a @ str_bytes ''t'')"
    using get_wrapper [OF demo_handler_ok g] demo_new_wrapper [of cr md "''t''" "''t''"] cr by (auto simp: demo_crypto_like_def)
  have "enc_serialize cr demo_serializer [] w [7] ''k'' = Inr (key_a @ str_bytes ''t'' @ a0 @ [7], demo_md)"
    using aad cr by (simp add: enc_serialize_def demo_serializer_def w demo_crypto_like_def)
      (simp add: demo_crypto_def demo_md_def base_metadata_def w)
  then have "serialize_payload ?en [] () [7] ''k'' (demo_handler ''t'') =
      (Inr (key_a @ str_bytes ''t'' @ a0 @ [7], demo_md), h1)"
    using g w(1) by (simp add: serialize_payload_def)
  then show thesis by (rule that)
qed

lemma demo_frame: "wrap (\<lambda>_. []) payload m s v = Inr ([0x43, 0x4B, 3, 0, 0, 0, 0] @ payload)"
proof -
  have four: "(4 :: nat) = Suc (Suc (Suc (Suc 0)))" by simp
  have "be_bytes 4 0 = [0, 0, 0, 0]" unfolding four by simp
  then show ?thesis by (simp add: wrap_def wrap_prefix_def Let_def frame_defs)
qed

lemma demo_data:
  assumes "serialize_payload (demo_env cr md) [] () [7] ''k'' (demo_handler ''t'') = (Inr (payload, demo_md), h')"
    "length payload < 1000"
  shows "serialize_data (demo_env cr md) [] () [7] ''k'' (demo_handler ''t'') =
    (Inr ([0x43, 0x4B, 3, 0, 0, 0, 0] @ payload), h')"
proof -
  have "en_dumps (demo_env cr md) = (\<lambda>_. [])" by (rule ext) simp
  then show ?thesis using assms by (simp add: serialize_data_def demo_frame)
qed


lemma demo_unwrap:
  "unwrap (en_loads (demo_env cr md)) lg ([0x43, 0x4B, 3, 0, 0, 0, 0] @ payload) = Inr (payload, to_dict md, HStr ''default'')"
  by (simp add: unwrap_def frame_defs be_val_def)


text \<open>A backend that is an association list, and one that refuses every call.\<close>

definition list_backend :: "(string \<times> bytes) list backend" where
  "list_backend = \<lparr>bk_get = (\<lambda>k s. (Inr (map_of s k), s)), bk_set = (\<lambda>k v ttl sttl s. (Inr (), AList.update k v s)),
     bk_delete = (\<lambda>k s. (Inr (map_of s k \<noteq> None), AList.delete k s)), bk_get_buffer = None, bk_set_streaming = None,
     bk_get_with_freshness = None, bk_get_ttl = None, bk_refresh_ttl = None\<rparr>"

definition down_backend :: "(string \<times> bytes) list backend" where
  "down_backend = list_backend\<lparr>bk_set := (\<lambda>k v ttl sttl s. (Inl (PyExn ''ConnectionError'' ''down''), s))\<rparr>"

definition demo_features :: orchestrator where
  "demo_features = \<lparr>orch_namespace = ''n'', orch_breaker = None, orch_load = None, orch_metrics = None, op_context = None\<rparr>"

definition demo_state :: "(string \<times> bytes) list \<Rightarrow> (unit, bytes, bytes list, (string \<times> bytes) list) op_state" where
  "demo_state s = \<lparr>os_ser = demo_handler ''t'', os_backend = s, os_features = demo_features\<rparr>"

lemma demo_read: "read_entry list_backend k (demo_state s) = (map_of s k, demo_state s)"
  by (simp add: read_entry_def supports_mmap_read_def demo_state_def std_get_def swallow_def with_backpressure_def
      demo_features_def on_backend_def list_backend_def)

theorem malformed_frame_is_silent_witness:
  "get_cached_value (demo_env demo_crypto demo_md) list_backend 0 ''k'' (demo_state [(''k'', [0x43, 0x4B, 9])])
   = (Inr None, demo_state [(''k'', [0x43, 0x4B, 9])])"
  by (rule malformed_frame_is_silent [where fe = "TruncatedFrame 3" and data = "[0x43, 0x4B, 9]"])
     (simp_all add: demo_read, simp_all add: demo_state_def unwrap_def frame_defs exn_class_defs)

theorem store_outcome_ignores_backend_witness:
  "fst (store_result (demo_env demo_crypto demo_md) down_backend [] ''k'' [7] None () None (demo_state []))
   = fst (store_result (demo_env demo_crypto demo_md) list_backend [] ''k'' [7] None () None (demo_state []))"
  by (rule store_outcome_ignores_backend) (simp_all add: demo_state_def supports_streaming_def)

text \<open>An entry whose header names another key.\<close>

definition tampered_env :: "(bytes, bytes, bytes list) ser_env" where
  "tampered_env = demo_env demo_crypto (demo_md\<lparr>sm_key_fingerprint := HStr ''zz''\<rparr>)"

definition tampered_entry :: bytes where
  "tampered_entry = [0x43, 0x4B, 3, 0, 0, 0, 0]"

definition tamper_error :: pyexn where
  "tamper_error = PyExn ''DecryptionAuthenticationError'' ''Key fingerprint mismatch''"

lemma tampered_entry_fails:
  "\<exists>h1. deserialize_data tampered_env tampered_entry ''k'' (demo_handler ''t'') = (Inl tamper_error, h1)
     \<and> same_config (demo_handler ''t'') h1"
proof -
  let ?md = "demo_md\<lparr>sm_key_fingerprint := HStr ''zz''\<rparr>"
  let ?en = "demo_env demo_crypto ?md"
  obtain r h1 where g: "get_cached_encryption_wrapper ?en (HStr ''t'') (demo_handler ''t'') = (r, h1)" by force
  have gw: "same_config (demo_handler ''t'') h1" "r = new_wrapper ?en (HStr ''t'') (demo_handler ''t'')"
    using get_wrapper [OF demo_handler_ok g] by simp_all
  obtain w where w: "r = Inr w" "ew_fingerprint w = bytes_str (key_a @ str_bytes ''t'')"
    using gw(2) demo_new_wrapper [of demo_crypto ?md "''t''" "''t''"] by auto
  have "bytes_str (key_a @ str_bytes ''t'') \<noteq> ''zz''" by (auto simp: bytes_str_def key_a_def dest!: arg_cong [of _ _ length])
  then have e: "enc_deserialize demo_crypto demo_serializer w [] ?md ''k'' = Inl tamper_error"
    using w gw(2) demo_new_wrapper [of demo_crypto ?md "''t''" "''t''"]
    by (auto simp: enc_deserialize_def demo_md_def tamper_error_def)
  have fd: "from_dict (to_dict ?md) = Inr ?md" by (simp add: metadata_roundtrip) (simp add: demo_md_def)
  have "deserialize_data ?en tampered_entry ''k'' (demo_handler ''t'') = (Inl tamper_error, h1)"
    using demo_unwrap [of demo_crypto ?md "en_legacy ?en" "[]"] fd g w e
    by (simp add: deserialize_data_def deserialize_framed_def demo_md_def note_drift_def deserialize_exn_def exn_class_defs
        tampered_entry_def tamper_error_def)
  with gw(1) show ?thesis unfolding tampered_env_def by blast
qed

theorem read_raises_only_tamper_witness:
  "\<exists>st' data st1. get_cached_value tampered_env list_backend 0 ''k'' (demo_state [(''k'', tampered_entry)]) = (Inl tamper_error, st')
    \<and> read_entry list_backend ''k'' (demo_state [(''k'', tampered_entry)]) = (Some data, st1)
    \<and> os_backend st' = os_backend st1"
proof -
  let ?st = "demo_state [(''k'', tampered_entry)]"
  obtain h1 where d: "deserialize_data tampered_env tampered_entry ''k'' (demo_handler ''t'') = (Inl tamper_error, h1)"
    and c: "same_config (demo_handler ''t'') h1" using tampered_entry_fails by blast
  have o: "on_ser (deserialize_data tampered_env tampered_entry ''k'') ?st = (Inl tamper_error, ?st\<lparr>os_ser := h1\<rparr>)"
    using d by (simp add: on_ser_def demo_state_def)
  have "sh_fail_closed h1" using c by (simp add: same_config_def)
  then obtain st' where gv: "get_cached_value tampered_env list_backend 0 ''k'' ?st = (Inl tamper_error, st')"
    using o by (simp add: get_cached_value_def demo_read read_outcome_def handle_l2_read_error_def
        handle_decrypt_failure_def Let_def exn_class_defs tamper_error_def)
  have "wrappers_ok tampered_env (os_ser ?st)" by (simp add: demo_state_def tampered_env_def)
  from read_raises_only_tamper [OF this gv] gv show ?thesis by blast
qed

end
