(* ===== verification/Function_Stats.thy ===== *)
theory Function_Stats
  imports Backend_Errors
begin

text \<open>
  The statistics of a decorated function (\<^verbatim>\<open>_FunctionStats\<close> and its registry in \<^verbatim>\<open>decorators/wrapper.py\<close>), the process
  session identity (\<^verbatim>\<open>decorators/session.py\<close>) and the context variable that hands the statistics to a backend
  (\<^verbatim>\<open>decorators/stats_context.py\<close>). Every method runs under the tracker's lock; the readings of the clock, the process id
  and the UUID that \<^verbatim>\<open>uuid4\<close> would draw are arguments.
\<close>

section \<open>Process session\<close>

record session_state =
  ss_pid :: "int option"
  ss_id :: "string option"
  ss_start_ms :: "int option"

definition new_session :: session_state where
  "new_session = \<lparr>ss_pid = None, ss_id = None, ss_start_ms = None\<rparr>"

definition reset_session_state :: "session_state \<Rightarrow> session_state" where
  "reset_session_state s = \<lparr>ss_pid = None, ss_id = None, ss_start_ms = None\<rparr>"

text \<open>Both checks of the double-checked initialization see the same state; the flag tells whether a UUID was drawn.\<close>

definition ensure_session_initialized :: "int \<Rightarrow> real \<Rightarrow> string \<Rightarrow> session_state \<Rightarrow> bool \<times> session_state" where
  "ensure_session_initialized pid now fresh s =
     (if ss_pid s = Some pid \<and> ss_id s \<noteq> None then (False, s)
      else (True, s\<lparr>ss_start_ms := Some \<lfloor>now * 1000\<rfloor>, ss_id := Some fresh, ss_pid := Some pid\<rparr>))"

definition get_session_id :: "int \<Rightarrow> real \<Rightarrow> string \<Rightarrow> session_state \<Rightarrow> (pyexn + string) \<times> bool \<times> session_state" where
  "get_session_id pid now fresh s =
     (case ensure_session_initialized pid now fresh s of
        (drawn, s1) \<Rightarrow>
          ((case ss_id s1 of None \<Rightarrow> Inl (PyExn ''RuntimeError'' ''Session ID not initialized'') | Some i \<Rightarrow> Inr i), drawn, s1))"

definition get_session_start_ms :: "int \<Rightarrow> real \<Rightarrow> string \<Rightarrow> session_state \<Rightarrow> (pyexn + int) \<times> bool \<times> session_state" where
  "get_session_start_ms pid now fresh s =
     (case ensure_session_initialized pid now fresh s of
        (drawn, s1) \<Rightarrow>
          ((case ss_start_ms s1 of None \<Rightarrow> Inl (PyExn ''RuntimeError'' ''Session start not initialized'') | Some t \<Rightarrow> Inr t), drawn, s1))"

section \<open>Statistics tracker\<close>

record function_stats =
  fs_hits :: nat
  fs_misses :: nat
  fs_l1_hits :: nat
  fs_l2_hits :: nat
  fs_l2_cumulative_latency_ms :: real
  fs_l2_cached_avg_ms :: real
  fs_last_operation_at :: "real option"
  fs_function_identifier :: string
  fs_clear_count :: nat
  fs_session_id :: "string option"
  fs_l1_enabled :: bool

definition new_stats :: "string \<Rightarrow> bool \<Rightarrow> function_stats" where
  "new_stats ident l1 = \<lparr>fs_hits = 0, fs_misses = 0, fs_l1_hits = 0, fs_l2_hits = 0, fs_l2_cumulative_latency_ms = 0,
     fs_l2_cached_avg_ms = 0, fs_last_operation_at = None, fs_function_identifier = ident, fs_clear_count = 0,
     fs_session_id = None, fs_l1_enabled = l1\<rparr>"

definition record_l1_hit :: "real \<Rightarrow> function_stats \<Rightarrow> function_stats" where
  "record_l1_hit now f = f\<lparr>fs_hits := fs_hits f + 1, fs_l1_hits := fs_l1_hits f + 1, fs_last_operation_at := Some now\<rparr>"

definition record_l2_hit :: "real \<Rightarrow> real \<Rightarrow> function_stats \<Rightarrow> function_stats" where
  "record_l2_hit latency_ms now f =
     (let f1 = f\<lparr>fs_hits := fs_hits f + 1, fs_l2_hits := fs_l2_hits f + 1,
                 fs_l2_cumulative_latency_ms := fs_l2_cumulative_latency_ms f + latency_ms\<rparr>
      in f1\<lparr>fs_l2_cached_avg_ms := fs_l2_cumulative_latency_ms f1 / real (fs_l2_hits f1), fs_last_operation_at := Some now\<rparr>)"

definition record_miss :: "real \<Rightarrow> function_stats \<Rightarrow> function_stats" where
  "record_miss now f = f\<lparr>fs_misses := fs_misses f + 1, fs_last_operation_at := Some now\<rparr>"

text \<open>The identifier a report goes out under; \<open>base\<close> is the process UUID.\<close>

definition session_tag :: "string \<Rightarrow> string \<Rightarrow> nat \<Rightarrow> string" where
  "session_tag base ident clears =
     (let base_id = base @ '':'' @ ident in if clears > 0 then base_id @ ''#'' @ dec_str clears else base_id)"

definition ensure_session_id ::
  "int \<Rightarrow> real \<Rightarrow> string \<Rightarrow> session_state \<Rightarrow> function_stats
   \<Rightarrow> (pyexn + string) \<times> bool \<times> session_state \<times> function_stats" where
  "ensure_session_id pid now fresh s f =
     (case fs_session_id f of
        Some i \<Rightarrow> (Inr i, False, s, f)
      | None \<Rightarrow>
          (case get_session_id pid now fresh s of
             (Inl e, drawn, s1) \<Rightarrow> (Inl e, drawn, s1, f)
           | (Inr u, drawn, s1) \<Rightarrow>
               (let i = session_tag u (fs_function_identifier f) (fs_clear_count f)
                in (Inr i, drawn, s1, f\<lparr>fs_session_id := Some i\<rparr>))))"

record cache_info =
  ci_hits :: nat
  ci_misses :: nat
  ci_l1_hits :: nat
  ci_l2_hits :: nat
  ci_l2_avg_latency_ms :: real
  ci_last_operation_at :: "real option"
  ci_session_id :: string

definition get_info ::
  "int \<Rightarrow> real \<Rightarrow> string \<Rightarrow> session_state \<Rightarrow> function_stats
   \<Rightarrow> (pyexn + cache_info) \<times> bool \<times> session_state \<times> function_stats" where
  "get_info pid now fresh s f =
     (case ensure_session_id pid now fresh s f of
        (Inl e, drawn, s1, f1) \<Rightarrow> (Inl e, drawn, s1, f1)
      | (Inr i, drawn, s1, f1) \<Rightarrow>
          (Inr \<lparr>ci_hits = fs_hits f1, ci_misses = fs_misses f1, ci_l1_hits = fs_l1_hits f1, ci_l2_hits = fs_l2_hits f1,
                ci_l2_avg_latency_ms = fs_l2_cached_avg_ms f1, ci_last_operation_at = fs_last_operation_at f1,
                ci_session_id = i\<rparr>, drawn, s1, f1))"

definition zero_counters :: "function_stats \<Rightarrow> function_stats" where
  "zero_counters f = f\<lparr>fs_hits := 0, fs_misses := 0, fs_l1_hits := 0, fs_l2_hits := 0, fs_l2_cumulative_latency_ms := 0,
     fs_l2_cached_avg_ms := 0, fs_last_operation_at := None\<rparr>"

definition clear :: "function_stats \<Rightarrow> function_stats" where
  "clear f = (zero_counters f)\<lparr>fs_clear_count := fs_clear_count f + 1, fs_session_id := None\<rparr>"

definition reset_for_new_process :: "function_stats \<Rightarrow> function_stats" where
  "reset_for_new_process f = (zero_counters f)\<lparr>fs_clear_count := 0, fs_session_id := None\<rparr>"

section \<open>Registry and context variable\<close>

type_synonym stats_registry = "(string, function_stats) odict"

definition get_function_stats :: "string \<Rightarrow> bool \<Rightarrow> stats_registry \<Rightarrow> function_stats \<times> stats_registry" where
  "get_function_stats ident l1 reg =
     (case map_of reg ident of
        None \<Rightarrow> (new_stats ident l1, AList.update ident (new_stats ident l1) reg)
      | Some f \<Rightarrow> (f\<lparr>fs_l1_enabled := l1\<rparr>, AList.update ident (f\<lparr>fs_l1_enabled := l1\<rparr>) reg))"

definition reset_stats_after_fork :: "stats_registry \<Rightarrow> stats_registry" where
  "reset_stats_after_fork reg = map (\<lambda>(k, f). (k, reset_for_new_process f)) reg"

text \<open>The context variable holds the identifier of the tracker; a token is the value it replaced.\<close>

type_synonym stats_context = "string option"

definition set_current_function_stats :: "stats_context \<Rightarrow> stats_context \<Rightarrow> stats_context \<times> stats_context" where
  "set_current_function_stats stats cv = (cv, stats)"

definition reset_current_function_stats :: "stats_context \<Rightarrow> stats_context \<Rightarrow> stats_context" where
  "reset_current_function_stats token cv = token"

section \<open>Processes\<close>

text \<open>
  A family of processes that fork. Each draws UUIDs from the operating system, the \<open>n\<close>-th draw overall being \<open>uuid n\<close>.
  A report is what the tracker tells a server; the newest is first.
\<close>

record process =
  pr_pid :: int
  pr_session :: session_state
  pr_registry :: stats_registry

record stats_world =
  sw_processes :: "process list"
  sw_next :: nat
  sw_reports :: "cache_info list"

datatype stats_op = RecL1 real | RecL2 real real | RecMiss real | DoClear

fun apply_op :: "stats_op \<Rightarrow> function_stats \<Rightarrow> function_stats" where
  "apply_op (RecL1 now) f = record_l1_hit now f"
| "apply_op (RecL2 lat now) f = record_l2_hit lat now f"
| "apply_op (RecMiss now) f = record_miss now f"
| "apply_op DoClear f = clear f"

definition on_tracker :: "string \<Rightarrow> (function_stats \<Rightarrow> function_stats) \<Rightarrow> process \<Rightarrow> process" where
  "on_tracker ident g p =
     (case map_of (pr_registry p) ident of
        None \<Rightarrow> p
      | Some f \<Rightarrow> p\<lparr>pr_registry := AList.update ident (g f) (pr_registry p)\<rparr>)"

definition decorate :: "string \<Rightarrow> bool \<Rightarrow> process \<Rightarrow> process" where
  "decorate ident l1 p = p\<lparr>pr_registry := snd (get_function_stats ident l1 (pr_registry p))\<rparr>"

text \<open>The child after both fork handlers ran.\<close>

definition fork_child :: "int \<Rightarrow> process \<Rightarrow> process" where
  "fork_child pid p = \<lparr>pr_pid = pid, pr_session = reset_session_state (pr_session p),
     pr_registry = reset_stats_after_fork (pr_registry p)\<rparr>"

definition report :: "(nat \<Rightarrow> string) \<Rightarrow> nat \<Rightarrow> string \<Rightarrow> real \<Rightarrow> stats_world \<Rightarrow> stats_world" where
  "report uuid i ident now w =
     (let p = sw_processes w ! i in
      case map_of (pr_registry p) ident of
        None \<Rightarrow> w
      | Some f \<Rightarrow>
          (case get_info (pr_pid p) now (uuid (sw_next w)) (pr_session p) f of
             (r, drawn, s, f1) \<Rightarrow>
               w\<lparr>sw_processes := (sw_processes w)[i := p\<lparr>pr_session := s, pr_registry := AList.update ident f1 (pr_registry p)\<rparr>],
                 sw_next := (if drawn then Suc (sw_next w) else sw_next w),
                 sw_reports := (case r of Inl e \<Rightarrow> sw_reports w | Inr info \<Rightarrow> info # sw_reports w)\<rparr>))"

definition first_process :: "int \<Rightarrow> stats_world" where
  "first_process pid = \<lparr>sw_processes = [\<lparr>pr_pid = pid, pr_session = new_session, pr_registry = []\<rparr>], sw_next = 0, sw_reports = []\<rparr>"

inductive stats_reachable :: "(nat \<Rightarrow> string) \<Rightarrow> stats_world \<Rightarrow> bool" for uuid where
  start: "stats_reachable uuid (first_process pid)"
| op: "stats_reachable uuid w \<Longrightarrow> i < length (sw_processes w)
    \<Longrightarrow> stats_reachable uuid (w\<lparr>sw_processes := (sw_processes w)[i := on_tracker ident (apply_op a) (sw_processes w ! i)]\<rparr>)"
| decorate: "stats_reachable uuid w \<Longrightarrow> i < length (sw_processes w) \<Longrightarrow> CHR ''#'' \<notin> set ident
    \<Longrightarrow> stats_reachable uuid (w\<lparr>sw_processes := (sw_processes w)[i := decorate ident l1 (sw_processes w ! i)]\<rparr>)"
| info: "stats_reachable uuid w \<Longrightarrow> i < length (sw_processes w) \<Longrightarrow> stats_reachable uuid (report uuid i ident now w)"
| fork: "stats_reachable uuid w \<Longrightarrow> i < length (sw_processes w)
    \<Longrightarrow> stats_reachable uuid (w\<lparr>sw_processes := sw_processes w @ [fork_child pid (sw_processes w ! i)]\<rparr>)"

section \<open>Session tags are unambiguous\<close>

lemma dec_str_inject: "dec_str m = dec_str n \<Longrightarrow> m = n"
proof (induction m arbitrary: n rule: dec_str.induct)
  case (1 m)
  have digit: "char_of (48 + a) = (char_of (48 + b) :: char) \<Longrightarrow> a = b" if "a < 10" "b < 10" for a b :: nat
    using that by (auto dest!: arg_cong [of _ _ "of_char :: char \<Rightarrow> nat"])
  have ne: "dec_str k \<noteq> []" for k by (subst dec_str.simps) simp
  show ?case
  proof (cases "m < 10"; cases "n < 10")
    assume "m < 10" "n < 10"
    with 1(2) digit show ?thesis by (simp add: dec_str.simps [of m] dec_str.simps [of n])
  next
    assume "m < 10" "\<not> n < 10"
    with 1(2) ne [of "n div 10"] show ?thesis by (simp add: dec_str.simps [of m] dec_str.simps [of n])
  next
    assume "\<not> m < 10" "n < 10"
    with 1(2) ne [of "m div 10"] show ?thesis by (simp add: dec_str.simps [of m] dec_str.simps [of n])
  next
    assume mn: "\<not> m < 10" "\<not> n < 10"
    with 1(2) have "dec_str (m div 10) = dec_str (n div 10)" "char_of (48 + m mod 10) = (char_of (48 + n mod 10) :: char)"
      by (auto simp: dec_str.simps [of m] dec_str.simps [of n])
    with 1(1) [OF mn(1)] digit have "m div 10 = n div 10" "m mod 10 = n mod 10" by auto
    then show ?thesis by (metis div_mult_mod_eq)
  qed
qed

lemma dec_str_no_hash: "CHR ''#'' \<notin> set (dec_str n)"
proof (induction n rule: dec_str.induct)
  case (1 n)
  have "char_of (48 + d) \<noteq> CHR ''#''" if "d < 10" for d :: nat
  proof
    assume "char_of (48 + d) = CHR ''#''"
    then have "of_char (char_of (48 + d) :: char) = (35 :: nat)" by simp
    with that show False by simp
  qed
  from this [of n] this [of "n mod 10"] 1 show ?case by (subst dec_str.simps) (auto dest: sym)
qed

lemma session_tag_inject:
  assumes "CHR '':'' \<notin> set u" "CHR '':'' \<notin> set u'" "CHR ''#'' \<notin> set i" "CHR ''#'' \<notin> set i'"
    and eq: "session_tag u i c = session_tag u' i' c'"
  shows "u = u' \<and> i = i' \<and> c = c'"
proof -
  define t where "t = (\<lambda>c. if c > 0 then ''#'' @ dec_str c else [])"
  have tag: "session_tag u i c = u @ CHR '':'' # i @ t c" for u i c by (simp add: session_tag_def t_def Let_def)
  have u: "u = u'" and it: "i @ t c = i' @ t c'" using split_at_first [OF assms(1,2)] eq by (auto simp: tag)
  have hash: "CHR ''#'' \<in> set (t c) \<longleftrightarrow> c > 0" for c by (simp add: t_def)
  show ?thesis
  proof (cases "c > 0")
    case True
    with it hash assms(4) have "c' > 0" by (metis Un_iff set_append)
    with it True have "i @ CHR ''#'' # dec_str c = i' @ CHR ''#'' # dec_str c'" by (simp add: t_def)
    with split_at_first [OF assms(3,4)] dec_str_inject u show ?thesis by blast
  next
    case False
    with it hash assms(3) have "\<not> c' > 0" by (metis Un_iff set_append)
    with it False u show ?thesis by (simp add: t_def)
  qed
qed

section \<open>Counters never go back under one session\<close>

definition info_le :: "cache_info \<Rightarrow> cache_info \<Rightarrow> bool" where
  "info_le a b \<longleftrightarrow> ci_hits a \<le> ci_hits b \<and> ci_misses a \<le> ci_misses b \<and> ci_l1_hits a \<le> ci_l1_hits b \<and> ci_l2_hits a \<le> ci_l2_hits b"

definition covers :: "function_stats \<Rightarrow> cache_info \<Rightarrow> bool" where
  "covers f r \<longleftrightarrow> ci_hits r \<le> fs_hits f \<and> ci_misses r \<le> fs_misses f \<and> ci_l1_hits r \<le> fs_l1_hits f \<and> ci_l2_hits r \<le> fs_l2_hits f"

definition tracker_le :: "function_stats \<Rightarrow> function_stats \<Rightarrow> bool" where
  "tracker_le f g \<longleftrightarrow> fs_clear_count f < fs_clear_count g \<or> fs_clear_count f = fs_clear_count g
     \<and> fs_hits f \<le> fs_hits g \<and> fs_misses f \<le> fs_misses g \<and> fs_l1_hits f \<le> fs_l1_hits g \<and> fs_l2_hits f \<le> fs_l2_hits g"

definition tracker_ok :: "process \<Rightarrow> string \<Rightarrow> function_stats \<Rightarrow> bool" where
  "tracker_ok p ident f \<longleftrightarrow> fs_function_identifier f = ident \<and> CHR ''#'' \<notin> set ident \<and> fs_hits f = fs_l1_hits f + fs_l2_hits f
     \<and> (\<forall>i. fs_session_id f = Some i \<longrightarrow> (\<exists>u. ss_pid (pr_session p) = Some (pr_pid p) \<and> ss_id (pr_session p) = Some u
            \<and> i = session_tag u ident (fs_clear_count f)))"

definition process_ok :: "(nat \<Rightarrow> string) \<Rightarrow> nat \<Rightarrow> process \<Rightarrow> bool" where
  "process_ok uuid n p \<longleftrightarrow> (ss_id (pr_session p) = None \<or> ss_pid (pr_session p) = Some (pr_pid p) \<and> (\<exists>k<n. ss_id (pr_session p) = Some (uuid k)))
     \<and> (\<forall>ident f. map_of (pr_registry p) ident = Some f \<longrightarrow> tracker_ok p ident f)"

definition report_ok :: "(nat \<Rightarrow> string) \<Rightarrow> nat \<Rightarrow> process list \<Rightarrow> cache_info \<Rightarrow> bool" where
  "report_ok uuid n ps r \<longleftrightarrow> (\<exists>k ident c. k < n \<and> CHR ''#'' \<notin> set ident \<and> ci_session_id r = session_tag (uuid k) ident c
     \<and> (\<forall>p\<in>set ps. ss_id (pr_session p) = Some (uuid k) \<longrightarrow>
          (\<exists>f. map_of (pr_registry p) ident = Some f \<and> (c < fs_clear_count f \<or> c = fs_clear_count f \<and> covers f r))))"

definition sole_owners :: "process list \<Rightarrow> bool" where
  "sole_owners ps \<longleftrightarrow> (\<forall>i j. i < length ps \<longrightarrow> j < length ps \<longrightarrow> i \<noteq> j \<longrightarrow> ss_id (pr_session (ps ! i)) \<noteq> None
     \<longrightarrow> ss_id (pr_session (ps ! i)) \<noteq> ss_id (pr_session (ps ! j)))"

definition stats_inv :: "(nat \<Rightarrow> string) \<Rightarrow> stats_world \<Rightarrow> bool" where
  "stats_inv uuid w \<longleftrightarrow> (\<forall>p\<in>set (sw_processes w). process_ok uuid (sw_next w) p) \<and> sole_owners (sw_processes w)
     \<and> (\<forall>r\<in>set (sw_reports w). report_ok uuid (sw_next w) (sw_processes w) r \<and> ci_hits r = ci_l1_hits r + ci_l2_hits r)
     \<and> sorted_wrt (\<lambda>new old. ci_session_id new = ci_session_id old \<longrightarrow> info_le old new) (sw_reports w)"

text \<open>A process moves on: its session stays or is drawn fresh, no tracker is lost or goes back.\<close>

definition moves_on :: "(nat \<Rightarrow> string) \<Rightarrow> nat \<Rightarrow> nat \<Rightarrow> process \<Rightarrow> process \<Rightarrow> bool" where
  "moves_on uuid n n' p p' \<longleftrightarrow> n \<le> n' \<and> (ss_id (pr_session p') = ss_id (pr_session p) \<or> ss_id (pr_session p') = Some (uuid n) \<and> n' = Suc n)
     \<and> (\<forall>ident f. map_of (pr_registry p) ident = Some f \<longrightarrow> (\<exists>g. map_of (pr_registry p') ident = Some g \<and> tracker_le f g))"

lemma covers_mono: "c < fs_clear_count f \<or> c = fs_clear_count f \<and> covers f r \<Longrightarrow> tracker_le f g
  \<Longrightarrow> c < fs_clear_count g \<or> c = fs_clear_count g \<and> covers g r"
  by (auto simp: covers_def tracker_le_def)

lemma report_ok_moves_on:
  assumes "inj uuid" "i < length ps" "moves_on uuid n n' (ps ! i) p'" "report_ok uuid n ps r"
  shows "report_ok uuid n' (ps[i := p']) r"
proof -
  obtain k ident c where k: "k < n" "CHR ''#'' \<notin> set ident" "ci_session_id r = session_tag (uuid k) ident c"
    and all: "\<And>p. p \<in> set ps \<Longrightarrow> ss_id (pr_session p) = Some (uuid k) \<Longrightarrow>
      \<exists>f. map_of (pr_registry p) ident = Some f \<and> (c < fs_clear_count f \<or> c = fs_clear_count f \<and> covers f r)"
    using assms(4) unfolding report_ok_def by blast
  have "\<exists>f. map_of (pr_registry p) ident = Some f \<and> (c < fs_clear_count f \<or> c = fs_clear_count f \<and> covers f r)"
    if p: "p \<in> set (ps[i := p'])" "ss_id (pr_session p) = Some (uuid k)" for p
  proof (cases "p = p'")
    case True
    have "ss_id (pr_session p') \<noteq> Some (uuid n)" using p(2) True k(1) injD [OF assms(1)] by auto
    then have "ss_id (pr_session (ps ! i)) = Some (uuid k)" using assms(3) p(2) True by (auto simp: moves_on_def)
    from all [OF _ this] assms(2) obtain f where f: "map_of (pr_registry (ps ! i)) ident = Some f"
      "c < fs_clear_count f \<or> c = fs_clear_count f \<and> covers f r" by auto
    with assms(3) obtain g where "map_of (pr_registry p') ident = Some g" "tracker_le f g" by (auto simp: moves_on_def)
    with f(2) covers_mono True show ?thesis by blast
  next
    case False
    with p all show ?thesis using set_update_subset_insert by fastforce
  qed
  moreover have "k < n'" using k(1) assms(3) by (simp add: moves_on_def)
  ultimately show ?thesis unfolding report_ok_def using k(2,3) by blast
qed

lemma sole_owners_moves_on:
  assumes "inj uuid" "i < length ps" "moves_on uuid n n' (ps ! i) p'" "sole_owners ps" "\<forall>p\<in>set ps. process_ok uuid n p"
  shows "sole_owners (ps[i := p'])"
proof -
  have fresh: "ss_id (pr_session (ps ! j)) \<noteq> Some (uuid n)" if "j < length ps" for j
  proof
    assume n: "ss_id (pr_session (ps ! j)) = Some (uuid n)"
    have "process_ok uuid n (ps ! j)" using assms(5) that by simp
    with n obtain k where "k < n" "uuid k = uuid n" by (auto simp: process_ok_def)
    with injD [OF assms(1)] show False by blast
  qed
  have cases: "ss_id (pr_session p') = ss_id (pr_session (ps ! i)) \<or> ss_id (pr_session p') = Some (uuid n)"
    using assms(3) by (auto simp: moves_on_def)
  show ?thesis
    unfolding sole_owners_def length_list_update
  proof (intro allI impI)
    fix a b
    assume ab: "a < length ps" "b < length ps" "a \<noteq> b" "ss_id (pr_session (ps[i := p'] ! a)) \<noteq> None"
    have old: "ss_id (pr_session (ps ! x)) \<noteq> None \<Longrightarrow> ss_id (pr_session (ps ! x)) \<noteq> ss_id (pr_session (ps ! y))"
      if "x < length ps" "y < length ps" "x \<noteq> y" for x y
      using assms(4) that by (simp add: sole_owners_def)
    show "ss_id (pr_session (ps[i := p'] ! a)) \<noteq> ss_id (pr_session (ps[i := p'] ! b))"
    proof (cases "a = i"; cases "b = i")
      assume "a = i" "b \<noteq> i"
      then show ?thesis using cases ab old [of i b] fresh [of b] by auto
    next
      assume "a \<noteq> i" "b = i"
      then show ?thesis using cases ab old [of a i] fresh [of a] by auto
    qed (use ab old [of a b] in auto)
  qed
qed

lemma process_ok_mono: "process_ok uuid n p \<Longrightarrow> n \<le> n' \<Longrightarrow> process_ok uuid n' p"
  unfolding process_ok_def by (meson less_le_trans)

lemma stats_inv_moves_on:
  assumes "inj uuid" "stats_inv uuid w" "i < length (sw_processes w)"
    "moves_on uuid (sw_next w) n' (sw_processes w ! i) p'" "process_ok uuid n' p'"
  shows "stats_inv uuid (w\<lparr>sw_processes := (sw_processes w)[i := p'], sw_next := n'\<rparr>)"
proof -
  have n: "sw_next w \<le> n'" using assms(4) by (simp add: moves_on_def)
  have "process_ok uuid n' p" if "p \<in> set ((sw_processes w)[i := p'])" for p
    using that assms(2,5) process_ok_mono [OF _ n] set_update_subset_insert unfolding stats_inv_def by fastforce
  moreover have "sole_owners ((sw_processes w)[i := p'])"
    using sole_owners_moves_on [OF assms(1,3,4)] assms(2) by (simp add: stats_inv_def)
  moreover have "report_ok uuid n' ((sw_processes w)[i := p']) r" if "r \<in> set (sw_reports w)" for r
    using report_ok_moves_on [OF assms(1,3,4)] assms(2) that by (simp add: stats_inv_def)
  ultimately show ?thesis using assms(2) unfolding stats_inv_def by simp
qed

lemma apply_op_tracker:
  assumes "tracker_ok p ident f"
  shows "tracker_ok p ident (apply_op a f) \<and> tracker_le f (apply_op a f)"
  using assms
  by (cases a) (auto simp: tracker_ok_def tracker_le_def record_l1_hit_def record_l2_hit_def record_miss_def clear_def
      zero_counters_def Let_def)

lemma tracker_ok_cong: "pr_session p' = pr_session p \<Longrightarrow> pr_pid p' = pr_pid p \<Longrightarrow> tracker_ok p' i f = tracker_ok p i f"
  by (simp add: tracker_ok_def)

lemma tracker_le_refl [simp]: "tracker_le f f"
  by (simp add: tracker_le_def)

text \<open>Replacing or adding one tracker, the session unchanged.\<close>

lemma tracker_update:
  assumes "process_ok uuid n p" "tracker_ok p ident g" "\<And>f. map_of (pr_registry p) ident = Some f \<Longrightarrow> tracker_le f g"
  shows "process_ok uuid n (p\<lparr>pr_registry := AList.update ident g (pr_registry p)\<rparr>)
    \<and> moves_on uuid n n p (p\<lparr>pr_registry := AList.update ident g (pr_registry p)\<rparr>)"
proof -
  let ?p = "p\<lparr>pr_registry := AList.update ident g (pr_registry p)\<rparr>"
  have ok: "tracker_ok ?p i f = tracker_ok p i f" for i f by (rule tracker_ok_cong) simp_all
  have "process_ok uuid n ?p" unfolding process_ok_def ok using assms(1,2) by (auto simp: process_ok_def update_conv')
  moreover have "moves_on uuid n n p ?p" using assms(3) by (auto simp: moves_on_def update_conv')
  ultimately show ?thesis ..
qed

lemma on_tracker_ok:
  assumes "process_ok uuid n p"
  shows "process_ok uuid n (on_tracker ident (apply_op a) p) \<and> moves_on uuid n n p (on_tracker ident (apply_op a) p)"
proof (cases "map_of (pr_registry p) ident")
  case None
  with assms show ?thesis by (auto simp: on_tracker_def moves_on_def)
next
  case (Some f)
  with assms have "tracker_ok p ident f" by (simp add: process_ok_def)
  with tracker_update [OF assms, of ident "apply_op a f"] apply_op_tracker [of p ident f a] Some show ?thesis
    by (simp add: on_tracker_def)
qed

lemma decorate_ok:
  assumes "process_ok uuid n p" "CHR ''#'' \<notin> set ident"
  shows "process_ok uuid n (decorate ident l1 p) \<and> moves_on uuid n n p (decorate ident l1 p)"
proof (cases "map_of (pr_registry p) ident")
  case None
  have "tracker_ok p ident (new_stats ident l1)" using assms(2) by (simp add: tracker_ok_def new_stats_def)
  with tracker_update [OF assms(1), of ident "new_stats ident l1"] None show ?thesis
    by (simp add: decorate_def get_function_stats_def)
next
  case (Some f)
  with assms(1) have "tracker_ok p ident (f\<lparr>fs_l1_enabled := l1\<rparr>)" by (simp add: process_ok_def tracker_ok_def)
  moreover have "tracker_le f (f\<lparr>fs_l1_enabled := l1\<rparr>)" by (simp add: tracker_le_def)
  ultimately show ?thesis using tracker_update [OF assms(1), of ident "f\<lparr>fs_l1_enabled := l1\<rparr>"] Some
    by (simp add: decorate_def get_function_stats_def)
qed

lemma map_of_reset: "map_of (reset_stats_after_fork reg) i = map_option reset_for_new_process (map_of reg i)"
  by (induction reg) (auto simp: reset_stats_after_fork_def)

lemma fork_ok:
  assumes "stats_inv uuid w" "i < length (sw_processes w)"
  shows "stats_inv uuid (w\<lparr>sw_processes := sw_processes w @ [fork_child pid (sw_processes w ! i)]\<rparr>)"
proof -
  let ?c = "fork_child pid (sw_processes w ! i)"
  have sess: "ss_id (pr_session ?c) = None" by (simp add: fork_child_def reset_session_state_def)
  have p: "process_ok uuid (sw_next w) (sw_processes w ! i)" using assms by (simp add: stats_inv_def)
  have "process_ok uuid (sw_next w) ?c"
    using p sess unfolding process_ok_def
    by (auto simp: fork_child_def map_of_reset tracker_ok_def reset_for_new_process_def zero_counters_def)
  moreover have "sole_owners (sw_processes w @ [?c])"
    using assms(1) sess unfolding stats_inv_def sole_owners_def by (auto simp: nth_append less_Suc_eq)
  moreover have "report_ok uuid (sw_next w) (sw_processes w @ [?c]) r" if "report_ok uuid (sw_next w) (sw_processes w) r" for r
  proof -
    obtain k ident c where "k < sw_next w" "CHR ''#'' \<notin> set ident" "ci_session_id r = session_tag (uuid k) ident c"
      "\<forall>p\<in>set (sw_processes w). ss_id (pr_session p) = Some (uuid k) \<longrightarrow>
        (\<exists>f. map_of (pr_registry p) ident = Some f \<and> (c < fs_clear_count f \<or> c = fs_clear_count f \<and> covers f r))"
      using \<open>report_ok uuid (sw_next w) (sw_processes w) r\<close> unfolding report_ok_def by blast
    moreover from this(4) have "\<forall>p\<in>set (sw_processes w @ [?c]). ss_id (pr_session p) = Some (uuid k) \<longrightarrow>
        (\<exists>f. map_of (pr_registry p) ident = Some f \<and> (c < fs_clear_count f \<or> c = fs_clear_count f \<and> covers f r))"
      using sess by simp
    ultimately show ?thesis unfolding report_ok_def by blast
  qed
  ultimately show ?thesis using assms(1) unfolding stats_inv_def by auto
qed

lemma get_info_ok:
  assumes p: "process_ok uuid n p" and f: "map_of (pr_registry p) ident = Some f"
    and g: "get_info (pr_pid p) now (uuid n) (pr_session p) f = (r, drawn, s, f1)"
  shows "\<exists>u k info. r = Inr info \<and> ss_id s = Some u \<and> ss_pid s = Some (pr_pid p) \<and> u = uuid k
    \<and> k < (if drawn then Suc n else n) \<and> (drawn \<longrightarrow> k = n) \<and> (\<not> drawn \<longrightarrow> s = pr_session p)
    \<and> f1 = f\<lparr>fs_session_id := Some (session_tag u ident (fs_clear_count f))\<rparr>
    \<and> ci_session_id info = session_tag u ident (fs_clear_count f) \<and> covers f1 info
    \<and> ci_hits info = fs_hits f \<and> ci_misses info = fs_misses f \<and> ci_l1_hits info = fs_l1_hits f \<and> ci_l2_hits info = fs_l2_hits f
    \<and> (drawn \<longrightarrow> ss_id (pr_session p) = None)"
proof -
  have t: "tracker_ok p ident f" using p f by (simp add: process_ok_def)
  show ?thesis
  proof (cases "fs_session_id f")
    case (Some i)
    then obtain u where "ss_pid (pr_session p) = Some (pr_pid p)" "ss_id (pr_session p) = Some u"
      "i = session_tag u ident (fs_clear_count f)" using t by (auto simp: tracker_ok_def)
    moreover from this p obtain k where "k < n" "u = uuid k" by (auto simp: process_ok_def)
    ultimately show ?thesis using g Some
      by (cases f) (auto simp: get_info_def ensure_session_id_def covers_def)
  next
    case None
    show ?thesis
    proof (cases "ss_id (pr_session p)")
      case None': None
      then show ?thesis using g None t
        by (auto simp: get_info_def ensure_session_id_def get_session_id_def ensure_session_initialized_def Let_def covers_def tracker_ok_def)
    next
      case (Some u)
      with p obtain k where "k < n" "u = uuid k" "ss_pid (pr_session p) = Some (pr_pid p)" by (auto simp: process_ok_def)
      with Some None g t show ?thesis
        by (auto simp: get_info_def ensure_session_id_def get_session_id_def ensure_session_initialized_def Let_def covers_def tracker_ok_def)
    qed
  qed
qed

lemma report_inv:
  assumes "inj uuid" "\<And>n. CHR '':'' \<notin> set (uuid n)" "stats_inv uuid w" "i < length (sw_processes w)"
  shows "stats_inv uuid (report uuid i ident now w)"
proof (cases "map_of (pr_registry (sw_processes w ! i)) ident")
  case None
  with assms(3) show ?thesis by (simp add: report_def)
next
  case (Some f)
  let ?p = "sw_processes w ! i"
  have p: "process_ok uuid (sw_next w) ?p" using assms(3,4) by (simp add: stats_inv_def)
  then have t: "tracker_ok ?p ident f" using Some by (simp add: process_ok_def)
  obtain r drawn s f1 where g: "get_info (pr_pid ?p) now (uuid (sw_next w)) (pr_session ?p) f = (r, drawn, s, f1)"
    by (metis surj_pair)
  define n' where "n' = (if drawn then Suc (sw_next w) else sw_next w)"
  obtain k info where r: "r = Inr info" and s: "ss_id s = Some (uuid k)" "ss_pid s = Some (pr_pid ?p)"
    and k: "k < n'" "drawn \<Longrightarrow> k = sw_next w" "\<not> drawn \<Longrightarrow> s = pr_session ?p" "drawn \<Longrightarrow> ss_id (pr_session ?p) = None"
    and f1: "f1 = f\<lparr>fs_session_id := Some (session_tag (uuid k) ident (fs_clear_count f))\<rparr>"
    and tag: "ci_session_id info = session_tag (uuid k) ident (fs_clear_count f)" and cov: "covers f1 info"
    and eq: "ci_hits info = fs_hits f" "ci_misses info = fs_misses f" "ci_l1_hits info = fs_l1_hits f" "ci_l2_hits info = fs_l2_hits f"
    using get_info_ok [OF p Some g] unfolding n'_def by blast
  define p' where "p' = ?p\<lparr>pr_session := s, pr_registry := AList.update ident f1 (pr_registry ?p)\<rparr>"
  let ?ps = "(sw_processes w)[i := p']"
  have w': "report uuid i ident now w = w\<lparr>sw_processes := ?ps, sw_next := n', sw_reports := info # sw_reports w\<rparr>"
    using Some g r by (simp add: report_def Let_def p'_def n'_def)
  have trackers: "tracker_ok p' j h" if "map_of (pr_registry p') j = Some h" for j h
  proof (cases "j = ident")
    case True
    with that f1 have "h = f\<lparr>fs_session_id := Some (session_tag (uuid k) ident (fs_clear_count f))\<rparr>"
      by (simp add: p'_def update_conv')
    with t s True show ?thesis by (simp add: p'_def tracker_ok_def)
  next
    case False
    with that have "map_of (pr_registry ?p) j = Some h" by (simp add: p'_def update_conv')
    with p have "tracker_ok ?p j h" by (simp add: process_ok_def)
    with k(3,4) show ?thesis by (cases drawn) (auto simp: p'_def tracker_ok_def)
  qed
  have ok: "process_ok uuid n' p'" using trackers s k(1) by (auto simp: process_ok_def p'_def)
  have mv: "moves_on uuid (sw_next w) n' ?p p'"
    using s k Some f1 by (cases drawn) (auto simp: moves_on_def p'_def n'_def update_conv' tracker_le_def)
  have inv: "stats_inv uuid (w\<lparr>sw_processes := ?ps, sw_next := n'\<rparr>)"
    by (rule stats_inv_moves_on [OF assms(1,3,4) mv ok])
  have own: "q = p'" if q: "q \<in> set ?ps" "ss_id (pr_session q) = Some (uuid k)" for q
  proof -
    obtain j where j: "j < length ?ps" "q = ?ps ! j" using q(1) by (metis in_set_conv_nth)
    have "sole_owners ?ps" using inv by (simp add: stats_inv_def)
    moreover have "ss_id (pr_session (?ps ! j)) = ss_id (pr_session (?ps ! i))" "ss_id (pr_session (?ps ! j)) \<noteq> None"
      using q(2) j s assms(4) by (auto simp: p'_def)
    ultimately have "j = i" using j(1) assms(4) unfolding sole_owners_def by (metis length_list_update)
    with j assms(4) show ?thesis by simp
  qed
  have f1': "map_of (pr_registry p') ident = Some f1" by (simp add: p'_def update_conv')
  have hash: "CHR ''#'' \<notin> set ident" using t by (simp add: tracker_ok_def)
  have new: "report_ok uuid n' ?ps info"
    unfolding report_ok_def using k(1) hash tag own f1' cov f1 by (metis (no_types, lifting) function_stats.select_convs(9) function_stats.surjective function_stats.update_convs(10))
  have old: "info_le x info" if x: "x \<in> set (sw_reports w)" "ci_session_id info = ci_session_id x" for x
  proof -
    have "report_ok uuid n' ?ps x" using inv x(1) by (simp add: stats_inv_def)
    then obtain k' j c where kj: "CHR ''#'' \<notin> set j" "ci_session_id x = session_tag (uuid k') j c"
      and all: "\<And>q. q \<in> set ?ps \<Longrightarrow> ss_id (pr_session q) = Some (uuid k') \<Longrightarrow>
        \<exists>f. map_of (pr_registry q) j = Some f \<and> (c < fs_clear_count f \<or> c = fs_clear_count f \<and> covers f x)"
      unfolding report_ok_def by blast
    have same: "uuid k' = uuid k" "j = ident" "c = fs_clear_count f"
      using session_tag_inject [OF assms(2) assms(2) kj(1) hash] kj(2) x(2) tag by metis+
    have "p' \<in> set ?ps" using assms(4) by (simp add: set_update_memI)
    from all [OF this] s same f1' f1 have "covers f1 x" by (auto simp: p'_def)
    with eq f1 show ?thesis by (simp add: info_le_def covers_def)
  qed
  show ?thesis unfolding w' using inv new old eq t by (simp add: stats_inv_def tracker_ok_def)
qed

lemma stats_inv_reachable:
  assumes "inj uuid" "\<And>n. CHR '':'' \<notin> set (uuid n)" "stats_reachable uuid w"
  shows "stats_inv uuid w"
  using assms(3)
proof induction
  case (start pid)
  show ?case
    by (auto simp: stats_inv_def first_process_def process_ok_def new_session_def sole_owners_def)
next
  case (op w i ident a)
  then have "process_ok uuid (sw_next w) (sw_processes w ! i)" by (simp add: stats_inv_def)
  from on_tracker_ok [OF this, of ident a] stats_inv_moves_on [OF assms(1) op.IH op.hyps(2), of "sw_next w"] show ?case by simp
next
  case (decorate w i ident l1)
  then have "process_ok uuid (sw_next w) (sw_processes w ! i)" by (simp add: stats_inv_def)
  from decorate_ok [OF this decorate.hyps(3), of l1] stats_inv_moves_on [OF assms(1) decorate.IH decorate.hyps(2), of "sw_next w"]
  show ?case by simp
next
  case (info w i ident now)
  then show ?case using report_inv [OF assms(1,2)] by blast
next
  case (fork w i pid)
  then show ?case using fork_ok by blast
qed

text \<open>
  C3: The server's replay check never strips a healthy session: in any family of forking processes, over any sequence of
  hits, misses, clears, re-decorations, reports and forks, of two reports that carry the same session identifier the later
  one has counters at least as large, and in each report the hits are the hits of the two tiers, provided the UUIDs drawn
  are distinct and contain no colon and function identifiers contain no hash sign.
\<close>

theorem session_counters_monotone:
  assumes "inj uuid" "\<And>n. CHR '':'' \<notin> set (uuid n)" "stats_reachable uuid w"
    and "sw_reports w = later @ b # between @ a # earlier" "ci_session_id a = ci_session_id b"
  shows "ci_hits a \<le> ci_hits b \<and> ci_misses a \<le> ci_misses b \<and> ci_l1_hits a \<le> ci_l1_hits b \<and> ci_l2_hits a \<le> ci_l2_hits b
    \<and> ci_hits b = ci_l1_hits b + ci_l2_hits b"
  using stats_inv_reachable [OF assms(1-3)] assms(4,5)
  by (simp add: stats_inv_def sorted_wrt_append info_le_def)

definition demo_uuid :: "nat \<Rightarrow> string" where
  "demo_uuid n = replicate (Suc n) CHR ''u''"

text \<open>The parent reports, forks, the child reports; then the parent reports again, clears and reports.\<close>

definition demo_stats_world :: stats_world where
  "demo_stats_world =
     (let on = (\<lambda>i g w. w\<lparr>sw_processes := (sw_processes w)[i := g (sw_processes w ! i)]\<rparr>);
          w1 = on 0 (on_tracker ''m.f'' (apply_op (RecL2 2 1))) (on 0 (decorate ''m.f'' True) (first_process 7));
          w2 = report demo_uuid 0 ''m.f'' 2 w1;
          w3 = w2\<lparr>sw_processes := sw_processes w2 @ [fork_child 8 (sw_processes w2 ! 0)]\<rparr>;
          w4 = report demo_uuid 1 ''m.f'' 3 w3;
          w5 = report demo_uuid 0 ''m.f'' 4 (on 0 (on_tracker ''m.f'' (apply_op (RecL1 3))) w4)
      in report demo_uuid 0 ''m.f'' 5 (on 0 (on_tracker ''m.f'' (apply_op DoClear)) w5))"

lemma demo_reports:
  "map (\<lambda>r. (ci_session_id r, ci_hits r)) (sw_reports demo_stats_world)
   = [(''u:m.f#1'', 0), (''u:m.f'', 2), (''uu:m.f'', 0), (''u:m.f'', 1)]"
  by code_simp

lemma length_report [simp]: "length (sw_processes (report uuid i ident now w)) = length (sw_processes w)"
  by (simp add: report_def Let_def split: option.split prod.split)

lemma demo_reachable: "stats_reachable demo_uuid demo_stats_world"
  unfolding demo_stats_world_def Let_def
  by (intro stats_reachable.intros; simp; simp add: first_process_def)

theorem session_counters_monotone_witness:
  "\<exists>a b x y. sw_reports demo_stats_world = x # b # y # a # [] \<and> ci_session_id a = ''u:m.f'' \<and> ci_session_id b = ''u:m.f''
     \<and> ci_hits a = 1 \<and> ci_hits b = 2 \<and> ci_misses a \<le> ci_misses b \<and> ci_hits b = ci_l1_hits b + ci_l2_hits b"
proof -
  obtain x b y a where r: "sw_reports demo_stats_world = x # b # y # a # []"
    using arg_cong [OF demo_reports, of length] by (auto simp: length_Suc_conv eval_nat_numeral)
  have ids: "ci_session_id a = ''u:m.f''" "ci_session_id b = ''u:m.f''" "ci_hits a = 1" "ci_hits b = 2"
    using demo_reports by (simp_all add: r)
  have "inj demo_uuid" by (rule injI) (metis demo_uuid_def length_replicate nat.inject)
  moreover have "CHR '':'' \<notin> set (demo_uuid n)" for n by (simp add: demo_uuid_def)
  ultimately have "ci_misses a \<le> ci_misses b" "ci_hits b = ci_l1_hits b + ci_l2_hits b"
    using session_counters_monotone [OF _ _ demo_reachable, of "[x]" b "[y]" a "[]"] r ids by simp_all
  with r ids show ?thesis by blast
qed

end
