(* ===== verification/Cache_Contract.thy ===== *)
theory Cache_Contract
  imports CK_Prelude
begin

text \<open>
  The contract the decorators rely on, whichever store is behind them: a cache may forget, but it
  never invents. The in-process caches and the backends interpret these locales; the memoisation
  lemmas are proved here once.
\<close>

text \<open>
  \<open>lookup\<close> is what is stored under a key, expired or not; \<open>get\<close>, \<open>put\<close> and \<open>remove\<close> are the
  operations, \<open>'t\<close> whatever a call depends on besides the key and value (the clock, TTLs).
\<close>

locale cache_store =
  fixes lookup :: "'s \<Rightarrow> 'k \<Rightarrow> 'v option"
    and get :: "'t \<Rightarrow> 'k \<Rightarrow> 's \<Rightarrow> 'v option \<times> 's"
    and put :: "'t \<Rightarrow> 'k \<Rightarrow> 'v \<Rightarrow> 's \<Rightarrow> 's"
    and remove :: "'k \<Rightarrow> 's \<Rightarrow> 's"
    and invar :: "'s \<Rightarrow> bool"
  assumes get_sound: "invar s \<Longrightarrow> get t k s = (Some v, s') \<Longrightarrow> lookup s k = Some v"
    and get_shrinks: "invar s \<Longrightarrow> get t k s = (r, s') \<Longrightarrow> lookup s' \<subseteq>\<^sub>m lookup s"
    and put_sound: "invar s \<Longrightarrow> lookup (put t k v s) k' = Some w \<Longrightarrow>
          (k' = k \<and> w = v) \<or> lookup s k' = Some w"
    and remove_gone: "invar s \<Longrightarrow> lookup (remove k s) k = None"
    and remove_shrinks: "invar s \<Longrightarrow> lookup (remove k s) \<subseteq>\<^sub>m lookup s"
    and invar_get: "invar s \<Longrightarrow> get t k s = (r, s') \<Longrightarrow> invar s'"
    and invar_put: "invar s \<Longrightarrow> invar (put t k v s)"
    and invar_remove: "invar s \<Longrightarrow> invar (remove k s)"
begin

text \<open>Every stored value is acceptable for its key.\<close>

definition coherent :: "('k \<Rightarrow> 'v \<Rightarrow> bool) \<Rightarrow> 's \<Rightarrow> bool" where
  "coherent P s \<longleftrightarrow> (\<forall>k v. lookup s k = Some v \<longrightarrow> P k v)"

lemma coherentD: "coherent P s \<Longrightarrow> lookup s k = Some v \<Longrightarrow> P k v"
  by (simp add: coherent_def)

lemma coherent_mono: "lookup s' \<subseteq>\<^sub>m lookup s \<Longrightarrow> coherent P s \<Longrightarrow> coherent P s'"
  unfolding coherent_def map_le_def by (metis domI)

lemma coherent_get: "invar s \<Longrightarrow> coherent P s \<Longrightarrow> get t k s = (r, s') \<Longrightarrow> coherent P s'"
  using get_shrinks coherent_mono by blast

lemma coherent_put: "invar s \<Longrightarrow> coherent P s \<Longrightarrow> P k v \<Longrightarrow> coherent P (put t k v s)"
  unfolding coherent_def using put_sound by blast

lemma coherent_remove: "invar s \<Longrightarrow> coherent P s \<Longrightarrow> coherent P (remove k s)"
  using remove_shrinks coherent_mono by blast

text \<open>The memoisation pattern of the wrappers: look up, else compute and store.\<close>

definition memo :: "'t \<Rightarrow> 't \<Rightarrow> 'v \<Rightarrow> 'k \<Rightarrow> 's \<Rightarrow> 'v \<times> 's" where
  "memo tg tp res k s =
     (case get tg k s of
        (Some v, s') \<Rightarrow> (v, s')
      | (None, s') \<Rightarrow> (res, put tp k res s'))"

lemma memo_acceptable:
  assumes "invar s" "coherent P s" "P k res" "memo tg tp res k s = (v, s')"
  shows "P k v \<and> invar s' \<and> coherent P s'"
  using assms coherent_get [OF assms(1,2)] get_sound [OF assms(1)] invar_get [OF assms(1)]
  by (auto simp: memo_def intro: coherent_put invar_put coherentD split: prod.splits option.splits)

end

text \<open>A store in which a put never leaves an older value behind.\<close>

locale replacing_store = cache_store +
  assumes put_replaces: "invar s \<Longrightarrow> lookup (put t k v s) k = Some w \<Longrightarrow> w = v"
begin

lemma put_get_fresh:
  assumes "invar s" "get tg k (put tp k v s) = (Some w, s')"
  shows "w = v"
  using get_sound [OF invar_put [OF assms(1)] assms(2)] put_replaces [OF assms(1)] by blast

lemma remove_put_fresh:
  assumes "invar s" "get tg k (remove k s) = (r, s')"
  shows "r = None"
proof (cases r)
  case (Some w)
  with assms have "lookup (remove k s) k = Some w" using get_sound invar_remove by blast
  with remove_gone [OF assms(1)] show ?thesis by simp
qed simp

end

end
