(* ===== verification/L1_Cache.thy ===== *)
theory L1_Cache
  imports Cache_Contract
begin

text \<open>
  \<^verbatim>\<open>l1_cache.py\<close>: the in-memory cache in front of the backend, with its memory budget, LRU order and
  TTL buffer, and the manager of one cache per namespace. \<^verbatim>\<open>time.time()\<close> is the argument \<open>now\<close>; every
  public method runs under the instance lock, so operations are atomic.
\<close>

section \<open>Entries and the cache\<close>

record cache_entry =
  ce_value :: bytes
  ce_expires_at :: pyfloat
  ce_size_bytes :: int

definition is_expired :: "real \<Rightarrow> cache_entry \<Rightarrow> bool" where
  "is_expired now e = pf_le (ce_expires_at e) (Fin now)"

record l1_cache =
  max_memory_bytes :: int
  ttl_buffer_seconds :: real
  l1_namespace :: string
  l1_store :: "(string, cache_entry) odict"
  current_memory_bytes :: int
  l1_hits :: int
  l1_misses :: int
  l1_evictions :: int
  l1_expired_evictions :: int

definition make_l1 :: "int \<Rightarrow> real \<Rightarrow> string \<Rightarrow> l1_cache" where
  "make_l1 mb buf ns = \<lparr>max_memory_bytes = mb * 1024 * 1024, ttl_buffer_seconds = buf,
     l1_namespace = ns, l1_store = [], current_memory_bytes = 0, l1_hits = 0, l1_misses = 0,
     l1_evictions = 0, l1_expired_evictions = 0\<rparr>"

definition estimate_size :: "bytes \<Rightarrow> int" where
  "estimate_size v = int (length v)"

definition remove_entry :: "string \<Rightarrow> l1_cache \<Rightarrow> l1_cache" where
  "remove_entry k c =
     (case map_of (l1_store c) k of
        None \<Rightarrow> c
      | Some e \<Rightarrow> c\<lparr>l1_store := AList.delete k (l1_store c),
                   current_memory_bytes := current_memory_bytes c - ce_size_bytes e\<rparr>)"

text \<open>\<^verbatim>\<open>get\<close>: \<open>None\<close> stands for \<^verbatim>\<open>(False, None)\<close>, \<open>Some v\<close> for \<^verbatim>\<open>(True, v)\<close>.\<close>

definition l1_get :: "real \<Rightarrow> string \<Rightarrow> l1_cache \<Rightarrow> bytes option \<times> l1_cache" where
  "l1_get now k c =
     (case map_of (l1_store c) k of
        None \<Rightarrow> (None, c\<lparr>l1_misses := l1_misses c + 1\<rparr>)
      | Some e \<Rightarrow>
          if is_expired now e
          then (let c1 = remove_entry k c
                in (None, c1\<lparr>l1_misses := l1_misses c1 + 1,
                             l1_expired_evictions := l1_expired_evictions c1 + 1\<rparr>))
          else (Some (ce_value e),
                c\<lparr>l1_store := move_to_end k (l1_store c), l1_hits := l1_hits c + 1\<rparr>))"

text \<open>
  The eviction loop: walk from the least recently used entry, until the new value fits, collecting
  keys and updating the byte and eviction counters; the keys are removed afterwards.
\<close>

fun evict_scan ::
  "int \<Rightarrow> int \<Rightarrow> ('k, cache_entry) odict \<Rightarrow> int \<Rightarrow> int \<Rightarrow> 'k list \<times> int \<times> int" where
  "evict_scan budget needed [] cur ev = ([], cur, ev)"
| "evict_scan budget needed ((k, e) # d) cur ev =
     (if cur + needed \<le> budget then ([], cur, ev)
      else (case evict_scan budget needed d (cur - ce_size_bytes e) (ev + 1) of
              (ks, cur', ev') \<Rightarrow> (k # ks, cur', ev')))"

definition evict_for_space :: "int \<Rightarrow> l1_cache \<Rightarrow> l1_cache" where
  "evict_for_space needed c =
     (if current_memory_bytes c + needed \<le> max_memory_bytes c then c
      else (case evict_scan (max_memory_bytes c) needed (l1_store c) (current_memory_bytes c)
                   (l1_evictions c) of
              (ks, cur, ev) \<Rightarrow>
                c\<lparr>l1_store := fold AList.delete ks (l1_store c),
                  current_memory_bytes := cur, l1_evictions := ev\<rparr>))"

text \<open>What callers may pass as a value: \<^verbatim>\<open>put\<close> refuses anything that is not exactly \<^verbatim>\<open>bytes\<close>.\<close>

datatype l1_value = PyBytes bytes | NotBytes string
datatype l1_error = L1TypeError string | L1ZeroDivision

definition effective_expiry :: "real \<Rightarrow> pyfloat option \<Rightarrow> pyfloat option \<Rightarrow> l1_cache \<Rightarrow> pyfloat" where
  "effective_expiry now redis_ttl expires_at c =
     (let buf = Fin (ttl_buffer_seconds c) in
      case expires_at of
        Some x \<Rightarrow> pf_sub x buf
      | None \<Rightarrow>
          (case redis_ttl of
             Some t \<Rightarrow> pf_sub (pf_add (Fin now) t) buf
           | None \<Rightarrow> pf_sub (Fin (now + 300)) buf))"

definition put_bytes ::
  "real \<Rightarrow> string \<Rightarrow> bytes \<Rightarrow> pyfloat option \<Rightarrow> pyfloat option \<Rightarrow> l1_cache \<Rightarrow> l1_cache" where
  "put_bytes now k v redis_ttl expires_at c =
     (let expiry = effective_expiry now redis_ttl expires_at c in
      if \<not> isfinite expiry \<or> pf_le expiry (Fin now) then c
      else
        let size = estimate_size v in
        if size > max_memory_bytes c then remove_entry k c
        else
          let c1 = (case map_of (l1_store c) k of
                      None \<Rightarrow> c
                    | Some old \<Rightarrow>
                        c\<lparr>current_memory_bytes := current_memory_bytes c - ce_size_bytes old\<rparr>);
              c2 = evict_for_space size c1;
              e = \<lparr>ce_value = v, ce_expires_at = expiry, ce_size_bytes = size\<rparr>;
              c3 = c2\<lparr>l1_store := AList.update k e (l1_store c2),
                     current_memory_bytes := current_memory_bytes c2 + size\<rparr>
          in c3\<lparr>l1_store := move_to_end k (l1_store c3)\<rparr>)"

fun l1_put ::
  "real \<Rightarrow> string \<Rightarrow> l1_value \<Rightarrow> pyfloat option \<Rightarrow> pyfloat option \<Rightarrow> l1_cache
   \<Rightarrow> l1_error + l1_cache" where
  "l1_put now k (NotBytes ty) rt ea c = Inl (L1TypeError ty)"
| "l1_put now k (PyBytes v) rt ea c = Inr (put_bytes now k v rt ea c)"

definition invalidate :: "string \<Rightarrow> l1_cache \<Rightarrow> l1_cache" where
  "invalidate k c = remove_entry k c"

definition l1_clear :: "l1_cache \<Rightarrow> l1_cache" where
  "l1_clear c = c\<lparr>l1_store := [], current_memory_bytes := 0\<rparr>"

definition purge_one :: "string \<Rightarrow> l1_cache \<Rightarrow> l1_cache" where
  "purge_one k c =
     (let c1 = remove_entry k c in c1\<lparr>l1_expired_evictions := l1_expired_evictions c1 + 1\<rparr>)"

definition cleanup_expired :: "real \<Rightarrow> l1_cache \<Rightarrow> nat \<times> l1_cache" where
  "cleanup_expired now c =
     (let expired = map fst (filter (\<lambda>(k, e). pf_le (ce_expires_at e) (Fin now)) (l1_store c))
      in (length expired, fold purge_one expired c))"

record l1_stats =
  ls_namespace :: string
  ls_entries :: nat
  ls_memory_used_mb :: real
  ls_memory_limit_mb :: real
  ls_memory_usage_percent :: real
  ls_hits :: int
  ls_misses :: int
  ls_hit_rate :: real
  ls_evictions :: int
  ls_expired_evictions :: int
  ls_total_requests :: int

text \<open>\<^verbatim>\<open>get_stats\<close> divides by the budget: a cache created with 0 MB raises.\<close>

definition l1_get_stats :: "l1_cache \<Rightarrow> l1_error + l1_stats" where
  "l1_get_stats c =
     (let total = l1_hits c + l1_misses c in
      if max_memory_bytes c = 0 then Inl L1ZeroDivision
      else Inr
      \<lparr>ls_namespace = l1_namespace c, ls_entries = length (l1_store c),
       ls_memory_used_mb = of_int (current_memory_bytes c) / (1024 * 1024),
       ls_memory_limit_mb = of_int (max_memory_bytes c) / (1024 * 1024),
       ls_memory_usage_percent = of_int (current_memory_bytes c) / of_int (max_memory_bytes c) * 100,
       ls_hits = l1_hits c, ls_misses = l1_misses c,
       ls_hit_rate = (if total > 0 then of_int (l1_hits c) / of_int total else 0),
       ls_evictions = l1_evictions c, ls_expired_evictions = l1_expired_evictions c,
       ls_total_requests = total\<rparr>)"

section \<open>The manager\<close>

record l1_manager =
  caches :: "(string, l1_cache) odict"
  default_max_memory_mb :: int

definition make_manager :: "int option \<Rightarrow> int \<Rightarrow> l1_manager" where
  "make_manager mb settings_mb =
     \<lparr>caches = [], default_max_memory_mb = (case mb of None \<Rightarrow> settings_mb | Some m \<Rightarrow> m)\<rparr>"

text \<open>\<^verbatim>\<open>get_cache\<close>: the caller works on the cache filed under the namespace afterwards.\<close>

definition get_cache :: "string \<Rightarrow> int option \<Rightarrow> l1_manager \<Rightarrow> l1_cache \<times> l1_manager" where
  "get_cache ns max_mb m =
     (case map_of (caches m) ns of
        None \<Rightarrow>
          (let budget = (case max_mb of None \<Rightarrow> default_max_memory_mb m | Some b \<Rightarrow> b);
               c = make_l1 budget 1 ns
           in (c, m\<lparr>caches := AList.update ns c (caches m)\<rparr>))
      | Some c \<Rightarrow> (c, m))"

text \<open>One pass of the background cleanup thread over all namespaces.\<close>

definition cleanup_pass :: "real \<Rightarrow> l1_manager \<Rightarrow> nat \<times> l1_manager" where
  "cleanup_pass now m =
     (sum_list (map (\<lambda>(ns, c). fst (cleanup_expired now c)) (caches m)),
      m\<lparr>caches := map (\<lambda>(ns, c). (ns, snd (cleanup_expired now c))) (caches m)\<rparr>)"

fun collect_stats :: "(string, l1_cache) odict \<Rightarrow> l1_error + (string \<times> l1_stats) list" where
  "collect_stats [] = Inr []"
| "collect_stats ((ns, c) # cs) =
     (case l1_get_stats c of
        Inl e \<Rightarrow> Inl e
      | Inr st \<Rightarrow> (case collect_stats cs of Inl e \<Rightarrow> Inl e | Inr r \<Rightarrow> Inr ((ns, st) # r)))"

definition get_all_stats :: "l1_manager \<Rightarrow> l1_error + (string \<times> l1_stats) list" where
  "get_all_stats m = collect_stats (caches m)"

definition clear_all :: "l1_manager \<Rightarrow> l1_manager" where
  "clear_all m = m\<lparr>caches := map (\<lambda>(ns, c). (ns, l1_clear c)) (caches m)\<rparr>"

section \<open>The invariant\<close>

definition resident :: "l1_cache \<Rightarrow> int" where
  "resident c = od_weight ce_size_bytes (l1_store c)"

definition entry_ok :: "cache_entry \<Rightarrow> bool" where
  "entry_ok e \<longleftrightarrow> isfinite (ce_expires_at e) \<and> ce_size_bytes e = int (length (ce_value e))"

text \<open>Well-formed store: what every operation keeps, memory accounting aside.\<close>

definition l1_wf :: "l1_cache \<Rightarrow> bool" where
  "l1_wf c \<longleftrightarrow> distinct (map fst (l1_store c)) \<and> (\<forall>(k, e) \<in> set (l1_store c). entry_ok e)"

text \<open>Exact accounting within the budget.\<close>

definition l1_ok :: "l1_cache \<Rightarrow> bool" where
  "l1_ok c \<longleftrightarrow> l1_wf c \<and> current_memory_bytes c = resident c \<and> resident c \<le> max_memory_bytes c"

section \<open>Lemmas: eviction removes a prefix\<close>

lemma fold_delete_prefix:
  "distinct (map fst (xs @ ys)) \<Longrightarrow> fold AList.delete (map fst xs) (xs @ ys) = ys"
proof (induction xs)
  case (Cons p xs)
  then show ?case by (cases p) simp
qed simp

lemma evict_scan_prefix:
  "evict_scan budget needed d cur ev = (ks, cur', ev') \<Longrightarrow>
   \<exists>xs ys. d = xs @ ys \<and> ks = map fst xs \<and> cur' = cur - od_weight ce_size_bytes xs
     \<and> ev' = ev + int (length xs) \<and> (ys = [] \<or> cur' + needed \<le> budget)"
proof (induction budget needed d cur ev arbitrary: ks cur' ev' rule: evict_scan.induct)
  case (1 budget needed cur ev)
  then show ?case by simp
next
  case (2 budget needed k e d cur ev)
  show ?case
  proof (cases "cur + needed \<le> budget")
    case True
    with "2.prems" show ?thesis by (intro exI [of _ "[]"] exI [of _ "(k, e) # d"]) simp
  next
    case False
    with "2.prems" obtain ks1 where
      s: "evict_scan budget needed d (cur - ce_size_bytes e) (ev + 1) = (ks1, cur', ev')"
      and ks: "ks = k # ks1"
      by (auto split: prod.splits)
    from "2.IH" [OF False s] obtain xs ys where
      "d = xs @ ys" "ks1 = map fst xs" "cur' = cur - ce_size_bytes e - od_weight ce_size_bytes xs"
      "ev' = ev + 1 + int (length xs)" "ys = [] \<or> cur' + needed \<le> budget"
      by blast
    with ks show ?thesis by (intro exI [of _ "(k, e) # xs"] exI [of _ ys]) simp
  qed
qed

lemma evict_for_space_split:
  assumes "distinct (map fst (l1_store c))"
  obtains xs ys where "l1_store c = xs @ ys" "l1_store (evict_for_space needed c) = ys"
    "current_memory_bytes (evict_for_space needed c)
       = current_memory_bytes c - od_weight ce_size_bytes xs"
    "ys = [] \<or> current_memory_bytes (evict_for_space needed c) + needed \<le> max_memory_bytes c"
    "xs = [] \<or> current_memory_bytes c + needed > max_memory_bytes c"
proof (cases "current_memory_bytes c + needed \<le> max_memory_bytes c")
  case True
  then show ?thesis using that [of "[]" "l1_store c"] by (simp add: evict_for_space_def)
next
  case False
  obtain ks cur ev where s: "evict_scan (max_memory_bytes c) needed (l1_store c)
      (current_memory_bytes c) (l1_evictions c) = (ks, cur, ev)"
    by (metis prod_cases3)
  from evict_scan_prefix [OF s] obtain xs ys where
    "l1_store c = xs @ ys" "ks = map fst xs" "cur = current_memory_bytes c - od_weight ce_size_bytes xs"
    "ys = [] \<or> cur + needed \<le> max_memory_bytes c" by blast
  with False s assms that [of xs ys] show ?thesis
    by (simp add: evict_for_space_def fold_delete_prefix)
qed

lemma evict_for_space_max [simp]: "max_memory_bytes (evict_for_space n c) = max_memory_bytes c"
  by (simp add: evict_for_space_def split: prod.splits)

lemma evict_for_space_buffer [simp]:
  "ttl_buffer_seconds (evict_for_space n c) = ttl_buffer_seconds c"
  by (simp add: evict_for_space_def split: prod.splits)

section \<open>Lemmas: the operations keep the invariant\<close>

lemmas l1_frame_defs = remove_entry_def l1_get_def invalidate_def l1_clear_def

lemma entry_ok_nonneg: "entry_ok e \<Longrightarrow> 0 \<le> ce_size_bytes e"
  by (simp add: entry_ok_def)

lemma l1_wf_weight_nonneg:
  "\<forall>(k, e) \<in> set d. entry_ok e \<Longrightarrow> 0 \<le> od_weight ce_size_bytes d"
  by (induction d) (auto simp: entry_ok_nonneg)

lemma l1_wf_entry: "l1_wf c \<Longrightarrow> map_of (l1_store c) k = Some e \<Longrightarrow> entry_ok e"
  by (auto simp: l1_wf_def dest: map_of_SomeD)

lemma remove_entry_wf: "l1_wf c \<Longrightarrow> l1_wf (remove_entry k c)"
  by (auto simp: l1_wf_def remove_entry_def delete_filter distinct_map_filter split: option.splits)

lemma remove_entry_max [simp]: "max_memory_bytes (remove_entry k c) = max_memory_bytes c"
  by (simp add: remove_entry_def split: option.splits)

lemma remove_entry_lookup:
  "map_of (l1_store (remove_entry k c)) = (map_of (l1_store c))(k := None)"
  by (auto simp: remove_entry_def AList.delete_conv' fun_eq_iff split: option.splits)

lemma remove_entry_accounting:
  assumes "l1_wf c"
  shows "current_memory_bytes (remove_entry k c) - resident (remove_entry k c)
       = current_memory_bytes c - resident c"
  using assms by (auto simp: remove_entry_def resident_def l1_wf_def od_weight_delete split: option.splits)

lemma remove_entry_resident_le: "l1_wf c \<Longrightarrow> resident (remove_entry k c) \<le> resident c"
  by (auto simp: remove_entry_def resident_def od_weight_delete l1_wf_def entry_ok_def
      split: option.splits dest!: map_of_SomeD)

lemma remove_entry_ok: "l1_ok c \<Longrightarrow> l1_ok (remove_entry k c)"
  using remove_entry_wf [of c k] remove_entry_accounting [of c k] remove_entry_resident_le [of c k]
  by (auto simp: l1_ok_def)

lemma l1_get_wf: "l1_wf c \<Longrightarrow> l1_get now k c = (r, c') \<Longrightarrow> l1_wf c'"
  using remove_entry_wf [of c k]
  by (auto simp: l1_get_def l1_wf_def Let_def split: option.splits if_splits)

lemma l1_get_ok: "l1_ok c \<Longrightarrow> l1_get now k c = (r, c') \<Longrightarrow> l1_ok c'"
  using remove_entry_ok [of c k]
  by (auto simp: l1_get_def l1_ok_def l1_wf_def resident_def Let_def split: option.splits if_splits)

lemma l1_get_lookup:
  "distinct (map fst (l1_store c)) \<Longrightarrow> l1_get now k c = (r, c') \<Longrightarrow>
   map_of (l1_store c') = (if r = None then (map_of (l1_store c))(k := None) else map_of (l1_store c))"
  by (auto simp: l1_get_def remove_entry_lookup Let_def fun_eq_iff split: option.splits if_splits)

text \<open>The three ways a put can end.\<close>

definition put_skipped :: "real \<Rightarrow> pyfloat option \<Rightarrow> pyfloat option \<Rightarrow> l1_cache \<Rightarrow> bool" where
  "put_skipped now rt ea c \<longleftrightarrow>
     \<not> isfinite (effective_expiry now rt ea c) \<or> pf_le (effective_expiry now rt ea c) (Fin now)"

definition new_entry :: "real \<Rightarrow> bytes \<Rightarrow> pyfloat option \<Rightarrow> pyfloat option \<Rightarrow> l1_cache \<Rightarrow> cache_entry" where
  "new_entry now v rt ea c =
     \<lparr>ce_value = v, ce_expires_at = effective_expiry now rt ea c, ce_size_bytes = estimate_size v\<rparr>"

definition old_size :: "string \<Rightarrow> l1_cache \<Rightarrow> int" where
  "old_size k c = (case map_of (l1_store c) k of None \<Rightarrow> 0 | Some e \<Rightarrow> ce_size_bytes e)"

lemma put_bytes_skipped: "put_skipped now rt ea c \<Longrightarrow> put_bytes now k v rt ea c = c"
  by (simp add: put_bytes_def put_skipped_def Let_def)

lemma put_bytes_oversize:
  "\<not> put_skipped now rt ea c \<Longrightarrow> estimate_size v > max_memory_bytes c \<Longrightarrow>
   put_bytes now k v rt ea c = remove_entry k c"
  by (simp add: put_bytes_def put_skipped_def Let_def)

lemma put_bytes_stored:
  assumes "l1_wf c" "\<not> put_skipped now rt ea c" "estimate_size v \<le> max_memory_bytes c"
  obtains xs ys where "l1_store c = xs @ ys"
    "l1_store (put_bytes now k v rt ea c)
       = move_to_end k (AList.update k (new_entry now v rt ea c) ys)"
    "current_memory_bytes (put_bytes now k v rt ea c)
       = current_memory_bytes c - old_size k c - od_weight ce_size_bytes xs + estimate_size v"
    "ys = [] \<or> current_memory_bytes (put_bytes now k v rt ea c) \<le> max_memory_bytes c"
    "xs = [] \<or> current_memory_bytes c - old_size k c + estimate_size v > max_memory_bytes c"
proof -
  let ?c1 = "c\<lparr>current_memory_bytes := current_memory_bytes c - old_size k c\<rparr>"
  have c1: "(case map_of (l1_store c) k of None \<Rightarrow> c
      | Some old \<Rightarrow> c\<lparr>current_memory_bytes := current_memory_bytes c - ce_size_bytes old\<rparr>) = ?c1"
    by (simp add: old_size_def split: option.split)
  have put: "put_bytes now k v rt ea c =
    (let c2 = evict_for_space (estimate_size v) ?c1
     in c2\<lparr>l1_store := move_to_end k (AList.update k (new_entry now v rt ea c) (l1_store c2)),
          current_memory_bytes := current_memory_bytes c2 + estimate_size v\<rparr>)"
    using assms(2,3) by (simp add: put_bytes_def put_skipped_def new_entry_def Let_def c1)
  have "distinct (map fst (l1_store ?c1))" using assms(1) by (simp add: l1_wf_def)
  then obtain xs ys where "l1_store ?c1 = xs @ ys" "l1_store (evict_for_space (estimate_size v) ?c1) = ys"
    "current_memory_bytes (evict_for_space (estimate_size v) ?c1)
       = current_memory_bytes ?c1 - od_weight ce_size_bytes xs"
    "ys = [] \<or> current_memory_bytes (evict_for_space (estimate_size v) ?c1) + estimate_size v \<le> max_memory_bytes ?c1"
    "xs = [] \<or> current_memory_bytes ?c1 + estimate_size v > max_memory_bytes ?c1"
    by (rule evict_for_space_split)
  then show ?thesis by (intro that [of xs ys]) (auto simp: put Let_def)
qed

lemma put_bytes_max [simp]: "max_memory_bytes (put_bytes now k v rt ea c) = max_memory_bytes c"
  by (simp add: put_bytes_def Let_def split: option.split)

lemma new_entry_ok: "\<not> put_skipped now rt ea c \<Longrightarrow> entry_ok (new_entry now v rt ea c)"
  by (simp add: entry_ok_def new_entry_def estimate_size_def put_skipped_def)

lemma stored_wf:
  assumes "distinct (map fst ys)" "\<forall>(k, e) \<in> set ys. entry_ok e" "entry_ok e"
  shows "distinct (map fst (AList.update k e ys)) \<and> (\<forall>(k, e) \<in> set (AList.update k e ys). entry_ok e)"
  using assms
proof (induction ys)
  case (Cons p ys)
  then show ?case by (cases p) (auto simp: AList.update_conv' dom_update)
qed simp

lemma put_bytes_wf:
  assumes "l1_wf c"
  shows "l1_wf (put_bytes now k v rt ea c)"
proof (cases "put_skipped now rt ea c")
  case True
  with assms show ?thesis by (simp add: put_bytes_skipped)
next
  case ns: False
  show ?thesis
  proof (cases "estimate_size v \<le> max_memory_bytes c")
    case True
    from put_bytes_stored [OF assms ns True, of k] obtain xs ys where
      "l1_store c = xs @ ys"
      "l1_store (put_bytes now k v rt ea c) = move_to_end k (AList.update k (new_entry now v rt ea c) ys)"
      by metis
    with assms stored_wf [of ys "new_entry now v rt ea c" k] new_entry_ok [OF ns] show ?thesis
      by (auto simp: l1_wf_def)
  next
    case False
    with ns assms show ?thesis by (simp add: put_bytes_oversize remove_entry_wf)
  qed
qed

lemma put_bytes_not_stored:
  assumes "put_skipped now rt ea c \<or> max_memory_bytes c < estimate_size v"
  shows "put_bytes now k v rt ea c = c \<or> put_bytes now k v rt ea c = remove_entry k c"
  using assms
  by (cases "put_skipped now rt ea c") (simp_all add: put_bytes_skipped put_bytes_oversize)

text \<open>
  What the byte counter is worth after a put on an exactly accounted cache: it never exceeds the
  budget, but it may miss up to the size of the entry that was replaced.
\<close>

definition accounted :: "string \<Rightarrow> bytes \<Rightarrow> l1_cache \<Rightarrow> l1_cache \<Rightarrow> bool" where
  "accounted k v c c' \<longleftrightarrow>
     current_memory_bytes c' \<le> max_memory_bytes c
   \<and> current_memory_bytes c' \<le> resident c'
   \<and> resident c' \<le> current_memory_bytes c' + old_size k c
   \<and> (old_size k c = 0 \<or> current_memory_bytes c - old_size k c + estimate_size v \<le> max_memory_bytes c
        \<longrightarrow> resident c' = current_memory_bytes c')"

lemma old_size_nonneg: "l1_wf c \<Longrightarrow> 0 \<le> old_size k c"
  by (auto simp: old_size_def entry_ok_nonneg dest: l1_wf_entry split: option.splits)

lemma put_stored_accounted:
  assumes ok: "l1_ok c" and ns: "\<not> put_skipped now rt ea c" and size: "estimate_size v \<le> max_memory_bytes c"
  shows "accounted k v c (put_bytes now k v rt ea c)"
proof -
  let ?c = "put_bytes now k v rt ea c"
  let ?w = "od_weight ce_size_bytes"
  have wf: "l1_wf c" and cur: "current_memory_bytes c = resident c"
    using ok by (auto simp: l1_ok_def)
  from put_bytes_stored [OF wf ns size, of k] obtain xs ys where
    st: "l1_store c = xs @ ys"
      "l1_store ?c = move_to_end k (AList.update k (new_entry now v rt ea c) ys)"
      "current_memory_bytes ?c = current_memory_bytes c - old_size k c - ?w xs + estimate_size v"
      "ys = [] \<or> current_memory_bytes ?c \<le> max_memory_bytes c"
      "xs = [] \<or> current_memory_bytes c - old_size k c + estimate_size v > max_memory_bytes c"
    by metis
  have d: "distinct (map fst ys)" "distinct (map fst (xs @ ys))"
    using wf st(1) by (auto simp: l1_wf_def)
  have res: "resident ?c = ?w ys + estimate_size v
      - (case map_of ys k of None \<Rightarrow> 0 | Some e \<Rightarrow> ce_size_bytes e)"
    using d(1) by (simp add: resident_def st(2) distinct_update od_weight_update new_entry_def)
  have c'cur: "current_memory_bytes ?c = ?w ys - old_size k c + estimate_size v"
    using st(1,3) cur by (simp add: resident_def)
  have split: "old_size k c = (case map_of xs k of
      Some e \<Rightarrow> ce_size_bytes e | None \<Rightarrow> (case map_of ys k of None \<Rightarrow> 0 | Some e \<Rightarrow> ce_size_bytes e))"
    by (simp add: old_size_def st(1) map_add_def split: option.split)
  have excl: "map_of xs k \<noteq> None \<Longrightarrow> map_of ys k = None"
    using d(2) by (auto simp: map_of_eq_None_iff)
  show ?thesis
    using res c'cur split excl st(4,5) old_size_nonneg [OF wf, of k] size
    unfolding accounted_def
    by (cases "map_of xs k"; cases "map_of ys k"; cases "ys = []") auto
qed

lemma put_bytes_accounted:
  assumes "l1_ok c"
  shows "accounted k v c (put_bytes now k v rt ea c)"
proof (cases "put_skipped now rt ea c \<or> max_memory_bytes c < estimate_size v")
  case True
  have wf: "l1_wf c" using assms by (simp add: l1_ok_def)
  with assms put_bytes_not_stored [OF True, of k] old_size_nonneg [OF wf, of k]
    remove_entry_accounting [OF wf, of k] remove_entry_resident_le [OF wf, of k]
  show ?thesis by (auto simp: accounted_def l1_ok_def)
next
  case False
  with put_stored_accounted [OF assms, of now rt ea v k] show ?thesis by auto
qed

lemma put_bytes_ok:
  assumes "l1_ok c"
    and "old_size k c = 0 \<or> current_memory_bytes c - old_size k c + estimate_size v \<le> max_memory_bytes c"
  shows "l1_ok (put_bytes now k v rt ea c)"
  using put_bytes_accounted [OF assms(1), of k v now rt ea] assms put_bytes_wf
  by (auto simp: l1_ok_def accounted_def)

lemma put_bytes_lookup:
  assumes "l1_wf c" "\<not> put_skipped now rt ea c" "estimate_size v \<le> max_memory_bytes c"
  shows "map_of (l1_store (put_bytes now k v rt ea c)) k = Some (new_entry now v rt ea c)"
  using put_bytes_stored [OF assms, of k] by (metis map_of_move_to_end update_conv fun_upd_same)

lemma map_of_suffix:
  "distinct (map fst (xs @ ys)) \<Longrightarrow> map_of ys k = Some e \<Longrightarrow> map_of (xs @ ys) k = Some e"
  by (induction xs) (auto dest: map_of_SomeD intro: rev_image_eqI)

lemma put_bytes_lookup_other:
  assumes "l1_wf c" "map_of (l1_store (put_bytes now k v rt ea c)) k' = Some e"
  shows "(k' = k \<and> e = new_entry now v rt ea c \<and> \<not> put_skipped now rt ea c)
       \<or> map_of (l1_store c) k' = Some e"
proof (cases "put_skipped now rt ea c \<or> max_memory_bytes c < estimate_size v")
  case True
  with assms(2) put_bytes_not_stored [OF True, of k] show ?thesis
    by (auto simp: remove_entry_lookup split: if_splits)
next
  case False
  then have size: "estimate_size v \<le> max_memory_bytes c" and ns: "\<not> put_skipped now rt ea c" by auto
  from put_bytes_stored [OF assms(1) ns size, of k] obtain xs ys where st: "l1_store c = xs @ ys"
    "l1_store (put_bytes now k v rt ea c) = move_to_end k (AList.update k (new_entry now v rt ea c) ys)"
    by metis
  have "distinct (map fst (xs @ ys))" using assms(1) st(1) by (simp add: l1_wf_def)
  note suffix = map_of_suffix [OF this, of k' e]
  from assms(2) have "((map_of ys)(k \<mapsto> new_entry now v rt ea c)) k' = Some e"
    by (simp only: st(2) map_of_move_to_end update_conv)
  with suffix ns show ?thesis by (cases "k' = k") (simp_all add: st(1) del: map_of_append)
qed

section \<open>The cache as a store\<close>

definition l1_lookup :: "l1_cache \<Rightarrow> string \<Rightarrow> bytes option" where
  "l1_lookup c k = map_option ce_value (map_of (l1_store c) k)"

interpretation l1: cache_store l1_lookup "\<lambda>(now, rt, ea). l1_get now"
  "\<lambda>(now, rt, ea) k v. put_bytes now k v rt ea" invalidate l1_wf
proof unfold_locales
  fix s s' :: l1_cache and t :: "real \<times> pyfloat option \<times> pyfloat option" and k k' v w r
  assume wf: "l1_wf s"
  obtain now rt ea where t: "t = (now, rt, ea)" by (cases t)
  show "l1_lookup s k = Some v" if "(case t of (now, rt, ea) \<Rightarrow> l1_get now) k s = (Some v, s')"
    using that by (auto simp: t l1_get_def l1_lookup_def Let_def split: option.splits if_splits)
  show "l1_lookup s' \<subseteq>\<^sub>m l1_lookup s" if "(case t of (now, rt, ea) \<Rightarrow> l1_get now) k s = (r, s')"
    using that l1_get_lookup [of s now k r s'] wf
    by (auto simp: t l1_lookup_def l1_wf_def map_le_def split: if_splits)
  show "k' = k \<and> w = v \<or> l1_lookup s k' = Some w"
    if "l1_lookup ((case t of (now, rt, ea) \<Rightarrow> \<lambda>k v. put_bytes now k v rt ea) k v s) k' = Some w"
    using that put_bytes_lookup_other [OF wf, of now k v rt ea k']
    by (auto simp: t l1_lookup_def new_entry_def)
  show "l1_lookup (invalidate k s) k = None" "l1_lookup (invalidate k s) \<subseteq>\<^sub>m l1_lookup s"
    by (auto simp: l1_lookup_def invalidate_def remove_entry_lookup map_le_def)
  show "l1_wf s'" if "(case t of (now, rt, ea) \<Rightarrow> l1_get now) k s = (r, s')"
    using that l1_get_wf [OF wf] by (auto simp: t)
  show "l1_wf ((case t of (now, rt, ea) \<Rightarrow> \<lambda>k v. put_bytes now k v rt ea) k v s)"
    using put_bytes_wf [OF wf] by (simp add: t)
  show "l1_wf (invalidate k s)"
    using remove_entry_wf [OF wf] by (simp add: invalidate_def)
qed

section \<open>Runs\<close>

text \<open>A call of a public method, with the time at which it runs.\<close>

datatype l1_op =
    OpGet real string
  | OpPut real string bytes "pyfloat option" "pyfloat option"
  | OpInvalidate string
  | OpClear
  | OpCleanup real

fun l1_step :: "l1_op \<Rightarrow> l1_cache \<Rightarrow> l1_cache" where
  "l1_step (OpGet now k) c = snd (l1_get now k c)"
| "l1_step (OpPut now k v rt ea) c = put_bytes now k v rt ea c"
| "l1_step (OpInvalidate k) c = invalidate k c"
| "l1_step OpClear c = l1_clear c"
| "l1_step (OpCleanup now) c = snd (cleanup_expired now c)"

definition l1_run :: "l1_op list \<Rightarrow> l1_cache \<Rightarrow> l1_cache" where
  "l1_run ops c = fold l1_step ops c"

text \<open>The counter is at most the resident bytes and at most the budget.\<close>

definition l1_bounded :: "l1_cache \<Rightarrow> bool" where
  "l1_bounded c \<longleftrightarrow> l1_wf c \<and> 0 \<le> max_memory_bytes c
     \<and> current_memory_bytes c \<le> resident c \<and> current_memory_bytes c \<le> max_memory_bytes c"

lemma make_l1_bounded: "0 \<le> mb \<Longrightarrow> l1_bounded (make_l1 mb buf ns)"
  by (simp add: l1_bounded_def make_l1_def l1_wf_def resident_def)

lemma remove_entry_cur_le: "l1_wf c \<Longrightarrow> current_memory_bytes (remove_entry k c) \<le> current_memory_bytes c"
  by (auto simp: remove_entry_def entry_ok_nonneg dest: l1_wf_entry split: option.splits)

lemma remove_entry_bounded: "l1_bounded c \<Longrightarrow> l1_bounded (remove_entry k c)"
  using remove_entry_wf [of c k] remove_entry_accounting [of c k] remove_entry_cur_le [of c k]
  by (auto simp: l1_bounded_def)

lemma l1_get_bounded:
  assumes "l1_bounded c"
  shows "l1_bounded (snd (l1_get now k c))"
proof (cases "map_of (l1_store c) k")
  case None
  with assms show ?thesis by (simp add: l1_get_def l1_bounded_def resident_def l1_wf_def)
next
  case (Some e)
  have "l1_bounded (remove_entry k c)" using assms by (rule remove_entry_bounded)
  with Some assms show ?thesis
    by (simp add: l1_get_def l1_bounded_def resident_def l1_wf_def Let_def)
qed

lemma purge_one_store: "l1_store (purge_one k c) = AList.delete k (l1_store c)"
  by (auto simp: purge_one_def Let_def remove_entry_def map_of_eq_None_iff split: option.split)

lemma purge_store:
  "l1_store (fold purge_one ks c) = filter (\<lambda>p. fst p \<notin> set ks) (l1_store c)"
  by (induction ks arbitrary: c) (simp_all add: purge_one_store delete_filter conj_commute)

lemma purge_invariant:
  assumes "P c" "\<And>c k. P c \<Longrightarrow> P (purge_one k c)"
  shows "P (fold purge_one ks c)"
  using assms(1) by (induction ks arbitrary: c) (simp_all add: assms(2))

lemma purge_one_count: "l1_expired_evictions (purge_one k c) = l1_expired_evictions c + 1"
  by (simp add: purge_one_def remove_entry_def Let_def split: option.split)

lemma purge_counts: "l1_expired_evictions (fold purge_one ks c) = l1_expired_evictions c + int (length ks)"
  by (induction ks arbitrary: c) (simp_all add: purge_one_count)

lemma purge_one_bounded: "l1_bounded c \<Longrightarrow> l1_bounded (purge_one k c)"
  using remove_entry_bounded [of c k]
  by (simp add: purge_one_def l1_bounded_def l1_wf_def resident_def Let_def)

lemma purge_one_ok: "l1_ok c \<Longrightarrow> l1_ok (purge_one k c)"
  using remove_entry_ok [of c k] by (simp add: purge_one_def l1_ok_def l1_wf_def resident_def Let_def)

lemma cleanup_store:
  assumes "distinct (map fst (l1_store c))"
  shows "l1_store (snd (cleanup_expired now c)) = filter (\<lambda>(k, e). \<not> is_expired now e) (l1_store c)"
proof -
  let ?ks = "map fst (filter (\<lambda>(k, e). pf_le (ce_expires_at e) (Fin now)) (l1_store c))"
  have ks: "k \<in> set ?ks \<longleftrightarrow> (\<exists>e. (k, e) \<in> set (l1_store c) \<and> is_expired now e)" for k
    by (auto simp: is_expired_def image_iff intro: rev_bexI)
  have "fst p \<in> set ?ks \<longleftrightarrow> is_expired now (snd p)" if "p \<in> set (l1_store c)" for p
    unfolding ks using that eq_key_imp_eq_value [OF assms] by (metis prod.collapse)
  then have "filter (\<lambda>p. fst p \<notin> set ?ks) (l1_store c) = filter (\<lambda>(k, e). \<not> is_expired now e) (l1_store c)"
    by (intro filter_cong) (auto simp: case_prod_beta)
  then show ?thesis by (simp add: cleanup_expired_def Let_def purge_store)
qed

lemma cleanup_bounded: "l1_bounded c \<Longrightarrow> l1_bounded (snd (cleanup_expired now c))"
  by (simp add: cleanup_expired_def Let_def purge_invariant purge_one_bounded)

lemma cleanup_ok: "l1_ok c \<Longrightarrow> l1_ok (snd (cleanup_expired now c))"
  by (simp add: cleanup_expired_def Let_def purge_invariant purge_one_ok)

lemma put_bytes_bounded:
  assumes "l1_bounded c"
  shows "l1_bounded (put_bytes now k v rt ea c)"
proof (cases "put_skipped now rt ea c \<or> max_memory_bytes c < estimate_size v")
  case True
  with assms put_bytes_not_stored [OF True, of k] remove_entry_bounded [of c k] show ?thesis by auto
next
  case False
  let ?c = "put_bytes now k v rt ea c" and ?w = "od_weight ce_size_bytes"
  have ns: "\<not> put_skipped now rt ea c" and size: "estimate_size v \<le> max_memory_bytes c"
    using False by auto
  have wf: "l1_wf c" using assms by (simp add: l1_bounded_def)
  from put_bytes_stored [OF wf ns size, of k] obtain xs ys where st: "l1_store c = xs @ ys"
      "l1_store ?c = move_to_end k (AList.update k (new_entry now v rt ea c) ys)"
      "current_memory_bytes ?c = current_memory_bytes c - old_size k c - ?w xs + estimate_size v"
      "ys = [] \<or> current_memory_bytes ?c \<le> max_memory_bytes c" by metis
  have d: "distinct (map fst ys)" using wf st(1) by (simp add: l1_wf_def)
  have res: "resident ?c = ?w ys + estimate_size v
      - (case map_of ys k of None \<Rightarrow> 0 | Some e \<Rightarrow> ce_size_bytes e)"
    using d by (simp add: resident_def st(2) distinct_update od_weight_update new_entry_def)
  have old: "(case map_of ys k of None \<Rightarrow> 0 | Some e \<Rightarrow> ce_size_bytes e) \<le> old_size k c"
  proof (cases "map_of ys k")
    case None
    with old_size_nonneg [OF wf, of k] show ?thesis by simp
  next
    case (Some e)
    have "distinct (map fst (xs @ ys))" using wf by (simp only: l1_wf_def st(1))
    from map_of_suffix [OF this Some] Some show ?thesis by (simp add: old_size_def st(1) del: map_of_append)
  qed
  have cur: "current_memory_bytes c \<le> ?w xs + ?w ys"
    using assms by (simp add: l1_bounded_def resident_def st(1))
  have "current_memory_bytes ?c \<le> resident ?c" using res old cur st(3) by linarith
  moreover have "current_memory_bytes ?c \<le> max_memory_bytes c"
    using st(3,4) cur size old_size_nonneg [OF wf, of k] by auto
  ultimately show ?thesis
    using put_bytes_wf [OF wf, of now k v rt ea] assms by (simp add: l1_bounded_def)
qed

lemma l1_step_bounded: "l1_bounded c \<Longrightarrow> l1_bounded (l1_step op c)"
proof (cases op)
  case OpClear
  then show "l1_bounded c \<Longrightarrow> ?thesis" by (simp add: l1_clear_def l1_bounded_def l1_wf_def resident_def)
qed (simp_all add: l1_get_bounded put_bytes_bounded cleanup_bounded invalidate_def remove_entry_bounded)

lemma l1_run_bounded: "l1_bounded c \<Longrightarrow> l1_bounded (l1_run ops c)"
  by (induction ops arbitrary: c) (simp_all add: l1_run_def l1_step_bounded)

lemma l1_step_max [simp]: "max_memory_bytes (l1_step op c) = max_memory_bytes c"
proof (cases op)
  case (OpCleanup now)
  have "max_memory_bytes (fold purge_one ks c) = max_memory_bytes c" for ks
    by (induction ks arbitrary: c) (simp_all add: purge_one_def Let_def)
  then show ?thesis by (simp add: OpCleanup cleanup_expired_def Let_def)
qed (simp_all add: l1_get_def Let_def l1_clear_def invalidate_def split: option.split)

text \<open>A run in which no put replaces an entry while the budget is short.\<close>

fun calm :: "l1_op list \<Rightarrow> l1_cache \<Rightarrow> bool" where
  "calm [] c \<longleftrightarrow> True"
| "calm (op # ops) c \<longleftrightarrow>
     (case op of
        OpPut now k v rt ea \<Rightarrow>
          old_size k c = 0 \<or> current_memory_bytes c - old_size k c + estimate_size v \<le> max_memory_bytes c
      | _ \<Rightarrow> True) \<and> calm ops (l1_step op c)"

lemma calm_run_ok: "l1_ok c \<Longrightarrow> 0 \<le> max_memory_bytes c \<Longrightarrow> calm ops c \<Longrightarrow> l1_ok (l1_run ops c)"
proof (induction ops arbitrary: c)
  case (Cons op ops)
  have "l1_ok (l1_step op c)"
  proof (cases op)
    case (OpGet now k)
    with Cons.prems(1) show ?thesis by (cases "l1_get now k c") (simp add: l1_get_ok)
  next
    case (OpPut now k v rt ea)
    with Cons.prems show ?thesis by (simp add: put_bytes_ok)
  next
    case OpClear
    with Cons.prems show ?thesis by (simp add: l1_clear_def l1_ok_def l1_wf_def resident_def)
  qed (use Cons.prems in \<open>simp_all add: invalidate_def remove_entry_ok cleanup_ok\<close>)
  with Cons show ?case by (simp add: l1_run_def)
qed (simp add: l1_run_def)

section \<open>Which write is served\<close>

text \<open>\<open>erases k c op\<close>: the call leaves no older entry of \<open>k\<close> (only the TTL buffer of \<open>c\<close> matters).\<close>

fun erases :: "string \<Rightarrow> l1_cache \<Rightarrow> l1_op \<Rightarrow> bool" where
  "erases k c (OpPut now k' v rt ea) \<longleftrightarrow> k' = k \<and> \<not> put_skipped now rt ea c"
| "erases k c (OpInvalidate k') \<longleftrightarrow> k' = k"
| "erases k c OpClear \<longleftrightarrow> True"
| "erases k c op \<longleftrightarrow> False"

lemma buffer_only:
  assumes "ttl_buffer_seconds c' = ttl_buffer_seconds c"
  shows "put_skipped now rt ea c' = put_skipped now rt ea c"
    "new_entry now v rt ea c' = new_entry now v rt ea c" "erases k c' op = erases k c op"
  using assms by (cases op; simp add: put_skipped_def new_entry_def effective_expiry_def)+

lemma remove_entry_buffer [simp]: "ttl_buffer_seconds (remove_entry k c) = ttl_buffer_seconds c"
  by (simp add: remove_entry_def split: option.split)

lemma put_bytes_buffer [simp]:
  "ttl_buffer_seconds (put_bytes now k v rt ea c) = ttl_buffer_seconds c"
  by (simp add: put_bytes_def Let_def split: option.split)

lemma l1_step_buffer [simp]: "ttl_buffer_seconds (l1_step op c) = ttl_buffer_seconds c"
proof (cases op)
  case (OpCleanup now)
  have "ttl_buffer_seconds (fold purge_one ks c) = ttl_buffer_seconds c" for ks
    by (induction ks arbitrary: c) (simp_all add: purge_one_def Let_def)
  then show ?thesis by (simp add: OpCleanup cleanup_expired_def Let_def)
qed (simp_all add: l1_get_def Let_def l1_clear_def invalidate_def split: option.split)

lemma l1_run_buffer [simp]: "ttl_buffer_seconds (l1_run ops c) = ttl_buffer_seconds c"
  by (induction ops arbitrary: c) (simp_all add: l1_run_def)

lemma put_bytes_erases:
  assumes "l1_wf c" "\<not> put_skipped now rt ea c" "map_of (l1_store (put_bytes now k v rt ea c)) k = Some e"
  shows "e = new_entry now v rt ea c"
proof (cases "estimate_size v \<le> max_memory_bytes c")
  case True
  with assms put_bytes_lookup [OF assms(1,2) True, of k] show ?thesis by simp
next
  case False
  with assms show ?thesis by (simp add: put_bytes_oversize remove_entry_lookup)
qed

lemma cleanup_lookup:
  assumes "distinct (map fst (l1_store c))"
  shows "map_of (l1_store (snd (cleanup_expired now c))) k =
    (case map_of (l1_store c) k of None \<Rightarrow> None | Some e \<Rightarrow> if is_expired now e then None else Some e)"
proof -
  have "map_of (filter (\<lambda>(k, e). P e) d) k = (case map_of d k of None \<Rightarrow> None
      | Some e \<Rightarrow> if P e then Some e else None)" if "distinct (map fst d)" for P d
    using that by (induction d) (auto simp: map_of_eq_None_iff split: option.split)
  from this [OF assms, of "\<lambda>e. \<not> is_expired now e"] show ?thesis
    by (simp add: cleanup_store [OF assms] split: option.split)
qed

lemma l1_step_source:
  assumes wf: "l1_wf c" and after: "map_of (l1_store (l1_step op c)) k = Some e"
  shows "(\<exists>now v rt ea. op = OpPut now k v rt ea \<and> \<not> put_skipped now rt ea c \<and> e = new_entry now v rt ea c)
       \<or> (\<not> erases k c op \<and> map_of (l1_store c) k = Some e)"
proof (cases op)
  case (OpGet now k')
  have "distinct (map fst (l1_store c))" using wf by (simp add: l1_wf_def)
  from l1_get_lookup [OF this, of now k'] OpGet after show ?thesis
    by (cases "l1_get now k' c") (auto split: if_splits)
next
  case (OpPut now k' v rt ea)
  show ?thesis
  proof (cases "k' = k \<and> \<not> put_skipped now rt ea c")
    case True
    with OpPut after put_bytes_erases [OF wf, of now rt ea k v e] show ?thesis by simp
  next
    case False
    with OpPut after put_bytes_lookup_other [OF wf, of now k' v rt ea k e] show ?thesis by auto
  qed
next
  case (OpCleanup now)
  have "distinct (map fst (l1_store c))" using wf by (simp add: l1_wf_def)
  from cleanup_lookup [OF this, of now k] OpCleanup after show ?thesis
    by (simp split: option.splits if_splits)
qed (use after in \<open>auto simp: invalidate_def remove_entry_lookup l1_clear_def split: if_splits\<close>)

lemma l1_run_snoc: "l1_run (ops @ [op]) c = l1_step op (l1_run ops c)"
  by (simp add: l1_run_def)

lemma l1_run_source:
  assumes "0 \<le> mb" "map_of (l1_store (l1_run ops (make_l1 mb buf ns))) k = Some e"
  shows "\<exists>pre now v rt ea post. ops = pre @ OpPut now k v rt ea # post
    \<and> \<not> put_skipped now rt ea (make_l1 mb buf ns) \<and> e = new_entry now v rt ea (make_l1 mb buf ns)
    \<and> (\<forall>op \<in> set post. \<not> erases k (make_l1 mb buf ns) op)"
  using assms(2)
proof (induction ops rule: rev_induct)
  case Nil
  then show ?case by (simp add: l1_run_def make_l1_def)
next
  case (snoc op ops)
  let ?c = "make_l1 mb buf ns"
  have wf: "l1_wf (l1_run ops ?c)"
    using l1_run_bounded [OF make_l1_bounded [OF assms(1)]] by (simp add: l1_bounded_def)
  note same = buffer_only [OF l1_run_buffer [of ops ?c]]
  from l1_step_source [OF wf, of op k e] snoc.prems consider
      (put) now v rt ea where "op = OpPut now k v rt ea" "\<not> put_skipped now rt ea ?c" "e = new_entry now v rt ea ?c"
    | (old) "\<not> erases k ?c op" "map_of (l1_store (l1_run ops ?c)) k = Some e"
    by (auto simp: l1_run_snoc same)
  then show ?case
  proof cases
    case put
    then show ?thesis by (intro exI [of _ ops] exI [of _ "[]"]) auto
  next
    case old
    from snoc.IH [OF old(2)] obtain pre now v rt ea post where
      "ops = pre @ OpPut now k v rt ea # post" "\<not> put_skipped now rt ea ?c" "e = new_entry now v rt ea ?c"
      "\<forall>op \<in> set post. \<not> erases k ?c op" by blast
    with old(1) show ?thesis
      by (intro exI [of _ pre] exI [of _ now] exI [of _ v] exI [of _ rt] exI [of _ ea] exI [of _ "post @ [op]"]) auto
  qed
qed

lemma l1_get_hit:
  "l1_get now k c = (Some v, c') \<longleftrightarrow>
   (\<exists>e. map_of (l1_store c) k = Some e \<and> \<not> is_expired now e \<and> v = ce_value e
      \<and> c' = c\<lparr>l1_store := move_to_end k (l1_store c), l1_hits := l1_hits c + 1\<rparr>)"
  by (auto simp: l1_get_def Let_def split: option.split)

lemma put_then_get:
  assumes "l1_wf c" "effective_expiry t rt ea c = Fin x" "t < x" "int (length v) \<le> max_memory_bytes c"
  shows "fst (l1_get now k (put_bytes t k v rt ea c)) = (if now < x then Some v else None)"
proof -
  have "\<not> put_skipped t rt ea c" using assms(2,3) by (simp add: put_skipped_def)
  from put_bytes_lookup [OF assms(1) this, of v k] assms show ?thesis
    by (simp add: l1_get_def is_expired_def new_entry_def estimate_size_def Let_def)
qed

section \<open>Properties\<close>

text \<open>
  Memory accounting of \<^verbatim>\<open>put\<close> on an exactly accounted cache: the counter stays within the budget and
  never exceeds what is resident, the bytes it misses are at most the size of the replaced entry, and
  it is exact unless the put replaces a non-empty entry while eviction is needed.
\<close>

theorem l1_put_accounting:
  assumes "l1_ok c"
  shows "current_memory_bytes (put_bytes now k v rt ea c) \<le> max_memory_bytes c
       \<and> current_memory_bytes (put_bytes now k v rt ea c) \<le> resident (put_bytes now k v rt ea c)
       \<and> resident (put_bytes now k v rt ea c)
           \<le> current_memory_bytes (put_bytes now k v rt ea c) + old_size k c
       \<and> (old_size k c = 0
            \<or> current_memory_bytes c - old_size k c + estimate_size v \<le> max_memory_bytes c
          \<longrightarrow> l1_ok (put_bytes now k v rt ea c))"
  using put_bytes_accounted [OF assms, of k v now rt ea] put_bytes_ok [OF assms]
  by (simp add: accounted_def)

theorem l1_put_accounting_witness:
  "current_memory_bytes (put_bytes 0 ''k'' [1, 2] None None (make_l1 1 1 ''ns'')) \<le> 1048576"
  using l1_put_accounting [of "make_l1 1 1 ''ns''" 0 "''k''" "[1, 2]" None None]
  by (simp add: l1_ok_def l1_wf_def resident_def make_l1_def)

text \<open>
  C17: Over every sequence of calls on a new cache the counter stays at or below both the budget and the
  resident bytes; if no put replaces a non-empty entry under memory pressure, it is exact, and the
  resident bytes stay within the budget.
\<close>

theorem l1_memory_bounds:
  assumes "0 \<le> mb"
  shows "current_memory_bytes (l1_run ops (make_l1 mb buf ns)) \<le> mb * 1048576
       \<and> current_memory_bytes (l1_run ops (make_l1 mb buf ns)) \<le> resident (l1_run ops (make_l1 mb buf ns))
       \<and> (calm ops (make_l1 mb buf ns) \<longrightarrow> l1_ok (l1_run ops (make_l1 mb buf ns)))"
proof -
  have "max_memory_bytes (l1_run ops c) = max_memory_bytes c" for c
    by (induction ops arbitrary: c) (simp_all add: l1_run_def)
  with l1_run_bounded [OF make_l1_bounded [OF assms], of ops buf ns]
    calm_run_ok [of "make_l1 mb buf ns" ops] assms
  show ?thesis by (simp add: l1_bounded_def l1_ok_def l1_wf_def resident_def make_l1_def)
qed

theorem l1_memory_bounds_witness:
  "current_memory_bytes (l1_run [OpPut 0 ''k'' [1, 2] None None, OpGet 1 ''k''] (make_l1 2 1 ''ns'')) \<le> 2097152"
  using l1_memory_bounds [of 2 "[OpPut 0 ''k'' [1, 2] None None, OpGet 1 ''k'']" 1 "''ns''"] by simp

text \<open>
  The accounting of \<^verbatim>\<open>put\<close> is not exact when a key that is next in line for eviction is replaced:
  its size is subtracted once by \<^verbatim>\<open>put\<close> and again by \<^verbatim>\<open>_evict_for_space\<close>. With a budget of 10 bytes, an
  entry of 4 bytes and one of 6, replacing the former by 6 bytes leaves 12 resident bytes, which the
  counter reports as 8.
\<close>

theorem l1_replace_overshoots_budget:
  "let c0 = (make_l1 0 1 ''ns'')\<lparr>max_memory_bytes := 10\<rparr>;
       c = l1_run [OpPut 0 ''a'' [1, 2, 3, 4] None None, OpPut 0 ''b'' [1, 2, 3, 4, 5, 6] None None,
                   OpPut 0 ''a'' [1, 2, 3, 4, 5, 6] None None] c0
   in resident c = 12 \<and> current_memory_bytes c = 8 \<and> max_memory_bytes c = 10"
  by (simp add: l1_run_def make_l1_def put_bytes_def effective_expiry_def estimate_size_def
      evict_for_space_def move_to_end_def resident_def Let_def)

text \<open>
  C7: Whatever sequence of calls a new cache has seen, a hit returns the value of a put of that key whose
  expiry is finite and still ahead, and no call since then invalidated the key, cleared the cache or
  effectively replaced the value: the cache never serves an expired, invalidated or overwritten value.
\<close>

theorem l1_serves_latest_write:
  assumes "0 \<le> mb" "l1_get now k (l1_run ops (make_l1 mb buf ns)) = (Some v, c')"
  shows "\<exists>pre t rt ea post x. ops = pre @ OpPut t k v rt ea # post
    \<and> effective_expiry t rt ea (make_l1 mb buf ns) = Fin x \<and> now < x
    \<and> (\<forall>op \<in> set post. \<not> erases k (make_l1 mb buf ns) op)"
proof -
  from assms(2) obtain e where e: "map_of (l1_store (l1_run ops (make_l1 mb buf ns))) k = Some e"
    "\<not> is_expired now e" "v = ce_value e" by (auto simp: l1_get_hit)
  from l1_run_source [OF assms(1) e(1)] obtain pre t w rt ea post where
    *: "ops = pre @ OpPut t k w rt ea # post" "\<not> put_skipped t rt ea (make_l1 mb buf ns)"
      "e = new_entry t w rt ea (make_l1 mb buf ns)" "\<forall>op \<in> set post. \<not> erases k (make_l1 mb buf ns) op"
    by blast
  from *(2) obtain x where "effective_expiry t rt ea (make_l1 mb buf ns) = Fin x"
    by (auto simp: put_skipped_def isfinite_iff)
  with * e(2,3) show ?thesis by (fastforce simp: new_entry_def is_expired_def)
qed

theorem l1_serves_latest_write_witness:
  "\<exists>pre t rt ea post x.
     [OpPut 0 ''k'' [7] (Some (Fin 10)) None, OpCleanup 2] = pre @ OpPut t ''k'' [7] rt ea # post
   \<and> effective_expiry t rt ea (make_l1 1 1 ''ns'') = Fin x \<and> 5 < x
   \<and> filter (erases ''k'' (make_l1 1 1 ''ns'')) post = []"
proof -
  have "fst (l1_get 5 ''k'' (l1_run [OpPut 0 ''k'' [7] (Some (Fin 10)) None, OpCleanup 2]
      (make_l1 1 1 ''ns''))) = Some [7]"
    by (simp add: l1_run_def make_l1_def put_bytes_def effective_expiry_def estimate_size_def
        evict_for_space_def move_to_end_def cleanup_expired_def l1_get_def is_expired_def Let_def)
  then show ?thesis
    using l1_serves_latest_write [of 1 5 "''k''" "[OpPut 0 ''k'' [7] (Some (Fin 10)) None, OpCleanup 2]" 1 "''ns''" "[7]"]
    by (metis prod.collapse zero_le_one filter_False)
qed

text \<open>
  A put that is neither skipped nor larger than the whole budget is served until its effective
  expiry (write time plus TTL less the buffer) and not from then on.
\<close>

theorem l1_get_after_put:
  assumes "l1_wf c" "effective_expiry t rt ea c = Fin x" "t < x" "int (length v) \<le> max_memory_bytes c"
  shows "fst (l1_get now k (put_bytes t k v rt ea c)) = (if now < x then Some v else None)"
  using assms by (rule put_then_get)

theorem l1_get_after_put_witness:
  "fst (l1_get 8 ''k'' (put_bytes 0 ''k'' [7] (Some (Fin 10)) None (make_l1 1 1 ''ns''))) = Some [7]
 \<and> fst (l1_get 9 ''k'' (put_bytes 0 ''k'' [7] (Some (Fin 10)) None (make_l1 1 1 ''ns''))) = None"
  using l1_get_after_put [of "make_l1 1 1 ''ns''" 0 "Some (Fin 10)" None 9 "[7]" 8 "''k''"]
    l1_get_after_put [of "make_l1 1 1 ''ns''" 0 "Some (Fin 10)" None 9 "[7]" 9 "''k''"]
  by (simp add: make_l1_def l1_wf_def effective_expiry_def)

text \<open>
  A put whose TTL does not exceed the buffer (or is not finite) is skipped and leaves an older value
  of the same key in place, which is then served in the place of the newly written value.
\<close>

theorem l1_skipped_put_serves_stale:
  assumes "put_skipped now rt ea c"
  shows "l1_get now' k (put_bytes now k v rt ea c) = l1_get now' k c"
  using put_bytes_skipped [OF assms] by simp

theorem l1_skipped_put_serves_stale_witness:
  "fst (l1_get 2 ''k'' (put_bytes 1 ''k'' [8] (Some (Fin 1)) None
     (put_bytes 0 ''k'' [7] (Some (Fin 10)) None (make_l1 1 1 ''ns'')))) = Some [7]"
  using l1_skipped_put_serves_stale [of 1 "Some (Fin 1)" None
      "put_bytes 0 ''k'' [7] (Some (Fin 10)) None (make_l1 1 1 ''ns'')" 2 "''k''" "[8]"]
    put_then_get [of "make_l1 1 1 ''ns''" 0 "Some (Fin 10)" None 9 "[7]" 2 "''k''"]
  by (simp add: make_l1_def l1_wf_def effective_expiry_def put_skipped_def)

text \<open>
  \<^verbatim>\<open>cleanup_expired\<close> removes exactly the expired entries, returns how many there were, adds that number
  to the expiry counter and keeps exact accounting.
\<close>

theorem l1_cleanup_exact:
  assumes "l1_ok c" "cleanup_expired now c = (n, c')"
  shows "l1_ok c'
    \<and> map_of (l1_store c') k
        = (case map_of (l1_store c) k of None \<Rightarrow> None | Some e \<Rightarrow> if is_expired now e then None else Some e)
    \<and> n + length (l1_store c') = length (l1_store c)
    \<and> l1_expired_evictions c' = l1_expired_evictions c + int n"
proof -
  have d: "distinct (map fst (l1_store c))" using assms(1) by (simp add: l1_ok_def l1_wf_def)
  have n: "n = length (filter (\<lambda>(k, e). is_expired now e) (l1_store c))" and c': "c' = snd (cleanup_expired now c)"
    using assms(2) by (auto simp: cleanup_expired_def is_expired_def Let_def)
  have "n + length (l1_store c') = length (l1_store c)"
    unfolding c' n cleanup_store [OF d] case_prod_beta'
    by (rule sum_length_filter_compl)
  moreover have "l1_expired_evictions c' = l1_expired_evictions c + int n"
    using assms(2) by (auto simp: cleanup_expired_def Let_def purge_counts)
  ultimately show ?thesis
    using cleanup_ok [OF assms(1), of now] cleanup_lookup [OF d, of now k] by (simp add: c')
qed

theorem l1_cleanup_exact_witness:
  "map_of (l1_store (snd (cleanup_expired 20 (put_bytes 0 ''k'' [7] (Some (Fin 10)) None (make_l1 1 1 ''ns''))))) ''k'' = None"
proof -
  let ?c = "put_bytes 0 ''k'' [7] (Some (Fin 10)) None (make_l1 1 1 ''ns'')"
  have "l1_ok ?c" by (rule put_bytes_ok) (simp_all add: l1_ok_def l1_wf_def resident_def make_l1_def old_size_def)
  moreover have "map_of (l1_store ?c) ''k'' = Some \<lparr>ce_value = [7], ce_expires_at = Fin 9, ce_size_bytes = 1\<rparr>"
    by (simp add: make_l1_def put_bytes_def effective_expiry_def estimate_size_def
        evict_for_space_def move_to_end_def Let_def)
  ultimately show ?thesis
    using l1_cleanup_exact [of ?c 20 "fst (cleanup_expired 20 ?c)" "snd (cleanup_expired 20 ?c)" "''k''"]
    by (simp add: is_expired_def)
qed

section \<open>The manager hands out one cache per namespace\<close>

definition get_caches :: "(string \<times> int option) list \<Rightarrow> l1_manager \<Rightarrow> l1_manager" where
  "get_caches reqs m = fold (\<lambda>(ns, b) m. snd (get_cache ns b m)) reqs m"

lemma get_cache_keeps:
  "map_of (caches m) ns = Some c \<Longrightarrow> map_of (caches (snd (get_cache ns' b m))) ns = Some c"
  by (auto simp: get_cache_def Let_def update_conv split: option.split)

lemma get_caches_keeps:
  "map_of (caches m) ns = Some c \<Longrightarrow> map_of (caches (get_caches reqs m)) ns = Some c"
  by (induction reqs arbitrary: m) (auto simp: get_caches_def get_cache_keeps)

text \<open>
  The first configuration of a namespace wins: whatever namespaces and budgets are requested
  afterwards, a later request for the namespace returns the same cache, whatever budget it names.
\<close>

theorem first_configuration_wins:
  "fst (get_cache ns b (get_caches reqs (snd (get_cache ns a m)))) = fst (get_cache ns a m)"
proof -
  have "map_of (caches (snd (get_cache ns a m))) ns = Some (fst (get_cache ns a m))"
    by (simp add: get_cache_def Let_def update_conv split: option.split)
  from get_caches_keeps [OF this] show ?thesis by (simp add: get_cache_def)
qed

lemma cleanup_pass_lookup:
  "map_of (caches (snd (cleanup_pass now m))) ns
     = map_option (\<lambda>c. snd (cleanup_expired now c)) (map_of (caches m) ns)"
  by (simp add: cleanup_pass_def map_of_map)

lemma clear_all_lookup:
  "map_of (caches (clear_all m)) ns = map_option l1_clear (map_of (caches m) ns)"
  by (simp add: clear_all_def map_of_map)

lemma collect_stats_total:
  "\<forall>(ns, c) \<in> set cs. max_memory_bytes c \<noteq> 0 \<Longrightarrow> \<exists>r. collect_stats cs = Inr r \<and> map fst r = map fst cs"
proof (induction cs)
  case (Cons p cs)
  then obtain r where "collect_stats cs = Inr r" "map fst r = map fst cs" by auto
  with Cons.prems show ?case by (cases p) (auto simp: l1_get_stats_def Let_def)
qed simp

end
