(* ===== verification/Object_Cache.thy ===== *)
theory Object_Cache
  imports Cache_Contract
begin

text \<open>
  \<^verbatim>\<open>object_cache.py\<close>: the in-process cache of object references behind \<^verbatim>\<open>@cache.local()\<close> and the
  backend-less mode, with its entry and byte bounds and stale-while-revalidate refresh. Objects are
  identified by their \<^verbatim>\<open>id\<close>, an index into the heap of the call; each reading of \<^verbatim>\<open>time.monotonic()\<close> is an
  argument, and so is the jitter drawn by \<^verbatim>\<open>random.uniform\<close>. Public methods run under the instance lock.
\<close>

section \<open>Size estimation\<close>

text \<open>Builtin containers with their members; everything else is counted shallow (\<^verbatim>\<open>sys.getsizeof\<close>).\<close>

datatype pyobj =
    PyDict (shallow: nat) "nat list" "nat list"
  | PySeq (shallow: nat) "nat list"
  | PyAtom (shallow: nat)

type_synonym heap = "pyobj list"

fun members :: "pyobj \<Rightarrow> nat list" where
  "members (PyDict n ks vs) = ks @ vs"
| "members (PySeq n xs) = xs"
| "members (PyAtom n) = []"

text \<open>
  The loop of \<^verbatim>\<open>_estimate_object_size\<close>: \<open>seen\<close>, and the stack with its top first, so that extending the
  Python list prepends the reversed members. An id outside the heap denotes no object.
\<close>

function size_loop :: "heap \<Rightarrow> nat list \<Rightarrow> nat list \<Rightarrow> int \<Rightarrow> int" where
  "size_loop h seen [] tot = tot"
| "size_loop h seen (i # stack) tot =
     (if i \<in> set seen \<or> i \<ge> length h then size_loop h seen stack tot
      else size_loop h (i # seen) (rev (members (h ! i)) @ stack) (tot + int (shallow (h ! i))))"
  by pat_completeness auto

lemma unseen_nonempty:
  "i \<notin> set seen \<Longrightarrow> \<not> length (h :: heap) \<le> i \<Longrightarrow>
   card ({..<length h} - set seen) - Suc 0 < card ({..<length h} - set seen)"
  by (metis DiffI card_gt_0_iff diff_less empty_iff finite_Diff finite_lessThan lessThan_iff
      not_le_imp_less zero_less_Suc)

termination size_loop
  by (relation "(\<lambda>(h, seen, stack, tot). card ({..<length h} - set seen))
        <*mlex*> measure (\<lambda>(h, seen, stack, tot). length stack)")
     (auto simp: wf_mlex mlex_leq intro!: mlex_less unseen_nonempty)

definition estimate_object_size :: "heap \<Rightarrow> nat \<Rightarrow> int" where
  "estimate_object_size h obj = size_loop h [] [obj] 0"

declare size_loop.simps [simp del]

section \<open>Entries and the cache\<close>

record oc_entry =
  oe_value :: nat
  oe_expires_at :: real
  oe_cached_at :: real
  oe_size_bytes :: int
  oe_generation :: int

record object_cache =
  max_entries :: "int option"
  max_size_bytes :: "int option"
  swr_threshold_ratio :: real
  oc_store :: "(string, oc_entry) odict"
  oc_hits :: int
  oc_misses :: int
  current_size_bytes :: int
  refreshing :: "(string, int) odict"
  generation :: int

datatype oc_error = NoBound | BadMaxEntries int | BadMaxSize int | BadRatio pyfloat | BadTtl pyfloat

fun below_one :: "int option \<Rightarrow> bool" where
  "below_one None = False"
| "below_one (Some n) = (n < 1)"

definition make_object_cache ::
  "int option \<Rightarrow> int option \<Rightarrow> pyfloat \<Rightarrow> oc_error + object_cache" where
  "make_object_cache me ms ratio =
     (if me = None \<and> ms = None then Inl NoBound
      else if below_one me then Inl (BadMaxEntries (the me))
      else if below_one ms then Inl (BadMaxSize (the ms))
      else (case ratio of
              Fin r \<Rightarrow>
                if 0 < r \<and> r \<le> 1
                then Inr \<lparr>max_entries = me, max_size_bytes = ms, swr_threshold_ratio = r, oc_store = [],
                          oc_hits = 0, oc_misses = 0, current_size_bytes = 0, refreshing = [],
                          generation = 0\<rparr>
                else Inl (BadRatio ratio)
            | _ \<Rightarrow> Inl (BadRatio ratio)))"

definition oc_remove :: "string \<Rightarrow> object_cache \<Rightarrow> object_cache" where
  "oc_remove k c =
     (case map_of (oc_store c) k of
        None \<Rightarrow> c
      | Some e \<Rightarrow> c\<lparr>oc_store := AList.delete k (oc_store c),
                   current_size_bytes := current_size_bytes c - oe_size_bytes e,
                   refreshing := AList.delete k (refreshing c)\<rparr>)"

definition over_bounds :: "int \<Rightarrow> bool \<Rightarrow> object_cache \<Rightarrow> bool" where
  "over_bounds extra need_slot c \<longleftrightarrow>
     (need_slot \<and> (case max_entries c of None \<Rightarrow> False | Some m \<Rightarrow> int (length (oc_store c)) \<ge> m))
   \<or> (case max_size_bytes c of None \<Rightarrow> False | Some m \<Rightarrow> current_size_bytes c + extra > m)"

lemma oc_remove_first_length:
  "oc_store c = (k, e) # d \<Longrightarrow> length (oc_store (oc_remove k c)) < length (oc_store c)"
  by (simp add: oc_remove_def delete_filter le_imp_less_Suc)

text \<open>The last loop of \<^verbatim>\<open>_evict\<close>: drop the least recently used entry while a bound is exceeded.\<close>

function evict_lru :: "int \<Rightarrow> bool \<Rightarrow> object_cache \<Rightarrow> object_cache" where
  "evict_lru extra need_slot c =
     (case oc_store c of
        [] \<Rightarrow> c
      | (k, e) # d \<Rightarrow>
          if over_bounds extra need_slot c then evict_lru extra need_slot (oc_remove k c) else c)"
  by pat_completeness auto
termination
  by (relation "measure (\<lambda>(x, n, c). length (oc_store c))") (use oc_remove_first_length in force)+

declare evict_lru.simps [simp del]

definition sweep_expired :: "real \<Rightarrow> object_cache \<Rightarrow> object_cache" where
  "sweep_expired now c =
     fold oc_remove (map fst (filter (\<lambda>(k, e). now \<ge> oe_expires_at e) (oc_store c))) c"

definition oc_evict :: "real \<Rightarrow> int \<Rightarrow> bool \<Rightarrow> object_cache \<Rightarrow> object_cache" where
  "oc_evict now extra need_slot c =
     (if \<not> over_bounds extra need_slot c then c
      else evict_lru extra need_slot (sweep_expired now c))"

section \<open>Public operations\<close>

definition oc_get :: "real \<Rightarrow> string \<Rightarrow> object_cache \<Rightarrow> nat option \<times> object_cache" where
  "oc_get now k c =
     (case map_of (oc_store c) k of
        None \<Rightarrow> (None, c\<lparr>oc_misses := oc_misses c + 1\<rparr>)
      | Some e \<Rightarrow>
          if now \<ge> oe_expires_at e
          then (let c1 = oc_remove k c in (None, c1\<lparr>oc_misses := oc_misses c1 + 1\<rparr>))
          else (Some (oe_value e),
                c\<lparr>oc_store := move_to_end k (oc_store c), oc_hits := oc_hits c + 1\<rparr>))"

text \<open>\<^verbatim>\<open>(hit, value, needs_refresh, version)\<close>.\<close>

record swr_result =
  sr_hit :: bool
  sr_value :: "nat option"
  sr_needs_refresh :: bool
  sr_version :: int

definition swr_miss :: swr_result where
  "swr_miss = \<lparr>sr_hit = False, sr_value = None, sr_needs_refresh = False, sr_version = 0\<rparr>"

definition get_with_swr ::
  "real \<Rightarrow> real \<Rightarrow> string \<Rightarrow> real \<Rightarrow> object_cache \<Rightarrow> swr_result \<times> object_cache" where
  "get_with_swr now jitter k ttl c =
     (case map_of (oc_store c) k of
        None \<Rightarrow> (swr_miss, c\<lparr>oc_misses := oc_misses c + 1\<rparr>)
      | Some e \<Rightarrow>
          if now \<ge> oe_expires_at e
          then (let c1 = oc_remove k c in (swr_miss, c1\<lparr>oc_misses := oc_misses c1 + 1\<rparr>))
          else
            let c1 = c\<lparr>oc_store := move_to_end k (oc_store c), oc_hits := oc_hits c + 1\<rparr>;
                refresh = now - oe_cached_at e > ttl * swr_threshold_ratio c * jitter
                          \<and> map_of (refreshing c) k = None;
                c2 = (if refresh then c1\<lparr>refreshing := AList.update k (oe_generation e) (refreshing c1)\<rparr>
                      else c1)
            in (\<lparr>sr_hit = True, sr_value = Some (oe_value e), sr_needs_refresh = refresh,
                 sr_version = oe_generation e\<rparr>, c2))"

definition release_marker :: "string \<Rightarrow> int \<Rightarrow> object_cache \<Rightarrow> object_cache" where
  "release_marker k version c =
     (if map_of (refreshing c) k = Some version then c\<lparr>refreshing := AList.delete k (refreshing c)\<rparr> else c)"

definition ttl_ok :: "pyfloat \<Rightarrow> bool" where
  "ttl_ok ttl \<longleftrightarrow> isfinite ttl \<and> pf_le (Fin 1) ttl"

fun pf_real :: "pyfloat \<Rightarrow> real" where
  "pf_real (Fin x) = x"
| "pf_real _ = 0"

text \<open>The sz estimate, taken only when the cache is byte-bounded.\<close>

definition value_size :: "heap \<Rightarrow> nat \<Rightarrow> object_cache \<Rightarrow> int" where
  "value_size h v c = (if max_size_bytes c \<noteq> None then estimate_object_size h v else 0)"

definition exceeds_budget :: "int \<Rightarrow> object_cache \<Rightarrow> bool" where
  "exceeds_budget sz c = (case max_size_bytes c of None \<Rightarrow> False | Some m \<Rightarrow> sz > m)"

text \<open>The body of \<^verbatim>\<open>complete_refresh\<close> after the TTL check; \<open>now\<close> and \<open>now'\<close> are its two clock readings.\<close>

definition land_refresh ::
  "real \<Rightarrow> real \<Rightarrow> heap \<Rightarrow> string \<Rightarrow> int \<Rightarrow> nat \<Rightarrow> real \<Rightarrow> object_cache \<Rightarrow> bool \<times> object_cache" where
  "land_refresh now now' h k version v ttl c0 =
     (let sz = value_size h v c0; c = release_marker k version c0 in
      case map_of (oc_store c) k of
        None \<Rightarrow> (False, c)
      | Some e \<Rightarrow>
          if oe_generation e \<noteq> version then (False, c)
          else if exceeds_budget sz c then (False, oc_remove k c)
          else
            let e' = e\<lparr>oe_value := v, oe_cached_at := now, oe_expires_at := now + ttl, oe_size_bytes := sz\<rparr>;
                c1 = c\<lparr>current_size_bytes := current_size_bytes c + (sz - oe_size_bytes e),
                       oc_store := move_to_end k (AList.update k e' (oc_store c))\<rparr>
            in (True, oc_evict now' 0 False c1))"

definition complete_refresh ::
  "real \<Rightarrow> real \<Rightarrow> heap \<Rightarrow> string \<Rightarrow> int \<Rightarrow> nat \<Rightarrow> pyfloat \<Rightarrow> object_cache
   \<Rightarrow> oc_error + (bool \<times> object_cache)" where
  "complete_refresh now now' h k version v ttl c =
     (if \<not> ttl_ok ttl then Inl (BadTtl ttl)
      else Inr (land_refresh now now' h k version v (pf_real ttl) c))"

definition cancel_refresh :: "string \<Rightarrow> int \<Rightarrow> object_cache \<Rightarrow> object_cache" where
  "cancel_refresh k version c = release_marker k version c"

text \<open>The body of \<^verbatim>\<open>put\<close> after the TTL check; \<open>now\<close> is read by \<^verbatim>\<open>_evict\<close>, \<open>now'\<close> when the entry is stamped.\<close>

definition put_value ::
  "real \<Rightarrow> real \<Rightarrow> heap \<Rightarrow> string \<Rightarrow> nat \<Rightarrow> real \<Rightarrow> object_cache \<Rightarrow> object_cache" where
  "put_value now now' h k v ttl c =
     (let sz = value_size h v c in
      if exceeds_budget sz c then oc_remove k c
      else
        let c1 = oc_evict now sz True (oc_remove k c);
            g = generation c1 + 1;
            e = \<lparr>oe_value = v, oe_expires_at = now' + ttl, oe_cached_at = now', oe_size_bytes = sz,
                 oe_generation = g\<rparr>
        in c1\<lparr>generation := g, oc_store := AList.update k e (oc_store c1),
              current_size_bytes := current_size_bytes c1 + sz\<rparr>)"

definition oc_put ::
  "real \<Rightarrow> real \<Rightarrow> heap \<Rightarrow> string \<Rightarrow> nat \<Rightarrow> pyfloat \<Rightarrow> object_cache \<Rightarrow> oc_error + object_cache" where
  "oc_put now now' h k v ttl c =
     (if \<not> ttl_ok ttl then Inl (BadTtl ttl) else Inr (put_value now now' h k v (pf_real ttl) c))"

definition oc_delete :: "string \<Rightarrow> object_cache \<Rightarrow> bool \<times> object_cache" where
  "oc_delete k c = (if map_of (oc_store c) k \<noteq> None then (True, oc_remove k c) else (False, c))"

definition oc_clear :: "object_cache \<Rightarrow> object_cache" where
  "oc_clear c = c\<lparr>oc_store := [], current_size_bytes := 0, refreshing := []\<rparr>"

definition oc_size :: "object_cache \<Rightarrow> nat" where
  "oc_size c = length (oc_store c)"

section \<open>The size estimate counts every reachable object once\<close>

text \<open>Objects reachable from \<open>S\<close> through container members, avoiding \<open>seen\<close>.\<close>

inductive reach :: "heap \<Rightarrow> nat set \<Rightarrow> nat set \<Rightarrow> nat \<Rightarrow> bool" for h seen S where
  start: "i \<in> S \<Longrightarrow> i \<notin> seen \<Longrightarrow> i < length h \<Longrightarrow> reach h seen S i"
| step: "reach h seen S i \<Longrightarrow> j \<in> set (members (h ! i)) \<Longrightarrow> j \<notin> seen \<Longrightarrow> j < length h \<Longrightarrow> reach h seen S j"

lemma reach_less: "reach h seen S j \<Longrightarrow> j < length h"
  by (induction rule: reach.induct) auto

lemma finite_reach [simp]: "finite {j. reach h seen S j}"
  by (rule finite_subset [of _ "{..<length h}"]) (auto dest: reach_less)

lemma reach_empty: "\<not> reach h seen {} j"
proof
  assume "reach h seen {} j"
  then show False by (induction rule: reach.induct) auto
qed

lemma reach_skip:
  assumes "i \<in> seen \<or> i \<ge> length h"
  shows "reach h seen (insert i S) = reach h seen S"
proof (intro ext iffI)
  fix j
  assume "reach h seen (insert i S) j"
  then show "reach h seen S j" using assms by (induction rule: reach.induct) (auto intro: reach.intros)
next
  fix j
  assume "reach h seen S j"
  then show "reach h seen (insert i S) j" by (induction rule: reach.induct) (auto intro: reach.intros)
qed

lemma reach_visit:
  assumes "i \<notin> seen" "i < length h"
  shows "{j. reach h seen (insert i S) j}
       = insert i {j. reach h (insert i seen) (set (members (h ! i)) \<union> S) j}" (is "?L = ?R")
proof (intro equalityI subsetI)
  fix j
  assume "j \<in> ?L"
  then have "reach h seen (insert i S) j" by simp
  then show "j \<in> ?R" by (induction rule: reach.induct) (auto intro: reach.intros)
next
  fix j
  have i: "reach h seen (insert i S) i" using assms by (auto intro: reach.start)
  assume "j \<in> ?R"
  moreover have "reach h seen (insert i S) j"
    if "reach h (insert i seen) (set (members (h ! i)) \<union> S) j" for j
    using that by (induction rule: reach.induct) (auto intro: reach.intros i)
  ultimately show "j \<in> ?L" using i by auto
qed

lemma reach_seen: "\<not> reach h seen S j" if "j \<in> seen"
  using that by (auto elim: reach.cases)

lemma size_loop_sum:
  "size_loop h seen stack tot = tot + (\<Sum>j | reach h (set seen) (set stack) j. int (shallow (h ! j)))"
proof (induction h seen stack tot rule: size_loop.induct)
  case (1 h seen tot)
  then show ?case by (simp add: size_loop.simps reach_empty)
next
  case (2 h seen i stack tot)
  show ?case
  proof (cases "i \<in> set seen \<or> i \<ge> length h")
    case True
    with "2.IH"(1) show ?thesis by (simp add: size_loop.simps reach_skip)
  next
    case False
    let ?R = "{j. reach h (insert i (set seen)) (set (members (h ! i)) \<union> set stack) j}"
    have "i \<notin> ?R" by (simp add: reach_seen)
    with False "2.IH"(2) show ?thesis by (simp add: size_loop.simps reach_visit)
  qed
qed

lemma estimate_nonneg: "0 \<le> estimate_object_size h v"
  by (simp add: estimate_object_size_def size_loop_sum sum_nonneg)

text \<open>
  C20: \<^verbatim>\<open>_estimate_object_size\<close> terminates on every object graph, cycles and sharing included, and returns
  the sum of the shallow sizes of the objects reachable through containers, each counted once.
\<close>

theorem estimate_object_size_correct:
  "estimate_object_size h v = (\<Sum>j | reach h {} {v} j. int (shallow (h ! j)))"
  by (simp add: estimate_object_size_def size_loop_sum)

section \<open>The invariant\<close>

definition live :: "string \<Rightarrow> int \<Rightarrow> object_cache \<Rightarrow> bool" where
  "live k g c \<longleftrightarrow> (\<exists>e. map_of (oc_store c) k = Some e \<and> oe_generation e = g)"

definition oc_wf :: "object_cache \<Rightarrow> bool" where
  "oc_wf c \<longleftrightarrow> distinct (map fst (oc_store c))
     \<and> current_size_bytes c = od_weight oe_size_bytes (oc_store c)
     \<and> (\<forall>k e. map_of (oc_store c) k = Some e \<longrightarrow> 0 \<le> oe_size_bytes e \<and> oe_generation e \<le> generation c)
     \<and> distinct (map fst (refreshing c))
     \<and> (\<forall>k g. map_of (refreshing c) k = Some g \<longrightarrow> live k g c)
     \<and> \<not> below_one (max_entries c) \<and> \<not> below_one (max_size_bytes c)"

definition oc_bounded :: "object_cache \<Rightarrow> bool" where
  "oc_bounded c \<longleftrightarrow> (\<forall>m. max_entries c = Some m \<longrightarrow> int (length (oc_store c)) \<le> m)
     \<and> (\<forall>m. max_size_bytes c = Some m \<longrightarrow> current_size_bytes c \<le> m)"

definition oc_inv :: "object_cache \<Rightarrow> bool" where
  "oc_inv c \<longleftrightarrow> oc_wf c \<and> oc_bounded c"

declare map_of_eq_Some_iff [simp del]

lemma absent_no_marker:
  "oc_wf c \<Longrightarrow> map_of (oc_store c) k = None \<Longrightarrow> map_of (refreshing c) k = None"
  unfolding oc_wf_def live_def by (metis not_None_eq)

lemma marker_generation:
  "oc_wf c \<Longrightarrow> map_of (refreshing c) k = Some g \<Longrightarrow> map_of (oc_store c) k = Some e \<Longrightarrow> oe_generation e = g"
  unfolding oc_wf_def live_def by (metis option.inject)

lemma length_update_present: "map_of d k = Some v \<Longrightarrow> length (AList.update k w d) = length d"
  by (induction d) (auto split: if_splits)

section \<open>Removal and eviction\<close>

lemma oc_remove_store: "oc_store (oc_remove k c) = AList.delete k (oc_store c)"
  by (auto simp: oc_remove_def map_of_eq_None_iff split: option.split)

lemma oc_remove_lookup [simp]: "map_of (oc_store (oc_remove k c)) = (map_of (oc_store c))(k := None)"
  by (simp add: oc_remove_store AList.delete_conv')

lemma oc_remove_frame [simp]:
  "max_entries (oc_remove k c) = max_entries c" "max_size_bytes (oc_remove k c) = max_size_bytes c"
  "generation (oc_remove k c) = generation c"
  "swr_threshold_ratio (oc_remove k c) = swr_threshold_ratio c"
  by (simp_all add: oc_remove_def split: option.split)

lemma oc_remove_marker:
  "oc_wf c \<Longrightarrow> map_of (refreshing (oc_remove k c)) = (map_of (refreshing c))(k := None)"
proof (cases "map_of (oc_store c) k")
  case None
  assume "oc_wf c"
  from absent_no_marker [OF this None] None show ?thesis by (auto simp: oc_remove_def fun_eq_iff)
qed (simp add: oc_remove_def AList.delete_conv')

lemma oc_remove_wf: "oc_wf c \<Longrightarrow> oc_wf (oc_remove k c)"
proof -
  assume wf: "oc_wf c"
  note marker = oc_remove_marker [OF wf, of k]
  have "current_size_bytes (oc_remove k c) = od_weight oe_size_bytes (oc_store (oc_remove k c))"
    "distinct (map fst (refreshing (oc_remove k c)))"
    using wf by (auto simp: oc_remove_def oc_wf_def od_weight_delete split: option.split)
  with wf show ?thesis
    by (auto simp: oc_wf_def marker live_def oc_remove_store [of k c] AList.delete_conv' split: if_splits)
qed

lemma oc_remove_length: "length (oc_store (oc_remove k c)) \<le> length (oc_store c)"
  by (simp add: oc_remove_store delete_filter)

lemma oc_remove_cur: "oc_wf c \<Longrightarrow> current_size_bytes (oc_remove k c) \<le> current_size_bytes c"
  by (auto simp: oc_remove_def oc_wf_def split: option.split)

lemma oc_remove_inv: "oc_inv c \<Longrightarrow> oc_inv (oc_remove k c)"
  using oc_remove_wf [of c k] oc_remove_length [of k c] oc_remove_cur [of c k]
  by (force simp: oc_inv_def oc_bounded_def)

lemma evict_lru_invariant:
  assumes "P c" "\<And>c k. P c \<Longrightarrow> P (oc_remove k c)"
  shows "P (evict_lru x n c)"
  using assms(1)
proof (induction x n c rule: evict_lru.induct)
  case (1 x n c)
  show ?case
  proof (cases "oc_store c")
    case Nil
    with "1.prems" show ?thesis by (simp add: evict_lru.simps)
  next
    case (Cons p d)
    moreover from "1.prems" have "P (oc_remove (fst p) c)" by (rule assms(2))
    ultimately show ?thesis using "1.IH" [of p d "fst p" "snd p"] "1.prems"
      by (cases p) (simp add: evict_lru.simps [of x n c])
  qed
qed

lemma sweep_invariant:
  assumes "P c" "\<And>c k. P c \<Longrightarrow> P (oc_remove k c)"
  shows "P (sweep_expired now c)"
proof -
  have "P (fold oc_remove ks c)" for ks
    using assms(1) by (induction ks arbitrary: c) (simp_all add: assms(2))
  then show ?thesis by (simp add: sweep_expired_def)
qed

lemma evict_invariant:
  assumes "P c" "\<And>c k. P c \<Longrightarrow> P (oc_remove k c)"
  shows "P (oc_evict now x n c)"
  using assms by (simp add: oc_evict_def sweep_invariant evict_lru_invariant)

lemmas evict_wf = evict_invariant [where P = oc_wf, OF _ oc_remove_wf]

lemma evict_frame [simp]:
  "max_entries (oc_evict now x n c) = max_entries c"
  "max_size_bytes (oc_evict now x n c) = max_size_bytes c"
  "generation (oc_evict now x n c) = generation c"
  "swr_threshold_ratio (oc_evict now x n c) = swr_threshold_ratio c"
  by (rule evict_invariant; simp)+

lemma evict_length: "length (oc_store (oc_evict now x n c)) \<le> length (oc_store c)"
  by (rule evict_invariant [where P = "\<lambda>c'. length (oc_store c') \<le> length (oc_store c)"])
     (auto intro: order_trans [OF oc_remove_length])

lemma evict_lookup: "map_of (oc_store (oc_evict now x n c)) \<subseteq>\<^sub>m map_of (oc_store c)"
  by (rule evict_invariant [where P = "\<lambda>c'. map_of (oc_store c') \<subseteq>\<^sub>m map_of (oc_store c)"])
     (auto simp: map_le_def split: if_splits)

lemma evict_marker:
  assumes "oc_wf c"
  shows "map_of (refreshing (oc_evict now x n c)) k
       = (if map_of (oc_store (oc_evict now x n c)) k = None then None else map_of (refreshing c) k)"
proof -
  let ?P = "\<lambda>c'. oc_wf c' \<and> map_of (refreshing c') k
       = (if map_of (oc_store c') k = None then None else map_of (refreshing c) k)"
  from assms have "?P c" by (simp add: absent_no_marker)
  then have "?P (oc_evict now x n c)"
    by (rule evict_invariant) (auto simp: oc_remove_marker oc_remove_wf split: if_splits)
  then show ?thesis by blast
qed

lemma evict_lru_done: "oc_store (evict_lru x n c) = [] \<or> \<not> over_bounds x n (evict_lru x n c)"
proof (induction x n c rule: evict_lru.induct)
  case (1 x n c)
  show ?case
  proof (cases "oc_store c")
    case Nil
    then show ?thesis by (simp add: evict_lru.simps)
  next
    case (Cons p d)
    then show ?thesis using "1.IH" [of p d "fst p" "snd p"]
      by (cases p) (simp add: evict_lru.simps [of x n c])
  qed
qed

lemma empty_not_over:
  assumes "oc_wf c" "oc_store c = []" "\<not> exceeds_budget x c"
  shows "\<not> over_bounds x n c"
proof -
  have "current_size_bytes c = 0" using assms by (simp add: oc_wf_def)
  with assms show ?thesis
    by (cases "max_entries c"; cases "max_size_bytes c") (auto simp: over_bounds_def exceeds_budget_def oc_wf_def)
qed

text \<open>After \<^verbatim>\<open>_evict\<close> the pending write fits.\<close>

lemma evict_makes_room:
  assumes "oc_wf c" "\<not> exceeds_budget x c"
  shows "\<not> over_bounds x n (oc_evict now x n c)"
proof (cases "over_bounds x n c")
  case True
  let ?e = "evict_lru x n (sweep_expired now c)"
  have "oc_wf ?e" using evict_wf [OF assms(1), of now x n] True by (simp add: oc_evict_def)
  moreover have "max_size_bytes ?e = max_size_bytes c"
    using evict_frame(2) [of now x n c] True by (simp add: oc_evict_def)
  then have "\<not> exceeds_budget x ?e" using assms(2) by (simp add: exceeds_budget_def)
  ultimately show ?thesis
    using evict_lru_done [of x n "sweep_expired now c"] empty_not_over [of ?e x n] True
    by (auto simp: oc_evict_def)
qed (simp add: oc_evict_def)

section \<open>The operations keep the invariant\<close>

lemma touch_wf:
  "oc_wf c \<Longrightarrow> oc_wf (c\<lparr>oc_store := move_to_end k (oc_store c), oc_hits := x\<rparr>)"
  by (simp add: oc_wf_def live_def)

lemma counters_wf [simp]:
  "oc_wf (c\<lparr>oc_misses := x\<rparr>) = oc_wf c" "oc_wf (c\<lparr>oc_hits := x\<rparr>) = oc_wf c"
  "oc_bounded (c\<lparr>oc_misses := x\<rparr>) = oc_bounded c" "oc_bounded (c\<lparr>oc_hits := x\<rparr>) = oc_bounded c"
  by (simp_all add: oc_wf_def live_def oc_bounded_def)

lemma oc_inv_touch:
  "oc_inv c \<Longrightarrow> oc_inv (c\<lparr>oc_store := move_to_end k (oc_store c), oc_hits := x\<rparr>)"
  using touch_wf [where c = c and k = k and x = x] by (auto simp: oc_inv_def oc_bounded_def oc_wf_def)

lemma oc_get_inv: "oc_inv c \<Longrightarrow> oc_inv (snd (oc_get now k c))"
  using oc_remove_inv [of c k] oc_inv_touch [where c = c and k = k]
  by (auto simp: oc_get_def oc_inv_def Let_def split: option.split)

lemma mark_inv:
  assumes "oc_inv c" "live k g c"
  shows "oc_inv (c\<lparr>refreshing := AList.update k g (refreshing c)\<rparr>)"
  using assms by (auto simp: oc_inv_def oc_wf_def oc_bounded_def live_def distinct_update update_conv')

lemma get_with_swr_inv: "oc_inv c \<Longrightarrow> oc_inv (snd (get_with_swr now j k ttl c))"
proof (cases "map_of (oc_store c) k")
  case (Some e)
  assume inv: "oc_inv c"
  let ?c = "c\<lparr>oc_store := move_to_end k (oc_store c), oc_hits := oc_hits c + 1\<rparr>"
  have "live k (oe_generation e) ?c" using Some by (simp add: live_def)
  from mark_inv [OF oc_inv_touch [OF inv] this] oc_inv_touch [OF inv, where k = k] oc_remove_inv [OF inv, of k] Some
  show ?thesis by (auto simp: get_with_swr_def Let_def oc_inv_def)
qed (simp add: get_with_swr_def oc_inv_def)

lemma release_marker_frame [simp]:
  "oc_store (release_marker k g c) = oc_store c" "max_entries (release_marker k g c) = max_entries c"
  "max_size_bytes (release_marker k g c) = max_size_bytes c"
  "current_size_bytes (release_marker k g c) = current_size_bytes c"
  "generation (release_marker k g c) = generation c"
  by (simp_all add: release_marker_def)

lemma release_marker_wf: "oc_wf c \<Longrightarrow> oc_wf (release_marker k g c)"
  by (auto simp: release_marker_def oc_wf_def live_def AList.delete_conv' split: if_splits)

lemma release_marker_inv: "oc_inv c \<Longrightarrow> oc_inv (release_marker k g c)"
  using release_marker_wf by (auto simp: oc_inv_def oc_bounded_def)

lemma value_size_nonneg: "0 \<le> value_size h v c"
  by (simp add: value_size_def estimate_nonneg)

lemma replace_wf:
  assumes "oc_wf c" "map_of (oc_store c) k = Some e" "0 \<le> oe_size_bytes e'"
    "oe_generation e' = oe_generation e"
  shows "oc_wf (c\<lparr>current_size_bytes := current_size_bytes c + (oe_size_bytes e' - oe_size_bytes e),
                 oc_store := move_to_end k (AList.update k e' (oc_store c))\<rparr>)"
  using assms marker_generation [OF assms(1) _ assms(2)]
  by (auto simp: oc_wf_def live_def distinct_update od_weight_update update_conv' split: if_splits)

lemma land_refresh_inv:
  assumes "oc_inv c"
  shows "oc_inv (snd (land_refresh now now' h k g v ttl c))"
proof -
  let ?c = "release_marker k g c" and ?sz = "value_size h v c"
  have inv: "oc_inv ?c" using assms by (rule release_marker_inv)
  show ?thesis
  proof (cases "\<exists>e. map_of (oc_store c) k = Some e \<and> oe_generation e = g \<and> \<not> exceeds_budget ?sz c")
    case False
    with inv oc_remove_inv [OF inv, of k] show ?thesis
      by (auto simp: land_refresh_def Let_def exceeds_budget_def split: option.split)
  next
    case True
    then obtain e where e: "map_of (oc_store c) k = Some e" "oe_generation e = g" "\<not> exceeds_budget ?sz c" by blast
    let ?e = "e\<lparr>oe_value := v, oe_cached_at := now, oe_expires_at := now + ttl, oe_size_bytes := ?sz\<rparr>"
    let ?c1 = "?c\<lparr>current_size_bytes := current_size_bytes ?c + (?sz - oe_size_bytes e),
                   oc_store := move_to_end k (AList.update k ?e (oc_store ?c))\<rparr>"
    have res: "snd (land_refresh now now' h k g v ttl c) = oc_evict now' 0 False ?c1"
      using e by (simp add: land_refresh_def Let_def exceeds_budget_def)
    have wf1: "oc_wf ?c1"
      using replace_wf [of ?c k e ?e] inv e by (simp add: oc_inv_def value_size_nonneg)
    have "\<not> exceeds_budget 0 ?c1" using wf1 by (cases "max_size_bytes ?c1") (auto simp: exceeds_budget_def oc_wf_def)
    from evict_makes_room [OF wf1 this, of False now'] evict_wf [OF wf1, of now' 0 False] evict_length [of now' 0 False ?c1]
      assms e(1) wf1
    show ?thesis unfolding res oc_inv_def oc_bounded_def
      by (auto simp: over_bounds_def length_update_present distinct_update oc_wf_def split: option.splits)
  qed
qed

lemma store_new_wf:
  assumes "oc_wf c" "map_of (oc_store c) k = None" "0 \<le> oe_size_bytes e" "oe_generation e = generation c + 1"
  shows "oc_wf (c\<lparr>generation := generation c + 1, oc_store := AList.update k e (oc_store c),
                 current_size_bytes := current_size_bytes c + oe_size_bytes e\<rparr>)"
  using assms absent_no_marker [OF assms(1,2)]
  by (auto simp: oc_wf_def live_def distinct_update od_weight_update update_conv' split: if_splits)
     (metis option.distinct(1) option.inject add.commute le_add_same_cancel2 order.trans zero_le_one)+

text \<open>The state just before the new entry is written.\<close>

definition put_room :: "real \<Rightarrow> heap \<Rightarrow> string \<Rightarrow> nat \<Rightarrow> object_cache \<Rightarrow> object_cache" where
  "put_room now h k v c = oc_evict now (value_size h v c) True (oc_remove k c)"

definition put_entry :: "real \<Rightarrow> heap \<Rightarrow> nat \<Rightarrow> real \<Rightarrow> object_cache \<Rightarrow> oc_entry" where
  "put_entry now' h v ttl c =
     \<lparr>oe_value = v, oe_expires_at = now' + ttl, oe_cached_at = now', oe_size_bytes = value_size h v c,
      oe_generation = generation c + 1\<rparr>"

lemma put_value_oversize:
  "exceeds_budget (value_size h v c) c \<Longrightarrow> put_value now now' h k v ttl c = oc_remove k c"
  by (simp add: put_value_def Let_def)

lemma put_value_stored:
  assumes "\<not> exceeds_budget (value_size h v c) c"
  shows "put_value now now' h k v ttl c =
    (let c1 = put_room now h k v c in
     c1\<lparr>generation := generation c1 + 1, oc_store := AList.update k (put_entry now' h v ttl c) (oc_store c1),
        current_size_bytes := current_size_bytes c1 + oe_size_bytes (put_entry now' h v ttl c)\<rparr>)"
  using assms by (simp add: put_value_def put_room_def put_entry_def Let_def)

lemma put_room_facts:
  assumes "oc_wf c" "\<not> exceeds_budget (value_size h v c) c"
  shows "oc_wf (put_room now h k v c)" "map_of (oc_store (put_room now h k v c)) k = None"
    "map_of (oc_store (put_room now h k v c)) \<subseteq>\<^sub>m map_of (oc_store c)"
    "\<not> over_bounds (value_size h v c) True (put_room now h k v c)"
    "generation (put_room now h k v c) = generation c"
    "max_entries (put_room now h k v c) = max_entries c"
    "max_size_bytes (put_room now h k v c) = max_size_bytes c"
proof -
  have wf: "oc_wf (oc_remove k c)" using assms(1) by (rule oc_remove_wf)
  have le: "map_of (oc_store (put_room now h k v c)) \<subseteq>\<^sub>m (map_of (oc_store c))(k := None)"
    using evict_lookup [of now "value_size h v c" True "oc_remove k c"] by (simp add: put_room_def)
  then show "map_of (oc_store (put_room now h k v c)) k = None" unfolding map_le_def
    by (metis domIff fun_upd_same)
  from le show "map_of (oc_store (put_room now h k v c)) \<subseteq>\<^sub>m map_of (oc_store c)"
    unfolding map_le_def by (metis domIff fun_upd_apply)
  show "oc_wf (put_room now h k v c)" using wf by (simp add: put_room_def evict_wf)
  show "\<not> over_bounds (value_size h v c) True (put_room now h k v c)"
    unfolding put_room_def using wf assms(2) by (intro evict_makes_room) (simp_all add: exceeds_budget_def)
qed (simp_all add: put_room_def)

lemma put_value_inv:
  assumes "oc_inv c"
  shows "oc_inv (put_value now now' h k v ttl c)"
proof (cases "exceeds_budget (value_size h v c) c")
  case True
  with assms show ?thesis by (simp add: put_value_oversize oc_remove_inv)
next
  case False
  have wf: "oc_wf c" using assms by (simp add: oc_inv_def)
  note room = put_room_facts [OF wf False, where now = now and k = k]
  let ?e = "put_entry now' h v ttl c"
  have "oc_wf (put_value now now' h k v ttl c)"
    unfolding put_value_stored [OF False] Let_def using room(1,2,5)
    by (intro store_new_wf) (simp_all add: put_entry_def value_size_nonneg)
  moreover have "AList.update k ?e (oc_store (put_room now h k v c)) = oc_store (put_room now h k v c) @ [(k, ?e)]"
    using room(2) by (simp add: update_new map_of_eq_None_iff)
  then have "oc_bounded (put_value now now' h k v ttl c)"
    using room(4) unfolding put_value_stored [OF False]
    by (auto simp: oc_bounded_def over_bounds_def Let_def put_entry_def split: option.splits)
  ultimately show ?thesis by (simp add: oc_inv_def)
qed

lemma make_object_cache_inv: "make_object_cache me ms ratio = Inr c \<Longrightarrow> oc_inv c"
  by (cases me; cases ms)
     (auto simp: make_object_cache_def oc_inv_def oc_wf_def oc_bounded_def live_def
       split: if_splits pyfloat.splits)

lemma oc_clear_inv: "oc_inv c \<Longrightarrow> oc_inv (oc_clear c)"
  by (cases "max_entries c"; cases "max_size_bytes c")
     (auto simp: oc_clear_def oc_inv_def oc_wf_def oc_bounded_def live_def)

lemma oc_delete_inv: "oc_inv c \<Longrightarrow> oc_inv (snd (oc_delete k c))"
  by (simp add: oc_delete_def oc_remove_inv)

section \<open>Runs\<close>

datatype oc_op =
    OGet real string
  | OSwr real real string real
  | OComplete real real heap string int nat pyfloat
  | OCancel string int
  | OPut real real heap string nat pyfloat
  | ODelete string
  | OClear

text \<open>The cache after a call; a call that raises leaves it as it was.\<close>

fun oc_step :: "oc_op \<Rightarrow> object_cache \<Rightarrow> object_cache" where
  "oc_step (OGet now k) c = snd (oc_get now k c)"
| "oc_step (OSwr now j k ttl) c = snd (get_with_swr now j k ttl c)"
| "oc_step (OComplete now now' h k g v ttl) c =
     (case complete_refresh now now' h k g v ttl c of Inl e \<Rightarrow> c | Inr (b, c') \<Rightarrow> c')"
| "oc_step (OCancel k g) c = cancel_refresh k g c"
| "oc_step (OPut now now' h k v ttl) c = (case oc_put now now' h k v ttl c of Inl e \<Rightarrow> c | Inr c' \<Rightarrow> c')"
| "oc_step (ODelete k) c = snd (oc_delete k c)"
| "oc_step OClear c = oc_clear c"

definition oc_run :: "oc_op list \<Rightarrow> object_cache \<Rightarrow> object_cache" where
  "oc_run ops c = fold oc_step ops c"

lemma oc_run_simps [simp]: "oc_run [] c = c" "oc_run (op # ops) c = oc_run ops (oc_step op c)"
  by (simp_all add: oc_run_def)

lemma oc_step_complete:
  "oc_step (OComplete now now' h k g v ttl) c
     = (if ttl_ok ttl then snd (land_refresh now now' h k g v (pf_real ttl) c) else c)"
  by (simp add: complete_refresh_def split: prod.split)

lemma oc_step_put:
  "oc_step (OPut now now' h k v ttl) c
     = (if ttl_ok ttl then put_value now now' h k v (pf_real ttl) c else c)"
  by (simp add: oc_put_def)

lemmas oc_step_cases = oc_step.simps(1,2,4,6,7) oc_step_complete oc_step_put

lemma oc_step_inv: "oc_inv c \<Longrightarrow> oc_inv (oc_step op c)"
  by (cases op)
     (simp_all only: oc_step_cases oc_get_inv get_with_swr_inv land_refresh_inv put_value_inv oc_delete_inv
       oc_clear_inv cancel_refresh_def release_marker_inv split: if_split, simp_all)

lemma oc_run_inv: "oc_inv c \<Longrightarrow> oc_inv (oc_run ops c)"
  by (induction ops arbitrary: c) (simp_all add: oc_step_inv)

text \<open>Where the entry found under a key after a call comes from.\<close>

lemma oc_get_lookup:
  "map_of (oc_store (snd (oc_get now k c))) k' = Some e \<Longrightarrow> map_of (oc_store c) k' = Some e"
  by (auto simp: oc_get_def Let_def split: option.splits if_splits)

lemma get_with_swr_lookup:
  "map_of (oc_store (snd (get_with_swr now j k ttl c))) k' = Some e \<Longrightarrow> map_of (oc_store c) k' = Some e"
  by (auto simp: get_with_swr_def Let_def split: option.splits if_splits)

lemma land_refresh_lookup:
  assumes "map_of (oc_store (snd (land_refresh now now' h k g v ttl c))) k' = Some e'"
  shows "\<exists>e. map_of (oc_store c) k' = Some e \<and> oe_generation e = oe_generation e'
           \<and> (e' = e \<or> k' = k \<and> oe_generation e = g \<and> oe_value e' = v)"
proof -
  have *: "map_of (oc_store (oc_evict now' 0 False c1)) k' = Some e' \<Longrightarrow> map_of (oc_store c1) k' = Some e'" for c1
    using evict_lookup map_le_Some by metis
  show ?thesis using assms
    by (auto simp: land_refresh_def Let_def update_conv' split: option.splits if_splits dest!: *)
qed

lemma put_value_lookup:
  assumes "oc_inv c" "map_of (oc_store (put_value now now' h k v ttl c)) k' = Some e'"
  shows "(k' = k \<and> e' = put_entry now' h v ttl c) \<or> (k' \<noteq> k \<and> map_of (oc_store c) k' = Some e')"
proof (cases "exceeds_budget (value_size h v c) c")
  case True
  with assms show ?thesis by (auto simp: put_value_oversize split: if_splits)
next
  case False
  have wf: "oc_wf c" using assms by (simp add: oc_inv_def)
  from assms(2) map_le_Some [OF put_room_facts(3) [OF wf False], of now k k' e'] show ?thesis
    by (auto simp: put_value_stored [OF False] Let_def update_conv' split: if_splits)
qed

lemma oc_step_generation:
  assumes "oc_inv c" "map_of (oc_store (oc_step op c)) k = Some e'"
  shows "live k (oe_generation e') c \<or> oe_generation e' > generation c"
proof (cases op)
  case (OComplete now now' h k' g v ttl)
  with assms(2) land_refresh_lookup [of now now' h k' g v "pf_real ttl" c k e'] show ?thesis
    by (auto simp: oc_step_complete live_def split: if_splits simp del: oc_step.simps)
next
  case (OPut now now' h k' v ttl)
  with assms put_value_lookup [of c now now' h k' v "pf_real ttl" k e'] show ?thesis
    by (auto simp: oc_step_put live_def put_entry_def split: if_splits simp del: oc_step.simps)
qed (use assms(2) in \<open>auto simp: live_def cancel_refresh_def oc_delete_def oc_clear_def
      dest: oc_get_lookup get_with_swr_lookup split: if_splits\<close>)

lemma put_value_generation: "generation c \<le> generation (put_value now now' h k v ttl c)"
  by (simp add: put_value_def Let_def)

lemma oc_step_generation_mono: "generation c \<le> generation (oc_step op c)"
proof (cases op)
  case (OComplete now now' h k g v ttl)
  then show ?thesis unfolding OComplete oc_step_complete
    by (simp add: land_refresh_def Let_def split: option.split)
next
  case (OPut now now' h k v ttl)
  then show ?thesis unfolding OPut oc_step_put by (simp add: put_value_generation)
qed (simp_all add: oc_get_def get_with_swr_def cancel_refresh_def oc_delete_def oc_clear_def Let_def
      split: option.split)

text \<open>A retired generation of a key stays retired.\<close>

lemma retired_step:
  assumes "oc_inv c" "g \<le> generation c" "\<not> live k g c"
  shows "\<not> live k g (oc_step op c)"
proof
  assume "live k g (oc_step op c)"
  then obtain e where "map_of (oc_store (oc_step op c)) k = Some e" "oe_generation e = g"
    by (auto simp: live_def)
  with oc_step_generation [OF assms(1), of op k e] assms(2,3) show False by auto
qed

lemma retired_run:
  "oc_inv c \<Longrightarrow> g \<le> generation c \<Longrightarrow> \<not> live k g c \<Longrightarrow> \<not> live k g (oc_run ops c)"
proof (induction ops arbitrary: c)
  case (Cons op ops)
  have "g \<le> generation (oc_step op c)" using Cons.prems(2) oc_step_generation_mono order_trans by blast
  with Cons show ?case by (simp add: oc_step_inv retired_step)
qed simp

lemma land_refresh_retired:
  assumes "\<not> live k g c"
  shows "land_refresh now now' h k g v ttl c = (False, release_marker k g c)"
  using assms by (auto simp: land_refresh_def live_def Let_def split: option.split)

section \<open>Ownership of a refresh\<close>

fun finishes :: "string \<Rightarrow> int \<Rightarrow> oc_op \<Rightarrow> bool" where
  "finishes k g (OComplete now now' h k' g' v ttl) \<longleftrightarrow> k' = k \<and> g' = g"
| "finishes k g (OCancel k' g') \<longleftrightarrow> k' = k \<and> g' = g"
| "finishes k g _ \<longleftrightarrow> False"

lemma release_marker_other:
  "map_of (refreshing c) k = Some g \<Longrightarrow> (k', g') \<noteq> (k, g) \<Longrightarrow>
   map_of (refreshing (release_marker k' g' c)) k = Some g"
  by (auto simp: release_marker_def AList.delete_conv')

lemma land_refresh_marker:
  assumes "oc_inv c" "live k g c" "map_of (refreshing c) k = Some g" "(k', g') \<noteq> (k, g)"
    "live k g (snd (land_refresh now now' h k' g' v ttl c))"
  shows "map_of (refreshing (snd (land_refresh now now' h k' g' v ttl c))) k = Some g"
proof (cases "live k' g' c")
  case False
  with assms(3,4) show ?thesis by (simp add: land_refresh_retired release_marker_other)
next
  case True
  then obtain e where e: "map_of (oc_store c) k' = Some e" "oe_generation e = g'" by (auto simp: live_def)
  with assms(2,4) have ne: "k' \<noteq> k" by (auto simp: live_def)
  let ?c = "release_marker k' g' c" and ?sz = "value_size h v c"
  let ?e = "e\<lparr>oe_value := v, oe_cached_at := now, oe_expires_at := now + ttl, oe_size_bytes := ?sz\<rparr>"
  let ?c1 = "?c\<lparr>current_size_bytes := current_size_bytes ?c + (?sz - oe_size_bytes e),
                 oc_store := move_to_end k' (AList.update k' ?e (oc_store ?c))\<rparr>"
  have m: "map_of (refreshing ?c) k = Some g" using assms(3,4) by (rule release_marker_other)
  have wf: "oc_wf ?c" using assms(1) by (simp add: oc_inv_def release_marker_wf)
  show ?thesis
  proof (cases "exceeds_budget ?sz c")
    case True
    with e m ne oc_remove_marker [OF wf, of k'] show ?thesis
      by (simp add: land_refresh_def Let_def exceeds_budget_def)
  next
    case False
    then have res: "snd (land_refresh now now' h k' g' v ttl c) = oc_evict now' 0 False ?c1"
      using e by (simp add: land_refresh_def Let_def exceeds_budget_def)
    have "oc_wf ?c1" using replace_wf [OF wf, of k' e ?e] e by (simp add: value_size_nonneg)
    from evict_marker [OF this, of now' 0 False k] assms(5) m show ?thesis
      unfolding res by (auto simp: live_def)
  qed
qed

lemma put_value_marker:
  assumes "oc_inv c" "map_of (refreshing c) k = Some g" "k' \<noteq> k"
    "live k g (put_value now now' h k' v ttl c)"
  shows "map_of (refreshing (put_value now now' h k' v ttl c)) k = Some g"
proof (cases "exceeds_budget (value_size h v c) c")
  case True
  with assms oc_remove_marker [of c k'] show ?thesis by (simp add: put_value_oversize oc_inv_def)
next
  case False
  have wf: "oc_wf c" "oc_wf (oc_remove k' c)" using assms(1) by (simp_all add: oc_inv_def oc_remove_wf)
  from evict_marker [OF wf(2), of now "value_size h v c" True k] assms(2-4) oc_remove_marker [OF wf(1), of k']
  show ?thesis
    by (auto simp: put_value_stored [OF False] put_room_def Let_def live_def update_conv' split: if_splits)
qed

lemma owned_step:
  assumes inv: "oc_inv c" and g: "g \<le> generation c" and nf: "\<not> finishes k g op"
    and own: "live k g c \<longrightarrow> map_of (refreshing c) k = Some g"
    and after: "live k g (oc_step op c)"
  shows "map_of (refreshing (oc_step op c)) k = Some g"
proof -
  have lv: "live k g c" using retired_step [OF inv g] after by blast
  with own have m: "map_of (refreshing c) k = Some g" by blast
  have wf: "oc_wf c" using inv by (simp add: oc_inv_def)
  note rm = oc_remove_marker [OF wf]
  show ?thesis
  proof (cases op)
    case (OGet now k')
    with m after rm [of k'] show ?thesis
      by (auto simp: oc_get_def live_def Let_def split: option.splits if_splits)
  next
    case (OSwr now j k' ttl)
    with m after rm [of k'] lv show ?thesis
      by (auto simp: get_with_swr_def live_def Let_def update_conv' split: option.splits if_splits)
  next
    case (OComplete now now' h k' g' v ttl)
    then have "(k', g') \<noteq> (k, g)" using nf by auto
    with land_refresh_marker [OF inv lv m this] after m show ?thesis
      unfolding OComplete oc_step_complete by (simp split: if_splits)
  next
    case (OPut now now' h k' v ttl)
    show ?thesis
    proof (cases "k' = k \<and> ttl_ok ttl")
      case True
      with after put_value_lookup [OF inv, of now now' h k' v "pf_real ttl" k] g show ?thesis
        unfolding OPut oc_step_put by (auto simp: live_def put_entry_def)
    next
      case False
      with put_value_marker [OF inv m, of k'] after m show ?thesis
        unfolding OPut oc_step_put by (auto split: if_splits)
    qed
  next
    case (OCancel k' g')
    with m nf show ?thesis by (simp add: cancel_refresh_def release_marker_other)
  next
    case (ODelete k')
    with m after rm [of k'] show ?thesis by (auto simp: oc_delete_def live_def split: if_splits)
  next
    case OClear
    with after show ?thesis by (simp add: oc_clear_def live_def)
  qed
qed

lemma owned_run:
  "oc_inv c \<Longrightarrow> g \<le> generation c \<Longrightarrow> (live k g c \<longrightarrow> map_of (refreshing c) k = Some g) \<Longrightarrow>
   \<forall>op \<in> set ops. \<not> finishes k g op \<Longrightarrow>
   live k g (oc_run ops c) \<longrightarrow> map_of (refreshing (oc_run ops c)) k = Some g"
proof (induction ops arbitrary: c)
  case (Cons op ops)
  have "g \<le> generation (oc_step op c)" using Cons.prems(2) oc_step_generation_mono order_trans by blast
  moreover have "live k g (oc_step op c) \<longrightarrow> map_of (refreshing (oc_step op c)) k = Some g"
    using owned_step [OF Cons.prems(1,2), of k op] Cons.prems(3,4) by simp
  ultimately show ?case using Cons.IH [OF oc_step_inv [OF Cons.prems(1)]] Cons.prems(4) by simp
qed simp

lemma granted_marks:
  assumes "get_with_swr now j k ttl c = (r, c')" "sr_needs_refresh r"
  shows "map_of (refreshing c') k = Some (sr_version r) \<and> map_of (refreshing c) k = None
    \<and> live k (sr_version r) c \<and> live k (sr_version r) c'"
  using assms by (auto simp: get_with_swr_def swr_miss_def live_def Let_def update_conv'
      split: option.splits if_splits)

lemma oc_wf_live_generation: "oc_wf c \<Longrightarrow> live k g c \<Longrightarrow> g \<le> generation c"
  by (auto simp: oc_wf_def live_def)

section \<open>The cache as a store\<close>

definition oc_lookup :: "object_cache \<Rightarrow> string \<Rightarrow> nat option" where
  "oc_lookup c k = map_option oe_value (map_of (oc_store c) k)"

definition oc_put_at :: "real \<times> real \<times> heap \<times> real \<Rightarrow> string \<Rightarrow> nat \<Rightarrow> object_cache \<Rightarrow> object_cache" where
  "oc_put_at t k v c = (case t of (now, now', h, ttl) \<Rightarrow> put_value now now' h k v ttl c)"

definition oc_get_at :: "real \<times> real \<times> heap \<times> real \<Rightarrow> string \<Rightarrow> object_cache \<Rightarrow> nat option \<times> object_cache" where
  "oc_get_at t k c = oc_get (fst t) k c"

interpretation oc: replacing_store oc_lookup oc_get_at oc_put_at oc_remove oc_inv
proof unfold_locales
  fix s s' :: object_cache and t k k' v w r
  assume inv: "oc_inv s"
  show "oc_lookup s k = Some v" if "oc_get_at t k s = (Some v, s')"
    using that by (auto simp: oc_get_at_def oc_get_def oc_lookup_def Let_def split: option.splits if_splits)
  show "oc_lookup s' \<subseteq>\<^sub>m oc_lookup s" if "oc_get_at t k s = (r, s')"
    using oc_get_lookup [of "fst t" k s] that by (auto simp: oc_get_at_def oc_lookup_def map_le_def)
  show "k' = k \<and> w = v \<or> oc_lookup s k' = Some w" if "oc_lookup (oc_put_at t k v s) k' = Some w"
    using that put_value_lookup [OF inv, of _ _ _ k v _ k']
    by (fastforce simp: oc_put_at_def oc_lookup_def put_entry_def split: prod.splits)
  show "oc_lookup (oc_remove k s) k = None" "oc_lookup (oc_remove k s) \<subseteq>\<^sub>m oc_lookup s"
    by (auto simp: oc_lookup_def map_le_def)
  show "oc_inv s'" if "oc_get_at t k s = (r, s')"
    using oc_get_inv [OF inv, of "fst t" k] that by (simp add: oc_get_at_def)
  show "oc_inv (oc_put_at t k v s)" using inv by (simp add: oc_put_at_def put_value_inv split: prod.split)
  show "oc_inv (oc_remove k s)" using inv by (rule oc_remove_inv)
  show "w = v" if "oc_lookup (oc_put_at t k v s) k = Some w"
    using that put_value_lookup [OF inv, of _ _ _ k v _ k]
    by (fastforce simp: oc_put_at_def oc_lookup_def put_entry_def split: prod.splits)
qed

lemma run_generation:
  "oc_inv c \<Longrightarrow> live k g (oc_run ops c) \<Longrightarrow> live k g c \<or> g > generation c"
proof (induction ops arbitrary: c)
  case (Cons op ops)
  from Cons.IH [OF oc_step_inv [OF Cons.prems(1)]] Cons.prems(2)
  consider "live k g (oc_step op c)" | "g > generation (oc_step op c)" by auto
  then show ?case
  proof cases
    case 1
    then show ?thesis using oc_step_generation [OF Cons.prems(1), of op k] by (auto simp: live_def)
  next
    case 2
    then show ?thesis using oc_step_generation_mono [of c op] by simp
  qed
qed simp

lemma live_unique: "live k g c \<Longrightarrow> live k g' c \<Longrightarrow> g = g'"
  by (auto simp: live_def)

text \<open>The values written under a key by a call.\<close>

fun writes :: "oc_op \<Rightarrow> (string \<times> nat) set" where
  "writes (OPut now now' h k v ttl) = {(k, v)}"
| "writes (OComplete now now' h k g v ttl) = {(k, v)}"
| "writes _ = {}"

lemma coherent_step:
  assumes "oc_inv c" "oc.coherent P c" "\<And>k v. (k, v) \<in> writes op \<Longrightarrow> P k v"
  shows "oc.coherent P (oc_step op c)"
proof (cases op)
  case (OGet now k)
  with oc.coherent_get [OF assms(1,2), of "(now, 0, [], 0)" k] show ?thesis
    by (cases "oc_get now k c") (simp add: oc_get_at_def)
next
  case (OSwr now j k ttl)
  with get_with_swr_lookup [of now j k ttl c] assms(2) show ?thesis
    by (force simp: oc.coherent_def oc_lookup_def)
next
  case (OComplete now now' h k g v ttl)
  have "oc.coherent P (snd (land_refresh now now' h k g v (pf_real ttl) c))"
    using land_refresh_lookup [of now now' h k g v "pf_real ttl" c] assms(2,3) OComplete
    by (fastforce simp: oc.coherent_def oc_lookup_def)
  with assms(2) show ?thesis unfolding OComplete oc_step_complete by simp
next
  case (OPut now now' h k v ttl)
  have "oc.coherent P (oc_put_at (now, now', h, pf_real ttl) k v c)"
    using assms OPut by (intro oc.coherent_put) auto
  with assms(2) show ?thesis unfolding OPut oc_step_put by (simp add: oc_put_at_def)
next
  case (ODelete k)
  with oc.coherent_remove [OF assms(1,2)] assms(2) show ?thesis by (simp add: oc_delete_def)
qed (use assms(2) in \<open>simp_all add: oc.coherent_def oc_lookup_def oc_clear_def cancel_refresh_def\<close>)

lemma coherent_run:
  "oc_inv c \<Longrightarrow> oc.coherent P c \<Longrightarrow> (\<And>op k v. op \<in> set ops \<Longrightarrow> (k, v) \<in> writes op \<Longrightarrow> P k v) \<Longrightarrow>
   oc.coherent P (oc_run ops c)"
proof (induction ops arbitrary: c)
  case (Cons op ops)
  have "oc.coherent P (oc_step op c)" using Cons.prems by (intro coherent_step) auto
  from Cons.IH [OF oc_step_inv [OF Cons.prems(1)] this] Cons.prems(3) show ?case
    by (simp add: oc_run_simps) (metis list.set_intros(2))
qed simp

section \<open>Properties\<close>

text \<open>
  C10: Over every sequence of calls on a new object cache: the byte counter equals the sizes of the stored
  entries, both bounds hold, and a present in-flight marker always equals the generation of the live
  entry of its key.
\<close>

theorem object_cache_bounds:
  assumes "make_object_cache me ms ratio = Inr c0" "c = oc_run ops c0"
  shows "current_size_bytes c = od_weight oe_size_bytes (oc_store c)
    \<and> (\<forall>m. max_entries c = Some m \<longrightarrow> int (length (oc_store c)) \<le> m)
    \<and> (\<forall>m. max_size_bytes c = Some m \<longrightarrow> current_size_bytes c \<le> m)
    \<and> (\<forall>k g. map_of (refreshing c) k = Some g \<longrightarrow> live k g c)"
  using oc_run_inv [OF make_object_cache_inv [OF assms(1)], of ops]
  unfolding assms(2) oc_inv_def oc_wf_def oc_bounded_def by blast

definition demo_cache :: object_cache where
  "demo_cache = \<lparr>max_entries = Some 2, max_size_bytes = None, swr_threshold_ratio = 1 / 2, oc_store = [],
     oc_hits = 0, oc_misses = 0, current_size_bytes = 0, refreshing = [], generation = 0\<rparr>"

lemma demo_cache_made: "make_object_cache (Some 2) None (Fin (1 / 2)) = Inr demo_cache"
  by (simp add: make_object_cache_def demo_cache_def)

theorem object_cache_bounds_witness:
  "let c = oc_run [OPut 0 0 [PyAtom 8] ''k'' 0 (Fin 60), OSwr 50 1 ''k'' 60] demo_cache in
   max_entries c = Some 2 \<and> int (length (oc_store c)) \<le> 2 \<and> map_of (refreshing c) ''k'' = Some 1 \<and> live ''k'' 1 c"
proof -
  let ?c = "oc_run [OPut 0 0 [PyAtom 8] ''k'' 0 (Fin 60), OSwr 50 1 ''k'' 60] demo_cache"
  have "max_entries ?c = Some 2" "map_of (refreshing ?c) ''k'' = Some 1"
    by (simp_all add: demo_cache_def oc_put_def ttl_ok_def put_value_def value_size_def exceeds_budget_def
        oc_remove_def oc_evict_def over_bounds_def get_with_swr_def move_to_end_def Let_def)
  with object_cache_bounds [OF demo_cache_made refl, of "[OPut 0 0 [PyAtom 8] ''k'' 0 (Fin 60), OSwr 50 1 ''k'' 60]"]
  show ?thesis unfolding Let_def by blast
qed

text \<open>
  C8: A refresh never resurrects data: once the entry a refresh was started for is gone (deleted, expired,
  evicted, cleared or replaced), then whatever calls follow, completing that refresh returns False,
  changes no entry and releases no marker but its own.
\<close>

theorem refresh_never_resurrects:
  assumes "make_object_cache me ms ratio = Inr c0" "c = oc_run before c0"
    "g \<le> generation c" "\<not> live k g c"
  shows "land_refresh now now' h k g v ttl (oc_run after c) = (False, release_marker k g (oc_run after c))
       \<and> oc_store (release_marker k g (oc_run after c)) = oc_store (oc_run after c)
       \<and> map_of (refreshing (oc_run after c)) k \<noteq> Some g"
proof -
  have inv: "oc_inv c" using assms(2) oc_run_inv [OF make_object_cache_inv [OF assms(1)]] by simp
  have "\<not> live k g (oc_run after c)" using retired_run [OF inv assms(3,4)] .
  moreover have "oc_wf (oc_run after c)" using oc_run_inv [OF inv] by (simp add: oc_inv_def)
  ultimately show ?thesis by (auto simp: land_refresh_retired oc_wf_def)
qed

theorem refresh_never_resurrects_witness:
  "let c = oc_run [OPut 0 0 [PyAtom 8] ''k'' 0 (Fin 60), OSwr 50 1 ''k'' 60, ODelete ''k''] demo_cache
   in fst (land_refresh 51 51 [PyAtom 8] ''k'' 1 0 60 (oc_run [OGet 50 ''k''] c)) = False"
proof -
  let ?ops = "[OPut 0 0 [PyAtom 8] ''k'' 0 (Fin 60), OSwr 50 1 ''k'' 60, ODelete ''k'']"
  have "1 \<le> generation (oc_run ?ops demo_cache) \<and> \<not> live ''k'' 1 (oc_run ?ops demo_cache)"
    by (simp add: demo_cache_def oc_put_def ttl_ok_def put_value_def value_size_def exceeds_budget_def
        oc_remove_def oc_evict_def over_bounds_def get_with_swr_def oc_delete_def live_def move_to_end_def Let_def)
  with refresh_never_resurrects [OF demo_cache_made refl, of 1 ?ops "''k''" 51 51 "[PyAtom 8]" 0 60 "[OGet 50 ''k'']"]
  show ?thesis by (simp add: Let_def)
qed

text \<open>
  At most one refresh per entry is in flight: after \<^verbatim>\<open>get_with_swr\<close> has told a caller to refresh, no other
  caller is told to refresh the same entry until that refresh is completed or cancelled; a refresh
  granted before that concerns a newer entry of the key.
\<close>

theorem single_refresh_in_flight:
  assumes "make_object_cache me ms ratio = Inr c0" "c = oc_run before c0"
    and "get_with_swr now j k ttl c = (r, c')" "sr_needs_refresh r"
    and "\<forall>op \<in> set ops. \<not> finishes k (sr_version r) op"
    and "get_with_swr now2 j2 k ttl2 (oc_run ops c') = (r2, c2)" "sr_needs_refresh r2"
  shows "sr_version r < sr_version r2"
proof -
  have inv: "oc_inv c" using assms(2) oc_run_inv [OF make_object_cache_inv [OF assms(1)]] by simp
  have inv': "oc_inv c'" using get_with_swr_inv [OF inv, of now j k ttl] assms(3) by simp
  note m = granted_marks [OF assms(3,4)] and m2 = granted_marks [OF assms(6,7)]
  have g: "sr_version r \<le> generation c'" using m inv' oc_wf_live_generation by (auto simp: oc_inv_def)
  have "live k (sr_version r) (oc_run ops c') \<longrightarrow> map_of (refreshing (oc_run ops c')) k = Some (sr_version r)"
    using owned_run [OF inv' g _ assms(5)] m by blast
  with m2 have "sr_version r2 \<noteq> sr_version r" by auto
  moreover have "live k (sr_version r2) c' \<or> sr_version r2 > generation c'"
    using run_generation [OF inv'] m2 by blast
  ultimately show ?thesis using m g live_unique by fastforce
qed

theorem single_refresh_in_flight_witness:
  "\<exists>r c' r2 c2. get_with_swr 50 1 ''k'' 60 (oc_run [OPut 0 0 [PyAtom 8] ''k'' 0 (Fin 60)] demo_cache) = (r, c')
     \<and> sr_needs_refresh r
     \<and> get_with_swr 95 1 ''k'' 60 (oc_run [OGet 51 ''k'', OPut 52 52 [PyAtom 8] ''k'' 0 (Fin 60)] c') = (r2, c2)
     \<and> sr_needs_refresh r2 \<and> sr_version r < sr_version r2"
proof -
  let ?c = "oc_run [OPut 0 0 [PyAtom 8] ''k'' 0 (Fin 60)] demo_cache"
  let ?g = "get_with_swr 50 1 ''k'' 60 ?c"
  let ?ops = "[OGet 51 ''k'', OPut 52 52 [PyAtom 8] ''k'' 0 (Fin 60)]"
  let ?g2 = "get_with_swr 95 1 ''k'' 60 (oc_run ?ops (snd ?g))"
  have r: "sr_needs_refresh (fst ?g)" "sr_needs_refresh (fst ?g2)"
    by (simp_all add: demo_cache_def oc_put_def ttl_ok_def put_value_def value_size_def exceeds_budget_def oc_get_def
        oc_remove_def oc_evict_def over_bounds_def get_with_swr_def move_to_end_def Let_def)
  have "sr_version (fst ?g) < sr_version (fst ?g2)"
    by (rule single_refresh_in_flight [OF demo_cache_made refl
            prod.collapse [of ?g, symmetric] r(1) _
            prod.collapse [of ?g2, symmetric] r(2)]) simp
  with r show ?thesis by (metis prod.collapse)
qed

text \<open>
  Whatever a hit returns was written under that key by an earlier put or completed refresh, and the
  entry has not reached its hard expiry.
\<close>

theorem object_cache_sound:
  assumes "make_object_cache me ms ratio = Inr c0" "oc_get now k (oc_run ops c0) = (Some v, c')"
  shows "(\<exists>op \<in> set ops. (k, v) \<in> writes op)
       \<and> (\<exists>e. map_of (oc_store (oc_run ops c0)) k = Some e \<and> oe_value e = v \<and> now < oe_expires_at e)"
proof -
  have inv: "oc_inv c0" using make_object_cache_inv [OF assms(1)] .
  have "oc.coherent (\<lambda>k v. \<exists>op \<in> set ops. (k, v) \<in> writes op) c0"
    using assms(1) by (auto simp: oc.coherent_def oc_lookup_def make_object_cache_def split: if_splits pyfloat.splits)
  from coherent_run [OF inv this, of ops]
  have "oc.coherent (\<lambda>k v. \<exists>op \<in> set ops. (k, v) \<in> writes op) (oc_run ops c0)" by blast
  moreover have e: "\<exists>e. map_of (oc_store (oc_run ops c0)) k = Some e \<and> oe_value e = v \<and> now < oe_expires_at e"
    using assms(2) by (auto simp: oc_get_def Let_def split: option.splits if_splits)
  ultimately show ?thesis by (auto simp: oc.coherent_def oc_lookup_def)
qed

theorem object_cache_sound_witness:
  "\<exists>op \<in> set [OPut 0 0 [PyAtom 8] ''k'' 0 (Fin 60)]. (''k'', 0) \<in> writes op"
  using object_cache_sound [OF demo_cache_made, of 5 "''k''" "[OPut 0 0 [PyAtom 8] ''k'' 0 (Fin 60)]" 0
      "snd (oc_get 5 ''k'' (oc_run [OPut 0 0 [PyAtom 8] ''k'' 0 (Fin 60)] demo_cache))"]
  by (simp add: demo_cache_def oc_put_def ttl_ok_def put_value_def value_size_def exceeds_budget_def oc_get_def
        oc_remove_def oc_evict_def over_bounds_def move_to_end_def Let_def)

text \<open>
  A put with a valid TTL is served from then on until \<open>now' + ttl\<close>, unless its size estimate exceeds
  the whole byte budget, in which case neither it nor an older value of the key is served.
\<close>

theorem object_cache_get_after_put:
  assumes "oc_inv c" "ttl_ok (Fin ttl)" "oc_put now now' h k v (Fin ttl) c = Inr c'"
  shows "fst (oc_get t k c') =
    (if exceeds_budget (value_size h v c) c \<or> t \<ge> now' + ttl then None else Some v)"
proof -
  have c': "c' = put_value now now' h k v ttl c" using assms(2,3) by (simp add: oc_put_def)
  show ?thesis
  proof (cases "exceeds_budget (value_size h v c) c")
    case True
    then show ?thesis by (simp add: c' put_value_oversize oc_get_def)
  next
    case False
    then show ?thesis
      by (simp add: c' put_value_stored [OF False] oc_get_def update_conv' put_entry_def Let_def)
  qed
qed

theorem object_cache_get_after_put_witness:
  "\<exists>c'. oc_put 0 0 [PyAtom 8] ''k'' 0 (Fin 60) demo_cache = Inr c'
     \<and> fst (oc_get 59 ''k'' c') = Some 0 \<and> fst (oc_get 60 ''k'' c') = None"
proof -
  have inv: "oc_inv demo_cache" using make_object_cache_inv [OF demo_cache_made] .
  have "oc_put 0 0 [PyAtom 8] ''k'' 0 (Fin 60) demo_cache = Inr (put_value 0 0 [PyAtom 8] ''k'' 0 60 demo_cache)"
    by (simp add: oc_put_def ttl_ok_def)
  with object_cache_get_after_put [OF inv _ this, of 59] object_cache_get_after_put [OF inv _ this, of 60]
  show ?thesis by (simp add: ttl_ok_def exceeds_budget_def demo_cache_def)
qed

end
