(* ===== verification/Wrapper_State.thy ===== *)
theory Wrapper_State
  imports Cache_Handler Function_Stats L1_Cache Object_Cache
begin

text \<open>
  \<^verbatim>\<open>create_cache_wrapper\<close> of \<^verbatim>\<open>decorators/wrapper.py\<close>: the configuration it settles, the variables its closures share, the
  choice of the cache key, the pools of background refreshes and the L1-only mode, which both wrappers have. The wrapped
  function is a parameter that acts on a world of its own; every clock reading, the process id, the nonce and what the
  operating system decides (a thread that does not start) belong to the call.
\<close>

section \<open>Configuration\<close>

definition L1_SWR_MAX_CONCURRENT_REFRESHES :: nat where "L1_SWR_MAX_CONCURRENT_REFRESHES = 32"
definition L2_SWR_MAX_CONCURRENT_REFRESHES :: nat where "L2_SWR_MAX_CONCURRENT_REFRESHES = 32"
definition MAX_TOTAL_TTL :: int where "MAX_TOTAL_TTL = 2592000"

text \<open>The \<^verbatim>\<open>stale_ttl\<close> argument as written by the user.\<close>

datatype stale_arg = StaleInt int | StaleBool bool | StaleOther string

definition config_error :: "string \<Rightarrow> pyexn" where
  "config_error msg = PyExn ''ConfigurationError'' msg"

definition effective_stale_ttl ::
  "int option \<Rightarrow> stale_arg option \<Rightarrow> bool \<Rightarrow> bool \<Rightarrow> pyexn + int option" where
  "effective_stale_ttl ttl stale_ttl swr_by_default capable =
     (case stale_ttl of
        Some (StaleBool b) \<Rightarrow> Inl (config_error ''stale_ttl must be a non-negative integer'')
      | Some (StaleOther t) \<Rightarrow> Inl (config_error ''stale_ttl must be a non-negative integer'')
      | Some (StaleInt n) \<Rightarrow>
          if n < 0 then Inl (config_error ''stale_ttl must be a non-negative integer'')
          else if n = 0 then Inr None
          else (case ttl of
                  None \<Rightarrow> Inl (config_error ''stale_ttl requires a positive ttl'')
                | Some t \<Rightarrow>
                    if t \<le> 0 then Inl (config_error ''stale_ttl requires a positive ttl'')
                    else if t + n > MAX_TOTAL_TTL then Inl (config_error ''ttl + stale_ttl must not exceed 2592000 seconds'')
                    else if \<not> capable then Inl (config_error ''stale_ttl requires an SWR-capable backend'')
                    else Inr (Some n))
      | None \<Rightarrow>
          (case ttl of
             Some t \<Rightarrow>
               if swr_by_default \<and> t > 0 \<and> capable
               then (let w = min t (MAX_TOTAL_TTL - t) in Inr (if w > 0 then Some w else None))
               else Inr None
           | None \<Rightarrow> Inr None))"

text \<open>
  How a key is made: the interop generator, a user's key function (\<open>Inl\<close> the type name of a result that is not a
  string), the text of the arguments for the fast mode with BLAKE3 and the function's hash, which \<^verbatim>\<open>function_hash\<close> made at
  decoration time, and the standard generator.
\<close>

record 'g key_source =
  ks_interop :: "('g \<Rightarrow> pyexn + string) option"
  ks_custom :: "('g \<Rightarrow> pyexn + (string + string)) option"
  ks_fast :: bool
  ks_repr :: "'g \<Rightarrow> pyexn + string"
  ks_blake3_hex :: "bytes \<Rightarrow> string"
  ks_func_hash :: string
  ks_standard :: "'g \<Rightarrow> pyexn + string"

definition fast_hash :: "(bytes \<Rightarrow> string) \<Rightarrow> string \<Rightarrow> nat \<Rightarrow> pyexn + string" where
  "fast_hash blake3_hex s digest_size =
     (case encode_utf8 s of Inl e \<Rightarrow> Inl e | Inr b \<Rightarrow> Inr (take (digest_size * 2) (blake3_hex b)))"

definition function_hash :: "(bytes \<Rightarrow> string) \<Rightarrow> string \<Rightarrow> pyexn + string" where
  "function_hash blake3_hex s = fast_hash blake3_hex s 4"

definition cache_key_hash :: "(bytes \<Rightarrow> string) \<Rightarrow> string \<Rightarrow> pyexn + string" where
  "cache_key_hash blake3_hex s = fast_hash blake3_hex s 16"

record 'g wrapper_config =
  wc_namespace :: "string option"
  wc_ttl :: "int option"
  wc_stale_ttl :: "int option"
  wc_l1_only :: bool
  wc_l1_swr :: bool
  wc_refresh_ttl_on_get :: bool
  wc_ttl_refresh_threshold :: real
  wc_has_params :: bool
  wc_keys :: "'g key_source"

definition default_namespace :: "'g wrapper_config \<Rightarrow> string" where
  "default_namespace cfg = (if truthy_str (wc_namespace cfg) then the (wc_namespace cfg) else ''default'')"

definition choose_key :: "'g wrapper_config \<Rightarrow> 'g \<Rightarrow> pyexn + string" where
  "choose_key cfg args =
     (case ks_interop (wc_keys cfg) of
        Some f \<Rightarrow> f args
      | None \<Rightarrow>
          (case ks_custom (wc_keys cfg) of
             Some f \<Rightarrow>
               (case f args of
                  Inl e \<Rightarrow> Inl e
                | Inr (Inl ty) \<Rightarrow> Inl (PyExn ''TypeError'' (''key function must return str, got '' @ ty))
                | Inr (Inr s) \<Rightarrow> Inr (default_namespace cfg @ '':'' @ s))
           | None \<Rightarrow>
               if ks_fast (wc_keys cfg) then
                 (case ks_repr (wc_keys cfg) args of
                    Inl e \<Rightarrow> Inl e
                  | Inr s \<Rightarrow>
                      (case cache_key_hash (ks_blake3_hex (wc_keys cfg)) s of
                         Inl e \<Rightarrow> Inl e
                       | Inr ah \<Rightarrow> Inr (default_namespace cfg @ '':'' @ ks_func_hash (wc_keys cfg) @ '':'' @ ah)))
               else ks_standard (wc_keys cfg) args))"

text \<open>The key \<^verbatim>\<open>invalidate_cache\<close> deletes: it knows neither the key function nor the fast mode.\<close>

definition invalidation_key :: "'g wrapper_config \<Rightarrow> 'g \<Rightarrow> pyexn + string" where
  "invalidation_key cfg args =
     (case ks_interop (wc_keys cfg) of Some f \<Rightarrow> f args | None \<Rightarrow> ks_standard (wc_keys cfg) args)"

section \<open>State of a decorated function\<close>

text \<open>A pool of background refreshes: keys in flight, free slots, the process that owns it.\<close>

record swr_pool =
  sp_inflight :: "string list"
  sp_slots :: nat
  sp_pid :: int

datatype 'g job = L1Refresh string int 'g | L2Revalidate string 'g | TtlRefresh string int

record ('g, 'k, 'r, 's, 'w) wrapper =
  w_op :: "('g, 'k, 'r, 's) op_state"
  w_backend :: "'s backend option"
  w_l1 :: "l1_cache option"
  w_object_cache :: "object_cache option"
  w_stats :: function_stats
  w_context :: stats_context
  w_cached_keys :: "string list"
  w_l2_swr :: swr_pool
  w_l1_swr :: swr_pool
  w_jobs :: "'g job list"
  w_world :: 'w

text \<open>
  The program around the wrapper: serializer and cipher, the function, the identity of an object in the heap (the
  L1-only mode stores references), whether the text of a value can be encoded (the hit path measures it) and whether
  arguments can be deep-copied.
\<close>

record ('a, 'k, 'r, 'g, 'w) program =
  pg_env :: "('a, 'k, 'r) ser_env"
  pg_func :: "'g \<Rightarrow> 'w \<Rightarrow> (pyexn + 'a) \<times> 'w"
  pg_id :: "'a \<Rightarrow> nat"
  pg_obj :: "nat \<Rightarrow> 'a"
  pg_text_error :: "'a \<Rightarrow> pyexn option"
  pg_copyable :: "'g \<Rightarrow> bool"

text \<open>One call: the clock at its reading points, and what the surroundings decide.\<close>

record 's call_env =
  cl_read :: real
  cl_start :: real
  cl_got :: real
  cl_put :: real
  cl_evict :: real
  cl_end :: real
  cl_jitter :: real
  cl_pid :: int
  cl_nonce :: bytes
  cl_heap :: heap
  cl_thread_starts :: bool
  cl_provider :: "pyexn + 's backend"
  cl_interop_error :: "pyexn option"

definition on_features ::
  "(orchestrator \<Rightarrow> orchestrator) \<Rightarrow> ('g, 'k, 'r, 's, 'w) wrapper \<Rightarrow> ('g, 'k, 'r, 's, 'w) wrapper" where
  "on_features g w = w\<lparr>w_op := (w_op w)\<lparr>os_features := g (os_features (w_op w))\<rparr>\<rparr>"

definition on_stats ::
  "(function_stats \<Rightarrow> function_stats) \<Rightarrow> ('g, 'k, 'r, 's, 'w) wrapper \<Rightarrow> ('g, 'k, 'r, 's, 'w) wrapper" where
  "on_stats g w = w\<lparr>w_stats := g (w_stats w)\<rparr>"

definition on_op ::
  "(('g, 'k, 'r, 's) op_state \<Rightarrow> 'b \<times> ('g, 'k, 'r, 's) op_state) \<Rightarrow> ('g, 'k, 'r, 's, 'w) wrapper
   \<Rightarrow> 'b \<times> ('g, 'k, 'r, 's, 'w) wrapper" where
  "on_op f w = (case f (w_op w) of (r, st) \<Rightarrow> (r, w\<lparr>w_op := st\<rparr>))"

definition run_func ::
  "('a, 'k, 'r, 'g, 'w) program \<Rightarrow> 'g \<Rightarrow> ('g, 'k, 'r, 's, 'w) wrapper \<Rightarrow> (pyexn + 'a) \<times> ('g, 'k, 'r, 's, 'w) wrapper" where
  "run_func pg args w = (case pg_func pg args (w_world w) of (r, x) \<Rightarrow> (r, w\<lparr>w_world := x\<rparr>))"

definition report_error ::
  "real \<Rightarrow> pyexn \<Rightarrow> string \<Rightarrow> bool \<Rightarrow> real \<Rightarrow> ('g, 'k, 'r, 's, 'w) wrapper \<Rightarrow> ('g, 'k, 'r, 's, 'w) wrapper" where
  "report_error now e op sp dur w = on_features (handle_cache_error now e op sp dur) w"

text \<open>A recorded success with its metric, as after a hit and a store.\<close>

definition note_success ::
  "string \<Rightarrow> real \<Rightarrow> metric_call \<Rightarrow> ('g, 'k, 'r, 's, 'w) wrapper \<Rightarrow> ('g, 'k, 'r, 's, 'w) wrapper" where
  "note_success op dur m w =
     on_features (\<lambda>f. record_cache_operation m (orch_record_success (set_operation_context op dur f))) w"

definition metric :: "'g wrapper_config \<Rightarrow> string \<Rightarrow> real \<Rightarrow> metric_call" where
  "metric cfg op dur = \<lparr>mc_operation = op, mc_namespace = default_namespace cfg, mc_success = True, mc_duration_ms = dur\<rparr>"

definition track_key :: "string \<Rightarrow> ('g, 'k, 'r, 's, 'w) wrapper \<Rightarrow> ('g, 'k, 'r, 's, 'w) wrapper" where
  "track_key key w = w\<lparr>w_cached_keys := List.insert key (w_cached_keys w)\<rparr>"

definition ttl_float :: "int option \<Rightarrow> pyfloat option" where
  "ttl_float ttl = map_option (\<lambda>t. Fin (of_int t)) ttl"

text \<open>\<^verbatim>\<open>_put_l1\<close>, also the form of the other L1 writes.\<close>

definition put_l1 ::
  "'g wrapper_config \<Rightarrow> real \<Rightarrow> string \<Rightarrow> bytes \<Rightarrow> ('g, 'k, 'r, 's, 'w) wrapper \<Rightarrow> ('g, 'k, 'r, 's, 'w) wrapper" where
  "put_l1 cfg now key b w =
     (case w_l1 w of
        Some c \<Rightarrow> if key \<noteq> [] then w\<lparr>w_l1 := Some (put_bytes now key b (ttl_float (wc_ttl cfg)) None c)\<rparr> else w
      | None \<Rightarrow> w)"

section \<open>Pools of background refreshes\<close>

definition fresh_pool :: "nat \<Rightarrow> int \<Rightarrow> swr_pool" where
  "fresh_pool n pid = \<lparr>sp_inflight = [], sp_slots = n, sp_pid = pid\<rparr>"

definition after_fork :: "nat \<Rightarrow> int \<Rightarrow> swr_pool \<Rightarrow> swr_pool" where
  "after_fork n pid p = (if sp_pid p \<noteq> pid then fresh_pool n pid else p)"

definition l2_swr_try_begin :: "int \<Rightarrow> string \<Rightarrow> swr_pool \<Rightarrow> bool \<times> swr_pool" where
  "l2_swr_try_begin pid key p0 =
     (let p = after_fork L2_SWR_MAX_CONCURRENT_REFRESHES pid p0 in
      if key \<in> set (sp_inflight p) then (False, p)
      else if sp_slots p = 0 then (False, p)
      else (True, p\<lparr>sp_slots := sp_slots p - 1, sp_inflight := List.insert key (sp_inflight p)\<rparr>))"

text \<open>A bounded semaphore refuses a release above its bound; the exception ends in the background thread.\<close>

definition release_slot :: "nat \<Rightarrow> swr_pool \<Rightarrow> swr_pool" where
  "release_slot n p = (if sp_slots p < n then p\<lparr>sp_slots := sp_slots p + 1\<rparr> else p)"

definition l2_swr_end :: "string \<Rightarrow> swr_pool \<Rightarrow> swr_pool" where
  "l2_swr_end key p = release_slot L2_SWR_MAX_CONCURRENT_REFRESHES (p\<lparr>sp_inflight := removeAll key (sp_inflight p)\<rparr>)"

definition l2_swr_schedule ::
  "('a, 'k, 'r, 'g, 'w) program \<Rightarrow> 's call_env \<Rightarrow> string \<Rightarrow> 'g \<Rightarrow> ('g, 'k, 'r, 's, 'w) wrapper \<Rightarrow> ('g, 'k, 'r, 's, 'w) wrapper" where
  "l2_swr_schedule pg cl key args w =
     (case l2_swr_try_begin (cl_pid cl) key (w_l2_swr w) of
        (False, p) \<Rightarrow> w\<lparr>w_l2_swr := p\<rparr>
      | (True, p) \<Rightarrow>
          if pg_copyable pg args \<and> cl_thread_starts cl
          then w\<lparr>w_l2_swr := p, w_jobs := w_jobs w @ [L2Revalidate key args]\<rparr>
          else w\<lparr>w_l2_swr := l2_swr_end key p\<rparr>)"

definition l1_cancel :: "string \<Rightarrow> int \<Rightarrow> ('g, 'k, 'r, 's, 'w) wrapper \<Rightarrow> ('g, 'k, 'r, 's, 'w) wrapper" where
  "l1_cancel key version w = w\<lparr>w_object_cache := map_option (cancel_refresh key version) (w_object_cache w)\<rparr>"

definition l1_swr_acquire ::
  "('a, 'k, 'r, 'g, 'w) program \<Rightarrow> 's call_env \<Rightarrow> string \<Rightarrow> int \<Rightarrow> 'g \<Rightarrow> ('g, 'k, 'r, 's, 'w) wrapper
   \<Rightarrow> bool \<times> ('g, 'k, 'r, 's, 'w) wrapper" where
  "l1_swr_acquire pg cl key version args w =
     (let p = after_fork L1_SWR_MAX_CONCURRENT_REFRESHES (cl_pid cl) (w_l1_swr w) in
      if sp_slots p = 0 then (False, l1_cancel key version (w\<lparr>w_l1_swr := p\<rparr>))
      else if pg_copyable pg args then (True, w\<lparr>w_l1_swr := p\<lparr>sp_slots := sp_slots p - 1\<rparr>\<rparr>)
      else (False, l1_cancel key version (w\<lparr>w_l1_swr := p\<rparr>)))"

section \<open>L1-only mode\<close>

definition read_object ::
  "'g wrapper_config \<Rightarrow> 's call_env \<Rightarrow> string \<Rightarrow> object_cache \<Rightarrow> swr_result \<times> object_cache" where
  "read_object cfg cl key c =
     (case wc_ttl cfg of
        Some t \<Rightarrow>
          if wc_l1_swr cfg then get_with_swr (cl_read cl) (cl_jitter cl) key (of_int t) c
          else (case oc_get (cl_read cl) key c of
                  (v, c1) \<Rightarrow> (\<lparr>sr_hit = v \<noteq> None, sr_value = v, sr_needs_refresh = False, sr_version = 0\<rparr>, c1))
      | None \<Rightarrow> (case oc_get (cl_read cl) key c of
                   (v, c1) \<Rightarrow> (\<lparr>sr_hit = v \<noteq> None, sr_value = v, sr_needs_refresh = False, sr_version = 0\<rparr>, c1)))"

text \<open>A thread that does not start gives the slot and the refresh back; an asynchronous task always starts.\<close>

definition schedule_l1_refresh ::
  "('a, 'k, 'r, 'g, 'w) program \<Rightarrow> 's call_env \<Rightarrow> bool \<Rightarrow> string \<Rightarrow> int \<Rightarrow> 'g \<Rightarrow> ('g, 'k, 'r, 's, 'w) wrapper
   \<Rightarrow> ('g, 'k, 'r, 's, 'w) wrapper" where
  "schedule_l1_refresh pg cl is_async key version args w =
     (case l1_swr_acquire pg cl key version args w of
        (False, w1) \<Rightarrow> w1
      | (True, w1) \<Rightarrow>
          if is_async \<or> cl_thread_starts cl then w1\<lparr>w_jobs := w_jobs w1 @ [L1Refresh key version args]\<rparr>
          else l1_cancel key version (w1\<lparr>w_l1_swr := release_slot L1_SWR_MAX_CONCURRENT_REFRESHES (w_l1_swr w1)\<rparr>))"

definition no_expiry_ttl :: int where "no_expiry_ttl = 31536000"

definition l1_only_call ::
  "('a, 'k, 'r, 'g, 'w) program \<Rightarrow> 'g wrapper_config \<Rightarrow> 's call_env \<Rightarrow> bool \<Rightarrow> string \<Rightarrow> 'g \<Rightarrow> ('g, 'k, 'r, 's, 'w) wrapper
   \<Rightarrow> (pyexn + 'a) \<times> ('g, 'k, 'r, 's, 'w) wrapper" where
  "l1_only_call pg cfg cl is_async key args w =
     (case w_object_cache w of
        None \<Rightarrow> run_func pg args w
      | Some c \<Rightarrow>
          (case read_object cfg cl key c of
             (r, c1) \<Rightarrow>
               let w1 = w\<lparr>w_object_cache := Some c1\<rparr> in
               if sr_hit r then
                 (let w2 = on_stats (record_l1_hit (cl_read cl)) w1;
                      w3 = (if sr_needs_refresh r then schedule_l1_refresh pg cl is_async key (sr_version r) args w2 else w2)
                  in (Inr (pg_obj pg (the (sr_value r))), w3))
               else
                 (case run_func pg args (on_stats (record_miss (cl_read cl)) w1) of
                    (Inl e, w2) \<Rightarrow> (Inl e, w2)
                  | (Inr v, w2) \<Rightarrow>
                      (case oc_put (cl_put cl) (cl_evict cl) (cl_heap cl) key (pg_id pg v)
                              (Fin (of_int (case wc_ttl cfg of Some t \<Rightarrow> t | None \<Rightarrow> no_expiry_ttl))) (the (w_object_cache w2)) of
                         Inl oe \<Rightarrow> (Inl (PyExn ''ValueError'' ''ttl must be a finite number >= 1''), w2)
                       | Inr c2 \<Rightarrow> (Inr v, track_key key (w2\<lparr>w_object_cache := Some c2\<rparr>))))))"

text \<open>The background jobs. Both end by giving their slot back.\<close>

definition run_l1_refresh ::
  "('a, 'k, 'r, 'g, 'w) program \<Rightarrow> 'g wrapper_config \<Rightarrow> 's call_env \<Rightarrow> string \<Rightarrow> int \<Rightarrow> 'g \<Rightarrow> ('g, 'k, 'r, 's, 'w) wrapper
   \<Rightarrow> ('g, 'k, 'r, 's, 'w) wrapper" where
  "run_l1_refresh pg cfg cl key version args w =
     (case run_func pg args w of
        (r, w1) \<Rightarrow>
          let w2 = (case (r, w_object_cache w1, wc_ttl cfg) of
                      (Inl e, _, _) \<Rightarrow> l1_cancel key version w1
                    | (Inr v, Some c, Some t) \<Rightarrow>
                        (case complete_refresh (cl_put cl) (cl_evict cl) (cl_heap cl) key version (pg_id pg v) (Fin (of_int t)) c of
                           Inl oe \<Rightarrow> w1
                         | Inr (landed, c1) \<Rightarrow> w1\<lparr>w_object_cache := Some c1\<rparr>)
                    | _ \<Rightarrow> w1)
          in w2\<lparr>w_l1_swr := release_slot L1_SWR_MAX_CONCURRENT_REFRESHES (w_l1_swr w2)\<rparr>)"

text \<open>
  \<^verbatim>\<open>_l2_swr_revalidate_sync\<close>, and \<^verbatim>\<open>_l2_swr_revalidate_async\<close> when the backend has no lock or grants the lease; \<open>lease\<close> is
  false when another client holds it or taking it failed. Failures end here.
\<close>

definition run_l2_revalidate ::
  "('a, 'k, 'r, 'g, 'w) program \<Rightarrow> 'g wrapper_config \<Rightarrow> 's backend \<Rightarrow> 's call_env \<Rightarrow> bool \<Rightarrow> string \<Rightarrow> 'g \<Rightarrow> ('g, 'k, 'r, 's, 'w) wrapper
   \<Rightarrow> ('g, 'k, 'r, 's, 'w) wrapper" where
  "run_l2_revalidate pg cfg bk cl lease key args w =
     (let w3 =
        (if \<not> lease then w
         else case run_func pg args w of
                (Inl e, w1) \<Rightarrow> w1
              | (Inr v, w1) \<Rightarrow>
                  (case on_op (on_ser (serialize_data (pg_env pg) (cl_nonce cl) args v key)) w1 of
                     (Inl e, w2) \<Rightarrow> w2
                   | (Inr data, w2) \<Rightarrow>
                       put_l1 cfg (cl_put cl) key data
                         (snd (on_op (std_set bk key data (wc_ttl cfg) (wc_stale_ttl cfg)) w2))))
      in w3\<lparr>w_l2_swr := l2_swr_end key (w_l2_swr w3)\<rparr>)"

end
