(* ===== verification/Sync_Wrapper.thy ===== *)
theory Sync_Wrapper
  imports Wrapper_State
begin

text \<open>
  \<^verbatim>\<open>sync_wrapper\<close>, \<^verbatim>\<open>invalidate_cache\<close> and \<^verbatim>\<open>cache_clear\<close> of \<^verbatim>\<open>decorators/wrapper.py\<close>. A call runs to its end before the next
  one starts; background refreshes are steps between calls. Logging, spans and correlation identifiers change nothing a
  caller sees and are left out; the span is never null, so errors reported with it count as exceptions of the metrics.
\<close>

section \<open>The wrapper\<close>

definition set_context :: "stats_context \<Rightarrow> ('g, 'k, 'r, 's, 'w) wrapper \<Rightarrow> ('g, 'k, 'r, 's, 'w) wrapper" where
  "set_context c w = w\<lparr>w_context := c\<rparr>"

text \<open>\<^verbatim>\<open>reset_current_function_stats(token)\<close> on the state of a finished branch.\<close>

definition restore :: "stats_context \<Rightarrow> 'b \<times> ('g, 'k, 'r, 's, 'w) wrapper \<Rightarrow> 'b \<times> ('g, 'k, 'r, 's, 'w) wrapper" where
  "restore token r = (fst r, set_context (reset_current_function_stats token (w_context (snd r))) (snd r))"

definition circuit_open :: pyexn where
  "circuit_open = BackendExn (BackendError ''Circuit breaker OPEN - failing fast'' TRANSIENT None None None)"

definition open_backend ::
  "'s call_env \<Rightarrow> ('g, 'k, 'r, 's, 'w) wrapper \<Rightarrow> (pyexn + 's backend) \<times> ('g, 'k, 'r, 's, 'w) wrapper" where
  "open_backend cl w =
     (if orch_breaker (os_features (w_op w)) \<noteq> None \<and> \<not> should_allow_request (os_features (w_op w)) then (Inl circuit_open, w)
      else case w_backend w of
             Some b \<Rightarrow> (Inr b, w)
           | None \<Rightarrow> (case cl_provider cl of Inl e \<Rightarrow> (Inl e, w) | Inr b \<Rightarrow> (Inr b, w\<lparr>w_backend := Some b\<rparr>)))"

datatype 'a l1_read = L1Hit 'a | L1Raise pyexn | L1Through

text \<open>The L1 guard: what a hit returns, what it raises, or that the read goes on to the backend.\<close>

definition drop_l1 :: "string \<Rightarrow> ('g, 'k, 'r, 's, 'w) wrapper \<Rightarrow> ('g, 'k, 'r, 's, 'w) wrapper" where
  "drop_l1 key w = w\<lparr>w_l1 := map_option (invalidate key) (w_l1 w)\<rparr>"

definition l1_failure ::
  "string \<Rightarrow> pyexn \<Rightarrow> ('g, 'k, 'r, 's, 'w) wrapper \<Rightarrow> 'a l1_read \<times> ('g, 'k, 'r, 's, 'w) wrapper" where
  "l1_failure key e w =
     (if is_serialization_error e then
        (case handle_decrypt_failure e ''l1'' (sh_fail_closed (os_ser (w_op w))) (os_ser (w_op w)) of
           (Inl x, h) \<Rightarrow> (L1Raise x, drop_l1 key (w\<lparr>w_op := (w_op w)\<lparr>os_ser := h\<rparr>\<rparr>))
         | (Inr _, h) \<Rightarrow> (L1Through, drop_l1 key (w\<lparr>w_op := (w_op w)\<lparr>os_ser := h\<rparr>\<rparr>)))
      else if is_keyring_error e then (L1Raise e, w)
      else (L1Through, drop_l1 key w))"

definition read_l1 ::
  "('a, 'k, 'r, 'g, 'w) program \<Rightarrow> 'g wrapper_config \<Rightarrow> 's call_env \<Rightarrow> string \<Rightarrow> ('g, 'k, 'r, 's, 'w) wrapper
   \<Rightarrow> 'a l1_read \<times> ('g, 'k, 'r, 's, 'w) wrapper" where
  "read_l1 pg cfg cl key w =
     (case w_l1 w of
        None \<Rightarrow> (L1Through, w)
      | Some c \<Rightarrow>
          if key = [] then (L1Through, w)
          else (case l1_get (cl_read cl) key c of
                  (None, c1) \<Rightarrow> (L1Through, w\<lparr>w_l1 := Some c1\<rparr>)
                | (Some b, c1) \<Rightarrow>
                    if b = [] then (L1Through, w\<lparr>w_l1 := Some c1\<rparr>)
                    else (case on_op (on_ser (deserialize_data (pg_env pg) b key)) (w\<lparr>w_l1 := Some c1\<rparr>) of
                            (Inr v, w1) \<Rightarrow>
                              (L1Hit v, on_stats (record_l1_hit (cl_read cl)) (note_success ''l1_get'' (1 / 1000) (metric cfg ''get'' (1 / 1000)) w1))
                          | (Inl e, w1) \<Rightarrow> l1_failure key e w1)))"

text \<open>The read of the backend: with the freshness signal when a stale window is configured.\<close>

definition read_l2 ::
  "('a, 'k, 'r, 'g, 'w) program \<Rightarrow> 'g wrapper_config \<Rightarrow> 's backend \<Rightarrow> 's call_env \<Rightarrow> string \<Rightarrow> ('g, 'k, 'r, 's, 'w) wrapper
   \<Rightarrow> (pyexn + ('a \<times> bool) option) \<times> ('g, 'k, 'r, 's, 'w) wrapper" where
  "read_l2 pg cfg bk cl key w =
     (if wc_stale_ttl cfg \<noteq> None
      then on_op (get_cached_value_with_freshness (pg_env pg) bk (cl_got cl) key) w
      else (case on_op (get_cached_value (pg_env pg) bk (cl_got cl) key) w of
              (Inl e, w1) \<Rightarrow> (Inl e, w1)
            | (Inr r, w1) \<Rightarrow> (Inr (map_option (\<lambda>v. (v, False)) r), w1)))"

definition get_ms :: "'s call_env \<Rightarrow> real" where
  "get_ms cl = (cl_got cl - cl_start cl) * 1000"

definition set_ms :: "'s call_env \<Rightarrow> real" where
  "set_ms cl = (cl_end cl - cl_start cl) * 1000"

text \<open>
  A hit in the backend. The success is recorded before the text of the value is measured, so a value whose text cannot be
  encoded ends the branch with that exception.
\<close>

definition l2_hit ::
  "('a, 'k, 'r, 'g, 'w) program \<Rightarrow> 'g wrapper_config \<Rightarrow> 's call_env \<Rightarrow> string \<Rightarrow> 'g \<Rightarrow> 'a \<Rightarrow> bool \<Rightarrow> ('g, 'k, 'r, 's, 'w) wrapper
   \<Rightarrow> (pyexn + 'a) \<times> ('g, 'k, 'r, 's, 'w) wrapper" where
  "l2_hit pg cfg cl key args v stale w =
     (case pg_text_error pg v of
        Some e \<Rightarrow> (Inl e, on_features (\<lambda>f. orch_record_success (set_operation_context ''get'' (get_ms cl) f)) w)
      | None \<Rightarrow>
          let w1 = on_stats (record_l2_hit (get_ms cl) (cl_got cl)) (note_success ''get'' (get_ms cl) (metric cfg ''get'' (get_ms cl)) w)
          in (Inr v, if stale then l2_swr_schedule pg cl key args w1 else w1))"

text \<open>After the function returned a value: store it; only an interop rejection gets out.\<close>

definition store_value ::
  "('a, 'k, 'r, 'g, 'w) program \<Rightarrow> 'g wrapper_config \<Rightarrow> 's backend \<Rightarrow> 's call_env \<Rightarrow> string \<Rightarrow> 'g \<Rightarrow> 'a \<Rightarrow> ('g, 'k, 'r, 's, 'w) wrapper
   \<Rightarrow> (pyexn + 'a) \<times> ('g, 'k, 'r, 's, 'w) wrapper" where
  "store_value pg cfg bk cl key args v w =
     (case on_op (store_result (pg_env pg) bk (cl_nonce cl) key v (wc_ttl cfg) args (wc_stale_ttl cfg)) w of
        (Inl e, w1) \<Rightarrow>
          if is_interop_error e then (Inl e, w1)
          else (Inr v, report_error (cl_end cl) e ''cache_set'' False (set_ms cl) w1)
      | (Inr b, w1) \<Rightarrow>
          let w2 = (case b of Some data \<Rightarrow> if data \<noteq> [] then put_l1 cfg (cl_put cl) key data w1 else w1 | None \<Rightarrow> w1)
          in (Inr v, note_success ''set'' (set_ms cl) (metric cfg ''set'' (set_ms cl)) (track_key key w2)))"

fun is_backend_error :: "pyexn \<Rightarrow> bool" where
  "is_backend_error (BackendExn e) = True"
| "is_backend_error (PyExn c t) = False"

text \<open>
  The \<^verbatim>\<open>except\<close> clauses around the miss path: a \<^verbatim>\<open>BackendError\<close>, wherever it comes from, runs the function once more; any
  other exception is recorded as a failure and raised.
\<close>

definition miss_failure ::
  "('a, 'k, 'r, 'g, 'w) program \<Rightarrow> 's call_env \<Rightarrow> 'g \<Rightarrow> pyexn \<Rightarrow> ('g, 'k, 'r, 's, 'w) wrapper
   \<Rightarrow> (pyexn + 'a) \<times> ('g, 'k, 'r, 's, 'w) wrapper" where
  "miss_failure pg cl args e w =
     (if is_backend_error e then run_func pg args (report_error (cl_end cl) e ''backend_connection'' False 0 w)
      else (Inl e, on_features (orch_record_failure (cl_end cl) e) w))"

definition miss_path ::
  "('a, 'k, 'r, 'g, 'w) program \<Rightarrow> 'g wrapper_config \<Rightarrow> 's backend \<Rightarrow> 's call_env \<Rightarrow> string \<Rightarrow> 'g \<Rightarrow> ('g, 'k, 'r, 's, 'w) wrapper
   \<Rightarrow> (pyexn + 'a) \<times> ('g, 'k, 'r, 's, 'w) wrapper" where
  "miss_path pg cfg bk cl key args w =
     (case run_func pg args (on_stats (record_miss (cl_got cl)) w) of
        (Inl e, w1) \<Rightarrow> miss_failure pg cl args e w1
      | (Inr v, w1) \<Rightarrow>
          (case store_value pg cfg bk cl key args v w1 of
             (Inl e, w2) \<Rightarrow> miss_failure pg cl args e w2
           | (Inr u, w2) \<Rightarrow> (Inr u, w2)))"

text \<open>The read of the backend with its \<^verbatim>\<open>except\<close> clauses: a tamper failure is raised, any other exception runs the function uncached.\<close>

definition backed_read ::
  "('a, 'k, 'r, 'g, 'w) program \<Rightarrow> 'g wrapper_config \<Rightarrow> 's backend \<Rightarrow> stats_context \<Rightarrow> 's call_env \<Rightarrow> string \<Rightarrow> 'g
   \<Rightarrow> ('g, 'k, 'r, 's, 'w) wrapper \<Rightarrow> (pyexn + 'a) \<times> ('g, 'k, 'r, 's, 'w) wrapper" where
  "backed_read pg cfg bk token cl key args w =
     (let failed = (\<lambda>e w1.
            if is_auth_error e then restore token (Inl e, w1)
            else run_func pg args (snd (restore token ((), report_error (cl_got cl) e ''cache_get'' True (get_ms cl) w1))))
      in case read_l2 pg cfg bk cl key w of
           (Inl e, w1) \<Rightarrow> failed e w1
         | (Inr None, w1) \<Rightarrow> restore token (miss_path pg cfg bk cl key args w1)
         | (Inr (Some (v, stale)), w1) \<Rightarrow>
             (case l2_hit pg cfg cl key args v stale w1 of
                (Inl e, w2) \<Rightarrow> failed e w2
              | (Inr u, w2) \<Rightarrow> restore token (Inr u, w2)))"

definition backed_call ::
  "('a, 'k, 'r, 'g, 'w) program \<Rightarrow> 'g wrapper_config \<Rightarrow> stats_context \<Rightarrow> 's call_env \<Rightarrow> string \<Rightarrow> 'g
   \<Rightarrow> ('g, 'k, 'r, 's, 'w) wrapper \<Rightarrow> (pyexn + 'a) \<times> ('g, 'k, 'r, 's, 'w) wrapper" where
  "backed_call pg cfg token cl key args w =
     (case open_backend cl w of
        (Inl e, w1) \<Rightarrow>
          run_func pg args (snd (restore token ((), report_error (cl_start cl) e ''client_creation'' True 0 w1)))
      | (Inr bk, w1) \<Rightarrow>
          (case (if ks_interop (wc_keys cfg) \<noteq> None then cl_interop_error cl else None) of
             Some e \<Rightarrow> restore token (Inl e, w1)
           | None \<Rightarrow>
               (case read_l1 pg cfg cl key w1 of
                  (L1Hit v, w2) \<Rightarrow> restore token (Inr v, w2)
                | (L1Raise e, w2) \<Rightarrow> restore token (Inl e, w2)
                | (L1Through, w2) \<Rightarrow> backed_read pg cfg bk token cl key args w2)))"

definition sync_wrapper ::
  "('a, 'k, 'r, 'g, 'w) program \<Rightarrow> 'g wrapper_config \<Rightarrow> 's call_env \<Rightarrow> bool \<Rightarrow> 'g \<Rightarrow> ('g, 'k, 'r, 's, 'w) wrapper
   \<Rightarrow> (pyexn + 'a) \<times> ('g, 'k, 'r, 's, 'w) wrapper" where
  "sync_wrapper pg cfg cl bypass args w =
     (if bypass then run_func pg args w
      else case set_current_function_stats (Some (fs_function_identifier (w_stats w))) (w_context w) of
        (token, ctx) \<Rightarrow>
          let w1 = set_context ctx w in
          (case choose_key cfg args of
             Inl e \<Rightarrow>
               if ks_interop (wc_keys cfg) \<noteq> None then restore token (Inl e, w1)
               else run_func pg args (snd (restore token ((), report_error (cl_start cl) e ''key_generation'' False 0 w1)))
           | Inr key \<Rightarrow>
               if wc_l1_only cfg then restore token (l1_only_call pg cfg cl False key args w1)
               else backed_call pg cfg token cl key args w1))"

section \<open>Invalidation\<close>

definition resolve_backend :: "'g wrapper_config \<Rightarrow> 's call_env \<Rightarrow> ('g, 'k, 'r, 's, 'w) wrapper \<Rightarrow> ('g, 'k, 'r, 's, 'w) wrapper" where
  "resolve_backend cfg cl w =
     (if \<not> wc_l1_only cfg \<and> w_backend w = None
      then (case cl_provider cl of Inl e \<Rightarrow> w | Inr b \<Rightarrow> w\<lparr>w_backend := Some b\<rparr>) else w)"

definition drop_local :: "string \<Rightarrow> ('g, 'k, 'r, 's, 'w) wrapper \<Rightarrow> ('g, 'k, 'r, 's, 'w) wrapper" where
  "drop_local key w =
     (case w_object_cache w of
        Some c \<Rightarrow> w\<lparr>w_object_cache := Some (snd (oc_delete key c))\<rparr>
      | None \<Rightarrow> drop_l1 key w)"

definition untrack_key :: "string \<Rightarrow> ('g, 'k, 'r, 's, 'w) wrapper \<Rightarrow> ('g, 'k, 'r, 's, 'w) wrapper" where
  "untrack_key key w = w\<lparr>w_cached_keys := removeAll key (w_cached_keys w)\<rparr>"

definition delete_l2 ::
  "'g wrapper_config \<Rightarrow> string \<Rightarrow> ('g, 'k, 'r, 's, 'w) wrapper \<Rightarrow> (pyexn + unit) \<times> ('g, 'k, 'r, 's, 'w) wrapper" where
  "delete_l2 cfg key w =
     (case w_backend w of
        Some bk \<Rightarrow>
          if wc_l1_only cfg then (Inr (), w)
          else (case on_op (on_backend (bk_delete bk key)) w of
                  (Inl e, w1) \<Rightarrow> (Inl e, w1)
                | (Inr _, w1) \<Rightarrow> (Inr (), w1))
      | None \<Rightarrow> (Inr (), w))"

text \<open>The loop of the invalidation without arguments: a key whose deletion failed stays tracked.\<close>

fun invalidate_all :: "'g wrapper_config \<Rightarrow> string list \<Rightarrow> ('g, 'k, 'r, 's, 'w) wrapper \<Rightarrow> ('g, 'k, 'r, 's, 'w) wrapper" where
  "invalidate_all cfg [] w = w"
| "invalidate_all cfg (k # ks) w =
     (case delete_l2 cfg k (drop_local k w) of
        (Inl e, w1) \<Rightarrow> invalidate_all cfg ks w1
      | (Inr _, w1) \<Rightarrow> invalidate_all cfg ks (untrack_key k w1))"

text \<open>\<open>args\<close> is \<open>None\<close> for a call without arguments, \<open>no_args\<close> the empty argument list.\<close>

definition invalidate_cache ::
  "'g wrapper_config \<Rightarrow> 's call_env \<Rightarrow> 'g \<Rightarrow> 'g option \<Rightarrow> ('g, 'k, 'r, 's, 'w) wrapper \<Rightarrow> (pyexn + unit) \<times> ('g, 'k, 'r, 's, 'w) wrapper" where
  "invalidate_cache cfg cl no_args args w =
     (let w1 = resolve_backend cfg cl w in
      if args = None \<and> wc_has_params cfg then (Inr (), invalidate_all cfg (w_cached_keys w1) w1)
      else (case invalidation_key cfg (case args of None \<Rightarrow> no_args | Some a \<Rightarrow> a) of
              Inl e \<Rightarrow> (Inl e, w1)
            | Inr key \<Rightarrow>
                let w2 = (if key = [] then w1 else drop_local key w1)
                in (Inr (), snd (delete_l2 cfg key (untrack_key key w2)))))"

definition cache_clear ::
  "'g wrapper_config \<Rightarrow> 's call_env \<Rightarrow> bool \<Rightarrow> 'g \<Rightarrow> ('g, 'k, 'r, 's, 'w) wrapper \<Rightarrow> (pyexn + unit) \<times> ('g, 'k, 'r, 's, 'w) wrapper" where
  "cache_clear cfg cl is_async no_args w =
     (let w1 = on_stats clear w in
      if is_async \<and> \<not> wc_l1_only cfg
      then (Inl (PyExn ''TypeError'' ''cache_clear() cannot clear cache for async functions with a backend''), w1)
      else invalidate_cache cfg cl no_args None w1)"

end
