(* ===== verification/Remote_Backends.thy ===== *)
theory Remote_Backends
  imports Backend_Errors
begin

text \<open>
  The network backends: \<^verbatim>\<open>backends/redis/backend.py\<close>, the tenant-scoped \<^verbatim>\<open>backends/redis/provider.py\<close> and
  \<^verbatim>\<open>backends/memcached/backend.py\<close>, and the exception handler with which the async wrapper uses their lock
  (\<^verbatim>\<open>decorators/wrapper.py\<close>). The clients (redis-py, pymemcache) are arguments: functions on a server state that
  raise or reply. Strings stand for their UTF-8 bytes.
\<close>

section \<open>Clients\<close>

datatype reply = RNone | RBytes bytes | RStr string | RInt int | RBool bool | ROther string

record 's redis_client =
  rc_get :: "string \<Rightarrow> 's \<Rightarrow> (pyexn + reply) \<times> 's"
  rc_set :: "string \<Rightarrow> bytes \<Rightarrow> 's \<Rightarrow> (pyexn + reply) \<times> 's"
  rc_setex :: "string \<Rightarrow> int \<Rightarrow> bytes \<Rightarrow> 's \<Rightarrow> (pyexn + reply) \<times> 's"
  rc_delete :: "string \<Rightarrow> 's \<Rightarrow> (pyexn + reply) \<times> 's"
  rc_exists :: "string \<Rightarrow> 's \<Rightarrow> (pyexn + reply) \<times> 's"
  rc_ttl :: "string \<Rightarrow> 's \<Rightarrow> (pyexn + reply) \<times> 's"
  rc_expire :: "string \<Rightarrow> int \<Rightarrow> 's \<Rightarrow> (pyexn + reply) \<times> 's"

text \<open>Python truth of a reply, and the integer of a reply that is an \<^verbatim>\<open>int\<close> (a \<^verbatim>\<open>bool\<close> is one).\<close>

fun truthy :: "reply \<Rightarrow> bool" where
  "truthy RNone = False"
| "truthy (RBytes b) = (b \<noteq> [])"
| "truthy (RStr s) = (s \<noteq> [])"
| "truthy (RInt i) = (i \<noteq> 0)"
| "truthy (RBool b) = b"
| "truthy (ROther t) = True"

fun reply_int :: "reply \<Rightarrow> int option" where
  "reply_int (RInt i) = Some i"
| "reply_int (RBool b) = Some (if b then 1 else 0)"
| "reply_int _ = None"

fun reply_type :: "reply \<Rightarrow> string" where
  "reply_type RNone = ''NoneType''"
| "reply_type (RBytes b) = ''bytes''"
| "reply_type (RStr s) = ''str''"
| "reply_type (RInt i) = ''int''"
| "reply_type (RBool b) = ''bool''"
| "reply_type (ROther t) = t"

section \<open>RedisBackend\<close>

definition redis_failure :: "string \<Rightarrow> string \<Rightarrow> string \<Rightarrow> pyexn \<Rightarrow> backend_error" where
  "redis_failure msg op key e = BackendError (msg @ exn_str e) UNKNOWN None (Some op) (Some key)"

text \<open>\<^verbatim>\<open>_get_client\<close>: the provider's client, or a wrapped failure.\<close>

definition redis_get_client :: "pyexn + 's redis_client \<Rightarrow> pyexn + 's redis_client" where
  "redis_get_client provider =
     (case provider of
        Inl e \<Rightarrow> Inl (BackendExn (BackendError (''Failed to create Redis client: '' @ exn_str e) UNKNOWN None
                      (Some ''get_client'') None))
      | Inr c \<Rightarrow> Inr c)"

definition redis_get ::
  "pyexn + 's redis_client \<Rightarrow> string \<Rightarrow> 's \<Rightarrow> (backend_error + bytes option) \<times> 's" where
  "redis_get provider key s =
     (case redis_get_client provider of
        Inl e \<Rightarrow> (Inl (redis_failure ''Redis GET failed: '' ''get'' key e), s)
      | Inr c \<Rightarrow>
          (case rc_get c key s of
             (Inl e, s') \<Rightarrow> (Inl (redis_failure ''Redis GET failed: '' ''get'' key e), s')
           | (Inr r, s') \<Rightarrow> (Inr (case r of RBytes b \<Rightarrow> Some b | _ \<Rightarrow> None), s')))"

definition store_command :: "'s redis_client \<Rightarrow> string \<Rightarrow> bytes \<Rightarrow> int option \<Rightarrow> 's \<Rightarrow> (pyexn + reply) \<times> 's" where
  "store_command c key v ttl s =
     (case ttl of
        Some t \<Rightarrow> if t > 0 then rc_setex c key t v s else rc_set c key v s
      | None \<Rightarrow> rc_set c key v s)"

definition redis_set ::
  "pyexn + 's redis_client \<Rightarrow> string \<Rightarrow> bytes \<Rightarrow> int option \<Rightarrow> 's \<Rightarrow> (backend_error + unit) \<times> 's" where
  "redis_set provider key v ttl s =
     (case redis_get_client provider of
        Inl e \<Rightarrow> (Inl (redis_failure ''Redis SET failed: '' ''set'' key e), s)
      | Inr c \<Rightarrow>
          (case store_command c key v ttl s of
             (Inl e, s') \<Rightarrow> (Inl (redis_failure ''Redis SET failed: '' ''set'' key e), s')
           | (Inr r, s') \<Rightarrow> (Inr (), s')))"

text \<open>\<^verbatim>\<open>delete\<close> and \<^verbatim>\<open>exists\<close> count keys; a reply that is no integer is an error, wrapped once more.\<close>

definition counted ::
  "(pyexn \<Rightarrow> backend_error) \<Rightarrow> string \<Rightarrow> string \<Rightarrow> string \<Rightarrow> (pyexn + reply) \<times> 's \<Rightarrow> (backend_error + bool) \<times> 's" where
  "counted wrap command op key res =
     (case res of
        (Inl e, s') \<Rightarrow> (Inl (wrap e), s')
      | (Inr r, s') \<Rightarrow>
          (case reply_int r of
             None \<Rightarrow> (Inl (wrap (BackendExn (BackendError
                        (''Redis '' @ command @ '' returned unexpected type: '' @ reply_type r)
                        UNKNOWN None (Some op) (Some key)))), s')
           | Some i \<Rightarrow> (Inr (i > 0), s')))"

definition redis_delete ::
  "pyexn + 's redis_client \<Rightarrow> string \<Rightarrow> 's \<Rightarrow> (backend_error + bool) \<times> 's" where
  "redis_delete provider key s =
     (case redis_get_client provider of
        Inl e \<Rightarrow> (Inl (redis_failure ''Redis DELETE failed: '' ''delete'' key e), s)
      | Inr c \<Rightarrow> counted (redis_failure ''Redis DELETE failed: '' ''delete'' key) ''DELETE'' ''delete'' key
                   (rc_delete c key s))"

definition redis_exists ::
  "pyexn + 's redis_client \<Rightarrow> string \<Rightarrow> 's \<Rightarrow> (backend_error + bool) \<times> 's" where
  "redis_exists provider key s =
     (case redis_get_client provider of
        Inl e \<Rightarrow> (Inl (redis_failure ''Redis EXISTS failed: '' ''exists'' key e), s)
      | Inr c \<Rightarrow> counted (redis_failure ''Redis EXISTS failed: '' ''exists'' key) ''EXISTS'' ''exists'' key
                   (rc_exists c key s))"

section \<open>PerRequestRedisBackend\<close>

subsection \<open>Tenant scoping\<close>

text \<open>\<^verbatim>\<open>urllib.parse.quote(s, safe="")\<close>: letters, digits and \<^verbatim>\<open>_.-~\<close> stay, every other byte becomes \<^verbatim>\<open>%XX\<close>.\<close>

definition byte_code :: "char \<Rightarrow> nat" where
  "byte_code c = of_char c"

definition unreserved :: "char \<Rightarrow> bool" where
  "unreserved c \<longleftrightarrow>
     (let n = byte_code c in (48 \<le> n \<and> n \<le> 57) \<or> (65 \<le> n \<and> n \<le> 90) \<or> (97 \<le> n \<and> n \<le> 122)
        \<or> c \<in> {CHR ''_'', CHR ''.'', CHR ''-'', CHR ''~''})"

definition hex_digit :: "nat \<Rightarrow> char" where
  "hex_digit n = char_of (if n < 10 then 48 + n else 55 + n)"

definition quote_char :: "char \<Rightarrow> string" where
  "quote_char c =
     (if unreserved c then [c]
      else [CHR ''%'', hex_digit (byte_code c div 16), hex_digit (byte_code c mod 16)])"

definition url_encode :: "string \<Rightarrow> string" where
  "url_encode s = concat (map quote_char s)"

record per_request =
  pr_tenant :: string

definition make_per_request :: "string option \<Rightarrow> string + per_request" where
  "make_per_request tenant =
     (case tenant of
        None \<Rightarrow> Inl ''RuntimeError: tenant_id cannot be None''
      | Some t \<Rightarrow> Inr \<lparr>pr_tenant = url_encode t\<rparr>)"

definition key_prefix :: "per_request \<Rightarrow> string" where
  "key_prefix b = ''t:'' @ pr_tenant b @ '':''"

definition scoped_key :: "per_request \<Rightarrow> string \<Rightarrow> string" where
  "scoped_key b key = ''t:'' @ pr_tenant b @ '':'' @ key"

subsection \<open>Operations\<close>

text \<open>\<open>classify\<close> is \<^verbatim>\<open>classify_redis_error\<close> for the installed redis-py.\<close>

type_synonym classifier = "pyexn \<Rightarrow> string option \<Rightarrow> string option \<Rightarrow> backend_error"

definition pr_get ::
  "classifier \<Rightarrow> 's redis_client \<Rightarrow> per_request \<Rightarrow> string \<Rightarrow> 's \<Rightarrow> (backend_error + bytes option) \<times> 's" where
  "pr_get classify c b key s =
     (case rc_get c (scoped_key b key) s of
        (Inl e, s') \<Rightarrow> (Inl (classify e (Some ''get'') (Some key)), s')
      | (Inr r, s') \<Rightarrow>
          (Inr (case r of RStr t \<Rightarrow> Some (map of_char t) | RBytes v \<Rightarrow> Some v | _ \<Rightarrow> None), s'))"

definition pr_set ::
  "classifier \<Rightarrow> 's redis_client \<Rightarrow> per_request \<Rightarrow> string \<Rightarrow> bytes \<Rightarrow> int option \<Rightarrow> 's
   \<Rightarrow> (backend_error + unit) \<times> 's" where
  "pr_set classify c b key v ttl s =
     (case store_command c (scoped_key b key) v ttl s of
        (Inl e, s') \<Rightarrow> (Inl (classify e (Some ''set'') (Some key)), s')
      | (Inr r, s') \<Rightarrow> (Inr (), s'))"

definition pr_delete ::
  "classifier \<Rightarrow> 's redis_client \<Rightarrow> per_request \<Rightarrow> string \<Rightarrow> 's \<Rightarrow> (backend_error + bool) \<times> 's" where
  "pr_delete classify c b key s =
     counted (\<lambda>e. classify e (Some ''delete'') (Some key)) ''DELETE'' ''delete'' key
       (rc_delete c (scoped_key b key) s)"

definition pr_exists ::
  "classifier \<Rightarrow> 's redis_client \<Rightarrow> per_request \<Rightarrow> string \<Rightarrow> 's \<Rightarrow> (backend_error + bool) \<times> 's" where
  "pr_exists classify c b key s =
     counted (\<lambda>e. classify e (Some ''exists'') (Some key)) ''EXISTS'' ''exists'' key
       (rc_exists c (scoped_key b key) s)"

definition pr_get_ttl ::
  "classifier \<Rightarrow> 's redis_client \<Rightarrow> per_request \<Rightarrow> string \<Rightarrow> 's \<Rightarrow> (backend_error + int option) \<times> 's" where
  "pr_get_ttl classify c b key s =
     (let wrap = (\<lambda>e. classify e (Some ''get_ttl'') (Some key)) in
      case rc_ttl c (scoped_key b key) s of
        (Inl e, s') \<Rightarrow> (Inl (wrap e), s')
      | (Inr r, s') \<Rightarrow>
          (case reply_int r of
             None \<Rightarrow> (Inl (wrap (BackendExn (BackendError (''Redis TTL returned unexpected type: '' @ reply_type r)
                        UNKNOWN None (Some ''get_ttl'') (Some key)))), s')
           | Some t \<Rightarrow> (Inr (if t = -2 \<or> t = -1 then None else if t > 0 then Some t else None), s')))"

definition pr_refresh_ttl ::
  "classifier \<Rightarrow> 's redis_client \<Rightarrow> per_request \<Rightarrow> string \<Rightarrow> int \<Rightarrow> 's \<Rightarrow> (backend_error + bool) \<times> 's" where
  "pr_refresh_ttl classify c b key ttl s =
     (case rc_expire c (scoped_key b key) ttl s of
        (Inl e, s') \<Rightarrow> (Inl (classify e (Some ''refresh_ttl'') (Some key)), s')
      | (Inr r, s') \<Rightarrow> (Inr (truthy r), s'))"

subsection \<open>The distributed lock\<close>

definition lock_name :: "per_request \<Rightarrow> string \<Rightarrow> string" where
  "lock_name b key = scoped_key b key @ '':lock''"

text \<open>
  \<^verbatim>\<open>acquire_lock\<close> as a context manager around a body: \<open>acquired\<close> is what \<^verbatim>\<open>lock.acquire\<close> did, \<open>body\<close> what the body
  of the \<^verbatim>\<open>async with\<close> does with the answer. A failing release is logged and ignored. The handler around it
  all catches the exceptions of the body as well.
\<close>

definition acquire_lock ::
  "classifier \<Rightarrow> string \<Rightarrow> pyexn + bool \<Rightarrow> (bool \<Rightarrow> pyexn + 'r) \<Rightarrow> pyexn + 'r" where
  "acquire_lock classify key acquired body =
     (case acquired of
        Inl e \<Rightarrow> Inl (BackendExn (classify e (Some ''acquire_lock'') (Some key)))
      | Inr got \<Rightarrow>
          (case body got of
             Inl e \<Rightarrow> Inl (BackendExn (classify e (Some ''acquire_lock'') (Some key)))
           | Inr r \<Rightarrow> Inr r))"

text \<open>
  The async wrapper's handler of an exception that leaves the locked block: raise something to the
  caller, or fall through and run the function without the lock.
\<close>

datatype lock_decision = Raise pyexn | RunUnlocked

fun lock_exception :: "pyexn \<Rightarrow> lock_decision" where
  "lock_exception (PyExn c t) = Raise (PyExn c t)"
| "lock_exception (BackendExn e) =
     (case original_exception e of
        Some (PyExn c t) \<Rightarrow> Raise (PyExn c t)
      | _ \<Rightarrow> RunUnlocked)"

section \<open>MemcachedBackend\<close>

definition MAX_MEMCACHED_TTL :: int where
  "MAX_MEMCACHED_TTL = 30 * 24 * 60 * 60"

record memcached_config =
  mc_key_prefix :: string
  mc_max_item_size :: int

record 's memcached_client =
  mcc_get :: "string \<Rightarrow> 's \<Rightarrow> (pyexn + bytes option) \<times> 's"
  mcc_set :: "string \<Rightarrow> bytes \<Rightarrow> int \<Rightarrow> 's \<Rightarrow> (pyexn + bool) \<times> 's"
  mcc_delete :: "string \<Rightarrow> 's \<Rightarrow> (pyexn + bool) \<times> 's"
  mcc_touch :: "string \<Rightarrow> int \<Rightarrow> 's \<Rightarrow> (pyexn + bool) \<times> 's"

definition prefixed_key :: "memcached_config \<Rightarrow> string \<Rightarrow> string" where
  "prefixed_key cfg key = (if mc_key_prefix cfg \<noteq> [] then mc_key_prefix cfg @ key else key)"

definition expire_of :: "int option \<Rightarrow> int" where
  "expire_of ttl = (case ttl of None \<Rightarrow> 0 | Some t \<Rightarrow> if t > 0 then min t MAX_MEMCACHED_TTL else 0)"

definition memcached_get ::
  "classifier \<Rightarrow> memcached_config \<Rightarrow> 's memcached_client \<Rightarrow> string \<Rightarrow> 's \<Rightarrow> (backend_error + bytes option) \<times> 's" where
  "memcached_get classify cfg c key s =
     (case mcc_get c (prefixed_key cfg key) s of
        (Inl e, s') \<Rightarrow> (Inl (classify e (Some ''get'') (Some key)), s')
      | (Inr r, s') \<Rightarrow> (Inr r, s'))"

definition memcached_set ::
  "classifier \<Rightarrow> memcached_config \<Rightarrow> 's memcached_client \<Rightarrow> string \<Rightarrow> bytes \<Rightarrow> int option \<Rightarrow> 's
   \<Rightarrow> (backend_error + unit) \<times> 's" where
  "memcached_set classify cfg c key v ttl s =
     (if mc_max_item_size cfg \<noteq> 0 \<and> int (length v) > mc_max_item_size cfg
      then (Inl (BackendError ''Value exceeds the Memcached max item size'' PERMANENT None (Some ''set'') (Some key)), s)
      else
        (case mcc_set c (prefixed_key cfg key) v (expire_of ttl) s of
           (Inl e, s') \<Rightarrow> (Inl (classify e (Some ''set'') (Some key)), s')
         | (Inr stored, s') \<Rightarrow> (Inr (), s')))"

definition memcached_delete ::
  "classifier \<Rightarrow> memcached_config \<Rightarrow> 's memcached_client \<Rightarrow> string \<Rightarrow> 's \<Rightarrow> (backend_error + bool) \<times> 's" where
  "memcached_delete classify cfg c key s =
     (case mcc_delete c (prefixed_key cfg key) s of
        (Inl e, s') \<Rightarrow> (Inl (classify e (Some ''delete'') (Some key)), s')
      | (Inr b, s') \<Rightarrow> (Inr b, s'))"

definition memcached_exists ::
  "classifier \<Rightarrow> memcached_config \<Rightarrow> 's memcached_client \<Rightarrow> string \<Rightarrow> 's \<Rightarrow> (backend_error + bool) \<times> 's" where
  "memcached_exists classify cfg c key s =
     (case mcc_get c (prefixed_key cfg key) s of
        (Inl e, s') \<Rightarrow> (Inl (classify e (Some ''exists'') (Some key)), s')
      | (Inr r, s') \<Rightarrow> (Inr (r \<noteq> None), s'))"

definition memcached_refresh_ttl ::
  "classifier \<Rightarrow> memcached_config \<Rightarrow> 's memcached_client \<Rightarrow> string \<Rightarrow> int \<Rightarrow> 's \<Rightarrow> (backend_error + bool) \<times> 's" where
  "memcached_refresh_ttl classify cfg c key ttl s =
     (case mcc_touch c (prefixed_key cfg key) (expire_of (Some ttl)) s of
        (Inl e, s') \<Rightarrow> (Inl (classify e (Some ''refresh_ttl'') (Some key)), s')
      | (Inr b, s') \<Rightarrow> (Inr b, s'))"

section \<open>Percent-encoding is injective and free of colons\<close>

lemma byte_code_less: "byte_code c < 256"
  by (simp add: byte_code_def)

lemma char_of_small_inject: "m < 256 \<Longrightarrow> n < 256 \<Longrightarrow> char_of m = char_of n \<Longrightarrow> m = (n :: nat)"
  by (metis mod_less of_char_of)

lemma hex_digit_inject: "m < 16 \<Longrightarrow> n < 16 \<Longrightarrow> hex_digit m = hex_digit n \<Longrightarrow> m = n"
  unfolding hex_digit_def by (drule char_of_small_inject [rotated 2]) (auto split: if_splits)

lemma byte_code_inject: "byte_code c = byte_code c' \<Longrightarrow> c = c'"
  by (simp add: byte_code_def)

lemma percent_reserved: "\<not> unreserved CHR ''%''"
  by (simp add: unreserved_def byte_code_def)

lemma quote_char_parse:
  assumes "quote_char c @ u = quote_char c' @ u'"
  shows "c = c' \<and> u = u'"
proof (cases "unreserved c"; cases "unreserved c'")
  assume r: "\<not> unreserved c" "\<not> unreserved c'"
  with assms have h: "hex_digit (byte_code c div 16) = hex_digit (byte_code c' div 16)"
    "hex_digit (byte_code c mod 16) = hex_digit (byte_code c' mod 16)" and u: "u = u'"
    by (simp_all add: quote_char_def)
  have "byte_code c div 16 < 16" "byte_code c' div 16 < 16"
    using byte_code_less [of c] byte_code_less [of c'] by auto
  with h have "byte_code c div 16 = byte_code c' div 16" "byte_code c mod 16 = byte_code c' mod 16"
    using hex_digit_inject by (blast, metis hex_digit_inject mod_less_divisor zero_less_numeral)
  then have "byte_code c = byte_code c'" by (metis div_mult_mod_eq)
  with u show ?thesis using byte_code_inject by blast
qed (use assms percent_reserved in \<open>auto simp: quote_char_def\<close>)

lemma quote_char_not_Nil: "quote_char c \<noteq> []"
  by (simp add: quote_char_def)

lemma url_encode_inject: "url_encode s = url_encode t \<Longrightarrow> s = t"
proof (induction s arbitrary: t)
  case Nil
  then show ?case by (cases t) (auto simp: url_encode_def quote_char_not_Nil)
next
  case (Cons c s)
  then obtain c' t' where t: "t = c' # t'" by (cases t) (auto simp: url_encode_def quote_char_not_Nil)
  with Cons.prems have "quote_char c @ url_encode s = quote_char c' @ url_encode t'" by (simp add: url_encode_def)
  from quote_char_parse [OF this] Cons.IH t show ?case by blast
qed

lemma hex_digit_not_colon: "n < 16 \<Longrightarrow> hex_digit n \<noteq> CHR '':''"
proof
  assume n: "n < 16" "hex_digit n = CHR '':''"
  then have "of_char (hex_digit n) = (58 :: nat)" by simp
  with n(1) show False by (auto simp: hex_digit_def split: if_splits)
qed

lemma quote_char_no_colon: "CHR '':'' \<notin> set (quote_char c)"
proof -
  have "\<not> unreserved CHR '':''" by (simp add: unreserved_def byte_code_def)
  moreover have "byte_code c div 16 < 16" using byte_code_less [of c] by auto
  ultimately show ?thesis using hex_digit_not_colon [of "byte_code c div 16"] hex_digit_not_colon [of "byte_code c mod 16"]
    by (auto simp: quote_char_def)
qed

lemma url_encode_no_colon: "CHR '':'' \<notin> set (url_encode s)"
  using quote_char_no_colon by (auto simp: url_encode_def)

lemma scoped_key_inject:
  assumes "make_per_request (Some t1) = Inr b1" "make_per_request (Some t2) = Inr b2"
  shows "scoped_key b1 k1 = scoped_key b2 k2 \<longleftrightarrow> t1 = t2 \<and> k1 = k2"
proof -
  have b: "b1 = \<lparr>pr_tenant = url_encode t1\<rparr>" "b2 = \<lparr>pr_tenant = url_encode t2\<rparr>"
    using assms by (simp_all add: make_per_request_def)
  show ?thesis
    using split_at_first [OF url_encode_no_colon url_encode_no_colon, of t1 k1 t2 k2] url_encode_inject [of t1 t2]
    by (auto simp: scoped_key_def b)
qed

section \<open>Properties\<close>

text \<open>
  What redis-py documents of the commands used here: a command on one key does not change what \<^verbatim>\<open>GET\<close>
  replies for another.
\<close>

definition keyed_client :: "'s redis_client \<Rightarrow> bool" where
  "keyed_client c \<longleftrightarrow>
     (\<forall>K K' v t s. K' \<noteq> K \<longrightarrow>
        fst (rc_get c K' (snd (rc_set c K v s))) = fst (rc_get c K' s)
      \<and> fst (rc_get c K' (snd (rc_setex c K t v s))) = fst (rc_get c K' s)
      \<and> fst (rc_get c K' (snd (rc_delete c K s))) = fst (rc_get c K' s)
      \<and> fst (rc_get c K' (snd (rc_expire c K t s))) = fst (rc_get c K' s))"

lemma pr_get_cong:
  "fst (rc_get c (scoped_key b k) s') = fst (rc_get c (scoped_key b k) s) \<Longrightarrow>
   fst (pr_get cl c b k s') = fst (pr_get cl c b k s)"
  by (cases "rc_get c (scoped_key b k) s'"; cases "rc_get c (scoped_key b k) s")
     (auto simp: pr_get_def split: sum.split)

lemma pr_state:
  "snd (pr_set cl c b k v ttl s) = snd (store_command c (scoped_key b k) v ttl s)"
  "snd (pr_delete cl c b k s) = snd (rc_delete c (scoped_key b k) s)"
  "snd (pr_refresh_ttl cl c b k t s) = snd (rc_expire c (scoped_key b k) t s)"
  by (simp_all add: pr_set_def pr_delete_def pr_refresh_ttl_def counted_def split: prod.split sum.split option.split)

text \<open>
  C11: Tenants are isolated: on a shared server, whatever tenant names and keys are used (colons, percent
  signs and arbitrary bytes included), writes, deletions and TTL changes of one tenant never change
  what another tenant reads under any key, nor what the same tenant reads under another key.
\<close>

theorem tenant_isolation:
  assumes "keyed_client c" "make_per_request (Some t1) = Inr b1" "make_per_request (Some t2) = Inr b2"
    "(t1, k1) \<noteq> (t2, k2)"
  shows "fst (pr_get cl c b2 k2 (snd (pr_set cl c b1 k1 v ttl s))) = fst (pr_get cl c b2 k2 s)
       \<and> fst (pr_get cl c b2 k2 (snd (pr_delete cl c b1 k1 s))) = fst (pr_get cl c b2 k2 s)
       \<and> fst (pr_get cl c b2 k2 (snd (pr_refresh_ttl cl c b1 k1 d s))) = fst (pr_get cl c b2 k2 s)"
proof -
  have ne: "scoped_key b2 k2 \<noteq> scoped_key b1 k1" using scoped_key_inject [OF assms(2,3), of k1 k2] assms(4) by auto
  with assms(1) have "fst (rc_get c (scoped_key b2 k2) (snd (store_command c (scoped_key b1 k1) v ttl s)))
      = fst (rc_get c (scoped_key b2 k2) s)"
    by (auto simp: keyed_client_def store_command_def split: option.split)
  with assms(1) ne show ?thesis by (auto simp: pr_state keyed_client_def intro!: pr_get_cong)
qed

text \<open>A server that is a finite map.\<close>

definition map_client :: "(string \<times> bytes) list redis_client" where
  "map_client = \<lparr>
     rc_get = (\<lambda>K s. (Inr (case map_of s K of None \<Rightarrow> RNone | Some v \<Rightarrow> RBytes v), s)),
     rc_set = (\<lambda>K v s. (Inr (RBool True), AList.update K v s)),
     rc_setex = (\<lambda>K t v s. (Inr (RBool True), AList.update K v s)),
     rc_delete = (\<lambda>K s. (Inr (RInt (if map_of s K = None then 0 else 1)), AList.delete K s)),
     rc_exists = (\<lambda>K s. (Inr (RInt (if map_of s K = None then 0 else 1)), s)),
     rc_ttl = (\<lambda>K s. (Inr (RInt (if map_of s K = None then -2 else -1)), s)),
     rc_expire = (\<lambda>K t s. (Inr (RInt (if map_of s K = None then 0 else 1)), s))\<rparr>"

lemma map_client_keyed: "keyed_client map_client"
  by (simp add: keyed_client_def map_client_def update_conv' AList.delete_conv')

theorem tenant_isolation_witness:
  "\<exists>b1 b2. make_per_request (Some ''a'') = Inr b1 \<and> make_per_request (Some ''a:b'') = Inr b2
     \<and> fst (pr_get (\<lambda>_ _ _. BackendError [] UNKNOWN None None None) map_client b2 ''k''
             (snd (pr_set (\<lambda>_ _ _. BackendError [] UNKNOWN None None None) map_client b1 ''b:k'' [1] None [])))
         = Inr None"
proof -
  let ?b = "\<lambda>t. \<lparr>pr_tenant = url_encode t\<rparr>"
  have b: "make_per_request (Some ''a'') = Inr (?b ''a'')" "make_per_request (Some ''a:b'') = Inr (?b ''a:b'')"
    by (simp_all add: make_per_request_def)
  have "fst (pr_get cl map_client (?b ''a:b'') ''k'' []) = Inr None" for cl
    by (simp add: pr_get_def map_client_def)
  with tenant_isolation [OF map_client_keyed b, of "''b:k''" "''k''" _ "[1]" None "[]"] b show ?thesis by simp
qed

text \<open>
  With the tenant-scoped Redis backend the async wrapper never falls back to running the function
  without the lock when the lock operation fails: the Redis exception is raised to the caller instead.
  It falls back exactly when the exception was a \<^verbatim>\<open>BackendError\<close>, which includes one raised by the function
  itself, which is then executed a second time.
\<close>

theorem lock_failure_reaches_caller:
  "(\<exists>x. acquire_lock (classify_redis_error i h isa) key (Inl (PyExn c t)) body = Inl x
      \<and> lock_exception x = Raise (PyExn c t))
 \<and> (\<exists>x. acquire_lock (classify_redis_error i h isa) key (Inr got) (\<lambda>_. Inl (BackendExn b)) = Inl x
      \<and> lock_exception x = RunUnlocked)"
  by (simp add: acquire_lock_def redis_err.keeps_exception)

definition untyped :: "backend_error \<Rightarrow> bool" where
  "untyped e \<longleftrightarrow> error_type e = UNKNOWN \<and> original_exception e = None \<and> is_circuit_breaker_failure (BackendExn e)"

lemma redis_failure_untyped: "untyped (redis_failure m op k e)"
  by (simp add: untyped_def redis_failure_def)

lemma counted_untyped:
  "fst (counted (redis_failure m op k) cmd op' k' r) = Inl e \<Longrightarrow> untyped e"
  by (cases r) (auto simp: counted_def redis_failure_untyped split: sum.splits option.splits)

lemma redis_failures_untyped:
  "fst (redis_get p k s) = Inl e \<Longrightarrow> untyped e"
  "fst (redis_set p k v ttl s) = Inl e \<Longrightarrow> untyped e"
  "fst (redis_delete p k s) = Inl e \<Longrightarrow> untyped e"
  "fst (redis_exists p k s) = Inl e \<Longrightarrow> untyped e"
  by (auto simp: redis_get_def redis_failure_untyped split: sum.splits prod.splits)
     (auto simp: redis_set_def redis_delete_def redis_exists_def redis_failure_untyped counted_untyped
       split: sum.splits prod.splits)

text \<open>
  Every failure of the plain Redis backend has type UNKNOWN and no original exception, whatever
  redis-py raised: it always counts as a failure for the breaker, even an authentication error, which the
  classifier of the tenant-scoped backend would exempt.
\<close>

theorem redis_backend_never_classifies:
  "(\<forall>e. fst (redis_get p k s) = Inl e \<or> fst (redis_set p k v ttl s) = Inl e \<or> fst (redis_delete p k s) = Inl e
        \<or> fst (redis_exists p k s) = Inl e
      \<longrightarrow> error_type e = UNKNOWN \<and> original_exception e = None \<and> is_circuit_breaker_failure (BackendExn e))"
  unfolding untyped_def [symmetric] by (auto intro: redis_failures_untyped)

theorem redis_backend_never_classifies_witness:
  "is_circuit_breaker_failure (BackendExn (redis_failure ''Redis GET failed: '' ''get'' ''k''
     (PyExn ''AuthenticationError'' ''invalid password'')))"
proof -
  let ?c = "map_client\<lparr>rc_get := \<lambda>K s. (Inl (PyExn ''AuthenticationError'' ''invalid password''), s)\<rparr>"
  have "fst (redis_get (Inr ?c) ''k'' []) = Inl (redis_failure ''Redis GET failed: '' ''get'' ''k''
     (PyExn ''AuthenticationError'' ''invalid password''))"
    by (simp add: redis_get_def redis_get_client_def)
  with redis_backend_never_classifies [of "Inr ?c" "''k''" "[]" "[]" None] show ?thesis by blast
qed

text \<open>
  The expiry sent to Memcached is never interpreted as an absolute time: it is between 0 and 30 days,
  0 exactly when there is no positive TTL; and a value over the item limit is refused before the server
  is contacted, with a PERMANENT error.
\<close>

theorem memcached_expiry_in_range:
  "0 \<le> expire_of ttl \<and> expire_of ttl \<le> 2592000 \<and> (expire_of ttl = 0 \<longleftrightarrow> (\<forall>t. ttl = Some t \<longrightarrow> t \<le> 0))
 \<and> (0 < mc_max_item_size cfg \<and> mc_max_item_size cfg < int (length v) \<longrightarrow>
      (\<exists>e. memcached_set cl cfg c key v ttl s = (Inl e, s) \<and> is_permanent e))"
  by (auto simp: expire_of_def MAX_MEMCACHED_TTL_def memcached_set_def is_permanent_def split: option.split)

end
