(* ===== verification/Async_Wrapper.thy ===== *)
theory Async_Wrapper
  imports Sync_Wrapper Remote_Backends
begin

text \<open>
  \<^verbatim>\<open>async_wrapper\<close> of \<^verbatim>\<open>decorators/wrapper.py\<close> with the distributed lock around a miss. A call runs to its end before the next one
  starts, \<^verbatim>\<open>await\<close> and \<^verbatim>\<open>asyncio.to_thread\<close> are transparent; what other clients do in between is a step of the histories. All exits
  pass through the outer \<^verbatim>\<open>finally\<close>, so the context variable is restored in one place.
\<close>

section \<open>The lock of a backend\<close>

text \<open>
  An asynchronous context manager: entering raises or yields the token of the lock, if it is held now; leaving gets that token and
  the exception that is pending, if any, and yields the exception that is pending afterwards.
\<close>

record 's lock =
  lk_enter :: "string \<Rightarrow> 's \<Rightarrow> (pyexn + string option) \<times> 's"
  lk_exit :: "string \<Rightarrow> string option \<Rightarrow> pyexn option \<Rightarrow> 's \<Rightarrow> pyexn option \<times> 's"

text \<open>The lock of \<^verbatim>\<open>PerRequestRedisBackend\<close>, over \<^verbatim>\<open>acquire\<close> and \<^verbatim>\<open>release\<close> of the lock class of redis-py, which keeps its token
  to itself.\<close>

definition redis_lock ::
  "classifier \<Rightarrow> per_request \<Rightarrow> (string \<Rightarrow> 's \<Rightarrow> (pyexn + bool) \<times> 's) \<Rightarrow> (string \<Rightarrow> 's \<Rightarrow> (pyexn + unit) \<times> 's) \<Rightarrow> 's lock" where
  "redis_lock classify b acquire release = \<lparr>
     lk_enter = (\<lambda>key s. case acquire (lock_name b key) s of
        (Inl e, s1) \<Rightarrow> (Inl (BackendExn (classify e (Some ''acquire_lock'') (Some key))), s1)
      | (Inr got, s1) \<Rightarrow> (Inr (if got then Some [] else None), s1)),
     lk_exit = (\<lambda>key got pending s.
        (map_option (\<lambda>e. BackendExn (classify e (Some ''acquire_lock'') (Some key))) pending,
         if got \<noteq> None then snd (release (lock_name b key) s) else s))\<rparr>"

section \<open>Reading\<close>

text \<open>\<^verbatim>\<open>get_cached_value_with_freshness_async\<close>: value, raw bytes and the freshness signal.\<close>

definition get_cached_value_with_freshness_async ::
  "('a, 'k, 'r) ser_env \<Rightarrow> 's backend \<Rightarrow> real \<Rightarrow> string \<Rightarrow> ('g, 'k, 'r, 's) op_state
   \<Rightarrow> (pyexn + ('a \<times> bytes \<times> bool) option) \<times> ('g, 'k, 'r, 's) op_state" where
  "get_cached_value_with_freshness_async en bk now key st =
     (case std_get_with_freshness bk key st of
        (None, st1) \<Rightarrow> (Inr None, st1)
      | (Some (data, stale), st1) \<Rightarrow>
          (case read_outcome bk now key (on_ser (deserialize_data en data key) st1) of
             (Inl e, st2) \<Rightarrow> (Inl e, st2)
           | (Inr r, st2) \<Rightarrow> (Inr (map_option (\<lambda>v. (v, data, stale)) r), st2)))"

definition async_read_l2 ::
  "('a, 'k, 'r, 'g, 'w) program \<Rightarrow> 'g wrapper_config \<Rightarrow> 's backend \<Rightarrow> 's call_env \<Rightarrow> string \<Rightarrow> ('g, 'k, 'r, 's, 'w) wrapper
   \<Rightarrow> (pyexn + ('a \<times> bytes \<times> bool) option) \<times> ('g, 'k, 'r, 's, 'w) wrapper" where
  "async_read_l2 pg cfg bk cl key w =
     (if wc_stale_ttl cfg \<noteq> None
      then on_op (get_cached_value_with_freshness_async (pg_env pg) bk (cl_got cl) key) w
      else (case on_op (get_cached_value_async (pg_env pg) bk (wc_ttl_refresh_threshold cfg) (cl_got cl) key None) w of
              (Inl e, w1) \<Rightarrow> (Inl e, w1)
            | (Inr r, w1) \<Rightarrow> (Inr (map_option (\<lambda>(v, data). (v, data, False)) r), w1)))"

text \<open>Raw bytes of a hit go into L1, and the key is tracked for invalidation.\<close>

definition fill_l1 ::
  "'g wrapper_config \<Rightarrow> 's call_env \<Rightarrow> string \<Rightarrow> bytes \<Rightarrow> ('g, 'k, 'r, 's, 'w) wrapper \<Rightarrow> ('g, 'k, 'r, 's, 'w) wrapper" where
  "fill_l1 cfg cl key data w =
     (if w_l1 w \<noteq> None \<and> key \<noteq> [] \<and> data \<noteq> [] then track_key key (put_l1 cfg (cl_put cl) key data w) else w)"

text \<open>The TTL refresh of a hit: a task when the remaining TTL is positive and below the threshold.\<close>

definition refresh_on_hit ::
  "'g wrapper_config \<Rightarrow> 's backend \<Rightarrow> string \<Rightarrow> ('g, 'k, 'r, 's, 'w) wrapper \<Rightarrow> ('g, 'k, 'r, 's, 'w) wrapper" where
  "refresh_on_hit cfg bk key w =
     (case (wc_refresh_ttl_on_get cfg, wc_ttl cfg, bk_get_ttl bk, bk_refresh_ttl bk) of
        (True, Some t, Some get_ttl, Some refresh) \<Rightarrow>
          if t = 0 then w
          else (case on_op (on_backend (get_ttl key)) w of
                  (Inr (Some remaining), w1) \<Rightarrow>
                    if remaining \<noteq> 0 \<and> of_int remaining < of_int t * wc_ttl_refresh_threshold cfg
                    then w1\<lparr>w_jobs := w_jobs w1 @ [TtlRefresh key t]\<rparr> else w1
                | (_, w1) \<Rightarrow> w1)
      | _ \<Rightarrow> w)"

definition run_ttl_refresh ::
  "'s backend \<Rightarrow> string \<Rightarrow> int \<Rightarrow> ('g, 'k, 'r, 's, 'w) wrapper \<Rightarrow> ('g, 'k, 'r, 's, 'w) wrapper" where
  "run_ttl_refresh bk key t w =
     (case bk_refresh_ttl bk of Some refresh \<Rightarrow> snd (on_op (on_backend (refresh key t)) w) | None \<Rightarrow> w)"

definition async_l2_hit ::
  "('a, 'k, 'r, 'g, 'w) program \<Rightarrow> 'g wrapper_config \<Rightarrow> 's backend \<Rightarrow> 's call_env \<Rightarrow> string \<Rightarrow> 'g \<Rightarrow> bytes \<Rightarrow> bool
   \<Rightarrow> ('g, 'k, 'r, 's, 'w) wrapper \<Rightarrow> ('g, 'k, 'r, 's, 'w) wrapper" where
  "async_l2_hit pg cfg bk cl key args data stale w =
     (let w1 = note_success ''get'' (get_ms cl) (metric cfg ''get'' (get_ms cl)) w;
          w2 = (if stale then w1 else fill_l1 cfg cl key data w1);
          w3 = on_stats (record_l2_hit (get_ms cl) (cl_got cl)) (refresh_on_hit cfg bk key w2)
      in if stale then l2_swr_schedule pg (cl\<lparr>cl_thread_starts := True\<rparr>) key args w3 else w3)"

section \<open>Executing and storing\<close>

definition async_store ::
  "('a, 'k, 'r, 'g, 'w) program \<Rightarrow> 'g wrapper_config \<Rightarrow> 's backend \<Rightarrow> 's call_env \<Rightarrow> string \<Rightarrow> 'g \<Rightarrow> 'a \<Rightarrow> ('g, 'k, 'r, 's, 'w) wrapper
   \<Rightarrow> (pyexn + 'a) \<times> ('g, 'k, 'r, 's, 'w) wrapper" where
  "async_store pg cfg bk cl key args v w =
     (case on_op (on_ser (serialize_data (pg_env pg) (cl_nonce cl) args v key)) w of
        (Inl e, w1) \<Rightarrow>
          if is_interop_error e then (Inl e, w1)
          else (Inr v, report_error (cl_end cl) e ''cache_set'' False (set_ms cl) w1)
      | (Inr data, w1) \<Rightarrow>
          let w2 = put_l1 cfg (cl_put cl) key data (snd (on_op (std_set bk key data (wc_ttl cfg) (wc_stale_ttl cfg)) w1))
          in (Inr v, note_success ''set'' (set_ms cl) (metric cfg ''set'' (set_ms cl)) (track_key key w2)))"

definition execute_and_store ::
  "('a, 'k, 'r, 'g, 'w) program \<Rightarrow> 'g wrapper_config \<Rightarrow> 's backend \<Rightarrow> 's call_env \<Rightarrow> string \<Rightarrow> 'g \<Rightarrow> ('g, 'k, 'r, 's, 'w) wrapper
   \<Rightarrow> (pyexn + 'a) \<times> ('g, 'k, 'r, 's, 'w) wrapper" where
  "execute_and_store pg cfg bk cl key args w =
     (case run_func pg args w of
        (Inl e, w1) \<Rightarrow> (Inl e, w1)
      | (Inr v, w1) \<Rightarrow> async_store pg cfg bk cl key args v w1)"

text \<open>The second look into the cache under the lock, or after waiting for it in vain.\<close>

definition recheck ::
  "('a, 'k, 'r, 'g, 'w) program \<Rightarrow> 'g wrapper_config \<Rightarrow> 's backend \<Rightarrow> 's call_env \<Rightarrow> string \<Rightarrow> ('g, 'k, 'r, 's, 'w) wrapper
   \<Rightarrow> (pyexn + 'a option) \<times> ('g, 'k, 'r, 's, 'w) wrapper" where
  "recheck pg cfg bk cl key w =
     (case on_op (get_cached_value_async (pg_env pg) bk (wc_ttl_refresh_threshold cfg) (cl_got cl) key None) w of
        (Inl e, w1) \<Rightarrow> if is_auth_error e then (Inl e, w1) else (Inr None, w1)
      | (Inr None, w1) \<Rightarrow> (Inr None, w1)
      | (Inr (Some (v, data)), w1) \<Rightarrow> (Inr (Some v), fill_l1 cfg cl key data w1))"

definition locked_body ::
  "('a, 'k, 'r, 'g, 'w) program \<Rightarrow> 'g wrapper_config \<Rightarrow> 's backend \<Rightarrow> 's call_env \<Rightarrow> string \<Rightarrow> 'g \<Rightarrow> ('g, 'k, 'r, 's, 'w) wrapper
   \<Rightarrow> (pyexn + 'a) \<times> ('g, 'k, 'r, 's, 'w) wrapper" where
  "locked_body pg cfg bk cl key args w =
     (case recheck pg cfg bk cl key w of
        (Inl e, w1) \<Rightarrow> (Inl e, w1)
      | (Inr (Some v), w1) \<Rightarrow> (Inr v, w1)
      | (Inr None, w1) \<Rightarrow> execute_and_store pg cfg bk cl key args w1)"

text \<open>The handlers of an exception that leaves the locked block; \<open>None\<close>: go on without the lock.\<close>

definition lock_verdict :: "pyexn \<Rightarrow> lock_decision" where
  "lock_verdict e = (if is_auth_error e then Raise e else lock_exception e)"

definition lock_failed :: "pyexn \<Rightarrow> (pyexn + 'a) option" where
  "lock_failed e = (case lock_verdict e of Raise x \<Rightarrow> Some (Inl x) | RunUnlocked \<Rightarrow> None)"

definition locked_call ::
  "('a, 'k, 'r, 'g, 'w) program \<Rightarrow> 'g wrapper_config \<Rightarrow> 's backend \<Rightarrow> 's lock \<Rightarrow> 's call_env \<Rightarrow> string \<Rightarrow> 'g
   \<Rightarrow> ('g, 'k, 'r, 's, 'w) wrapper \<Rightarrow> (pyexn + 'a) option \<times> ('g, 'k, 'r, 's, 'w) wrapper" where
  "locked_call pg cfg bk lk cl key args w =
     (case on_op (on_backend (lk_enter lk key)) w of
        (Inl e, w1) \<Rightarrow> (lock_failed e, w1)
      | (Inr got, w1) \<Rightarrow>
          (case locked_body pg cfg bk cl key args w1 of
             (r, w2) \<Rightarrow>
               (case on_op (on_backend (lk_exit lk key got (case r of Inl e \<Rightarrow> Some e | Inr _ \<Rightarrow> None))) w2 of
                  (Some x, w3) \<Rightarrow> (lock_failed x, w3)
                | (None, w3) \<Rightarrow> ((case r of Inl e \<Rightarrow> None | Inr v \<Rightarrow> Some (Inr v)), w3))))"

definition unlocked_call ::
  "('a, 'k, 'r, 'g, 'w) program \<Rightarrow> 'g wrapper_config \<Rightarrow> 's backend \<Rightarrow> 's call_env \<Rightarrow> string \<Rightarrow> 'g \<Rightarrow> ('g, 'k, 'r, 's, 'w) wrapper
   \<Rightarrow> (pyexn + 'a) \<times> ('g, 'k, 'r, 's, 'w) wrapper" where
  "unlocked_call pg cfg bk cl key args w =
     (case execute_and_store pg cfg bk cl key args w of
        (Inl e, w1) \<Rightarrow> (Inl e, on_features (orch_record_failure (cl_end cl) e) w1)
      | (Inr v, w1) \<Rightarrow> (Inr v, w1))"

definition async_miss ::
  "('a, 'k, 'r, 'g, 'w) program \<Rightarrow> 'g wrapper_config \<Rightarrow> 's backend \<Rightarrow> 's lock option \<Rightarrow> 's call_env \<Rightarrow> string \<Rightarrow> 'g
   \<Rightarrow> ('g, 'k, 'r, 's, 'w) wrapper \<Rightarrow> (pyexn + 'a) \<times> ('g, 'k, 'r, 's, 'w) wrapper" where
  "async_miss pg cfg bk lko cl key args w =
     (case lko of
        None \<Rightarrow> unlocked_call pg cfg bk cl key args w
      | Some lk \<Rightarrow>
          (case locked_call pg cfg bk lk cl key args w of
             (Some r, w1) \<Rightarrow> (r, w1)
           | (None, w1) \<Rightarrow> unlocked_call pg cfg bk cl key args w1))"

section \<open>The wrapper\<close>

definition async_backed_read ::
  "('a, 'k, 'r, 'g, 'w) program \<Rightarrow> 'g wrapper_config \<Rightarrow> 's backend \<Rightarrow> 's lock option \<Rightarrow> 's call_env \<Rightarrow> string \<Rightarrow> 'g
   \<Rightarrow> ('g, 'k, 'r, 's, 'w) wrapper \<Rightarrow> (pyexn + 'a) \<times> ('g, 'k, 'r, 's, 'w) wrapper" where
  "async_backed_read pg cfg bk lko cl key args w =
     (case async_read_l2 pg cfg bk cl key w of
        (Inl e, w1) \<Rightarrow>
          if is_auth_error e then (Inl e, w1)
          else async_miss pg cfg bk lko cl key args (report_error (cl_got cl) e ''cache_get'' False (get_ms cl) w1)
      | (Inr None, w1) \<Rightarrow> async_miss pg cfg bk lko cl key args w1
      | (Inr (Some (v, data, stale)), w1) \<Rightarrow> (Inr v, async_l2_hit pg cfg bk cl key args data stale w1))"

definition lazy_backend ::
  "'s call_env \<Rightarrow> ('g, 'k, 'r, 's, 'w) wrapper \<Rightarrow> (pyexn + 's backend) \<times> ('g, 'k, 'r, 's, 'w) wrapper" where
  "lazy_backend cl w =
     (case w_backend w of
        Some b \<Rightarrow> (Inr b, w)
      | None \<Rightarrow> (case cl_provider cl of Inl e \<Rightarrow> (Inl e, w) | Inr b \<Rightarrow> (Inr b, w\<lparr>w_backend := Some b\<rparr>)))"

definition no_client ::
  "('a, 'k, 'r, 'g, 'w) program \<Rightarrow> 's call_env \<Rightarrow> 'g \<Rightarrow> pyexn \<Rightarrow> ('g, 'k, 'r, 's, 'w) wrapper
   \<Rightarrow> (pyexn + 'a) \<times> ('g, 'k, 'r, 's, 'w) wrapper" where
  "no_client pg cl args e w = run_func pg args (report_error (cl_start cl) e ''client_creation'' False 0 w)"

definition async_tiers ::
  "('a, 'k, 'r, 'g, 'w) program \<Rightarrow> 'g wrapper_config \<Rightarrow> 's lock option \<Rightarrow> 's call_env \<Rightarrow> string \<Rightarrow> 'g
   \<Rightarrow> ('g, 'k, 'r, 's, 'w) wrapper \<Rightarrow> (pyexn + 'a) \<times> ('g, 'k, 'r, 's, 'w) wrapper" where
  "async_tiers pg cfg lko cl key args w =
     (case read_l1 pg cfg cl key w of
        (L1Hit v, w1) \<Rightarrow> (Inr v, w1)
      | (L1Raise e, w1) \<Rightarrow> (Inl e, w1)
      | (L1Through, w1) \<Rightarrow>
          (case lazy_backend cl w1 of
             (Inl e, w2) \<Rightarrow> no_client pg cl args e w2
           | (Inr bk, w2) \<Rightarrow> async_backed_read pg cfg bk lko cl key args w2))"

text \<open>
  With an open circuit the wrapper means to raise \<^verbatim>\<open>BackendError\<close>, but that name is local to the whole function, because the handler
  of the lock imports it, and has no value yet.
\<close>

definition unbound_name :: pyexn where
  "unbound_name = PyExn ''UnboundLocalError'' ''cannot access local variable BackendError''"

definition async_backed_call ::
  "('a, 'k, 'r, 'g, 'w) program \<Rightarrow> 'g wrapper_config \<Rightarrow> 's lock option \<Rightarrow> 's call_env \<Rightarrow> string \<Rightarrow> 'g
   \<Rightarrow> ('g, 'k, 'r, 's, 'w) wrapper \<Rightarrow> (pyexn + 'a) \<times> ('g, 'k, 'r, 's, 'w) wrapper" where
  "async_backed_call pg cfg lko cl key args w =
     (if \<not> should_allow_request (os_features (w_op w)) then (Inl unbound_name, w)
      else if ks_interop (wc_keys cfg) \<noteq> None then
        (case lazy_backend cl w of
           (Inl e, w1) \<Rightarrow> no_client pg cl args e w1
         | (Inr b, w1) \<Rightarrow>
             (case cl_interop_error cl of
                Some e \<Rightarrow> (Inl e, w1)
              | None \<Rightarrow> async_tiers pg cfg lko cl key args w1))
      else async_tiers pg cfg lko cl key args w)"

definition async_wrapper ::
  "('a, 'k, 'r, 'g, 'w) program \<Rightarrow> 'g wrapper_config \<Rightarrow> 's lock option \<Rightarrow> 's call_env \<Rightarrow> bool \<Rightarrow> 'g \<Rightarrow> ('g, 'k, 'r, 's, 'w) wrapper
   \<Rightarrow> (pyexn + 'a) \<times> ('g, 'k, 'r, 's, 'w) wrapper" where
  "async_wrapper pg cfg lko cl bypass args w =
     (if bypass then run_func pg args w
      else case set_current_function_stats (Some (fs_function_identifier (w_stats w))) (w_context w) of
        (token, ctx) \<Rightarrow>
          let w1 = set_context ctx w in
          restore token
            (case choose_key cfg args of
               Inl e \<Rightarrow>
                 if ks_interop (wc_keys cfg) \<noteq> None then (Inl e, w1)
                 else run_func pg args (report_error (cl_start cl) e ''key_generation'' False 0 w1)
             | Inr key \<Rightarrow>
                 if wc_l1_only cfg then l1_only_call pg cfg cl True key args w1
                 else async_backed_call pg cfg lko cl key args w1))"

text \<open>\<^verbatim>\<open>ainvalidate_cache\<close> repeats the body of \<^verbatim>\<open>invalidate_cache\<close>; only the call of the invalidator is awaited.\<close>

definition ainvalidate_cache ::
  "'g wrapper_config \<Rightarrow> 's call_env \<Rightarrow> 'g \<Rightarrow> 'g option \<Rightarrow> ('g, 'k, 'r, 's, 'w) wrapper \<Rightarrow> (pyexn + unit) \<times> ('g, 'k, 'r, 's, 'w) wrapper" where
  "ainvalidate_cache cfg cl no_args args w = invalidate_cache cfg cl no_args args w"

end
