(* ===== verification/Backend_Contract.thy ===== *)
theory Backend_Contract
  imports Cache_Handler
begin

text \<open>
  What the handlers rely on when they trust a backend: it may lose entries and fail at will, but whatever it returns under
  a key was written under that key. \<open>good\<close> is a property of entries that every write keeps; the lemmas carry it through
  the standard handler and the operation handler.
\<close>

lemma with_backpressure_cases:
  assumes "with_backpressure f st = (r, st')"
  shows "os_backend st' = os_backend st \<and> (\<exists>e. r = Inl e) \<or> f (os_backend st) = (r, os_backend st')"
proof (cases "orch_load (os_features st)")
  case None
  with assms show ?thesis by (auto simp: with_backpressure_def on_backend_def split: prod.splits)
next
  case (Some c)
  obtain j c1 where j: "join_queue c = (j, c1)" by force
  show ?thesis
  proof (cases j)
    case (Inl e)
    with assms Some j show ?thesis by (auto simp: with_backpressure_def set_load_def)
  next
    case (Inr u)
    show ?thesis
    proof (cases "sem_acquire c1")
      case None
      with assms Some j Inr show ?thesis by (auto simp: with_backpressure_def set_load_def split: prod.splits)
    next
      case Some': (Some c2)
      obtain q s' where f: "f (os_backend st) = (q, s')" by force
      with assms Some Some' j Inr show ?thesis by (auto simp: with_backpressure_def on_backend_def set_load_def)
    qed
  qed
qed

locale sound_backend =
  fixes bk :: "'s backend" and good :: "string \<Rightarrow> bytes \<Rightarrow> bool" and ok :: "'s \<Rightarrow> bool"
  assumes get: "ok s \<Longrightarrow> bk_get bk k s = (r, s') \<Longrightarrow> ok s' \<and> (\<forall>b. r = Inr (Some b) \<longrightarrow> good k b)"
    and set: "ok s \<Longrightarrow> good k b \<Longrightarrow> bk_set bk k b ttl sttl s = (q, s') \<Longrightarrow> ok s'"
    and delete: "ok s \<Longrightarrow> bk_delete bk k s = (d, s') \<Longrightarrow> ok s'"
    and get_buffer: "bk_get_buffer bk = Some f \<Longrightarrow> ok s \<Longrightarrow> f k s = (r, s') \<Longrightarrow> ok s' \<and> (\<forall>b. r = Inr (Some b) \<longrightarrow> good k b)"
    and get_fresh: "bk_get_with_freshness bk = Some g \<Longrightarrow> ok s \<Longrightarrow> g k s = (r2, s')
      \<Longrightarrow> ok s' \<and> (\<forall>b stale. r2 = Inr (Some (b, stale)) \<longrightarrow> good k b)"
    and stream: "bk_set_streaming bk = Some h \<Longrightarrow> ok s \<Longrightarrow> (\<And>b. p = Inr b \<Longrightarrow> good k b) \<Longrightarrow> h k p ttl s = (q, s') \<Longrightarrow> ok s'"
    and get_ttl: "bk_get_ttl bk = Some u \<Longrightarrow> ok s \<Longrightarrow> u k s = (t, s') \<Longrightarrow> ok s'"
    and refresh_ttl: "bk_refresh_ttl bk = Some v \<Longrightarrow> ok s \<Longrightarrow> v k n s = (d, s') \<Longrightarrow> ok s'"
begin

lemma with_backpressure_keeps:
  assumes "ok (os_backend st)" "with_backpressure f st = (r, st')"
    and step: "\<And>q s'. f (os_backend st) = (q, s') \<Longrightarrow> ok s' \<and> (\<forall>x. q = Inr x \<longrightarrow> P x)"
  shows "ok (os_backend st') \<and> (\<forall>x. r = Inr x \<longrightarrow> P x)"
  using with_backpressure_cases [OF assms(2)] step [of r "os_backend st'"] assms(1) by auto

lemma std_get_keeps:
  assumes "ok (os_backend st)" "std_get bk key st = (v, st')"
  shows "ok (os_backend st') \<and> (\<forall>b. v = Some b \<longrightarrow> good key b)"
proof -
  obtain r st1 where w: "with_backpressure (bk_get bk key) st = (r, st1)" by force
  with assms have v: "st' = st1" "v = (case r of Inl e \<Rightarrow> None | Inr x \<Rightarrow> x)"
    by (auto simp: std_get_def swallow_def split: sum.splits)
  have "ok (os_backend st1) \<and> (\<forall>x. r = Inr x \<longrightarrow> (\<forall>b. x = Some b \<longrightarrow> good key b))"
    by (rule with_backpressure_keeps [OF assms(1) w]) (use get [OF assms(1)] in blast)
  with v show ?thesis by (auto split: sum.splits)
qed

lemma std_get_buffer_keeps:
  assumes "ok (os_backend st)" "std_get_buffer bk key st = (v, st')"
  shows "ok (os_backend st') \<and> (\<forall>b. v = Some b \<longrightarrow> good key b)"
proof (cases "bk_get_buffer bk")
  case None
  with assms show ?thesis by (simp add: std_get_buffer_def)
next
  case (Some f)
  obtain r st1 where w: "with_backpressure (f key) st = (r, st1)" by force
  with assms Some have v: "st' = st1" "v = (case r of Inl e \<Rightarrow> None | Inr x \<Rightarrow> x)"
    by (auto simp: std_get_buffer_def swallow_def split: sum.splits)
  have "ok (os_backend st1) \<and> (\<forall>x. r = Inr x \<longrightarrow> (\<forall>b. x = Some b \<longrightarrow> good key b))"
    by (rule with_backpressure_keeps [OF assms(1) w]) (use get_buffer [OF Some assms(1)] in blast)
  with v show ?thesis by (auto split: sum.splits)
qed

lemma std_get_with_freshness_keeps:
  assumes "ok (os_backend st)" "std_get_with_freshness bk key st = (v, st')"
  shows "ok (os_backend st') \<and> (\<forall>b stale. v = Some (b, stale) \<longrightarrow> good key b)"
proof (cases "bk_get_with_freshness bk")
  case None
  then show ?thesis using assms std_get_keeps [OF assms(1)]
    by (auto simp: std_get_with_freshness_def split: prod.splits)
next
  case (Some f)
  obtain r st1 where w: "with_backpressure (f key) st = (r, st1)" by force
  with assms Some have v: "st' = st1" "v = (case r of Inl e \<Rightarrow> None | Inr x \<Rightarrow> x)"
    by (auto simp: std_get_with_freshness_def swallow_def split: sum.splits)
  have "ok (os_backend st1) \<and> (\<forall>x. r = Inr x \<longrightarrow> (\<forall>b stale. x = Some (b, stale) \<longrightarrow> good key b))"
    by (rule with_backpressure_keeps [OF assms(1) w]) (use get_fresh [OF Some assms(1)] in blast)
  with v show ?thesis by (auto split: sum.splits)
qed

lemma std_set_keeps:
  assumes "ok (os_backend st)" "good key data" "std_set bk key data ttl sttl st = (v, st')"
  shows "ok (os_backend st')"
proof -
  obtain r st1 t where w: "with_backpressure (bk_set bk key data ttl t) st = (r, st1)" "st' = st1"
    using assms(3) by (auto simp: std_set_def Let_def split: if_splits prod.splits sum.splits)
  have "ok (os_backend st1) \<and> (\<forall>x. r = Inr x \<longrightarrow> True)"
    by (rule with_backpressure_keeps [OF assms(1) w(1)]) (use set [OF assms(1,2)] in blast)
  with w(2) show ?thesis by simp
qed

lemma std_set_streaming_keeps:
  assumes "ok (os_backend st)" "\<And>b. p = Inr b \<Longrightarrow> good key b" "std_set_streaming bk key p ttl st = (v, st')"
  shows "ok (os_backend st')"
proof (cases "bk_set_streaming bk")
  case None
  with assms show ?thesis by (simp add: std_set_streaming_def)
next
  case (Some f)
  then obtain r st1 where w: "with_backpressure (f key p ttl) st = (r, st1)" "st' = st1"
    using assms(3) by (auto simp: std_set_streaming_def split: prod.splits sum.splits)
  have "ok (os_backend st1) \<and> (\<forall>x. r = Inr x \<longrightarrow> True)"
    by (rule with_backpressure_keeps [OF assms(1) w(1)]) (use stream [OF Some assms(1,2)] in blast)
  with w(2) show ?thesis by simp
qed

lemma std_delete_keeps:
  assumes "ok (os_backend st)" "std_delete bk key st = (v, st')"
  shows "ok (os_backend st')"
proof -
  obtain r st1 where w: "with_backpressure (bk_delete bk key) st = (r, st1)" "st' = st1"
    using assms(2) by (auto simp: std_delete_def swallow_def split: prod.splits sum.splits)
  have "ok (os_backend st1) \<and> (\<forall>x. r = Inr x \<longrightarrow> True)"
    by (rule with_backpressure_keeps [OF assms(1) w(1)]) (use delete [OF assms(1)] in blast)
  with w(2) show ?thesis by simp
qed

lemma maybe_refresh_ttl_keeps:
  assumes "ok (os_backend st)"
  shows "ok (os_backend (maybe_refresh_ttl bk threshold key n st))"
proof (cases "bk_get_ttl bk"; cases "bk_refresh_ttl bk")
  fix u v assume u: "bk_get_ttl bk = Some u" "bk_refresh_ttl bk = Some v"
  obtain t s1 where t: "u key (os_backend st) = (t, s1)" by force
  obtain d s2 where d: "v key n s1 = (d, s2)" by force
  have "ok s1" "ok s2" using get_ttl [OF u(1) assms t] refresh_ttl [OF u(2) _ d] by blast+
  then show ?thesis using u t d by (simp add: maybe_refresh_ttl_def on_backend_def split: sum.split option.split)
qed (use assms in \<open>simp_all add: maybe_refresh_ttl_def\<close>)

lemma std_get_async_keeps:
  assumes "ok (os_backend st)" "std_get_async bk threshold key n st = (v, st')"
  shows "ok (os_backend st') \<and> (\<forall>b. v = Some b \<longrightarrow> good key b)"
proof -
  obtain v1 st1 where g: "std_get bk key st = (v1, st1)" by force
  from std_get_keeps [OF assms(1) this] assms(2) g maybe_refresh_ttl_keeps [of st1 threshold key] show ?thesis
    by (auto simp: std_get_async_def split: option.splits)
qed

lemma read_entry_keeps:
  assumes "ok (os_backend st)" "read_entry bk key st = (v, st')"
  shows "ok (os_backend st') \<and> (\<forall>b. v = Some b \<longrightarrow> good key b)"
proof (cases "supports_mmap_read (os_ser st)")
  case False
  with assms std_get_keeps [OF assms(1)] show ?thesis by (simp add: read_entry_def)
next
  case True
  obtain v1 st1 where b: "std_get_buffer bk key st = (v1, st1)" by force
  from std_get_buffer_keeps [OF assms(1) this] True assms(2) b std_get_keeps [of st1 key] show ?thesis
    by (auto simp: read_entry_def split: option.splits)
qed

end

section \<open>Entries that decode\<close>

lemma maybe_refresh_ttl_ser [simp]: "os_ser (maybe_refresh_ttl bk threshold key m st) = os_ser st"
  by (simp add: maybe_refresh_ttl_def on_backend_def split: option.split sum.split prod.split)

lemma std_get_with_freshness_ser: "std_get_with_freshness bk key st = (v, st') \<Longrightarrow> os_ser st' = os_ser st"
  by (auto simp: std_get_with_freshness_def swallow_def split: option.splits prod.splits sum.splits dest: std_ops_ser)

lemma std_get_async_ser: "std_get_async bk threshold key n st = (v, st') \<Longrightarrow> os_ser st' = os_ser st"
  by (auto simp: std_get_async_def split: prod.splits option.splits dest: std_ops_ser)

text \<open>
  The laws of the code outside the repository (cipher, serializer, JSON) for the handlers of one configuration, a tenant
  that is never empty, no streamed writes, and no interop rejection (only the interop encoder raises one). An entry is decodable when every such handler reads the value from it.
\<close>

definition codec_laws :: "('a, 'k, 'r) ser_env \<Rightarrow> ('g, 'k, 'r) ser_handler \<Rightarrow> bool" where
  "codec_laws en h0 \<longleftrightarrow> \<not> sh_interop h0 \<and> \<not> supports_streaming h0
     \<and> cipher_inverts (en_crypto en) \<and> serializer_inverts (en_base en) \<and> plain_serializer (en_base en)
     \<and> (\<forall>args. write_tenant args h0 \<noteq> Inr [])
     \<and> (\<forall>n args obj key h payload m h'. same_config h0 h \<longrightarrow> serialize_payload en n args obj key h = (Inr (payload, m), h') \<longrightarrow>
          en_loads en (en_dumps en (entry_header h0 m)) = Inr (to_dict m, HStr (sh_string_name h0)))
     \<and> (\<forall>n args obj key h e h'. same_config h0 h \<longrightarrow> serialize_data en n args obj key h = (Inl e, h') \<longrightarrow> \<not> is_interop_error e)"

definition decodes :: "('a, 'k, 'r) ser_env \<Rightarrow> ('g, 'k, 'r) ser_handler \<Rightarrow> string \<Rightarrow> bytes \<Rightarrow> 'a \<Rightarrow> bool" where
  "decodes en h0 key data v \<longleftrightarrow>
     (\<forall>h. wrappers_ok en h \<and> same_config h0 h \<longrightarrow> fst (deserialize_data en data key h) = Inr v)"

lemma serialize_decodes:
  assumes "codec_laws en h0" "wrappers_ok en h1" "same_config h0 h1" "serialize_data en n args obj key h1 = (Inr data, h1')"
  shows "decodes en h0 key data obj"
  unfolding decodes_def
proof (intro allI impI)
  fix h2 assume h2: "wrappers_ok en h2 \<and> same_config h0 h2"
  have same: "entry_header h1 m = entry_header h0 m" "write_tenant args h1 = write_tenant args h0" for m
    using assms(3) unfolding entry_header_def write_tenant_def same_config_def by metis+
  have json: "serialize_payload en n args obj key h1 = (Inr (payload, m), h') \<Longrightarrow>
      en_loads en (en_dumps en (entry_header h1 m)) = Inr (to_dict m, HStr (sh_string_name h1))" for payload m h'
  proof -
    assume "serialize_payload en n args obj key h1 = (Inr (payload, m), h')"
    with assms(1,3) have "en_loads en (en_dumps en (entry_header h0 m)) = Inr (to_dict m, HStr (sh_string_name h0))"
      unfolding codec_laws_def by blast
    moreover have "sh_string_name h1 = sh_string_name h0" using assms(3) by (simp add: same_config_def)
    ultimately show ?thesis by (simp add: same)
  qed
  show "fst (deserialize_data en data key h2) = Inr obj"
    by (rule stored_entry_decodes [OF assms(2) _ _ _ _ _ _ _ _ _ _ _ _ assms(4)])
       (use assms(1,3) h2 same json in \<open>auto simp: codec_laws_def same_config_def\<close>)
qed

definition handler_ok :: "('a, 'k, 'r) ser_env \<Rightarrow> ('g, 'k, 'r) ser_handler \<Rightarrow> ('g, 'k, 'r) ser_handler \<Rightarrow> bool" where
  "handler_ok en h0 h \<longleftrightarrow> wrappers_ok en h \<and> same_config h0 h"

lemma handler_ok_deserialize:
  "handler_ok en h0 h \<Longrightarrow> deserialize_data en data key h = (r, h') \<Longrightarrow> handler_ok en h0 h'"
  unfolding handler_ok_def using deserialize_data_ok same_config_trans by blast

lemma handler_ok_serialize:
  "handler_ok en h0 h \<Longrightarrow> serialize_data en n args obj key h = (r, h') \<Longrightarrow> handler_ok en h0 h'"
  unfolding handler_ok_def by (metis serialize_data_ok same_config_trans)

lemma handler_ok_counter [simp]:
  "handler_ok en h0 (h\<lparr>sh_counters := c\<rparr>) = handler_ok en h0 h"
  by (simp add: handler_ok_def wrappers_ok_def same_config_def)

lemma supports_streaming_cong: "same_config h h' \<Longrightarrow> supports_streaming h' = supports_streaming h"
  by (simp add: supports_streaming_def same_config_def)

text \<open>
  The read and write paths of the operation handler over a sound backend. The backend is shared: only under the keys that
  are \<open>mine\<close> do good entries decode to results; nothing is said of the entries of other users.
\<close>

locale decoding_backend = sound_backend bk good ok
  for bk :: "'s backend" and good ok +
  fixes en :: "('a, 'k, 'r) ser_env" and h0 :: "('g, 'k, 'r) ser_handler"
    and mine :: "string \<Rightarrow> bool" and result :: "string \<Rightarrow> 'a \<Rightarrow> bool"
  assumes laws: "codec_laws en h0"
    and good_decodes: "mine key \<Longrightarrow> good key b \<longleftrightarrow> (\<exists>v. result key v \<and> decodes en h0 key b v)"
begin

definition op_ok :: "('g, 'k, 'r, 's) op_state \<Rightarrow> bool" where
  "op_ok st \<longleftrightarrow> ok (os_backend st) \<and> handler_ok en h0 (os_ser st)"

lemma good_read:
  assumes "mine key" "good key b" "handler_ok en h0 h"
  obtains v where "fst (deserialize_data en b key h) = Inr v" "result key v"
  using assms good_decodes [OF assms(1)] unfolding decodes_def handler_ok_def by blast

lemma read_good:
  assumes k: "mine key" and st: "op_ok st" and b: "good key b"
    and out: "read_outcome bk now key (on_ser (deserialize_data en b key) st) = (r, st')"
  shows "op_ok st' \<and> (\<exists>v. r = Inr (Some v) \<and> result key v)"
proof -
  obtain q h where d: "deserialize_data en b key (os_ser st) = (q, h)" by force
  obtain v where "q = Inr v" "result key v" using good_read [OF k b, of "os_ser st"] st d by (auto simp: op_ok_def)
  moreover have "handler_ok en h0 h" using handler_ok_deserialize [OF _ d] st by (simp add: op_ok_def)
  ultimately show ?thesis using out d st by (auto simp: on_ser_def read_outcome_def op_ok_def)
qed

lemma get_cached_value_good:
  assumes "op_ok st" "mine key" "get_cached_value en bk now key st = (r, st')"
  shows "op_ok st' \<and> (\<exists>o1. r = Inr o1 \<and> (\<forall>v. o1 = Some v \<longrightarrow> result key v))"
proof -
  obtain v st1 where re: "read_entry bk key st = (v, st1)" by force
  have st1: "op_ok st1" "\<And>b. v = Some b \<Longrightarrow> good key b"
    using read_entry_keeps [of st key, OF _ re] read_entry_ser [OF re] assms(1) by (auto simp: op_ok_def)
  show ?thesis
  proof (cases v)
    case None
    with assms(3) re st1 show ?thesis by (auto simp: get_cached_value_def)
  next
    case (Some b)
    with assms(3) re read_good [OF assms(2) st1(1) st1(2) [OF Some]] show ?thesis by (fastforce simp: get_cached_value_def)
  qed
qed

lemma get_cached_value_with_freshness_good:
  assumes "op_ok st" "mine key" "get_cached_value_with_freshness en bk now key st = (r, st')"
  shows "op_ok st' \<and> (\<exists>o1. r = Inr o1 \<and> (\<forall>v stale. o1 = Some (v, stale) \<longrightarrow> result key v))"
proof -
  obtain v st1 where re: "std_get_with_freshness bk key st = (v, st1)" by force
  have st1: "op_ok st1" "\<And>b stale. v = Some (b, stale) \<Longrightarrow> good key b"
    using std_get_with_freshness_keeps [of st key, OF _ re] std_get_with_freshness_ser [OF re] assms(1) by (auto simp: op_ok_def)
  show ?thesis
  proof (cases v)
    case None
    with assms(3) re st1 show ?thesis by (auto simp: get_cached_value_with_freshness_def)
  next
    case (Some p)
    obtain b stale where p: "p = (b, stale)" by (cases p)
    obtain q st2 where out: "read_outcome bk now key (on_ser (deserialize_data en b key) st1) = (q, st2)" by force
    from read_good [OF assms(2) st1(1) st1(2) out] Some p assms(3) re out show ?thesis
      by (auto simp: get_cached_value_with_freshness_def)
  qed
qed

lemma get_cached_value_async_good:
  assumes "op_ok st" "mine key" "get_cached_value_async en bk threshold now key n st = (r, st')"
  shows "op_ok st' \<and> (\<exists>o1. r = Inr o1 \<and> (\<forall>v b. o1 = Some (v, b) \<longrightarrow> result key v \<and> good key b))"
proof -
  obtain v st1 where re: "std_get_async bk threshold key n st = (v, st1)" by force
  have st1: "op_ok st1" "\<And>b. v = Some b \<Longrightarrow> good key b"
    using std_get_async_keeps [of st threshold key, OF _ re] std_get_async_ser [OF re] assms(1) by (auto simp: op_ok_def)
  show ?thesis
  proof (cases v)
    case None
    with assms(3) re st1 show ?thesis by (auto simp: get_cached_value_async_def)
  next
    case (Some b)
    obtain q st2 where out: "read_outcome bk now key (on_ser (deserialize_data en b key) st1) = (q, st2)" by force
    from read_good [OF assms(2) st1(1) st1(2) [OF Some] out] Some assms(3) re out st1(2) show ?thesis
      by (auto simp: get_cached_value_async_def)
  qed
qed

lemma serialize_good:
  assumes "op_ok st" "mine key" "result key v" "on_ser (serialize_data en n args v key) st = (r, st')"
  shows "op_ok st' \<and> (\<forall>data. r = Inr data \<longrightarrow> good key data)"
proof -
  obtain q h where s: "serialize_data en n args v key (os_ser st) = (q, h)" by force
  have "handler_ok en h0 h" using handler_ok_serialize [OF _ s] assms(1) by (simp add: op_ok_def)
  moreover have "good key data" if "q = Inr data" for data
    using serialize_decodes [OF laws] s that assms(1,3) good_decodes [OF assms(2)] unfolding op_ok_def handler_ok_def by blast
  ultimately show ?thesis using assms(1,4) s by (auto simp: on_ser_def op_ok_def)
qed

lemma std_set_good:
  assumes "op_ok st" "good key data" "std_set bk key data ttl sttl st = (v, st')"
  shows "op_ok st'"
  using std_set_keeps [OF _ assms(2,3)] std_ops_ser(4) [OF assms(3)] assms(1) by (simp add: op_ok_def)

lemma store_result_good:
  assumes "op_ok st" "mine key" "result key v" "store_result en bk n key v ttl args sttl st = (r, st')"
  shows "op_ok st' \<and> (\<forall>data. r = Inr (Some data) \<longrightarrow> good key data) \<and> (\<exists>o1. r = Inr o1)"
proof -
  have "\<not> supports_streaming (os_ser st)"
    using laws assms(1) supports_streaming_cong [of h0 "os_ser st"] by (simp add: codec_laws_def op_ok_def handler_ok_def)
  then have sb: "store_buffered en bk n key v ttl args sttl st = (r, st')" using assms(4) by (simp add: store_result_def)
  obtain q st1 where s: "on_ser (serialize_data en n args v key) st = (q, st1)" by force
  have "\<not> is_interop_error e" if q: "q = Inl e" for e
  proof -
    obtain h' where "serialize_data en n args v key (os_ser st) = (Inl e, h')"
      using s q by (auto simp: on_ser_def split: prod.splits)
    then show ?thesis using laws assms(1) unfolding codec_laws_def op_ok_def handler_ok_def by blast
  qed
  with serialize_good [OF assms(1-3) s] sb s std_set_good [of st1 key _ ttl sttl] show ?thesis
    by (auto simp: store_buffered_def split: sum.splits prod.splits if_splits)
qed

end

end
