(* ===== verification/Backend_Instances.thy ===== *)
theory Backend_Instances
  imports Backend_Contract Remote_Backends
begin

text \<open>
  The network backends behind the interface the handlers use, and the contract they fulfil: over a server that returns
  under a key only what was stored there, \<^verbatim>\<open>RedisBackend\<close>, \<^verbatim>\<open>PerRequestRedisBackend\<close> and \<^verbatim>\<open>MemcachedBackend\<close> are sound.
\<close>

definition raising :: "(backend_error + 'b) \<times> 's \<Rightarrow> (pyexn + 'b) \<times> 's" where
  "raising r = (case r of (Inl e, s) \<Rightarrow> (Inl (BackendExn e), s) | (Inr x, s) \<Rightarrow> (Inr x, s))"

definition redis_backend :: "pyexn + 's redis_client \<Rightarrow> 's backend" where
  "redis_backend provider = \<lparr>bk_get = (\<lambda>k s. raising (redis_get provider k s)),
     bk_set = (\<lambda>k v ttl stale s. raising (redis_set provider k v ttl s)),
     bk_delete = (\<lambda>k s. raising (redis_delete provider k s)),
     bk_get_buffer = None, bk_set_streaming = None, bk_get_with_freshness = None, bk_get_ttl = None, bk_refresh_ttl = None\<rparr>"

definition per_request_backend :: "classifier \<Rightarrow> 's redis_client \<Rightarrow> per_request \<Rightarrow> 's backend" where
  "per_request_backend classify c b = \<lparr>bk_get = (\<lambda>k s. raising (pr_get classify c b k s)),
     bk_set = (\<lambda>k v ttl stale s. raising (pr_set classify c b k v ttl s)),
     bk_delete = (\<lambda>k s. raising (pr_delete classify c b k s)),
     bk_get_buffer = None, bk_set_streaming = None, bk_get_with_freshness = None,
     bk_get_ttl = Some (\<lambda>k s. raising (pr_get_ttl classify c b k s)),
     bk_refresh_ttl = Some (\<lambda>k t s. raising (pr_refresh_ttl classify c b k t s))\<rparr>"

definition memcached_backend :: "classifier \<Rightarrow> memcached_config \<Rightarrow> 's memcached_client \<Rightarrow> 's backend" where
  "memcached_backend classify cfg c = \<lparr>bk_get = (\<lambda>k s. raising (memcached_get classify cfg c k s)),
     bk_set = (\<lambda>k v ttl stale s. raising (memcached_set classify cfg c k v ttl s)),
     bk_delete = (\<lambda>k s. raising (memcached_delete classify cfg c k s)),
     bk_get_buffer = None, bk_set_streaming = None, bk_get_with_freshness = None, bk_get_ttl = None, bk_refresh_ttl = None\<rparr>"

text \<open>What the clients' documentation promises, for entries with a property \<open>good\<close> under the server's key.\<close>

locale redis_server =
  fixes c :: "'s redis_client" and good :: "string \<Rightarrow> bytes \<Rightarrow> bool" and ok :: "'s \<Rightarrow> bool"
  assumes rget: "ok s \<Longrightarrow> rc_get c k s = (r, s') \<Longrightarrow>
      ok s' \<and> (\<forall>b. r = Inr (RBytes b) \<longrightarrow> good k b) \<and> (\<forall>t. r = Inr (RStr t) \<longrightarrow> good k (map of_char t))"
    and rset: "ok s \<Longrightarrow> good k b \<Longrightarrow> rc_set c k b s = (r, s') \<Longrightarrow> ok s'"
    and rsetex: "ok s \<Longrightarrow> good k b \<Longrightarrow> rc_setex c k t b s = (r, s') \<Longrightarrow> ok s'"
    and rdelete: "ok s \<Longrightarrow> rc_delete c k s = (r, s') \<Longrightarrow> ok s'"
    and rttl: "ok s \<Longrightarrow> rc_ttl c k s = (r, s') \<Longrightarrow> ok s'"
    and rexpire: "ok s \<Longrightarrow> rc_expire c k t s = (r, s') \<Longrightarrow> ok s'"
begin

lemma store_ok:
  assumes "ok s" "good k b" "store_command c k b ttl s = (r, s')"
  shows "ok s'"
  using assms(3) rset [OF assms(1,2)] rsetex [OF assms(1,2)]
  by (auto simp: store_command_def split: option.splits if_splits)

lemma delete_state: "ok s \<Longrightarrow> counted w m n k (rc_delete c k' s) = (r, s') \<Longrightarrow> ok s'"
  using rdelete [of s k'] by (cases "rc_delete c k' s") (auto simp: counted_def split: sum.splits option.splits)

end

sublocale redis_server \<subseteq> rb: sound_backend "redis_backend (Inr c)" good ok
proof unfold_locales
  fix s s' k b ttl stale and r :: "pyexn + bytes option" and q :: "pyexn + unit" and d :: "pyexn + bool"
  assume s: "ok s"
  show "ok s' \<and> (\<forall>b. r = Inr (Some b) \<longrightarrow> good k b)" if "bk_get (redis_backend (Inr c)) k s = (r, s')"
    using that rget [OF s, of k]
    by (auto simp: redis_backend_def redis_get_def redis_get_client_def raising_def split: sum.splits prod.splits reply.splits)
  show "ok s'" if "good k b" "bk_set (redis_backend (Inr c)) k b ttl stale s = (q, s')"
    using that store_ok [OF s that(1), of ttl]
    by (auto simp: redis_backend_def redis_set_def redis_get_client_def raising_def split: sum.splits prod.splits)
  show "ok s'" if "bk_delete (redis_backend (Inr c)) k s = (d, s')"
    using that delete_state [OF s]
    by (auto simp: redis_backend_def redis_delete_def redis_get_client_def raising_def split: sum.splits prod.splits)
qed (simp_all add: redis_backend_def)

text \<open>The tenant-scoped backend: its entries are those under the scoped keys.\<close>

lemma per_request_sound:
  assumes "redis_server c good ok"
  shows "sound_backend (per_request_backend classify c b) (\<lambda>k. good (scoped_key b k)) ok"
proof unfold_locales
  fix s s' k v ttl stale and r :: "pyexn + bytes option" and q :: "pyexn + unit" and d :: "pyexn + bool"
  assume s: "ok s"
  note simps = per_request_backend_def raising_def
  show "ok s' \<and> (\<forall>v. r = Inr (Some v) \<longrightarrow> good (scoped_key b k) v)" if "bk_get (per_request_backend classify c b) k s = (r, s')"
    using that redis_server.rget [OF assms s, of "scoped_key b k"]
    by (auto simp: simps pr_get_def split: sum.splits prod.splits reply.splits)
  show "ok s'" if "good (scoped_key b k) v" "bk_set (per_request_backend classify c b) k v ttl stale s = (q, s')"
    using that redis_server.store_ok [OF assms s that(1), of ttl]
    by (auto simp: simps pr_set_def split: sum.splits prod.splits)
  show "ok s'" if "bk_delete (per_request_backend classify c b) k s = (d, s')"
    using that redis_server.delete_state [OF assms s] by (auto simp: simps pr_delete_def split: sum.splits prod.splits)
next
  fix u v s k t s' and n :: int and d :: "pyexn + bool"
  assume s: "ok s"
  show "ok s'" if "bk_get_ttl (per_request_backend classify c b) = Some u" "u k s = (t, s')"
    using that redis_server.rttl [OF assms s, of "scoped_key b k"]
    by (auto simp: per_request_backend_def raising_def pr_get_ttl_def Let_def split: sum.splits prod.splits option.splits)
  show "ok s'" if "bk_refresh_ttl (per_request_backend classify c b) = Some v" "v k n s = (d, s')"
    using that redis_server.rexpire [OF assms s, of "scoped_key b k"]
    by (auto simp: per_request_backend_def raising_def pr_refresh_ttl_def split: sum.splits prod.splits)
qed (simp_all add: per_request_backend_def)

lemma memcached_sound:
  assumes get: "\<And>s k r s'. ok s \<Longrightarrow> mcc_get c k s = (r, s') \<Longrightarrow> ok s' \<and> (\<forall>b. r = Inr (Some b) \<longrightarrow> good k b)"
    and set: "\<And>s k b t r s'. ok s \<Longrightarrow> good k b \<Longrightarrow> mcc_set c k b t s = (r, s') \<Longrightarrow> ok s'"
    and delete: "\<And>s k r s'. ok s \<Longrightarrow> mcc_delete c k s = (r, s') \<Longrightarrow> ok s'"
  shows "sound_backend (memcached_backend classify cfg c) (\<lambda>k. good (prefixed_key cfg k)) ok"
proof unfold_locales
  fix s s' k v ttl stale and r :: "pyexn + bytes option" and q :: "pyexn + unit" and d :: "pyexn + bool"
  assume s: "ok s"
  note simps = memcached_backend_def raising_def
  show "ok s' \<and> (\<forall>v. r = Inr (Some v) \<longrightarrow> good (prefixed_key cfg k) v)" if "bk_get (memcached_backend classify cfg c) k s = (r, s')"
    using that get [OF s, of "prefixed_key cfg k"] by (auto simp: simps memcached_get_def split: sum.splits prod.splits)
  show "ok s'" if "good (prefixed_key cfg k) v" "bk_set (memcached_backend classify cfg c) k v ttl stale s = (q, s')"
    using that set [OF s that(1)] s by (auto simp: simps memcached_set_def split: sum.splits prod.splits if_splits)
  show "ok s'" if "bk_delete (memcached_backend classify cfg c) k s = (d, s')"
    using that delete [OF s] by (auto simp: simps memcached_delete_def split: sum.splits prod.splits)
qed (simp_all add: memcached_backend_def)

text \<open>A server that is a finite map, with any property of its entries.\<close>

definition entries_good :: "(string \<Rightarrow> bytes \<Rightarrow> bool) \<Rightarrow> (string \<times> bytes) list \<Rightarrow> bool" where
  "entries_good good s \<longleftrightarrow> (\<forall>k b. map_of s k = Some b \<longrightarrow> good k b)"

interpretation map_server: redis_server map_client good "entries_good good" for good
  by unfold_locales
     (auto simp: map_client_def entries_good_def update_conv' AList.delete_conv' split: option.splits if_splits)

end
