(* ===== verification/Wrapper_Refinement.thy ===== *)
theory Wrapper_Refinement
  imports Sync_Wrapper Backend_Instances
begin

text \<open>
  The decorated function refines the plain one. The abstract specification of a decorated function is the function itself;
  the locale collects what the argument needs: a sound backend, the codec laws, a function whose outcome depends on its
  arguments only, and a key that determines the outcome.
\<close>

section \<open>Invariant of the shared state\<close>

definition key_of :: "'g wrapper_config \<Rightarrow> string \<Rightarrow> bool" where
  "key_of cfg key \<longleftrightarrow> (\<exists>a. choose_key cfg a = Inr key)"

definition result_of :: "'g wrapper_config \<Rightarrow> ('g \<Rightarrow> pyexn + 'a) \<Rightarrow> string \<Rightarrow> 'a \<Rightarrow> bool" where
  "result_of cfg spec key v \<longleftrightarrow> (\<forall>a. choose_key cfg a = Inr key \<longrightarrow> spec a = Inr v)"

definition entry_of ::
  "('a, 'k, 'r) ser_env \<Rightarrow> ('g, 'k, 'r) ser_handler \<Rightarrow> 'g wrapper_config \<Rightarrow> ('g \<Rightarrow> pyexn + 'a) \<Rightarrow> string \<Rightarrow> bytes \<Rightarrow> bool" where
  "entry_of en h0 cfg spec key b \<longleftrightarrow>
     (key_of cfg key \<longrightarrow> (\<exists>v. result_of cfg spec key v \<and> decodes en h0 key b v))"

definition object_of :: "('a, 'k, 'r, 'g, 'w) program \<Rightarrow> 'g wrapper_config \<Rightarrow> ('g \<Rightarrow> pyexn + 'a) \<Rightarrow> string \<Rightarrow> nat \<Rightarrow> bool" where
  "object_of pg cfg spec key i \<longleftrightarrow> (key_of cfg key \<longrightarrow> result_of cfg spec key (pg_obj pg i))"

locale decorated =
  decoding_backend bk "entry_of (pg_env pg) h0 cfg spec" ok "pg_env pg" h0 "key_of cfg" "result_of cfg spec"
  for bk :: "'s backend" and ok :: "'s \<Rightarrow> bool" and pg :: "('a, 'k, 'r, 'g, 'w) program" and cfg :: "'g wrapper_config"
    and h0 :: "('g, 'k, 'r) ser_handler" and spec :: "'g \<Rightarrow> pyexn + 'a" +
  assumes pure: "fst (pg_func pg a x) = spec a"
    and respects: "choose_key cfg a = Inr key \<Longrightarrow> choose_key cfg b = Inr key \<Longrightarrow> spec a = spec b"
    and no_interop: "ks_interop (wc_keys cfg) = None"
    and obj_id: "pg_obj pg (pg_id pg v) = v"
    and ttl: "wc_ttl cfg = Some t \<Longrightarrow> 1 \<le> t"
    and text_errors: "pg_text_error pg v = Some e \<Longrightarrow> \<not> is_auth_error e"
begin

definition stores_ok :: "('g, 'k, 'r, 's, 'w) wrapper \<Rightarrow> bool" where
  "stores_ok w \<longleftrightarrow> op_ok (w_op w) \<and> w_backend w \<in> {None, Some bk}
     \<and> (\<forall>c. w_l1 w = Some c \<longrightarrow> l1_wf c \<and> l1.coherent (entry_of (pg_env pg) h0 cfg spec) c)
     \<and> (\<forall>c. w_object_cache w = Some c \<longrightarrow> oc_inv c \<and> oc.coherent (object_of pg cfg spec) c)"

text \<open>A branch delivers the outcome of the function and leaves the stores in order.\<close>

definition delivers :: "'g \<Rightarrow> (pyexn + 'a) \<times> ('g, 'k, 'r, 's, 'w) wrapper \<Rightarrow> bool" where
  "delivers args r \<longleftrightarrow> fst r = spec args \<and> stores_ok (snd r)"

lemma stores_ok_frame [simp]:
  "stores_ok (on_features g w) = stores_ok w"
  "stores_ok (on_stats f w) = stores_ok w"
  "stores_ok (report_error now e op sp d w) = stores_ok w"
  "stores_ok (note_success op d m w) = stores_ok w"
  "stores_ok (track_key k w) = stores_ok w"
  "stores_ok (untrack_key k w) = stores_ok w"
  "stores_ok (set_context c w) = stores_ok w"
  "stores_ok (w\<lparr>w_world := x\<rparr>) = stores_ok w"
  "stores_ok (w\<lparr>w_jobs := js\<rparr>) = stores_ok w"
  "stores_ok (w\<lparr>w_l1_swr := p\<rparr>) = stores_ok w"
  "stores_ok (w\<lparr>w_l2_swr := p\<rparr>) = stores_ok w"
  by (simp_all add: stores_ok_def on_features_def on_stats_def report_error_def note_success_def track_key_def
      untrack_key_def set_context_def op_ok_def)

lemma stores_ok_restore [simp]: "stores_ok (snd (restore t r)) = stores_ok (snd r)"
  by (simp add: restore_def)

lemma fst_restore [simp]: "fst (restore t r) = fst r"
  by (simp add: restore_def)

lemma delivers_restore [simp]: "delivers args (restore t r) = delivers args r"
  by (simp add: delivers_def)

lemma run_func_delivers: "stores_ok w \<Longrightarrow> delivers args (run_func pg args w)"
  using pure [of args "w_world w"] by (auto simp: delivers_def run_func_def split: prod.split)

lemma run_func_cases:
  assumes "stores_ok w" "run_func pg args w = (r, w1)"
  shows "r = spec args \<and> stores_ok w1"
  using run_func_delivers [OF assms(1), of args] assms(2) by (simp add: delivers_def)

lemma own_result: "choose_key cfg a = Inr key \<Longrightarrow> spec a = Inr v \<Longrightarrow> result_of cfg spec key v"
  unfolding result_of_def using respects by metis

lemma own_key: "choose_key cfg a = Inr key \<Longrightarrow> key_of cfg key"
  by (auto simp: key_of_def)

lemma put_l1_ok:
  assumes "stores_ok w" "entry_of (pg_env pg) h0 cfg spec key b"
  shows "stores_ok (put_l1 cfg now key b w)"
proof (cases "w_l1 w")
  case (Some c)
  with assms(1) have "l1_wf c" "l1.coherent (entry_of (pg_env pg) h0 cfg spec) c" by (auto simp: stores_ok_def)
  with l1.coherent_put [of c _ key b "(now, ttl_float (wc_ttl cfg), None)"] l1.invar_put [of c "(now, ttl_float (wc_ttl cfg), None)"]
    assms Some show ?thesis by (auto simp: put_l1_def stores_ok_def)
qed (use assms in \<open>simp add: put_l1_def\<close>)

lemma drop_l1_ok: "stores_ok w \<Longrightarrow> stores_ok (drop_l1 key w)"
  by (auto simp: stores_ok_def drop_l1_def l1.coherent_remove l1.invar_remove)

section \<open>The L1-only mode\<close>

lemma oc_run_ok:
  assumes "oc_inv c" "oc.coherent P c" "\<And>op k v. op \<in> set ops \<Longrightarrow> (k, v) \<in> writes op \<Longrightarrow> P k v"
  shows "oc_inv (oc_run ops c) \<and> oc.coherent P (oc_run ops c)"
  using coherent_run [of c P ops] oc_run_inv [of c ops] assms by blast

lemma object_cache_ok:
  assumes "stores_ok w" "w_object_cache w = Some c" "\<And>k v. (k, v) \<in> writes op \<Longrightarrow> object_of pg cfg spec k v"
  shows "stores_ok (w\<lparr>w_object_cache := Some (oc_step op c)\<rparr>)"
  using oc_run_ok [of c "object_of pg cfg spec" "[op]"] assms by (auto simp: stores_ok_def oc_run_def)

lemma l1_cancel_ok:
  assumes "stores_ok w"
  shows "stores_ok (l1_cancel key version w)"
proof (cases "w_object_cache w")
  case None
  with assms show ?thesis by (simp add: l1_cancel_def stores_ok_def)
next
  case (Some c)
  with object_cache_ok [OF assms Some, of "OCancel key version"] show ?thesis by (simp add: l1_cancel_def)
qed

lemma schedule_l1_refresh_ok:
  "stores_ok w \<Longrightarrow> stores_ok (schedule_l1_refresh pg cl is_async key version args w)"
  by (auto simp: schedule_l1_refresh_def l1_swr_acquire_def Let_def l1_cancel_ok split: prod.split bool.split if_splits)

lemma read_object_ok:
  assumes "stores_ok w" "w_object_cache w = Some c" "read_object cfg cl key c = (r, c1)"
  shows "stores_ok (w\<lparr>w_object_cache := Some c1\<rparr>)"
    and "sr_hit r \<Longrightarrow> object_of pg cfg spec key (the (sr_value r))"
proof -
  have coh: "oc.coherent (object_of pg cfg spec) c" and inv: "oc_inv c" using assms(1,2) by (auto simp: stores_ok_def)
  obtain t where step: "c1 = oc_step (OGet (cl_read cl) key) c \<or> c1 = oc_step (OSwr (cl_read cl) (cl_jitter cl) key t) c"
    using assms(3) by (auto simp: read_object_def split: option.splits if_splits prod.splits) (metis snd_conv)+
  then show "stores_ok (w\<lparr>w_object_cache := Some c1\<rparr>)"
    using object_cache_ok [OF assms(1,2), of "OGet (cl_read cl) key"]
      object_cache_ok [OF assms(1,2), of "OSwr (cl_read cl) (cl_jitter cl) key t"] by auto
  assume "sr_hit r"
  with assms(3) have "oc_lookup c key = Some (the (sr_value r))"
    by (auto simp: read_object_def oc_get_def get_with_swr_def oc_lookup_def swr_miss_def Let_def
        split: option.splits if_splits prod.splits)
  then show "object_of pg cfg spec key (the (sr_value r))" using oc.coherentD [OF coh] by blast
qed

lemma l1_only_delivers:
  assumes w: "stores_ok w" and key: "choose_key cfg args = Inr key"
  shows "delivers args (l1_only_call pg cfg cl is_async key args w)"
proof (cases "w_object_cache w")
  case None
  with run_func_delivers [OF w] show ?thesis by (simp add: l1_only_call_def)
next
  case (Some c)
  obtain r c1 where ro: "read_object cfg cl key c = (r, c1)" by force
  let ?w1 = "w\<lparr>w_object_cache := Some c1\<rparr>"
  have w1: "stores_ok ?w1" by (rule read_object_ok(1) [OF w Some ro])
  show ?thesis
  proof (cases "sr_hit r")
    case True
    have "spec args = Inr (pg_obj pg (the (sr_value r)))"
      using read_object_ok(2) [OF w Some ro True] own_key [OF key] key by (auto simp: object_of_def result_of_def)
    with True Some ro w1 show ?thesis
      by (simp add: l1_only_call_def delivers_def Let_def schedule_l1_refresh_ok)
  next
    case False
    obtain q w2 where f: "run_func pg args (on_stats (record_miss (cl_read cl)) ?w1) = (q, w2)" by force
    have w2: "spec args = q" "stores_ok w2" using run_func_cases [OF _ f] w1 by auto
    have oc2: "w_object_cache w2 = Some c1" using f by (auto simp: run_func_def on_stats_def split: prod.splits)
    let ?ttl = "case wc_ttl cfg of Some t \<Rightarrow> t | None \<Rightarrow> no_expiry_ttl"
    have ok: "ttl_ok (Fin (real_of_int ?ttl))" using ttl by (auto simp: ttl_ok_def no_expiry_ttl_def split: option.split)
    show ?thesis
    proof (cases q)
      case (Inl e)
      with False Some ro f w2 show ?thesis by (simp add: l1_only_call_def delivers_def Let_def)
    next
      case (Inr v)
      have "object_of pg cfg spec key (pg_id pg v)"
        using own_result [OF key, of v] w2(1) Inr by (simp add: object_of_def obj_id)
      then have "stores_ok (w2\<lparr>w_object_cache := Some (oc_step (OPut (cl_put cl) (cl_evict cl) (cl_heap cl) key (pg_id pg v) (Fin (real_of_int ?ttl))) c1)\<rparr>)"
        by (intro object_cache_ok [OF w2(2) oc2]) auto
      with False Some ro f w2 oc2 Inr ok show ?thesis by (simp add: l1_only_call_def delivers_def Let_def oc_put_def)
    qed
  qed
qed

subsection \<open>The backed mode\<close>

lemma on_op_cases: "on_op f w = (r, w1) \<longleftrightarrow> (\<exists>st. f (w_op w) = (r, st) \<and> w1 = w\<lparr>w_op := st\<rparr>)"
  by (auto simp: on_op_def split: prod.splits)

lemma stores_ok_op: "stores_ok w \<Longrightarrow> op_ok st \<Longrightarrow> stores_ok (w\<lparr>w_op := st\<rparr>)"
  by (simp add: stores_ok_def)

lemma op_of: "stores_ok w \<Longrightarrow> op_ok (w_op w)"
  by (simp add: stores_ok_def)

lemma open_backend_ok:
  assumes "stores_ok w" "open_backend cl w = (r, w1)" "cl_provider cl \<in> range Inl \<union> {Inr bk}"
  shows "stores_ok w1 \<and> (\<forall>b. r = Inr b \<longrightarrow> b = bk)"
  using assms by (auto simp: open_backend_def stores_ok_def split: if_splits option.splits sum.splits)

lemma read_l1_ok:
  assumes w: "stores_ok w" and key: "key_of cfg key" and r: "read_l1 pg cfg cl key w = (r, w1)"
  shows "stores_ok w1 \<and> (r = L1Through \<or> (\<exists>v. r = L1Hit v \<and> result_of cfg spec key v))"
proof (cases "w_l1 w")
  case None
  with r w show ?thesis by (auto simp: read_l1_def)
next
  case (Some c)
  have c: "l1_wf c" "l1.coherent (entry_of (pg_env pg) h0 cfg spec) c" using w Some by (auto simp: stores_ok_def)
  obtain g c1 where get: "l1_get (cl_read cl) key c = (g, c1)" by force
  have get': "(case (cl_read cl, None, None) of (now, rt, ea) \<Rightarrow> l1_get now) key c = (g, c1)" using get by simp
  have c1: "l1_wf c1" "l1.coherent (entry_of (pg_env pg) h0 cfg spec) c1"
    using l1.invar_get [OF c(1) get'] l1.coherent_get [OF c get'] by auto
  then have w': "stores_ok (w\<lparr>w_l1 := Some c1\<rparr>)" using w by (simp add: stores_ok_def)
  show ?thesis
  proof (cases "key \<noteq> [] \<and> g \<noteq> None \<and> g \<noteq> Some []")
    case False
    with r Some get w w' show ?thesis by (auto simp: read_l1_def split: if_splits option.splits)
  next
    case True
    then obtain b where b: "g = Some b" "b \<noteq> []" by auto
    have "entry_of (pg_env pg) h0 cfg spec key b"
      using l1.coherentD [OF c(2)] l1.get_sound [OF c(1)] get' b(1) by blast
    from good_read [OF key this] op_of [OF w] obtain v where v: "fst (deserialize_data (pg_env pg) b key (os_ser (w_op w))) = Inr v"
      "result_of cfg spec key v" unfolding op_ok_def by blast
    obtain h where h: "deserialize_data (pg_env pg) b key (os_ser (w_op w)) = (Inr v, h)" using v(1) by (metis fst_conv surj_pair)
    have st: "op_ok ((w_op w)\<lparr>os_ser := h\<rparr>)" using handler_ok_deserialize [OF _ h] op_of [OF w] by (auto simp: op_ok_def)
    have "on_op (on_ser (deserialize_data (pg_env pg) b key)) (w\<lparr>w_l1 := Some c1\<rparr>)
      = (Inr v, w\<lparr>w_l1 := Some c1, w_op := (w_op w)\<lparr>os_ser := h\<rparr>\<rparr>)"
      using h by (simp add: on_op_def on_ser_def)
    with r Some get b True v(2) stores_ok_op [OF w' st] show ?thesis by (auto simp: read_l1_def)
  qed
qed

lemma read_l2_ok:
  assumes w: "stores_ok w" and key: "key_of cfg key" and r: "read_l2 pg cfg bk cl key w = (r, w1)"
  shows "stores_ok w1 \<and> (\<exists>o1. r = Inr o1 \<and> (\<forall>v stale. o1 = Some (v, stale) \<longrightarrow> result_of cfg spec key v))"
proof (cases "wc_stale_ttl cfg = None")
  case False
  with r obtain st where "get_cached_value_with_freshness (pg_env pg) bk (cl_got cl) key (w_op w) = (r, st)" "w1 = w\<lparr>w_op := st\<rparr>"
    by (auto simp: read_l2_def on_op_cases)
  with get_cached_value_with_freshness_good [OF op_of [OF w] key] stores_ok_op [OF w] show ?thesis by blast
next
  case True
  obtain q st where g: "get_cached_value (pg_env pg) bk (cl_got cl) key (w_op w) = (q, st)" by force
  with get_cached_value_good [OF op_of [OF w] key] obtain o1 where o1: "op_ok st" "q = Inr o1" "\<forall>v. o1 = Some v \<longrightarrow> result_of cfg spec key v"
    by blast
  with True r g stores_ok_op [OF w o1(1)] show ?thesis by (auto simp: read_l2_def on_op_def)
qed

lemma schedule_ok: "stores_ok w \<Longrightarrow> stores_ok (l2_swr_schedule pg cl key args w)"
  by (auto simp: l2_swr_schedule_def split: prod.split bool.split)

lemma store_value_ok:
  assumes w: "stores_ok w" and key: "choose_key cfg args = Inr key" and v: "spec args = Inr v"
    and s: "store_value pg cfg bk cl key args v w = (r, w1)"
  shows "stores_ok w1 \<and> r = Inr v"
proof -
  obtain q st where st: "store_result (pg_env pg) bk (cl_nonce cl) key v (wc_ttl cfg) args (wc_stale_ttl cfg) (w_op w) = (q, st)"
    by force
  obtain o1 where res: "op_ok st" "q = Inr o1" "\<And>data. o1 = Some data \<Longrightarrow> entry_of (pg_env pg) h0 cfg spec key data"
    using store_result_good [OF op_of [OF w] own_key [OF key] own_result [OF key v] st] by auto
  have w': "stores_ok (w\<lparr>w_op := st\<rparr>)" by (rule stores_ok_op [OF w res(1)])
  show ?thesis using s st res(2) put_l1_ok [OF w' res(3)] w'
    by (auto simp: store_value_def on_op_def Let_def split: option.splits)
qed

lemma miss_failure_delivers:
  "stores_ok w \<Longrightarrow> spec args = Inl e \<Longrightarrow> delivers args (miss_failure pg cl args e w)"
  using run_func_delivers by (simp add: miss_failure_def) (simp add: delivers_def)

lemma miss_path_delivers:
  assumes w: "stores_ok w" and key: "choose_key cfg args = Inr key"
  shows "delivers args (miss_path pg cfg bk cl key args w)"
proof -
  obtain r w1 where f: "run_func pg args (on_stats (record_miss (cl_got cl)) w) = (r, w1)" by force
  have w1: "spec args = r" "stores_ok w1" using run_func_cases [OF _ f] w by auto
  show ?thesis
  proof (cases r)
    case (Inl e)
    with f w1 miss_failure_delivers show ?thesis by (simp add: miss_path_def)
  next
    case (Inr v)
    obtain q w2 where s: "store_value pg cfg bk cl key args v w1 = (q, w2)" by force
    from store_value_ok [OF w1(2) key _ s] w1(1) Inr f s show ?thesis by (simp add: miss_path_def delivers_def)
  qed
qed

lemma l2_hit_ok:
  assumes "stores_ok w" "l2_hit pg cfg cl key args v stale w = (r, w1)"
  shows "stores_ok w1 \<and> (r = Inr v \<or> pg_text_error pg v \<noteq> None)"
  using assms by (auto simp: l2_hit_def Let_def schedule_ok split: option.splits if_splits)

lemma failed_read_delivers:
  assumes "stores_ok w" "\<not> is_auth_error e"
  shows "delivers args (if is_auth_error e then restore token (Inl e, w)
    else run_func pg args (snd (restore token ((), report_error t e op True d w))))"
  using run_func_delivers [of "snd (restore token ((), report_error t e op True d w))" args] assms by simp

lemma backed_read_delivers:
  assumes w: "stores_ok w" and key: "choose_key cfg args = Inr key"
  shows "delivers args (backed_read pg cfg bk token cl key args w)"
proof -
  obtain r w1 where rl: "read_l2 pg cfg bk cl key w = (r, w1)" by force
  obtain o1 where o1: "stores_ok w1" "r = Inr o1" "\<And>v stale. o1 = Some (v, stale) \<Longrightarrow> result_of cfg spec key v"
    using read_l2_ok [OF w own_key [OF key] rl] by blast
  show ?thesis
  proof (cases o1)
    case None
    with rl o1 miss_path_delivers [OF o1(1) key] show ?thesis by (simp add: backed_read_def Let_def)
  next
    case (Some p)
    obtain v stale where p: "p = (v, stale)" by (cases p)
    with o1(3) Some have v: "spec args = Inr v" using key by (auto simp: result_of_def)
    obtain q w2 where h: "l2_hit pg cfg cl key args v stale w1 = (q, w2)" by force
    from l2_hit_ok [OF o1(1) h] have w2: "stores_ok w2" "q = Inr v \<or> pg_text_error pg v \<noteq> None" by auto
    show ?thesis
    proof (cases q)
      case (Inl e)
      with h have "pg_text_error pg v = Some e" by (auto simp: l2_hit_def Let_def split: option.splits if_splits)
      with text_errors have "\<not> is_auth_error e" by blast
      from failed_read_delivers [OF w2(1) this, of args token] Inl rl o1 Some p h show ?thesis
        by (simp add: backed_read_def Let_def)
    next
      case (Inr u)
      with h have "u = v" by (auto simp: l2_hit_def Let_def split: option.splits if_splits)
      with Inr rl o1 Some p h v w2 show ?thesis by (simp add: backed_read_def Let_def delivers_def)
    qed
  qed
qed

lemma backed_call_delivers:
  assumes w: "stores_ok w" and key: "choose_key cfg args = Inr key"
    and prov: "cl_provider cl \<in> range Inl \<union> {Inr bk}"
  shows "delivers args (backed_call pg cfg token cl key args w)"
proof -
  obtain b w1 where ob: "open_backend cl w = (b, w1)" by force
  have w1: "stores_ok w1" "\<And>x. b = Inr x \<Longrightarrow> x = bk" using open_backend_ok [OF w ob prov] by auto
  show ?thesis
  proof (cases b)
    case (Inl e)
    with ob w1 run_func_delivers show ?thesis by (simp add: backed_call_def)
  next
    case (Inr x)
    obtain r w2 where l1: "read_l1 pg cfg cl key w1 = (r, w2)" by force
    have r: "stores_ok w2" "r = L1Through \<or> (\<exists>v. r = L1Hit v \<and> spec args = Inr v)"
      using read_l1_ok [OF w1(1) own_key [OF key] l1] key by (auto simp: result_of_def)
    with Inr ob w1(2) l1 no_interop backed_read_delivers [OF r(1) key] show ?thesis
      by (auto simp: backed_call_def delivers_def)
  qed
qed

lemma sync_wrapper_delivers:
  assumes w: "stores_ok w"
    and prov: "cl_provider cl \<in> range Inl \<union> {Inr bk}"
  shows "delivers args (sync_wrapper pg cfg cl bypass args w)"
proof (cases "choose_key cfg args")
  case (Inl e)
  with w run_func_delivers no_interop show ?thesis by (simp add: sync_wrapper_def set_current_function_stats_def)
next
  case (Inr key)
  with w run_func_delivers l1_only_delivers [OF _ Inr] backed_call_delivers [OF _ Inr prov] show ?thesis
    by (simp add: sync_wrapper_def set_current_function_stats_def Let_def)
qed

subsection \<open>Invalidation and background work\<close>

lemma drop_local_ok:
  assumes "stores_ok w"
  shows "stores_ok (drop_local key w)"
proof (cases "w_object_cache w")
  case None
  with drop_l1_ok [OF assms] show ?thesis by (simp add: drop_local_def)
next
  case (Some c)
  with object_cache_ok [OF assms Some, of "ODelete key"] show ?thesis by (simp add: drop_local_def)
qed

lemma delete_l2_ok:
  assumes "stores_ok w" "delete_l2 cfg key w = (r, w1)"
  shows "stores_ok w1"
proof (cases "w_backend w = None \<or> wc_l1_only cfg")
  case True
  with assms show ?thesis by (auto simp: delete_l2_def split: option.splits)
next
  case False
  obtain q s where d: "bk_delete bk key (os_backend (w_op w)) = (q, s)" by force
  have "ok s" using delete [OF _ d] op_of [OF assms(1)] by (simp add: op_ok_def)
  then have "stores_ok (w\<lparr>w_op := (w_op w)\<lparr>os_backend := s\<rparr>\<rparr>)"
    using op_of [OF assms(1)] by (intro stores_ok_op [OF assms(1)]) (simp add: op_ok_def)
  with False assms d show ?thesis
    by (auto simp: delete_l2_def stores_ok_def on_op_def on_backend_def split: option.splits sum.splits)
qed

lemma invalidate_all_ok: "stores_ok w \<Longrightarrow> stores_ok (invalidate_all cfg ks w)"
proof (induction ks arbitrary: w)
  case (Cons k ks)
  obtain r w1 where d: "delete_l2 cfg k (drop_local k w) = (r, w1)" by force
  have "stores_ok w1" by (rule delete_l2_ok [OF drop_local_ok [OF Cons.prems] d])
  with Cons.IH d show ?case by (auto split: sum.split)
qed simp

lemma invalidate_cache_ok:
  assumes "stores_ok w" "cl_provider cl \<in> range Inl \<union> {Inr bk}"
  shows "stores_ok (snd (invalidate_cache cfg cl no_args args w))"
proof -
  have w1: "stores_ok (resolve_backend cfg cl w)"
    using assms by (auto simp: resolve_backend_def stores_ok_def split: sum.split)
  have "stores_ok (snd (delete_l2 cfg key w'))" if "stores_ok w'" for key w'
    using delete_l2_ok [OF that] by (metis prod.collapse)
  with w1 invalidate_all_ok drop_local_ok show ?thesis
    by (simp add: invalidate_cache_def Let_def split: sum.split)
qed

lemma cache_clear_ok:
  "stores_ok w \<Longrightarrow> cl_provider cl \<in> range Inl \<union> {Inr bk} \<Longrightarrow> stores_ok (snd (cache_clear cfg cl is_async no_args w))"
  by (simp add: cache_clear_def Let_def invalidate_cache_ok)

lemma run_l1_refresh_ok:
  assumes w: "stores_ok w" and key: "choose_key cfg args = Inr key"
  shows "stores_ok (run_l1_refresh pg cfg cl key version args w)"
proof -
  obtain r w1 where f: "run_func pg args w = (r, w1)" by force
  have w1: "spec args = r" "stores_ok w1" using run_func_cases [OF w f] by auto
  show ?thesis
  proof (cases "\<exists>v c t. r = Inr v \<and> w_object_cache w1 = Some c \<and> wc_ttl cfg = Some t")
    case False
    with f w1 l1_cancel_ok show ?thesis by (auto simp: run_l1_refresh_def Let_def split: sum.splits option.splits)
  next
    case True
    then obtain v c t where v: "r = Inr v" "w_object_cache w1 = Some c" "wc_ttl cfg = Some t" by blast
    have "object_of pg cfg spec key (pg_id pg v)" using own_result [OF key, of v] w1(1) v(1) by (simp add: object_of_def obj_id)
    then have "stores_ok (w1\<lparr>w_object_cache := Some (oc_step (OComplete (cl_put cl) (cl_evict cl) (cl_heap cl) key version (pg_id pg v) (Fin (of_int t))) c)\<rparr>)"
      by (intro object_cache_ok [OF w1(2) v(2)]) auto
    moreover have "ttl_ok (Fin (real_of_int t))" using ttl [OF v(3)] by (simp add: ttl_ok_def)
    ultimately show ?thesis using f v
      by (auto simp: run_l1_refresh_def Let_def complete_refresh_def oc_step_complete split: prod.splits)
  qed
qed

lemma run_l2_revalidate_ok:
  assumes w: "stores_ok w" and key: "choose_key cfg args = Inr key"
  shows "stores_ok (run_l2_revalidate pg cfg bk cl lease key args w)"
proof -
  obtain r w1 where f: "run_func pg args w = (r, w1)" by force
  have w1: "spec args = r" "stores_ok w1" using run_func_cases [OF w f] by auto
  show ?thesis
  proof (cases "lease \<and> (\<exists>v. r = Inr v)")
    case False
    with f w w1 show ?thesis by (auto simp: run_l2_revalidate_def Let_def split: sum.splits)
  next
    case True
    then obtain v where v: "lease" "r = Inr v" by blast
    obtain q st where s: "on_ser (serialize_data (pg_env pg) (cl_nonce cl) args v key) (w_op w1) = (q, st)" by force
    have st: "op_ok st" "\<And>data. q = Inr data \<Longrightarrow> entry_of (pg_env pg) h0 cfg spec key data"
      using serialize_good [OF op_of [OF w1(2)] own_key [OF key] own_result [OF key] s] w1(1) v(2) by auto
    show ?thesis
    proof (cases q)
      case (Inl e)
      with f v s stores_ok_op [OF w1(2) st(1)] show ?thesis by (simp add: run_l2_revalidate_def Let_def on_op_def)
    next
      case (Inr data)
      obtain u st2 where set: "std_set bk key data (wc_ttl cfg) (wc_stale_ttl cfg) st = (u, st2)" by force
      have "op_ok st2" by (rule std_set_good [OF st(1) st(2) [OF Inr] set])
      from put_l1_ok [OF stores_ok_op [OF w1(2) this] st(2) [OF Inr]] f v s set Inr show ?thesis
        by (simp add: run_l2_revalidate_def Let_def on_op_def)
    qed
  qed
qed

end

section \<open>Histories\<close>

text \<open>
  Everything that can happen to the shared state: calls, invalidations and clears with a provider that fails or yields
  \<open>bk\<close>, background refreshes of scheduled jobs, and arbitrary changes by others to the shared caches and the backend that
  respect this function's keys.
\<close>

inductive history ::
  "'s backend \<Rightarrow> (string \<Rightarrow> bytes \<Rightarrow> bool) \<Rightarrow> ('s \<Rightarrow> bool) \<Rightarrow> ('a, 'k, 'r, 'g, 'w) program \<Rightarrow> 'g wrapper_config
   \<Rightarrow> ('g, 'k, 'r, 's, 'w) wrapper \<Rightarrow> ('g, 'k, 'r, 's, 'w) wrapper \<Rightarrow> bool"
  for bk good ok pg cfg w0 where
  start: "history bk good ok pg cfg w0 w0"
| call: "history bk good ok pg cfg w0 w \<Longrightarrow> cl_provider cl \<in> range Inl \<union> {Inr bk}
    \<Longrightarrow> history bk good ok pg cfg w0 (snd (sync_wrapper pg cfg cl bypass args w))"
| invalidate: "history bk good ok pg cfg w0 w \<Longrightarrow> cl_provider cl \<in> range Inl \<union> {Inr bk}
    \<Longrightarrow> history bk good ok pg cfg w0 (snd (invalidate_cache cfg cl no_args oargs w))"
| clear: "history bk good ok pg cfg w0 w \<Longrightarrow> cl_provider cl \<in> range Inl \<union> {Inr bk}
    \<Longrightarrow> history bk good ok pg cfg w0 (snd (cache_clear cfg cl is_async no_args w))"
| l1_job: "history bk good ok pg cfg w0 w \<Longrightarrow> choose_key cfg args = Inr key
    \<Longrightarrow> history bk good ok pg cfg w0 (run_l1_refresh pg cfg cl key version args w)"
| l2_job: "history bk good ok pg cfg w0 w \<Longrightarrow> choose_key cfg args = Inr key
    \<Longrightarrow> history bk good ok pg cfg w0 (run_l2_revalidate pg cfg bk cl lease key args w)"
| others: "history bk good ok pg cfg w0 w \<Longrightarrow> ok s \<Longrightarrow> w_l1 w \<noteq> None \<Longrightarrow> l1_wf c
    \<Longrightarrow> (\<And>k b. l1_lookup c k = Some b \<Longrightarrow> good k b)
    \<Longrightarrow> history bk good ok pg cfg w0 (w\<lparr>w_op := (w_op w)\<lparr>os_backend := s\<rparr>, w_l1 := Some c\<rparr>)"

lemma history_stores:
  assumes "decorated bk ok pg cfg h0 spec" "decorated.stores_ok bk ok pg cfg h0 spec w0"
    and "history bk (entry_of (pg_env pg) h0 cfg spec) ok pg cfg w0 w"
  shows "decorated.stores_ok bk ok pg cfg h0 spec w"
  using assms(3)
proof induction
  case start
  then show ?case by (rule assms(2))
next
  case (call w cl bypass args)
  then show ?case using decorated.sync_wrapper_delivers [OF assms(1)] unfolding decorated.delivers_def [OF assms(1)] by blast
next
  case (invalidate w cl no_args oargs)
  then show ?case using decorated.invalidate_cache_ok [OF assms(1)] by blast
next
  case (clear w cl is_async no_args)
  then show ?case using decorated.cache_clear_ok [OF assms(1)] by blast
next
  case (l1_job w args key cl version)
  then show ?case using decorated.run_l1_refresh_ok [OF assms(1)] by blast
next
  case (l2_job w args key cl lease)
  then show ?case using decorated.run_l2_revalidate_ok [OF assms(1)] by blast
next
  case (others w s c)
  then show ?case
    unfolding decorated.stores_ok_def [OF assms(1)] decoding_backend.op_ok_def [OF decorated.axioms(1) [OF assms(1)]]
    by (auto simp: l1.coherent_def)
qed

section \<open>Transparency\<close>

lemma decoratedI:
  assumes "sound_backend bk (entry_of (pg_env pg) h0 cfg spec) ok" "codec_laws (pg_env pg) h0"
    and "\<And>a x. fst (pg_func pg a x) = spec a"
    and "\<And>a b key. choose_key cfg a = Inr key \<Longrightarrow> choose_key cfg b = Inr key \<Longrightarrow> spec a = spec b"
    and "ks_interop (wc_keys cfg) = None" "\<And>v. pg_obj pg (pg_id pg v) = v"
    and "\<And>t. wc_ttl cfg = Some t \<Longrightarrow> 1 \<le> t" "\<And>v e. pg_text_error pg v = Some e \<Longrightarrow> \<not> is_auth_error e"
  shows "decorated bk ok pg cfg h0 spec"
proof (intro decorated.intro decoding_backend.intro decoding_backend_axioms.intro decorated_axioms.intro)
  show "entry_of (pg_env pg) h0 cfg spec key b \<longleftrightarrow> (\<exists>v. result_of cfg spec key v \<and> decodes (pg_env pg) h0 key b v)"
    if "key_of cfg key" for key b
    using that by (simp add: entry_of_def)
qed (fact assms)+

text \<open>The state right after decoration: empty caches, no encryption wrapper built.\<close>

definition fresh_wrapper ::
  "'s backend \<Rightarrow> ('s \<Rightarrow> bool) \<Rightarrow> ('g, 'k, 'r) ser_handler \<Rightarrow> ('g, 'k, 'r, 's, 'w) wrapper \<Rightarrow> bool" where
  "fresh_wrapper bk ok h0 w \<longleftrightarrow> os_ser (w_op w) = h0 \<and> sh_wrappers h0 = [] \<and> ok (os_backend (w_op w))
     \<and> w_backend w \<in> {None, Some bk}
     \<and> (\<forall>c. w_l1 w = Some c \<longrightarrow> (\<exists>mb buf ns. c = make_l1 mb buf ns))
     \<and> (\<forall>c. w_object_cache w = Some c \<longrightarrow> (\<exists>me ms ratio. make_object_cache me ms ratio = Inr c))"

lemma fresh_stores:
  assumes dec: "decorated bk ok pg cfg h0 spec" and fresh: "fresh_wrapper bk ok h0 w"
  shows "decorated.stores_ok bk ok pg cfg h0 spec w"
proof -
  have l1: "l1_wf (make_l1 mb buf ns)" "l1_lookup (make_l1 mb buf ns) k = None" for mb buf ns k
    by (simp_all add: make_l1_def l1_wf_def l1_lookup_def)
  have oc: "oc_lookup c k = None" if "make_object_cache me ms ratio = Inr c" for me ms ratio c k
    using that by (auto simp: make_object_cache_def oc_lookup_def split: if_splits pyfloat.splits)
  have h: "handler_ok (pg_env pg) h0 h0" using fresh by (simp add: handler_ok_def wrappers_ok_def fresh_wrapper_def)
  show ?thesis
    unfolding decorated.stores_ok_def [OF dec] decoding_backend.op_ok_def [OF decorated.axioms(1) [OF dec]]
      l1.coherent_def oc.coherent_def
    using fresh h l1 oc make_object_cache_inv unfolding fresh_wrapper_def by (metis option.distinct(1))
qed


section \<open>A concrete decorated function\<close>

definition nat_metadata :: ser_metadata where
  "nat_metadata = base_metadata MSGPACK (HStr ''utf-8'') (HBool False) HNone"

text \<open>Numbers in unary; the function returns the successor and fails at zero, and counts its executions.\<close>

definition nat_env :: "(nat, bytes, bytes list) ser_env" where
  "nat_env = \<lparr>en_base = \<lparr>sr_serialize = (\<lambda>n. Inr (replicate n 0, nat_metadata)), sr_deserialize = (\<lambda>b m. Inr (length b))\<rparr>,
     en_crypto = demo_crypto, en_dumps = (\<lambda>_. []), en_loads = (\<lambda>_. Inr (to_dict nat_metadata, HStr ''default'')),
     en_legacy = (\<lambda>_. Inl (PyExn ''ValueError'' ''legacy'')), en_stream = None, en_stream_metadata = nat_metadata,
     en_keys = demo_settings, en_max_value_size = 1000000\<rparr>"

definition plain_handler :: "(nat, bytes, bytes list) ser_handler" where
  "plain_handler = \<lparr>sh_string_name = ''default'', sh_return_pandas = False, sh_encryption = False, sh_extractor = None,
     sh_deployment_uuid = None, sh_master_key = None, sh_fail_closed = False, sh_interop = False,
     sh_wrappers = [], sh_drift_warned = [], sh_counters = []\<rparr>"

definition succ_spec :: "nat \<Rightarrow> pyexn + nat" where
  "succ_spec n = (if n = 0 then Inl (PyExn ''ZeroDivisionError'' ''zero'') else Inr (n + 1))"

definition succ_program :: "(nat, bytes, bytes list, nat, nat) program" where
  "succ_program = \<lparr>pg_env = nat_env, pg_func = (\<lambda>n x. (succ_spec n, x + 1)), pg_id = id, pg_obj = id,
     pg_text_error = (\<lambda>_. None), pg_copyable = (\<lambda>_. True)\<rparr>"

definition succ_config :: "bool \<Rightarrow> nat wrapper_config" where
  "succ_config l1_only = \<lparr>wc_namespace = None, wc_ttl = Some 60, wc_stale_ttl = None, wc_l1_only = l1_only, wc_l1_swr = l1_only,
     wc_refresh_ttl_on_get = False, wc_ttl_refresh_threshold = 1 / 2, wc_has_params = True,
     wc_keys = \<lparr>ks_interop = None, ks_custom = None, ks_fast = False, ks_repr = (\<lambda>n. Inr []), ks_blake3_hex = (\<lambda>b. []),
       ks_func_hash = [], ks_standard = (\<lambda>n. Inr (''f:'' @ replicate n CHR ''x''))\<rparr>\<rparr>"

definition quiet_call :: "real \<Rightarrow> 's backend \<Rightarrow> 's call_env" where
  "quiet_call t bk = \<lparr>cl_read = t, cl_start = t, cl_got = t, cl_put = t, cl_evict = t, cl_end = t, cl_jitter = 1, cl_pid = 1,
     cl_nonce = [], cl_heap = [], cl_thread_starts = True, cl_provider = Inr bk, cl_interop_error = None\<rparr>"

definition succ_wrapper :: "(string \<times> bytes) list \<Rightarrow> (nat, bytes, bytes list, (string \<times> bytes) list, nat) wrapper" where
  "succ_wrapper s = \<lparr>w_op = \<lparr>os_ser = plain_handler, os_backend = s, os_features = demo_features\<rparr>, w_backend = None,
     w_l1 = Some (make_l1 1000000 1 ''default''), w_object_cache = None, w_stats = new_stats ''m.f'' True, w_context = None,
     w_cached_keys = [], w_l2_swr = fresh_pool 32 1, w_l1_swr = fresh_pool 32 1, w_jobs = [], w_world = 0\<rparr>"

lemma nat_serialize:
  "serialize_payload nat_env n a v key h = (if sh_encryption h then serialize_payload nat_env n a v key h else (Inr (replicate v 0, nat_metadata), h))"
  by (simp add: serialize_payload_def nat_env_def)

lemma nat_env_laws: "codec_laws nat_env plain_handler"
proof -
  have enc: "\<not> sh_encryption h" "\<not> sh_interop h" if "same_config plain_handler h" for h
    using that by (simp_all add: same_config_def plain_handler_def)
  have "\<not> is_interop_error e" if "same_config plain_handler h" "serialize_data nat_env n a v key h = (Inl e, h')" for n a v key h e h'
    using that(2) enc [OF that(1)]
    by (subst (asm) serialize_data_def, subst (asm) nat_serialize)
       (auto simp: wrap_def wrap_prefix_def Let_def serialize_exn_def exn_class_defs split: if_splits sum.splits)
  moreover have "en_loads nat_env (en_dumps nat_env (entry_header plain_handler m)) = Inr (to_dict m, HStr (sh_string_name plain_handler))"
    if "same_config plain_handler h" "serialize_payload nat_env n a v key h = (Inr (p, m), h')" for n a v key h p m h'
    using that(2) enc [OF that(1)] by (simp add: serialize_payload_def nat_env_def plain_handler_def)
  moreover have "plain_serializer (en_base nat_env)" "serializer_inverts (en_base nat_env)" "cipher_inverts (en_crypto nat_env)"
    by (simp_all add: plain_serializer_def serializer_inverts_def nat_env_def nat_metadata_def base_metadata_def demo_laws(1))
  moreover have "\<not> sh_interop plain_handler" "\<not> supports_streaming plain_handler" "write_tenant a plain_handler \<noteq> Inr []" for a
    by (simp_all add: plain_handler_def supports_streaming_def write_tenant_def)
  ultimately show ?thesis unfolding codec_laws_def by blast
qed

lemma succ_key [simp]: "choose_key (succ_config b) n = Inr (''f:'' @ replicate n CHR ''x'')"
  by (simp add: choose_key_def succ_config_def)

interpretation succ: decorated "redis_backend (Inr map_client)"
  "entries_good (entry_of (pg_env succ_program) plain_handler (succ_config l) succ_spec)" succ_program "succ_config l" plain_handler succ_spec
  for l
proof (rule decoratedI)
  show "sound_backend (redis_backend (Inr map_client)) (entry_of (pg_env succ_program) plain_handler (succ_config l) succ_spec)
      (entries_good (entry_of (pg_env succ_program) plain_handler (succ_config l) succ_spec))"
    by (rule map_server.rb.sound_backend_axioms)
  show "codec_laws (pg_env succ_program) plain_handler" using nat_env_laws by (simp add: succ_program_def)
  fix a c key
  assume "choose_key (succ_config l) a = Inr key" "choose_key (succ_config l) c = Inr key"
  then have "length (replicate a CHR ''x'') = length (replicate c CHR ''x'')" by (metis Inr_inject append_same_eq same_append_eq succ_key)
  then show "succ_spec a = succ_spec c" by simp
qed (auto simp: succ_program_def succ_config_def)


end
