(* ===== verification/Async_Refinement.thy ===== *)
theory Async_Refinement
  imports Async_Wrapper Wrapper_Refinement
begin

text \<open>
  The asynchronous decorated function refines the plain one as well, over a lock that fulfils a contract and as long as the circuit
  is closed.
\<close>

section \<open>The contract of a lock\<close>

text \<open>
  Lock operations keep the backend in order. A failure of their own is one the wrapper degrades on, and leaving the block with an
  exception of the function hands that exception on.
\<close>

locale lawful_lock =
  fixes lk :: "'s lock" and ok :: "'s \<Rightarrow> bool"
  assumes enter: "ok s \<Longrightarrow> lk_enter lk k s = (r, s') \<Longrightarrow> ok s' \<and> (\<forall>e. r = Inl e \<longrightarrow> lock_verdict e = RunUnlocked)"
    and exit_keeps: "ok s \<Longrightarrow> lk_exit lk k got p s = (x, s') \<Longrightarrow> ok s'"
    and exit_done: "ok s \<Longrightarrow> lk_exit lk k got None s = (Some y, s') \<Longrightarrow> lock_verdict y = RunUnlocked"
    and exit_raise: "ok s \<Longrightarrow> lk_exit lk k got (Some e) s = (x, s') \<Longrightarrow> \<not> is_backend_error e
      \<Longrightarrow> \<exists>y. x = Some y \<and> lock_verdict y = Raise e"

lemma lock_verdict_wrapped:
  "original_exception b = Some e \<Longrightarrow> \<not> is_backend_error e \<Longrightarrow> lock_verdict (BackendExn b) = Raise e"
  by (cases e) (simp_all add: lock_verdict_def exn_class_defs)

text \<open>
  The Redis lock has it when \<^verbatim>\<open>acquire\<close> itself does not raise; an exception of \<^verbatim>\<open>acquire\<close> is handed to the caller instead.
\<close>

lemma redis_lock_lawful:
  assumes "\<And>k s r s'. ok s \<Longrightarrow> acquire (lock_name b k) s = (r, s') \<Longrightarrow> ok s' \<and> (\<exists>got. r = Inr got)"
    and "\<And>n s r s'. ok s \<Longrightarrow> release n s = (r, s') \<Longrightarrow> ok s'"
  shows "lawful_lock (redis_lock (classify_redis_error i h isa) b acquire release) ok"
proof
  fix s k r s' assume "ok s" "lk_enter (redis_lock (classify_redis_error i h isa) b acquire release) k s = (r, s')"
  with assms(1) [of s k] show "ok s' \<and> (\<forall>e. r = Inl e \<longrightarrow> lock_verdict e = RunUnlocked)"
    by (auto simp: redis_lock_def split: prod.splits sum.splits)
next
  fix s k got p x s' assume "ok s" "lk_exit (redis_lock (classify_redis_error i h isa) b acquire release) k got p s = (x, s')"
  with assms(2) [of s "lock_name b k"] show "ok s'" by (auto simp: redis_lock_def split: if_splits) (metis prod.collapse)
qed (auto simp: redis_lock_def redis_err.keeps_exception lock_verdict_wrapped split: if_splits)

section \<open>Every branch delivers\<close>

locale decorated_lock = decorated bk ok pg cfg h0 spec + lawful_lock lk ok
  for bk :: "'s backend" and ok :: "'s \<Rightarrow> bool" and pg :: "('a, 'k, 'r, 'g, 'w) program" and cfg :: "'g wrapper_config"
    and h0 :: "('g, 'k, 'r) ser_handler" and spec :: "'g \<Rightarrow> pyexn + 'a" and lk :: "'s lock" +
  assumes no_backend_errors: "spec a = Inl e \<Longrightarrow> \<not> is_backend_error e"
begin

lemma on_backend_ok:
  assumes "stores_ok w" "\<And>s'. f (os_backend (w_op w)) = (r, s') \<Longrightarrow> ok s'" "on_op (on_backend f) w = (r, w1)"
  shows "stores_ok w1"
proof -
  obtain q s' where f: "f (os_backend (w_op w)) = (q, s')" by force
  with assms have "ok s'" by (auto simp: on_op_def on_backend_def)
  then have "stores_ok (w\<lparr>w_op := (w_op w)\<lparr>os_backend := s'\<rparr>\<rparr>)"
    using op_of [OF assms(1)] by (intro stores_ok_op [OF assms(1)]) (simp add: op_ok_def)
  with f assms(3) show ?thesis by (simp add: on_op_def on_backend_def)
qed

lemma fill_l1_ok: "stores_ok w \<Longrightarrow> entry_of (pg_env pg) h0 cfg spec key b \<Longrightarrow> stores_ok (fill_l1 cfg cl key b w)"
  by (simp add: fill_l1_def put_l1_ok)

lemma refresh_on_hit_ok:
  assumes "stores_ok w"
  shows "stores_ok (refresh_on_hit cfg bk key w)"
proof (cases "bk_get_ttl bk")
  case None
  with assms show ?thesis by (simp add: refresh_on_hit_def split: bool.split option.split)
next
  case (Some g)
  obtain q w1 where g: "on_op (on_backend (g key)) w = (q, w1)" by force
  have "stores_ok w1" by (rule on_backend_ok [OF assms get_ttl [OF Some] g]) (use op_of [OF assms] in \<open>auto simp: op_ok_def\<close>)
  with assms Some g show ?thesis
    by (simp add: refresh_on_hit_def split: bool.split option.split sum.split)
qed

lemma async_read_l2_ok:
  assumes w: "stores_ok w" and key: "key_of cfg key" and r: "async_read_l2 pg cfg bk cl key w = (r, w1)"
  shows "stores_ok w1 \<and> (\<exists>o1. r = Inr o1 \<and>
    (\<forall>v b stale. o1 = Some (v, b, stale) \<longrightarrow> result_of cfg spec key v \<and> entry_of (pg_env pg) h0 cfg spec key b))"
proof (cases "wc_stale_ttl cfg = None")
  case True
  obtain q st where g: "get_cached_value_async (pg_env pg) bk (wc_ttl_refresh_threshold cfg) (cl_got cl) key None (w_op w) = (q, st)" by force
  with get_cached_value_async_good [OF op_of [OF w] key g] stores_ok_op [OF w, of st] True r show ?thesis
    by (auto simp: async_read_l2_def on_op_def)
next
  case False
  obtain v st1 where re: "std_get_with_freshness bk key (w_op w) = (v, st1)" by force
  have st1: "op_ok st1" "\<And>b stale. v = Some (b, stale) \<Longrightarrow> entry_of (pg_env pg) h0 cfg spec key b"
    using std_get_with_freshness_keeps [of "w_op w" key, OF _ re] std_get_with_freshness_ser [OF re] op_of [OF w] by (auto simp: op_ok_def)
  show ?thesis
  proof (cases v)
    case None
    with r False re stores_ok_op [OF w st1(1)] show ?thesis
      by (auto simp: async_read_l2_def get_cached_value_with_freshness_async_def on_op_def)
  next
    case (Some p)
    obtain b stale where p: "p = (b, stale)" by (cases p)
    obtain q st2 where out: "read_outcome bk (cl_got cl) key (on_ser (deserialize_data (pg_env pg) b key) st1) = (q, st2)" by force
    from read_good [OF key st1(1) st1(2) out] Some p have st2: "op_ok st2" "\<exists>v. q = Inr (Some v) \<and> result_of cfg spec key v" by auto
    with r False re Some p out st1(2) stores_ok_op [OF w st2(1)] show ?thesis
      by (auto simp: async_read_l2_def get_cached_value_with_freshness_async_def on_op_def)
  qed
qed

lemma async_l2_hit_ok:
  "stores_ok w \<Longrightarrow> entry_of (pg_env pg) h0 cfg spec key b \<Longrightarrow> stores_ok (async_l2_hit pg cfg bk cl key args b stale w)"
  by (simp add: async_l2_hit_def Let_def fill_l1_ok refresh_on_hit_ok schedule_ok)

lemma execute_and_store_delivers:
  assumes w: "stores_ok w" and key: "choose_key cfg args = Inr key"
  shows "delivers args (execute_and_store pg cfg bk cl key args w)"
proof -
  obtain r w1 where f: "run_func pg args w = (r, w1)" by force
  have w1: "spec args = r" "stores_ok w1" using run_func_cases [OF w f] by auto
  show ?thesis
  proof (cases r)
    case (Inl e)
    with f w1 show ?thesis by (simp add: execute_and_store_def delivers_def)
  next
    case (Inr v)
    obtain q st where s: "on_ser (serialize_data (pg_env pg) (cl_nonce cl) args v key) (w_op w1) = (q, st)" by force
    have st: "op_ok st" "\<And>data. q = Inr data \<Longrightarrow> entry_of (pg_env pg) h0 cfg spec key data"
      using serialize_good [OF op_of [OF w1(2)] own_key [OF key] own_result [OF key] s] w1(1) Inr by auto
    show ?thesis
    proof (cases q)
      case (Inl e)
      obtain h' where "serialize_data (pg_env pg) (cl_nonce cl) args v key (os_ser (w_op w1)) = (Inl e, h')"
        using s Inl by (auto simp: on_ser_def split: prod.splits)
      then have "\<not> is_interop_error e" using laws op_of [OF w1(2)] unfolding codec_laws_def op_ok_def handler_ok_def by blast
      with f Inr s Inl w1 stores_ok_op [OF w1(2) st(1)] show ?thesis
        by (simp add: execute_and_store_def async_store_def on_op_def delivers_def)
    next
      case q: (Inr data)
      obtain u st2 where set: "std_set bk key data (wc_ttl cfg) (wc_stale_ttl cfg) st = (u, st2)" by force
      have "op_ok st2" by (rule std_set_good [OF st(1) st(2) [OF q] set])
      from put_l1_ok [OF stores_ok_op [OF w1(2) this] st(2) [OF q]] f Inr s q set w1 show ?thesis
        by (simp add: execute_and_store_def async_store_def on_op_def Let_def delivers_def)
    qed
  qed
qed

lemma locked_body_delivers:
  assumes w: "stores_ok w" and key: "choose_key cfg args = Inr key"
  shows "delivers args (locked_body pg cfg bk cl key args w)"
proof -
  obtain q st where g: "get_cached_value_async (pg_env pg) bk (wc_ttl_refresh_threshold cfg) (cl_got cl) key None (w_op w) = (q, st)" by force
  obtain o1 where o1: "op_ok st" "q = Inr o1"
    "\<And>v b. o1 = Some (v, b) \<Longrightarrow> result_of cfg spec key v \<and> entry_of (pg_env pg) h0 cfg spec key b"
    using get_cached_value_async_good [OF op_of [OF w] own_key [OF key] g] by blast
  have w1: "stores_ok (w\<lparr>w_op := st\<rparr>)" by (rule stores_ok_op [OF w o1(1)])
  show ?thesis
  proof (cases o1)
    case None
    with g o1(2) execute_and_store_delivers [OF w1 key] show ?thesis by (simp add: locked_body_def recheck_def on_op_def)
  next
    case (Some p)
    obtain v b where p: "p = (v, b)" by (cases p)
    have "spec args = Inr v" "entry_of (pg_env pg) h0 cfg spec key b" using o1(3) Some p key by (auto simp: result_of_def)
    with g o1(2) Some p fill_l1_ok [OF w1] show ?thesis by (simp add: locked_body_def recheck_def on_op_def delivers_def)
  qed
qed

lemma unlocked_call_delivers:
  "stores_ok w \<Longrightarrow> choose_key cfg args = Inr key \<Longrightarrow> delivers args (unlocked_call pg cfg bk cl key args w)"
  using execute_and_store_delivers [of w args key cl]
  by (auto simp: unlocked_call_def delivers_def split: prod.splits sum.splits)

lemma locked_call_ok:
  assumes w: "stores_ok w" and key: "choose_key cfg args = Inr key" and r: "locked_call pg cfg bk lk cl key args w = (r, w')"
  shows "stores_ok w' \<and> (r = None \<or> r = Some (spec args))"
proof -
  obtain g w1 where en: "on_op (on_backend (lk_enter lk key)) w = (g, w1)" by force
  obtain s1 where s1: "lk_enter lk key (os_backend (w_op w)) = (g, s1)" using en by (auto simp: on_op_def on_backend_def split: prod.splits)
  have okw: "ok (os_backend (w_op v))" if "stores_ok v" for v using op_of [OF that] by (simp add: op_ok_def)
  have w1: "stores_ok w1" by (rule on_backend_ok [OF w _ en]) (use enter [OF okw [OF w]] in blast)
  show ?thesis
  proof (cases g)
    case (Inl e)
    with enter [OF okw [OF w] s1] r en w1 show ?thesis by (auto simp: locked_call_def lock_failed_def)
  next
    case (Inr got)
    obtain q w2 where b: "locked_body pg cfg bk cl key args w1 = (q, w2)" by force
    have w2: "stores_ok w2" "q = spec args" using locked_body_delivers [OF w1 key, of cl] b by (simp_all add: delivers_def)
    let ?p = "case q of Inl e \<Rightarrow> Some e | Inr _ \<Rightarrow> None"
    obtain x w3 where ex: "on_op (on_backend (lk_exit lk key got ?p)) w2 = (x, w3)" by force
    obtain s3 where s3: "lk_exit lk key got ?p (os_backend (w_op w2)) = (x, s3)" using ex by (auto simp: on_op_def on_backend_def split: prod.splits)
    have w3: "stores_ok w3" by (rule on_backend_ok [OF w2(1) _ ex]) (use exit_keeps [OF okw [OF w2(1)]] in blast)
    show ?thesis
    proof (cases q)
      case (Inl e)
      have "\<exists>y. x = Some y \<and> lock_verdict y = Raise e"
        by (rule exit_raise [OF okw [OF w2(1)]]) (use s3 Inl no_backend_errors w2(2) in auto)
      with r en Inr b Inl ex w2 w3 show ?thesis by (auto simp: locked_call_def lock_failed_def)
    next
      case q: (Inr v)
      show ?thesis
      proof (cases x)
        case None
        with r en Inr b q ex w2 w3 show ?thesis by (auto simp: locked_call_def)
      next
        case (Some y)
        have "lock_verdict y = RunUnlocked" by (rule exit_done [OF okw [OF w2(1)]]) (use s3 q Some in auto)
        with r en Inr b q Some ex w3 show ?thesis by (auto simp: locked_call_def lock_failed_def)
      qed
    qed
  qed
qed

lemma async_miss_delivers:
  assumes "stores_ok w" "choose_key cfg args = Inr key" "lko \<in> {None, Some lk}"
  shows "delivers args (async_miss pg cfg bk lko cl key args w)"
proof -
  obtain r w1 where l: "locked_call pg cfg bk lk cl key args w = (r, w1)" by force
  with locked_call_ok [OF assms(1,2) l] unlocked_call_delivers [OF _ assms(2), of w] unlocked_call_delivers [OF _ assms(2), of w1] assms
  show ?thesis by (auto simp: async_miss_def delivers_def)
qed

lemma async_backed_read_delivers:
  assumes w: "stores_ok w" and key: "choose_key cfg args = Inr key" and lko: "lko \<in> {None, Some lk}"
  shows "delivers args (async_backed_read pg cfg bk lko cl key args w)"
proof -
  obtain r w1 where rl: "async_read_l2 pg cfg bk cl key w = (r, w1)" by force
  obtain o1 where o1: "stores_ok w1" "r = Inr o1"
    "\<And>v b stale. o1 = Some (v, b, stale) \<Longrightarrow> result_of cfg spec key v \<and> entry_of (pg_env pg) h0 cfg spec key b"
    using async_read_l2_ok [OF w own_key [OF key] rl] by blast
  show ?thesis
  proof (cases o1)
    case None
    with rl o1 async_miss_delivers [OF o1(1) key lko] show ?thesis by (simp add: async_backed_read_def)
  next
    case (Some p)
    obtain v b stale where p: "p = (v, b, stale)" by (cases p)
    with o1(3) Some key have "spec args = Inr v" "entry_of (pg_env pg) h0 cfg spec key b" by (auto simp: result_of_def)
    with rl o1(1,2) Some p async_l2_hit_ok show ?thesis by (simp add: async_backed_read_def delivers_def)
  qed
qed

lemma lazy_backend_ok:
  assumes "stores_ok w" "lazy_backend cl w = (r, w1)" "cl_provider cl \<in> range Inl \<union> {Inr bk}"
  shows "stores_ok w1 \<and> (\<forall>b. r = Inr b \<longrightarrow> b = bk)"
  using assms by (auto simp: lazy_backend_def stores_ok_def split: option.splits sum.splits)

lemma async_tiers_delivers:
  assumes w: "stores_ok w" and key: "choose_key cfg args = Inr key" and lko: "lko \<in> {None, Some lk}"
    and prov: "cl_provider cl \<in> range Inl \<union> {Inr bk}"
  shows "delivers args (async_tiers pg cfg lko cl key args w)"
proof -
  obtain r w1 where l1: "read_l1 pg cfg cl key w = (r, w1)" by force
  have w1: "stores_ok w1" "r = L1Through \<or> (\<exists>v. r = L1Hit v \<and> spec args = Inr v)"
    using read_l1_ok [OF w own_key [OF key] l1] key by (auto simp: result_of_def)
  obtain b w2 where lb: "lazy_backend cl w1 = (b, w2)" by force
  have w2: "stores_ok w2" "\<And>x. b = Inr x \<Longrightarrow> x = bk" using lazy_backend_ok [OF w1(1) lb prov] by auto
  have fallback: "delivers args (no_client pg cl args e w2)" for e
    using run_func_delivers w2(1) by (simp add: no_client_def)
  from w1 show ?thesis
  proof (elim disjE exE)
    assume "r = L1Through"
    then show ?thesis
      using l1 lb w2 fallback async_backed_read_delivers [OF w2(1) key lko] by (cases b) (auto simp: async_tiers_def)
  next
    fix v assume "r = L1Hit v \<and> spec args = Inr v"
    with l1 w1(1) show ?thesis by (simp add: async_tiers_def delivers_def)
  qed
qed

lemma async_wrapper_delivers:
  assumes w: "stores_ok w" and lko: "lko \<in> {None, Some lk}" and prov: "cl_provider cl \<in> range Inl \<union> {Inr bk}"
    and allowed: "should_allow_request (os_features (w_op w))"
  shows "delivers args (async_wrapper pg cfg lko cl bypass args w)"
proof (cases "choose_key cfg args")
  case (Inl e)
  with w run_func_delivers no_interop show ?thesis by (simp add: async_wrapper_def set_current_function_stats_def Let_def)
next
  case (Inr key)
  let ?w = "set_context (Some (fs_function_identifier (w_stats w))) w"
  have "should_allow_request (os_features (w_op ?w))" using allowed by (simp add: set_context_def)
  with w run_func_delivers l1_only_delivers [OF _ Inr, of ?w] async_tiers_delivers [OF _ Inr lko prov, of ?w] no_interop Inr show ?thesis
    by (simp add: async_wrapper_def set_current_function_stats_def Let_def async_backed_call_def)
qed

lemma run_ttl_refresh_ok:
  assumes "stores_ok w"
  shows "stores_ok (run_ttl_refresh bk key t w)"
proof (cases "bk_refresh_ttl bk")
  case (Some f)
  obtain q w1 where f: "on_op (on_backend (f key t)) w = (q, w1)" by force
  have "stores_ok w1"
    by (rule on_backend_ok [OF assms refresh_ttl [OF Some] f]) (use op_of [OF assms] in \<open>auto simp: op_ok_def\<close>)
  with Some f show ?thesis by (simp add: run_ttl_refresh_def)
qed (use assms in \<open>simp add: run_ttl_refresh_def\<close>)

lemma async_wrapper_stores:
  assumes "stores_ok w" "lko \<in> {None, Some lk}" "cl_provider cl \<in> range Inl \<union> {Inr bk}"
  shows "stores_ok (snd (async_wrapper pg cfg lko cl bypass args w))"
proof (cases "should_allow_request (os_features (w_op w))")
  case True
  from async_wrapper_delivers [OF assms True] show ?thesis by (simp add: delivers_def)
next
  case False
  let ?w = "set_context (Some (fs_function_identifier (w_stats w))) w"
  have closed: "\<not> should_allow_request (os_features (w_op ?w))" using False by (simp add: set_context_def)
  have run: "stores_ok (snd (run_func pg args v))" if "stores_ok v" for v using run_func_delivers [OF that] by (simp add: delivers_def)
  have "stores_ok (snd (l1_only_call pg cfg cl True key args ?w))" if "choose_key cfg args = Inr key" for key
    using l1_only_delivers [OF _ that, of ?w] assms(1) by (simp add: delivers_def)
  with closed assms(1) run show ?thesis
    by (simp add: async_wrapper_def set_current_function_stats_def Let_def async_backed_call_def split: sum.split)
qed

end

section \<open>Histories\<close>

text \<open>As for the synchronous wrapper, with the lock of the backend if it has one, and the TTL refreshes as further background jobs.\<close>

inductive async_history ::
  "'s backend \<Rightarrow> (string \<Rightarrow> bytes \<Rightarrow> bool) \<Rightarrow> ('s \<Rightarrow> bool) \<Rightarrow> 's lock option \<Rightarrow> ('a, 'k, 'r, 'g, 'w) program \<Rightarrow> 'g wrapper_config
   \<Rightarrow> ('g, 'k, 'r, 's, 'w) wrapper \<Rightarrow> ('g, 'k, 'r, 's, 'w) wrapper \<Rightarrow> bool"
  for bk good ok lko pg cfg w0 where
  astart: "async_history bk good ok lko pg cfg w0 w0"
| acall: "async_history bk good ok lko pg cfg w0 w \<Longrightarrow> cl_provider cl \<in> range Inl \<union> {Inr bk}
    \<Longrightarrow> async_history bk good ok lko pg cfg w0 (snd (async_wrapper pg cfg lko cl bypass args w))"
| ainvalidate: "async_history bk good ok lko pg cfg w0 w \<Longrightarrow> cl_provider cl \<in> range Inl \<union> {Inr bk}
    \<Longrightarrow> async_history bk good ok lko pg cfg w0 (snd (ainvalidate_cache cfg cl no_args oargs w))"
| aclear: "async_history bk good ok lko pg cfg w0 w \<Longrightarrow> cl_provider cl \<in> range Inl \<union> {Inr bk}
    \<Longrightarrow> async_history bk good ok lko pg cfg w0 (snd (cache_clear cfg cl True no_args w))"
| al1_job: "async_history bk good ok lko pg cfg w0 w \<Longrightarrow> choose_key cfg args = Inr key
    \<Longrightarrow> async_history bk good ok lko pg cfg w0 (run_l1_refresh pg cfg cl key version args w)"
| al2_job: "async_history bk good ok lko pg cfg w0 w \<Longrightarrow> choose_key cfg args = Inr key
    \<Longrightarrow> async_history bk good ok lko pg cfg w0 (run_l2_revalidate pg cfg bk cl lease key args w)"
| attl_job: "async_history bk good ok lko pg cfg w0 w \<Longrightarrow> async_history bk good ok lko pg cfg w0 (run_ttl_refresh bk key t w)"
| aothers: "async_history bk good ok lko pg cfg w0 w \<Longrightarrow> ok s \<Longrightarrow> w_l1 w \<noteq> None \<Longrightarrow> l1_wf c
    \<Longrightarrow> (\<And>k b. l1_lookup c k = Some b \<Longrightarrow> good k b)
    \<Longrightarrow> async_history bk good ok lko pg cfg w0 (w\<lparr>w_op := (w_op w)\<lparr>os_backend := s\<rparr>, w_l1 := Some c\<rparr>)"

lemma async_history_stores:
  assumes dl: "decorated_lock bk ok pg cfg h0 spec lk" and w0: "decorated.stores_ok bk ok pg cfg h0 spec w0"
    and lko: "lko \<in> {None, Some lk}" and h: "async_history bk (entry_of (pg_env pg) h0 cfg spec) ok lko pg cfg w0 w"
  shows "decorated.stores_ok bk ok pg cfg h0 spec w"
  using h
proof induction
  case astart
  then show ?case by (rule w0)
next
  case (acall w cl bypass args)
  then show ?case using decorated_lock.async_wrapper_stores [OF dl _ lko] by blast
next
  case (ainvalidate w cl no_args oargs)
  then show ?case using decorated.invalidate_cache_ok [OF decorated_lock.axioms(1) [OF dl]] unfolding ainvalidate_cache_def by blast
next
  case (aclear w cl no_args)
  then show ?case using decorated.cache_clear_ok [OF decorated_lock.axioms(1) [OF dl]] by blast
next
  case (al1_job w args key cl version)
  then show ?case using decorated.run_l1_refresh_ok [OF decorated_lock.axioms(1) [OF dl]] by blast
next
  case (al2_job w args key cl lease)
  then show ?case using decorated.run_l2_revalidate_ok [OF decorated_lock.axioms(1) [OF dl]] by blast
next
  case (attl_job w key t)
  then show ?case using decorated_lock.run_ttl_refresh_ok [OF dl] by blast
next
  case (aothers w s c)
  then show ?case
    unfolding decorated.stores_ok_def [OF decorated_lock.axioms(1) [OF dl]]
      decoding_backend.op_ok_def [OF decorated.axioms(1) [OF decorated_lock.axioms(1) [OF dl]]]
    by (auto simp: l1.coherent_def)
qed

section \<open>Transparency\<close>


text \<open>
  A lock in the store of the backend itself: taken by writing an entry under the lock's name, which no cache key has, and given back
  by deleting it.
\<close>

definition map_lock :: "(string \<times> bytes) list lock" where
  "map_lock = redis_lock (classify_redis_error True False (\<lambda>_ _. False)) \<lparr>pr_tenant = ''t''\<rparr>
     (\<lambda>n s. if map_of s n = None then (Inr True, AList.update n [] s) else (Inr False, s))
     (\<lambda>n s. (Inr (), AList.delete n s))"

lemma map_lock_lawful:
  assumes "\<And>k. good (lock_name \<lparr>pr_tenant = ''t''\<rparr> k) []"
  shows "lawful_lock map_lock (entries_good good)"
  unfolding map_lock_def
proof (rule redis_lock_lawful)
  fix k s r s'
  let ?n = "lock_name \<lparr>pr_tenant = ''t''\<rparr> k"
  assume "entries_good good s" "(if map_of s ?n = None then (Inr True, AList.update ?n [] s) else (Inr False, s)) = (r, s')"
  then show "entries_good good s' \<and> (\<exists>got. r = Inr got)"
    using assms by (auto simp: entries_good_def update_conv' split: if_splits)
qed (auto simp: entries_good_def AList.delete_conv' split: if_splits)

interpretation succ_lock: lawful_lock map_lock "entries_good (entry_of (pg_env succ_program) plain_handler (succ_config l) succ_spec)" for l
proof (rule map_lock_lawful)
  fix k
  have "\<not> key_of (succ_config l) (lock_name \<lparr>pr_tenant = ''t''\<rparr> k)" by (simp add: key_of_def lock_name_def scoped_key_def)
  then show "entry_of (pg_env succ_program) plain_handler (succ_config l) succ_spec (lock_name \<lparr>pr_tenant = ''t''\<rparr> k) []"
    by (simp add: entry_of_def)
qed

interpretation succ_async: decorated_lock "redis_backend (Inr map_client)"
  "entries_good (entry_of (pg_env succ_program) plain_handler (succ_config l) succ_spec)" succ_program "succ_config l" plain_handler succ_spec map_lock
  for l
  by unfold_locales (auto simp: succ_spec_def split: if_splits)


end
