(* ===== verification/Sync_Properties.thy ===== *)
theory Sync_Properties
  imports Wrapper_Refinement
begin

text \<open>
  What a single call of the synchronous wrapper does, whatever the backend, the codecs and the function are: the context
  variable, the number of executions, the exceptions that reach the caller, tampered entries, an open circuit,
  invalidation and the pools of background refreshes.
\<close>

section \<open>Frames\<close>

lemma run_func_frame:
  assumes "run_func pg args w = (r, w')"
  shows "w' = w\<lparr>w_world := w_world w'\<rparr> \<and> r = fst (pg_func pg args (w_world w)) \<and> w_world w' = snd (pg_func pg args (w_world w))"
  using assms by (auto simp: run_func_def split: prod.splits)

text \<open>Everything a branch may change besides the caches: neither the context variable nor the world.\<close>

definition same_frame :: "('g, 'k, 'r, 's, 'w) wrapper \<Rightarrow> ('g, 'k, 'r, 's, 'w) wrapper \<Rightarrow> bool" where
  "same_frame w w' \<longleftrightarrow> w_context w' = w_context w \<and> w_world w' = w_world w"

lemma same_frame_refl [simp]: "same_frame w w"
  by (simp add: same_frame_def)

lemma same_frame_trans: "same_frame a b \<Longrightarrow> same_frame b c \<Longrightarrow> same_frame a c"
  by (simp add: same_frame_def)

lemma frame_simps [simp]:
  "same_frame w (on_features g v) = same_frame w v"
  "same_frame w (on_stats f v) = same_frame w v"
  "same_frame w (report_error now e op sp d v) = same_frame w v"
  "same_frame w (note_success op d m v) = same_frame w v"
  "same_frame w (track_key k v) = same_frame w v"
  "same_frame w (put_l1 cfg now key b v) = same_frame w v"
  "same_frame w (drop_l1 key v) = same_frame w v"
  "same_frame w (l1_cancel key version v) = same_frame w v"
  "same_frame w (l2_swr_schedule pg cl key args v) = same_frame w v"
  "same_frame w (schedule_l1_refresh pg cl is_async key version args v) = same_frame w v"
  "same_frame w (v\<lparr>w_op := st\<rparr>) = same_frame w v"
  "same_frame w (v\<lparr>w_l1 := l\<rparr>) = same_frame w v"
  "same_frame w (v\<lparr>w_backend := ob\<rparr>) = same_frame w v"
  "same_frame w (v\<lparr>w_object_cache := oc\<rparr>) = same_frame w v"
  by (auto simp: same_frame_def on_features_def on_stats_def report_error_def note_success_def track_key_def put_l1_def
      drop_l1_def l1_cancel_def l2_swr_schedule_def schedule_l1_refresh_def l1_swr_acquire_def Let_def
      split: option.split prod.split bool.split)

lemma on_op_frame [simp]: "on_op f w = (r, w') \<Longrightarrow> same_frame w w'"
  by (auto simp: on_op_def split: prod.splits)

lemma frame_worlds: "same_frame w w' \<Longrightarrow> w_context w' = w_context w" "same_frame w w' \<Longrightarrow> w_world w' = w_world w"
  by (simp_all add: same_frame_def)

lemma read_l1_frame: "read_l1 pg cfg cl key w = (r, w') \<Longrightarrow> same_frame w w'"
  by (auto simp: read_l1_def l1_failure_def same_frame_def split: option.splits prod.splits sum.splits if_splits
      dest!: on_op_frame) (auto simp: on_stats_def note_success_def on_features_def drop_l1_def)

lemma read_l2_frame: "read_l2 pg cfg bk cl key w = (r, w') \<Longrightarrow> same_frame w w'"
  by (auto simp: read_l2_def split: if_splits prod.splits sum.splits dest: on_op_frame)

lemma l2_hit_frame: "l2_hit pg cfg cl key args v stale w = (r, w') \<Longrightarrow> same_frame w w'"
  by (auto simp: l2_hit_def Let_def split: option.splits)

lemma store_value_frame:
  assumes "store_value pg cfg bk cl key args v w = (r, w')"
  shows "same_frame w w' \<and> (\<forall>e. r = Inl e \<longrightarrow> is_interop_error e) \<and> (\<forall>u. r = Inr u \<longrightarrow> u = v)"
  using assms
  by (auto simp: store_value_def Let_def split: prod.splits sum.splits if_splits option.splits dest: on_op_frame)

lemma open_backend_frame: "open_backend cl w = (r, w') \<Longrightarrow> same_frame w w'"
  by (auto simp: open_backend_def split: if_splits option.splits sum.splits)

section \<open>The context variable is restored\<close>

lemma restore_context [simp]: "w_context (snd (restore token r)) = token"
  by (simp add: restore_def set_context_def reset_current_function_stats_def)

lemma restore_world [simp]: "w_world (snd (restore token r)) = w_world (snd r)"
  by (simp add: restore_def set_context_def)

lemma run_func_context [simp]: "w_context (snd (run_func pg args w)) = w_context w"
  by (simp add: run_func_def split: prod.split)

lemma backed_read_context: "w_context (snd (backed_read pg cfg bk token cl key args w)) = token"
  by (auto simp: backed_read_def Let_def split: prod.split sum.split option.split)

lemma backed_call_context: "w_context (snd (backed_call pg cfg token cl key args w)) = token"
  by (auto simp: backed_call_def backed_read_context split: prod.split sum.split option.split l1_read.split)

lemma sync_context_restored:
  "w_context (snd (sync_wrapper pg cfg cl bypass args w)) = w_context w"
  by (auto simp: sync_wrapper_def set_current_function_stats_def Let_def backed_call_context split: sum.split)

section \<open>How often the function runs\<close>

text \<open>The world after at most two executions, a second one only when the first raised a \<^verbatim>\<open>BackendError\<close>.\<close>

definition executed ::
  "('a, 'k, 'r, 'g, 'w) program \<Rightarrow> 'g \<Rightarrow> 'w \<Rightarrow> (pyexn + 'a) \<times> ('g, 'k, 'r, 's, 'w) wrapper \<Rightarrow> bool" where
  "executed pg args x r \<longleftrightarrow>
     w_world (snd r) = x
   \<or> w_world (snd r) = snd (pg_func pg args x)
   \<or> (\<exists>e. fst (pg_func pg args x) = Inl (BackendExn e)) \<and> w_world (snd r) = snd (pg_func pg args (snd (pg_func pg args x)))"

lemma run_func_world [simp]: "w_world (snd (run_func pg args w)) = snd (pg_func pg args (w_world w))"
  by (simp add: run_func_def split: prod.split)

lemma executed_run: "w_world w = x \<Longrightarrow> executed pg args x (run_func pg args w)"
  by (auto simp: executed_def run_func_def split: prod.split)

lemma executed_same: "w_world (snd r) = x \<Longrightarrow> executed pg args x r"
  by (simp add: executed_def)

lemma executed_restore [simp]: "executed pg args x (restore token r) = executed pg args x r"
  by (simp add: executed_def)

lemma report_world [simp]: "w_world (report_error now e op sp d w) = w_world w"
  by (simp add: report_error_def on_features_def)

lemma is_backend_errorE: "is_backend_error e \<Longrightarrow> \<exists>b. e = BackendExn b"
  by (cases e) auto

lemma miss_path_executed: "executed pg args (w_world w) (miss_path pg cfg bk cl key args w)"
proof -
  let ?x = "w_world w"
  obtain r w1 where f: "run_func pg args (on_stats (record_miss (cl_got cl)) w) = (r, w1)" by force
  have w1: "fst (pg_func pg args ?x) = r" "w_world w1 = snd (pg_func pg args ?x)"
    using run_func_frame [OF f] by (simp_all add: on_stats_def)
  show ?thesis
  proof (cases r)
    case (Inl e)
    show ?thesis
    proof (cases "is_backend_error e")
      case True
      then obtain b where "e = BackendExn b" using is_backend_errorE by blast
      with f w1 Inl True show ?thesis
        by (simp add: miss_path_def miss_failure_def executed_def)
    next
      case False
      with f w1 Inl show ?thesis by (simp add: miss_path_def miss_failure_def executed_def on_features_def)
    qed
  next
    case (Inr v)
    obtain q w2 where s: "store_value pg cfg bk cl key args v w1 = (q, w2)" by force
    have w2: "w_world w2 = snd (pg_func pg args ?x)" using store_value_frame [OF s] w1(2) by (simp add: same_frame_def)
    have "\<not> is_backend_error e" if "q = Inl e" for e
      using store_value_frame [OF s] that by (cases e) (auto simp: exn_class_defs)
    with f w1 Inr s w2 show ?thesis
      by (cases q) (auto simp: miss_path_def miss_failure_def executed_def on_features_def)
  qed
qed

lemma l1_only_world:
  "w_world (snd (l1_only_call pg cfg cl is_async key args w)) \<in> {w_world w, snd (pg_func pg args (w_world w))}"
proof (cases "w_object_cache w")
  case None
  then show ?thesis by (simp add: l1_only_call_def)
next
  case (Some c)
  obtain r c1 where ro: "read_object cfg cl key c = (r, c1)" by force
  have hit: "w_world (schedule_l1_refresh pg cl is_async key ver args v) = w_world v" "w_world (on_stats g v) = w_world v"
      "w_world (track_key key v) = w_world v" for ver v g
    using frame_worlds(2) [of v "schedule_l1_refresh pg cl is_async key ver args v"]
    by (simp_all add: on_stats_def track_key_def)
  obtain q w2 where f: "run_func pg args (on_stats (record_miss (cl_read cl)) (w\<lparr>w_object_cache := Some c1\<rparr>)) = (q, w2)" by force
  have w2: "w_world w2 = snd (pg_func pg args (w_world w))" using run_func_frame [OF f] by (simp add: on_stats_def)
  show ?thesis using Some ro f w2 hit
    by (auto simp: l1_only_call_def Let_def split: sum.split)
qed

lemma l1_only_executed: "executed pg args (w_world w) (l1_only_call pg cfg cl is_async key args w)"
  using l1_only_world [of pg cfg cl is_async key args w] by (auto simp: executed_def)

lemma backed_read_executed: "executed pg args (w_world w) (backed_read pg cfg bk token cl key args w)"
proof -
  obtain r w1 where rl: "read_l2 pg cfg bk cl key w = (r, w1)" by force
  have w1: "w_world w1 = w_world w" using read_l2_frame [OF rl] by (simp add: same_frame_def)
  show ?thesis
  proof (cases r)
    case (Inl e)
    with rl w1 show ?thesis by (simp add: backed_read_def Let_def executed_same executed_run)
  next
    case (Inr o1)
    show ?thesis
    proof (cases o1)
      case None
      with Inr rl miss_path_executed [of pg args w1] w1 show ?thesis by (simp add: backed_read_def Let_def)
    next
      case (Some p)
      obtain v stale where p: "p = (v, stale)" by (cases p)
      obtain q w2 where h: "l2_hit pg cfg cl key args v stale w1 = (q, w2)" by force
      have "w_world w2 = w_world w" using l2_hit_frame [OF h] w1 by (simp add: same_frame_def)
      with Inr Some p rl h show ?thesis
        by (cases q) (simp_all add: backed_read_def Let_def executed_same executed_run)
    qed
  qed
qed

lemma backed_call_executed: "executed pg args (w_world w) (backed_call pg cfg token cl key args w)"
proof -
  obtain b w1 where ob: "open_backend cl w = (b, w1)" by force
  obtain r w2 where l1: "read_l1 pg cfg cl key w1 = (r, w2)" by force
  have "w_world w1 = w_world w" "w_world w2 = w_world w"
    using open_backend_frame [OF ob] read_l1_frame [OF l1] by (simp_all add: same_frame_def)
  with ob l1 backed_read_executed [of pg args w2 cfg] show ?thesis
    by (auto simp: backed_call_def executed_run executed_same split: sum.split option.split l1_read.split)
qed

lemma sync_wrapper_executed: "executed pg args (w_world w) (sync_wrapper pg cfg cl bypass args w)"
proof -
  have ctx: "w_world (set_context c w) = w_world w" for c by (simp add: set_context_def)
  show ?thesis
    using backed_call_executed [of pg args "set_context (Some (fs_function_identifier (w_stats w))) w" cfg]
      l1_only_executed [of pg args "set_context (Some (fs_function_identifier (w_stats w))) w" cfg]
    by (auto simp: sync_wrapper_def set_current_function_stats_def Let_def executed_run executed_same ctx split: sum.split)
qed

section \<open>Exceptions that reach the caller\<close>

lemma run_func_raises: "fst (run_func pg args w) = Inl e \<Longrightarrow> \<exists>x. fst (pg_func pg args x) = Inl e"
  by (auto simp: run_func_def split: prod.splits) (metis fst_conv)

lemma miss_path_raises:
  "fst (miss_path pg cfg bk cl key args w) = Inl e \<Longrightarrow> (\<exists>x. fst (pg_func pg args x) = Inl e) \<or> is_interop_error e"
proof -
  assume m: "fst (miss_path pg cfg bk cl key args w) = Inl e"
  obtain r w1 where f: "run_func pg args (on_stats (record_miss (cl_got cl)) w) = (r, w1)" by force
  have fail: "fst (miss_failure pg cl args e' w') = Inl e \<Longrightarrow> e' = e \<or> (\<exists>x. fst (pg_func pg args x) = Inl e)" for e' w'
    by (auto simp: miss_failure_def split: if_splits dest: run_func_raises)
  show ?thesis
  proof (cases r)
    case (Inl e')
    with f have "\<exists>x. fst (pg_func pg args x) = Inl e'" using run_func_raises [of pg args _ e'] by (metis fst_conv)
    with m f Inl fail show ?thesis by (auto simp: miss_path_def)
  next
    case (Inr v)
    obtain q w2 where s: "store_value pg cfg bk cl key args v w1 = (q, w2)" by force
    with m f Inr fail [of _ w2] store_value_frame [OF s] show ?thesis by (cases q) (auto simp: miss_path_def)
  qed
qed

lemma l1_only_raises:
  assumes "fst (l1_only_call pg cfg cl is_async key args w) = Inl e"
  shows "(\<exists>x. fst (pg_func pg args x) = Inl e) \<or> (\<exists>t. wc_ttl cfg = Some t \<and> t < 1) \<and> is_value_error e"
proof (cases "w_object_cache w")
  case None
  with assms run_func_raises [of pg args w e] show ?thesis by (simp add: l1_only_call_def)
next
  case (Some c)
  obtain r c1 where ro: "read_object cfg cl key c = (r, c1)" by force
  obtain q w2 where f: "run_func pg args (on_stats (record_miss (cl_read cl)) (w\<lparr>w_object_cache := Some c1\<rparr>)) = (q, w2)" by force
  have "\<exists>x. fst (pg_func pg args x) = Inl e" if "q = Inl e"
    using run_func_raises [of pg args "on_stats (record_miss (cl_read cl)) (w\<lparr>w_object_cache := Some c1\<rparr>)" e] f that by simp
  with assms Some ro f show ?thesis
    by (auto simp: l1_only_call_def Let_def oc_put_def ttl_ok_def no_expiry_ttl_def exn_class_defs
        split: if_splits sum.splits option.splits)
qed

lemma l1_raises:
  fixes pg :: "('a, 'k, 'r, 'g, 'w) program"
  assumes "wrappers_ok (pg_env pg) (os_ser (w_op w))" "read_l1 pg cfg cl key w = (L1Raise e, w')"
  shows "is_keyring_error e \<or> is_auth_error e \<and> sh_fail_closed (os_ser (w_op w))"
proof -
  from assms(2) obtain b c1 q w1 where d: "on_op (on_ser (deserialize_data (pg_env pg) b key)) (w\<lparr>w_l1 := Some c1\<rparr>) = (Inl q, w1)"
    and f: "l1_failure key q w1 = (L1Raise e :: 'a l1_read, w')"
    by (auto simp: read_l1_def split: option.splits if_splits prod.splits sum.splits)
  obtain h where h: "deserialize_data (pg_env pg) b key (os_ser (w_op w)) = (Inl q, h)" "os_ser (w_op w1) = h"
    using d by (auto simp: on_op_def on_ser_def split: prod.splits)
  have "sh_fail_closed h = sh_fail_closed (os_ser (w_op w))"
    using deserialize_data_ok [OF assms(1) h(1)] by (simp add: same_config_def)
  with f h(2) show ?thesis
    by (auto simp: l1_failure_def handle_decrypt_failure_def Let_def split: if_splits prod.splits sum.splits)
qed

lemma read_l2_raises:
  assumes "wrappers_ok (pg_env pg) (os_ser (w_op w))" "read_l2 pg cfg bk cl key w = (Inl e, w')"
  shows "is_keyring_error e \<or> is_auth_error e \<and> sh_fail_closed (os_ser (w_op w))"
proof -
  have reads: "is_keyring_error x \<or> is_auth_error x \<and> sh_fail_closed (os_ser st)"
    if "read_outcome bk now key (on_ser (deserialize_data (pg_env pg) data key) st1) = (Inl x, st2)" "os_ser st1 = os_ser st"
      "wrappers_ok (pg_env pg) (os_ser st)" for now data st st1 st2 x
  proof -
    obtain r h where d: "deserialize_data (pg_env pg) data key (os_ser st1) = (r, h)" by force
    have "sh_fail_closed h = sh_fail_closed (os_ser st)" using deserialize_data_ok [OF _ d] that(2,3) by (simp add: same_config_def)
    with read_outcome_raise [of bk now key r "st1\<lparr>os_ser := h\<rparr>"] that(1) d show ?thesis by (auto simp: on_ser_def)
  qed
  show ?thesis
  proof (cases "wc_stale_ttl cfg = None")
    case True
    with assms(2) obtain st' where "get_cached_value (pg_env pg) bk (cl_got cl) key (w_op w) = (Inl e, st')"
      by (auto simp: read_l2_def on_op_def split: prod.splits sum.splits)
    then obtain data st1 where "read_entry bk key (w_op w) = (Some data, st1)"
      "read_outcome bk (cl_got cl) key (on_ser (deserialize_data (pg_env pg) data key) st1) = (Inl e, st')"
      by (auto simp: get_cached_value_def split: prod.splits option.splits)
    with reads [OF _ _ assms(1)] read_entry_ser show ?thesis by blast
  next
    case False
    with assms(2) obtain st' where "get_cached_value_with_freshness (pg_env pg) bk (cl_got cl) key (w_op w) = (Inl e, st')"
      by (auto simp: read_l2_def on_op_def split: prod.splits)
    then obtain data stale st1 st2 where "std_get_with_freshness bk key (w_op w) = (Some (data, stale), st1)"
      "read_outcome bk (cl_got cl) key (on_ser (deserialize_data (pg_env pg) data key) st1) = (Inl e, st2)"
      by (auto simp: get_cached_value_with_freshness_def split: prod.splits option.splits sum.splits)
    with reads [OF _ _ assms(1)] std_get_with_freshness_ser show ?thesis by blast
  qed
qed

lemma auth_not_keyring: "is_auth_error e \<Longrightarrow> \<not> is_keyring_error e \<and> is_serialization_error e"
  by (cases e) (auto simp: exn_class_defs)

lemma backed_read_raises:
  assumes "wrappers_ok (pg_env pg) (os_ser (w_op w))" "fst (backed_read pg cfg bk token cl key args w) = Inl e"
    and "\<And>v x. pg_text_error pg v = Some x \<Longrightarrow> \<not> is_auth_error x"
  shows "(\<exists>x. fst (pg_func pg args x) = Inl e) \<or> is_interop_error e \<or> is_auth_error e \<and> sh_fail_closed (os_ser (w_op w))"
proof -
  obtain r w1 where rl: "read_l2 pg cfg bk cl key w = (r, w1)" by force
  note func = run_func_raises [of pg args _ e]
  show ?thesis
  proof (cases r)
    case (Inl x)
    with rl assms(2) func read_l2_raises [OF assms(1), of cfg bk cl key x w1] auth_not_keyring [of x] show ?thesis
      by (auto simp: backed_read_def Let_def split: if_splits)
  next
    case (Inr o1)
    show ?thesis
    proof (cases o1)
      case None
      with Inr rl assms(2) miss_path_raises show ?thesis by (fastforce simp: backed_read_def Let_def)
    next
      case (Some p)
      obtain v stale where p: "p = (v, stale)" by (cases p)
      obtain q w2 where h: "l2_hit pg cfg cl key args v stale w1 = (q, w2)" by force
      have "\<not> is_auth_error x" if "q = Inl x" for x
        using h that assms(3) [of v] by (auto simp: l2_hit_def Let_def split: option.splits if_splits)
      with Inr Some p rl h assms(2) func show ?thesis by (cases q) (auto simp: backed_read_def Let_def)
    qed
  qed
qed

lemma backed_call_raises:
  assumes "wrappers_ok (pg_env pg) (os_ser (w_op w))" "fst (backed_call pg cfg token cl key args w) = Inl e"
    and "\<And>v x. pg_text_error pg v = Some x \<Longrightarrow> \<not> is_auth_error x"
  shows "(\<exists>x. fst (pg_func pg args x) = Inl e) \<or> is_interop_error e \<or> is_keyring_error e
    \<or> is_auth_error e \<and> sh_fail_closed (os_ser (w_op w)) \<or> ks_interop (wc_keys cfg) \<noteq> None \<and> cl_interop_error cl = Some e"
proof -
  obtain b w1 where ob: "open_backend cl w = (b, w1)" by force
  have op1: "w_op w1 = w_op w" using ob by (auto simp: open_backend_def split: if_splits option.splits sum.splits)
  obtain r w2 where l1: "read_l1 pg cfg cl key w1 = (r, w2)" by force
  have keep: "wrappers_ok (pg_env pg) (os_ser (w_op w2)) \<and> sh_fail_closed (os_ser (w_op w2)) = sh_fail_closed (os_ser (w_op w))"
    if through: "r = L1Through"
  proof (cases "w_op w2 = w_op w1")
    case True
    with assms(1) op1 show ?thesis by simp
  next
    case False
    with l1 through obtain c b1 c1 q w1' where d: "on_op (on_ser (deserialize_data (pg_env pg) b1 key)) (w1\<lparr>w_l1 := c1\<rparr>) = (q, w1')"
      and h: "\<exists>ctr. os_ser (w_op w2) = (os_ser (w_op w1'))\<lparr>sh_counters := ctr\<rparr>"
      by (auto simp: read_l1_def l1_failure_def handle_decrypt_failure_def record_security_counter_def drop_l1_def Let_def
          split: option.splits if_splits prod.splits sum.splits)
         (metis ser_handler.surjective ser_handler.update_convs(11))+
    obtain h1 where h1: "deserialize_data (pg_env pg) b1 key (os_ser (w_op w1)) = (q, h1)" "os_ser (w_op w1') = h1"
      using d by (auto simp: on_op_def on_ser_def split: prod.splits)
    from deserialize_data_ok [OF _ h1(1)] assms(1) op1 have "wrappers_ok (pg_env pg) h1" "same_config (os_ser (w_op w)) h1" by auto
    with h h1(2) show ?thesis by (auto simp: wrappers_ok_def same_config_def)
  qed
  note func = run_func_raises [of pg args _ e]
  show ?thesis
  proof (cases b)
    case (Inl x)
    with assms(2) ob func show ?thesis by (auto simp: backed_call_def)
  next
    case (Inr bk)
    with assms(2) ob l1 l1_raises [of pg w1 cfg cl key] backed_read_raises [of pg w2 cfg bk token cl key args e] keep assms(1,3) op1
    show ?thesis by (auto simp: backed_call_def split: option.splits if_splits l1_read.splits)
  qed
qed


section \<open>Tampered entries\<close>

definition failure_counted :: "string \<Rightarrow> pyexn \<Rightarrow> ('g, 'k, 'r) ser_handler \<Rightarrow> ('g, 'k, 'r) ser_handler" where
  "failure_counted tier e h =
     record_security_counter ''cachekit_decrypt_failures_total'' [(''reason'', failure_reason e), (''tier'', tier)] h"

lemma auth_l1_failure:
  assumes "is_auth_error e" "sh_fail_closed (os_ser (w_op w))"
  shows "l1_failure key e w = (L1Raise e, drop_l1 key (w\<lparr>w_op := (w_op w)\<lparr>os_ser := failure_counted ''l1'' e (os_ser (w_op w))\<rparr>\<rparr>))"
  using assms auth_not_keyring [OF assms(1)] by (simp add: l1_failure_def handle_decrypt_failure_def Let_def failure_counted_def)

lemma auth_read_outcome:
  assumes "is_auth_error e" "sh_fail_closed (os_ser st)"
  shows "read_outcome bk now key (Inl e, st) = (Inl e, st\<lparr>os_ser := failure_counted ''l2'' e (os_ser st)\<rparr>)"
  using assms auth_not_keyring [OF assms(1)]
  by (simp add: read_outcome_def handle_l2_read_error_def handle_decrypt_failure_def Let_def failure_counted_def)

lemma backed_state:
  assumes "choose_key cfg args = Inr key" "\<not> wc_l1_only cfg" "ks_interop (wc_keys cfg) = None"
    "should_allow_request (os_features (w_op w))" "w_backend w = Some bk"
  shows "sync_wrapper pg cfg cl False args w =
    (case read_l1 pg cfg cl key (set_context (Some (fs_function_identifier (w_stats w))) w) of
       (L1Hit v, w2) \<Rightarrow> restore (w_context w) (Inr v, w2)
     | (L1Raise e, w2) \<Rightarrow> restore (w_context w) (Inl e, w2)
     | (L1Through, w2) \<Rightarrow> backed_read pg cfg bk (w_context w) cl key args w2)"
  using assms by (simp add: sync_wrapper_def set_current_function_stats_def Let_def backed_call_def open_backend_def set_context_def)

lemma restore_fields [simp]:
  "w_op (snd (restore t x)) = w_op (snd x)" "w_l1 (snd (restore t x)) = w_l1 (snd x)"
  "w_stats (snd (restore t x)) = w_stats (snd x)"
  by (simp_all add: restore_def set_context_def)

lemma set_context_fields [simp]:
  "w_op (set_context c w) = w_op w" "w_l1 (set_context c w) = w_l1 w" "w_world (set_context c w) = w_world w"
  "w_stats (set_context c w) = w_stats w" "w_backend (set_context c w) = w_backend w"
  by (simp_all add: set_context_def)

lemma fail_closed_kept:
  "wrappers_ok en h \<Longrightarrow> sh_fail_closed h \<Longrightarrow> deserialize_data en x key h = (q, h') \<Longrightarrow> sh_fail_closed h'"
  using deserialize_data_ok by (fastforce simp: same_config_def)

lemma tampered_l1:
  assumes "key \<noteq> []" "wrappers_ok (pg_env pg) (os_ser (w_op w))" "sh_fail_closed (os_ser (w_op w))" "is_auth_error e"
    and "w_l1 w = Some c" "l1_wf c" "l1_get (cl_read cl) key c = (Some b, c1)" "b \<noteq> []"
    and "fst (deserialize_data (pg_env pg) b key (os_ser (w_op w))) = Inl e"
  shows "\<exists>w'. read_l1 pg cfg cl key w = (L1Raise e, w') \<and> same_frame w w' \<and> os_backend (w_op w') = os_backend (w_op w)
    \<and> (\<exists>c2. w_l1 w' = Some c2 \<and> l1_lookup c2 key = None)"
proof -
  obtain h where h: "deserialize_data (pg_env pg) b key (os_ser (w_op w)) = (Inl e, h)" using assms(9) by (metis fst_conv surj_pair)
  let ?w1 = "w\<lparr>w_l1 := Some c1, w_op := (w_op w)\<lparr>os_ser := h\<rparr>\<rparr>"
  have "on_op (on_ser (deserialize_data (pg_env pg) b key)) (w\<lparr>w_l1 := Some c1\<rparr>) = (Inl e, ?w1)"
    using h by (simp add: on_op_def on_ser_def)
  with auth_l1_failure [OF assms(4), of ?w1 key] fail_closed_kept [OF assms(2,3) h] assms(1,5,7,8)
  have l1: "read_l1 pg cfg cl key w = (L1Raise e, drop_l1 key (?w1\<lparr>w_op := (w_op ?w1)\<lparr>os_ser := failure_counted ''l1'' e h\<rparr>\<rparr>))"
    by (simp add: read_l1_def)
  have "l1_wf c1" using assms(6,7) l1_get_wf by blast
  then have "l1_lookup (invalidate key c1) key = None" by (rule l1.remove_gone)
  with read_l1_frame [OF l1] l1 show ?thesis by (simp add: drop_l1_def)
qed

lemma tampered_l2:
  assumes "wc_stale_ttl cfg = None" "wrappers_ok (pg_env pg) (os_ser (w_op w))" "sh_fail_closed (os_ser (w_op w))" "is_auth_error e"
    and "read_entry bk key (w_op w) = (Some data, st1)" "fst (deserialize_data (pg_env pg) data key (os_ser (w_op w))) = Inl e"
  shows "\<exists>w'. read_l2 pg cfg bk cl key w = (Inl e, w') \<and> same_frame w w' \<and> os_backend (w_op w') = os_backend st1"
proof -
  have same: "os_ser st1 = os_ser (w_op w)" using assms(5) read_entry_ser by blast
  with assms(6) obtain h where h: "deserialize_data (pg_env pg) data key (os_ser st1) = (Inl e, h)" by (metis fst_conv surj_pair)
  have "sh_fail_closed h" using fail_closed_kept [OF assms(2,3)] h same by simp
  with auth_read_outcome [OF assms(4), of "st1\<lparr>os_ser := h\<rparr>" bk "cl_got cl" key] assms(5) h
  have "get_cached_value (pg_env pg) bk (cl_got cl) key (w_op w) = (Inl e, st1\<lparr>os_ser := failure_counted ''l2'' e h\<rparr>)"
    by (simp add: get_cached_value_def on_ser_def)
  then show ?thesis using assms(1) by (simp add: read_l2_def on_op_def)
qed


section \<open>An open circuit\<close>

text \<open>
  Once the circuit is open, a synchronous call runs the function uncached: neither the L1 cache nor the backend is
  consulted, nothing is counted as a hit or a miss, and the circuit is still open afterwards, since the call reports its
  own refusal as one more failure. As the orchestrator never probes, the decorated function stays uncached for good.
\<close>

theorem open_circuit_runs_uncached:
  assumes "choose_key cfg args = Inr key" "\<not> wc_l1_only cfg" "orch_breaker (os_features (w_op w)) = Some b" "cb_state b = OPEN"
  shows "fst (sync_wrapper pg cfg cl False args w) = fst (pg_func pg args (w_world w))
    \<and> w_world (snd (sync_wrapper pg cfg cl False args w)) = snd (pg_func pg args (w_world w))
    \<and> w_l1 (snd (sync_wrapper pg cfg cl False args w)) = w_l1 w \<and> w_stats (snd (sync_wrapper pg cfg cl False args w)) = w_stats w
    \<and> os_backend (w_op (snd (sync_wrapper pg cfg cl False args w))) = os_backend (w_op w)
    \<and> \<not> should_allow_request (os_features (w_op (snd (sync_wrapper pg cfg cl False args w))))"
proof -
  let ?w = "set_context (Some (fs_function_identifier (w_stats w))) w"
  let ?v = "snd (restore (w_context w) ((), report_error (cl_start cl) circuit_open ''client_creation'' True 0 ?w))"
  have run: "sync_wrapper pg cfg cl False args w = run_func pg args ?v"
    using assms by (simp add: sync_wrapper_def set_current_function_stats_def Let_def backed_call_def open_backend_def
        should_allow_request_def get_state_def)
  have f: "w_op (snd (run_func pg args v)) = w_op v" "w_l1 (snd (run_func pg args v)) = w_l1 v"
      "w_stats (snd (run_func pg args v)) = w_stats v" "fst (run_func pg args v) = fst (pg_func pg args (w_world v))" for v
    by (simp_all add: run_func_def split: prod.split)
  have "cb_state (on_failure now e b) = OPEN" for now e
    using assms(4) by (simp add: on_failure_def Let_def)
  then have "\<not> should_allow_request (handle_cache_error now e op sp d (os_features (w_op w)))" for now e op sp d
    using assms(3) by (simp add: handle_cache_error_def orch_record_failure_def set_operation_context_def record_exception_def
        record_cache_operation_def should_allow_request_def get_state_def Let_def)
  then show ?thesis unfolding run f by (simp add: f report_error_def on_features_def)
qed

section \<open>Invalidation\<close>

lemma delete_l2_l1: "w_l1 (snd (delete_l2 cfg key w)) = w_l1 w \<and> w_object_cache (snd (delete_l2 cfg key w)) = w_object_cache w"
  by (auto simp: delete_l2_def on_op_def split: option.split prod.split sum.split)

text \<open>
  Calling \<^verbatim>\<open>invalidate_cache(args)\<close> removes from the local caches exactly the entry under the key of the standard generator
  (or the interop one) for these arguments. With a key function or in fast mode the wrapper stores under another key, so
  the entry it means to invalidate stays and is served again.
\<close>

theorem invalidation_uses_standard_key:
  assumes "invalidation_key cfg args = Inr key'" "key' \<noteq> []"
  shows "(w_object_cache w = None \<and> w_l1 w = Some c \<and> l1_wf c \<longrightarrow>
      (\<exists>c'. w_l1 (snd (invalidate_cache cfg cl no_args (Some args) w)) = Some c'
         \<and> l1_lookup c' key' = None \<and> (\<forall>key. key \<noteq> key' \<longrightarrow> l1_lookup c' key = l1_lookup c key)))
    \<and> (w_object_cache w = Some oc \<longrightarrow>
      (\<exists>c'. w_object_cache (snd (invalidate_cache cfg cl no_args (Some args) w)) = Some c'
         \<and> oc_lookup c' key' = None \<and> (\<forall>key. key \<noteq> key' \<longrightarrow> oc_lookup c' key = oc_lookup oc key)))"
proof -
  let ?w1 = "resolve_backend cfg cl w"
  have w1: "w_l1 ?w1 = w_l1 w" "w_object_cache ?w1 = w_object_cache w"
    by (simp_all add: resolve_backend_def split: sum.split)
  have inv: "snd (invalidate_cache cfg cl no_args (Some args) w) = snd (delete_l2 cfg key' (untrack_key key' (drop_local key' ?w1)))"
    using assms by (simp add: invalidate_cache_def Let_def)
  have fields: "w_l1 (untrack_key key' v) = w_l1 v" "w_object_cache (untrack_key key' v) = w_object_cache v" for v
    by (simp_all add: untrack_key_def)
  have l1: "l1_lookup (invalidate key' c) k = (if k = key' then None else l1_lookup c k)" for k
    by (simp add: l1_lookup_def invalidate_def remove_entry_lookup)
  have oc: "oc_lookup (snd (oc_delete key' oc)) k = (if k = key' then None else oc_lookup oc k)" for k
    by (auto simp: oc_lookup_def oc_delete_def)
  show ?thesis unfolding inv delete_l2_l1 [THEN conjunct1] delete_l2_l1 [THEN conjunct2] fields
    by (auto simp: drop_local_def drop_l1_def l1 oc w1)
qed

section \<open>Concrete calls\<close>


text \<open>An encrypting function of no argument whose only entry is tampered with.\<close>

definition vault_program :: "(bytes, bytes, bytes list, unit, nat) program" where
  "vault_program = \<lparr>pg_env = tampered_env, pg_func = (\<lambda>_ x. (Inr [7], x + 1)), pg_id = length, pg_obj = (\<lambda>_. []),
     pg_text_error = (\<lambda>_. None), pg_copyable = (\<lambda>_. True)\<rparr>"

definition vault_config :: "unit wrapper_config" where
  "vault_config = \<lparr>wc_namespace = None, wc_ttl = None, wc_stale_ttl = None, wc_l1_only = False, wc_l1_swr = False,
     wc_refresh_ttl_on_get = False, wc_ttl_refresh_threshold = 1 / 2, wc_has_params = False,
     wc_keys = \<lparr>ks_interop = None, ks_custom = None, ks_fast = False, ks_repr = (\<lambda>_. Inr []), ks_blake3_hex = (\<lambda>b. []),
       ks_func_hash = [], ks_standard = (\<lambda>_. Inr ''k'')\<rparr>\<rparr>"

definition vault_wrapper :: "(unit, bytes, bytes list, (string \<times> bytes) list, nat) wrapper" where
  "vault_wrapper = \<lparr>w_op = demo_state [(''k'', tampered_entry)], w_backend = Some list_backend,
     w_l1 = None, w_object_cache = None, w_stats = new_stats ''m.g'' True, w_context = None,
     w_cached_keys = [], w_l2_swr = fresh_pool 32 1, w_l1_swr = fresh_pool 32 1, w_jobs = [], w_world = 0\<rparr>"


definition open_wrapper :: "(nat, bytes, bytes list, (string \<times> bytes) list, nat) wrapper" where
  "open_wrapper = (succ_wrapper [])\<lparr>w_op := \<lparr>os_ser = plain_handler, os_backend = [],
     os_features = demo_features\<lparr>orch_breaker := Some (transition_to_open (init_breaker default_cb_config ''n''))\<rparr>\<rparr>\<rparr>"

theorem open_circuit_runs_uncached_witness:
  "fst (sync_wrapper succ_program (succ_config False) (quiet_call 1 (redis_backend (Inr map_client))) False 2 open_wrapper) = Inr 3
   \<and> os_backend (w_op (snd (sync_wrapper succ_program (succ_config False) (quiet_call 1 (redis_backend (Inr map_client))) False 2 open_wrapper))) = []"
proof -
  have b: "orch_breaker (os_features (w_op open_wrapper)) = Some (transition_to_open (init_breaker default_cb_config ''n''))"
      "os_backend (w_op open_wrapper) = []" by (simp_all add: open_wrapper_def)
  have "cb_state (transition_to_open (init_breaker default_cb_config ''n'')) = OPEN" by (simp add: transition_to_open_def)
  moreover have "\<not> wc_l1_only (succ_config False)" by (simp add: succ_config_def)
  moreover have "fst (pg_func succ_program 2 x) = Inr 3" for x by (simp add: succ_program_def succ_spec_def)
  ultimately show ?thesis 
    using open_circuit_runs_uncached [where pg = succ_program and cfg = "succ_config False" and args = 2 and w = open_wrapper, OF succ_key _ b(1)] b(2)
    by simp
qed

text \<open>The function of the refinement example with a key function: its entry survives its own invalidation.\<close>

definition keyed_config :: "nat wrapper_config" where
  "keyed_config = (succ_config False)\<lparr>wc_keys := (wc_keys (succ_config False))\<lparr>ks_custom := Some (\<lambda>n. Inr (Inr ''c''))\<rparr>\<rparr>"

theorem invalidation_uses_standard_key_witness:
  "\<exists>c c'. choose_key keyed_config 2 = Inr ''default:c'' \<and> l1_lookup c ''default:c'' = Some [1, 2]
     \<and> w_l1 (snd (invalidate_cache keyed_config (quiet_call 2 (redis_backend (Inr map_client))) 0 (Some 2)
                   ((succ_wrapper [])\<lparr>w_l1 := Some c\<rparr>))) = Some c'
     \<and> l1_lookup c' ''default:c'' = Some [1, 2]"
proof -
  define c where "c = (make_l1 1000000 1 ''default'')
    \<lparr>l1_store := [(''default:c'', \<lparr>ce_value = [1, 2], ce_expires_at = Fin 100, ce_size_bytes = 2\<rparr>)], current_memory_bytes := 2\<rparr>"
  have wf: "l1_wf c" by (simp add: c_def make_l1_def l1_wf_def entry_ok_def estimate_size_def)
  have lk: "l1_lookup c ''default:c'' = Some [1, 2]" by (simp add: c_def l1_lookup_def)
  have key: "choose_key keyed_config 2 = Inr ''default:c''" "invalidation_key keyed_config 2 = Inr (''f:'' @ replicate 2 CHR ''x'')"
    by (simp_all add: choose_key_def invalidation_key_def keyed_config_def succ_config_def default_namespace_def)
  let ?w = "(succ_wrapper [])\<lparr>w_l1 := Some c\<rparr>"
  have w: "w_object_cache ?w = None" "w_l1 ?w = Some c" by (simp_all add: succ_wrapper_def)
  have "''f:'' @ replicate 2 CHR ''x'' \<noteq> []" "''default:c'' \<noteq> ''f:'' @ replicate 2 CHR ''x''" by simp_all
  with invalidation_uses_standard_key [OF key(2), of ?w c "quiet_call 2 (redis_backend (Inr map_client))" 0] wf w
  obtain c' where "w_l1 (snd (invalidate_cache keyed_config (quiet_call 2 (redis_backend (Inr map_client))) 0 (Some 2) ?w)) = Some c'"
    "l1_lookup c' ''default:c'' = l1_lookup c ''default:c''" by blast
  with lk key(1) show ?thesis by auto
qed

end
