(* ===== verification/Async_Properties.thy ===== *)
theory Async_Properties
  imports Async_Refinement Sync_Properties
begin

text \<open>
  What a single call of either wrapper does, whatever the backend, the lock, the codecs and the function are: the context variable, the
  number of executions, the counted misses and an open circuit.
\<close>

section \<open>Frames\<close>

text \<open>Context variable, world and counted misses stay.\<close>

definition calm :: "('g, 'k, 'r, 's, 'w) wrapper \<Rightarrow> ('g, 'k, 'r, 's, 'w) wrapper \<Rightarrow> bool" where
  "calm w w' \<longleftrightarrow> same_frame w w' \<and> fs_misses (w_stats w') = fs_misses (w_stats w)"

lemma calm_refl [simp]: "calm w w"
  by (simp add: calm_def)

lemma calm_trans: "calm a b \<Longrightarrow> calm b c \<Longrightarrow> calm a c"
  by (auto simp: calm_def same_frame_def)

lemma calm_frame: "calm w w' \<Longrightarrow> w_world w' = w_world w" "calm w w' \<Longrightarrow> fs_misses (w_stats w') = fs_misses (w_stats w)"
  by (simp_all add: calm_def same_frame_def)

lemma calm_simps [simp]:
  "calm w (on_features g v) = calm w v"
  "calm w (on_stats (record_l1_hit t) v) = calm w v"
  "calm w (on_stats (record_l2_hit d t) v) = calm w v"
  "calm w (report_error now e op sp d v) = calm w v"
  "calm w (note_success op d m v) = calm w v"
  "calm w (track_key k v) = calm w v"
  "calm w (put_l1 cfg now key b v) = calm w v"
  "calm w (drop_l1 key v) = calm w v"
  "calm w (fill_l1 cfg cl key b v) = calm w v"
  "calm w (l2_swr_schedule pg cl key args v) = calm w v"
  "calm w (v\<lparr>w_op := st\<rparr>) = calm w v"
  "calm w (v\<lparr>w_l1 := l\<rparr>) = calm w v"
  "calm w (v\<lparr>w_backend := ob\<rparr>) = calm w v"
  "calm w (v\<lparr>w_jobs := js\<rparr>) = calm w v"
  by (auto simp: calm_def same_frame_def fill_l1_def on_features_def on_stats_def report_error_def note_success_def track_key_def put_l1_def
      drop_l1_def l2_swr_schedule_def record_l1_hit_def record_l2_hit_def Let_def split: option.split prod.split bool.split)

lemma on_op_calm: "on_op f w = (r, w') \<Longrightarrow> calm w w'"
  by (auto simp: on_op_def split: prod.splits)

lemma on_op_calm' [simp]: "calm v (snd (on_op f w)) = calm v w"
  by (simp add: on_op_def split: prod.split)

lemma read_l1_calm: "read_l1 pg cfg cl key w = (r, w') \<Longrightarrow> calm w w'"
  by (auto simp: read_l1_def l1_failure_def split: option.splits prod.splits sum.splits if_splits dest!: on_op_calm)
     (auto simp: calm_def same_frame_def)

lemma async_parts_calm:
  "async_read_l2 pg cfg bk cl key w = (r1, w') \<Longrightarrow> calm w w'"
  "recheck pg cfg bk cl key w = (r2, w') \<Longrightarrow> calm w w'"
  "async_store pg cfg bk cl key args v w = (r3, w') \<Longrightarrow> calm w w'"
  "lazy_backend cl w = (r4, w') \<Longrightarrow> calm w w'"
  by (auto simp: async_read_l2_def recheck_def async_store_def lazy_backend_def Let_def
      split: if_splits prod.splits sum.splits option.splits dest: on_op_calm)

lemma refresh_on_hit_calm [simp]: "calm w (refresh_on_hit cfg bk key v) = calm w v"
proof -
  have "calm v (refresh_on_hit cfg bk key v)"
    by (auto simp: refresh_on_hit_def split: bool.split option.split prod.split sum.split dest: on_op_calm)
  then show ?thesis by (auto simp: calm_def same_frame_def)
qed

lemma async_l2_hit_calm: "calm w (async_l2_hit pg cfg bk cl key args b stale w)"
  by (simp add: async_l2_hit_def Let_def)

section \<open>The context variable is restored\<close>

text \<open>
  The context variable that exposes the statistics of the running function to the backend never leaks: whichever way a call of the
  synchronous or the asynchronous wrapper ends (a bypass, a hit of either tier, a miss, a lock that fails, an uncached run after a
  failure, every exception), the variable has the value it had before the call.
\<close>

theorem stats_context_restored:
  "w_context (snd (sync_wrapper pg cfg cl bypass args w)) = w_context w
   \<and> w_context (snd (async_wrapper pg cfg lko cl bypass args w)) = w_context w"
  by (simp add: sync_context_restored) (auto simp: async_wrapper_def set_current_function_stats_def Let_def split: sum.split)

section \<open>How often the function runs\<close>

text \<open>The world after at most \<open>n\<close> executions.\<close>

fun runs :: "('a, 'k, 'r, 'g, 'w) program \<Rightarrow> 'g \<Rightarrow> nat \<Rightarrow> 'w \<Rightarrow> 'w" where
  "runs pg args 0 x = x"
| "runs pg args (Suc n) x = runs pg args n (snd (pg_func pg args x))"

lemma execute_and_store_world:
  assumes "execute_and_store pg cfg bk cl key args w = (r, w')"
  shows "w_world w' = snd (pg_func pg args (w_world w)) \<and> fs_misses (w_stats w') = fs_misses (w_stats w)"
proof -
  obtain q w1 where f: "run_func pg args w = (q, w1)" by force
  have w1: "w_world w1 = snd (pg_func pg args (w_world w))" "fs_misses (w_stats w1) = fs_misses (w_stats w)"
    using f by (auto simp: run_func_def split: prod.splits)
  show ?thesis
  proof (cases q)
    case (Inl e)
    with assms f w1 show ?thesis by (simp add: execute_and_store_def)
  next
    case (Inr v)
    with assms f have "async_store pg cfg bk cl key args v w1 = (r, w')" by (simp add: execute_and_store_def)
    from calm_frame [OF async_parts_calm(3) [OF this]] w1 show ?thesis by simp
  qed
qed

lemma unlocked_call_world:
  assumes "unlocked_call pg cfg bk cl key args w = (r, w')"
  shows "w_world w' = snd (pg_func pg args (w_world w)) \<and> fs_misses (w_stats w') = fs_misses (w_stats w)"
proof -
  obtain q w1 where e: "execute_and_store pg cfg bk cl key args w = (q, w1)" by force
  with execute_and_store_world [OF e] assms show ?thesis
    by (auto simp: unlocked_call_def on_features_def split: sum.splits)
qed

lemma locked_call_world:
  assumes "locked_call pg cfg bk lk cl key args w = (r, w')"
  shows "(w_world w' = w_world w \<or> w_world w' = snd (pg_func pg args (w_world w))) \<and> fs_misses (w_stats w') = fs_misses (w_stats w)"
proof -
  obtain g w1 where en: "on_op (on_backend (lk_enter lk key)) w = (g, w1)" by force
  have w1: "calm w w1" by (rule on_op_calm [OF en])
  obtain p w2 where rc: "recheck pg cfg bk cl key w1 = (p, w2)" by force
  have w2: "calm w w2" by (rule calm_trans [OF w1 async_parts_calm(2) [OF rc]])
  obtain q w3 where b: "locked_body pg cfg bk cl key args w1 = (q, w3)" by force
  have w3: "(w_world w3 = w_world w \<or> w_world w3 = snd (pg_func pg args (w_world w))) \<and> fs_misses (w_stats w3) = fs_misses (w_stats w)"
    using b rc calm_frame [OF w2] execute_and_store_world [of pg cfg bk cl key args w2 q w3]
    by (auto simp: locked_body_def split: sum.splits option.splits)
  let ?p = "case q of Inl e \<Rightarrow> Some e | Inr _ \<Rightarrow> None"
  obtain x w4 where ex: "on_op (on_backend (lk_exit lk key (projr g) ?p)) w3 = (x, w4)" by force
  have "w_world w4 = w_world w3" "fs_misses (w_stats w4) = fs_misses (w_stats w3)" using calm_frame [OF on_op_calm [OF ex]] by auto
  then show ?thesis using assms en b ex w3 calm_frame [OF w1]
    by (cases g) (auto simp: locked_call_def split: option.splits sum.splits)
qed

text \<open>A branch ran the function at most once, or twice when a lock is in play, and counted no miss.\<close>

definition ran ::
  "('a, 'k, 'r, 'g, 'w) program \<Rightarrow> 'g \<Rightarrow> 's lock option \<Rightarrow> ('g, 'k, 'r, 's, 'w) wrapper \<Rightarrow> ('g, 'k, 'r, 's, 'w) wrapper \<Rightarrow> bool" where
  "ran pg args lko w w' \<longleftrightarrow> w_world w' \<in> (\<lambda>n. runs pg args n (w_world w)) ` {0, 1, if lko = None then 1 else 2}
     \<and> fs_misses (w_stats w') = fs_misses (w_stats w)"

lemma ran_calm: "calm w w' \<Longrightarrow> ran pg args lko w w'"
  by (auto simp: ran_def calm_def same_frame_def)

lemma calm_ran: "calm w u \<Longrightarrow> ran pg args lko u w' \<Longrightarrow> ran pg args lko w w'"
  by (auto simp: ran_def calm_def same_frame_def)

lemma no_client_ran: "ran pg args lko w (snd (no_client pg cl args e w))"
  by (auto simp: ran_def no_client_def run_func_def report_error_def on_features_def split: prod.split)

lemma async_miss_ran: "ran pg args lko w (snd (async_miss pg cfg bk lko cl key args w))"
proof (cases lko)
  case None
  obtain r w' where "unlocked_call pg cfg bk cl key args w = (r, w')" by force
  with None unlocked_call_world [OF this] show ?thesis by (simp add: async_miss_def ran_def)
next
  case (Some lk)
  obtain q w1 where l: "locked_call pg cfg bk lk cl key args w = (q, w1)" by force
  obtain r w' where u: "unlocked_call pg cfg bk cl key args w1 = (r, w')" by force
  from locked_call_world [OF l] unlocked_call_world [OF u] Some l u show ?thesis
    by (cases q) (auto simp: async_miss_def ran_def numeral_2_eq_2)
qed

lemma async_backed_read_ran: "ran pg args lko w (snd (async_backed_read pg cfg bk lko cl key args w))"
proof -
  obtain p w1 where rl: "async_read_l2 pg cfg bk cl key w = (p, w1)" by force
  have w1: "calm w w1" by (rule async_parts_calm(1) [OF rl])
  have miss: "ran pg args lko w (snd (async_miss pg cfg bk lko cl key args v))" if "calm w v" for v
    by (rule calm_ran [OF that async_miss_ran])
  have hit: "ran pg args lko w (async_l2_hit pg cfg bk cl key args b stale w1)" for b stale
    by (rule ran_calm, rule calm_trans [OF w1 async_l2_hit_calm])
  from rl w1 miss hit show ?thesis by (simp add: async_backed_read_def ran_calm [OF w1] split: sum.split option.split)
qed

lemma async_tiers_ran: "ran pg args lko w (snd (async_tiers pg cfg lko cl key args w))"
proof -
  obtain p w1 where l1: "read_l1 pg cfg cl key w = (p, w1)" by force
  obtain b w2 where lb: "lazy_backend cl w1 = (b, w2)" by force
  have w1: "calm w w1" by (rule read_l1_calm [OF l1])
  have w2: "calm w w2" by (rule calm_trans [OF w1 async_parts_calm(4) [OF lb]])
  from l1 lb show ?thesis
    by (simp add: async_tiers_def ran_calm [OF w1] calm_ran [OF w2 no_client_ran] calm_ran [OF w2 async_backed_read_ran]
        split: l1_read.split sum.split)
qed

lemma async_backed_call_ran: "ran pg args lko w (snd (async_backed_call pg cfg lko cl key args w))"
proof -
  obtain b w1 where lb: "lazy_backend cl w = (b, w1)" by force
  have w1: "calm w w1" by (rule async_parts_calm(4) [OF lb])
  from lb show ?thesis
    by (simp add: async_backed_call_def ran_calm [OF w1] ran_calm calm_ran [OF w1 no_client_ran] calm_ran [OF w1 async_tiers_ran] async_tiers_ran
        split: sum.split option.split)
qed

lemma ran_context [simp]: "ran pg args lko (set_context c w) w' = ran pg args lko w w'"
  by (simp add: ran_def set_context_def)

lemma ran_restore [simp]: "ran pg args lko w (snd (restore t r)) = ran pg args lko w (snd r)"
  by (simp add: ran_def restore_def set_context_def)

lemma set_context_world [simp]: "w_world (set_context c w) = w_world w"
  by (simp add: set_context_def)

text \<open>
  C24: A decorated call executes the function a bounded number of times. The synchronous wrapper runs it at most once, except that an
  execution that ends with a \<^verbatim>\<open>BackendError\<close> is repeated exactly once, since it cannot tell an error of the function from one of its own
  backend. The asynchronous wrapper runs it at most once without a distributed lock, and at most twice with one (a lock that fails
  after the function ran makes the wrapper start over without it).
\<close>

theorem function_runs_at_most_twice:
  "(w_world (snd (sync_wrapper pg cfg cl bypass args w)) = w_world w
    \<or> w_world (snd (sync_wrapper pg cfg cl bypass args w)) = runs pg args 1 (w_world w)
    \<or> (\<exists>e. fst (pg_func pg args (w_world w)) = Inl (BackendExn e))
      \<and> w_world (snd (sync_wrapper pg cfg cl bypass args w)) = runs pg args 2 (w_world w))
   \<and> (\<exists>n\<le>(if lko = None \<or> wc_l1_only cfg then 1 else 2). w_world (snd (async_wrapper pg cfg lko cl bypass args w)) = runs pg args n (w_world w))"
proof
  show "w_world (snd (sync_wrapper pg cfg cl bypass args w)) = w_world w
    \<or> w_world (snd (sync_wrapper pg cfg cl bypass args w)) = runs pg args 1 (w_world w)
    \<or> (\<exists>e. fst (pg_func pg args (w_world w)) = Inl (BackendExn e))
      \<and> w_world (snd (sync_wrapper pg cfg cl bypass args w)) = runs pg args 2 (w_world w)"
    using sync_wrapper_executed [of pg args w cfg cl bypass] by (simp add: executed_def numeral_2_eq_2)
next
  let ?n = "if lko = None \<or> wc_l1_only cfg then 1 else 2 :: nat" and ?w = "set_context (Some (fs_function_identifier (w_stats w))) w"
  define few where "few x \<longleftrightarrow> (\<exists>n\<le>?n. x = runs pg args n (w_world w))" for x
  have one: "few (w_world w)" "few (snd (pg_func pg args (w_world w)))"
    unfolding few_def by (intro exI [of _ 0], simp, intro exI [of _ 1], simp)
  have l1: "few (w_world (snd (l1_only_call pg cfg cl True key args ?w)))" for key
    using l1_only_world [of pg cfg cl True key args ?w] one by auto
  have backed: "few (w_world (snd (async_backed_call pg cfg lko cl key args ?w)))" if "\<not> wc_l1_only cfg" for key
  proof -
    have "ran pg args lko w (snd (async_backed_call pg cfg lko cl key args ?w))"
      using async_backed_call_ran [of pg args lko ?w cfg cl key] by simp
    then obtain n where n: "n \<in> {0, 1, if lko = None then 1 else 2}"
      "w_world (snd (async_backed_call pg cfg lko cl key args ?w)) = runs pg args n (w_world w)" unfolding ran_def by blast
    have "n \<le> ?n" using n(1) that by (auto split: if_splits)
    with n(2) show ?thesis unfolding few_def by blast
  qed
  have "few (w_world (snd (async_wrapper pg cfg lko cl bypass args w)))"
  proof (cases "choose_key cfg args")
    case (Inl e)
    with one show ?thesis by (simp add: async_wrapper_def set_current_function_stats_def Let_def)
  next
    case (Inr key)
    with one l1 [of key] backed [of key] show ?thesis by (simp add: async_wrapper_def set_current_function_stats_def Let_def)
  qed
  then show "\<exists>n\<le>?n. w_world (snd (async_wrapper pg cfg lko cl bypass args w)) = runs pg args n (w_world w)" by (simp add: few_def)
qed

section \<open>Misses and the open circuit\<close>

lemma run_func_misses: "fs_misses (w_stats (snd (run_func pg args w))) = fs_misses (w_stats w)"
  by (simp add: run_func_def split: prod.split)

lemma restore_misses [simp]: "w_stats (snd (restore t r)) = w_stats (snd r)"
  by (simp add: restore_def set_context_def)

text \<open>
  The statistics of an asynchronous function that uses a backend never show a miss: no call, whatever it does, changes the miss
  counter that \<^verbatim>\<open>cache_info()\<close> reports, although every first call of a key executes the function. (The synchronous wrapper counts.)
\<close>

theorem async_misses_uncounted:
  assumes "\<not> wc_l1_only cfg"
  shows "fs_misses (w_stats (snd (async_wrapper pg cfg lko cl bypass args w))) = fs_misses (w_stats w)"
proof (cases "choose_key cfg args")
  case (Inl e)
  then show ?thesis
    by (simp add: async_wrapper_def set_current_function_stats_def Let_def run_func_misses report_error_def on_features_def set_context_def)
next
  case (Inr key)
  have "fs_misses (w_stats (snd (async_backed_call pg cfg lko cl key args (set_context (Some (fs_function_identifier (w_stats w))) w)))) = fs_misses (w_stats w)"
    using async_backed_call_ran [of pg args lko "set_context (Some (fs_function_identifier (w_stats w))) w" cfg cl key] by (simp add: ran_def)
  with assms Inr show ?thesis
    by (simp add: async_wrapper_def set_current_function_stats_def Let_def run_func_misses)
qed

theorem async_misses_uncounted_witness:
  "fs_misses (w_stats (snd (async_wrapper succ_program (succ_config False) (Some map_lock) (quiet_call 1 (redis_backend (Inr map_client))) False 2
     (succ_wrapper [])))) = 0"
  using async_misses_uncounted [of "succ_config False" succ_program "Some map_lock" "quiet_call 1 (redis_backend (Inr map_client))" False 2 "succ_wrapper []"]
  by (simp add: succ_config_def succ_wrapper_def new_stats_def)

text \<open>
  With the circuit open, an asynchronous call neither fails fast with a backend error nor runs the function: it ends in an
  \<^verbatim>\<open>UnboundLocalError\<close>, without touching L1, the backend, the statistics or the circuit.
\<close>

theorem async_open_circuit_raises:
  assumes "choose_key cfg args = Inr key" "\<not> wc_l1_only cfg" "\<not> should_allow_request (os_features (w_op w))"
  shows "async_wrapper pg cfg lko cl False args w = (Inl (PyExn ''UnboundLocalError'' ''cannot access local variable BackendError''), w)"
  using assms
  by (simp add: async_wrapper_def set_current_function_stats_def Let_def async_backed_call_def set_context_def restore_def
      reset_current_function_stats_def unbound_name_def)

theorem async_open_circuit_raises_witness:
  "fst (async_wrapper succ_program (succ_config False) None (quiet_call 1 (redis_backend (Inr map_client))) False 2 open_wrapper)
     = Inl (PyExn ''UnboundLocalError'' ''cannot access local variable BackendError'')"
proof -
  have "\<not> should_allow_request (os_features (w_op open_wrapper))"
    by (simp add: open_wrapper_def should_allow_request_def should_attempt_call_def get_state_def transition_to_open_def)
  moreover have "\<not> wc_l1_only (succ_config False)" by (simp add: succ_config_def)
  ultimately show ?thesis by (simp add: async_open_circuit_raises [OF succ_key])
qed

end
