(* ===== verification/Refresh_Pools.thy ===== *)
theory Refresh_Pools
  imports Async_Properties
begin

text \<open>
  The background refreshes of a decorated function: at most 32 of either kind are outstanding, at most one per key for
  the backed mode, and every way a refresh ends gives its slot back. Also the bounds of the stale window.
\<close>

section \<open>The pools and the calls\<close>

fun l2_job_key :: "'g job \<Rightarrow> string option" where
  "l2_job_key (L2Revalidate k a) = Some k"
| "l2_job_key _ = None"

fun is_l1_job :: "'g job \<Rightarrow> bool" where
  "is_l1_job (L1Refresh k v a) = True"
| "is_l1_job _ = False"

definition l2_keys :: "'g job list \<Rightarrow> string list" where
  "l2_keys js = List.map_filter l2_job_key js"

definition pools_ok :: "int \<Rightarrow> ('g, 'k, 'r, 's, 'w) wrapper \<Rightarrow> bool" where
  "pools_ok pid w \<longleftrightarrow> sp_pid (w_l2_swr w) = pid \<and> sp_pid (w_l1_swr w) = pid
     \<and> set (sp_inflight (w_l2_swr w)) = set (l2_keys (w_jobs w)) \<and> distinct (l2_keys (w_jobs w))
     \<and> sp_slots (w_l2_swr w) + length (l2_keys (w_jobs w)) = L2_SWR_MAX_CONCURRENT_REFRESHES
     \<and> sp_slots (w_l1_swr w) + length (filter is_l1_job (w_jobs w)) = L1_SWR_MAX_CONCURRENT_REFRESHES"

lemma l2_keys_simps [simp]:
  "l2_keys [] = []" "l2_keys (js @ [L2Revalidate k a]) = l2_keys js @ [k]" "l2_keys (js @ [L1Refresh k v a]) = l2_keys js"
  by (simp_all add: l2_keys_def map_filter_def)

definition same_pools :: "('g, 'k, 'r, 's, 'w) wrapper \<Rightarrow> ('g, 'k, 'r, 's, 'w) wrapper \<Rightarrow> bool" where
  "same_pools w w' \<longleftrightarrow> w_l2_swr w' = w_l2_swr w \<and> w_l1_swr w' = w_l1_swr w \<and> w_jobs w' = w_jobs w"

lemma same_pools_refl [simp]: "same_pools w w"
  by (simp add: same_pools_def)

lemma pools_ok_cong: "same_pools w w' \<Longrightarrow> pools_ok pid w' = pools_ok pid w"
  by (simp add: same_pools_def pools_ok_def)

lemma pool_simps [simp]:
  "same_pools w (on_features g v) = same_pools w v"
  "same_pools w (on_stats f v) = same_pools w v"
  "same_pools w (report_error now e op sp d v) = same_pools w v"
  "same_pools w (note_success op d m v) = same_pools w v"
  "same_pools w (track_key k v) = same_pools w v"
  "same_pools w (untrack_key k v) = same_pools w v"
  "same_pools w (put_l1 cfg now key b v) = same_pools w v"
  "same_pools w (drop_l1 key v) = same_pools w v"
  "same_pools w (l1_cancel key version v) = same_pools w v"
  "same_pools w (set_context c v) = same_pools w v"
  "same_pools w (snd (restore t r)) = same_pools w (snd r)"
  "same_pools w (v\<lparr>w_op := st\<rparr>) = same_pools w v"
  "same_pools w (v\<lparr>w_l1 := l\<rparr>) = same_pools w v"
  "same_pools w (v\<lparr>w_backend := ob\<rparr>) = same_pools w v"
  "same_pools w (v\<lparr>w_object_cache := oc\<rparr>) = same_pools w v"
  "same_pools w (v\<lparr>w_world := x\<rparr>) = same_pools w v"
  by (auto simp: same_pools_def on_features_def on_stats_def report_error_def note_success_def track_key_def untrack_key_def
      put_l1_def drop_l1_def l1_cancel_def set_context_def restore_def split: option.split)

lemma pools_simps [simp]:
  "pools_ok pid (on_features g v) = pools_ok pid v"
  "pools_ok pid (on_stats f v) = pools_ok pid v"
  "pools_ok pid (report_error now e op sp d v) = pools_ok pid v"
  "pools_ok pid (note_success op d m v) = pools_ok pid v"
  "pools_ok pid (track_key k v) = pools_ok pid v"
  "pools_ok pid (l1_cancel key version v) = pools_ok pid v"
  "pools_ok pid (set_context c v) = pools_ok pid v"
  "pools_ok pid (snd (restore t r)) = pools_ok pid (snd r)"
  "pools_ok pid (v\<lparr>w_object_cache := oc\<rparr>) = pools_ok pid v"
  by (rule pools_ok_cong, simp)+

lemma run_func_pools: "run_func pg args w = (r, w') \<Longrightarrow> same_pools w w'"
  by (auto simp: run_func_def split: prod.splits)

lemma on_op_pools: "on_op f w = (r, w') \<Longrightarrow> same_pools w w'"
  by (auto simp: on_op_def split: prod.splits)

lemma on_op_pools' [simp]: "same_pools v (snd (on_op f w)) = same_pools v w"
  by (simp add: on_op_def split: prod.split)

lemma same_pools_trans: "same_pools a b \<Longrightarrow> same_pools b c \<Longrightarrow> same_pools a c"
  by (simp add: same_pools_def)

lemma read_pools:
  "read_l1 pg cfg cl key w = (r1, w') \<Longrightarrow> same_pools w w'"
  "read_l2 pg cfg bk cl key w = (r2, w') \<Longrightarrow> same_pools w w'"
  "open_backend cl w = (r3, w') \<Longrightarrow> same_pools w w'"
  "store_value pg cfg bk cl key args v w = (r4, w') \<Longrightarrow> same_pools w w'"
proof -
  show "read_l1 pg cfg cl key w = (r1, w') \<Longrightarrow> same_pools w w'"
    by (auto simp: read_l1_def l1_failure_def split: option.splits prod.splits sum.splits if_splits dest!: on_op_pools)
       (simp_all add: same_pools_def)
qed (auto simp: read_l2_def open_backend_def store_value_def Let_def split: if_splits prod.splits sum.splits option.splits dest: on_op_pools)

lemma schedule_l2_pools:
  assumes "pools_ok pid w" "cl_pid cl = pid"
  shows "pools_ok pid (l2_swr_schedule pg cl key args w)"
proof -
  let ?p = "w_l2_swr w"
  have p: "after_fork n pid ?p = ?p" for n using assms by (simp add: after_fork_def pools_ok_def)
  show ?thesis
  proof (cases "key \<in> set (sp_inflight ?p) \<or> sp_slots ?p = 0")
    case True
    then show ?thesis using assms by (auto simp: l2_swr_schedule_def l2_swr_try_begin_def Let_def p)
  next
    case False
    have b: "sp_slots ?p \<le> 32" using assms(1) by (simp add: pools_ok_def L2_SWR_MAX_CONCURRENT_REFRESHES_def)
    from False b assms show ?thesis
      by (auto simp: l2_swr_schedule_def l2_swr_try_begin_def l2_swr_end_def release_slot_def Let_def p pools_ok_def
          L2_SWR_MAX_CONCURRENT_REFRESHES_def)
  qed
qed

lemma schedule_l1_pools:
  assumes "pools_ok pid w" "cl_pid cl = pid"
  shows "pools_ok pid (schedule_l1_refresh pg cl is_async key version args w)"
proof -
  let ?p = "w_l1_swr w"
  have p: "after_fork n pid ?p = ?p" for n using assms by (simp add: after_fork_def pools_ok_def)
  have b: "sp_slots ?p \<le> 32" using assms(1) by (simp add: pools_ok_def L1_SWR_MAX_CONCURRENT_REFRESHES_def)
  then show ?thesis using assms
    by (auto simp: schedule_l1_refresh_def l1_swr_acquire_def release_slot_def Let_def p)
       (auto simp: pools_ok_def L1_SWR_MAX_CONCURRENT_REFRESHES_def)
qed

lemma run_func_keeps: "pools_ok pid (snd (run_func pg args w)) = pools_ok pid w"
  using run_func_pools [of pg args w "fst (run_func pg args w)" "snd (run_func pg args w)"] pools_ok_cong by auto

lemma miss_path_pools: "same_pools w (snd (miss_path pg cfg bk cl key args w))"
proof -
  have run: "same_pools w v \<Longrightarrow> same_pools w (snd (run_func pg args v))" for v
    using run_func_pools [of pg args v] same_pools_trans by (metis prod.collapse)
  have fail: "same_pools w v \<Longrightarrow> same_pools w (snd (miss_failure pg cl args e v))" for e v
    by (simp add: miss_failure_def run)
  obtain r w1 where f: "run_func pg args (on_stats (record_miss (cl_got cl)) w) = (r, w1)" by force
  have w1: "same_pools w w1" using run [of "on_stats (record_miss (cl_got cl)) w"] f by simp
  have "same_pools w w2" if "store_value pg cfg bk cl key args v w1 = (q, w2)" for v q w2
    using read_pools(4) [OF that] w1 same_pools_trans by blast
  with f w1 fail show ?thesis by (auto simp: miss_path_def split: sum.split prod.split)
qed

lemma l1_only_pools:
  assumes "pools_ok pid w" "cl_pid cl = pid"
  shows "pools_ok pid (snd (l1_only_call pg cfg cl is_async key args w))"
proof (cases "w_object_cache w")
  case None
  with assms show ?thesis by (simp add: l1_only_call_def run_func_keeps)
next
  case (Some c)
  obtain r c1 where ro: "read_object cfg cl key c = (r, c1)" by force
  obtain q w2 where f: "run_func pg args (on_stats (record_miss (cl_read cl)) (w\<lparr>w_object_cache := Some c1\<rparr>)) = (q, w2)" by force
  have "pools_ok pid w2" using run_func_keeps [of pid pg args "on_stats (record_miss (cl_read cl)) (w\<lparr>w_object_cache := Some c1\<rparr>)"] f assms by simp
  moreover have "pools_ok pid (schedule_l1_refresh pg cl is_async key (sr_version r) args
      (on_stats (record_l1_hit (cl_read cl)) (w\<lparr>w_object_cache := Some c1\<rparr>)))"
    by (rule schedule_l1_pools) (simp_all add: assms)
  ultimately show ?thesis using Some ro f assms
    by (simp add: l1_only_call_def Let_def split: sum.split)
qed

lemma backed_read_pools:
  assumes "pools_ok pid w" "cl_pid cl = pid"
  shows "pools_ok pid (snd (backed_read pg cfg bk token cl key args w))"
proof -
  obtain r w1 where rl: "read_l2 pg cfg bk cl key w = (r, w1)" by force
  have w1: "pools_ok pid w1" using assms(1) pools_ok_cong [OF read_pools(2) [OF rl]] by simp
  have miss: "pools_ok pid (snd (miss_path pg cfg bk cl key args w1))" using w1 by (simp add: pools_ok_cong [OF miss_path_pools])
  have hit: "pools_ok pid w2" if "l2_hit pg cfg cl key args v stale w1 = (q, w2)" for v stale q w2
    using that w1 by (auto simp: l2_hit_def Let_def schedule_l2_pools [OF _ assms(2)] split: option.splits if_splits)
  with rl w1 miss show ?thesis
    by (auto simp: backed_read_def Let_def run_func_keeps split: sum.split prod.split option.split)
qed

lemma sync_wrapper_pools:
  assumes "pools_ok pid w" "cl_pid cl = pid"
  shows "pools_ok pid (snd (sync_wrapper pg cfg cl bypass args w))"
proof -
  have backed: "pools_ok pid (snd (backed_call pg cfg token cl key args v))" if "pools_ok pid v" for token key v
  proof -
    obtain b w1 where ob: "open_backend cl v = (b, w1)" by force
    obtain r w2 where l1: "read_l1 pg cfg cl key w1 = (r, w2)" by force
    have "pools_ok pid w1" "pools_ok pid w2"
      using that pools_ok_cong [OF read_pools(3) [OF ob]] pools_ok_cong [OF read_pools(1) [OF l1]] by auto
    with ob l1 backed_read_pools [OF _ assms(2)] show ?thesis
      by (auto simp: backed_call_def run_func_keeps split: sum.split option.split l1_read.split)
  qed
  moreover have "pools_ok pid (snd (l1_only_call pg cfg cl False key args v))" if "pools_ok pid v" for key v
    using l1_only_pools [OF that assms(2)] .
  ultimately show ?thesis using assms(1)
    by (auto simp: sync_wrapper_def set_current_function_stats_def Let_def run_func_keeps split: sum.split)
qed

lemma schedule_l2_pools_async:
  assumes "pools_ok pid w" "cl_pid cl = pid"
  shows "pools_ok pid (l2_swr_schedule pg (cl\<lparr>cl_thread_starts := True\<rparr>) key args w)"
  by (rule schedule_l2_pools) (use assms in simp_all)

lemma async_parts_pools:
  "async_read_l2 pg cfg bk cl key w = (r1, w') \<Longrightarrow> same_pools w w'"
  "recheck pg cfg bk cl key w = (r2, w') \<Longrightarrow> same_pools w w'"
  "async_store pg cfg bk cl key args v w = (r3, w') \<Longrightarrow> same_pools w w'"
  "lazy_backend cl w = (r4, w') \<Longrightarrow> same_pools w w'"
  by (auto simp: async_read_l2_def recheck_def async_store_def lazy_backend_def fill_l1_def Let_def
      split: if_splits prod.splits sum.splits option.splits dest: on_op_pools)

lemma execute_and_store_pools: "same_pools w (snd (execute_and_store pg cfg bk cl key args w))"
proof -
  obtain q w1 where f: "run_func pg args w = (q, w1)" by force
  have "same_pools w w2" if "async_store pg cfg bk cl key args v w1 = (p, w2)" for v p w2
    using same_pools_trans [OF run_func_pools [OF f] async_parts_pools(3) [OF that]] .
  with f run_func_pools [OF f] show ?thesis by (auto simp: execute_and_store_def split: sum.split) (metis prod.collapse)
qed

lemma unlocked_call_pools: "same_pools w (snd (unlocked_call pg cfg bk cl key args w))"
  using execute_and_store_pools [of w pg cfg bk cl key args] by (auto simp: unlocked_call_def split: prod.splits sum.split)

lemma locked_call_pools: "same_pools w (snd (locked_call pg cfg bk lk cl key args w))"
proof -
  obtain g w1 where en: "on_op (on_backend (lk_enter lk key)) w = (g, w1)" by force
  obtain p w2 where rc: "recheck pg cfg bk cl key w1 = (p, w2)" by force
  have w1: "same_pools w w1" "same_pools w w2"
    using on_op_pools [OF en] same_pools_trans [OF on_op_pools [OF en] async_parts_pools(2) [OF rc]] .
  obtain q w3 where b: "locked_body pg cfg bk cl key args w1 = (q, w3)" by force
  have "same_pools w (snd (execute_and_store pg cfg bk cl key args w2))" by (rule same_pools_trans [OF w1(2) execute_and_store_pools])
  with b rc w1 have w3: "same_pools w w3" by (auto simp: locked_body_def split: sum.splits option.splits)
  from en b w1 w3 show ?thesis
    by (auto simp: locked_call_def split: sum.split option.split prod.split dest!: on_op_pools intro: same_pools_trans [OF w3])
qed

lemma async_miss_pools: "same_pools w (snd (async_miss pg cfg bk lko cl key args w))"
proof (cases lko)
  case None
  then show ?thesis by (simp add: async_miss_def unlocked_call_pools)
next
  case (Some lk)
  obtain r w1 where l: "locked_call pg cfg bk lk cl key args w = (r, w1)" by force
  have w1: "same_pools w w1" using locked_call_pools [of w pg cfg bk lk cl key args] l by simp
  with Some l same_pools_trans [OF w1 unlocked_call_pools [of w1 pg cfg bk cl key args]] show ?thesis
    by (auto simp: async_miss_def split: option.split)
qed

lemma l2_keys_ttl [simp]: "l2_keys (js @ [TtlRefresh k t]) = l2_keys js"
  by (simp add: l2_keys_def map_filter_def)

lemma refresh_on_hit_cases:
  "\<exists>v. same_pools w v \<and> (refresh_on_hit cfg bk key w = v \<or> (\<exists>t. refresh_on_hit cfg bk key w = v\<lparr>w_jobs := w_jobs v @ [TtlRefresh key t]\<rparr>))"
proof (cases "bk_get_ttl bk")
  case None
  then have "refresh_on_hit cfg bk key w = w" by (simp add: refresh_on_hit_def split: bool.split option.split)
  then show ?thesis using same_pools_refl by blast
next
  case (Some g)
  obtain q v where g: "on_op (on_backend (g key)) w = (q, v)" by force
  have "refresh_on_hit cfg bk key w \<in> {w, v} \<union> range (\<lambda>t. v\<lparr>w_jobs := w_jobs v @ [TtlRefresh key t]\<rparr>)"
  proof (cases "wc_refresh_ttl_on_get cfg \<and> (\<exists>t f. wc_ttl cfg = Some t \<and> bk_refresh_ttl bk = Some f \<and> t \<noteq> 0)")
    case True
    with Some g show ?thesis by (cases q) (auto simp: refresh_on_hit_def split: option.split)
  next
    case False
    with Some show ?thesis
      by (cases "wc_refresh_ttl_on_get cfg"; cases "wc_ttl cfg"; cases "bk_refresh_ttl bk") (auto simp: refresh_on_hit_def)
  qed
  then show ?thesis using on_op_pools [OF g] same_pools_refl by blast
qed

lemma refresh_on_hit_pools [simp]: "pools_ok pid w \<Longrightarrow> pools_ok pid (refresh_on_hit cfg bk key w)"
  using refresh_on_hit_cases [of w cfg bk key] by (auto simp: same_pools_def pools_ok_def)

lemma fill_l1_pools [simp]: "pools_ok pid (fill_l1 cfg cl key b v) = pools_ok pid v"
  by (rule pools_ok_cong) (simp add: fill_l1_def)

lemma async_l2_hit_pools:
  assumes "pools_ok pid w" "cl_pid cl = pid"
  shows "pools_ok pid (async_l2_hit pg cfg bk cl key args b stale w)"
  using assms by (simp add: async_l2_hit_def Let_def schedule_l2_pools_async [OF _ assms(2)])

lemma async_backed_call_pools:
  assumes "pools_ok pid w" "cl_pid cl = pid"
  shows "pools_ok pid (snd (async_backed_call pg cfg lko cl key args w))"
proof -
  have keep: "pools_ok pid v' = pools_ok pid v" if "same_pools v v'" for v v' :: "('d, 'b, 'c, 'f, 'e) wrapper"
    using pools_ok_cong [OF that] .
  have none: "pools_ok pid (snd (no_client pg cl args e v)) = pools_ok pid v" for e v by (simp add: no_client_def run_func_keeps)
  have read: "pools_ok pid (snd (async_backed_read pg cfg bk lko cl key args v))" if "pools_ok pid v" for bk v
  proof -
    obtain p v1 where rl: "async_read_l2 pg cfg bk cl key v = (p, v1)" by force
    have v1: "pools_ok pid v1" using that pools_ok_cong [OF async_parts_pools(1) [OF rl]] by blast
    then show ?thesis using rl
      by (simp add: async_backed_read_def pools_ok_cong [OF async_miss_pools] async_l2_hit_pools [OF _ assms(2)] split: sum.split option.split)
  qed
  have tiers: "pools_ok pid (snd (async_tiers pg cfg lko cl key args v))" if "pools_ok pid v" for v
  proof -
    obtain p v1 where l1: "read_l1 pg cfg cl key v = (p, v1)" by force
    obtain b v2 where lb: "lazy_backend cl v1 = (b, v2)" by force
    have "pools_ok pid v1" using that pools_ok_cong [OF read_pools(1) [OF l1]] by blast
    moreover from this have "pools_ok pid v2" using pools_ok_cong [OF async_parts_pools(4) [OF lb]] by blast
    ultimately show ?thesis using l1 lb read none by (simp add: async_tiers_def split: l1_read.split sum.split)
  qed
  obtain b w1 where lb: "lazy_backend cl w = (b, w1)" by force
  have "pools_ok pid w1" using assms(1) pools_ok_cong [OF async_parts_pools(4) [OF lb]] by blast
  with assms(1) lb tiers none show ?thesis by (simp add: async_backed_call_def split: sum.split option.split)
qed

lemma async_wrapper_pools:
  assumes "pools_ok pid w" "cl_pid cl = pid"
  shows "pools_ok pid (snd (async_wrapper pg cfg lko cl bypass args w))"
  using assms
  by (simp add: async_wrapper_def set_current_function_stats_def Let_def run_func_keeps async_backed_call_pools l1_only_pools split: sum.split)

section \<open>The end of a refresh\<close>

text \<open>A job leaves the list of outstanding refreshes when it ends.\<close>

definition finish_job :: "'g job \<Rightarrow> ('g, 'k, 'r, 's, 'w) wrapper \<Rightarrow> ('g, 'k, 'r, 's, 'w) wrapper" where
  "finish_job j w = w\<lparr>w_jobs := remove1 j (w_jobs w)\<rparr>"

lemma length_remove1_Suc: "x \<in> set xs \<Longrightarrow> length (remove1 x xs) + 1 = length xs"
  by (induction xs) auto

lemma l2_keys_remove1:
  assumes "distinct (l2_keys js)" "L2Revalidate k a \<in> set js"
  shows "l2_keys (remove1 (L2Revalidate k a) js) = removeAll k (l2_keys js) \<and> k \<in> set (l2_keys js)"
  using assms
proof (induction js)
  case (Cons j js)
  have cons: "l2_keys (j # js) = (case l2_job_key j of None \<Rightarrow> l2_keys js | Some k' \<Rightarrow> k' # l2_keys js)"
    by (simp add: l2_keys_def map_filter_simps split: option.split)
  show ?case
  proof (cases "j = L2Revalidate k a")
    case True
    with Cons.prems(1) cons show ?thesis by (simp add: removeAll_id)
  next
    case False
    with Cons.prems have IH: "l2_keys (remove1 (L2Revalidate k a) js) = removeAll k (l2_keys js)" "k \<in> set (l2_keys js)"
      using Cons.IH cons by (auto split: option.splits)
    have "l2_keys (j # remove1 (L2Revalidate k a) js) = removeAll k (l2_keys (j # js))"
      using IH Cons.prems(1) cons by (auto simp: l2_keys_def map_filter_simps split: option.splits)
    with False IH cons show ?thesis by (auto split: option.split)
  qed
qed simp

lemma l2_job_pools:
  assumes w: "pools_ok pid w" and j: "L2Revalidate key args \<in> set (w_jobs w)"
  shows "pools_ok pid (finish_job (L2Revalidate key args) (run_l2_revalidate pg cfg bk cl lease key args w))"
proof -
  let ?v = "run_l2_revalidate pg cfg bk cl lease key args w"
  obtain r w1 where f: "run_func pg args w = (r, w1)" by force
  have w1: "same_pools w w1" using run_func_pools [OF f] .
  have "\<exists>w3. same_pools w w3 \<and> ?v = w3\<lparr>w_l2_swr := l2_swr_end key (w_l2_swr w3)\<rparr>"
  proof (cases lease)
    case lease: True
    show ?thesis
    proof (cases r)
      case (Inl e)
      with f lease have "?v = w1\<lparr>w_l2_swr := l2_swr_end key (w_l2_swr w1)\<rparr>" by (simp add: run_l2_revalidate_def)
      with w1 show ?thesis by blast
    next
      case (Inr y)
      obtain d w2 where d: "on_op (on_ser (serialize_data (pg_env pg) (cl_nonce cl) args y key)) w1 = (d, w2)" by force
      let ?w3 = "case d of Inl e \<Rightarrow> w2 | Inr b \<Rightarrow> put_l1 cfg (cl_put cl) key b
          (snd (on_op (std_set bk key b (wc_ttl cfg) (wc_stale_ttl cfg)) w2))"
      have "same_pools w ?w3" using same_pools_trans [OF w1 on_op_pools [OF d]] by (simp split: sum.split)
      moreover have "?v = ?w3\<lparr>w_l2_swr := l2_swr_end key (w_l2_swr ?w3)\<rparr>"
        using f d lease Inr by (cases d) (simp_all add: run_l2_revalidate_def Let_def)
      ultimately show ?thesis by blast
    qed
  next
    case False
    then have "?v = w\<lparr>w_l2_swr := l2_swr_end key (w_l2_swr w)\<rparr>" by (simp add: run_l2_revalidate_def)
    then show ?thesis using same_pools_refl by blast
  qed
  then have v: "w_l2_swr ?v = l2_swr_end key (w_l2_swr w)" "w_l1_swr ?v = w_l1_swr w" "w_jobs ?v = w_jobs w"
    by (auto simp: same_pools_def)
  have keys: "l2_keys (remove1 (L2Revalidate key args) (w_jobs w)) = removeAll key (l2_keys (w_jobs w))" "key \<in> set (l2_keys (w_jobs w))"
    using l2_keys_remove1 [OF _ j] w by (auto simp: pools_ok_def)
  have len: "length (removeAll key (l2_keys (w_jobs w))) + 1 = length (l2_keys (w_jobs w))"
  proof -
    have "distinct (l2_keys (w_jobs w))" using w by (simp add: pools_ok_def)
    then have "removeAll key (l2_keys (w_jobs w)) = remove1 key (l2_keys (w_jobs w))" by (simp add: distinct_remove1_removeAll)
    with length_remove1_Suc [OF keys(2)] show ?thesis by simp
  qed
  have "filter is_l1_job (remove1 (L2Revalidate key args) js) = filter is_l1_job js" for js
    by (induction js) auto
  with w v keys len show ?thesis
    by (auto simp: finish_job_def pools_ok_def distinct_removeAll l2_swr_end_def release_slot_def L2_SWR_MAX_CONCURRENT_REFRESHES_def)
qed

lemma l1_job_pools:
  assumes w: "pools_ok pid w" and j: "L1Refresh key version args \<in> set (w_jobs w)"
  shows "pools_ok pid (finish_job (L1Refresh key version args) (run_l1_refresh pg cfg cl key version args w))"
proof -
  let ?v = "run_l1_refresh pg cfg cl key version args w"
  obtain r w1 where f: "run_func pg args w = (r, w1)" by force
  have "same_pools w w1" using run_func_pools [OF f] .
  then have v: "w_l1_swr ?v = release_slot L1_SWR_MAX_CONCURRENT_REFRESHES (w_l1_swr w)" "w_l2_swr ?v = w_l2_swr w" "w_jobs ?v = w_jobs w"
    using f by (auto simp: run_l1_refresh_def Let_def same_pools_def l1_cancel_def split: sum.split option.split prod.split)
  have "l2_keys (remove1 (L1Refresh key version args) js) = l2_keys js" for js
    by (induction js) (auto simp: l2_keys_def map_filter_simps split: option.split)
  moreover have "length (filter is_l1_job (remove1 (L1Refresh key version args) (w_jobs w))) + 1 = length (filter is_l1_job (w_jobs w))"
    using j length_remove1_Suc [of "L1Refresh key version args" "filter is_l1_job (w_jobs w)"] by (simp add: filter_remove1)
  ultimately show ?thesis using w v
    by (auto simp: finish_job_def pools_ok_def release_slot_def L1_SWR_MAX_CONCURRENT_REFRESHES_def)
qed

lemma ttl_remove1 [simp]:
  "l2_keys (remove1 (TtlRefresh key t) js) = l2_keys js" "filter is_l1_job (remove1 (TtlRefresh key t) js) = filter is_l1_job js"
  by (induction js) (auto simp: l2_keys_def map_filter_simps split: option.split)

lemma ttl_job_pools:
  assumes "pools_ok pid w"
  shows "pools_ok pid (finish_job (TtlRefresh key t) (run_ttl_refresh bk key t w))"
proof -
  have "same_pools w (run_ttl_refresh bk key t w)" by (simp add: run_ttl_refresh_def split: option.split)
  with assms show ?thesis by (simp add: finish_job_def pools_ok_def same_pools_def)
qed

inductive pool_history :: "('a, 'k, 'r, 'g, 'w) program \<Rightarrow> 'g wrapper_config \<Rightarrow> int \<Rightarrow> ('g, 'k, 'r, 's, 'w) wrapper
    \<Rightarrow> ('g, 'k, 'r, 's, 'w) wrapper \<Rightarrow> bool" for pg cfg pid w0 where
  start: "pool_history pg cfg pid w0 w0"
| call: "pool_history pg cfg pid w0 w \<Longrightarrow> cl_pid cl = pid \<Longrightarrow> pool_history pg cfg pid w0 (snd (sync_wrapper pg cfg cl bypass args w))"
| async_call: "pool_history pg cfg pid w0 w \<Longrightarrow> cl_pid cl = pid \<Longrightarrow> pool_history pg cfg pid w0 (snd (async_wrapper pg cfg lko cl bypass args w))"
| ttl_end: "pool_history pg cfg pid w0 w \<Longrightarrow> TtlRefresh key t \<in> set (w_jobs w)
    \<Longrightarrow> pool_history pg cfg pid w0 (finish_job (TtlRefresh key t) (run_ttl_refresh bk key t w))"
| l1_end: "pool_history pg cfg pid w0 w \<Longrightarrow> L1Refresh key version args \<in> set (w_jobs w)
    \<Longrightarrow> pool_history pg cfg pid w0 (finish_job (L1Refresh key version args) (run_l1_refresh pg cfg cl key version args w))"
| l2_end: "pool_history pg cfg pid w0 w \<Longrightarrow> L2Revalidate key args \<in> set (w_jobs w)
    \<Longrightarrow> pool_history pg cfg pid w0 (finish_job (L2Revalidate key args) (run_l2_revalidate pg cfg bk cl lease key args w))"

lemma pool_history_ok: "pool_history pg cfg pid w0 w \<Longrightarrow> pools_ok pid w0 \<Longrightarrow> pools_ok pid w"
  by (induction rule: pool_history.induct) (auto simp: sync_wrapper_pools async_wrapper_pools ttl_job_pools l1_job_pools l2_job_pools)

lemma fresh_pools:
  "w_l2_swr w = fresh_pool 32 pid \<Longrightarrow> w_l1_swr w = fresh_pool 32 pid \<Longrightarrow> w_jobs w = [] \<Longrightarrow> pools_ok pid w"
  by (simp add: pools_ok_def fresh_pool_def L1_SWR_MAX_CONCURRENT_REFRESHES_def L2_SWR_MAX_CONCURRENT_REFRESHES_def)



section \<open>The stale window\<close>

text \<open>
  A stale window that is in force is positive, sits on a positive TTL and a backend that reports freshness, and never
  extends the storage beyond 30 days; every other explicit \<^verbatim>\<open>stale_ttl\<close> (negative, boolean, not an integer, without TTL,
  too long, without such a backend) is rejected at decoration time, and 0 switches the window off.
\<close>

theorem stale_window_bounds:
  "(effective_stale_ttl ttl stale d capable = Inr (Some n) \<longrightarrow>
      (\<exists>t. ttl = Some t \<and> 0 < t \<and> 0 < n \<and> t + n \<le> 2592000 \<and> capable \<and> (stale = Some (StaleInt n) \<or> stale = None \<and> d \<and> n \<le> t)))
   \<and> (stale \<noteq> None \<longrightarrow> effective_stale_ttl ttl stale d capable = Inr None \<longrightarrow> stale = Some (StaleInt 0))"
  by (auto simp: effective_stale_ttl_def MAX_TOTAL_TTL_def Let_def split: option.splits stale_arg.splits if_splits)

theorem stale_window_bounds_witness:
  "effective_stale_ttl (Some 2000000) None True True = Inr (Some 592000) \<and> (592000 :: int) + 2000000 \<le> 2592000"
proof -
  have e: "effective_stale_ttl (Some 2000000) None True True = Inr (Some 592000)"
    by (simp add: effective_stale_ttl_def MAX_TOTAL_TTL_def)
  with stale_window_bounds [of "Some 2000000" None True True 592000] show ?thesis by auto
qed

end
