(* ===== verification/Local_Wrapper.thy ===== *)
theory Local_Wrapper
  imports Object_Cache
begin

text \<open>
  \<^verbatim>\<open>decorators/local_wrapper.py\<close>: \<^verbatim>\<open>@cache.local()\<close>, the bridge from a decorated function to the object
  cache. The function (it returns an object id or raises), the custom key function and
  \<^verbatim>\<open>CacheKeyGenerator.generate_key\<close> at the wrapper's namespace are arguments. The function runs outside the
  cache's lock, so calls of other threads may come between the lookup and the store of a call.
\<close>

section \<open>Decoration\<close>

text \<open>
  Keyword arguments of the decorator by type; \<open>KwObj\<close> carries the name of any other type. Unknown
  names are reported in call order (the message of the code sorts them).
\<close>

datatype 'a kwarg = KwInt int | KwStr string | KwNone | KwFun "'a \<Rightarrow> string" | KwObj string

datatype lw_error =
    UnknownParams "string list"
  | TtlNotInt string
  | MaxEntriesNotInt string
  | TtlTooSmall int
  | MaxEntriesTooSmall int

fun type_name :: "'a kwarg \<Rightarrow> string" where
  "type_name (KwInt _) = ''int''"
| "type_name (KwStr _) = ''str''"
| "type_name KwNone = ''NoneType''"
| "type_name (KwFun _) = ''function''"
| "type_name (KwObj n) = n"

definition allowed_params :: "string list" where
  "allowed_params = [''ttl'', ''max_entries'', ''namespace'', ''key'']"

record 'a local_wrapper =
  lw_ttl :: int
  lw_namespace :: "'a kwarg"
  lw_key :: "'a kwarg"
  lw_cache :: object_cache

definition kwarg_or :: "'a kwarg \<Rightarrow> (string \<times> 'a kwarg) list \<Rightarrow> string \<Rightarrow> 'a kwarg" where
  "kwarg_or dflt kw n = (case map_of kw n of None \<Rightarrow> dflt | Some v \<Rightarrow> v)"

definition empty_object_cache :: "int \<Rightarrow> object_cache" where
  "empty_object_cache n = \<lparr>max_entries = Some n, max_size_bytes = None, swr_threshold_ratio = 1 / 2,
     oc_store = [], oc_hits = 0, oc_misses = 0, current_size_bytes = 0, refreshing = [], generation = 0\<rparr>"

definition create_local_wrapper :: "(string \<times> 'a kwarg) list \<Rightarrow> lw_error + 'a local_wrapper" where
  "create_local_wrapper kw =
     (let unknown = filter (\<lambda>n. n \<notin> set allowed_params) (map fst kw) in
      if unknown \<noteq> [] then Inl (UnknownParams unknown)
      else
        let ttl = kwarg_or (KwInt 300) kw ''ttl''; me = kwarg_or (KwInt 256) kw ''max_entries'' in
        case ttl of
          KwInt t \<Rightarrow>
            (case me of
               KwInt n \<Rightarrow>
                 if t < 1 then Inl (TtlTooSmall t)
                 else if n < 1 then Inl (MaxEntriesTooSmall n)
                 else Inr \<lparr>lw_ttl = t, lw_namespace = kwarg_or KwNone kw ''namespace'',
                           lw_key = kwarg_or KwNone kw ''key'', lw_cache = empty_object_cache n\<rparr>
             | _ \<Rightarrow> Inl (MaxEntriesNotInt (type_name me)))
        | _ \<Rightarrow> Inl (TtlNotInt (type_name ttl)))"

text \<open>The constructor call inside always succeeds: the bounds were checked before.\<close>

lemma empty_object_cache_made:
  "1 \<le> n \<Longrightarrow> make_object_cache (Some n) None (Fin (1 / 2)) = Inr (empty_object_cache n)"
  by (simp add: make_object_cache_def empty_object_cache_def)

section \<open>Calls\<close>

definition make_key :: "('a \<Rightarrow> string) \<Rightarrow> 'a local_wrapper \<Rightarrow> 'a \<Rightarrow> string" where
  "make_key generate_key w a = (case lw_key w of KwFun f \<Rightarrow> f a | _ \<Rightarrow> generate_key a)"

text \<open>
  One call of the wrapper (\<^verbatim>\<open>sync_wrapper\<close>, and \<^verbatim>\<open>async_wrapper\<close> alike): lookup at time \<open>now\<close>; on a miss the
  function runs while other threads perform \<open>others\<close> on the cache; its result is stored with clock
  readings \<open>t1\<close>, \<open>t2\<close>. An exception of the function propagates and nothing is stored.
\<close>

definition local_call ::
  "('a \<Rightarrow> string) \<Rightarrow> ('a \<Rightarrow> 'e + nat) \<Rightarrow> heap \<Rightarrow> real \<Rightarrow> oc_op list \<Rightarrow> real \<Rightarrow> real \<Rightarrow> 'a \<Rightarrow> 'a local_wrapper
   \<Rightarrow> ('e + nat) \<times> 'a local_wrapper" where
  "local_call generate_key func h now others t1 t2 a w =
     (let k = make_key generate_key w a in
      case oc_get now k (lw_cache w) of
        (Some v, c) \<Rightarrow> (Inr v, w\<lparr>lw_cache := c\<rparr>)
      | (None, c) \<Rightarrow>
          let c1 = oc_run others c in
          (case func a of
             Inl e \<Rightarrow> (Inl e, w\<lparr>lw_cache := c1\<rparr>)
           | Inr v \<Rightarrow>
               (Inr v, w\<lparr>lw_cache := oc_step (OPut t1 t2 h k v (Fin (of_int (lw_ttl w)))) c1\<rparr>)))"

definition invalidate_cache :: "('a \<Rightarrow> string) \<Rightarrow> 'a \<Rightarrow> 'a local_wrapper \<Rightarrow> 'a local_wrapper" where
  "invalidate_cache generate_key a w =
     w\<lparr>lw_cache := snd (oc_delete (make_key generate_key w a) (lw_cache w))\<rparr>"

definition cache_clear :: "'a local_wrapper \<Rightarrow> 'a local_wrapper" where
  "cache_clear w = w\<lparr>lw_cache := oc_clear (lw_cache w)\<rparr>"

record cache_info =
  ci_hits :: int
  ci_misses :: int
  ci_l1_hits :: int
  ci_l2_hits :: int
  ci_maxsize :: "int option"
  ci_currsize :: nat

definition local_cache_info :: "'a local_wrapper \<Rightarrow> cache_info" where
  "local_cache_info w = \<lparr>ci_hits = oc_hits (lw_cache w), ci_misses = oc_misses (lw_cache w),
     ci_l1_hits = oc_hits (lw_cache w), ci_l2_hits = 0, ci_maxsize = max_entries (lw_cache w),
     ci_currsize = oc_size (lw_cache w)\<rparr>"

section \<open>Memoisation is transparent\<close>

text \<open>The calls other users of the wrapper's cache make: whatever they write is a result for its key.\<close>

definition lawful :: "('a \<Rightarrow> string) \<Rightarrow> ('a \<Rightarrow> 'e + nat) \<Rightarrow> oc_op list \<Rightarrow> bool" where
  "lawful mk func ops \<longleftrightarrow>
     (\<forall>op \<in> set ops. \<forall>k v. (k, v) \<in> writes op \<longrightarrow> (\<exists>a. mk a = k \<and> func a = Inr v))"

definition memoised :: "('a \<Rightarrow> string) \<Rightarrow> ('a \<Rightarrow> 'e + nat) \<Rightarrow> object_cache \<Rightarrow> bool" where
  "memoised mk func c \<longleftrightarrow> oc_inv c \<and> oc.coherent (\<lambda>k v. \<exists>a. mk a = k \<and> func a = Inr v) c"

lemma memoised_run: "memoised mk func c \<Longrightarrow> lawful mk func ops \<Longrightarrow> memoised mk func (oc_run ops c)"
  using coherent_run [of c "\<lambda>k v. \<exists>a. mk a = k \<and> func a = Inr v" ops]
  by (simp add: memoised_def lawful_def oc_run_inv)

lemma memoised_empty: "1 \<le> n \<Longrightarrow> memoised mk func (empty_object_cache n)"
  using make_object_cache_inv [OF empty_object_cache_made]
  by (simp add: memoised_def oc.coherent_def oc_lookup_def empty_object_cache_def)

lemma memoised_get:
  assumes "memoised mk func c" "oc_get now k c = (r, c')"
  shows "memoised mk func c' \<and> (\<forall>v. r = Some v \<longrightarrow> (\<exists>a. mk a = k \<and> func a = Inr v))"
proof -
  have get: "oc_get_at (now, 0, [], 0) k c = (r, c')" using assms(2) by (simp add: oc_get_at_def)
  have inv: "oc_inv c" and coh: "oc.coherent (\<lambda>k v. \<exists>a. mk a = k \<and> func a = Inr v) c"
    using assms(1) by (simp_all add: memoised_def)
  show ?thesis
    using oc.coherent_get [OF inv coh get] oc.invar_get [OF inv get] oc.coherentD [OF coh]
      oc.get_sound [OF inv] get
    by (auto simp: memoised_def)
qed

text \<open>A wrapper call in a memoised cache returns a result of the function for the same key.\<close>

lemma local_call_memoised:
  assumes mem: "memoised (make_key gk w) func (lw_cache w)" and law: "lawful (make_key gk w) func others"
    and call: "local_call gk func h now others t1 t2 a w = (r, w')"
  shows "memoised (make_key gk w) func (lw_cache w') \<and> lw_key w' = lw_key w \<and> lw_ttl w' = lw_ttl w
    \<and> (\<exists>b. make_key gk w b = make_key gk w a \<and> r = func b)"
proof -
  let ?mk = "make_key gk w"
  obtain g c where get: "oc_get now (?mk a) (lw_cache w) = (g, c)" by fastforce
  note m = memoised_get [OF mem get]
  show ?thesis
  proof (cases g)
    case (Some v)
    with m call get show ?thesis by (fastforce simp: local_call_def Let_def)
  next
    case None
    have mr: "memoised ?mk func (oc_run others c)" using m law by (blast intro: memoised_run)
    have "memoised ?mk func (oc_run [OPut t1 t2 h (?mk a) v ttl] (oc_run others c))" if "func a = Inr v" for v ttl
      using that by (intro memoised_run [OF mr]) (auto simp: lawful_def)
    with None mr call get show ?thesis
      by (cases "func a") (auto simp: local_call_def Let_def simp del: oc_step.simps)
  qed
qed

section \<open>Sequences of calls\<close>

datatype 'a lw_event =
    LCall heap real "oc_op list" real real 'a
  | LInvalidate 'a
  | LClear

fun lw_step :: "('a \<Rightarrow> string) \<Rightarrow> ('a \<Rightarrow> 'e + nat) \<Rightarrow> 'a lw_event \<Rightarrow> 'a local_wrapper \<Rightarrow> 'a local_wrapper" where
  "lw_step gk func (LCall h now others t1 t2 a) w = snd (local_call gk func h now others t1 t2 a w)"
| "lw_step gk func (LInvalidate a) w = invalidate_cache gk a w"
| "lw_step gk func LClear w = cache_clear w"

definition lw_run ::
  "('a \<Rightarrow> string) \<Rightarrow> ('a \<Rightarrow> 'e + nat) \<Rightarrow> 'a lw_event list \<Rightarrow> 'a local_wrapper \<Rightarrow> 'a local_wrapper" where
  "lw_run gk func evs w = fold (lw_step gk func) evs w"

fun lawful_event :: "('a \<Rightarrow> string) \<Rightarrow> ('a \<Rightarrow> 'e + nat) \<Rightarrow> 'a lw_event \<Rightarrow> bool" where
  "lawful_event mk func (LCall h now others t1 t2 a) = lawful mk func others"
| "lawful_event mk func _ = True"

definition lw_good :: "('a \<Rightarrow> string) \<Rightarrow> ('a \<Rightarrow> 'e + nat) \<Rightarrow> 'a kwarg \<Rightarrow> 'a local_wrapper \<Rightarrow> bool" where
  "lw_good mk func key w \<longleftrightarrow> memoised mk func (lw_cache w) \<and> lw_key w = key"

lemma make_key_cong: "lw_key w = lw_key w' \<Longrightarrow> make_key gk w = make_key gk w'"
  by (simp add: make_key_def fun_eq_iff)

lemma lw_step_good:
  assumes "lw_good (make_key gk w0) func (lw_key w0) w" "lawful_event (make_key gk w0) func ev"
  shows "lw_good (make_key gk w0) func (lw_key w0) (lw_step gk func ev w)"
proof -
  have mk: "make_key gk w = make_key gk w0" and mem: "memoised (make_key gk w0) func (lw_cache w)"
    and key: "lw_key w = lw_key w0"
    using assms(1) by (auto simp: lw_good_def intro: make_key_cong)
  show ?thesis
  proof (cases ev)
    case (LCall h now others t1 t2 a)
    with local_call_memoised [of gk w func others h now t1 t2 a] mem assms(2) mk key show ?thesis
      by (cases "local_call gk func h now others t1 t2 a w") (auto simp: lw_good_def)
  next
    case (LInvalidate a)
    with memoised_run [OF mem, of "[ODelete (make_key gk w a)]"] key show ?thesis
      by (simp add: lw_good_def invalidate_cache_def lawful_def)
  next
    case LClear
    with memoised_run [OF mem, of "[OClear]"] key show ?thesis
      by (simp add: lw_good_def cache_clear_def lawful_def)
  qed
qed

lemma lw_run_good:
  "lw_good (make_key gk w0) func (lw_key w0) w \<Longrightarrow> \<forall>ev \<in> set evs. lawful_event (make_key gk w0) func ev \<Longrightarrow>
   lw_good (make_key gk w0) func (lw_key w0) (lw_run gk func evs w)"
  by (induction evs arbitrary: w) (simp_all add: lw_run_def lw_step_good)

lemma created_good:
  "create_local_wrapper kw = Inr w \<Longrightarrow> lw_good mk func (lw_key w) w"
  by (auto simp: create_local_wrapper_def lw_good_def memoised_empty Let_def split: if_splits kwarg.splits)



end
