(* ===== verification/File_Backend.thy ===== *)
theory File_Backend
  imports Backend_Errors Cache_Contract "HOL-Library.Multiset"
begin

text \<open>
  \<^verbatim>\<open>backends/file/backend.py\<close> and the validation of \<^verbatim>\<open>backends/file/config.py\<close>. The cache directory is a map from
  names to nodes; what the operating system does is an argument of each operation: the clock, the
  directory name of a key (\<^verbatim>\<open>blake2b\<close> of the key, \<^verbatim>\<open>_key_to_path\<close>), the name of the temporary file, and the faults
  of the system calls. Sizes in MB and the 90 % and 70 % thresholds are exact reals; error messages are
  kept without their interpolated numbers. The POSIX branches are modelled.
\<close>

section \<open>The operating system\<close>

datatype errno =
  ENOENT | EEXIST | ELOOP | EACCES | ENOSPC | EROFS | ETIMEDOUT | EWOULDBLOCK | EISDIR | EOTHER nat

text \<open>A directory entry; a symbolic link knows whether its target exists.\<close>

datatype node = Regular (content: bytes) (mtime: real) | Symlink bool | Directory

type_synonym dir = "(string, node) odict"

text \<open>The outcome of each system call: an error, and for \<^verbatim>\<open>os.write\<close> how many bytes it wrote if not all.\<close>

record faults =
  f_open :: "errno option"
  f_lock :: "errno option"
  f_read :: "errno option"
  f_mmap :: "errno option"
  f_write :: "errno option"
  f_written :: "nat option"
  f_fsync :: "errno option"
  f_rename :: "errno option"
  f_unlink :: "errno option"

definition no_faults :: faults where
  "no_faults = \<lparr>f_open = None, f_lock = None, f_read = None, f_mmap = None, f_write = None, f_written = None,
     f_fsync = None, f_rename = None, f_unlink = None\<rparr>"

datatype file_exn = OSErr errno | BErr backend_error

definition os_unlink :: "faults \<Rightarrow> string \<Rightarrow> dir \<Rightarrow> errno + dir" where
  "os_unlink f p d =
     (case f_unlink f of
        Some e \<Rightarrow> Inl e
      | None \<Rightarrow>
          (case map_of d p of
             None \<Rightarrow> Inl ENOENT
           | Some Directory \<Rightarrow> Inl EISDIR
           | Some _ \<Rightarrow> Inr (AList.delete p d)))"

definition os_open :: "faults \<Rightarrow> string \<Rightarrow> dir \<Rightarrow> errno + node" where
  "os_open f p d =
     (case f_open f of
        Some e \<Rightarrow> Inl e
      | None \<Rightarrow>
          (case map_of d p of
             None \<Rightarrow> Inl ENOENT
           | Some (Symlink b) \<Rightarrow> Inl ELOOP
           | Some n \<Rightarrow> Inr n))"

fun os_read :: "faults \<Rightarrow> node \<Rightarrow> errno + bytes" where
  "os_read f (Regular b t) = (case f_read f of Some e \<Rightarrow> Inl e | None \<Rightarrow> Inr b)"
| "os_read f _ = Inl EISDIR"

definition written_bytes :: "faults \<Rightarrow> bytes \<Rightarrow> bytes" where
  "written_bytes f b = (case f_written f of None \<Rightarrow> b | Some n \<Rightarrow> take n b)"

definition os_rename :: "faults \<Rightarrow> string \<Rightarrow> string \<Rightarrow> dir \<Rightarrow> errno + dir" where
  "os_rename f src dst d =
     (case f_rename f of
        Some e \<Rightarrow> Inl e
      | None \<Rightarrow>
          (case map_of d src of
             None \<Rightarrow> Inl ENOENT
           | Some n \<Rightarrow> if map_of d dst = Some Directory then Inl EISDIR
                       else Inr (AList.update dst n (AList.delete src d))))"

definition os_exn :: "errno \<Rightarrow> pyexn" where
  "os_exn e = PyExn ''OSError''
     (case e of ENOENT \<Rightarrow> ''ENOENT'' | EEXIST \<Rightarrow> ''EEXIST'' | ELOOP \<Rightarrow> ''ELOOP'' | EACCES \<Rightarrow> ''EACCES''
      | ENOSPC \<Rightarrow> ''ENOSPC'' | EROFS \<Rightarrow> ''EROFS'' | ETIMEDOUT \<Rightarrow> ''ETIMEDOUT''
      | EWOULDBLOCK \<Rightarrow> ''EWOULDBLOCK'' | EISDIR \<Rightarrow> ''EISDIR'' | EOTHER n \<Rightarrow> ''errno'')"

section \<open>Configuration\<close>

record file_config =
  max_size_mb :: int
  max_value_mb :: int
  max_entry_count :: int

datatype config_error = MaxSizeRange int | MaxValueRange int | MaxValueShare int int | MaxEntryRange int

text \<open>The field bounds and \<^verbatim>\<open>validate_max_value_mb\<close>, in declaration order.\<close>

definition make_file_config :: "int \<Rightarrow> int \<Rightarrow> int \<Rightarrow> config_error + file_config" where
  "make_file_config ms mv me =
     (if ms < 1 \<or> ms > 1000000 then Inl (MaxSizeRange ms)
      else if mv < 1 then Inl (MaxValueRange mv)
      else if real_of_int mv > real_of_int ms * (1 / 2) then Inl (MaxValueShare mv ms)
      else if me < 100 \<or> me > 1000000 then Inl (MaxEntryRange me)
      else Inr \<lparr>max_size_mb = ms, max_value_mb = mv, max_entry_count = me\<rparr>)"

section \<open>The entry header\<close>

definition MAGIC :: bytes where "MAGIC = [0x43, 0x4B]"
definition FORMAT_VERSION :: byte where "FORMAT_VERSION = 1"
definition HEADER_SIZE :: nat where "HEADER_SIZE = 14"
definition MMAP_MAX_BYTES :: nat where "MMAP_MAX_BYTES = 512 * 1024 * 1024"
definition MAX_TTL_SECONDS :: int where "MAX_TTL_SECONDS = 10 * 365 * 24 * 60 * 60"
definition TEMP_FILE_MAX_AGE_SECONDS :: real where "TEMP_FILE_MAX_AGE_SECONDS = 60"

text \<open>Python's \<^verbatim>\<open>int()\<close> of a float.\<close>

definition py_int :: "real \<Rightarrow> int" where
  "py_int x = (if x < 0 then \<lceil>x\<rceil> else \<lfloor>x\<rfloor>)"

definition build_header :: "int \<Rightarrow> bytes" where
  "build_header expiry = MAGIC @ [FORMAT_VERSION] @ [0] @ be_bytes 2 0 @ be_bytes 8 (nat expiry)"

definition expiry_from_ttl :: "real \<Rightarrow> int option \<Rightarrow> backend_error + int" where
  "expiry_from_ttl now ttl =
     (case ttl of
        None \<Rightarrow> Inr 0
      | Some t \<Rightarrow>
          if t = 0 then Inr 0
          else if t < 0 \<or> t > MAX_TTL_SECONDS
            then Inl (BackendError ''TTL out of range'' PERMANENT None None None)
          else Inr (py_int (now + of_int t)))"

text \<open>What a reader learns from the first bytes of a file.\<close>

datatype header = Corrupt | Expiry nat

definition parse_header :: "bytes \<Rightarrow> header" where
  "parse_header b =
     (if length b < HEADER_SIZE \<or> take 2 b \<noteq> MAGIC \<or> b ! 2 \<noteq> FORMAT_VERSION then Corrupt
      else Expiry (be_val (take 8 (drop 6 b))))"

definition header_expired :: "real \<Rightarrow> nat \<Rightarrow> bool" where
  "header_expired now x \<longleftrightarrow> x > 0 \<and> now > real x"

section \<open>Helpers\<close>

fun classify_os_error :: "errno \<Rightarrow> bool \<Rightarrow> backend_error_type" where
  "classify_os_error e is_directory =
     (if e = ENOSPC then TRANSIENT
      else if e = EACCES then (if is_directory then PERMANENT else TRANSIENT)
      else if e = EROFS then PERMANENT
      else if e = ELOOP then PERMANENT
      else if e = ETIMEDOUT then TIMEOUT
      else UNKNOWN)"

definition os_backend_error :: "string \<Rightarrow> string \<Rightarrow> string \<Rightarrow> errno \<Rightarrow> backend_error" where
  "os_backend_error msg op key e =
     BackendError (msg @ exn_str (os_exn e)) (classify_os_error e False) (Some (os_exn e)) (Some op) (Some key)"

definition acquire_file_lock :: "faults \<Rightarrow> file_exn option" where
  "acquire_file_lock f =
     (case f_lock f of
        None \<Rightarrow> None
      | Some e \<Rightarrow>
          Some (if e = EWOULDBLOCK
                then BErr (BackendError ''Lock acquisition timeout'' TIMEOUT (Some (os_exn e)) (Some ''lock'') None)
                else OSErr e))"

definition safe_unlink :: "faults \<Rightarrow> string \<Rightarrow> dir \<Rightarrow> dir" where
  "safe_unlink f p d = (case os_unlink f p d of Inl e \<Rightarrow> d | Inr d' \<Rightarrow> d')"

fun str_in :: "string \<Rightarrow> string \<Rightarrow> bool" where
  "str_in pat [] = (pat = [])"
| "str_in pat (c # s) = (take (length pat) (c # s) = pat \<or> str_in pat s)"

definition startswith_dot :: "string \<Rightarrow> bool" where
  "startswith_dot n = (take 1 n = ''.'')"

text \<open>The regular files the size accounting and the eviction look at.\<close>

definition visible :: "string \<Rightarrow> bool" where
  "visible n \<longleftrightarrow> \<not> startswith_dot n \<and> \<not> str_in ''.tmp.'' n"

fun is_regular :: "node \<Rightarrow> bool" where
  "is_regular (Regular b t) = True"
| "is_regular _ = False"

definition cache_files :: "dir \<Rightarrow> dir" where
  "cache_files d = filter (\<lambda>(n, nd). visible n \<and> is_regular nd) d"

definition file_size :: "node \<Rightarrow> int" where
  "file_size nd = int (length (content nd))"

definition calculate_cache_size :: "dir \<Rightarrow> real \<times> int" where
  "calculate_cache_size d =
     (of_int (od_weight file_size (cache_files d)) / (1024 * 1024), int (length (cache_files d)))"

definition check_entry_capacity :: "file_config \<Rightarrow> string \<Rightarrow> dir \<Rightarrow> backend_error option" where
  "check_entry_capacity cfg p d =
     (if max_entry_count cfg \<le> 0 then None
      else
        let present = (case map_of d p of None \<Rightarrow> False | Some (Symlink b) \<Rightarrow> b | Some _ \<Rightarrow> True) in
        if \<not> present \<and> snd (calculate_cache_size d) \<ge> max_entry_count cfg
        then Some (BackendError ''Entry count would exceed max_entry_count'' PERMANENT None None None)
        else None)"

definition cleanup_temp_files :: "faults \<Rightarrow> real \<Rightarrow> dir \<Rightarrow> dir" where
  "cleanup_temp_files f now d =
     fold (\<lambda>(n, nd) d. case nd of
             Regular b t \<Rightarrow>
               if str_in ''.tmp.'' n \<and> now - t > TEMP_FILE_MAX_AGE_SECONDS then safe_unlink f n d else d
           | _ \<Rightarrow> d) d d"

text \<open>The eviction loop over the files in order of modification time.\<close>

fun evict_loop :: "faults \<Rightarrow> real \<Rightarrow> int \<Rightarrow> dir \<Rightarrow> real \<Rightarrow> int \<Rightarrow> dir \<Rightarrow> dir" where
  "evict_loop f tsize tcount [] sz cnt d = d"
| "evict_loop f tsize tcount ((n, nd) # rest) sz cnt d =
     (if sz \<le> tsize \<and> cnt \<le> tcount then d
      else (case os_unlink f n d of
              Inl e \<Rightarrow> evict_loop f tsize tcount rest sz cnt d
            | Inr d' \<Rightarrow> evict_loop f tsize tcount rest (sz - of_int (file_size nd) / (1024 * 1024)) (cnt - 1) d'))"

definition by_mtime :: "dir \<Rightarrow> dir" where
  "by_mtime d = sort_key (\<lambda>(n, nd). mtime nd) (cache_files d)"

definition maybe_evict :: "file_config \<Rightarrow> faults \<Rightarrow> dir \<Rightarrow> dir" where
  "maybe_evict cfg f d =
     (let (sz, cnt) = calculate_cache_size d;
          size_trigger = sz > of_int (max_size_mb cfg) * (9 / 10);
          count_trigger = of_int cnt > real_of_int (max_entry_count cfg) * (9 / 10)
      in if \<not> (size_trigger \<or> count_trigger) then d
         else evict_loop f (of_int (max_size_mb cfg) * (7 / 10))
                (py_int (of_int (max_entry_count cfg) * (7 / 10))) (by_mtime d) sz cnt d)"

section \<open>Reads\<close>

text \<open>Open, lock and read, the common start of the read operations.\<close>

definition read_locked :: "faults \<Rightarrow> string \<Rightarrow> dir \<Rightarrow> file_exn + bytes" where
  "read_locked f p d =
     (case os_open f p d of
        Inl e \<Rightarrow> Inl (OSErr e)
      | Inr nd \<Rightarrow>
          (case acquire_file_lock f of
             Some x \<Rightarrow> Inl x
           | None \<Rightarrow> (case os_read f nd of Inl e \<Rightarrow> Inl (OSErr e) | Inr b \<Rightarrow> Inr b)))"

text \<open>The exception handlers of the reads: a missing file or a symbolic link reads as absent.\<close>

fun read_failed :: "string \<Rightarrow> string \<Rightarrow> string \<Rightarrow> 'a \<Rightarrow> file_exn \<Rightarrow> backend_error + 'a" where
  "read_failed msg op key absent (OSErr e) =
     (if e = ENOENT \<or> e = ELOOP then Inr absent else Inl (os_backend_error msg op key e))"
| "read_failed msg op key absent (BErr b) = Inl b"

definition file_get ::
  "faults \<Rightarrow> real \<Rightarrow> string \<Rightarrow> string \<Rightarrow> dir \<Rightarrow> (backend_error + bytes option) \<times> dir" where
  "file_get f now p key d =
     (case read_locked f p d of
        Inl x \<Rightarrow> (read_failed ''Failed to read cache file: '' ''get'' key None x, d)
      | Inr b \<Rightarrow>
          (case parse_header b of
             Corrupt \<Rightarrow> (Inr None, safe_unlink f p d)
           | Expiry x \<Rightarrow>
               if header_expired now x then (Inr None, safe_unlink f p d)
               else (Inr (Some (drop HEADER_SIZE b)), d)))"

text \<open>\<^verbatim>\<open>get_buffer\<close>: the payload of the mapping, or \<open>None\<close> when the caller has to fall back to \<^verbatim>\<open>get\<close>.\<close>

definition get_buffer ::
  "faults \<Rightarrow> real \<Rightarrow> string \<Rightarrow> string \<Rightarrow> dir \<Rightarrow> (backend_error + bytes option) \<times> dir" where
  "get_buffer f now p key d =
     (let failed = (\<lambda>e. Inl (os_backend_error ''Failed to mmap cache file: '' ''get_buffer'' key e)) in
      case os_open f p d of
        Inl e \<Rightarrow>
          (if e = ENOENT \<or> e = ELOOP then Inr None
           else Inl (os_backend_error ''Failed to open cache file for mmap: '' ''get_buffer'' key e), d)
      | Inr nd \<Rightarrow>
          (case acquire_file_lock f of
             Some (BErr b) \<Rightarrow> (Inl b, d)
           | Some (OSErr e) \<Rightarrow> (failed e, d)
           | None \<Rightarrow>
               (case os_read f nd of
                  Inl e \<Rightarrow> (failed e, d)
                | Inr b \<Rightarrow>
                    (case parse_header b of
                       Corrupt \<Rightarrow> (Inr None, safe_unlink f p d)
                     | Expiry x \<Rightarrow>
                         if header_expired now x then (Inr None, safe_unlink f p d)
                         else if length b \<le> HEADER_SIZE \<or> length b > MMAP_MAX_BYTES then (Inr None, d)
                         else (case f_mmap f of
                                 Some e \<Rightarrow> (failed e, d)
                               | None \<Rightarrow> (Inr (Some (drop HEADER_SIZE b)), d))))))"

definition file_exists ::
  "faults \<Rightarrow> real \<Rightarrow> string \<Rightarrow> string \<Rightarrow> dir \<Rightarrow> (backend_error + bool) \<times> dir" where
  "file_exists f now p key d =
     (case read_locked f p d of
        Inl x \<Rightarrow> (read_failed ''Failed to check cache file existence: '' ''exists'' key False x, d)
      | Inr b \<Rightarrow>
          (case parse_header (take HEADER_SIZE b) of
             Corrupt \<Rightarrow> (Inr False, safe_unlink f p d)
           | Expiry x \<Rightarrow>
               if header_expired now x then (Inr False, safe_unlink f p d) else (Inr True, d)))"

definition get_ttl ::
  "faults \<Rightarrow> real \<Rightarrow> string \<Rightarrow> string \<Rightarrow> dir \<Rightarrow> (backend_error + int option) \<times> dir" where
  "get_ttl f now p key d =
     (case read_locked f p d of
        Inl x \<Rightarrow> (read_failed ''Failed to read cache file TTL: '' ''get_ttl'' key None x, d)
      | Inr b \<Rightarrow>
          (case parse_header (take HEADER_SIZE b) of
             Corrupt \<Rightarrow> (Inr None, safe_unlink f p d)
           | Expiry x \<Rightarrow>
               if x = 0 then (Inr None, d)
               else if real x - now \<le> 0 then (Inr None, safe_unlink f p d)
               else (Inr (Some (py_int (real x - now))), d)))"

section \<open>Writes\<close>

text \<open>
  Create the temporary file (\<^verbatim>\<open>O_CREAT | O_EXCL\<close>), lock it, write and sync. The number of bytes
  \<^verbatim>\<open>os.write\<close> reports is not looked at.
\<close>

definition write_temp :: "faults \<Rightarrow> real \<Rightarrow> string \<Rightarrow> bytes \<Rightarrow> dir \<Rightarrow> file_exn option \<times> dir" where
  "write_temp f now tmp data d =
     (case f_open f of
        Some e \<Rightarrow> (Some (OSErr e), d)
      | None \<Rightarrow>
          if map_of d tmp \<noteq> None then (Some (OSErr EEXIST), d)
          else
            let d1 = AList.update tmp (Regular [] now) d in
            (case acquire_file_lock f of
               Some x \<Rightarrow> (Some x, d1)
             | None \<Rightarrow>
                 (case f_write f of
                    Some e \<Rightarrow> (Some (OSErr e), d1)
                  | None \<Rightarrow>
                      (map_option OSErr (f_fsync f),
                       AList.update tmp (Regular (written_bytes f data) now) d1))))"

definition value_too_large :: backend_error where
  "value_too_large = BackendError ''Value size exceeds max_value_mb'' PERMANENT None None None"

definition file_set ::
  "file_config \<Rightarrow> faults \<Rightarrow> real \<Rightarrow> string \<Rightarrow> string \<Rightarrow> string \<Rightarrow> bytes \<Rightarrow> int option \<Rightarrow> dir
   \<Rightarrow> (backend_error + unit) \<times> dir" where
  "file_set cfg f now p tmp key v ttl d =
     (let failed = (\<lambda>e. Inl (os_backend_error ''Failed to write cache file: '' ''set'' key e)) in
      if int (length v) > max_value_mb cfg * 1024 * 1024 then (Inl value_too_large, d)
      else
        (case expiry_from_ttl now ttl of
           Inl e \<Rightarrow> (Inl e, d)
         | Inr x \<Rightarrow>
             (case check_entry_capacity cfg p d of
                Some e \<Rightarrow> (Inl e, d)
              | None \<Rightarrow>
                  (case write_temp f now tmp (build_header x @ v) d of
                     (Some (BErr b), d1) \<Rightarrow> (Inl b, d1)
                   | (Some (OSErr e), d1) \<Rightarrow> (failed e, safe_unlink f tmp d1)
                   | (None, d1) \<Rightarrow>
                       (case os_rename f tmp p d1 of
                          Inl e \<Rightarrow> (failed e, safe_unlink f tmp d1)
                        | Inr d2 \<Rightarrow> (Inr (), maybe_evict cfg f d2))))))"

text \<open>
  \<^verbatim>\<open>set_streaming\<close>: the producer writes the payload or raises; the size limit is checked on the file. The
  directory may change while the producer runs (\<open>meanwhile\<close>), since the process lock is not held then.
\<close>

datatype 'e stream_error = StreamBackend backend_error | StreamProducer 'e

definition set_streaming ::
  "file_config \<Rightarrow> faults \<Rightarrow> real \<Rightarrow> string \<Rightarrow> string \<Rightarrow> string \<Rightarrow> ('e + bytes) \<Rightarrow> (dir \<Rightarrow> dir) \<Rightarrow> int option \<Rightarrow> dir
   \<Rightarrow> ('e stream_error + unit) \<times> dir" where
  "set_streaming cfg f now p tmp key producer meanwhile ttl d =
     (let failed = (\<lambda>e. Inl (StreamBackend (os_backend_error ''Failed to write cache file: '' ''set_streaming'' key e)));
          discard = safe_unlink f tmp
      in
      case expiry_from_ttl now ttl of
        Inl e \<Rightarrow> (Inl (StreamBackend e), d)
      | Inr x \<Rightarrow>
          (case check_entry_capacity cfg p d of
             Some e \<Rightarrow> (Inl (StreamBackend e), discard d)
           | None \<Rightarrow>
               let data = build_header x @ (case producer of Inl e \<Rightarrow> [] | Inr v \<Rightarrow> v);
                   (err, d0) = write_temp (f\<lparr>f_fsync := None\<rparr>) now tmp data d;
                   d1 = meanwhile d0
               in
               case err of
                 Some (BErr b) \<Rightarrow> (Inl (StreamBackend b), discard d1)
               | Some (OSErr er) \<Rightarrow> (failed er, discard d1)
               | None \<Rightarrow>
                   (case producer of
                      Inl e \<Rightarrow> (Inl (StreamProducer e), discard d1)
                    | Inr v \<Rightarrow>
                        if int (length (written_bytes f data)) - int HEADER_SIZE > max_value_mb cfg * 1024 * 1024
                        then (Inl (StreamBackend value_too_large), discard d1)
                        else
                          (case f_fsync f of
                             Some er \<Rightarrow> (failed er, discard d1)
                           | None \<Rightarrow>
                               (case os_rename f tmp p d1 of
                                  Inl e \<Rightarrow> (failed e, discard d1)
                                | Inr d2 \<Rightarrow> (Inr (), maybe_evict cfg f d2))))))"

definition file_delete :: "faults \<Rightarrow> string \<Rightarrow> string \<Rightarrow> dir \<Rightarrow> (backend_error + bool) \<times> dir" where
  "file_delete f p key d =
     (case os_unlink f p d of
        Inr d' \<Rightarrow> (Inr True, d')
      | Inl e \<Rightarrow>
          (if e = ENOENT then Inr False
           else Inl (os_backend_error ''Failed to delete cache file: '' ''delete'' key e), d))"

text \<open>The eight bytes of the expiry field, overwritten in place.\<close>

definition patch_expiry :: "faults \<Rightarrow> int \<Rightarrow> bytes \<Rightarrow> bytes" where
  "patch_expiry f x b =
     (let w = written_bytes f (be_bytes 8 (nat x)) in take 6 b @ w @ drop (6 + length w) b)"

definition refresh_ttl ::
  "faults \<Rightarrow> real \<Rightarrow> string \<Rightarrow> string \<Rightarrow> int \<Rightarrow> dir \<Rightarrow> (backend_error + bool) \<times> dir" where
  "refresh_ttl f now p key ttl d =
     (let failed = read_failed ''Failed to refresh cache file TTL: '' ''refresh_ttl'' key False in
      case expiry_from_ttl now (Some ttl) of
        Inl e \<Rightarrow> (Inl e, d)
      | Inr new_expiry \<Rightarrow>
          if f_open f = None \<and> map_of d p = Some Directory then (failed (OSErr EISDIR), d)
          else
            (case read_locked f p d of
               Inl x \<Rightarrow> (failed x, d)
             | Inr b \<Rightarrow>
                 (case parse_header (take HEADER_SIZE b) of
                    Corrupt \<Rightarrow> (Inr False, safe_unlink f p d)
                  | Expiry x \<Rightarrow>
                      if header_expired now x then (Inr False, safe_unlink f p d)
                      else
                        (case f_write f of
                           Some e \<Rightarrow> (failed (OSErr e), d)
                         | None \<Rightarrow>
                             (case f_fsync f of Some e \<Rightarrow> failed (OSErr e) | None \<Rightarrow> Inr True,
                              AList.update p (Regular (patch_expiry f new_expiry b) now) d)))))"

datatype health = Healthy real int int int | Unhealthy string

definition health_check ::
  "file_config \<Rightarrow> faults \<Rightarrow> real \<Rightarrow> string \<Rightarrow> string \<Rightarrow> dir \<Rightarrow> health \<times> dir" where
  "health_check cfg f now p tmp d =
     (let key = ''__health_check__''; v = map of_char ''health_check_data'' in
      case file_set cfg f now p tmp key v (Some 60) d of
        (Inl e, d1) \<Rightarrow> (Unhealthy (format_message e), d1)
      | (Inr u, d1) \<Rightarrow>
          (case file_get f now p key d1 of
             (Inl e, d2) \<Rightarrow> (Unhealthy (format_message e), d2)
           | (Inr r, d2) \<Rightarrow>
               (case file_delete f p key d2 of
                  (Inl e, d3) \<Rightarrow> (Unhealthy (format_message e), d3)
                | (Inr b, d3) \<Rightarrow>
                    if r \<noteq> Some v then (Unhealthy ''Round-trip verification failed'', d3)
                    else (let (sz, cnt) = calculate_cache_size d3
                          in (Healthy sz cnt (max_size_mb cfg) (max_entry_count cfg), d3)))))"

section \<open>Header and directory lemmas\<close>

lemma length_build_header [simp]: "length (build_header x) = HEADER_SIZE"
  by (simp add: build_header_def MAGIC_def HEADER_SIZE_def)

lemma parse_build_header:
  assumes "0 \<le> x" "x < 2 ^ 64"
  shows "parse_header (build_header x @ v) = Expiry (nat x)"
proof -
  have "nat x < 256 ^ 8" using assms by (simp add: nat_less_iff)
  then have "be_val (be_bytes 8 (nat x)) = nat x" by (rule be_val_be_bytes_id)
  moreover have "be_bytes 2 0 = [0, 0]" by (simp add: numeral_2_eq_2)
  ultimately show ?thesis
    by (simp add: parse_header_def build_header_def MAGIC_def HEADER_SIZE_def del: be_bytes.simps)
qed

lemma parse_header_take: "parse_header (take HEADER_SIZE b) = parse_header b"
  by (simp add: parse_header_def HEADER_SIZE_def min_def take_drop)

lemma expiry_from_ttl_range:
  assumes "expiry_from_ttl now ttl = Inr x" "0 \<le> now" "now < 2 ^ 62"
  shows "0 \<le> x \<and> x < 2 ^ 64"
proof -
  have "0 \<le> py_int (now + of_int t) \<and> py_int (now + of_int t) < 2 ^ 64" if "0 \<le> t" "t \<le> MAX_TTL_SECONDS" for t
  proof -
    have "now + of_int t < 2 ^ 62 + 315360000" using that assms(3) by (simp add: MAX_TTL_SECONDS_def)
    then have "\<lfloor>now + of_int t\<rfloor> < 2 ^ 64" unfolding floor_less_iff by simp
    then show ?thesis using that(1) assms(2) by (simp add: py_int_def)
  qed
  with assms(1) show ?thesis
    by (auto simp: expiry_from_ttl_def split: option.splits if_splits)
qed

lemma os_unlink_lookup:
  "os_unlink f p d = Inr d' \<Longrightarrow> map_of d' = (map_of d)(p := None)"
  by (auto simp: os_unlink_def AList.delete_conv' split: option.splits node.splits)

lemma safe_unlink_lookup:
  "map_of (safe_unlink f p d) = map_of d \<or> map_of (safe_unlink f p d) = (map_of d)(p := None)"
  by (auto simp: safe_unlink_def dest: os_unlink_lookup split: sum.split)

lemma safe_unlink_other: "q \<noteq> p \<Longrightarrow> map_of (safe_unlink f p d) q = map_of d q"
  using safe_unlink_lookup [of f p d] by auto

lemma safe_unlink_le: "map_of (safe_unlink f p d) \<subseteq>\<^sub>m map_of d"
  using safe_unlink_lookup [of f p d] by (auto simp: map_le_def split: if_splits)

lemma os_unlink_distinct: "distinct (map fst d) \<Longrightarrow> os_unlink f p d = Inr d' \<Longrightarrow> distinct (map fst d')"
  by (auto simp: os_unlink_def split: option.splits node.splits)

lemma safe_unlink_distinct: "distinct (map fst d) \<Longrightarrow> distinct (map fst (safe_unlink f p d))"
  by (auto simp: safe_unlink_def dest: os_unlink_distinct split: sum.split)

lemma evict_loop_le: "map_of (evict_loop f ts tc fs sz cnt d) \<subseteq>\<^sub>m map_of d"
proof (induction f ts tc fs sz cnt d rule: evict_loop.induct)
  case (2 f ts tc n nd rest sz cnt d)
  have "map_of d' \<subseteq>\<^sub>m map_of d" if "os_unlink f n d = Inr d'" for d'
    using os_unlink_lookup [OF that] by (auto simp: map_le_def)
  with 2 show ?case by (auto split: sum.split intro: map_le_trans)
qed simp

lemma evict_loop_distinct: "distinct (map fst d) \<Longrightarrow> distinct (map fst (evict_loop f ts tc fs sz cnt d))"
  by (induction f ts tc fs sz cnt d rule: evict_loop.induct) (auto dest: os_unlink_distinct split: sum.split)

lemma maybe_evict_le: "map_of (maybe_evict cfg f d) \<subseteq>\<^sub>m map_of d"
  by (simp add: maybe_evict_def evict_loop_le Let_def split: prod.split)

lemma maybe_evict_distinct: "distinct (map fst d) \<Longrightarrow> distinct (map fst (maybe_evict cfg f d))"
  by (simp add: maybe_evict_def evict_loop_distinct Let_def split: prod.split)

section \<open>What a write leaves behind\<close>

lemma write_temp_other:
  "write_temp f now tmp data d = (r, d') \<Longrightarrow> q \<noteq> tmp \<Longrightarrow> map_of d' q = map_of d q"
  by (auto simp: write_temp_def update_conv' Let_def split: option.splits if_splits)

lemma write_temp_distinct:
  "distinct (map fst d) \<Longrightarrow> write_temp f now tmp data d = (r, d') \<Longrightarrow> distinct (map fst d')"
  by (auto simp: write_temp_def distinct_update Let_def split: option.splits if_splits)

lemma write_temp_done:
  "write_temp f now tmp data d = (None, d') \<Longrightarrow>
   map_of d tmp = None \<and> map_of d' = (map_of d)(tmp \<mapsto> Regular (written_bytes f data) now)"
  by (auto simp: write_temp_def update_conv' Let_def fun_eq_iff split: option.splits if_splits)

text \<open>The directory between the rename and the eviction of a successful set.\<close>

lemma file_set_ok:
  assumes "file_set cfg f now p tmp key v ttl d = (Inr u, d')" "p \<noteq> tmp" "distinct (map fst d)"
  obtains x d2 where "expiry_from_ttl now ttl = Inr x" "d' = maybe_evict cfg f d2" "distinct (map fst d2)"
    "map_of d2 = (map_of d)(p \<mapsto> Regular (written_bytes f (build_header x @ v)) now)"
    "int (length v) \<le> max_value_mb cfg * 1024 * 1024"
proof -
  from assms(1) obtain x d1 d2 where x: "expiry_from_ttl now ttl = Inr x"
    and w: "write_temp f now tmp (build_header x @ v) d = (None, d1)"
    and r: "os_rename f tmp p d1 = Inr d2" and d': "d' = maybe_evict cfg f d2"
    and size: "int (length v) \<le> max_value_mb cfg * 1024 * 1024"
    by (auto simp: file_set_def Let_def split: if_splits sum.splits option.splits prod.splits file_exn.splits)
  note wd = write_temp_done [OF w]
  from r wd have d2: "d2 = AList.update p (Regular (written_bytes f (build_header x @ v)) now) (AList.delete tmp d1)"
    by (auto simp: os_rename_def split: option.splits if_splits)
  have "map_of d2 = (map_of d)(p \<mapsto> Regular (written_bytes f (build_header x @ v)) now)"
    using wd assms(2) by (auto simp: d2 update_conv' AList.delete_conv' fun_eq_iff)
  moreover have "distinct (map fst d2)"
    using write_temp_distinct [OF assms(3) w] by (simp add: d2 distinct_update)
  ultimately show ?thesis using that x d' size by blast
qed

lemma file_set_failed_other:
  assumes "file_set cfg f now p tmp key v ttl d = (Inl e, d')" "q \<noteq> tmp"
  shows "map_of d' q = map_of d q"
  using assms
  by (auto simp: file_set_def Let_def safe_unlink_other dest: write_temp_other
      split: if_splits sum.splits option.splits prod.splits file_exn.splits)

lemma file_set_distinct:
  assumes "distinct (map fst d)" "file_set cfg f now p tmp key v ttl d = (r, d')"
  shows "distinct (map fst d')"
proof -
  have rn: "distinct (map fst d2)" if "distinct (map fst d1)" "os_rename f tmp p d1 = Inr d2" for d1 d2
    using that by (auto simp: os_rename_def distinct_update split: option.splits if_splits)
  show ?thesis using assms
    by (auto simp: file_set_def Let_def dest: write_temp_distinct rn intro!: safe_unlink_distinct maybe_evict_distinct
        split: if_splits sum.splits option.splits prod.splits file_exn.splits)
qed

section \<open>Eviction\<close>

definition mb_of :: "dir \<Rightarrow> real" where
  "mb_of fs = of_int (od_weight file_size fs) / (1024 * 1024)"

lemma mb_of_simps [simp]:
  "mb_of [] = 0" "mb_of ((n, nd) # fs) = of_int (file_size nd) / (1024 * 1024) + mb_of fs"
  "mb_of (fs @ gs) = mb_of fs + mb_of gs"
  by (simp_all add: mb_of_def add_divide_distrib)

definition goal_met :: "real \<Rightarrow> int \<Rightarrow> real \<Rightarrow> int \<Rightarrow> dir \<Rightarrow> bool" where
  "goal_met ts tc sz cnt xs \<longleftrightarrow> sz - mb_of xs \<le> ts \<and> cnt - int (length xs) \<le> tc"

text \<open>Without faults the loop removes the shortest prefix that meets the goal, or everything.\<close>

lemma evict_loop_prefix:
  assumes "f_unlink f = None" "distinct (map fst fs)"
    "\<forall>(n, nd) \<in> set fs. map_of d n = Some nd \<and> is_regular nd"
  shows "\<exists>xs ys. fs = xs @ ys \<and> evict_loop f ts tc fs sz cnt d = fold AList.delete (map fst xs) d
    \<and> (ys = [] \<or> goal_met ts tc sz cnt xs) \<and> (xs = [] \<or> \<not> goal_met ts tc sz cnt (butlast xs))"
  using assms(2,3)
proof (induction fs arbitrary: sz cnt d)
  case Nil
  then show ?case by simp
next
  case (Cons p fs)
  obtain n nd where p: "p = (n, nd)" by fastforce
  show ?case
  proof (cases "sz \<le> ts \<and> cnt \<le> tc")
    case True
    then show ?thesis by (intro exI [of _ "[]"] exI [of _ "p # fs"]) (simp add: p goal_met_def)
  next
    case False
    have reg: "map_of d n = Some nd" "is_regular nd" using Cons.prems(2) by (auto simp: p)
    then have unl: "os_unlink f n d = Inr (AList.delete n d)"
      by (cases nd) (simp_all add: os_unlink_def assms(1))
    have "\<forall>(m, md) \<in> set fs. map_of (AList.delete n d) m = Some md \<and> is_regular md"
      using Cons.prems by (force simp: p AList.delete_conv')
    then obtain xs ys where ih: "fs = xs @ ys"
      "evict_loop f ts tc fs (sz - of_int (file_size nd) / (1024 * 1024)) (cnt - 1) (AList.delete n d)
         = fold AList.delete (map fst xs) (AList.delete n d)"
      "ys = [] \<or> goal_met ts tc (sz - of_int (file_size nd) / (1024 * 1024)) (cnt - 1) xs"
      "xs = [] \<or> \<not> goal_met ts tc (sz - of_int (file_size nd) / (1024 * 1024)) (cnt - 1) (butlast xs)"
      using Cons.IH [of "AList.delete n d" "sz - of_int (file_size nd) / (1024 * 1024)" "cnt - 1"] Cons.prems(1)
      by (auto simp: p)
    have "evict_loop f ts tc (p # fs) sz cnt d = fold AList.delete (map fst (p # xs)) d"
      using False unl ih(2) by (auto simp: p)
    moreover have "ys = [] \<or> goal_met ts tc sz cnt (p # xs)"
      using ih(3) by (auto simp: goal_met_def p algebra_simps)
    moreover have "\<not> goal_met ts tc sz cnt (butlast (p # xs))"
      using ih(4) False by (cases "xs = []") (auto simp: goal_met_def p algebra_simps)
    ultimately show ?thesis using ih(1) by (intro exI [of _ "p # xs"] exI [of _ ys]) simp
  qed
qed

lemma by_mtime_perm: "mset (by_mtime d) = mset (cache_files d)"
  by (simp add: by_mtime_def)

lemma distinct_cache_files: "distinct (map fst d) \<Longrightarrow> distinct (map fst (cache_files d))"
  by (simp add: cache_files_def distinct_map_filter)

lemma distinct_by_mtime: "distinct (map fst d) \<Longrightarrow> distinct (map fst (by_mtime d))"
  using distinct_cache_files [of d] by_mtime_perm [of d]
  by (metis mset_eq_imp_distinct_iff mset_map)

lemma by_mtime_regular:
  assumes "distinct (map fst d)"
  shows "\<forall>(n, nd) \<in> set (by_mtime d). map_of d n = Some nd \<and> is_regular nd"
  using assms by (auto simp: by_mtime_def cache_files_def)

lemma mb_of_mset: "mset fs = mset gs \<Longrightarrow> mb_of fs = mb_of gs"
proof -
  assume "mset fs = mset gs"
  then have "sum_mset (image_mset (\<lambda>(k, v). file_size v) (mset fs))
      = sum_mset (image_mset (\<lambda>(k, v). file_size v) (mset gs))" by simp
  then show ?thesis
    by (simp only: mb_of_def od_weight_def flip: sum_mset_sum_list mset_map)
qed

lemma fold_delete_filter: "fold AList.delete ks d = filter (\<lambda>p. fst p \<notin> set ks) d"
  by (induction ks arbitrary: d) (simp_all add: delete_filter conj_commute)

lemma map_of_filter_keys: "q \<notin> K \<Longrightarrow> map_of (filter (\<lambda>p. fst p \<notin> K) d) q = map_of d q"
  by (induction d) auto

text \<open>After an eviction the remaining cache files are the suffix of the sorted list.\<close>

lemma cache_files_evicted:
  assumes "distinct (map fst d)" "by_mtime d = xs @ ys"
  shows "mset (cache_files (fold AList.delete (map fst xs) d)) = mset ys"
proof -
  have dist: "distinct (map fst (xs @ ys))" using distinct_by_mtime [OF assms(1)] assms(2) by simp
  have "cache_files (fold AList.delete (map fst xs) d) = filter (\<lambda>p. fst p \<notin> fst ` set xs) (cache_files d)"
    by (simp add: cache_files_def fold_delete_filter conj_commute)
  then have "mset (cache_files (fold AList.delete (map fst xs) d))
      = filter_mset (\<lambda>p. fst p \<notin> fst ` set xs) (mset (by_mtime d))"
    by (simp add: by_mtime_perm)
  also have "\<dots> = mset (filter (\<lambda>p. fst p \<notin> fst ` set xs) xs) + mset (filter (\<lambda>p. fst p \<notin> fst ` set xs) ys)"
    by (simp add: assms(2))
  also have "filter (\<lambda>p. fst p \<notin> fst ` set xs) xs = []" by (simp add: filter_empty_conv)
  also have "filter (\<lambda>p. fst p \<notin> fst ` set xs) ys = ys" using dist by (force simp: filter_id_conv)
  finally show ?thesis by simp
qed

lemma calculate_as_mb: "calculate_cache_size d = (mb_of (cache_files d), int (length (cache_files d)))"
  by (simp add: calculate_cache_size_def mb_of_def)

definition valid_config :: "file_config \<Rightarrow> bool" where
  "valid_config cfg \<longleftrightarrow> make_file_config (max_size_mb cfg) (max_value_mb cfg) (max_entry_count cfg) = Inr cfg"

lemma valid_config_facts:
  assumes "valid_config cfg"
  shows "2 \<le> max_size_mb cfg" "2 * max_value_mb cfg \<le> max_size_mb cfg" "100 \<le> max_entry_count cfg"
    "1 \<le> max_value_mb cfg"
proof -
  have mv: "1 \<le> max_value_mb cfg" and half: "real_of_int (max_value_mb cfg) \<le> real_of_int (max_size_mb cfg) * (1 / 2)"
    and me: "100 \<le> max_entry_count cfg"
    using assms by (auto simp: valid_config_def make_file_config_def split: if_splits)
  then show "2 * max_value_mb cfg \<le> max_size_mb cfg" "100 \<le> max_entry_count cfg" "1 \<le> max_value_mb cfg" by linarith+
  then show "2 \<le> max_size_mb cfg" using mv by linarith
qed

lemma evict_shape:
  assumes "f_unlink f = None" "distinct (map fst d)"
  obtains (idle) "maybe_evict cfg f d = d"
      "mb_of (cache_files d) \<le> of_int (max_size_mb cfg) * (9 / 10)"
      "real (length (cache_files d)) \<le> of_int (max_entry_count cfg) * (9 / 10)"
    | (evicted) xs ys where "by_mtime d = xs @ ys" "maybe_evict cfg f d = fold AList.delete (map fst xs) d"
      "ys = [] \<or> goal_met (of_int (max_size_mb cfg) * (7 / 10)) (py_int (of_int (max_entry_count cfg) * (7 / 10)))
                  (mb_of (cache_files d)) (int (length (cache_files d))) xs"
      "xs = [] \<or> \<not> goal_met (of_int (max_size_mb cfg) * (7 / 10)) (py_int (of_int (max_entry_count cfg) * (7 / 10)))
                  (mb_of (cache_files d)) (int (length (cache_files d))) (butlast xs)"
proof (cases "mb_of (cache_files d) > of_int (max_size_mb cfg) * (9 / 10)
    \<or> real (length (cache_files d)) > of_int (max_entry_count cfg) * (9 / 10)")
  case False
  then show ?thesis by (intro idle) (auto simp: maybe_evict_def calculate_as_mb)
next
  case True
  let ?ts = "of_int (max_size_mb cfg) * (7 / 10)" and ?tc = "py_int (of_int (max_entry_count cfg) * (7 / 10))"
  have "maybe_evict cfg f d = evict_loop f ?ts ?tc (by_mtime d) (mb_of (cache_files d)) (int (length (cache_files d))) d"
    using True by (auto simp: maybe_evict_def calculate_as_mb)
  with evict_loop_prefix [OF assms(1) distinct_by_mtime [OF assms(2)] by_mtime_regular [OF assms(2)],
      of ?ts ?tc "mb_of (cache_files d)" "int (length (cache_files d))"] evicted
  show ?thesis by metis
qed

lemma evict_bounds:
  assumes "f_unlink f = None" "distinct (map fst d)" "valid_config cfg"
  shows "mb_of (cache_files (maybe_evict cfg f d)) \<le> of_int (max_size_mb cfg) * (9 / 10)
       \<and> real (length (cache_files (maybe_evict cfg f d))) \<le> of_int (max_entry_count cfg) * (9 / 10)"
  using assms(1,2)
proof (cases rule: evict_shape [where cfg = cfg])
  case (evicted xs ys)
  note cfg = valid_config_facts [OF assms(3)]
  have m: "mset (cache_files (maybe_evict cfg f d)) = mset ys"
    using cache_files_evicted [OF assms(2) evicted(1)] evicted(2) by simp
  have rest: "mb_of (cache_files (maybe_evict cfg f d)) = mb_of ys" "length (cache_files (maybe_evict cfg f d)) = length ys"
    using mb_of_mset [OF m] mset_eq_length [OF m] by simp_all
  have tot: "mb_of (cache_files d) = mb_of xs + mb_of ys" "length (cache_files d) = length xs + length ys"
    using mb_of_mset [OF by_mtime_perm [of d]] mset_eq_length [OF by_mtime_perm [of d]] by (simp_all add: evicted(1))
  have pi: "py_int (real_of_int (max_entry_count cfg) * (7 / 10)) \<le> real_of_int (max_entry_count cfg) * (7 / 10)"
    using cfg(3) of_int_floor_le [of "real_of_int (max_entry_count cfg) * (7 / 10)"]
    unfolding py_int_def by (auto split: if_split)
  show ?thesis
  proof (cases "ys = []")
    case True
    then show ?thesis using rest cfg by simp
  next
    case False
    with evicted(3) tot have "mb_of ys \<le> of_int (max_size_mb cfg) * (7 / 10)"
      "int (length ys) \<le> py_int (of_int (max_entry_count cfg) * (7 / 10))"
      by (auto simp: goal_met_def)
    moreover from this(2) have "real (length ys) \<le> of_int (py_int (of_int (max_entry_count cfg) * (7 / 10)))"
      by linarith
    ultimately show ?thesis using rest pi cfg by simp
  qed
qed simp

lemma last_sort_key:
  fixes k :: "'a \<Rightarrow> 'b :: linorder"
  assumes "a \<in> set l" "\<And>b. b \<in> set l \<Longrightarrow> b \<noteq> a \<Longrightarrow> k b < k a"
  shows "last (sort_key k l) = a"
proof (rule ccontr)
  assume ne: "last (sort_key k l) \<noteq> a"
  have nil: "sort_key k l \<noteq> []" using assms(1) by (metis list.set(1) empty_iff set_sort)
  then have "last (sort_key k l) \<in> set l" using last_in_set by fastforce
  with assms(2) ne have lt: "k (last (sort_key k l)) < k a" by blast
  from assms(1) obtain i where i: "i < length (sort_key k l)" "sort_key k l ! i = a"
    by (metis in_set_conv_nth set_sort)
  have "map k (sort_key k l) ! i \<le> map k (sort_key k l) ! (length (sort_key k l) - 1)"
    using i nil by (intro sorted_nth_mono) auto
  with i nil lt show False by (simp add: last_conv_nth)
qed

text \<open>The file written last is never the victim of the eviction its own write triggers.\<close>

lemma newest_survives:
  assumes "f_unlink f = None" "distinct (map fst d)" "valid_config cfg"
    and p: "map_of d p = Some (Regular b t)" "visible p"
    and size: "int (length b) \<le> max_value_mb cfg * 1024 * 1024 + 14"
    and newest: "\<forall>q nd. (q, nd) \<in> set (cache_files d) \<longrightarrow> q \<noteq> p \<longrightarrow> mtime nd < t"
  shows "map_of (maybe_evict cfg f d) p = Some (Regular b t)"
  using assms(1,2)
proof (cases rule: evict_shape [where cfg = cfg])
  case idle
  with p show ?thesis by simp
next
  case (evicted xs ys)
  note cfg = valid_config_facts [OF assms(3)]
  let ?e = "(p, Regular b t)"
  have in_e: "?e \<in> set (cache_files d)" using p by (auto simp: cache_files_def dest: map_of_SomeD)
  have older: "mtime nd < t" if "(q, nd) \<in> set (cache_files d)" "(q, nd) \<noteq> ?e" for q nd
    using eq_key_imp_eq_value [OF distinct_cache_files [OF assms(2)] in_e, of nd] newest that by auto
  have "last (by_mtime d) = ?e" unfolding by_mtime_def
  proof (rule last_sort_key [OF in_e])
    fix c
    assume "c \<in> set (cache_files d)" "c \<noteq> ?e"
    then show "(case c of (n, nd) \<Rightarrow> mtime nd) < (case ?e of (n, nd) \<Rightarrow> mtime nd)"
      using older [of "fst c" "snd c"] by (simp add: case_prod_beta)
  qed
  then have last: "last (xs @ ys) = ?e" by (simp add: evicted(1))
  have ne: "ys \<noteq> []"
  proof
    assume ys: "ys = []"
    have "xs \<noteq> []" using evicted(1) ys in_e by (metis append_Nil2 by_mtime_def empty_iff list.set(1) set_sort)
    then have xs: "xs = butlast xs @ [?e]" using last ys by (metis append_Nil2 append_butlast_last_id)
    have "mb_of (cache_files d) = mb_of (butlast xs @ [?e])" "length (cache_files d) = length (butlast xs @ [?e])"
      using mb_of_mset [OF by_mtime_perm [of d]] mset_eq_length [OF by_mtime_perm [of d]] evicted(1) ys xs by simp_all
    then have rest: "mb_of (cache_files d) - mb_of (butlast xs) = real (length b) / (1024 * 1024)"
      "int (length (cache_files d)) - int (length (butlast xs)) = 1"
      by (simp_all add: file_size_def)
    have "real (length b) \<le> of_int (max_value_mb cfg) * 1024 * 1024 + 14" using size by linarith
    then have "real (length b) / (1024 * 1024) \<le> of_int (max_size_mb cfg) * (7 / 10)"
      using cfg(1,2) by (simp add: field_simps)
    moreover have "1 \<le> py_int (of_int (max_entry_count cfg) * (7 / 10))"
      using cfg(3) by (auto simp: py_int_def le_floor_iff)
    ultimately have "goal_met (of_int (max_size_mb cfg) * (7 / 10)) (py_int (of_int (max_entry_count cfg) * (7 / 10)))
        (mb_of (cache_files d)) (int (length (cache_files d))) (butlast xs)"
      using rest by (simp add: goal_met_def)
    with evicted(4) \<open>xs \<noteq> []\<close> show False by simp
  qed
  then have "?e \<in> set ys" using last last_in_set [of ys] by simp
  moreover have "distinct (map fst (xs @ ys))" using distinct_by_mtime [OF assms(2)] evicted(1) by simp
  ultimately have "p \<notin> set (map fst xs)" by force
  with p show ?thesis
    by (simp add: evicted(2) fold_delete_filter map_of_filter_keys)
qed

section \<open>The backend as a store\<close>

text \<open>What is stored under the file name of a key: the payload behind a valid header.\<close>

fun node_payload :: "node \<Rightarrow> bytes option" where
  "node_payload (Regular b t) = (case parse_header b of Corrupt \<Rightarrow> None | Expiry x \<Rightarrow> Some (drop HEADER_SIZE b))"
| "node_payload _ = None"

definition file_lookup :: "dir \<Rightarrow> string \<Rightarrow> bytes option" where
  "file_lookup d p = (if visible p then Option.bind (map_of d p) node_payload else None)"

record file_env =
  fe_cfg :: file_config
  fe_faults :: faults
  fe_now :: real
  fe_tmp :: string
  fe_ttl :: "int option"

text \<open>A caller that treats errors as misses, over every fault but a short write.\<close>

definition file_get_at :: "file_env \<Rightarrow> string \<Rightarrow> dir \<Rightarrow> bytes option \<times> dir" where
  "file_get_at t p d =
     (case file_get (fe_faults t) (fe_now t) p p d of
        (Inr r, d') \<Rightarrow> (if visible p then r else None, d')
      | (Inl e, d') \<Rightarrow> (None, d'))"

definition file_put_at :: "file_env \<Rightarrow> string \<Rightarrow> bytes \<Rightarrow> dir \<Rightarrow> dir" where
  "file_put_at t p v d =
     (if visible p \<and> str_in ''.tmp.'' (fe_tmp t)
      then snd (file_set (fe_cfg t) ((fe_faults t)\<lparr>f_written := None\<rparr>) (fe_now t) p (fe_tmp t) p v (fe_ttl t) d)
      else d)"

definition file_remove :: "string \<Rightarrow> dir \<Rightarrow> dir" where
  "file_remove p d = (if map_of d p = Some Directory then d else snd (file_delete no_faults p p d))"

definition file_ok :: "dir \<Rightarrow> bool" where
  "file_ok d \<longleftrightarrow> distinct (map fst d)"

lemma file_get_hit:
  "file_get f now p key d = (Inr (Some v), d') \<longleftrightarrow>
     d' = d \<and> (\<exists>b t x. map_of d p = Some (Regular b t) \<and> f_open f = None \<and> f_lock f = None \<and> f_read f = None
       \<and> parse_header b = Expiry x \<and> \<not> header_expired now x \<and> v = drop HEADER_SIZE b)"
  by (auto simp: file_get_def read_locked_def os_open_def acquire_file_lock_def
      split: option.splits node.splits sum.splits header.splits if_splits)

lemma file_get_dir: "file_get f now p key d = (r, d') \<Longrightarrow> d' = d \<or> d' = safe_unlink f p d"
  by (auto simp: file_get_def split: sum.splits header.splits if_splits)

lemma file_lookup_mono: "map_of d' \<subseteq>\<^sub>m map_of d \<Longrightarrow> file_lookup d' \<subseteq>\<^sub>m file_lookup d"
proof -
  assume le: "map_of d' \<subseteq>\<^sub>m map_of d"
  have "file_lookup d p = Some v" if "file_lookup d' p = Some v" for p v
  proof -
    from that obtain nd where nd: "visible p" "map_of d' p = Some nd" "node_payload nd = Some v"
      by (auto simp: file_lookup_def bind_eq_Some_conv split: if_splits)
    with map_le_Some [OF le] have "map_of d p = Some nd" by blast
    with nd show ?thesis by (simp add: file_lookup_def)
  qed
  then show ?thesis by (auto simp: map_le_def)
qed

lemma build_header_payload:
  "node_payload (Regular (build_header x @ v) t) = Some w \<Longrightarrow> w = v"
  by (auto split: header.splits)

lemma file_set_lookup:
  assumes "distinct (map fst d)" "f_written f = None" "visible p" "str_in ''.tmp.'' tmp"
    "file_set cfg f now p tmp key v ttl d = (r, d')" "file_lookup d' q = Some w"
  shows "(q = p \<and> w = v) \<or> file_lookup d q = Some w"
proof -
  have tmp: "q \<noteq> tmp" "p \<noteq> tmp" using assms(3,4,6) by (auto simp: file_lookup_def visible_def split: if_splits)
  show ?thesis
  proof (cases r)
    case (Inl e)
    with file_set_failed_other [of cfg f now p tmp key v ttl d e d' q] assms(5,6) tmp show ?thesis
      by (auto simp: file_lookup_def split: if_splits)
  next
    case (Inr u)
    with file_set_ok [of cfg f now p tmp key v ttl d u d'] assms(1,5) tmp obtain x d2 where
      d2: "d' = maybe_evict cfg f d2" "map_of d2 = (map_of d)(p \<mapsto> Regular (build_header x @ v) now)"
      by (metis assms(2) option.simps(4) written_bytes_def)
    have "file_lookup d2 q = Some w"
      using file_lookup_mono [OF maybe_evict_le [of cfg f d2]] assms(6) unfolding d2(1) map_le_def by (metis domI)
    with build_header_payload [of x v now w] show ?thesis
      by (cases "q = p") (auto simp: file_lookup_def d2(2) split: if_splits simp del: node_payload.simps)
  qed
qed

interpretation fb: cache_store file_lookup file_get_at file_put_at file_remove file_ok
proof unfold_locales
  fix s s' :: dir and t k k' v w r
  assume ok: "file_ok s"
  show "file_lookup s k = Some v" if "file_get_at t k s = (Some v, s')"
    using that by (auto simp: file_get_at_def file_get_hit file_lookup_def split: prod.splits sum.splits if_splits)
  show "file_lookup s' \<subseteq>\<^sub>m file_lookup s" if "file_get_at t k s = (r, s')"
    using that file_get_dir [of "fe_faults t" "fe_now t" k k s]
    by (auto simp: file_get_at_def split: prod.splits sum.splits intro!: file_lookup_mono safe_unlink_le)
  show "k' = k \<and> w = v \<or> file_lookup s k' = Some w" if "file_lookup (file_put_at t k v s) k' = Some w"
    using that file_set_lookup [of s "(fe_faults t)\<lparr>f_written := None\<rparr>" k "fe_tmp t" "fe_cfg t" "fe_now t" k v
        "fe_ttl t", OF _ _ _ _ prod.collapse [symmetric], of k' w] ok
    by (auto simp: file_put_at_def file_ok_def split: if_splits)
  have rm: "map_of (file_remove k s) = (map_of s)(k := None) \<or> map_of s k = Some Directory \<and> file_remove k s = s"
    by (auto simp: file_remove_def file_delete_def os_unlink_def no_faults_def AList.delete_conv'
        split: option.splits node.splits)
  then show "file_lookup (file_remove k s) k = None" by (auto simp: file_lookup_def)
  have "map_of (file_remove k s) \<subseteq>\<^sub>m map_of s" using rm by (auto simp: map_le_def split: if_splits)
  then show "file_lookup (file_remove k s) \<subseteq>\<^sub>m file_lookup s" by (rule file_lookup_mono)
  show "file_ok s'" if "file_get_at t k s = (r, s')"
    using that file_get_dir [of "fe_faults t" "fe_now t" k k s] ok
    by (auto simp: file_get_at_def file_ok_def split: prod.splits sum.splits intro!: safe_unlink_distinct)
  show "file_ok (file_put_at t k v s)"
    using ok file_set_distinct by (auto simp: file_put_at_def file_ok_def) (metis prod.collapse)
  show "file_ok (file_remove k s)"
    using ok by (auto simp: file_remove_def file_delete_def file_ok_def dest: os_unlink_distinct split: sum.split)
qed

lemma file_get_cong:
  assumes "map_of d' q = map_of d q"
  shows "fst (file_get f t q key d') = fst (file_get f t q key d)"
proof -
  have "read_locked f q d' = read_locked f q d" unfolding read_locked_def os_open_def assms ..
  then show ?thesis by (simp add: file_get_def split: sum.split header.split)
qed

section \<open>Properties\<close>

text \<open>
  C9: Round trip through the file system: with a validated configuration, no system-call fault and all
  other cache files older than the clock, a successful \<^verbatim>\<open>set\<close> is read back by \<^verbatim>\<open>get\<close>, unaltered, until the whole
  second at which \<open>now + ttl\<close> is truncated (for ever without a TTL) and not after; the eviction the write
  may trigger never removes the entry itself.
\<close>

theorem file_set_get_roundtrip:
  assumes cfg: "valid_config cfg" and d: "distinct (map fst d)" and p: "visible p" "p \<noteq> tmp"
    and clock: "1 \<le> now" "now < 2 ^ 62"
    and older: "\<forall>q nd. (q, nd) \<in> set (cache_files d) \<longrightarrow> q \<noteq> p \<longrightarrow> mtime nd < now"
    and set: "file_set cfg no_faults now p tmp key v ttl d = (Inr u, d')"
  shows "fst (file_get no_faults t p key d') =
    Inr (if ttl = None \<or> ttl = Some 0 \<or> t \<le> of_int \<lfloor>now + of_int (the ttl)\<rfloor> then Some v else None)"
proof -
  have range: "0 \<le> x \<and> x < 2 ^ 64" if "expiry_from_ttl now ttl = Inr x" for x
    using expiry_from_ttl_range [OF that] clock by linarith
  from file_set_ok [OF set p(2) d] obtain x d2 where x: "expiry_from_ttl now ttl = Inr x"
    and d2: "d' = maybe_evict cfg no_faults d2" "distinct (map fst d2)"
      "map_of d2 = (map_of d)(p \<mapsto> Regular (build_header x @ v) now)"
    and size: "int (length v) \<le> max_value_mb cfg * 1024 * 1024"
    by (metis no_faults_def faults.select_convs(6) option.simps(4) written_bytes_def)
  have newest: "\<forall>q nd. (q, nd) \<in> set (cache_files d2) \<longrightarrow> q \<noteq> p \<longrightarrow> mtime nd < now"
  proof (intro allI impI)
    fix q nd
    assume q: "(q, nd) \<in> set (cache_files d2)" "q \<noteq> p"
    then have "map_of d2 q = Some nd" using d2(2) by (simp add: cache_files_def)
    with q d2(3) have "map_of d q = Some nd" by simp
    with q have "(q, nd) \<in> set (cache_files d)" using map_of_SomeD by (fastforce simp: cache_files_def)
    with older q(2) show "mtime nd < now" by blast
  qed
  have "map_of d' p = Some (Regular (build_header x @ v) now)"
    unfolding d2(1) using p(1) size newest d2(3)
    by (intro newest_survives [OF _ d2(2) cfg]) (simp_all add: no_faults_def HEADER_SIZE_def)
  moreover have "parse_header (build_header x @ v) = Expiry (nat x)"
    using range [OF x] parse_build_header by blast
  ultimately have got: "fst (file_get no_faults t p key d') = Inr (if header_expired t (nat x) then None else Some v)"
    by (simp add: file_get_def read_locked_def os_open_def acquire_file_lock_def no_faults_def)
  have "x = (case ttl of None \<Rightarrow> 0 | Some s \<Rightarrow> if s = 0 then 0 else \<lfloor>now + of_int s\<rfloor>)"
    using x clock(1) by (auto simp: expiry_from_ttl_def py_int_def split: option.splits if_splits)
  moreover have "\<lfloor>now + of_int s\<rfloor> \<ge> 1" if "ttl = Some s" "s \<noteq> 0" for s
  proof -
    have "0 \<le> s" using that x by (auto simp: expiry_from_ttl_def split: if_splits)
    then show ?thesis using clock(1) unfolding le_floor_iff by simp
  qed
  ultimately show ?thesis unfolding got by (force simp: header_expired_def split: option.splits if_splits)
qed

definition small_config :: file_config where
  "small_config = \<lparr>max_size_mb = 2, max_value_mb = 1, max_entry_count = 100\<rparr>"

lemma small_config_valid: "valid_config small_config"
  by (simp add: valid_config_def make_file_config_def small_config_def)

definition one_file :: "int \<Rightarrow> bytes \<Rightarrow> real \<Rightarrow> dir" where
  "one_file x v now = [(''aa'', Regular (build_header x @ v) now)]"

lemma set_one_file:
  "expiry_from_ttl now ttl = Inr x \<Longrightarrow> length v \<le> 1000 \<Longrightarrow>
   file_set small_config no_faults now ''aa'' ''aa.tmp.1.2'' ''k'' v ttl [] = (Inr (), one_file x v now)"
  by (simp add: file_set_def small_config_def check_entry_capacity_def calculate_cache_size_def cache_files_def
      write_temp_def no_faults_def acquire_file_lock_def written_bytes_def os_rename_def maybe_evict_def
      one_file_def HEADER_SIZE_def file_size_def visible_def startswith_dot_def)

theorem file_set_get_roundtrip_witness:
  "fst (file_get no_faults 160 ''aa'' ''k'' (one_file 160 [1, 2, 3] 100)) = Inr (Some [1, 2, 3])
 \<and> fst (file_get no_faults 161 ''aa'' ''k'' (one_file 160 [1, 2, 3] 100)) = Inr None"
proof -
  have x: "expiry_from_ttl 100 (Some 60) = Inr 160"
    by (simp add: expiry_from_ttl_def MAX_TTL_SECONDS_def py_int_def)
  have v: "visible ''aa''" by (simp add: visible_def startswith_dot_def)
  have set: "file_set small_config no_faults 100 ''aa'' ''aa.tmp.1.2'' ''k'' [1, 2, 3] (Some 60) []
      = (Inr (), one_file 160 [1, 2, 3] 100)"
    by (rule set_one_file [OF x]) simp
  show ?thesis
    using file_set_get_roundtrip [OF small_config_valid _ v _ _ _ _ set, of 160]
      file_set_get_roundtrip [OF small_config_valid _ v _ _ _ _ set, of 161]
    by (simp add: cache_files_def)
qed

text \<open>
  Capacity: with a validated configuration, whatever the directory held before, every successful \<^verbatim>\<open>set\<close>
  whose deletions succeed leaves the cache files within 90 % of \<^verbatim>\<open>max_size_mb\<close> and of \<^verbatim>\<open>max_entry_count\<close>.
\<close>

theorem file_set_within_capacity:
  assumes "valid_config cfg" "distinct (map fst d)" "p \<noteq> tmp" "f_unlink f = None"
    and "file_set cfg f now p tmp key v ttl d = (Inr u, d')"
  shows "fst (calculate_cache_size d') \<le> of_int (max_size_mb cfg) * (9 / 10)
       \<and> of_int (snd (calculate_cache_size d')) \<le> real_of_int (max_entry_count cfg) * (9 / 10)"
proof -
  from file_set_ok [OF assms(5,3,2)] obtain d2 where "d' = maybe_evict cfg f d2" "distinct (map fst d2)" by metis
  with evict_bounds [OF assms(4) _ assms(1)] show ?thesis by (auto simp: calculate_as_mb)
qed

theorem file_set_within_capacity_witness:
  "fst (calculate_cache_size (one_file 0 [1, 2, 3] 100)) \<le> 2 * (9 / 10)"
proof -
  have "file_set small_config no_faults 100 ''aa'' ''aa.tmp.1.2'' ''k'' [1, 2, 3] None []
      = (Inr (), one_file 0 [1, 2, 3] 100)"
    by (rule set_one_file) (simp_all add: expiry_from_ttl_def)
  from file_set_within_capacity [OF small_config_valid _ _ _ this] show ?thesis
    by (simp add: no_faults_def small_config_def)
qed

text \<open>
  A failed \<^verbatim>\<open>set\<close> is invisible: whatever system call failed and however the clean-up went, every file but the
  temporary one is as it was, so every key, the one being written included, still has its old value.
\<close>

theorem failed_set_changes_nothing:
  assumes "file_set cfg f now p tmp key v ttl d = (Inl e, d')" "q \<noteq> tmp"
  shows "map_of d' q = map_of d q \<and> fst (file_get f' t q key' d') = fst (file_get f' t q key' d)"
  using file_set_failed_other [OF assms] file_get_cong [of d' q d] by blast

theorem failed_set_changes_nothing_witness:
  "let f = no_faults\<lparr>f_fsync := Some ENOSPC\<rparr>;
       r = file_set small_config f 100 ''aa'' ''aa.tmp.1.2'' ''k'' [9] None (one_file 0 [1, 2, 3] 90)
   in isl (fst r) \<and> map_of (snd r) ''aa'' = map_of (one_file 0 [1, 2, 3] 90) ''aa''"
proof -
  let ?f = "no_faults\<lparr>f_fsync := Some ENOSPC\<rparr>"
  let ?r = "file_set small_config ?f 100 ''aa'' ''aa.tmp.1.2'' ''k'' [9] None (one_file 0 [1, 2, 3] 90)"
  have isl: "isl (fst ?r)"
    by (simp add: file_set_def small_config_def check_entry_capacity_def one_file_def write_temp_def no_faults_def
        acquire_file_lock_def expiry_from_ttl_def)
  then obtain e where "?r = (Inl e, snd ?r)" by (metis isl_def prod.collapse)
  from failed_set_changes_nothing [OF this, of "''aa''"] isl show ?thesis by (simp add: Let_def)
qed

text \<open>
  Nothing expired or malformed is ever served: a hit of \<^verbatim>\<open>get\<close> comes from a regular file with the right
  magic and version whose expiry field is 0 or not passed, it is the payload of that file, and the read
  leaves every other file alone.
\<close>

theorem file_get_serves_valid:
  assumes "file_get f now p key d = (Inr (Some v), d')"
  shows "d' = d \<and> (\<exists>b t. map_of d p = Some (Regular b t) \<and> take 2 b = MAGIC \<and> b ! 2 = FORMAT_VERSION
    \<and> v = drop 14 b \<and> (let x = be_val (take 8 (drop 6 b)) in x = 0 \<or> now \<le> real x))"
  using assms
  by (auto simp: file_get_hit parse_header_def header_expired_def HEADER_SIZE_def Let_def not_less split: if_splits)

theorem file_get_serves_valid_witness:
  "\<exists>b t. map_of (one_file 0 [1, 2, 3] 100) ''aa'' = Some (Regular b t) \<and> take 2 b = MAGIC"
proof -
  have "file_get no_faults 5 ''aa'' ''k'' (one_file 0 [1, 2, 3] 100) = (Inr (Some [1, 2, 3]), one_file 0 [1, 2, 3] 100)"
    using parse_build_header [of 0 "[1, 2, 3]"]
    by (simp add: file_get_hit one_file_def no_faults_def header_expired_def)
  from file_get_serves_valid [OF this] show ?thesis by blast
qed

text \<open>
  A short write goes unnoticed: \<^verbatim>\<open>set\<close> ignores the number of bytes \<^verbatim>\<open>os.write\<close> reports, so when the system
  writes the header and only the first \<open>m\<close> bytes of the value, \<^verbatim>\<open>set\<close> succeeds and \<^verbatim>\<open>get\<close> serves the truncated
  value as a hit.
\<close>

theorem short_write_is_served:
  assumes "length v \<le> 1000" "m \<le> length v"
  shows "let f = no_faults\<lparr>f_written := Some (14 + m)\<rparr>;
             r = file_set small_config f now ''aa'' ''aa.tmp.1.2'' ''k'' v None []
         in fst r = Inr () \<and> fst (file_get no_faults t ''aa'' ''k'' (snd r)) = Inr (Some (take m v))"
proof -
  let ?f = "no_faults\<lparr>f_written := Some (14 + m)\<rparr>"
  have "take (14 + m) (build_header 0 @ v) = build_header 0 @ take m v" by (simp add: HEADER_SIZE_def)
  then have "file_set small_config ?f now ''aa'' ''aa.tmp.1.2'' ''k'' v None [] = (Inr (), one_file 0 (take m v) now)"
    using assms
    by (simp add: file_set_def small_config_def check_entry_capacity_def calculate_cache_size_def cache_files_def
        write_temp_def no_faults_def acquire_file_lock_def written_bytes_def os_rename_def maybe_evict_def
        expiry_from_ttl_def one_file_def HEADER_SIZE_def file_size_def visible_def startswith_dot_def)
  moreover have "file_get no_faults t ''aa'' ''k'' (one_file 0 (take m v) now)
      = (Inr (Some (take m v)), one_file 0 (take m v) now)"
    using parse_build_header [of 0 "take m v"]
    by (simp add: file_get_hit one_file_def no_faults_def header_expired_def)
  ultimately show ?thesis by simp
qed

theorem short_write_is_served_witness:
  "let f = no_faults\<lparr>f_written := Some (14 + 1)\<rparr>;
       r = file_set small_config f 5 ''aa'' ''aa.tmp.1.2'' ''k'' [7, 8, 9] None []
   in fst r = Inr () \<and> fst (file_get no_faults 6 ''aa'' ''k'' (snd r)) = Inr (Some [7])"
  using short_write_is_served [of "[7, 8, 9]" 1 5 6] by simp

lemma patch_expiry_no_fault:
  "f_written f = None \<Longrightarrow> HEADER_SIZE \<le> length b \<Longrightarrow>
   patch_expiry f x b = take 6 b @ be_bytes 8 (nat x) @ drop HEADER_SIZE b"
  by (simp add: patch_expiry_def written_bytes_def HEADER_SIZE_def)

lemma parse_patched:
  assumes "parse_header b = Expiry y" "0 \<le> x" "x < 2 ^ 64"
  shows "parse_header (take 6 b @ be_bytes 8 (nat x) @ drop HEADER_SIZE b) = Expiry (nat x)"
    "drop HEADER_SIZE (take 6 b @ be_bytes 8 (nat x) @ drop HEADER_SIZE b) = drop HEADER_SIZE b"
proof -
  have b: "14 \<le> length b" "take 2 b = MAGIC" "b ! 2 = FORMAT_VERSION"
    using assms(1) by (auto simp: parse_header_def HEADER_SIZE_def split: if_splits)
  have "nat x < 256 ^ 8" using assms(2,3) by (simp add: nat_less_iff)
  then have "be_val (be_bytes 8 (nat x)) = nat x" by (rule be_val_be_bytes_id)
  with b show "parse_header (take 6 b @ be_bytes 8 (nat x) @ drop HEADER_SIZE b) = Expiry (nat x)"
    by (simp add: parse_header_def HEADER_SIZE_def nth_append min_def del: be_bytes.simps)
  show "drop HEADER_SIZE (take 6 b @ be_bytes 8 (nat x) @ drop HEADER_SIZE b) = drop HEADER_SIZE b"
    using b by (simp add: HEADER_SIZE_def min_def del: be_bytes.simps)
qed

text \<open>
  \<^verbatim>\<open>refresh_ttl\<close> on a live entry without faults changes the expiry field and nothing else: the payload is
  untouched, and the entry is then served until the new expiry.
\<close>

theorem refresh_ttl_only_moves_expiry:
  assumes hit: "file_get no_faults now p key d = (Inr (Some v), d)"
    and ttl: "0 < ttl" "ttl \<le> MAX_TTL_SECONDS" and clock: "1 \<le> now" "now < 2 ^ 62"
    and ref: "refresh_ttl no_faults now p key ttl d = (r, d')"
  shows "r = Inr True \<and> (\<forall>q. q \<noteq> p \<longrightarrow> map_of d' q = map_of d q)
    \<and> fst (file_get no_faults t p key d') = Inr (if t \<le> of_int \<lfloor>now + of_int ttl\<rfloor> then Some v else None)"
proof -
  from hit obtain b m y where b: "map_of d p = Some (Regular b m)" "parse_header b = Expiry y"
    "\<not> header_expired now y" "v = drop HEADER_SIZE b" by (auto simp: file_get_hit)
  let ?x = "\<lfloor>now + of_int ttl\<rfloor>"
  have x: "expiry_from_ttl now (Some ttl) = Inr ?x" using ttl clock by (simp add: expiry_from_ttl_def py_int_def)
  have range: "0 \<le> ?x \<and> ?x < 2 ^ 64" using expiry_from_ttl_range [OF x] clock by linarith
  have pos: "1 \<le> ?x" using ttl clock unfolding le_floor_iff by simp
  let ?b = "take 6 b @ be_bytes 8 (nat ?x) @ drop HEADER_SIZE b"
  have len: "HEADER_SIZE \<le> length b" using b(2) by (auto simp: parse_header_def split: if_splits)
  have ref': "r = Inr True" "d' = AList.update p (Regular ?b now) d"
    using ref b patch_expiry_no_fault [OF _ len, of no_faults ?x]
    by (auto simp: refresh_ttl_def x read_locked_def os_open_def no_faults_def acquire_file_lock_def
        parse_header_take Let_def simp del: be_bytes.simps)
  have "fst (file_get no_faults t p key d') = Inr (if header_expired t (nat ?x) then None else Some v)"
    using parse_patched [OF b(2)] range b(4)
    by (simp add: ref'(2) file_get_def read_locked_def os_open_def acquire_file_lock_def no_faults_def update_conv'
        del: be_bytes.simps)
  with ref' pos show ?thesis by (auto simp: header_expired_def update_conv')
qed

theorem refresh_ttl_only_moves_expiry_witness:
  "fst (file_get no_faults 200 ''aa'' ''k'' (snd (refresh_ttl no_faults 150 ''aa'' ''k'' 60 (one_file 160 [1, 2, 3] 100))))
     = Inr (Some [1, 2, 3])"
proof -
  let ?d = "one_file 160 [1, 2, 3] 100"
  have "file_get no_faults 150 ''aa'' ''k'' ?d = (Inr (Some [1, 2, 3]), ?d)"
    using parse_build_header [of 160 "[1, 2, 3]"]
    by (simp add: file_get_hit one_file_def no_faults_def header_expired_def)
  from refresh_ttl_only_moves_expiry [OF this, of 60 "fst (refresh_ttl no_faults 150 ''aa'' ''k'' 60 ?d)"
      "snd (refresh_ttl no_faults 150 ''aa'' ''k'' 60 ?d)" 200]
  show ?thesis by (simp add: MAX_TTL_SECONDS_def)
qed

text \<open>
  At the very second of its expiry an entry is still live for \<^verbatim>\<open>get\<close> and \<^verbatim>\<open>exists\<close>, but \<^verbatim>\<open>get_ttl\<close> treats it as
  expired and unlinks it, after which \<^verbatim>\<open>get\<close> misses: a mere TTL inspection can drop a live entry.
\<close>

theorem get_ttl_drops_live_entry:
  "fst (file_get no_faults 160 ''aa'' ''k'' (one_file 160 [1, 2, 3] 100)) = Inr (Some [1, 2, 3])
 \<and> fst (file_exists no_faults 160 ''aa'' ''k'' (one_file 160 [1, 2, 3] 100)) = Inr True
 \<and> get_ttl no_faults 160 ''aa'' ''k'' (one_file 160 [1, 2, 3] 100) = (Inr None, [])
 \<and> fst (file_get no_faults 160 ''aa'' ''k'' []) = Inr None"
proof -
  have "parse_header (build_header 160 @ [1, 2, 3]) = Expiry 160" "parse_header (build_header 160) = Expiry 160"
    using parse_build_header [of 160 "[1, 2, 3]"] parse_build_header [of 160 "[]"] by simp_all
  then show ?thesis
    by (simp add: file_get_def file_exists_def get_ttl_def read_locked_def os_open_def acquire_file_lock_def
        no_faults_def one_file_def header_expired_def safe_unlink_def os_unlink_def)
qed

text \<open>
  Eviction is by age of the last write, not by use: whenever the size threshold is exceeded, the file
  written first is evicted, even if it was read just before.
\<close>

theorem eviction_ignores_reads:
  assumes "f_unlink f = None" "distinct (map fst d)" "by_mtime d = (n, nd) # rest"
    "fst (calculate_cache_size d) > of_int (max_size_mb cfg) * (9 / 10)" "0 \<le> max_size_mb cfg"
  shows "map_of (maybe_evict cfg f (snd (file_get no_faults now n key d))) n = None"
proof -
  have reg: "map_of d n = Some nd" "is_regular nd" using by_mtime_regular [OF assms(2)] assms(3) by auto
  show ?thesis
  proof (cases "snd (file_get no_faults now n key d) = d")
    case True
    from assms(1,2) show ?thesis
    proof (cases rule: evict_shape [where cfg = cfg])
      case idle
      with assms(4) show ?thesis by (simp add: calculate_as_mb)
    next
      case (evicted xs ys)
      have "mb_of (cache_files d) > of_int (max_size_mb cfg) * (7 / 10)"
        using assms(4,5) by (simp add: calculate_as_mb)
      then have "xs \<noteq> []" using evicted(1,3) assms(3) by (auto simp: goal_met_def)
      then have "n \<in> set (map fst xs)" using evicted(1) assms(3) by (cases xs) auto
      then obtain e where "(n, e) \<in> set xs" by auto
      then have "n \<notin> fst ` set (filter (\<lambda>p. fst p \<notin> set (map fst xs)) d)"
        by (simp add: image_iff) (metis fst_conv)
      then show ?thesis using True evicted(2)
        by (metis fold_delete_filter map_of_eq_None_iff)
    qed
  next
    case False
    with file_get_dir [of no_faults now n key d] reg have "map_of (snd (file_get no_faults now n key d)) n = None"
      by (cases "file_get no_faults now n key d"; cases nd)
         (auto simp: safe_unlink_def os_unlink_def no_faults_def AList.delete_conv')
    then show ?thesis using map_le_Some [OF maybe_evict_le [of cfg f "snd (file_get no_faults now n key d)"], of n]
      by (cases "map_of (maybe_evict cfg f (snd (file_get no_faults now n key d))) n") simp_all
  qed
qed

theorem eviction_ignores_reads_witness:
  "let d = [(''aa'', Regular (build_header 0 @ replicate 1000000 7) 10), (''bb'', Regular (build_header 0 @ replicate 1000000 8) 20)]
   in map_of (maybe_evict small_config no_faults (snd (file_get no_faults 30 ''aa'' ''k'' d))) ''aa'' = None"
proof -
  let ?a = "Regular (build_header 0 @ replicate 1000000 7) 10" and ?b = "Regular (build_header 0 @ replicate 1000000 8) 20"
  have files: "cache_files [(''aa'', ?a), (''bb'', ?b)] = [(''aa'', ?a), (''bb'', ?b)]"
    by (simp add: cache_files_def visible_def startswith_dot_def)
  have m: "by_mtime [(''aa'', ?a), (''bb'', ?b)] = (''aa'', ?a) # [(''bb'', ?b)]"
    by (simp add: by_mtime_def files)
  have "fst (calculate_cache_size [(''aa'', ?a), (''bb'', ?b)]) > of_int (max_size_mb small_config) * (9 / 10)"
    by (simp add: calculate_cache_size_def files file_size_def small_config_def HEADER_SIZE_def)
  from eviction_ignores_reads [OF _ _ m this, of no_faults 30 "''k''"] show ?thesis
    by (simp add: no_faults_def small_config_def)
qed

end
