(* ===== verification/Key_Generator.thy ===== *)
theory Key_Generator
  imports CK_Prelude "HOL-Library.List_Lexorder" "HOL-Library.Multiset"
begin

text \<open>
  \<^verbatim>\<open>key_generator.py\<close>: normalisation of arguments and construction of cache keys. Python strings are lists of
  code points. Arguments of the model: \<^verbatim>\<open>msgpack.packb\<close> (it may refuse a value) and the \<^verbatim>\<open>blake2b\<close> hex digests
  (64 lower-case hex digits).
\<close>

section \<open>Argument values\<close>

type_synonym ucs = "nat list"

definition ucs :: "string \<Rightarrow> ucs" where
  "ucs s = map of_char s"

text \<open>Floats with their negative zero.\<close>

datatype fl = NegZero | Fl pyfloat

text \<open>Dictionary keys of the three comparable kinds.\<close>

datatype dkey = KStr ucs | KNum int | KByt bytes

record np_array =
  na_nbytes :: nat
  na_shape :: "nat list"
  na_dtype :: string
  na_le_bytes :: bytes

datatype pyval =
    PNone | PBool bool | PInt int | PFloat fl | PStr ucs | PBytes bytes
  | PList "pyval list" | PTuple "pyval list" | PDict "(dkey \<times> pyval) list"
  | PPath ucs | PUuid ucs | PDecimal ucs | PEnum pyval | PDatetime bool ucs
  | PArray np_array | PSet | PPandas | PObject string

text \<open>What \<^verbatim>\<open>_normalize\<close> leaves for MessagePack.\<close>

datatype nval =
    NNone | NBool bool | NInt int | NFloat fl | NStr ucs | NBytes bytes
  | NList "nval list" | NMap "(dkey \<times> nval) list"

datatype key_error =
    NaiveDatetime | ArrayTooLarge nat | ArraysTooLarge nat | ArrayDims nat | ArrayDtype string
  | SetArgument | PandasArgument | UnsupportedType string | UnorderableKeys | PackFailed string

section \<open>Sorting of dictionary items\<close>

fun lex_le :: "('a :: linorder) list \<Rightarrow> 'a list \<Rightarrow> bool" where
  "lex_le [] ys = True"
| "lex_le (x # xs) [] = False"
| "lex_le (x # xs) (y # ys) = (x < y \<or> x = y \<and> lex_le xs ys)"

text \<open>Python's order on two keys; \<open>None\<close> when they are not comparable.\<close>

fun key_le :: "dkey \<Rightarrow> dkey \<Rightarrow> bool option" where
  "key_le (KStr a) (KStr b) = Some (lex_le a b)"
| "key_le (KNum a) (KNum b) = Some (a \<le> b)"
| "key_le (KByt a) (KByt b) = Some (lex_le (map unat a) (map unat b))"
| "key_le _ _ = None"

fun insert_item :: "dkey \<times> 'v \<Rightarrow> (dkey \<times> 'v) list \<Rightarrow> (dkey \<times> 'v) list option" where
  "insert_item p [] = Some [p]"
| "insert_item p (q # qs) =
     (case key_le (fst p) (fst q) of
        None \<Rightarrow> None
      | Some True \<Rightarrow> Some (p # q # qs)
      | Some False \<Rightarrow> map_option (\<lambda>r. q # r) (insert_item p qs))"

text \<open>\<^verbatim>\<open>sorted(d.items())\<close>: the keys of a dictionary are distinct, so values are never compared.\<close>

fun sort_items :: "(dkey \<times> 'v) list \<Rightarrow> (dkey \<times> 'v) list option" where
  "sort_items [] = Some []"
| "sort_items (p # ps) = Option.bind (sort_items ps) (insert_item p)"

lemma insert_item_set: "insert_item p qs = Some rs \<Longrightarrow> set rs = insert p (set qs)"
  by (induction p qs arbitrary: rs rule: insert_item.induct) (auto split: option.splits bool.splits)

lemma sort_items_set: "sort_items ps = Some qs \<Longrightarrow> set qs = set ps"
  by (induction ps arbitrary: qs) (auto simp: bind_eq_Some_conv dest: insert_item_set)

lemma insert_item_size: "insert_item p qs = Some rs \<Longrightarrow> size_list f rs = Suc (f p) + size_list f qs"
  by (induction p qs arbitrary: rs rule: insert_item.induct) (auto split: option.splits bool.splits)

lemma sort_items_size: "sort_items ps = Some qs \<Longrightarrow> size_list f qs = size_list f ps"
  by (induction ps arbitrary: qs) (auto simp: bind_eq_Some_conv insert_item_size)

section \<open>Normalisation\<close>

definition ARRAY_MAX_BYTES :: nat where "ARRAY_MAX_BYTES = 100000"
definition ARRAY_AGGREGATE_MAX :: nat where "ARRAY_AGGREGATE_MAX = 5000000"

definition DTYPE_MAP :: "(string \<times> string) list" where
  "DTYPE_MAP = [(''int32'', ''i32''), (''int64'', ''i64''), (''float32'', ''f32''), (''float64'', ''f64'')]"

definition normalize_array ::
  "(bytes \<Rightarrow> ucs) \<Rightarrow> np_array \<Rightarrow> nat \<Rightarrow> key_error + nval \<times> nat" where
  "normalize_array blake2b arr seen =
     (if na_nbytes arr > ARRAY_MAX_BYTES then Inl (ArrayTooLarge (na_nbytes arr))
      else
        let seen' = seen + na_nbytes arr in
        if seen' > ARRAY_AGGREGATE_MAX then Inl (ArraysTooLarge seen')
        else if length (na_shape arr) \<noteq> 1 then Inl (ArrayDims (length (na_shape arr)))
        else
          (case map_of DTYPE_MAP (na_dtype arr) of
             None \<Rightarrow> Inl (ArrayDtype (na_dtype arr))
           | Some d \<Rightarrow>
               Inr (NList [NStr (ucs ''__array_v1__''), NList (map (\<lambda>n. NInt (int n)) (na_shape arr)),
                           NStr (ucs d), NStr (blake2b (na_le_bytes arr))], seen')))"

definition items_size :: "(dkey \<times> pyval) list \<Rightarrow> nat" where
  "items_size = size_list (size_prod (\<lambda>_. 0) size)"

lemma items_size_simps [simp]:
  "items_size [] = 0" "items_size ((k, x) # xs) = Suc (Suc (size x + items_size xs))"
  "size (PDict items) = Suc (items_size items)"
  by (simp_all add: items_size_def)

lemma items_size_sorted: "sort_items ps = Some qs \<Longrightarrow> items_size qs = items_size ps"
  by (simp add: items_size_def sort_items_size)

text \<open>\<open>seen\<close> is the running total of array bytes, the one-element list the code passes along.\<close>

function normalize :: "(bytes \<Rightarrow> ucs) \<Rightarrow> pyval \<Rightarrow> nat \<Rightarrow> key_error + nval \<times> nat"
  and normalize_all :: "(bytes \<Rightarrow> ucs) \<Rightarrow> pyval list \<Rightarrow> nat \<Rightarrow> key_error + nval list \<times> nat"
  and normalize_items ::
    "(bytes \<Rightarrow> ucs) \<Rightarrow> (dkey \<times> pyval) list \<Rightarrow> nat \<Rightarrow> key_error + (dkey \<times> nval) list \<times> nat" where
  "normalize h (PDict items) seen =
     (case sort_items items of
        None \<Rightarrow> Inl UnorderableKeys
      | Some its \<Rightarrow>
          (case normalize_items h its seen of Inl e \<Rightarrow> Inl e | Inr (m, s) \<Rightarrow> Inr (NMap m, s)))"
| "normalize h (PList xs) seen =
     (case normalize_all h xs seen of Inl e \<Rightarrow> Inl e | Inr (ns, s) \<Rightarrow> Inr (NList ns, s))"
| "normalize h (PTuple xs) seen =
     (case normalize_all h xs seen of Inl e \<Rightarrow> Inl e | Inr (ns, s) \<Rightarrow> Inr (NList ns, s))"
| "normalize h (PFloat f) seen = Inr (NFloat (if f = NegZero then Fl (Fin 0) else f), seen)"
| "normalize h (PPath p) seen = Inr (NStr p, seen)"
| "normalize h (PUuid u) seen = Inr (NStr u, seen)"
| "normalize h (PDecimal d) seen = Inr (NStr d, seen)"
| "normalize h (PEnum v) seen = normalize h v seen"
| "normalize h (PDatetime aware isofmt) seen = (if \<not> aware then Inl NaiveDatetime else Inr (NStr isofmt, seen))"
| "normalize h (PArray a) seen = normalize_array h a seen"
| "normalize h (PInt i) seen = Inr (NInt i, seen)"
| "normalize h (PStr s) seen = Inr (NStr s, seen)"
| "normalize h (PBytes b) seen = Inr (NBytes b, seen)"
| "normalize h (PBool b) seen = Inr (NBool b, seen)"
| "normalize h PNone seen = Inr (NNone, seen)"
| "normalize h PSet seen = Inl SetArgument"
| "normalize h PPandas seen = Inl PandasArgument"
| "normalize h (PObject t) seen = Inl (UnsupportedType t)"
| "normalize_all h [] seen = Inr ([], seen)"
| "normalize_all h (x # xs) seen =
     (case normalize h x seen of
        Inl e \<Rightarrow> Inl e
      | Inr (n, s) \<Rightarrow> (case normalize_all h xs s of Inl e \<Rightarrow> Inl e | Inr (ns, s') \<Rightarrow> Inr (n # ns, s')))"
| "normalize_items h [] seen = Inr ([], seen)"
| "normalize_items h ((k, x) # xs) seen =
     (case normalize h x seen of
        Inl e \<Rightarrow> Inl e
      | Inr (n, s) \<Rightarrow> (case normalize_items h xs s of Inl e \<Rightarrow> Inl e | Inr (ns, s') \<Rightarrow> Inr ((k, n) # ns, s')))"
  by pat_completeness auto

termination
  by (relation "measure (\<lambda>x. case x of Inl (h, v, s) \<Rightarrow> size v
        | Inr (Inl (h, xs, s)) \<Rightarrow> size_list size xs | Inr (Inr (h, items, s)) \<Rightarrow> items_size items)")
     (auto simp: items_size_sorted simp flip: items_size_def)

section \<open>Keys\<close>

definition MAX_KEY_LENGTH :: nat where "MAX_KEY_LENGTH = 250"
definition KEY_PREFIX_LENGTH :: nat where "KEY_PREFIX_LENGTH = 50"
definition FUNC_NAME_MAX :: nat where "FUNC_NAME_MAX = 200"

definition SERIALIZER_CODES :: "(string \<times> string) list" where
  "SERIALIZER_CODES = [(''std'', ''s''), (''auto'', ''a''), (''orjson'', ''o''), (''arrow'', ''w''), (''local'', ''l'')]"

definition func_char :: "nat \<Rightarrow> bool" where
  "func_char c \<longleftrightarrow> (65 \<le> c \<and> c \<le> 90) \<or> (97 \<le> c \<and> c \<le> 122) \<or> (48 \<le> c \<and> c \<le> 57) \<or> c = 95 \<or> c = 46"

text \<open>The two substitutions: disallowed characters by \<^verbatim>\<open>_\<close>, runs of dots by one dot.\<close>

definition replace_bad :: "ucs \<Rightarrow> ucs" where
  "replace_bad s = map (\<lambda>c. if func_char c then c else 95) s"

fun collapse_dots :: "ucs \<Rightarrow> ucs" where
  "collapse_dots (a # b # s) = (if a = 46 \<and> b = 46 then collapse_dots (b # s) else a # collapse_dots (b # s))"
| "collapse_dots s = s"

definition sanitize_func_name :: "ucs \<Rightarrow> ucs \<Rightarrow> ucs" where
  "sanitize_func_name modname qualname =
     take FUNC_NAME_MAX (collapse_dots (replace_bad (modname @ [46] @ qualname)))"

definition normalize_key :: "(ucs \<Rightarrow> ucs) \<Rightarrow> ucs \<Rightarrow> ucs" where
  "normalize_key digest key =
     (let normalized = map (\<lambda>c. if c = 32 \<or> c = 10 \<or> c = 13 then 95 else c) key in
      if length normalized > MAX_KEY_LENGTH
      then take KEY_PREFIX_LENGTH normalized @ [58] @ take 32 (digest normalized)
      else normalized)"

definition blake2b_hash ::
  "(bytes \<Rightarrow> ucs) \<Rightarrow> (nval \<Rightarrow> string + bytes) \<Rightarrow> pyval list \<Rightarrow> (ucs \<times> pyval) list \<Rightarrow> key_error + ucs" where
  "blake2b_hash blake2b packb args kwargs =
     (case normalize_all blake2b args 0 of
        Inl e \<Rightarrow> Inl e
      | Inr (nargs, seen) \<Rightarrow>
          (case sort_items (map (\<lambda>(k, v). (KStr k, v)) kwargs) of
             None \<Rightarrow> Inl UnorderableKeys
           | Some items \<Rightarrow>
               (case normalize_items blake2b items seen of
                  Inl e \<Rightarrow> Inl e
                | Inr (nkwargs, seen') \<Rightarrow>
                    (case packb (NList [NList nargs, NMap nkwargs]) of
                       Inl e \<Rightarrow> Inl (PackFailed e)
                     | Inr b \<Rightarrow> Inr (blake2b b)))))"

definition raw_key :: "ucs option \<Rightarrow> ucs \<Rightarrow> ucs \<Rightarrow> bool \<Rightarrow> string \<Rightarrow> ucs" where
  "raw_key namespace func_name args_hash integrity_checking serializer_type =
     (case namespace of None \<Rightarrow> [] | Some ns \<Rightarrow> if ns = [] then [] else ucs ''ns:'' @ ns @ ucs '':'')
     @ ucs ''func:'' @ func_name @ ucs '':'' @ ucs ''args:'' @ args_hash @ ucs '':''
     @ ucs (if integrity_checking then ''1'' else ''0'')
     @ ucs (case map_of SERIALIZER_CODES serializer_type of None \<Rightarrow> ''s'' | Some c \<Rightarrow> c)"

text \<open>\<^verbatim>\<open>generate_key\<close> for a function given by its module and qualified name.\<close>

definition generate_key ::
  "(bytes \<Rightarrow> ucs) \<Rightarrow> (ucs \<Rightarrow> ucs) \<Rightarrow> (nval \<Rightarrow> string + bytes) \<Rightarrow> ucs \<times> ucs \<Rightarrow> pyval list \<Rightarrow> (ucs \<times> pyval) list
   \<Rightarrow> ucs option \<Rightarrow> bool \<Rightarrow> string \<Rightarrow> key_error + ucs" where
  "generate_key blake2b digest packb func args kwargs namespace ic serializer_type =
     (case blake2b_hash blake2b packb args kwargs of
        Inl e \<Rightarrow> Inl e
      | Inr args_hash \<Rightarrow>
          Inr (normalize_key digest
                 (raw_key namespace (sanitize_func_name (fst func) (snd func)) args_hash ic serializer_type)))"

section \<open>The function component\<close>

fun no_double_dot :: "ucs \<Rightarrow> bool" where
  "no_double_dot (a # b # s) = (\<not> (a = 46 \<and> b = 46) \<and> no_double_dot (b # s))"
| "no_double_dot s = True"

lemma collapse_dots_hd: "s \<noteq> [] \<Longrightarrow> collapse_dots s \<noteq> [] \<and> hd (collapse_dots s) = hd s"
  by (induction s rule: collapse_dots.induct) auto

lemma no_double_dot_Cons: "no_double_dot (a # s) \<longleftrightarrow> (s = [] \<or> \<not> (a = 46 \<and> hd s = 46)) \<and> no_double_dot s"
  by (cases s) auto

lemma collapse_no_double_dot: "no_double_dot (collapse_dots s)"
proof (induction s rule: collapse_dots.induct)
  case (1 a b s)
  then show ?case using collapse_dots_hd [of "b # s"] by (auto simp: no_double_dot_Cons)
qed auto

lemma collapse_set: "set (collapse_dots s) \<subseteq> set s"
  by (induction s rule: collapse_dots.induct) auto

lemma no_double_dot_prefix: "no_double_dot (xs @ ys) \<Longrightarrow> no_double_dot xs"
  by (induction xs rule: no_double_dot.induct) auto

lemma take_no_double_dot: "no_double_dot s \<Longrightarrow> no_double_dot (take n s)"
  by (rule no_double_dot_prefix [of _ "drop n s"]) simp

lemma sanitized_chars: "c \<in> set (sanitize_func_name m q) \<Longrightarrow> func_char c"
proof -
  assume "c \<in> set (sanitize_func_name m q)"
  then have "c \<in> set (replace_bad (m @ [46] @ q))"
    unfolding sanitize_func_name_def using collapse_set in_set_takeD by fast
  then show ?thesis by (auto simp: replace_bad_def func_char_def)
qed

section \<open>Keys determine calls\<close>

definition hex_digests :: "('a \<Rightarrow> ucs) \<Rightarrow> bool" where
  "hex_digests h \<longleftrightarrow> (\<forall>x. length (h x) = 64 \<and> (\<forall>c \<in> set (h x). (48 \<le> c \<and> c \<le> 57) \<or> (97 \<le> c \<and> c \<le> 102)))"

text \<open>A namespace without colons and blanks; \<open>None\<close> and the empty one add nothing to the key.\<close>

definition plain_namespace :: "ucs option \<Rightarrow> bool" where
  "plain_namespace ns \<longleftrightarrow> (\<forall>s. ns = Some s \<longrightarrow> (\<forall>c \<in> set s. c \<notin> {58, 32, 10, 13}))"

definition ns_text :: "ucs option \<Rightarrow> ucs" where
  "ns_text ns = (case ns of None \<Rightarrow> [] | Some s \<Rightarrow> s)"

definition serializer_code :: "string \<Rightarrow> string" where
  "serializer_code st = (case map_of SERIALIZER_CODES st of None \<Rightarrow> ''s'' | Some c \<Rightarrow> c)"

lemma serializer_code_cases: "serializer_code st \<in> {''s'', ''a'', ''o'', ''w'', ''l''}"
  by (auto simp: serializer_code_def SERIALIZER_CODES_def split: option.splits if_splits)

text \<open>The parts of a raw key, colon-free each.\<close>

lemma raw_key_parts:
  "raw_key ns f h ic st =
    (if ns_text ns = [] then [] else [110, 115] @ 58 # ns_text ns @ [58])
    @ [102, 117, 110, 99] @ 58 # f @ 58 # [97, 114, 103, 115] @ 58 # h @ 58 # [if ic then 49 else 48] @ ucs (serializer_code st)"
  by (auto simp: raw_key_def ucs_def ns_text_def serializer_code_def split: option.splits)

lemma raw_key_inject:
  assumes eq: "raw_key ns f h ic st = raw_key ns' f' h' ic' st'"
    and ns: "plain_namespace ns" "plain_namespace ns'" and f: "58 \<notin> set f" "58 \<notin> set f'"
    and h: "58 \<notin> set h" "58 \<notin> set h'"
  shows "ns_text ns = ns_text ns' \<and> f = f' \<and> h = h' \<and> ic = ic' \<and> serializer_code st = serializer_code st'"
proof -
  let ?tail = "\<lambda>f h ic st. f @ 58 # [97, 114, 103, 115] @ 58 # h @ 58 # [if ic then 49 else 48] @ ucs (serializer_code st)"
  have nc: "58 \<notin> set (ns_text ns)" "58 \<notin> set (ns_text ns')"
    using ns by (auto simp: plain_namespace_def ns_text_def split: option.splits)
  have tl: "ns_text ns = ns_text ns' \<and> ?tail f h ic st = ?tail f' h' ic' st'"
  proof (cases "ns_text ns = []"; cases "ns_text ns' = []")
    assume "ns_text ns \<noteq> []" "ns_text ns' \<noteq> []"
    with eq have "ns_text ns @ 58 # [102, 117, 110, 99] @ 58 # ?tail f h ic st
        = ns_text ns' @ 58 # [102, 117, 110, 99] @ 58 # ?tail f' h' ic' st'" by (simp add: raw_key_parts)
    from split_at_first [OF nc this] show ?thesis by simp
  qed (use eq in \<open>simp_all add: raw_key_parts\<close>)
  from split_at_first [OF f conjunct2 [OF tl]] have f': "f = f'"
    and tl': "h @ 58 # [if ic then 49 else 48] @ ucs (serializer_code st)
        = h' @ 58 # [if ic' then 49 else 48] @ ucs (serializer_code st')" by simp_all
  from split_at_first [OF h tl'] have h': "h = h'" "ic = ic'" "ucs (serializer_code st) = ucs (serializer_code st')"
    by (auto split: if_splits)
  then have "serializer_code st = serializer_code st'"
    using serializer_code_cases [of st] serializer_code_cases [of st'] by (auto simp: ucs_def)
  with tl f' h' show ?thesis by blast
qed

definition no_blank :: "ucs \<Rightarrow> bool" where
  "no_blank s \<longleftrightarrow> (\<forall>c \<in> set s. c \<notin> {32, 10, 13})"

lemma no_blank_simps [simp]:
  "no_blank []" "no_blank (c # s) \<longleftrightarrow> c \<notin> {32, 10, 13} \<and> no_blank s" "no_blank (s @ t) \<longleftrightarrow> no_blank s \<and> no_blank t"
  by (auto simp: no_blank_def)

lemma hex_no_colon: "hex_digests h \<Longrightarrow> 58 \<notin> set (h x) \<and> no_blank (h x)"
  by (force simp: hex_digests_def no_blank_def)

lemma sanitized_no_colon: "58 \<notin> set (sanitize_func_name m q) \<and> no_blank (sanitize_func_name m q)"
  using sanitized_chars [of _ m q] by (force simp: func_char_def no_blank_def)

lemma raw_key_no_blank:
  assumes "plain_namespace ns" "no_blank f" "no_blank h"
  shows "no_blank (raw_key ns f h ic st)"
proof -
  have "no_blank (ns_text ns)" using assms(1) by (auto simp: plain_namespace_def ns_text_def no_blank_def split: option.splits)
  moreover have "no_blank (ucs (serializer_code st))"
    using serializer_code_cases [of st] by (auto simp: ucs_def)
  ultimately show ?thesis using assms(2,3) unfolding raw_key_parts by simp
qed

lemma normalize_key_plain:
  "no_blank k \<Longrightarrow> normalize_key d k = (if length k > 250 then take 50 k @ [58] @ take 32 (d k) else k)"
proof -
  assume "no_blank k"
  then have "map (\<lambda>c. if c = 32 \<or> c = 10 \<or> c = 13 then 95 else c) k = k"
    by (intro map_idI) (auto simp: no_blank_def)
  then show ?thesis by (simp add: normalize_key_def Let_def MAX_KEY_LENGTH_def KEY_PREFIX_LENGTH_def)
qed

text \<open>A shortened key and an unshortened one always differ: only the latter ends in colon, flag, code.\<close>

lemma raw_key_colon: "length (raw_key ns f h ic st) \<ge> 3 \<and> raw_key ns f h ic st ! (length (raw_key ns f h ic st) - 3) = 58"
proof -
  obtain p c where r: "raw_key ns f h ic st = p @ [58, if ic then 49 else 48, c]"
    using serializer_code_cases [of st] unfolding raw_key_parts by (auto simp: ucs_def)
  show ?thesis unfolding r by simp
qed

lemma shortened_no_colon:
  assumes "hex_digests d" "length k > 250"
  shows "(take 50 k @ [58] @ take 32 (d k)) ! (length (take 50 k @ [58] @ take 32 (d k)) - 3) \<noteq> 58"
proof -
  have len: "length (d k) = 64" using assms(1) by (simp add: hex_digests_def)
  then have "(take 50 k @ [58] @ take 32 (d k)) ! 80 = d k ! 29" using assms(2) by (simp add: nth_append)
  moreover have "d k ! 29 \<in> set (d k)" using len by (intro nth_mem) simp
  then have "d k ! 29 \<noteq> 58" using hex_no_colon [OF assms(1), of k] by metis
  ultimately show ?thesis using len assms(2) by (simp add: min_def)
qed

lemma normalize_key_mixed:
  assumes "hex_digests d" "no_blank (raw_key ns f h ic st)" "no_blank (raw_key ns' f' h' ic' st')"
    and eq: "normalize_key d (raw_key ns f h ic st) = normalize_key d (raw_key ns' f' h' ic' st')"
    and len: "\<not> (length (raw_key ns f h ic st) > 250 \<and> length (raw_key ns' f' h' ic' st') > 250)"
  shows "raw_key ns f h ic st = raw_key ns' f' h' ic' st'"
proof -
  let ?k = "raw_key ns f h ic st" and ?k' = "raw_key ns' f' h' ic' st'"
  note e = eq [unfolded normalize_key_plain [OF assms(2)] normalize_key_plain [OF assms(3)]]
  consider "length ?k \<le> 250" "length ?k' \<le> 250"
    | "length ?k > 250" "length ?k' \<le> 250" | "length ?k \<le> 250" "length ?k' > 250" using len by linarith
  then show ?thesis
  proof cases
    case 1
    with e show ?thesis by simp
  next
    case 2
    with e have "?k' = take 50 ?k @ [58] @ take 32 (d ?k)" by simp
    with shortened_no_colon [OF assms(1) 2(1)] raw_key_colon [of ns' f' h' ic' st'] show ?thesis by metis
  next
    case 3
    with e have "?k = take 50 ?k' @ [58] @ take 32 (d ?k')" by simp
    with shortened_no_colon [OF assms(1) 3(2)] raw_key_colon [of ns f h ic st] show ?thesis by metis
  qed
qed

lemma blake2b_hash_form: "blake2b_hash h p a k = Inr x \<Longrightarrow> \<exists>b. x = h b"
  by (auto simp: blake2b_hash_def split: sum.splits option.splits prod.splits)

section \<open>Order of keyword arguments\<close>

lemma lex_le_le: "lex_le xs ys = (xs \<le> ys)"
  by (induction xs ys rule: lex_le.induct) auto

fun key_text :: "dkey \<times> 'v \<Rightarrow> ucs" where
  "key_text (KStr a, v) = a"
| "key_text _ = []"

lemma insert_item_str:
  "\<forall>p \<in> insert p (set qs). \<exists>a v. p = (KStr a, v) \<Longrightarrow> insert_item p qs = Some (insort_key key_text p qs)"
  by (induction qs) (auto simp: lex_le_le split: bool.split)

lemma sort_items_str:
  "\<forall>p \<in> set ps. \<exists>a v. p = (KStr a, v) \<Longrightarrow> sort_items ps = Some (sort_key key_text ps)"
proof (induction ps)
  case (Cons p ps)
  then show ?case by (simp add: insert_item_str)
qed simp

lemma sort_items_perm:
  assumes "\<forall>p \<in> set ps. \<exists>a v. p = (KStr a, v)" "distinct (map fst ps)" "mset ps = mset qs"
  shows "sort_items ps = sort_items qs"
proof -
  have set: "set qs = set ps" using assms(3) by (metis set_mset_mset)
  have "inj_on key_text (set ps)"
    using assms(1,2) by (intro inj_onI) (metis (no_types, lifting) eq_key_imp_eq_value key_text.simps(1))
  then have "sort_key key_text ps = sort_key key_text qs"
    by (intro sort_key_inj_key_eq) (use assms(3) in simp_all)
  with sort_items_str [of ps] sort_items_str [of qs] assms(1) set show ?thesis by simp
qed

section \<open>Properties\<close>


definition zero_digest :: "'a \<Rightarrow> ucs" where
  "zero_digest x = replicate 64 48"

lemma zero_digest_hex: "hex_digests zero_digest"
  by (simp add: hex_digests_def zero_digest_def)


text \<open>
  Every generated key fits every backend: at most 250 characters, no blank, line feed or carriage
  return; over-long keys become 50 characters of prefix, a colon and 32 digits.
\<close>

theorem generated_key_bounds:
  assumes "hex_digests d" "generate_key b d p f a kw ns ic st = Inr k"
  shows "length k \<le> 250 \<and> no_blank k"
proof -
  obtain r where k: "k = normalize_key d r" using assms(2) by (auto simp: generate_key_def split: sum.splits)
  define n where "n = map (\<lambda>c. if c = 32 \<or> c = 10 \<or> c = 13 then 95 else c :: nat) r"
  have nk: "k = (if length n > 250 then take 50 n @ [58] @ take 32 (d n) else n)"
    unfolding k normalize_key_def n_def Let_def MAX_KEY_LENGTH_def KEY_PREFIX_LENGTH_def ..
  have nb: "no_blank n" by (auto simp: no_blank_def n_def)
  have tk: "no_blank (take i s)" if "no_blank s" for i s
    using that no_blank_simps(3) [of "take i s" "drop i s"] by simp
  show ?thesis unfolding nk using nb tk [OF nb] tk [of "d n" 32] hex_no_colon [OF assms(1), of n] by auto
qed

theorem generated_key_bounds_witness:
  "\<exists>k. generate_key zero_digest zero_digest (\<lambda>n. Inr []) (ucs ''m'', ucs ''f'') [PInt 1] [] None True ''std'' = Inr k
     \<and> length k \<le> 250"
proof -
  obtain k where k: "generate_key zero_digest zero_digest (\<lambda>n. Inr []) (ucs ''m'', ucs ''f'') [PInt 1] [] None True ''std'' = Inr k"
    by (simp add: generate_key_def blake2b_hash_def)
  from generated_key_bounds [OF zero_digest_hex k] k show ?thesis by blast
qed

text \<open>
  The order in which keyword arguments are passed, or string-keyed dictionary arguments were filled, does
  not matter: permuted arguments give the same key.
\<close>

theorem key_ignores_keyword_order:
  assumes "distinct (map fst kw)" "mset kw = mset kw'"
  shows "generate_key b d p f a kw ns ic st = generate_key b d p f a kw' ns ic st
       \<and> normalize b (PDict (map (\<lambda>(k, v). (KStr k, v)) kw)) seen
         = normalize b (PDict (map (\<lambda>(k, v). (KStr k, v)) kw')) seen"
proof -
  let ?m = "map (\<lambda>(k, v). (KStr k, v))"
  have "distinct (map fst (?m kw))" using assms(1) by (auto simp: distinct_map inj_on_def comp_def case_prod_beta)
  moreover have "mset (?m kw) = mset (?m kw')" using assms(2) by simp
  ultimately have eq: "sort_items (?m kw) = sort_items (?m kw')" by (intro sort_items_perm) auto
  show ?thesis unfolding generate_key_def blake2b_hash_def normalize.simps(1) eq by simp
qed

theorem key_ignores_keyword_order_witness:
  "generate_key zero_digest zero_digest (\<lambda>n. Inr []) (ucs ''m'', ucs ''f'') [] [(ucs ''a'', PInt 1), (ucs ''b'', PStr [])] None True ''std''
 = generate_key zero_digest zero_digest (\<lambda>n. Inr []) (ucs ''m'', ucs ''f'') [] [(ucs ''b'', PStr []), (ucs ''a'', PInt 1)] None True ''std''"
  using key_ignores_keyword_order [of "[(ucs ''a'', PInt 1), (ucs ''b'', PStr [])]" "[(ucs ''b'', PStr []), (ucs ''a'', PInt 1)]"
      zero_digest zero_digest "\<lambda>n. Inr []" "(ucs ''m'', ucs ''f'')" "[]" None True "''std''"]
  by (simp add: ucs_def)

text \<open>
  The function component always obeys the key format: letters, digits, underscores and dots only, no
  two dots in a row, at most 200 characters.
\<close>

theorem sanitized_name_format:
  "length (sanitize_func_name m q) \<le> 200 \<and> no_double_dot (sanitize_func_name m q)
 \<and> list_all func_char (sanitize_func_name m q)"
  using sanitized_chars [of _ m q] take_no_double_dot [OF collapse_no_double_dot]
  by (auto simp: sanitize_func_name_def FUNC_NAME_MAX_def list_all_iff)

end
