(* ===== verification/Interop_Text.thy ===== *)
theory Interop_Text
  imports Key_Generator
begin

text \<open>
  Unicode text as the interop encoder uses it: \<^verbatim>\<open>str.encode("utf-8")\<close> on code points, its inverse, and the fact the encoder of
  \<^verbatim>\<open>interop.py\<close> relies on when it sorts map keys: code point order is UTF-8 byte order.
\<close>

definition scalar :: "nat \<Rightarrow> bool" where
  "scalar c \<longleftrightarrow> c < 0xD800 \<or> 0xDFFF < c \<and> c \<le> 0x10FFFF"

definition utf8_char :: "nat \<Rightarrow> nat list" where
  "utf8_char c =
     (if c < 0x80 then [c]
      else if c < 0x800 then [0xC0 + c div 64, 0x80 + c mod 64]
      else if c < 0x10000 then [0xE0 + c div 4096, 0x80 + c div 64 mod 64, 0x80 + c mod 64]
      else [0xF0 + c div 262144, 0x80 + c div 4096 mod 64, 0x80 + c div 64 mod 64, 0x80 + c mod 64])"

definition utf8_nats :: "ucs \<Rightarrow> nat list" where
  "utf8_nats s = concat (map utf8_char s)"

text \<open>A lone surrogate has no encoding.\<close>

definition utf8 :: "ucs \<Rightarrow> bytes option" where
  "utf8 s = (if list_all scalar s then Some (map word_of_nat (utf8_nats s)) else None)"

fun utf8_chars :: "nat list \<Rightarrow> ucs option" where
  "utf8_chars [] = Some []"
| "utf8_chars (a # r) =
     (if a < 0x80 then map_option ((#) a) (utf8_chars r)
      else if a < 0xE0 then
        (case r of b # r' \<Rightarrow> map_option ((#) ((a - 0xC0) * 64 + (b - 0x80))) (utf8_chars r') | _ \<Rightarrow> None)
      else if a < 0xF0 then
        (case r of b # c # r' \<Rightarrow> map_option ((#) ((a - 0xE0) * 4096 + (b - 0x80) * 64 + (c - 0x80))) (utf8_chars r') | _ \<Rightarrow> None)
      else
        (case r of b # c # d # r' \<Rightarrow>
           map_option ((#) ((a - 0xF0) * 262144 + (b - 0x80) * 4096 + (c - 0x80) * 64 + (d - 0x80))) (utf8_chars r') | _ \<Rightarrow> None))"

text \<open>A strict decoder: it accepts exactly the encodings.\<close>

definition utf8_decode :: "bytes \<Rightarrow> ucs option" where
  "utf8_decode b =
     (case utf8_chars (map unat b) of
        None \<Rightarrow> None | Some s \<Rightarrow> if utf8 s = Some b then Some s else None)"

lemma div_levels: "c div 4096 = c div 64 div 64" "c div 262144 = c div 64 div 64 div 64" for c :: nat
  by (simp_all add: div_mult2_eq [symmetric])

text \<open>The four forms of a character, by its base 64 digits.\<close>

lemma utf8_char_forms:
  obtains (one) "utf8_char c = [c]" "c < 0x80"
  | (two) q m where "utf8_char c = [0xC0 + q, 0x80 + m]" "c = q * 64 + m" "m < 64" "0x80 \<le> c" "q < 32"
  | (three) q m n where "utf8_char c = [0xE0 + q, 0x80 + m, 0x80 + n]" "c = (q * 64 + m) * 64 + n" "m < 64" "n < 64" "0x800 \<le> c" "q < 16"
  | (four) q m n k where "utf8_char c = [0xF0 + q, 0x80 + m, 0x80 + n, 0x80 + k]" "c = ((q * 64 + m) * 64 + n) * 64 + k"
      "m < 64" "n < 64" "k < 64" "0x10000 \<le> c"
proof -
  have s: "x = x div 64 * 64 + x mod 64" "x mod 64 < 64" for x :: nat by simp_all
  consider "c < 0x80" | "0x80 \<le> c" "c < 0x800" | "0x800 \<le> c" "c < 0x10000" | "0x10000 \<le> c" by linarith
  then show thesis
  proof cases
    case 1
    then show thesis using one by (simp add: utf8_char_def)
  next
    case 2
    then show thesis using two [of "c div 64" "c mod 64"] s [of c] by (simp add: utf8_char_def div_less_iff_less_mult)
  next
    case 3
    have "c = (c div 64 div 64 * 64 + c div 64 mod 64) * 64 + c mod 64" using s(1) [of c] s(1) [of "c div 64"] by simp
    with 3 show thesis using three [of "c div 64 div 64" "c div 64 mod 64" "c mod 64"] s
      by (simp add: utf8_char_def div_levels div_less_iff_less_mult)
  next
    case 4
    have "c = ((c div 64 div 64 div 64 * 64 + c div 64 div 64 mod 64) * 64 + c div 64 mod 64) * 64 + c mod 64"
      using s(1) [of c] s(1) [of "c div 64"] s(1) [of "c div 64 div 64"] by simp
    with 4 show thesis using four [of "c div 64 div 64 div 64" "c div 64 div 64 mod 64" "c div 64 mod 64" "c mod 64"] s
      by (simp add: utf8_char_def div_levels)
  qed
qed

lemma utf8_chars_append: "utf8_chars (utf8_char c @ r) = map_option ((#) c) (utf8_chars r)"
  by (cases c rule: utf8_char_forms) (simp_all add: mult.commute)

lemma utf8_chars_nats: "list_all scalar s \<Longrightarrow> utf8_chars (utf8_nats s) = Some s"
  by (induction s) (simp_all add: utf8_nats_def utf8_chars_append)

lemma utf8_char_bytes: "scalar c \<Longrightarrow> x \<in> set (utf8_char c) \<Longrightarrow> x < 256"
  by (cases c rule: utf8_char_forms) (auto simp: scalar_def)

lemma utf8_nats_bytes: "list_all scalar s \<Longrightarrow> x \<in> set (utf8_nats s) \<Longrightarrow> x < 256"
  by (auto simp: utf8_nats_def list_all_iff dest: utf8_char_bytes)

lemma map_unat_bytes: "(\<And>x. x \<in> set xs \<Longrightarrow> x < 256) \<Longrightarrow> map unat (map word_of_nat xs :: bytes) = xs"
  by (induction xs) (auto simp: unat_of_nat)

lemma utf8_decode_encode [simp]: "utf8 s = Some b \<Longrightarrow> utf8_decode b = Some s"
  using map_unat_bytes [of "utf8_nats s"] utf8_nats_bytes [of s]
  by (auto simp: utf8_def utf8_decode_def utf8_chars_nats split: if_splits)

lemma utf8_inject: "utf8 s = Some b \<Longrightarrow> utf8 t = Some b \<Longrightarrow> s = t"
  by (metis utf8_decode_encode option.inject)

section \<open>Order\<close>

text \<open>\<open>before xs ys\<close>: at the first place where they differ both continue and \<open>xs\<close> is smaller.\<close>

definition before :: "('a :: linorder) list \<Rightarrow> 'a list \<Rightarrow> bool" where
  "before xs ys \<longleftrightarrow> (\<exists>p a b u v. xs = p @ a # u \<and> ys = p @ b # v \<and> a < b)"

lemma before_append: "before xs ys \<Longrightarrow> before (p @ xs @ u) (p @ ys @ v)"
  unfolding before_def by (metis append.assoc append_Cons)

lemma before_less: "before xs ys \<Longrightarrow> xs < ys"
  unfolding before_def list_less_def lexord_def by blast

lemma before_Cons: "before (a # u) (b # v) \<longleftrightarrow> a < b \<or> a = b \<and> before u v"
  unfolding before_def by (auto simp: Cons_eq_append_conv) (metis append_Nil append_Cons)+

lemma before_Nil [simp]: "\<not> before [] ys" "\<not> before xs []"
  by (simp_all add: before_def)

lemma utf8_char_before: "c < d \<Longrightarrow> before (utf8_char c) (utf8_char d)"
  by (cases c rule: utf8_char_forms; cases d rule: utf8_char_forms) (simp_all add: before_Cons, linarith+)

lemma utf8_nats_less:
  "list_all scalar s \<Longrightarrow> list_all scalar t \<Longrightarrow> s < t \<Longrightarrow> utf8_nats s < utf8_nats t"
proof (induction s arbitrary: t)
  case Nil
  then obtain c u where t: "t = c # u" by (cases t) auto
  have "utf8_char c \<noteq> []" by (simp add: utf8_char_def)
  with t show ?case by (cases "utf8_char c") (simp_all add: utf8_nats_def)
next
  case (Cons c s)
  then obtain d u where t: "t = d # u" by (cases t) auto
  show ?case
  proof (cases "c = d")
    case True
    with Cons t show ?thesis by (simp add: utf8_nats_def list_less_def lexord_append_leftI)
  next
    case False
    with Cons.prems t have "c < d" by auto
    from before_append [OF utf8_char_before [OF this], of "[]"] show ?thesis
      using t by (simp add: utf8_nats_def before_less)
  qed
qed

lemma map_word_less: "(\<And>x. x \<in> set xs \<union> set ys \<Longrightarrow> x < 256) \<Longrightarrow> xs < ys \<Longrightarrow> (map word_of_nat xs :: bytes) < map word_of_nat ys"
proof (induction xs arbitrary: ys)
  case Nil
  then show ?case by (cases ys) auto
next
  case (Cons x xs)
  then obtain y ys' where ys: "ys = y # ys'" by (cases ys) auto
  have "(word_of_nat x :: byte) < word_of_nat y" if "x < y"
    using Cons.prems(1) [of x] Cons.prems(1) [of y] that ys by (simp add: word_less_nat_alt unat_of_nat)
  with Cons.prems Cons.IH [of ys'] ys show ?case by auto
qed

text \<open>
  Unicode code point order is UTF-8 byte order, so that map keys sorted as Python strings are sorted as every other
  implementation sorts their bytes.
\<close>

theorem code_point_order_is_byte_order:
  assumes "utf8 s = Some a" "utf8 t = Some b"
  shows "s < t \<longleftrightarrow> a < b"
proof -
  have mono: "a < b" if "utf8 s = Some a" "utf8 t = Some b" "s < t" for s t a b
    using that utf8_nats_less [of s t] utf8_nats_bytes by (auto simp: utf8_def split: if_splits intro!: map_word_less)
  consider "s < t" | "s = t" | "t < s" by (rule linorder_cases)
  then show ?thesis
  proof cases
    case 1
    with mono [OF assms] show ?thesis by simp
  next
    case 2
    with assms show ?thesis by simp
  next
    case 3
    with mono [OF assms(2,1)] show ?thesis by (metis less_asym)
  qed
qed

theorem code_point_order_is_byte_order_witness:
  "([97, 233] :: ucs) < [97, 8364] \<longleftrightarrow> ([0x61, 0xC3, 0xA9] :: bytes) < [0x61, 0xE2, 0x82, 0xAC]"
  by (rule code_point_order_is_byte_order) (simp_all add: utf8_def utf8_nats_def utf8_char_def scalar_def)

end
