(* ===== verification/Interop_Codec.thy ===== *)
theory Interop_Codec
  imports Interop_Text Backend_Errors
begin

text \<open>
  The canonical MessagePack encoder of \<^verbatim>\<open>interop.py\<close> for both profiles, the normalisation of arguments and values, and what they are
  measured against: the language-neutral values \<open>cval\<close>, their canonical form \<open>cenc\<close> and a MessagePack reader \<open>decode\<close>. A float is the
  64 bits of its IEEE 754 form.
\<close>

section \<open>Floats\<close>

type_synonym f64 = "64 word"

definition f64_exp :: "f64 \<Rightarrow> nat" where "f64_exp w = unat w div 2 ^ 52 mod 2048"

definition f64_finite :: "f64 \<Rightarrow> bool" where "f64_finite w \<longleftrightarrow> f64_exp w \<noteq> 2047"

text \<open>A finite float is \<open>f64_mant w * 2 ^ (f64_shift w - 1075)\<close> with the sign of its top bit.\<close>

definition f64_mant :: "f64 \<Rightarrow> nat" where
  "f64_mant w = unat w mod 2 ^ 52 + (if f64_exp w = 0 then 0 else 2 ^ 52)"

definition f64_shift :: "f64 \<Rightarrow> nat" where "f64_shift w = max 1 (f64_exp w)"

definition is_integer :: "f64 \<Rightarrow> bool" where
  "is_integer w \<longleftrightarrow> f64_finite w \<and> (1075 \<le> f64_shift w \<or> f64_mant w mod 2 ^ (1075 - f64_shift w) = 0)"

definition f64_int :: "f64 \<Rightarrow> int" where
  "f64_int w =
     (let m = int (if 1075 \<le> f64_shift w then f64_mant w * 2 ^ (f64_shift w - 1075) else f64_mant w div 2 ^ (1075 - f64_shift w))
      in if unat w < 2 ^ 63 then m else - m)"

text \<open>The float nearest to \<open>n / d\<close>, ties to even, for quotients in the normal range; the sign is separate.\<close>

fun bit_length :: "nat \<Rightarrow> nat" where "bit_length n = (if n = 0 then 0 else Suc (bit_length (n div 2)))"

declare bit_length.simps [simp del]

definition f64_of_ratio :: "bool \<Rightarrow> nat \<Rightarrow> nat \<Rightarrow> f64" where
  "f64_of_ratio neg n d =
     (let sh = 55 + int (bit_length d) - int (bit_length n);
          num = (if sh \<ge> 0 then n * 2 ^ nat sh else n);
          den = (if sh \<ge> 0 then d else d * 2 ^ nat (- sh));
          q = num div den; sticky = num mod den \<noteq> 0;
          drop = bit_length q - 53;
          m = q div 2 ^ drop; rest = q mod 2 ^ drop; half = 2 ^ (drop - 1);
          m' = (if rest > half \<or> rest = half \<and> (sticky \<or> odd m) then m + 1 else m)
      in if n = 0 then 0
         else word_of_int ((int drop - sh + 1075) * 2 ^ 52 + (int m' - 2 ^ 52) + (if neg then 2 ^ 63 else 0)))"

text \<open>\<^verbatim>\<open>micros / 1_000_000.0\<close>: the integer becomes a float first.\<close>

definition micros_to_seconds :: "int \<Rightarrow> f64" where
  "micros_to_seconds micros =
     f64_of_ratio (micros < 0) (nat (abs (f64_int (f64_of_ratio (micros < 0) (nat (abs micros)) 1)))) 1000000"

section \<open>Source values\<close>

datatype ikey = KeyStr ucs | KeyOther string

text \<open>
  A datetime is given by whether it has an offset, its distance from the epoch (days, seconds, microseconds) and its ISO text. A set
  is the list of its elements in iteration order.
\<close>

datatype ival =
    VNone | VBool bool | VInt int | VFloat f64 | VStr ucs | VBytes bytes | VPreEncoded "bytes list"
  | VList "ival list" | VTuple "ival list" | VDict "(ikey \<times> ival) list" | VSet "ival list"
  | VDatetime bool int int int ucs | VDate ucs | VTime ucs | VUuid ucs | VEnum ival | VPath ucs | VDecimal ucs | VOther string

definition interop_error :: "string \<Rightarrow> pyexn" where "interop_error = PyExn ''InteropError''"

definition overflow_error :: pyexn where "overflow_error = PyExn ''OverflowError'' ''int too big to convert''"

section \<open>Encoder\<close>

definition UINT64_MAX :: int where "UINT64_MAX = 2 ^ 64 - 1"
definition INT64_MIN :: int where "INT64_MIN = - (2 ^ 63)"
definition F64_UPPER_EXCL :: int where "F64_UPPER_EXCL = 2 ^ 64"
definition F64_LOWER_INCL :: int where "F64_LOWER_INCL = - (2 ^ 63)"

text \<open>The branches of \<^verbatim>\<open>_encode_int\<close> after its range check; a negative number is written in two's complement.\<close>

definition int_form :: "int \<Rightarrow> bytes" where
  "int_form n =
     (if 0 \<le> n \<and> n \<le> 0x7F then [word_of_int n]
      else if -32 \<le> n \<and> n < 0 then [word_of_int n]
      else if n > 0 then
        (if n \<le> 0xFF then 0xCC # be_bytes 1 (nat n)
         else if n \<le> 0xFFFF then 0xCD # be_bytes 2 (nat n)
         else if n \<le> 0xFFFFFFFF then 0xCE # be_bytes 4 (nat n)
         else 0xCF # be_bytes 8 (nat n))
      else if n \<ge> - (2 ^ 7) then 0xD0 # be_bytes 1 (nat (n + 2 ^ 8))
      else if n \<ge> - (2 ^ 15) then 0xD1 # be_bytes 2 (nat (n + 2 ^ 16))
      else if n \<ge> - (2 ^ 31) then 0xD2 # be_bytes 4 (nat (n + 2 ^ 32))
      else 0xD3 # be_bytes 8 (nat (n + 2 ^ 64)))"

definition encode_int :: "int \<Rightarrow> pyexn + bytes" where
  "encode_int n =
     (if INT64_MIN \<le> n \<and> n \<le> UINT64_MAX then Inr (int_form n) else Inl (interop_error ''integer out of interop range''))"

text \<open>Lengths of four bytes: \<^verbatim>\<open>to_bytes(4)\<close> raises an \<^verbatim>\<open>OverflowError\<close> above them.\<close>

definition sized :: "(nat \<Rightarrow> bytes) \<Rightarrow> nat \<Rightarrow> bytes \<Rightarrow> pyexn + bytes" where
  "sized head n body = (if n < 2 ^ 32 then Inr (head n @ body) else Inl overflow_error)"

definition str_head :: "nat \<Rightarrow> bytes" where
  "str_head n = (if n \<le> 31 then [word_of_nat (0xA0 + n)] else if n \<le> 0xFF then 0xD9 # be_bytes 1 n
     else if n \<le> 0xFFFF then 0xDA # be_bytes 2 n else 0xDB # be_bytes 4 n)"

definition encode_str :: "ucs \<Rightarrow> pyexn + bytes" where
  "encode_str s =
     (case utf8 s of
        None \<Rightarrow> Inl (interop_error ''interop strings must be well-formed Unicode'')
      | Some b \<Rightarrow> sized str_head (length b) b)"

definition bin_head :: "nat \<Rightarrow> bytes" where
  "bin_head n = (if n \<le> 0xFF then 0xC4 # be_bytes 1 n else if n \<le> 0xFFFF then 0xC5 # be_bytes 2 n else 0xC6 # be_bytes 4 n)"

definition encode_bin :: "bytes \<Rightarrow> pyexn + bytes" where
  "encode_bin b = sized bin_head (length b) b"

definition array_head :: "nat \<Rightarrow> bytes" where
  "array_head n = (if n \<le> 15 then [word_of_nat (0x90 + n)] else if n \<le> 0xFFFF then 0xDC # be_bytes 2 n else 0xDD # be_bytes 4 n)"

definition encode_array_header :: "nat \<Rightarrow> pyexn + bytes" where
  "encode_array_header n = sized array_head n []"

definition map_head :: "nat \<Rightarrow> bytes" where
  "map_head n = (if n \<le> 15 then [word_of_nat (0x80 + n)] else if n \<le> 0xFFFF then 0xDE # be_bytes 2 n else 0xDF # be_bytes 4 n)"

definition encode_map_header :: "nat \<Rightarrow> pyexn + bytes" where
  "encode_map_header n = sized map_head n []"

text \<open>Appending to the output, up to the first exception.\<close>

fun join :: "(pyexn + bytes) list \<Rightarrow> pyexn + bytes" where
  "join [] = Inr []"
| "join (Inl e # rs) = Inl e"
| "join (Inr b # rs) = (case join rs of Inl e \<Rightarrow> Inl e | Inr bs \<Rightarrow> Inr (b @ bs))"

definition collapses :: "bool \<Rightarrow> f64 \<Rightarrow> bool" where
  "collapses collapse_floats w \<longleftrightarrow> collapse_floats \<and> is_integer w \<and> F64_LOWER_INCL \<le> f64_int w \<and> f64_int w < F64_UPPER_EXCL"

definition encode_float :: "bool \<Rightarrow> f64 \<Rightarrow> pyexn + bytes" where
  "encode_float collapse_floats w =
     (if \<not> f64_finite w then Inl (interop_error ''NaN and Infinity are not allowed in interop mode'')
      else if collapses collapse_floats w then encode_int (f64_int w)
      else Inr (0xCB # be_bytes 8 (unat w)))"

definition ikey_text :: "ikey \<Rightarrow> ucs" where
  "ikey_text k = (case k of KeyStr s \<Rightarrow> s | KeyOther t \<Rightarrow> [])"

definition is_str_key :: "ikey \<Rightarrow> bool" where
  "is_str_key k = (case k of KeyStr s \<Rightarrow> True | KeyOther t \<Rightarrow> False)"

definition not_in_model :: pyexn where
  "not_in_model = interop_error ''type is not in the interop data model''"

definition bad_map_key :: pyexn where
  "bad_map_key = interop_error ''interop map keys must be strings''"

fun encode :: "bool \<Rightarrow> ival \<Rightarrow> pyexn + bytes"
  and encode_each :: "bool \<Rightarrow> ival list \<Rightarrow> (pyexn + bytes) list"
  and encode_items :: "bool \<Rightarrow> (ikey \<times> ival) list \<Rightarrow> (ucs \<times> (pyexn + bytes)) list" where
  "encode cf VNone = Inr [0xC0]"
| "encode cf (VBool b) = Inr [if b then 0xC3 else 0xC2]"
| "encode cf (VInt n) = encode_int n"
| "encode cf (VFloat w) = encode_float cf w"
| "encode cf (VStr s) = encode_str s"
| "encode cf (VBytes b) = encode_bin b"
| "encode cf (VPreEncoded bs) = join (encode_array_header (length bs) # map Inr bs)"
| "encode cf (VList vs) = join (encode_array_header (length vs) # encode_each cf vs)"
| "encode cf (VTuple vs) = join (encode_array_header (length vs) # encode_each cf vs)"
| "encode cf (VDict items) =
     (if \<not> list_all (is_str_key \<circ> fst) items then Inl bad_map_key
      else join (encode_map_header (length items) # map snd (sort_key fst (encode_items cf items))))"
| "encode cf _ = Inl not_in_model"
| "encode_each cf [] = []"
| "encode_each cf (v # vs) = encode cf v # encode_each cf vs"
| "encode_items cf [] = []"
| "encode_items cf ((k, v) # kvs) = (ikey_text k, join [encode_str (ikey_text k), encode cf v]) # encode_items cf kvs"

definition encode_canonical :: "bool \<Rightarrow> ival \<Rightarrow> pyexn + bytes" where
  "encode_canonical cf v = encode cf v"

section \<open>Arguments\<close>

text \<open>\<open>norm_set\<close> collects the encodings of the elements; they are then sorted as bytes.\<close>

fun normalize_arg :: "ival \<Rightarrow> pyexn + ival"
  and normalize_args :: "ival list \<Rightarrow> pyexn + ival list"
  and norm_set :: "ival list \<Rightarrow> pyexn + bytes list"
  and norm_dict :: "(ikey \<times> ival) list \<Rightarrow> pyexn + (ikey \<times> ival) list" where
  "normalize_arg (VDatetime aware days seconds micros isofmt) =
     (if \<not> aware then Inl (interop_error ''naive datetimes are not allowed in interop arguments'')
      else Inr (VFloat (micros_to_seconds ((days * 86400 + seconds) * 10 ^ 6 + micros))))"
| "normalize_arg (VUuid s) = Inr (VStr s)"
| "normalize_arg (VSet vs) =
     (case norm_set vs of Inl e \<Rightarrow> Inl e | Inr bs \<Rightarrow> Inr (VPreEncoded (sort (remdups bs))))"
| "normalize_arg (VList vs) = map_sum id VList (normalize_args vs)"
| "normalize_arg (VTuple vs) = map_sum id VList (normalize_args vs)"
| "normalize_arg (VDict items) = map_sum id VDict (norm_dict items)"
| "normalize_arg (VEnum v) = normalize_arg v"
| "normalize_arg (VPath p) = Inr (VStr p)"
| "normalize_arg (VDecimal d) = Inr (VStr d)"
| "normalize_arg VNone = Inr VNone"
| "normalize_arg (VBool b) = Inr (VBool b)"
| "normalize_arg (VInt n) = Inr (VInt n)"
| "normalize_arg (VFloat w) = Inr (VFloat w)"
| "normalize_arg (VStr s) = Inr (VStr s)"
| "normalize_arg (VBytes b) = Inr (VBytes b)"
| "normalize_arg _ = Inl not_in_model"
| "normalize_args [] = Inr []"
| "normalize_args (v # vs) =
     (case normalize_arg v of
        Inl e \<Rightarrow> Inl e
      | Inr n \<Rightarrow> (case normalize_args vs of Inl e \<Rightarrow> Inl e | Inr ns \<Rightarrow> Inr (n # ns)))"
| "norm_set [] = Inr []"
| "norm_set (v # vs) =
     (case normalize_arg v of
        Inl e \<Rightarrow> Inl e
      | Inr n \<Rightarrow>
          (case encode_canonical True n of
             Inl e \<Rightarrow> Inl e
           | Inr b \<Rightarrow> (case norm_set vs of Inl e \<Rightarrow> Inl e | Inr bs \<Rightarrow> Inr (b # bs))))"
| "norm_dict [] = Inr []"
| "norm_dict ((k, v) # kvs) =
     (if \<not> is_str_key k then Inl bad_map_key
      else case normalize_arg v of
             Inl e \<Rightarrow> Inl e
           | Inr n \<Rightarrow> (case norm_dict kvs of Inl e \<Rightarrow> Inl e | Inr ns \<Rightarrow> Inr ((k, n) # ns)))"

definition canonical_args_bytes :: "ival list \<Rightarrow> pyexn + bytes" where
  "canonical_args_bytes args =
     (case normalize_args args of Inl e \<Rightarrow> Inl e | Inr ns \<Rightarrow> encode_canonical True (VList ns))"

section \<open>Language-neutral values\<close>

datatype cval =
    CNil | CBool bool | CInt int | CFloat f64 | CStr ucs | CBin bytes | CArr "cval list" | CMap "(ucs \<times> cval) list"

text \<open>Canonical form: every length and number in its shortest form.\<close>

definition str_form :: "ucs \<Rightarrow> bytes" where
  "str_form s = (case utf8 s of None \<Rightarrow> [] | Some b \<Rightarrow> str_head (length b) @ b)"

fun cenc :: "cval \<Rightarrow> bytes" and cenc_all :: "cval list \<Rightarrow> bytes" and cenc_items :: "(ucs \<times> cval) list \<Rightarrow> bytes" where
  "cenc CNil = [0xC0]"
| "cenc (CBool b) = [if b then 0xC3 else 0xC2]"
| "cenc (CInt n) = int_form n"
| "cenc (CFloat w) = 0xCB # be_bytes 8 (unat w)"
| "cenc (CStr s) = str_form s"
| "cenc (CBin b) = bin_head (length b) @ b"
| "cenc (CArr cs) = array_head (length cs) @ cenc_all cs"
| "cenc (CMap m) = map_head (length m) @ cenc_items m"
| "cenc_all [] = []"
| "cenc_all (c # cs) = cenc c @ cenc_all cs"
| "cenc_items [] = []"
| "cenc_items ((k, c) # m) = str_form k @ cenc c @ cenc_items m"

text \<open>What fits into MessagePack at all.\<close>

definition text_ok :: "ucs \<Rightarrow> bool" where
  "text_ok s \<longleftrightarrow> (case utf8 s of None \<Rightarrow> False | Some b \<Rightarrow> length b < 2 ^ 32)"

fun wf_cval :: "cval \<Rightarrow> bool" where
  "wf_cval (CInt n) \<longleftrightarrow> INT64_MIN \<le> n \<and> n \<le> UINT64_MAX"
| "wf_cval (CStr s) \<longleftrightarrow> text_ok s"
| "wf_cval (CBin b) \<longleftrightarrow> length b < 2 ^ 32"
| "wf_cval (CArr cs) \<longleftrightarrow> length cs < 2 ^ 32 \<and> (\<forall>c \<in> set cs. wf_cval c)"
| "wf_cval (CMap m) \<longleftrightarrow> length m < 2 ^ 32 \<and> (\<forall>p \<in> set m. text_ok (fst p) \<and> wf_cval (snd p))"
| "wf_cval _ \<longleftrightarrow> True"

section \<open>A MessagePack reader\<close>

text \<open>The first byte, with a length that is in it (\<open>Inl\<close>) or in that many bytes after it (\<open>Inr\<close>).\<close>

datatype tag =
    TInt int | TNil | TBool bool | TFloat | TUint nat | TSint nat | TStr "nat + nat" | TBin nat | TArr "nat + nat" | TMap "nat + nat" | TBad

definition tag_of :: "nat \<Rightarrow> tag" where
  "tag_of x =
     (if x \<le> 0x7F then TInt (int x) else if x \<le> 0x8F then TMap (Inl (x - 0x80)) else if x \<le> 0x9F then TArr (Inl (x - 0x90))
      else if x \<le> 0xBF then TStr (Inl (x - 0xA0)) else if x = 0xC0 then TNil else if x = 0xC2 then TBool False else if x = 0xC3 then TBool True
      else if x = 0xC4 then TBin 1 else if x = 0xC5 then TBin 2 else if x = 0xC6 then TBin 4 else if x = 0xCB then TFloat
      else if x = 0xCC then TUint 1 else if x = 0xCD then TUint 2 else if x = 0xCE then TUint 4 else if x = 0xCF then TUint 8
      else if x = 0xD0 then TSint 1 else if x = 0xD1 then TSint 2 else if x = 0xD2 then TSint 4 else if x = 0xD3 then TSint 8
      else if x = 0xD9 then TStr (Inr 1) else if x = 0xDA then TStr (Inr 2) else if x = 0xDB then TStr (Inr 4)
      else if x = 0xDC then TArr (Inr 2) else if x = 0xDD then TArr (Inr 4) else if x = 0xDE then TMap (Inr 2) else if x = 0xDF then TMap (Inr 4)
      else if x \<ge> 0xE0 then TInt (int x - 256) else TBad)"

definition take_bytes :: "nat \<Rightarrow> bytes \<Rightarrow> (bytes \<times> bytes) option" where
  "take_bytes n bs = (if length bs < n then None else Some (take n bs, drop n bs))"

definition read_num :: "nat \<Rightarrow> bytes \<Rightarrow> (nat \<times> bytes) option" where
  "read_num n bs = map_option (map_prod be_val id) (take_bytes n bs)"

definition read_len :: "nat + nat \<Rightarrow> bytes \<Rightarrow> (nat \<times> bytes) option" where
  "read_len x bs = (case x of Inl n \<Rightarrow> Some (n, bs) | Inr k \<Rightarrow> read_num k bs)"

fun repeat_read :: "(bytes \<Rightarrow> ('b \<times> bytes) option) \<Rightarrow> nat \<Rightarrow> bytes \<Rightarrow> ('b list \<times> bytes) option" where
  "repeat_read f 0 bs = Some ([], bs)"
| "repeat_read f (Suc n) bs =
     (case f bs of
        None \<Rightarrow> None
      | Some (x, r) \<Rightarrow> (case repeat_read f n r of None \<Rightarrow> None | Some (xs, r') \<Rightarrow> Some (x # xs, r')))"

definition read_body :: "(bytes \<Rightarrow> 'c option) \<Rightarrow> ('c \<Rightarrow> 'd) \<Rightarrow> (nat \<times> bytes) option \<Rightarrow> ('d \<times> bytes) option" where
  "read_body f g x =
     (case x of
        None \<Rightarrow> None
      | Some (n, r) \<Rightarrow> (case take_bytes n r of None \<Rightarrow> None | Some (b, r') \<Rightarrow> map_option (\<lambda>c. (g c, r')) (f b)))"

definition read_pair :: "(bytes \<Rightarrow> (cval \<times> bytes) option) \<Rightarrow> bytes \<Rightarrow> ((ucs \<times> cval) \<times> bytes) option" where
  "read_pair f bs =
     (case f bs of
        Some (CStr k, r) \<Rightarrow> map_option (\<lambda>(c, r'). ((k, c), r')) (f r)
      | _ \<Rightarrow> None)"

text \<open>The first argument bounds the nesting depth.\<close>

fun decode :: "nat \<Rightarrow> bytes \<Rightarrow> (cval \<times> bytes) option" where
  "decode 0 bs = None"
| "decode (Suc d) [] = None"
| "decode (Suc d) (b # bs) =
     (case tag_of (unat b) of
        TInt n \<Rightarrow> Some (CInt n, bs)
      | TNil \<Rightarrow> Some (CNil, bs)
      | TBool x \<Rightarrow> Some (CBool x, bs)
      | TFloat \<Rightarrow> map_option (map_prod (\<lambda>n. CFloat (word_of_nat n)) id) (read_num 8 bs)
      | TUint k \<Rightarrow> map_option (map_prod (\<lambda>n. CInt (int n)) id) (read_num k bs)
      | TSint k \<Rightarrow> map_option (map_prod (\<lambda>n. CInt (if 2 * n < 256 ^ k then int n else int n - 256 ^ k)) id) (read_num k bs)
      | TStr x \<Rightarrow> read_body utf8_decode CStr (read_len x bs)
      | TBin k \<Rightarrow> read_body Some CBin (read_num k bs)
      | TArr x \<Rightarrow> (case read_len x bs of None \<Rightarrow> None | Some (n, r) \<Rightarrow> map_option (map_prod CArr id) (repeat_read (decode d) n r))
      | TMap x \<Rightarrow> (case read_len x bs of None \<Rightarrow> None | Some (n, r) \<Rightarrow> map_option (map_prod CMap id) (repeat_read (read_pair (decode d)) n r))
      | TBad \<Rightarrow> None)"

definition decode_document :: "bytes \<Rightarrow> cval option" where
  "decode_document bs = (case decode (length bs) bs of Some (c, []) \<Rightarrow> Some c | _ \<Rightarrow> None)"

section \<open>Reading back\<close>

lemma unat_word_of_nat_byte: "n < 256 \<Longrightarrow> unat (word_of_nat n :: byte) = n"
  by (simp add: unat_of_nat)

lemma read_num_be: "n < 256 ^ k \<Longrightarrow> read_num k (be_bytes k n @ r) = Some (n, r)"
  by (simp add: read_num_def take_bytes_def)

lemma str_head_read:
  assumes "n < 2 ^ 32"
  obtains b t x where "str_head n @ r = b # t" "tag_of (unat b) = TStr x" "read_len x t = Some (n, r)"
proof -
  consider "n \<le> 31" | "31 < n" "n \<le> 0xFF" | "0xFF < n" "n \<le> 0xFFFF" | "0xFFFF < n" by linarith
  then show thesis
  proof cases
    case 1
    then show thesis using that [of "word_of_nat (0xA0 + n)" r "Inl n"] by (simp add: str_head_def unat_word_of_nat_byte tag_of_def read_len_def del: of_nat_add)
  next
    case 2
    then show thesis using that [of _ "be_bytes 1 n @ r"] read_num_be [of n 1 r] by (simp add: str_head_def tag_of_def read_len_def)
  next
    case 3
    then show thesis using that [of _ "be_bytes 2 n @ r"] read_num_be [of n 2 r] by (simp add: str_head_def tag_of_def read_len_def)
  next
    case 4
    then show thesis using that [of _ "be_bytes 4 n @ r"] read_num_be [of n 4 r] assms by (simp add: str_head_def tag_of_def read_len_def)
  qed
qed

lemma bin_head_read:
  assumes "n < 2 ^ 32"
  obtains b t k where "bin_head n @ r = b # t" "tag_of (unat b) = TBin k" "read_num k t = Some (n, r)"
proof -
  consider "n \<le> 0xFF" | "0xFF < n" "n \<le> 0xFFFF" | "0xFFFF < n" by linarith
  then show thesis
  proof cases
    case 1
    then show thesis using that [of _ "be_bytes 1 n @ r"] read_num_be [of n 1 r] by (simp add: bin_head_def tag_of_def)
  next
    case 2
    then show thesis using that [of _ "be_bytes 2 n @ r"] read_num_be [of n 2 r] by (simp add: bin_head_def tag_of_def)
  next
    case 3
    then show thesis using that [of _ "be_bytes 4 n @ r"] read_num_be [of n 4 r] assms by (simp add: bin_head_def tag_of_def)
  qed
qed

lemma array_head_read:
  assumes "n < 2 ^ 32"
  obtains b t x where "array_head n @ r = b # t" "tag_of (unat b) = TArr x" "read_len x t = Some (n, r)"
proof -
  consider "n \<le> 15" | "15 < n" "n \<le> 0xFFFF" | "0xFFFF < n" by linarith
  then show thesis
  proof cases
    case 1
    then show thesis using that [of "word_of_nat (0x90 + n)" r "Inl n"] by (simp add: array_head_def unat_word_of_nat_byte tag_of_def read_len_def del: of_nat_add)
  next
    case 2
    then show thesis using that [of _ "be_bytes 2 n @ r"] read_num_be [of n 2 r] by (simp add: array_head_def tag_of_def read_len_def)
  next
    case 3
    then show thesis using that [of _ "be_bytes 4 n @ r"] read_num_be [of n 4 r] assms by (simp add: array_head_def tag_of_def read_len_def)
  qed
qed

lemma map_head_read:
  assumes "n < 2 ^ 32"
  obtains b t x where "map_head n @ r = b # t" "tag_of (unat b) = TMap x" "read_len x t = Some (n, r)"
proof -
  consider "n \<le> 15" | "15 < n" "n \<le> 0xFFFF" | "0xFFFF < n" by linarith
  then show thesis
  proof cases
    case 1
    then show thesis using that [of "word_of_nat (0x80 + n)" r "Inl n"] by (simp add: map_head_def unat_word_of_nat_byte tag_of_def read_len_def del: of_nat_add)
  next
    case 2
    then show thesis using that [of _ "be_bytes 2 n @ r"] read_num_be [of n 2 r] by (simp add: map_head_def tag_of_def read_len_def)
  next
    case 3
    then show thesis using that [of _ "be_bytes 4 n @ r"] read_num_be [of n 4 r] assms by (simp add: map_head_def tag_of_def read_len_def)
  qed
qed

lemma uint_read:
  assumes "n < 256 ^ k" "tag_of (unat b) = TUint k"
  shows "decode (Suc d) (b # be_bytes k n @ r) = Some (CInt (int n), r)"
  using assms by (simp add: read_num_be)

lemma sint_read:
  assumes "0 < k" "- (256 ^ k) \<le> 2 * n" "n < 0" "tag_of (unat b) = TSint k"
  shows "decode (Suc d) (b # be_bytes k (nat (n + 256 ^ k)) @ r) = Some (CInt n, r)"
proof -
  have i: "int (nat (n + 256 ^ k)) = n + 256 ^ k" using assms(2,3) by simp
  then have "nat (n + 256 ^ k) < 256 ^ k" "\<not> 2 * nat (n + 256 ^ k) < 256 ^ k"
    using assms(2,3) of_nat_less_iff [where ?'a = int, of "2 * nat (n + 256 ^ k)" "256 ^ k"] by (simp_all add: nat_less_iff)
  with i assms(4) show ?thesis by (simp add: read_num_be)
qed

lemma int_read:
  assumes "INT64_MIN \<le> n" "n \<le> UINT64_MAX"
  shows "decode (Suc d) (int_form n @ r) = Some (CInt n, r)"
proof -
  have small: "unat (word_of_int n :: byte) = nat (n mod 256)" by (simp add: unsigned_of_int take_bit_eq_mod)
  consider "0 \<le> n" "n \<le> 0x7F" | "-32 \<le> n" "n < 0" | "0x7F < n" "n \<le> 0xFF" | "0xFF < n" "n \<le> 0xFFFF"
    | "0xFFFF < n" "n \<le> 0xFFFFFFFF" | "0xFFFFFFFF < n" | "n < -32" "n \<ge> - (2 ^ 7)" | "n < - (2 ^ 7)" "n \<ge> - (2 ^ 15)"
    | "n < - (2 ^ 15)" "n \<ge> - (2 ^ 31)" | "n < - (2 ^ 31)" by linarith
  then show ?thesis
  proof cases
    case 1
    then show ?thesis by (simp add: int_form_def small tag_of_def nat_le_iff)
  next
    case 2
    then have "(n + 256) mod 256 = n + 256" by (intro mod_pos_pos_trivial) simp_all
    then have "n mod 256 = n + 256" by simp
    then have u: "unat (word_of_int n :: byte) = nat (n + 256)" using small by simp
    have "224 \<le> nat (n + 256)" "int (nat (n + 256)) = n + 256" using 2 by simp_all
    then have "tag_of (nat (n + 256)) = TInt n" unfolding tag_of_def by simp
    with 2 u show ?thesis by (simp add: int_form_def)
  next
    case 3
    then show ?thesis using uint_read [of "nat n" 1 "0xCC" d r] by (simp add: int_form_def tag_of_def nat_less_iff)
  next
    case 4
    then show ?thesis using uint_read [of "nat n" 2 "0xCD" d r] by (simp add: int_form_def tag_of_def nat_less_iff)
  next
    case 5
    then show ?thesis using uint_read [of "nat n" 4 "0xCE" d r] by (simp add: int_form_def tag_of_def nat_less_iff)
  next
    case 6
    then show ?thesis using uint_read [of "nat n" 8 "0xCF" d r] assms(2) by (simp add: int_form_def tag_of_def nat_less_iff UINT64_MAX_def)
  next
    case 7
    then show ?thesis using sint_read [of 1 n "0xD0" d r] by (simp add: int_form_def tag_of_def)
  next
    case 8
    then show ?thesis using sint_read [of 2 n "0xD1" d r] by (simp add: int_form_def tag_of_def)
  next
    case 9
    then show ?thesis using sint_read [of 4 n "0xD2" d r] by (simp add: int_form_def tag_of_def)
  next
    case 10
    then show ?thesis using sint_read [of 8 n "0xD3" d r] assms(1) by (simp add: int_form_def tag_of_def INT64_MIN_def)
  qed
qed

lemma str_read:
  assumes "text_ok s"
  shows "decode (Suc d) (str_form s @ r) = Some (CStr s, r)"
proof -
  obtain b where b: "utf8 s = Some b" "length b < 2 ^ 32" using assms by (auto simp: text_ok_def split: option.splits)
  obtain x t y where "str_head (length b) @ b @ r = x # t" "tag_of (unat x) = TStr y" "read_len y t = Some (length b, b @ r)"
    using str_head_read [OF b(2)] by metis
  with b(1) show ?thesis by (simp add: str_form_def read_body_def take_bytes_def)
qed

lemma heads_nonempty [simp]:
  "str_head n \<noteq> []" "bin_head n \<noteq> []" "array_head n \<noteq> []" "map_head n \<noteq> []" "int_form i \<noteq> []"
  by (simp_all add: str_head_def bin_head_def array_head_def map_head_def int_form_def)

lemma cenc_nonempty: "wf_cval c \<Longrightarrow> cenc c \<noteq> []"
  by (cases c) (auto simp: str_form_def text_ok_def split: option.splits)

lemma repeat_read_all:
  assumes "\<And>x r. x \<in> set xs \<Longrightarrow> f (g x @ r) = Some (x, r)"
  shows "repeat_read f (length xs) (concat (map g xs) @ r) = Some (xs, r)"
  using assms by (induction xs) auto

lemma cenc_all_concat: "cenc_all cs = concat (map cenc cs)"
  by (induction cs) simp_all

lemma cenc_items_concat: "cenc_items m = concat (map (\<lambda>(k, c). str_form k @ cenc c) m)"
  by (induction m) auto

lemma cenc_element_length: "c \<in> set cs \<Longrightarrow> length (cenc c) \<le> length (cenc_all cs)"
  by (induction cs) auto

lemma cenc_item_length: "(k, c) \<in> set m \<Longrightarrow> length (str_form k) + length (cenc c) \<le> length (cenc_items m)"
  by (induction m) auto

lemma decode_cenc:
  assumes "wf_cval c" "length (cenc c) \<le> d"
  shows "decode d (cenc c @ r) = Some (c, r)"
  using assms
proof (induction c arbitrary: d r)
  case (CArr cs)
  obtain e where d: "d = Suc e" using CArr.prems by (cases d) auto
  obtain b t x where h: "array_head (length cs) @ cenc_all cs @ r = b # t" "tag_of (unat b) = TArr x"
    "read_len x t = Some (length cs, cenc_all cs @ r)" using array_head_read [of "length cs" "cenc_all cs @ r"] CArr.prems by auto
  have "length (cenc_all cs) \<le> e" using CArr.prems d by (cases "array_head (length cs)") auto
  then have "decode e (cenc c @ r) = Some (c, r)" if "c \<in> set cs" for c r
    using CArr.IH [of c e] CArr.prems that cenc_element_length [OF that] by simp
  then have "repeat_read (decode e) (length cs) (cenc_all cs @ r) = Some (cs, r)"
    unfolding cenc_all_concat by (rule repeat_read_all)
  with h d show ?case by simp
next
  case (CMap m)
  obtain e where d: "d = Suc e" using CMap.prems by (cases d) auto
  obtain b t x where h: "map_head (length m) @ cenc_items m @ r = b # t" "tag_of (unat b) = TMap x"
    "read_len x t = Some (length m, cenc_items m @ r)" using map_head_read [of "length m" "cenc_items m @ r"] CMap.prems by auto
  have len: "length (cenc_items m) \<le> e" using CMap.prems d by (cases "map_head (length m)") auto
  have "read_pair (decode e) ((\<lambda>(k, c). str_form k @ cenc c) p @ r) = Some (p, r)" if "p \<in> set m" for p r
  proof -
    obtain k c where p: "p = (k, c)" by (cases p)
    have pm: "(k, c) \<in> set m" using that p by simp
    have w: "text_ok k" "wf_cval c" using CMap.prems pm by force+
    then have "0 < length (cenc c)" using cenc_nonempty by simp
    then obtain e' where e: "e = Suc e'" using len cenc_item_length [OF pm] by (cases e) auto
    have "decode e (cenc c @ r) = Some (c, r)"
      using CMap.IH [of p c e] that p w len cenc_item_length [OF pm] by simp
    with str_read [OF w(1), of e'] e p show ?thesis by (simp add: read_pair_def)
  qed
  then have "repeat_read (read_pair (decode e)) (length m) (cenc_items m @ r) = Some (m, r)"
    unfolding cenc_items_concat by (rule repeat_read_all)
  with h d show ?case by simp
next
  case (CBin b)
  obtain e where d: "d = Suc e" using CBin.prems by (cases d) auto
  obtain x t k where "bin_head (length b) @ b @ r = x # t" "tag_of (unat x) = TBin k" "read_num k t = Some (length b, b @ r)"
    using bin_head_read [of "length b" "b @ r"] CBin.prems by auto
  with d show ?case by (simp add: read_body_def take_bytes_def)
next
  case (CStr s)
  then show ?case using str_read [of s] by (cases d) (auto simp: str_form_def text_ok_def split: option.splits)
next
  case (CInt n)
  then show ?case using int_read [of n] by (cases d) auto
next
  case (CFloat w)
  have "unat w < 256 ^ 8" using unsigned_less [of w] by simp
  with CFloat show ?case using read_num_be [of "unat w" 8 r] by (cases d) (simp_all add: tag_of_def)
next
  case CNil
  then show ?case by (cases d) (simp_all add: tag_of_def)
next
  case (CBool x)
  then show ?case by (cases d) (simp_all add: tag_of_def)
qed

end
