(* ===== verification/Interop.thy ===== *)
theory Interop
  imports Interop_Codec
begin

text \<open>
  Interop mode (\<^verbatim>\<open>interop.py\<close>): what the canonical argument bytes identify, the cross-language keys built from them, the binding of
  calls to argument arrays, and the codec of values. \<^verbatim>\<open>blake2b\<close>, \<^verbatim>\<open>msgpack.unpackb\<close> and the ISO parsers are parameters.
\<close>

section \<open>Canonical arguments\<close>

definition number :: "bool \<Rightarrow> f64 \<Rightarrow> cval" where
  "number cf w = (if collapses cf w then CInt (f64_int w) else CFloat w)"

text \<open>
  The argument as every language sees it: integral floats are integers, tuples are arrays, the order of maps and sets does not matter
  (maps by key, sets by canonical form, without duplicates).
\<close>

fun arg_model :: "ival \<Rightarrow> cval" and arg_models :: "ival list \<Rightarrow> cval list" and arg_items :: "(ikey \<times> ival) list \<Rightarrow> (ucs \<times> cval) list" where
  "arg_model VNone = CNil"
| "arg_model (VBool b) = CBool b"
| "arg_model (VInt n) = CInt n"
| "arg_model (VFloat w) = number True w"
| "arg_model (VStr s) = CStr s"
| "arg_model (VBytes b) = CBin b"
| "arg_model (VPreEncoded bs) = CNil"
| "arg_model (VList vs) = CArr (arg_models vs)"
| "arg_model (VTuple vs) = CArr (arg_models vs)"
| "arg_model (VDict items) = CMap (sort_key fst (arg_items items))"
| "arg_model (VSet vs) = CArr (sort_key cenc (remdups (arg_models vs)))"
| "arg_model (VDatetime aware days seconds micros isofmt) = number True (micros_to_seconds ((days * 86400 + seconds) * 10 ^ 6 + micros))"
| "arg_model (VDate s) = CNil"
| "arg_model (VTime s) = CNil"
| "arg_model (VUuid s) = CStr s"
| "arg_model (VEnum v) = arg_model v"
| "arg_model (VPath s) = CStr s"
| "arg_model (VDecimal s) = CStr s"
| "arg_model (VOther t) = CNil"
| "arg_models [] = []"
| "arg_models (v # vs) = arg_model v # arg_models vs"
| "arg_items [] = []"
| "arg_items ((k, v) # kvs) = (ikey_text k, arg_model v) # arg_items kvs"

lemma join_map_Inr [simp]: "join (map Inr bs) = Inr (concat bs)"
  by (induction bs) simp_all

lemma join_all_Inr: "join rs = Inr b \<Longrightarrow> \<exists>bs. rs = map Inr bs"
proof (induction rs arbitrary: b rule: join.induct)
  case (3 b' rs)
  then obtain bs where "rs = map Inr bs" by (auto split: sum.splits)
  then have "Inr b' # rs = map Inr (b' # bs)" by simp
  then show ?case by (rule exI)
qed auto

lemma join_Inr: "join rs = Inr b \<longleftrightarrow> (\<exists>bs. rs = map Inr bs \<and> b = concat bs)"
  using join_all_Inr [of rs b] by auto

lemma insort_key_map: "insort_key f (g x) (map g xs) = map g (insort_key (f \<circ> g) x xs)"
  by (induction xs) auto

lemma sort_key_map: "sort_key f (map g xs) = map g (sort_key (f \<circ> g) xs)"
  by (induction xs) (simp_all add: sort_key_def insort_key_map comp_def)

lemma remdups_map: "inj_on f (set xs) \<Longrightarrow> remdups (map f xs) = map f (remdups xs)"
  by (induction xs) (auto simp: inj_on_def)

lemma cenc_inject: "wf_cval c \<Longrightarrow> wf_cval d \<Longrightarrow> cenc c = cenc d \<Longrightarrow> c = d"
  using decode_cenc [of c "length (cenc c)" "[]"] decode_cenc [of d "length (cenc c)" "[]"] by simp

lemma encode_int_form: "encode_int n = Inr b \<Longrightarrow> b = cenc (CInt n) \<and> wf_cval (CInt n)"
  by (auto simp: encode_int_def split: if_splits)

lemma encode_float_form: "encode_float cf w = Inr b \<Longrightarrow> b = cenc (number cf w) \<and> wf_cval (number cf w)"
  using encode_int_form [of "f64_int w" b] by (auto simp: encode_float_def number_def split: if_splits)

lemma encode_str_form: "encode_str s = Inr b \<Longrightarrow> b = str_form s \<and> text_ok s"
  by (auto simp: encode_str_def sized_def str_form_def text_ok_def split: option.splits if_splits)

lemma encode_bin_form: "encode_bin x = Inr b \<Longrightarrow> b = cenc (CBin x) \<and> wf_cval (CBin x)"
  by (auto simp: encode_bin_def sized_def split: if_splits)

lemma array_header_form: "encode_array_header n = Inr b \<Longrightarrow> b = array_head n \<and> n < 2 ^ 32"
  by (auto simp: encode_array_header_def sized_def split: if_splits)

lemma map_header_form: "encode_map_header n = Inr b \<Longrightarrow> b = map_head n \<and> n < 2 ^ 32"
  by (auto simp: encode_map_header_def sized_def split: if_splits)

text \<open>An array or a map whose parts have canonical forms.\<close>

lemma array_form:
  assumes "join (encode_array_header (length cs) # map Inr (map cenc cs)) = Inr b" "\<forall>c \<in> set cs. wf_cval c"
  shows "b = cenc (CArr cs) \<and> wf_cval (CArr cs)"
  using assms array_header_form [of "length cs"]
  by (auto simp: join_Inr Cons_eq_map_conv cenc_all_concat inj_map_eq_map simp del: map_map)

definition item_form :: "ucs \<times> cval \<Rightarrow> ucs \<times> (pyexn + bytes)" where
  "item_form p = (fst p, Inr (str_form (fst p) @ cenc (snd p)))"

lemma map_form:
  assumes "join (encode_map_header (length m) # map snd (sort_key fst (map item_form m))) = Inr b"
    "\<forall>p \<in> set m. text_ok (fst p) \<and> wf_cval (snd p)"
  shows "b = cenc (CMap (sort_key fst m)) \<and> wf_cval (CMap (sort_key fst m))"
proof -
  have "fst \<circ> item_form = fst" by (auto simp: item_form_def)
  then have "map snd (sort_key fst (map item_form m)) = map Inr (map (\<lambda>(k, c). str_form k @ cenc c) (sort_key fst m))"
    by (simp add: sort_key_map item_form_def case_prod_beta)
  with assms map_header_form [of "length m"] show ?thesis
    by (auto simp: join_Inr Cons_eq_map_conv cenc_items_concat inj_map_eq_map simp del: map_map)
qed


text \<open>The encoder computes the canonical form of the model.\<close>

lemma normalized_encoding:
  "normalize_arg v = Inr n \<Longrightarrow> encode True n = Inr b \<Longrightarrow> b = cenc (arg_model v) \<and> wf_cval (arg_model v)"
  "normalize_args vs = Inr ns \<Longrightarrow> encode_each True ns = map Inr bs \<Longrightarrow>
     bs = map cenc (arg_models vs) \<and> (\<forall>c \<in> set (arg_models vs). wf_cval c) \<and> length ns = length (arg_models vs)"
  "norm_set vs = Inr bs \<Longrightarrow> bs = map cenc (arg_models vs) \<and> (\<forall>c \<in> set (arg_models vs). wf_cval c)"
  "norm_dict items = Inr ms \<Longrightarrow> (\<forall>p \<in> set (encode_items True ms). \<exists>b. snd p = Inr b) \<Longrightarrow>
     encode_items True ms = map item_form (arg_items items) \<and> (\<forall>p \<in> set (arg_items items). text_ok (fst p) \<and> wf_cval (snd p))
     \<and> length ms = length (arg_items items) \<and> list_all (is_str_key \<circ> fst) ms"
proof (induction v and vs and vs and items arbitrary: n b and ns bs and bs and ms
    rule: normalize_arg_normalize_args_norm_set_norm_dict.induct)
  case (3 vs)
  then obtain bs where bs: "norm_set vs = Inr bs" and n: "n = VPreEncoded (sort (remdups bs))"
    by (auto split: sum.splits)
  let ?cs = "sort_key cenc (remdups (arg_models vs))"
  from 3(1) [OF bs] have c: "bs = map cenc (arg_models vs)" and w: "\<forall>c \<in> set (arg_models vs). wf_cval c" by blast+
  have inj: "inj_on cenc (set (arg_models vs))" using w cenc_inject by (meson inj_onI)
  have "sort (remdups bs) = map cenc ?cs"
    using sort_key_map [of "\<lambda>x. x" cenc "remdups (arg_models vs)"] by (simp add: c remdups_map [OF inj] comp_def)
  then show ?case using "3.prems"(2) n array_form [of ?cs b] w by simp
next
  case (4 vs)
  then obtain ns where ns: "normalize_args vs = Inr ns" and n: "n = VList ns" by (cases "normalize_args vs") auto
  then obtain bs where "encode_each True ns = map Inr bs" using "4.prems"(2) by (auto simp: join_Inr Cons_eq_map_conv)
  with 4 ns n array_form [of "arg_models vs" b] show ?case by simp
next
  case (5 vs)
  then obtain ns where ns: "normalize_args vs = Inr ns" and n: "n = VList ns" by (cases "normalize_args vs") auto
  then obtain bs where "encode_each True ns = map Inr bs" using "5.prems"(2) by (auto simp: join_Inr Cons_eq_map_conv)
  with 5 ns n array_form [of "arg_models vs" b] show ?case by simp
next
  case (6 items)
  then obtain ms where ms: "norm_dict items = Inr ms" and n: "n = VDict ms" by (cases "norm_dict items") auto
  then have j: "join (encode_map_header (length ms) # map snd (sort_key fst (encode_items True ms))) = Inr b"
    using "6.prems"(2) by (auto split: if_splits)
  then obtain hs where "map snd (sort_key fst (encode_items True ms)) = map Inr hs" by (auto simp: join_Inr Cons_eq_map_conv)
  then have "snd ` set (encode_items True ms) = Inr ` set hs" by (metis set_map set_sort)
  then have "\<forall>p \<in> set (encode_items True ms). \<exists>b. snd p = Inr b" by blast
  from 6(1) [OF ms this] j map_form [of "arg_items items" b] show ?case by simp
next
  case (18 v vs)
  then obtain n ms where n: "normalize_arg v = Inr n" "normalize_args vs = Inr ms" "ns = n # ms"
    by (auto split: sum.splits)
  with "18.prems" obtain b bs' where bs: "encode True n = Inr b" "encode_each True ms = map Inr bs'" "bs = b # bs'" by (cases bs) auto
  from 18(1) [OF n(1) bs(1)] 18(2) [OF n(1) n(2) bs(2)] bs n show ?case by auto
next
  case (20 v vs)
  then obtain n b bs' where n: "normalize_arg v = Inr n" "encode True n = Inr b" "norm_set vs = Inr bs'" "bs = b # bs'"
    by (auto simp: encode_canonical_def split: sum.splits)
  from 20(1) [OF n(1,2)] 20(2) [OF n(1) _ n(3)] n show ?case by (auto simp: encode_canonical_def)
next
  case (22 k v kvs)
  then obtain n ms' where n: "is_str_key k" "normalize_arg v = Inr n" "norm_dict kvs = Inr ms'" "ms = (k, n) # ms'"
    by (auto split: sum.splits if_splits)
  with "22.prems" obtain b where j: "join [encode_str (ikey_text k), encode True n] = Inr b" by auto
  then obtain kb vb where kv: "encode_str (ikey_text k) = Inr kb" "encode True n = Inr vb" "b = kb @ vb"
    by (auto simp: join_Inr Cons_eq_map_conv)
  have "\<forall>p \<in> set (encode_items True ms'). \<exists>b. snd p = Inr b" using "22.prems" n by auto
  from 22(1) [OF _ n(2) kv(2)] 22(2) [OF _ n(2) n(3) this] encode_str_form [OF kv(1)] kv j n show ?case
    by (auto simp: item_form_def)
qed (auto simp: encode_int_def encode_bin_def sized_def dest: encode_float_form encode_str_form split: if_splits)

lemma canonical_args_form:
  assumes "canonical_args_bytes args = Inr b"
  shows "b = cenc (CArr (arg_models args)) \<and> wf_cval (CArr (arg_models args))"
proof -
  from assms obtain ns where "normalize_arg (VList args) = Inr (VList ns)" "encode True (VList ns) = Inr b"
    by (auto simp: canonical_args_bytes_def encode_canonical_def split: sum.splits)
  from normalized_encoding(1) [OF this] show ?thesis by simp
qed

text \<open>
  The canonical argument bytes are a MessagePack document that reads back as the argument array of the language-neutral model:
  integral floats as integers, tuples as arrays, maps sorted by key, sets sorted by their encodings without duplicates.
\<close>

theorem canonical_args_read_back:
  assumes "canonical_args_bytes args = Inr b"
  shows "decode_document b = Some (CArr (arg_models args))"
  using canonical_args_form [OF assms] decode_cenc [of "CArr (arg_models args)" "length b" "[]"]
  by (auto simp: decode_document_def simp del: cenc.simps)

text \<open>\<^verbatim>\<open>f(42, {2, 2.0, 1})\<close>.\<close>

theorem canonical_args_read_back_witness:
  "decode_document [0x92, 42, 0x92, 1, 2] = Some (CArr [CInt 42, CArr [CInt 1, CInt 2]])"
proof -
  have f: "f64_exp 0x4000000000000000 = 1024" by (simp add: f64_exp_def)
  then have n: "collapses True 0x4000000000000000" "f64_finite 0x4000000000000000" "f64_int 0x4000000000000000 = 2"
    by (simp_all add: collapses_def is_integer_def f64_finite_def f64_int_def f64_shift_def f64_mant_def F64_LOWER_INCL_def F64_UPPER_EXCL_def)
  have i: "int_form 42 = [42]" "int_form 1 = [1]" "int_form 2 = [2]" by (simp_all add: int_form_def)
  have "canonical_args_bytes [VInt 42, VSet [VInt 2, VFloat 0x4000000000000000, VInt 1]] = Inr [0x92, 42, 0x92, 1, 2]"
    by (simp add: canonical_args_bytes_def encode_canonical_def encode_int_def encode_float_def n i INT64_MIN_def UINT64_MAX_def
        encode_array_header_def sized_def array_head_def)
  from canonical_args_read_back [OF this] show ?thesis by (simp add: number_def n i)
qed

section \<open>Keys\<close>

definition segment_char :: "nat \<Rightarrow> bool" where
  "segment_char c \<longleftrightarrow> (97 \<le> c \<and> c \<le> 122) \<or> (48 \<le> c \<and> c \<le> 57) \<or> c = 46 \<or> c = 95 \<or> c = 45"

text \<open>A full match of \<^verbatim>\<open>SEGMENT_RE\<close>.\<close>

definition segment_matches :: "ucs \<Rightarrow> bool" where
  "segment_matches s \<longleftrightarrow>
     (case s of [] \<Rightarrow> False | c # r \<Rightarrow> ((97 \<le> c \<and> c \<le> 122) \<or> (48 \<le> c \<and> c \<le> 57)) \<and> list_all segment_char r \<and> length r \<le> 63)"

definition validate_segment :: "ikey \<Rightarrow> pyexn + ucs" where
  "validate_segment segment =
     (case segment of
        KeyStr s \<Rightarrow> if segment_matches s then Inr s else Inl (interop_error ''invalid interop segment'')
      | KeyOther t \<Rightarrow> Inl (interop_error ''invalid interop segment''))"

definition validate_interop_config :: "ikey \<Rightarrow> ikey option \<Rightarrow> bool \<Rightarrow> pyexn + ucs \<times> ucs" where
  "validate_interop_config opn namespace has_custom_key =
     (case validate_segment opn of
        Inl e \<Rightarrow> Inl e
      | Inr op \<Rightarrow>
          (case namespace of
             None \<Rightarrow> Inl (interop_error ''interop mode requires an explicit namespace'')
           | Some seg \<Rightarrow>
               (case validate_segment seg of
                  Inl e \<Rightarrow> Inl e
                | Inr ns \<Rightarrow>
                    if has_custom_key then Inl (interop_error ''interop mode and a custom key= function are mutually exclusive'')
                    else Inr (op, ns))))"

definition args_hash :: "(bytes \<Rightarrow> ucs) \<Rightarrow> ival list \<Rightarrow> pyexn + ucs" where
  "args_hash blake2b args = map_sum id blake2b (canonical_args_bytes args)"

definition generate_interop_key :: "(bytes \<Rightarrow> ucs) \<Rightarrow> ikey \<Rightarrow> ikey \<Rightarrow> ival list \<Rightarrow> pyexn + ucs" where
  "generate_interop_key blake2b namespace opn args =
     (case validate_segment namespace of
        Inl e \<Rightarrow> Inl e
      | Inr ns \<Rightarrow>
          (case validate_segment opn of
             Inl e \<Rightarrow> Inl e
           | Inr op \<Rightarrow> map_sum id (\<lambda>h. ns @ [58] @ op @ [58] @ h) (args_hash blake2b args)))"

lemma segment_shape: "segment_matches s \<Longrightarrow> s \<noteq> [] \<and> length s \<le> 64 \<and> list_all segment_char s"
  by (auto simp: segment_matches_def segment_char_def split: list.splits)

lemma validated: "validate_segment g = Inr s \<Longrightarrow> g = KeyStr s \<and> segment_matches s"
  by (auto simp: validate_segment_def split: ikey.splits if_splits)

lemma generated:
  assumes "generate_interop_key h ns op args = Inr k"
  obtains n p b where "ns = KeyStr n" "op = KeyStr p" "segment_matches n" "segment_matches p" "canonical_args_bytes args = Inr b"
    "k = n @ 58 # p @ 58 # h b"
  using assms by (auto simp: generate_interop_key_def args_hash_def map_sum_def split: sum.splits dest!: validated)

text \<open>
  C14: The type of interop keys. A generated key is \<^verbatim>\<open>namespace:operation:hash\<close> of two valid segments and 64 hex digits: at most 194
  characters, of lower-case letters, digits, dots, underscores, hyphens and exactly two colons. So the length limit of key
  normalisation (250) never truncates it and no blank of it is replaced.
\<close>

theorem interop_key_type:
  assumes "generate_interop_key h ns op args = Inr k" "hex_digests h"
  shows "\<exists>n p d. k = n @ [58] @ p @ [58] @ d \<and> segment_matches n \<and> segment_matches p \<and> length d = 64 \<and> length k \<le> 194
    \<and> list_all (\<lambda>c. segment_char c \<or> c = 58) k \<and> count_list k 58 = 2 \<and> normalize_key digest k = k"
proof -
  obtain n p b where k: "segment_matches n" "segment_matches p" "k = n @ 58 # p @ 58 # h b" using generated [OF assms(1)] by metis
  have d: "length (h b) = 64" "list_all segment_char (h b)" using assms(2) by (auto simp: hex_digests_def segment_char_def list_all_iff) force+
  have c0: "list_all segment_char s \<Longrightarrow> count_list s 58 = 0" for s by (auto simp: count_list_0_iff segment_char_def list_all_iff)
  note np = segment_shape [OF k(1)] segment_shape [OF k(2)]
  have len: "length k \<le> 194" using np d k(3) by simp
  have chars: "list_all (\<lambda>c. segment_char c \<or> c = 58) k" using np d k(3) by (auto simp: list_all_iff)
  then have "map (\<lambda>c. if c = 32 \<or> c = 10 \<or> c = 13 then 95 else c) k = k" by (auto simp: list_all_iff segment_char_def intro!: map_idI)
  then have "normalize_key digest k = k" using len by (simp add: normalize_key_def MAX_KEY_LENGTH_def)
  then show ?thesis using k d len chars np c0 by (intro exI [of _ n] exI [of _ p] exI [of _ "h b"]) (simp add: count_list_append)
qed

theorem interop_key_type_witness:
  "count_list (ucs ''users:get_user:'' @ replicate 64 48) 58 = 2"
proof -
  have v: "validate_segment (KeyStr (ucs ''users'')) = Inr (ucs ''users'')" "validate_segment (KeyStr (ucs ''get_user'')) = Inr (ucs ''get_user'')"
    by (simp_all add: validate_segment_def segment_matches_def ucs_def segment_char_def)
  have "canonical_args_bytes [] = Inr [0x90]"
    by (simp add: canonical_args_bytes_def encode_canonical_def encode_array_header_def sized_def array_head_def)
  with v have g: "generate_interop_key (\<lambda>_. replicate 64 48) (KeyStr (ucs ''users'')) (KeyStr (ucs ''get_user'')) []
      = Inr (ucs ''users:get_user:'' @ replicate 64 48)"
    by (simp add: generate_interop_key_def args_hash_def ucs_def)
  have "hex_digests (\<lambda>_. replicate 64 48)" by (simp add: hex_digests_def)
  from interop_key_type [OF g this, of "\<lambda>x. x"] show ?thesis by blast
qed

text \<open>
  C12: Two calls share an interop key exactly when their namespaces, operations and language-neutral arguments agree, provided the
  hash does not collide on their two argument encodings.
\<close>

theorem interop_keys_identify_calls:
  assumes "generate_interop_key h ns op args = Inr k" "generate_interop_key h ns' op' args' = Inr k'"
    and "canonical_args_bytes args = Inr b" "canonical_args_bytes args' = Inr b'" "h b = h b' \<Longrightarrow> b = b'"
  shows "k = k' \<longleftrightarrow> ns = ns' \<and> op = op' \<and> arg_models args = arg_models args'"
proof -
  obtain n p where k: "ns = KeyStr n" "op = KeyStr p" "segment_matches n" "segment_matches p" "k = n @ 58 # p @ 58 # h b"
    using generated [OF assms(1)] assms(3) by (metis sum.inject(2))
  obtain n' p' where k': "ns' = KeyStr n'" "op' = KeyStr p'" "segment_matches n'" "segment_matches p'" "k' = n' @ 58 # p' @ 58 # h b'"
    using generated [OF assms(2)] assms(4) by (metis sum.inject(2))
  have colon: "58 \<notin> set s" if "segment_matches s" for s using segment_shape [OF that] by (auto simp: list_all_iff segment_char_def)
  have "b = b' \<longleftrightarrow> arg_models args = arg_models args'"
    using canonical_args_form [OF assms(3)] canonical_args_form [OF assms(4)] cenc_inject [of "CArr (arg_models args)" "CArr (arg_models args')"]
    by auto
  moreover have "k = k' \<longleftrightarrow> n = n' \<and> p = p' \<and> b = b'"
    using split_at_first [OF colon [OF k(3)] colon [OF k'(3)]] split_at_first [OF colon [OF k(4)] colon [OF k'(4)]] k(5) k'(5) assms(5) by blast
  ultimately show ?thesis using k(1,2) k'(1,2) by simp
qed

theorem interop_keys_identify_calls_witness:
  "(ucs ''u:g:'' @ [0x92, 1, 2] = ucs ''u:g:'' @ [0x92, 1, 2]) \<longleftrightarrow>
     KeyStr (ucs ''u'') = KeyStr (ucs ''u'') \<and> KeyStr (ucs ''g'') = KeyStr (ucs ''g'')
     \<and> arg_models [VInt 1, VInt 2] = arg_models [VEnum (VInt 1), VInt 2]"
proof -
  have v: "validate_segment (KeyStr (ucs ''u'')) = Inr (ucs ''u'')" "validate_segment (KeyStr (ucs ''g'')) = Inr (ucs ''g'')"
    by (simp_all add: validate_segment_def segment_matches_def ucs_def)
  have c: "canonical_args_bytes [VInt 1, VInt 2] = Inr [0x92, 1, 2]" "canonical_args_bytes [VEnum (VInt 1), VInt 2] = Inr [0x92, 1, 2]"
    by (simp_all add: canonical_args_bytes_def encode_canonical_def encode_int_def int_form_def INT64_MIN_def UINT64_MAX_def
        encode_array_header_def sized_def array_head_def)
  have g: "generate_interop_key (map unat) (KeyStr (ucs ''u'')) (KeyStr (ucs ''g'')) [VInt 1, VInt 2] = Inr (ucs ''u:g:'' @ [0x92, 1, 2])"
    "generate_interop_key (map unat) (KeyStr (ucs ''u'')) (KeyStr (ucs ''g'')) [VEnum (VInt 1), VInt 2] = Inr (ucs ''u:g:'' @ [0x92, 1, 2])"
    using v c by (simp_all add: generate_interop_key_def args_hash_def ucs_def)
  show ?thesis by (rule interop_keys_identify_calls [OF g c]) simp
qed

section \<open>Binding a call\<close>

datatype pkind = POSITIONAL_ONLY | POSITIONAL_OR_KEYWORD | VAR_POSITIONAL | KEYWORD_ONLY | VAR_KEYWORD

record param =
  pm_name :: ucs
  pm_kind :: pkind
  pm_default :: "ival option"

type_synonym arguments = "(ucs \<times> ival) list"

text \<open>
  \<^verbatim>\<open>Signature.bind\<close>: the positional arguments in order, then the remaining parameters by keyword (\<open>star\<close> is the \<^verbatim>\<open>**kwargs\<close>
  parameter met so far). Every refusal is a \<^verbatim>\<open>TypeError\<close>, here \<open>None\<close>.
\<close>

fun bind_keywords :: "param list \<Rightarrow> arguments \<Rightarrow> ucs option \<Rightarrow> arguments \<Rightarrow> arguments option" where
  "bind_keywords [] kwargs star acc =
     (if kwargs = [] then Some acc
      else case star of None \<Rightarrow> None | Some name \<Rightarrow> Some (acc @ [(name, VDict (map (\<lambda>(k, v). (KeyStr k, v)) kwargs))]))"
| "bind_keywords (p # ps) kwargs star acc =
     (case pm_kind p of
        VAR_KEYWORD \<Rightarrow> bind_keywords ps kwargs (Some (pm_name p)) acc
      | VAR_POSITIONAL \<Rightarrow> bind_keywords ps kwargs star acc
      | kind \<Rightarrow>
          (case map_of kwargs (pm_name p) of
             None \<Rightarrow> if pm_default p = None then None else bind_keywords ps kwargs star acc
           | Some v \<Rightarrow>
               if kind = POSITIONAL_ONLY then None
               else bind_keywords ps (AList.delete (pm_name p) kwargs) star (acc @ [(pm_name p, v)])))"

fun bind_positionals :: "param list \<Rightarrow> ival list \<Rightarrow> arguments \<Rightarrow> arguments \<Rightarrow> arguments option" where
  "bind_positionals ps [] kwargs acc = bind_keywords ps kwargs None acc"
| "bind_positionals [] (a # args) kwargs acc = None"
| "bind_positionals (p # ps) (a # args) kwargs acc =
     (case pm_kind p of
        VAR_KEYWORD \<Rightarrow> None
      | KEYWORD_ONLY \<Rightarrow> None
      | VAR_POSITIONAL \<Rightarrow> bind_keywords ps kwargs None (acc @ [(pm_name p, VTuple (a # args))])
      | kind \<Rightarrow>
          if kind \<noteq> POSITIONAL_ONLY \<and> map_of kwargs (pm_name p) \<noteq> None then None
          else bind_positionals ps args kwargs (acc @ [(pm_name p, a)]))"

text \<open>After \<^verbatim>\<open>apply_defaults\<close>: the array entry of one parameter.\<close>

definition elements :: "ival \<Rightarrow> ival list" where
  "elements v = (case v of VTuple vs \<Rightarrow> vs | VList vs \<Rightarrow> vs | _ \<Rightarrow> [])"

definition flat_entry :: "arguments \<Rightarrow> param \<Rightarrow> ival" where
  "flat_entry bound p =
     (case map_of bound (pm_name p) of
        Some v \<Rightarrow> if pm_kind p = VAR_POSITIONAL then VList (elements v) else v
      | None \<Rightarrow>
          (case pm_kind p of
             VAR_POSITIONAL \<Rightarrow> VList []
           | VAR_KEYWORD \<Rightarrow> VDict []
           | _ \<Rightarrow> (case pm_default p of Some v \<Rightarrow> v | None \<Rightarrow> VNone)))"

definition bind_flat_args :: "param list \<Rightarrow> ival list \<Rightarrow> arguments \<Rightarrow> pyexn + ival list" where
  "bind_flat_args sig args kwargs =
     (case bind_positionals sig args kwargs [] of
        None \<Rightarrow> Inl (interop_error ''arguments do not bind to the function signature'')
      | Some bound \<Rightarrow> Inr (map (flat_entry bound) sig))"

text \<open>Parameters that may be given either way, each by keyword or by its default.\<close>

definition ordinary :: "param list \<Rightarrow> bool" where
  "ordinary sig \<longleftrightarrow> distinct (map pm_name sig) \<and> (\<forall>p \<in> set sig. pm_kind p = POSITIONAL_OR_KEYWORD)"

definition supplied :: "arguments \<Rightarrow> param \<Rightarrow> ival \<Rightarrow> bool" where
  "supplied kwargs p v \<longleftrightarrow> map_of kwargs (pm_name p) = Some v \<or> map_of kwargs (pm_name p) = None \<and> pm_default p = Some v"

lemma delete_names: "fst ` set (AList.delete k xs) = fst ` set xs - {k}"
  by (induction xs) auto

lemma bind_keywords_ordinary:
  assumes "ordinary sig" "list_all2 (supplied kwargs) sig vs" "fst ` set kwargs \<subseteq> pm_name ` set sig"
    "\<And>p. p \<in> set sig \<Longrightarrow> map_of acc (pm_name p) = None"
  shows "\<exists>bound. bind_keywords sig kwargs None acc = Some bound \<and> map (flat_entry bound) sig = vs
    \<and> (\<forall>k. k \<notin> pm_name ` set sig \<longrightarrow> map_of bound k = map_of acc k)"
  using assms
proof (induction sig arbitrary: kwargs vs acc)
  case Nil
  then show ?case by simp
next
  case (Cons p ps)
  then obtain v ws where vs: "vs = v # ws" "supplied kwargs p v" "list_all2 (supplied kwargs) ps ws" by (cases vs) auto
  have o: "ordinary ps" "pm_kind p = POSITIONAL_OR_KEYWORD" and np: "pm_name p \<notin> pm_name ` set ps" using Cons.prems(1) by (auto simp: ordinary_def)
  have unset: "map_of acc (pm_name p) = None" using Cons.prems(4) by simp
  show ?case
  proof (cases "map_of kwargs (pm_name p)")
    case None
    then have d: "pm_default p = Some v" using vs(2) by (simp add: supplied_def)
    have "pm_name p \<notin> fst ` set kwargs" using None by (simp add: map_of_eq_None_iff)
    then have kw: "fst ` set kwargs \<subseteq> pm_name ` set ps" using Cons.prems(3) by (simp add: subset_insert)
    obtain bound where b: "bind_keywords ps kwargs None acc = Some bound" "map (flat_entry bound) ps = ws"
      "\<forall>k. k \<notin> pm_name ` set ps \<longrightarrow> map_of bound k = map_of acc k"
      using Cons.IH [OF o(1) vs(3) kw] Cons.prems(4) by auto
    then have "flat_entry bound p = v" using np unset d o(2) by (simp add: flat_entry_def)
    with b None d o(2) vs(1) show ?thesis by (intro exI [of _ bound]) simp
  next
    case (Some u)
    then have u: "u = v" using vs(2) by (simp add: supplied_def)
    let ?kw = "AList.delete (pm_name p) kwargs" and ?acc = "acc @ [(pm_name p, v)]"
    have "list_all2 (supplied ?kw) ps ws"
      using vs(3)
    proof (rule list.rel_mono_strong)
      fix q w assume "q \<in> set ps" "w \<in> set ws" "supplied kwargs q w"
      then have "pm_name q \<noteq> pm_name p" using np by (metis imageI)
      with \<open>supplied kwargs q w\<close> show "supplied ?kw q w" by (simp add: supplied_def AList.delete_conv')
    qed
    moreover have "fst ` set ?kw \<subseteq> pm_name ` set ps" using Cons.prems(3) by (auto simp: delete_names)
    moreover have "map_of ?acc (pm_name q) = None" if "q \<in> set ps" for q
    proof -
      have "pm_name q \<noteq> pm_name p" using np that by (metis imageI)
      then show ?thesis using Cons.prems(4) [of q] that by (simp add: map_add_def)
    qed
    ultimately obtain bound where b: "bind_keywords ps ?kw None ?acc = Some bound" "map (flat_entry bound) ps = ws"
      "\<forall>k. k \<notin> pm_name ` set ps \<longrightarrow> map_of bound k = map_of ?acc k"
      using Cons.IH [OF o(1), of ?kw ws ?acc] by blast
    then have "flat_entry bound p = v" using np unset o(2) by (simp add: flat_entry_def map_add_def)
    with b Some u o(2) vs(1) show ?thesis by (intro exI [of _ bound]) (auto simp: map_add_def split: option.splits)
  qed
qed

lemma bind_positionals_ordinary:
  assumes "ordinary sig" "length args \<le> length sig" "list_all2 (supplied kwargs) (drop (length args) sig) vs"
    "fst ` set kwargs \<subseteq> pm_name ` set (drop (length args) sig)" "\<And>p. p \<in> set sig \<Longrightarrow> map_of acc (pm_name p) = None"
  shows "\<exists>bound. bind_positionals sig args kwargs acc = Some bound \<and> map (flat_entry bound) sig = args @ vs
    \<and> (\<forall>k. k \<notin> pm_name ` set sig \<longrightarrow> map_of bound k = map_of acc k)"
  using assms
proof (induction args arbitrary: sig acc)
  case Nil
  then show ?case using bind_keywords_ordinary [of sig kwargs vs acc] by simp
next
  case (Cons a args)
  then obtain p ps where sig: "sig = p # ps" by (cases sig) auto
  have o: "ordinary ps" "pm_kind p = POSITIONAL_OR_KEYWORD" and np: "pm_name p \<notin> pm_name ` set ps"
    using Cons.prems(1) sig by (auto simp: ordinary_def)
  have "pm_name ` set (drop (length args) ps) \<subseteq> pm_name ` set ps" by (intro image_mono set_drop_subset)
  then have "pm_name p \<notin> fst ` set kwargs" using Cons.prems(4) np sig by (metis drop_Suc_Cons length_Cons subsetD)
  then have nk: "map_of kwargs (pm_name p) = None" by (simp add: map_of_eq_None_iff)
  let ?acc = "acc @ [(pm_name p, a)]"
  have "map_of ?acc (pm_name q) = None" if "q \<in> set ps" for q
  proof -
    have "pm_name q \<noteq> pm_name p" using np that by (metis imageI)
    then show ?thesis using Cons.prems(5) [of q] that sig by (simp add: map_add_def)
  qed
  then obtain bound where b: "bind_positionals ps args kwargs ?acc = Some bound" "map (flat_entry bound) ps = args @ vs"
    "\<forall>k. k \<notin> pm_name ` set ps \<longrightarrow> map_of bound k = map_of ?acc k"
    using Cons.IH [of ps ?acc] Cons.prems sig o(1) by auto
  then have "flat_entry bound p = a" using np Cons.prems(5) [of p] sig o(2) by (simp add: flat_entry_def map_add_def)
  with b nk sig o(2) show ?case by (intro exI [of _ bound]) (auto simp: map_add_def split: option.splits)
qed

text \<open>
  How a call is spelled does not matter. For a function of ordinary parameters, a call that gives the first arguments by position
  and each of the others by keyword (in any order) or leaves it to its default binds to the array of the values in declared order.
\<close>

theorem call_spelling_irrelevant:
  assumes "ordinary sig" "length args \<le> length sig" "list_all2 (supplied kwargs) (drop (length args) sig) vs"
    "fst ` set kwargs \<subseteq> pm_name ` set (drop (length args) sig)"
  shows "bind_flat_args sig args kwargs = Inr (args @ vs)"
  using bind_positionals_ordinary [OF assms, of "[]"] by (auto simp: bind_flat_args_def)

text \<open>\<^verbatim>\<open>f(a, b, flag=False)\<close> called as \<^verbatim>\<open>f(1, b=2)\<close>.\<close>

theorem call_spelling_irrelevant_witness:
  "bind_flat_args [\<lparr>pm_name = [97], pm_kind = POSITIONAL_OR_KEYWORD, pm_default = None\<rparr>,
      \<lparr>pm_name = [98], pm_kind = POSITIONAL_OR_KEYWORD, pm_default = None\<rparr>,
      \<lparr>pm_name = [102], pm_kind = POSITIONAL_OR_KEYWORD, pm_default = Some (VBool False)\<rparr>] [VInt 1] [([98], VInt 2)]
   = Inr ([VInt 1] @ [VInt 2, VBool False])"
  by (rule call_spelling_irrelevant) (simp_all add: ordinary_def supplied_def)

end
