(* ===== verification/Interop_Values.thy ===== *)
theory Interop_Values
  imports Interop
begin

text \<open>
  The value codec of interop mode (\<^verbatim>\<open>interop.py\<close>, \<^verbatim>\<open>serializers/interop_serializer.py\<close>) and the backend guard. \<^verbatim>\<open>msgpack.unpackb\<close> is
  a parameter that is called with the reviving hook; the parsers \<^verbatim>\<open>datetime/date/time.fromisoformat\<close> are parameters too.
\<close>

section \<open>Codec\<close>

definition sentinel :: "string \<Rightarrow> ucs \<Rightarrow> ival" where
  "sentinel mark isofmt = VDict [(KeyStr (ucs mark), VBool True), (KeyStr (ucs ''value''), VStr isofmt)]"

fun normalize_value :: "ival \<Rightarrow> pyexn + ival"
  and normalize_values :: "ival list \<Rightarrow> pyexn + ival list"
  and normalize_value_items :: "(ikey \<times> ival) list \<Rightarrow> pyexn + (ikey \<times> ival) list" where
  "normalize_value (VDatetime aware days seconds micros isofmt) = Inr (sentinel ''__datetime__'' isofmt)"
| "normalize_value (VDate isofmt) = Inr (sentinel ''__date__'' isofmt)"
| "normalize_value (VTime isofmt) = Inr (sentinel ''__time__'' isofmt)"
| "normalize_value (VList vs) = map_sum id VList (normalize_values vs)"
| "normalize_value (VTuple vs) = map_sum id VList (normalize_values vs)"
| "normalize_value (VDict items) = map_sum id VDict (normalize_value_items items)"
| "normalize_value VNone = Inr VNone"
| "normalize_value (VBool b) = Inr (VBool b)"
| "normalize_value (VInt n) = Inr (VInt n)"
| "normalize_value (VFloat w) = Inr (VFloat w)"
| "normalize_value (VStr s) = Inr (VStr s)"
| "normalize_value (VBytes b) = Inr (VBytes b)"
| "normalize_value _ = Inl (interop_error ''type cannot be an interop value'')"
| "normalize_values [] = Inr []"
| "normalize_values (v # vs) =
     (case normalize_value v of
        Inl e \<Rightarrow> Inl e
      | Inr n \<Rightarrow> (case normalize_values vs of Inl e \<Rightarrow> Inl e | Inr ns \<Rightarrow> Inr (n # ns)))"
| "normalize_value_items [] = Inr []"
| "normalize_value_items ((k, v) # kvs) =
     (if \<not> is_str_key k then Inl (interop_error ''interop value map keys must be strings'')
      else case normalize_value v of
             Inl e \<Rightarrow> Inl e
           | Inr n \<Rightarrow> (case normalize_value_items kvs of Inl e \<Rightarrow> Inl e | Inr ns \<Rightarrow> Inr ((k, n) # ns)))"

definition encode_interop_value :: "ival \<Rightarrow> pyexn + bytes" where
  "encode_interop_value v = (case normalize_value v of Inl e \<Rightarrow> Inl e | Inr n \<Rightarrow> encode_canonical False n)"

definition iso_utc :: "ucs \<Rightarrow> ucs" where
  "iso_utc s = (if s \<noteq> [] \<and> (last s = 90 \<or> last s = 122) then butlast s @ ucs ''+00:00'' else s)"

record iso_parsers =
  iso_datetime :: "ucs \<Rightarrow> pyexn + ival"
  iso_date :: "ucs \<Rightarrow> pyexn + ival"
  iso_time :: "ucs \<Rightarrow> pyexn + ival"

definition marked :: "string \<Rightarrow> (ikey \<times> ival) list \<Rightarrow> ucs option" where
  "marked mark items =
     (case (map_of items (KeyStr (ucs mark)), map_of items (KeyStr (ucs ''value''))) of
        (Some (VBool True), Some (VStr s)) \<Rightarrow> Some s
      | _ \<Rightarrow> None)"

definition revive_sentinels :: "iso_parsers \<Rightarrow> ival \<Rightarrow> pyexn + ival" where
  "revive_sentinels ps obj =
     (case obj of
        VDict items \<Rightarrow>
          (case marked ''__datetime__'' items of
             Some s \<Rightarrow> iso_datetime ps (iso_utc s)
           | None \<Rightarrow>
               (case marked ''__date__'' items of
                  Some s \<Rightarrow> iso_date ps s
                | None \<Rightarrow>
                    (case marked ''__time__'' items of
                       Some s \<Rightarrow> iso_time ps (iso_utc s)
                     | None \<Rightarrow> Inr obj)))
      | _ \<Rightarrow> Inr obj)"

type_synonym unpacker = "(ival \<Rightarrow> pyexn + ival) \<Rightarrow> bytes \<Rightarrow> pyexn + ival"

definition CK_FRAME_MAGIC :: bytes where "CK_FRAME_MAGIC = [0x43, 0x4B]"

definition decode_interop_value :: "unpacker \<Rightarrow> iso_parsers \<Rightarrow> bytes \<Rightarrow> pyexn + ival" where
  "decode_interop_value unpackb ps raw =
     (if take (length CK_FRAME_MAGIC) raw = CK_FRAME_MAGIC
      then Inl (PyExn ''InteropDecodeError'' ''stored value is a Python-SDK-internal auto-mode entry'')
      else case unpackb (revive_sentinels ps) raw of
             Inl e \<Rightarrow> Inl (PyExn ''InteropDecodeError'' ''stored value is not a single well-formed MessagePack document'')
           | Inr v \<Rightarrow> Inr v)"

text \<open>The serializer: a \<^verbatim>\<open>ValueError\<close> (an \<^verbatim>\<open>InteropError\<close>) passes, anything else becomes a \<^verbatim>\<open>SerializationError\<close>. The metadata are constants.\<close>

definition interop_serialize :: "ival \<Rightarrow> pyexn + bytes" where
  "interop_serialize obj =
     (case encode_interop_value obj of
        Inl (PyExn c t) \<Rightarrow> if c = ''InteropError'' \<or> c = ''ValueError'' then Inl (PyExn c t) else Inl (PyExn ''SerializationError'' t)
      | Inl e \<Rightarrow> Inl (PyExn ''SerializationError'' [])
      | Inr data \<Rightarrow> Inr data)"

definition interop_deserialize :: "unpacker \<Rightarrow> iso_parsers \<Rightarrow> bytes \<Rightarrow> pyexn + ival" where
  "interop_deserialize = decode_interop_value"

text \<open>\<open>key_prefix\<close> and \<open>private_prefix\<close> are the attributes of the backend, when it has them.\<close>

definition ensure_interop_backend_compatible :: "(ucs option \<times> ucs option) option \<Rightarrow> pyexn + unit" where
  "ensure_interop_backend_compatible backend =
     (case backend of
        None \<Rightarrow> Inr ()
      | Some (key_prefix, private_prefix) \<Rightarrow>
          let truthy = (\<lambda>p. p \<noteq> None \<and> p \<noteq> Some []) in
          if truthy key_prefix \<or> truthy private_prefix
          then Inl (PyExn ''ConfigurationError'' ''interop mode cannot be used with a key-prefixing backend'')
          else Inr ())"

section \<open>The value profile\<close>

fun value_model :: "ival \<Rightarrow> cval" where
  "value_model VNone = CNil"
| "value_model (VBool b) = CBool b"
| "value_model (VInt n) = CInt n"
| "value_model (VFloat w) = CFloat w"
| "value_model (VStr s) = CStr s"
| "value_model (VBytes b) = CBin b"
| "value_model (VList vs) = CArr (map value_model vs)"
| "value_model (VTuple vs) = CArr (map value_model vs)"
| "value_model (VDict items) = CMap (sort_key fst (map (\<lambda>(k, v). (ikey_text k, value_model v)) items))"
| "value_model (VDatetime aware days seconds micros isofmt) = CMap [(ucs ''__datetime__'', CBool True), (ucs ''value'', CStr isofmt)]"
| "value_model (VDate isofmt) = CMap [(ucs ''__date__'', CBool True), (ucs ''value'', CStr isofmt)]"
| "value_model (VTime isofmt) = CMap [(ucs ''__time__'', CBool True), (ucs ''value'', CStr isofmt)]"
| "value_model _ = CNil"

definition value_item :: "ikey \<times> ival \<Rightarrow> ucs \<times> cval" where
  "value_item p = (ikey_text (fst p), value_model (snd p))"

lemma value_item_eq: "(\<lambda>(k, v). (ikey_text k, value_model v)) = value_item"
  by (auto simp: value_item_def)

lemma marks_sorted [simp]:
  "ucs ''__datetime__'' \<le> ucs ''value''" "ucs ''__date__'' \<le> ucs ''value''" "ucs ''__time__'' \<le> ucs ''value''"
  by (simp_all add: ucs_def)

fun no_pre :: "ival \<Rightarrow> bool" where
  "no_pre (VPreEncoded bs) = False"
| "no_pre (VList vs) = (\<forall>v \<in> set vs. no_pre v)"
| "no_pre (VTuple vs) = (\<forall>v \<in> set vs. no_pre v)"
| "no_pre (VDict items) = (\<forall>p \<in> set items. no_pre (snd p))"
| "no_pre _ = True"

lemma encode_value:
  "encode False n = Inr b \<Longrightarrow> no_pre n \<Longrightarrow> b = cenc (value_model n) \<and> wf_cval (value_model n)"
  "encode_each False ns = map Inr bs \<Longrightarrow> (\<forall>n \<in> set ns. no_pre n) \<Longrightarrow>
     bs = map cenc (map value_model ns) \<and> (\<forall>n \<in> set ns. wf_cval (value_model n))"
  "(\<forall>p \<in> set (encode_items False ms). \<exists>b. snd p = Inr b) \<Longrightarrow> (\<forall>p \<in> set ms. no_pre (snd p)) \<Longrightarrow>
     encode_items False ms = map item_form (map value_item ms) \<and> (\<forall>p \<in> set ms. text_ok (ikey_text (fst p)) \<and> wf_cval (value_model (snd p)))"
proof (induction "False" n and "False" ns and "False" ms arbitrary: b and bs rule: encode_encode_each_encode_items.induct)
  case (8 vs)
  then obtain bs where "encode_each False vs = map Inr bs" by (auto simp: join_Inr Cons_eq_map_conv)
  with 8 array_form [of "map value_model vs" b] show ?case by (simp del: map_map)
next
  case (9 vs)
  then obtain bs where "encode_each False vs = map Inr bs" by (auto simp: join_Inr Cons_eq_map_conv)
  with 9 array_form [of "map value_model vs" b] show ?case by (simp del: map_map)
next
  case (10 items)
  then have j: "list_all (is_str_key \<circ> fst) items" "join (encode_map_header (length items) # map snd (sort_key fst (encode_items False items))) = Inr b"
    by (auto split: if_splits)
  then obtain hs where "map snd (sort_key fst (encode_items False items)) = map Inr hs" by (auto simp: join_Inr Cons_eq_map_conv)
  then have "snd ` set (encode_items False items) = Inr ` set hs" by (metis set_map set_sort)
  then have "\<forall>p \<in> set (encode_items False items). \<exists>b. snd p = Inr b" by blast
  with 10 j have "encode_items False items = map item_form (map value_item items)"
    "\<forall>p \<in> set (map value_item items). text_ok (fst p) \<and> wf_cval (snd p)" by (auto simp: value_item_def)
  with j(2) map_form [of "map value_item items" b] show ?case by (simp add: value_item_eq del: map_map)
next
  case (13 v vs)
  then obtain b bs' where bs: "encode False v = Inr b" "encode_each False vs = map Inr bs'" "bs = b # bs'" by (cases bs) auto
  from 13(1) [OF bs(1)] 13(2) [OF bs(2)] 13(4) bs show ?case by auto
next
  case (15 k v kvs)
  from 15(3) obtain b where "join [encode_str (ikey_text k), encode False v] = Inr b" by auto
  then obtain kb vb where kv: "encode_str (ikey_text k) = Inr kb" "encode False v = Inr vb" "b = kb @ vb"
    by (auto simp: join_Inr Cons_eq_map_conv)
  with 15(1) [OF kv(2)] 15(2,3,4) encode_str_form [OF kv(1)] show ?case by (auto simp: item_form_def value_item_def)
qed (auto simp: encode_int_def encode_bin_def sized_def encode_float_def collapses_def dest: encode_str_form split: if_splits)

lemma normalize_value_model:
  "normalize_value v = Inr n \<Longrightarrow> no_pre n \<and> value_model n = value_model v"
  "normalize_values vs = Inr ns \<Longrightarrow> (\<forall>n \<in> set ns. no_pre n) \<and> map value_model ns = map value_model vs"
  "normalize_value_items items = Inr ms \<Longrightarrow> (\<forall>p \<in> set ms. no_pre (snd p)) \<and> map value_item ms = map value_item items"
proof (induction v and vs and items arbitrary: n and ns and ms rule: normalize_value_normalize_values_normalize_value_items.induct)
  case (4 vs)
  then show ?case by (cases "normalize_values vs") auto
next
  case (5 vs)
  then show ?case by (cases "normalize_values vs") auto
next
  case (6 items)
  then show ?case by (cases "normalize_value_items items") (auto simp: value_item_eq)
next
  case (15 v vs)
  then show ?case by (auto split: sum.splits)
next
  case (17 k v kvs)
  then obtain n ms' where n: "is_str_key k" "normalize_value v = Inr n" "normalize_value_items kvs = Inr ms'" "ms = (k, n) # ms'"
    by (auto split: sum.splits if_splits)
  from 17(1) [OF _ n(2)] 17(2) [OF _ n(2,3)] n show ?case by (simp add: value_item_def)
qed (auto simp: sentinel_def value_item_eq value_item_def ikey_text_def)

lemma encode_interop_value_form:
  "encode_interop_value v = Inr b \<Longrightarrow> b = cenc (value_model v) \<and> wf_cval (value_model v)"
  using encode_value(1) normalize_value_model(1)
  by (fastforce simp: encode_interop_value_def encode_canonical_def split: sum.splits)

section \<open>Round trip\<close>

text \<open>What \<^verbatim>\<open>unpackb\<close> builds: the hook is applied to every map, innermost first.\<close>

fun build :: "(ival \<Rightarrow> pyexn + ival) \<Rightarrow> cval \<Rightarrow> pyexn + ival"
  and build_all :: "(ival \<Rightarrow> pyexn + ival) \<Rightarrow> cval list \<Rightarrow> pyexn + ival list"
  and build_items :: "(ival \<Rightarrow> pyexn + ival) \<Rightarrow> (ucs \<times> cval) list \<Rightarrow> pyexn + (ikey \<times> ival) list" where
  "build hook CNil = Inr VNone"
| "build hook (CBool b) = Inr (VBool b)"
| "build hook (CInt n) = Inr (VInt n)"
| "build hook (CFloat w) = Inr (VFloat w)"
| "build hook (CStr s) = Inr (VStr s)"
| "build hook (CBin b) = Inr (VBytes b)"
| "build hook (CArr cs) = map_sum id VList (build_all hook cs)"
| "build hook (CMap m) = (case build_items hook m of Inl e \<Rightarrow> Inl e | Inr items \<Rightarrow> hook (VDict items))"
| "build_all hook [] = Inr []"
| "build_all hook (c # cs) =
     (case build hook c of Inl e \<Rightarrow> Inl e | Inr v \<Rightarrow> (case build_all hook cs of Inl e \<Rightarrow> Inl e | Inr vs \<Rightarrow> Inr (v # vs)))"
| "build_items hook [] = Inr []"
| "build_items hook ((k, c) # m) =
     (case build hook c of Inl e \<Rightarrow> Inl e | Inr v \<Rightarrow> (case build_items hook m of Inl e \<Rightarrow> Inl e | Inr vs \<Rightarrow> Inr ((KeyStr k, v) # vs)))"

fun nesting :: "cval \<Rightarrow> nat" where
  "nesting (CArr cs) = Suc (fold max (map nesting cs) 0)"
| "nesting (CMap m) = Suc (fold max (map (\<lambda>(k, c). nesting c) m) 0)"
| "nesting _ = 0"

text \<open>What the library documents: a document is read back unless it is nested too deeply (its C reader has a stack of fixed size).\<close>

definition reads_msgpack :: "nat \<Rightarrow> unpacker \<Rightarrow> bool" where
  "reads_msgpack limit unpackb \<longleftrightarrow>
     (\<forall>hook b c. decode_document b = Some c \<longrightarrow> nesting c \<le> limit \<longrightarrow> unpackb hook b = build hook c)"

text \<open>The value a reader gets: tuples are lists and dictionaries are in key order.\<close>

fun value_back :: "ival \<Rightarrow> ival" where
  "value_back (VList vs) = VList (map value_back vs)"
| "value_back (VTuple vs) = VList (map value_back vs)"
| "value_back (VDict items) = VDict (sort_key (ikey_text \<circ> fst) (map (\<lambda>(k, v). (k, value_back v)) items))"
| "value_back v = v"

text \<open>
  The values that survive: the texts of dates and times parse back, and no dictionary of the user looks like the sentinel map of one.
\<close>

fun survives :: "iso_parsers \<Rightarrow> ival \<Rightarrow> bool" where
  "survives ps (VList vs) = (\<forall>v \<in> set vs. survives ps v)"
| "survives ps (VTuple vs) = (\<forall>v \<in> set vs. survives ps v)"
| "survives ps (VDict items) =
     ((\<forall>p \<in> set items. survives ps (snd p)) \<and> distinct (map fst items)
      \<and> marked ''__datetime__'' items = None \<and> marked ''__date__'' items = None \<and> marked ''__time__'' items = None)"
| "survives ps (VDatetime aware days seconds micros isofmt) =
     (iso_datetime ps (iso_utc isofmt) = Inr (VDatetime aware days seconds micros isofmt))"
| "survives ps (VDate isofmt) = (iso_date ps isofmt = Inr (VDate isofmt))"
| "survives ps (VTime isofmt) = (iso_time ps (iso_utc isofmt) = Inr (VTime isofmt))"
| "survives ps _ = True"

lemma build_all_back: "(\<And>v. v \<in> set vs \<Longrightarrow> build hook (f v) = Inr (g v)) \<Longrightarrow> build_all hook (map f vs) = Inr (map g vs)"
  by (induction vs) auto

lemma build_items_back:
  "(\<And>k v. (k, v) \<in> set items \<Longrightarrow> is_str_key k \<and> build hook (value_model v) = Inr (g v)) \<Longrightarrow>
     build_items hook (map value_item items) = Inr (map (\<lambda>(k, v). (k, g v)) items)"
proof (induction items)
  case (Cons p items)
  obtain k v where p: "p = (k, v)" by (cases p)
  then have "is_str_key k" "build hook (value_model v) = Inr (g v)" using Cons.prems [of k v] by auto
  moreover have "KeyStr (ikey_text k) = k" if "is_str_key k" using that by (cases k) (simp_all add: is_str_key_def ikey_text_def)
  moreover have "build_items hook (map value_item items) = Inr (map (\<lambda>(k, v). (k, g v)) items)"
    by (rule Cons.IH) (use Cons.prems in auto)
  ultimately show ?case using p value_item_def [of "(k, v)"] by simp
qed simp

lemma map_of_back: "map_of (map (\<lambda>(k, v). (k, value_back v)) items) k = map_option value_back (map_of items k)"
  by (induction items) auto

lemma back_marks: "value_back v = VBool True \<longleftrightarrow> v = VBool True" "value_back v = VStr s \<longleftrightarrow> v = VStr s"
  by (cases v; simp)+

lemma map_of_sort: "distinct (map fst items) \<Longrightarrow> map_of (sort_key f items) = map_of items"
  by (rule map_of_inject_set [THEN iffD2]) (simp_all add: distinct_map)

lemma marked_back:
  assumes "distinct (map fst items)" "marked mark items = None"
  shows "marked mark (sort_key f (map (\<lambda>(k, v). (k, value_back v)) items)) = None"
proof -
  have d: "distinct (map fst (map (\<lambda>(k, v). (k, value_back v)) items))"
    using assms(1) by (simp add: comp_def case_prod_beta)
  show ?thesis using assms(2)
    by (auto simp: marked_def map_of_sort [OF d] map_of_back back_marks split: option.splits ival.splits bool.splits)
qed

text \<open>The normal form decides which keys a dictionary may have.\<close>

lemma normalized_keys: "normalize_value_items items = Inr ms \<Longrightarrow> (k, v) \<in> set items \<Longrightarrow> is_str_key k \<and> (\<exists>n. normalize_value v = Inr n)"
  by (induction items arbitrary: ms) (auto split: if_splits sum.splits)

lemma normalized_elements: "normalize_values vs = Inr ns \<Longrightarrow> v \<in> set vs \<Longrightarrow> \<exists>n. normalize_value v = Inr n"
  by (induction vs arbitrary: ns) (auto split: sum.splits)

lemma build_back:
  "normalize_value v = Inr n \<Longrightarrow> survives ps v \<Longrightarrow> build (revive_sentinels ps) (value_model v) = Inr (value_back v)"
proof (induction v arbitrary: n)
  case (VList vs)
  then obtain ns where ns: "normalize_values vs = Inr ns" by (cases "normalize_values vs") auto
  have "build (revive_sentinels ps) (value_model v) = Inr (value_back v)" if v: "v \<in> set vs" for v
    using VList.IH [OF v] normalized_elements [OF ns v] VList.prems(2) v by auto
  from build_all_back [of vs "revive_sentinels ps" value_model value_back, OF this] show ?case by simp
next
  case (VTuple vs)
  then obtain ns where ns: "normalize_values vs = Inr ns" by (cases "normalize_values vs") auto
  have "build (revive_sentinels ps) (value_model v) = Inr (value_back v)" if v: "v \<in> set vs" for v
    using VTuple.IH [OF v] normalized_elements [OF ns v] VTuple.prems(2) v by auto
  from build_all_back [of vs "revive_sentinels ps" value_model value_back, OF this] show ?case by simp
next
  case (VDict items)
  let ?its = "sort_key (ikey_text \<circ> fst) items"
  obtain ms where ms: "normalize_value_items items = Inr ms" using VDict.prems(1) by (cases "normalize_value_items items") auto
  have "is_str_key k \<and> build (revive_sentinels ps) (value_model v) = Inr (value_back v)" if "(k, v) \<in> set ?its" for k v
    using VDict.IH [of "(k, v)" v] normalized_keys [OF ms, of k v] VDict.prems(2) that by force
  from build_items_back [OF this]
  have "build_items (revive_sentinels ps) (map value_item ?its) = Inr (map (\<lambda>(k, v). (k, value_back v)) ?its)" .
  moreover have "fst \<circ> value_item = ikey_text \<circ> fst" by (auto simp: value_item_def)
  moreover have "(ikey_text \<circ> fst) \<circ> (\<lambda>(k, v). (k, value_back v)) = ikey_text \<circ> fst" by auto
  ultimately have "build_items (revive_sentinels ps) (sort_key fst (map value_item items))
      = Inr (sort_key (ikey_text \<circ> fst) (map (\<lambda>(k, v). (k, value_back v)) items))"
    by (simp add: sort_key_map)
  moreover have "revive_sentinels ps (value_back (VDict items)) = Inr (value_back (VDict items))"
    using VDict.prems(2) by (simp add: revive_sentinels_def marked_back)
  ultimately show ?case by (simp add: value_item_eq)
qed (simp_all add: revive_sentinels_def marked_def ucs_def)

text \<open>No document starts like a frame: its first byte alone would be the integer 67.\<close>

lemma document_is_no_frame:
  assumes "wf_cval c"
  shows "take (length CK_FRAME_MAGIC) (cenc c) \<noteq> CK_FRAME_MAGIC"
proof
  assume "take (length CK_FRAME_MAGIC) (cenc c) = CK_FRAME_MAGIC"
  then obtain r where r: "cenc c = 0x43 # 0x4B # r" by (cases "cenc c"; cases "tl (cenc c)") (auto simp: CK_FRAME_MAGIC_def)
  have "decode (length (cenc c)) (cenc c) = Some (CInt 67, 0x4B # r)" unfolding r by (simp add: tag_of_def)
  with decode_cenc [OF assms, of "length (cenc c)" "[]"] show False by simp
qed

text \<open>
  C13: Values round trip. What \<^verbatim>\<open>encode_interop_value\<close> accepts, \<^verbatim>\<open>decode_interop_value\<close> gives back: the same value with tuples as lists and
  dictionaries in key order; floats stay floats, dates and times are revived. This needs a MessagePack reader that reads documents of
  that nesting, ISO parsers that invert \<^verbatim>\<open>isoformat\<close>, and no user dictionary that looks like a sentinel map.
\<close>

theorem interop_value_roundtrip:
  assumes "encode_interop_value v = Inr b" "reads_msgpack limit unpackb" "nesting (value_model v) \<le> limit" "survives ps v"
  shows "decode_interop_value unpackb ps b = Inr (value_back v)"
proof -
  have b: "b = cenc (value_model v)" "wf_cval (value_model v)" using encode_interop_value_form [OF assms(1)] by auto
  obtain n where n: "normalize_value v = Inr n" using assms(1) by (auto simp: encode_interop_value_def split: sum.splits)
  have "decode_document b = Some (value_model v)"
    using decode_cenc [OF b(2), of "length b" "[]"] b(1) by (simp add: decode_document_def)
  then have "unpackb (revive_sentinels ps) b = Inr (value_back v)"
    using assms(2,3) build_back [OF n assms(4)] by (simp add: reads_msgpack_def)
  with document_is_no_frame [OF b(2)] b(1) show ?thesis by (simp add: decode_interop_value_def)
qed

text \<open>A reader without a limit below 512 and parsers that know one date.\<close>

definition reference_unpackb :: unpacker where
  "reference_unpackb hook b =
     (case decode_document b of
        None \<Rightarrow> Inl (PyExn ''ExtraData'' [])
      | Some c \<Rightarrow> if nesting c \<le> 512 then build hook c else Inl (PyExn ''StackError'' []))"

definition demo_parsers :: iso_parsers where
  "demo_parsers = \<lparr>iso_datetime = (\<lambda>s. Inl (PyExn ''ValueError'' [])), iso_date = (\<lambda>s. Inr (VDate s)),
     iso_time = (\<lambda>s. Inl (PyExn ''ValueError'' []))\<rparr>"

theorem interop_value_roundtrip_witness:
  "decode_interop_value reference_unpackb demo_parsers [0x92, 0x81, 0xA1, 97, 7, 0xC0] = Inr (VList [VDict [(KeyStr [97], VInt 7)], VNone])"
proof -
  have "encode_interop_value (VTuple [VDict [(KeyStr [97], VInt 7)], VNone]) = Inr [0x92, 0x81, 0xA1, 97, 7, 0xC0]"
    by (simp add: encode_interop_value_def encode_canonical_def is_str_key_def ikey_text_def encode_str_def utf8_def utf8_nats_def
        utf8_char_def scalar_def sized_def str_head_def encode_map_header_def map_head_def encode_array_header_def array_head_def
        encode_int_def int_form_def INT64_MIN_def UINT64_MAX_def)
  from interop_value_roundtrip [OF this, of 512 reference_unpackb demo_parsers] show ?thesis
    by (simp add: reads_msgpack_def reference_unpackb_def marked_def ucs_def ikey_text_def)
qed

text \<open>A user dictionary with the marker of a date is not given back: the reader gets a date, or the entry does not decode.\<close>

lemma lookalike_not_returned:
  assumes "reads_msgpack limit unpackb" "1 \<le> limit" "encode_interop_value (sentinel ''__date__'' s) = Inr b" "iso_date ps s \<noteq> Inr (sentinel ''__date__'' s)"
  shows "decode_interop_value unpackb ps b \<noteq> Inr (sentinel ''__date__'' s)"
proof -
  let ?v = "sentinel ''__date__'' s" and ?m = "CMap [(ucs ''__date__'', CBool True), (ucs ''value'', CStr s)]"
  have m: "value_model ?v = ?m" by (simp add: sentinel_def ikey_text_def ucs_def)
  have b: "b = cenc ?m" "wf_cval ?m" using encode_interop_value_form [OF assms(3)] m by auto
  have "decode_document b = Some ?m" using decode_cenc [OF b(2), of "length b" "[]"] b(1) by (simp add: decode_document_def del: cenc.simps)
  then have "unpackb (revive_sentinels ps) b = build (revive_sentinels ps) ?m" using assms(1,2) by (simp add: reads_msgpack_def)
  then have "unpackb (revive_sentinels ps) b = iso_date ps s" by (simp add: revive_sentinels_def marked_def ucs_def)
  then show ?thesis using assms(4) by (auto simp: decode_interop_value_def split: sum.splits)
qed

end
