(* ===== verification/CachekitIO_Config.thy ===== *)
theory CachekitIO_Config
  imports Function_Stats
begin

text \<open>
  Configuration and HTTP clients of the cachekit.io backend: \<^verbatim>\<open>backends/cachekitio/config.py\<close> with its protection against requests to
  internal networks, the clients that \<^verbatim>\<open>backends/cachekitio/client.py\<close> caches per thread, and the session headers of
  \<^verbatim>\<open>backends/cachekitio/session.py\<close>. What \<^verbatim>\<open>urlparse\<close> makes of a URL is a parameter; pydantic's field constraints are the guards of the
  constructor.
\<close>

section \<open>Internal addresses\<close>

definition py_lower :: "char \<Rightarrow> char" where
  "py_lower c = (let n = of_char c :: nat in if 65 \<le> n \<and> n \<le> 90 then char_of (n + 32) else c)"

definition strip_chars :: "string \<Rightarrow> string \<Rightarrow> string" where
  "strip_chars cs s = rev (dropWhile (\<lambda>c. c \<in> set cs) (rev (dropWhile (\<lambda>c. c \<in> set cs) s)))"

definition starts_with :: "string \<Rightarrow> string \<Rightarrow> bool" where
  "starts_with p s \<longleftrightarrow> take (length p) s = p"

definition ends_with :: "string \<Rightarrow> string \<Rightarrow> bool" where
  "ends_with p s \<longleftrightarrow> starts_with (rev p) (rev s)"

fun split_on :: "char \<Rightarrow> string \<Rightarrow> string list" where
  "split_on c [] = [[]]"
| "split_on c (x # xs) = (if x = c then [] # split_on c xs else (case split_on c xs of p # ps \<Rightarrow> (x # p) # ps | [] \<Rightarrow> [[x]]))"

definition is_digit :: "char \<Rightarrow> bool" where
  "is_digit c \<longleftrightarrow> 48 \<le> (of_char c :: nat) \<and> (of_char c :: nat) \<le> 57"

definition int_of_digits :: "string \<Rightarrow> nat" where
  "int_of_digits ds = foldl (\<lambda>n c. 10 * n + (of_char c - 48)) 0 ds"

text \<open>The groups of \<^verbatim>\<open>^(\d+)\.(\d+)\.(\d+)\.(\d+)$\<close>; the anchor also accepts one line feed at the end.\<close>

definition ipv4_groups :: "string \<Rightarrow> nat list option" where
  "ipv4_groups s =
     (let t = (if s \<noteq> [] \<and> last s = CHR 0x0A then butlast s else s); parts = split_on CHR ''.'' t
      in if length parts = 4 \<and> (\<forall>p\<in>set parts. p \<noteq> [] \<and> list_all is_digit p) then Some (map int_of_digits parts) else None)"

definition normalize_host :: "string \<Rightarrow> string" where
  "normalize_host hostname = map py_lower (strip_chars ''[]'' hostname)"

definition private_range :: "nat \<Rightarrow> nat \<Rightarrow> bool" where
  "private_range a b \<longleftrightarrow> a = 127 \<or> a = 10 \<or> (a = 172 \<and> 16 \<le> b \<and> b \<le> 31) \<or> (a = 192 \<and> b = 168) \<or> (a = 169 \<and> b = 254) \<or> a = 0"

lemma length_dropWhile: "length (dropWhile P xs) \<le> length xs"
  by (induction xs) auto

lemma length_normalize_host: "length (normalize_host h) \<le> length h"
proof -
  have "length (strip_chars cs s) \<le> length (dropWhile (\<lambda>c. c \<in> set cs) s)" for cs s
    unfolding strip_chars_def by (metis length_dropWhile length_rev)
  then show ?thesis by (simp add: normalize_host_def) (meson le_trans length_dropWhile)
qed

lemma starts_with_length: "starts_with p s \<Longrightarrow> length p \<le> length s"
  unfolding starts_with_def by (metis length_take min.cobounded1)

function is_private_ip :: "string \<Rightarrow> bool" where
  "is_private_ip hostname =
     (let normalized = normalize_host hostname in
      if normalized \<in> {''localhost'', ''127.0.0.1'', ''::1''} then True
      else if starts_with ''fe80:'' normalized then True
      else if take 2 normalized \<in> {''fc'', ''fd''} then True
      else if starts_with ''::ffff:'' normalized then is_private_ip (drop 7 normalized)
      else (case ipv4_groups normalized of
              Some (a # b # _) \<Rightarrow> private_range a b
            | _ \<Rightarrow> False))"
  by pat_completeness auto
termination
proof (relation "measure length")
  fix h n assume n: "n = normalize_host h" and p: "starts_with ''::ffff:'' n"
  have "7 \<le> length n" using starts_with_length [OF p] by simp
  then show "(drop 7 n, h) \<in> measure length" using length_normalize_host [of h] n by simp
qed simp

declare is_private_ip.simps [simp del]

section \<open>Configuration\<close>

text \<open>Scheme and host of a URL; a URL that cannot be parsed raises.\<close>

record parsed_url =
  pu_scheme :: string
  pu_hostname :: "string option"

record io_config =
  ic_api_url :: string
  ic_api_key :: string
  ic_timeout :: real
  ic_max_retries :: int
  ic_pool_size :: int
  ic_allow_custom_host :: bool

definition ALLOWED_HOSTS :: "string list" where
  "ALLOWED_HOSTS = [''api.cachekit.io'', ''api.staging.cachekit.io'']"

definition validate_api_url :: "(string \<Rightarrow> pyexn + parsed_url) \<Rightarrow> string \<Rightarrow> pyexn + string" where
  "validate_api_url urlparse v =
     (case urlparse v of
        Inl e \<Rightarrow> Inl (PyExn ''ValueError'' (''Invalid API URL: '' @ v))
      | Inr parsed \<Rightarrow>
          if pu_scheme parsed \<noteq> ''https''
          then Inl (PyExn ''ValueError'' (''API URL must use HTTPS protocol, got: '' @ pu_scheme parsed @ ''://''))
          else (let hostname = (case pu_hostname parsed of None \<Rightarrow> [] | Some h \<Rightarrow> h) in
                if is_private_ip hostname
                then Inl (PyExn ''ValueError'' (''API URL cannot use private/internal IP address: '' @ hostname))
                else Inr v))"

definition host_allowed :: "string \<Rightarrow> bool" where
  "host_allowed hostname \<longleftrightarrow> list_ex (\<lambda>a. hostname = a \<or> ends_with (''.'' @ a) hostname) ALLOWED_HOSTS"

definition validate_hostname_allowlist :: "(string \<Rightarrow> pyexn + parsed_url) \<Rightarrow> io_config \<Rightarrow> pyexn + unit" where
  "validate_hostname_allowlist urlparse c =
     (if ic_allow_custom_host c then Inr ()
      else case urlparse (ic_api_url c) of
             Inl e \<Rightarrow> Inl e
           | Inr parsed \<Rightarrow>
               (let hostname = (case pu_hostname parsed of None \<Rightarrow> [] | Some h \<Rightarrow> h) in
                if host_allowed hostname then Inr ()
                else Inl (PyExn ''ValueError'' (''API URL hostname '' @ hostname @ '' not in allowlist''))))"

definition make_io_config :: "(string \<Rightarrow> pyexn + parsed_url) \<Rightarrow> io_config \<Rightarrow> pyexn + io_config" where
  "make_io_config urlparse c =
     (if \<not> 0 < ic_timeout c \<or> ic_max_retries c < 0 \<or> \<not> 0 < ic_pool_size c then Inl (PyExn ''ValidationError'' [])
      else case validate_api_url urlparse (ic_api_url c) of
             Inl e \<Rightarrow> Inl (PyExn ''ValidationError'' (exn_text e))
           | Inr _ \<Rightarrow> (case validate_hostname_allowlist urlparse c of Inl e \<Rightarrow> Inl e | Inr _ \<Rightarrow> Inr c))"

section \<open>HTTP clients\<close>

text \<open>What a client is made of; both clients of a thread are kept in a thread-local cache that does not look at the configuration.\<close>

record http_client =
  hc_base_url :: string
  hc_timeout :: real
  hc_max_connections :: int
  hc_authorization :: string

definition make_http_client :: "io_config \<Rightarrow> http_client" where
  "make_http_client c = \<lparr>hc_base_url = ic_api_url c, hc_timeout = ic_timeout c, hc_max_connections = ic_pool_size c,
     hc_authorization = ''Bearer '' @ ic_api_key c\<rparr>"

record thread_clients =
  tc_sync :: "http_client option"
  tc_async :: "http_client option"

definition get_cached_async_http_client :: "io_config \<Rightarrow> thread_clients \<Rightarrow> http_client \<times> thread_clients" where
  "get_cached_async_http_client c t =
     (case tc_async t of Some h \<Rightarrow> (h, t) | None \<Rightarrow> (make_http_client c, t\<lparr>tc_async := Some (make_http_client c)\<rparr>))"

definition get_sync_http_client :: "io_config \<Rightarrow> thread_clients \<Rightarrow> http_client \<times> thread_clients" where
  "get_sync_http_client c t =
     (case tc_sync t of Some h \<Rightarrow> (h, t) | None \<Rightarrow> (make_http_client c, t\<lparr>tc_sync := Some (make_http_client c)\<rparr>))"

definition close_async_client :: "thread_clients \<Rightarrow> thread_clients" where
  "close_async_client t = t\<lparr>tc_async := None\<rparr>"

definition close_sync_client :: "thread_clients \<Rightarrow> thread_clients" where
  "close_sync_client t = t\<lparr>tc_sync := None\<rparr>"

definition reset_global_client :: "thread_clients \<Rightarrow> thread_clients" where
  "reset_global_client t = t\<lparr>tc_async := None, tc_sync := None\<rparr>"

text \<open>
  The constructor of the backend: \<open>env\<close> is the configuration the environment gives, \<open>rest\<close> its values for the fields a manual
  configuration leaves out; and \<^verbatim>\<open>with_timeout\<close>.
\<close>

record io_object =
  io_cfg :: io_config
  io_sync_client :: http_client
  io_async_client :: http_client

definition make_io_backend :: "io_config \<Rightarrow> thread_clients \<Rightarrow> io_object \<times> thread_clients" where
  "make_io_backend c t =
     (case get_sync_http_client c t of
        (hs, t1) \<Rightarrow> (case get_cached_async_http_client c t1 of
                       (ha, t2) \<Rightarrow> (\<lparr>io_cfg = c, io_sync_client = hs, io_async_client = ha\<rparr>, t2)))"

definition init_io_backend ::
  "(string \<Rightarrow> pyexn + parsed_url) \<Rightarrow> (pyexn + io_config) \<Rightarrow> io_config \<Rightarrow> string option \<Rightarrow> string option \<Rightarrow> real option
   \<Rightarrow> thread_clients \<Rightarrow> (pyexn + io_object) \<times> thread_clients" where
  "init_io_backend urlparse env rest api_url api_key timeout t =
     (if api_url = None \<and> api_key = None \<and> timeout = None then
        (case env of Inl e \<Rightarrow> (Inl e, t) | Inr c \<Rightarrow> (case make_io_backend c t of (b, t1) \<Rightarrow> (Inr b, t1)))
      else if api_url = None \<or> api_key = None then
        (Inl (PyExn ''ValueError'' ''Both api_url and api_key required if using manual config''), t)
      else (case make_io_config urlparse (rest\<lparr>ic_api_url := the api_url, ic_api_key := the api_key,
                    ic_timeout := (case timeout of None \<Rightarrow> 5 | Some x \<Rightarrow> if x = 0 then 5 else x)\<rparr>) of
              Inl e \<Rightarrow> (Inl e, t)
            | Inr c \<Rightarrow> (case make_io_backend c t of (b, t1) \<Rightarrow> (Inr b, t1))))"

definition io_with_timeout ::
  "(string \<Rightarrow> pyexn + parsed_url) \<Rightarrow> (pyexn + io_config) \<Rightarrow> io_config \<Rightarrow> real \<Rightarrow> io_object \<Rightarrow> thread_clients
   \<Rightarrow> (pyexn + io_object) \<times> thread_clients" where
  "io_with_timeout urlparse env rest timeout b t =
     init_io_backend urlparse env rest (Some (ic_api_url (io_cfg b))) (Some (ic_api_key (io_cfg b))) (Some timeout) t"

section \<open>Session headers\<close>

type_synonym headers = "(string \<times> string) list"

definition int_str :: "int \<Rightarrow> string" where
  "int_str i = (if i < 0 then ''-'' @ dec_str (nat (- i)) else dec_str (nat i))"

definition session_headers_for :: "string \<Rightarrow> int \<Rightarrow> headers" where
  "session_headers_for sid start = [(''X-CacheKit-Session-ID'', sid), (''X-CacheKit-Session-Start'', int_str start)]"

text \<open>The copy in thread-local storage is replaced when its identifier is no longer that of the process.\<close>

definition get_session_headers ::
  "int \<Rightarrow> real \<Rightarrow> string \<Rightarrow> headers option \<Rightarrow> session_state \<Rightarrow> (pyexn + headers) \<times> headers option \<times> session_state" where
  "get_session_headers pid now fresh cached s =
     (case get_session_id pid now fresh s of
        (Inl e, _, s1) \<Rightarrow> (Inl e, cached, s1)
      | (Inr sid, _, s1) \<Rightarrow>
          if (case cached of None \<Rightarrow> True | Some h \<Rightarrow> map_of h ''X-CacheKit-Session-ID'' \<noteq> Some sid) then
            (case get_session_start_ms pid now fresh s1 of
               (Inl e, _, s2) \<Rightarrow> (Inl e, cached, s2)
             | (Inr start, _, s2) \<Rightarrow> (let h = session_headers_for sid start in (Inr h, Some h, s2)))
          else (Inr (the cached), cached, s1))"

section \<open>Properties\<close>

lemma digit_char: "n < 10 \<Longrightarrow> is_digit (char_of (48 + n)) \<and> (of_char (char_of (48 + n :: nat)) :: nat) - 48 = n"
  by (simp add: is_digit_def)

lemma dec_str_digits: "list_all is_digit (dec_str n) \<and> dec_str n \<noteq> []"
proof (induction n rule: dec_str.induct)
  case (1 n)
  then show ?case
    by (subst (1 2) dec_str.simps) (use digit_char [of n] digit_char [of "n mod 10"] in \<open>auto\<close>)
qed

lemma int_of_dec_str: "int_of_digits (dec_str n) = n"
proof (induction n rule: dec_str.induct)
  case (1 n)
  then show ?case
    by (subst dec_str.simps) (use digit_char [of n] digit_char [of "n mod 10"] in \<open>auto simp: int_of_digits_def\<close>)
qed

definition dotted :: "nat \<Rightarrow> nat \<Rightarrow> nat \<Rightarrow> nat \<Rightarrow> string" where
  "dotted a b c d = dec_str a @ ''.'' @ dec_str b @ ''.'' @ dec_str c @ ''.'' @ dec_str d"

lemma split_on_digits:
  "list_all is_digit p \<Longrightarrow> split_on CHR ''.'' (p @ CHR ''.'' # s) = p # split_on CHR ''.'' s"
  "list_all is_digit p \<Longrightarrow> split_on CHR ''.'' p = [p]"
  by (induction p) (auto simp: is_digit_def)

lemma digit_facts: "is_digit c \<Longrightarrow> py_lower c = c \<and> c \<noteq> CHR 0x0A \<and> c \<noteq> CHR ''['' \<and> c \<noteq> CHR '']'' \<and> c \<noteq> CHR ''f'' \<and> c \<noteq> CHR '':'' \<and> c \<noteq> CHR ''l''"
  by (auto simp: is_digit_def py_lower_def Let_def)

lemma lower_F: "py_lower CHR ''F'' = CHR ''f''"
  by code_simp

lemma dotted_chars: "list_all (\<lambda>c. is_digit c \<or> c = CHR ''.'') (dotted a b c d)"
  using dec_str_digits by (auto simp: dotted_def list_all_iff)

lemma normalize_clean:
  assumes "list_all (\<lambda>c. c \<notin> set ''[]'') s"
  shows "normalize_host s = map py_lower s" "s \<noteq> [] \<Longrightarrow> normalize_host (CHR ''['' # s @ '']'') = map py_lower s"
proof -
  have d: "dropWhile P (xs @ ys) = xs @ ys" if "list_all (\<lambda>c. \<not> P c) xs" "xs \<noteq> []" for P and xs ys :: string using that by (cases xs) auto
  have r: "list_all (\<lambda>c. c \<notin> set ''[]'') (rev s)" using assms by (simp add: list_all_iff)
  show "normalize_host s = map py_lower s"
    using d [OF assms, of "[]"] d [OF r, of "[]"] by (cases "s = []") (simp_all add: normalize_host_def strip_chars_def)
  assume "s \<noteq> []"
  with d [OF assms, of "'']''"] d [OF r, of "[]"] show "normalize_host (CHR ''['' # s @ '']'') = map py_lower s"
    by (simp add: normalize_host_def strip_chars_def)
qed

lemma dotted_clean: "list_all (\<lambda>x. x \<notin> set ''[]'') (dotted a b c d)" "map py_lower (dotted a b c d) = dotted a b c d"
proof -
  show "list_all (\<lambda>x. x \<notin> set ''[]'') (dotted a b c d)"
    using dotted_chars [of a b c d] digit_facts by (fastforce simp: list_all_iff)
  show "map py_lower (dotted a b c d) = dotted a b c d"
  proof (rule map_idI)
    fix x assume "x \<in> set (dotted a b c d)"
    then have "is_digit x \<or> x = CHR ''.''" using dotted_chars [of a b c d] by (auto simp: list_all_iff)
    then show "py_lower x = x" using digit_facts by (auto simp: py_lower_def)
  qed
qed

lemma normalize_dotted: "normalize_host (dotted a b c d) = dotted a b c d"
  by (simp add: normalize_clean dotted_clean del: set_simps)

lemma ipv4_groups_dotted: "ipv4_groups (dotted a b c d) = Some [a, b, c, d]"
proof -
  have "last (dotted a b c d) \<noteq> CHR 0x0A" "dotted a b c d \<noteq> []"
    using dotted_chars [of a b c d] digit_facts last_in_set [of "dotted a b c d"] dec_str_digits [of d]
    by (auto simp: list_all_iff dotted_def)
  moreover have "split_on CHR ''.'' (dotted a b c d) = [dec_str a, dec_str b, dec_str c, dec_str d]"
    using dec_str_digits by (simp add: dotted_def split_on_digits)
  ultimately show ?thesis using dec_str_digits by (simp add: ipv4_groups_def Let_def int_of_dec_str)
qed

lemma dotted_head: "\<exists>x xs. dotted a b c d = x # xs \<and> is_digit x"
  using dec_str_digits [of a] by (cases "dec_str a") (auto simp: dotted_def)

lemma dotted_loopback: "dotted a b c d = ''127.0.0.1'' \<Longrightarrow> a = 127"
proof -
  assume "dotted a b c d = ''127.0.0.1''"
  then have "ipv4_groups (dotted a b c d) = ipv4_groups ''127.0.0.1''" by simp
  moreover have "ipv4_groups ''127.0.0.1'' = Some [127, 0, 0, 1]" by (simp add: ipv4_groups_def is_digit_def int_of_digits_def)
  ultimately show "a = 127" by (simp add: ipv4_groups_dotted)
qed

lemma private_dotted: "is_private_ip (dotted a b c d) = private_range a b"
proof -
  obtain x xs where x: "dotted a b c d = x # xs" "is_digit x" using dotted_head by blast
  have "x \<noteq> CHR ''f''" "x \<noteq> CHR '':''" "x \<noteq> CHR ''l''" using digit_facts x(2) by auto
  then have "\<not> starts_with ''fe80:'' (dotted a b c d)" "take 2 (dotted a b c d) \<notin> {''fc'', ''fd''}" "\<not> starts_with ''::ffff:'' (dotted a b c d)"
      "dotted a b c d \<noteq> ''localhost''" "dotted a b c d \<noteq> ''::1''"
    by (auto simp: x(1) starts_with_def numeral_2_eq_2)
  then show ?thesis
    by (subst is_private_ip.simps) (auto simp: normalize_dotted ipv4_groups_dotted private_range_def dest: dotted_loopback)
qed

text \<open>
  The screen against internal networks agrees with the numeric ranges: for every dotted address, plain or mapped into IPv6, the
  pattern matching on text answers exactly whether the address lies in 0/8, 10/8, 127/8, 169.254/16, 172.16/12 or 192.168/16.
\<close>

theorem private_ip_exact:
  "is_private_ip (dotted a b c d) = (a \<in> {0, 10, 127} \<or> a = 169 \<and> b = 254 \<or> a = 172 \<and> b div 16 = 1 \<or> a = 192 \<and> b = 168)
   \<and> is_private_ip (''::ffff:'' @ dotted a b c d) = is_private_ip (dotted a b c d)
   \<and> is_private_ip (''[::FFFF:'' @ dotted a b c d @ '']'') = is_private_ip (dotted a b c d)"
proof -
  have mapped: "normalize_host (''::ffff:'' @ dotted a b c d) = ''::ffff:'' @ dotted a b c d"
    "normalize_host (''[::FFFF:'' @ dotted a b c d @ '']'') = ''::ffff:'' @ dotted a b c d"
    using normalize_clean [of "''::ffff:'' @ dotted a b c d"] normalize_clean(2) [of "''::FFFF:'' @ dotted a b c d"] dotted_clean [of a b c d]
    by (simp_all add: lower_F) (simp_all add: py_lower_def)
  have "is_private_ip h = is_private_ip (dotted a b c d)" if "normalize_host h = ''::ffff:'' @ dotted a b c d" for h
    by (subst (1) is_private_ip.simps) (simp add: that starts_with_def)
  with mapped private_dotted show ?thesis
    by (auto simp: private_range_def)
qed

section \<open>Which credentials a backend uses\<close>

text \<open>Backends built one after the other in one thread.\<close>

fun build_all :: "io_config list \<Rightarrow> thread_clients \<Rightarrow> io_object list \<times> thread_clients" where
  "build_all [] t = ([], t)"
| "build_all (c # cs) t = (case make_io_backend c t of (b, t1) \<Rightarrow> (case build_all cs t1 of (bs, t2) \<Rightarrow> (b # bs, t2)))"

lemma build_all_cached:
  "tc_sync t = Some h \<Longrightarrow> tc_async t = Some g \<Longrightarrow> build_all cs t = (bs, t')
   \<Longrightarrow> list_all (\<lambda>b. io_sync_client b = h \<and> io_async_client b = g) bs \<and> map io_cfg bs = cs"
proof (induction cs arbitrary: bs t')
  case (Cons c cs)
  from Cons.prems obtain bs1 where "build_all cs t = (bs1, t')" "bs = \<lparr>io_cfg = c, io_sync_client = h, io_async_client = g\<rparr> # bs1"
    by (auto simp: make_io_backend_def get_sync_http_client_def get_cached_async_http_client_def split: prod.splits)
  with Cons.IH [OF Cons.prems(1,2)] show ?case by simp
qed simp

text \<open>
  The backend a user configures is not always the one that is used: of several backends built in one thread, each keeps its own
  configuration, but all of them talk to the URL, with the timeout, the connection limit and the API key of the first one. (Data of one
  account is read and written with the key of another; \<^verbatim>\<open>with_timeout\<close> has no effect.)
\<close>

theorem first_backend_owns_clients:
  assumes "tc_sync t = None" "tc_async t = None" "build_all (c # cs) t = (bs, t')" "b \<in> set bs"
  shows "hc_authorization (io_sync_client b) = ''Bearer '' @ ic_api_key c \<and> hc_base_url (io_sync_client b) = ic_api_url c
    \<and> hc_timeout (io_sync_client b) = ic_timeout c \<and> io_async_client b = io_sync_client b \<and> map io_cfg bs = c # cs"
proof -
  let ?h = "make_http_client c"
  obtain bs1 where bs1: "build_all cs (t\<lparr>tc_sync := Some ?h, tc_async := Some ?h\<rparr>) = (bs1, t')"
    "bs = \<lparr>io_cfg = c, io_sync_client = ?h, io_async_client = ?h\<rparr> # bs1"
    using assms(1-3) by (auto simp: make_io_backend_def get_sync_http_client_def get_cached_async_http_client_def split: prod.splits)
  from build_all_cached [OF _ _ bs1(1), of ?h ?h] bs1(2) assms(4) show ?thesis
    by (auto simp: make_http_client_def list_all_iff)
qed

definition demo_io_config :: "string \<Rightarrow> io_config" where
  "demo_io_config key = \<lparr>ic_api_url = ''https://api.cachekit.io'', ic_api_key = key, ic_timeout = 5, ic_max_retries = 3, ic_pool_size = 10,
     ic_allow_custom_host = False\<rparr>"

theorem first_backend_owns_clients_witness:
  "\<exists>b1 b2 t. build_all [demo_io_config ''ck_a'', demo_io_config ''ck_b''] \<lparr>tc_sync = None, tc_async = None\<rparr> = ([b1, b2], t)
     \<and> ic_api_key (io_cfg b2) = ''ck_b'' \<and> hc_authorization (io_sync_client b2) = ''Bearer ck_a''"
proof -
  obtain b1 b2 t where b: "build_all [demo_io_config ''ck_a'', demo_io_config ''ck_b''] \<lparr>tc_sync = None, tc_async = None\<rparr> = ([b1, b2], t)"
    by (simp add: make_io_backend_def get_sync_http_client_def get_cached_async_http_client_def)
  with first_backend_owns_clients [OF _ _ b, of b2] show ?thesis by (auto simp: demo_io_config_def)
qed

end
