(* ===== verification/CachekitIO_Backend.thy ===== *)
theory CachekitIO_Backend
  imports CachekitIO_Config Backend_Instances Async_Refinement
begin

text \<open>
  The cachekit.io backend of \<^verbatim>\<open>backends/cachekitio/backend.py\<close> over an HTTP transport that is a parameter: requests with the metrics
  headers, the operations of either client, freshness, TTL, the lock endpoint and the polling loop of its context manager.
\<close>

section \<open>Requests\<close>

text \<open>A body decoded as JSON, as far as the backend looks into it.\<close>

datatype json = JNull | JBool bool | JInt int | JStr string | JOther | JObject "(string \<times> json) list"

record http_response =
  rs_status :: nat
  rs_content :: bytes
  rs_headers :: headers
  rs_json :: "json option"

type_synonym 's transport = "string \<Rightarrow> string \<Rightarrow> bytes option \<Rightarrow> headers \<Rightarrow> 's \<Rightarrow> (pyexn + http_response) \<times> 's"

record 's io_backend =
  io_sync :: "'s transport"
  io_async :: "'s transport"
  io_isa :: "pyexn \<Rightarrow> httpx_class \<Rightarrow> bool"
  io_status_text :: "http_response \<Rightarrow> string"

definition LOCK_ID_HEADER :: string where "LOCK_ID_HEADER = ''X-CacheKit-Lock-Id''"
definition TTL_HEADER :: string where "TTL_HEADER = ''X-CacheKit-TTL''"
definition LEGACY_TTL_HEADER :: string where "LEGACY_TTL_HEADER = ''X-TTL''"
definition STALE_TTL_HEADER :: string where "STALE_TTL_HEADER = ''X-CacheKit-Stale-TTL''"
definition FRESHNESS_HEADER :: string where "FRESHNESS_HEADER = ''X-CacheKit-Freshness''"

definition merge_headers :: "headers \<Rightarrow> headers \<Rightarrow> headers" where
  "merge_headers a b = fold (\<lambda>(k, v). AList.update k v) b a"

text \<open>The text of the hit rate with three decimals is a parameter \<open>fmt\<close>.\<close>

definition inject_metrics_headers ::
  "(real \<Rightarrow> string) \<Rightarrow> int \<Rightarrow> real \<Rightarrow> string \<Rightarrow> headers option \<Rightarrow> session_state \<Rightarrow> function_stats option
   \<Rightarrow> (pyexn + headers) \<times> headers option \<times> session_state \<times> function_stats option" where
  "inject_metrics_headers fmt pid now fresh cached s stats =
     (case stats of
        None \<Rightarrow> (Inr [(''X-CacheKit-L1-Status'', ''disabled'')], cached, s, None)
      | Some f \<Rightarrow>
          (case get_info pid now fresh s f of
             (Inl e, _, s1, f1) \<Rightarrow> (Inl e, cached, s1, Some f1)
           | (Inr info, _, s1, f1) \<Rightarrow>
               let total = ci_l1_hits info + ci_l2_hits info;
                   rate = (if total > 0 then real (ci_l1_hits info) / real total else 0);
                   metrics = [(''X-CacheKit-L1-Hits'', dec_str (ci_l1_hits info)), (''X-CacheKit-L2-Hits'', dec_str (ci_l2_hits info)),
                     (''X-CacheKit-Misses'', dec_str (ci_misses info)), (''X-CacheKit-L1-Hit-Rate'', fmt rate),
                     (''X-CacheKit-L1-Status'', if fs_l1_enabled f1 then ''miss'' else ''disabled'')]
               in if ci_session_id info \<noteq> [] then
                    (case get_session_start_ms pid now fresh s1 of
                       (Inl e, _, s2) \<Rightarrow> (Inr (merge_headers [] metrics), cached, s2, Some f1)
                     | (Inr start, _, s2) \<Rightarrow>
                         (Inr (merge_headers (session_headers_for (ci_session_id info) start) metrics), cached, s2, Some f1))
                  else
                    (case get_session_headers pid now fresh cached s1 of
                       (Inl e, c1, s2) \<Rightarrow> (Inr (merge_headers [] metrics), c1, s2, Some f1)
                     | (Inr h, c1, s2) \<Rightarrow> (Inr (merge_headers h metrics), c1, s2, Some f1))))"

definition raise_for_status :: "'s io_backend \<Rightarrow> http_response \<Rightarrow> pyexn + http_response" where
  "raise_for_status b r =
     (if 200 \<le> rs_status r \<and> rs_status r < 300 then Inr r else Inl (PyExn ''HTTPStatusError'' (io_status_text b r)))"

text \<open>
  One request. A failure carries the status of the response when the original exception is an \<^verbatim>\<open>HTTPStatusError\<close>; \<open>mh\<close> are the metrics
  headers of the running function.
\<close>

definition io_request ::
  "'s io_backend \<Rightarrow> 's transport \<Rightarrow> headers \<Rightarrow> string \<Rightarrow> string \<Rightarrow> bytes option \<Rightarrow> headers \<Rightarrow> 's
   \<Rightarrow> (backend_error \<times> nat option + http_response) \<times> 's" where
  "io_request b client mh meth endpoint content hdrs s =
     (case client meth (''/v1/cache/'' @ endpoint) content (merge_headers hdrs mh) s of
        (Inl exc, s1) \<Rightarrow> (Inl (classify_http_error (io_isa b) exc None (Some (map py_lower meth)) None, None), s1)
      | (Inr r, s1) \<Rightarrow>
          (case raise_for_status b r of
             Inr r \<Rightarrow> (Inr r, s1)
           | Inl exc \<Rightarrow> (Inl (classify_http_error (io_isa b) exc (Some (rs_status r)) (Some (map py_lower meth)) None, Some (rs_status r)), s1)))"

definition request_sync where "request_sync b = io_request b (io_sync b)"
definition request_async where "request_async b = io_request b (io_async b)"

text \<open>The handlers of the operations: a 404 is a value, every other failure is raised.\<close>

definition on_404 :: "'b \<Rightarrow> (http_response \<Rightarrow> 'b) \<Rightarrow> (backend_error \<times> nat option + http_response) \<times> 's \<Rightarrow> (backend_error + 'b) \<times> 's" where
  "on_404 absent present r =
     (case r of
        (Inr resp, s) \<Rightarrow> (Inr (present resp), s)
      | (Inl (e, status), s) \<Rightarrow> if status = Some 404 then (Inr absent, s) else (Inl e, s))"

section \<open>Operations\<close>

definition is_stale :: "http_response \<Rightarrow> bool" where
  "is_stale r = (case map_of (rs_headers r) FRESHNESS_HEADER of None \<Rightarrow> False | Some v \<Rightarrow> v \<noteq> ''fresh'')"

definition set_headers :: "int option \<Rightarrow> int option \<Rightarrow> headers" where
  "set_headers ttl stale_ttl =
     (case ttl of None \<Rightarrow> [] | Some t \<Rightarrow> [(TTL_HEADER, int_str t), (LEGACY_TTL_HEADER, int_str t)])
     @ (case (stale_ttl, ttl) of (Some st, Some t) \<Rightarrow> if st > 0 then [(STALE_TTL_HEADER, int_str st)] else [] | _ \<Rightarrow> [])"

definition io_get :: "'s io_backend \<Rightarrow> headers \<Rightarrow> string \<Rightarrow> 's \<Rightarrow> (backend_error + bytes option) \<times> 's" where
  "io_get b mh key s = on_404 None (\<lambda>r. Some (rs_content r)) (request_sync b mh ''GET'' key None [] s)"

definition io_get_with_freshness :: "'s io_backend \<Rightarrow> headers \<Rightarrow> string \<Rightarrow> 's \<Rightarrow> (backend_error + (bytes \<times> bool) option) \<times> 's" where
  "io_get_with_freshness b mh key s = on_404 None (\<lambda>r. Some (rs_content r, is_stale r)) (request_sync b mh ''GET'' key None [] s)"

definition io_set :: "'s io_backend \<Rightarrow> headers \<Rightarrow> string \<Rightarrow> bytes \<Rightarrow> int option \<Rightarrow> int option \<Rightarrow> 's \<Rightarrow> (backend_error + unit) \<times> 's" where
  "io_set b mh key v ttl stale_ttl s =
     (case request_sync b mh ''PUT'' key (Some v) (set_headers ttl stale_ttl) s of
        (Inl (e, _), s1) \<Rightarrow> (Inl e, s1) | (Inr _, s1) \<Rightarrow> (Inr (), s1))"

definition io_delete :: "'s io_backend \<Rightarrow> headers \<Rightarrow> string \<Rightarrow> 's \<Rightarrow> (backend_error + bool) \<times> 's" where
  "io_delete b mh key s = on_404 False (\<lambda>_. True) (request_sync b mh ''DELETE'' key None [] s)"

definition io_exists :: "'s io_backend \<Rightarrow> headers \<Rightarrow> string \<Rightarrow> 's \<Rightarrow> (backend_error + bool) \<times> 's" where
  "io_exists b mh key s = on_404 False (\<lambda>_. True) (request_sync b mh ''HEAD'' key None [] s)"

text \<open>The version a health check reports, or the reason it failed.\<close>

definition health_details :: "(backend_error \<times> nat option + http_response) \<Rightarrow> pyexn + json" where
  "health_details r =
     (case r of
        Inl (e, _) \<Rightarrow> Inl (BackendExn e)
      | Inr resp \<Rightarrow>
          (case rs_json resp of
             None \<Rightarrow> Inl (PyExn ''JSONDecodeError'' [])
           | Some (JObject kvs) \<Rightarrow> Inr (case map_of kvs ''version'' of None \<Rightarrow> JStr ''unknown'' | Some v \<Rightarrow> v)
           | Some _ \<Rightarrow> Inl (PyExn ''AttributeError'' [])))"

definition io_health_check :: "'s io_backend \<Rightarrow> headers \<Rightarrow> 's \<Rightarrow> (bool \<times> (pyexn + json)) \<times> 's" where
  "io_health_check b mh s =
     (case request_sync b mh ''GET'' ''health'' None [] s of (r, s1) \<Rightarrow> ((isl (health_details r) = False, health_details r), s1))"

definition io_get_async :: "'s io_backend \<Rightarrow> headers \<Rightarrow> string \<Rightarrow> 's \<Rightarrow> (backend_error + bytes option) \<times> 's" where
  "io_get_async b mh key s = on_404 None (\<lambda>r. Some (rs_content r)) (request_async b mh ''GET'' key None [] s)"

definition io_set_async :: "'s io_backend \<Rightarrow> headers \<Rightarrow> string \<Rightarrow> bytes \<Rightarrow> int option \<Rightarrow> int option \<Rightarrow> 's \<Rightarrow> (backend_error + unit) \<times> 's" where
  "io_set_async b mh key v ttl stale_ttl s =
     (case request_async b mh ''PUT'' key (Some v) (set_headers ttl stale_ttl) s of
        (Inl (e, _), s1) \<Rightarrow> (Inl e, s1) | (Inr _, s1) \<Rightarrow> (Inr (), s1))"

definition io_delete_async :: "'s io_backend \<Rightarrow> headers \<Rightarrow> string \<Rightarrow> 's \<Rightarrow> (backend_error + bool) \<times> 's" where
  "io_delete_async b mh key s = on_404 False (\<lambda>_. True) (request_async b mh ''DELETE'' key None [] s)"

definition io_exists_async :: "'s io_backend \<Rightarrow> headers \<Rightarrow> string \<Rightarrow> 's \<Rightarrow> (backend_error + bool) \<times> 's" where
  "io_exists_async b mh key s = on_404 False (\<lambda>_. True) (request_async b mh ''HEAD'' key None [] s)"

definition io_health_check_async :: "'s io_backend \<Rightarrow> headers \<Rightarrow> 's \<Rightarrow> (bool \<times> (pyexn + json)) \<times> 's" where
  "io_health_check_async b mh s =
     (case request_async b mh ''GET'' ''health'' None [] s of (r, s1) \<Rightarrow> ((isl (health_details r) = False, health_details r), s1))"

section \<open>TTL\<close>

definition io_get_ttl :: "'s io_backend \<Rightarrow> headers \<Rightarrow> string \<Rightarrow> 's \<Rightarrow> (pyexn + json) \<times> 's" where
  "io_get_ttl b mh key s =
     (case request_async b mh ''GET'' (key @ ''/ttl'') None [] s of
        (Inl _, s1) \<Rightarrow> (Inr JNull, s1)
      | (Inr r, s1) \<Rightarrow>
          (case rs_json r of
             None \<Rightarrow> (Inl (PyExn ''JSONDecodeError'' []), s1)
           | Some (JObject kvs) \<Rightarrow> (Inr (case map_of kvs ''ttl'' of None \<Rightarrow> JNull | Some v \<Rightarrow> v), s1)
           | Some _ \<Rightarrow> (Inl (PyExn ''AttributeError'' []), s1)))"

definition io_refresh_ttl :: "'s io_backend \<Rightarrow> headers \<Rightarrow> string \<Rightarrow> int \<Rightarrow> 's \<Rightarrow> bool \<times> 's" where
  "io_refresh_ttl b mh key ttl s =
     (case request_async b mh ''PATCH'' (key @ ''/ttl'') (Some (str_bytes (''{\"ttl\": '' @ int_str ttl @ ''}'')))
             [(''Content-Type'', ''application/json'')] s of
        (Inl _, s1) \<Rightarrow> (False, s1) | (Inr _, s1) \<Rightarrow> (True, s1))"

section \<open>The lock\<close>

definition timeout_millis :: "pyfloat \<Rightarrow> int" where
  "timeout_millis timeout = (case timeout of Fin t \<Rightarrow> max 1 (if t * 1000 < 0 then \<lceil>t * 1000\<rceil> else \<lfloor>t * 1000\<rfloor>) | _ \<Rightarrow> 1)"

definition lock_id_of :: "json option \<Rightarrow> string option" where
  "lock_id_of j = (case j of Some (JObject kvs) \<Rightarrow> (case map_of kvs ''lock_id'' of Some (JStr i) \<Rightarrow> Some i | _ \<Rightarrow> None) | _ \<Rightarrow> None)"

definition try_acquire_lock ::
  "'s io_backend \<Rightarrow> headers \<Rightarrow> string \<Rightarrow> pyfloat \<Rightarrow> 's \<Rightarrow> (backend_error + string option) \<times> 's" where
  "try_acquire_lock b mh lock_key timeout s =
     (case request_async b mh ''POST'' (url_encode lock_key @ ''/lock'')
             (Some (str_bytes (''{\"timeout_ms\": '' @ int_str (timeout_millis timeout) @ ''}'')))
             [(''Content-Type'', ''application/json'')] s of
        (Inl (e, _), s1) \<Rightarrow> if error_type e \<in> {AUTHENTICATION, PERMANENT} then (Inl e, s1) else (Inr None, s1)
      | (Inr r, s1) \<Rightarrow> (Inr (lock_id_of (rs_json r)), s1))"

definition release_lock :: "'s io_backend \<Rightarrow> headers \<Rightarrow> string \<Rightarrow> string \<Rightarrow> 's \<Rightarrow> bool \<times> 's" where
  "release_lock b mh lock_key lock_id s =
     (case request_async b mh ''DELETE'' (url_encode lock_key @ ''/lock'') None [(LOCK_ID_HEADER, lock_id)] s of
        (Inl _, s1) \<Rightarrow> (False, s1) | (Inr _, s1) \<Rightarrow> (True, s1))"

text \<open>
  The polling loop. \<open>random\<close> is the random number and \<open>spent\<close> the time iteration \<open>i\<close> takes beyond its sleep (the request, the event
  loop); the result carries the number of attempts so far. The loop may run forever, then it has no value.
\<close>

record poll_env =
  pe_random :: "nat \<Rightarrow> real"
  pe_spent :: "nat \<Rightarrow> real"

partial_function (option) poll_lock ::
  "'s io_backend \<Rightarrow> headers \<Rightarrow> poll_env \<Rightarrow> string \<Rightarrow> pyfloat \<Rightarrow> real \<Rightarrow> nat \<Rightarrow> real \<Rightarrow> real \<Rightarrow> 's
   \<Rightarrow> ((backend_error + string option) \<times> nat \<times> 's) option" where
  "poll_lock b mh pe key timeout deadline i delay now s =
     (let remaining = deadline - now in
      if remaining \<le> 0 then Some (Inr None, i, s)
      else
        let jitter = 1 / 2 + pe_random pe i * (1 / 2)
        in case try_acquire_lock b mh key timeout s of
             (r, s1) \<Rightarrow>
               if r = Inr None
               then poll_lock b mh pe key timeout deadline (i + 1) (min (delay * 2) (1 / 2))
                      (now + min delay remaining * jitter + pe_spent pe i) s1
               else Some (r, i + 1, s1))"

definition acquire_attempts ::
  "'s io_backend \<Rightarrow> headers \<Rightarrow> poll_env \<Rightarrow> real \<Rightarrow> string \<Rightarrow> pyfloat \<Rightarrow> real option \<Rightarrow> 's
   \<Rightarrow> ((backend_error + string option) \<times> nat \<times> 's) option" where
  "acquire_attempts b mh pe now key timeout blocking_timeout s =
     (case try_acquire_lock b mh key timeout s of
        (Inr None, s1) \<Rightarrow>
          (case blocking_timeout of
             None \<Rightarrow> Some (Inr None, 1, s1)
           | Some bt \<Rightarrow> poll_lock b mh pe key timeout (now + bt) 1 (1 / 20) now s1)
      | (r, s1) \<Rightarrow> Some (r, 1, s1))"

text \<open>
  The context manager the wrapper enters around a miss, with its 30 and 5 seconds. A release failure is swallowed; a pending exception
  passes unchanged. A poll that never ends would have no value here; \<open>lock_polling_bounded\<close> shows that it ends.
\<close>

definition io_lock :: "'s io_backend \<Rightarrow> headers \<Rightarrow> poll_env \<Rightarrow> real \<Rightarrow> 's lock" where
  "io_lock b mh pe now = \<lparr>
     lk_enter = (\<lambda>key s. case acquire_attempts b mh pe now key (Fin 30) (Some 5) s of
        None \<Rightarrow> (Inr None, s)
      | Some (Inl e, n, s1) \<Rightarrow> (Inl (BackendExn e), s1)
      | Some (Inr held, n, s1) \<Rightarrow> (Inr held, s1)),
     lk_exit = (\<lambda>key held pending s.
        (pending, case held of None \<Rightarrow> s | Some i \<Rightarrow> snd (release_lock b mh key i s)))\<rparr>"

text \<open>The backend as the handlers see it.\<close>

definition ttl_answer :: "(pyexn + json) \<times> 's \<Rightarrow> (pyexn + int option) \<times> 's" where
  "ttl_answer r =
     (case r of
        (Inl e, s) \<Rightarrow> (Inl e, s)
      | (Inr JNull, s) \<Rightarrow> (Inr None, s)
      | (Inr (JInt i), s) \<Rightarrow> (Inr (Some i), s)
      | (Inr _, s) \<Rightarrow> (Inl (PyExn ''TypeError'' []), s))"

definition io_backend_of :: "'s io_backend \<Rightarrow> headers \<Rightarrow> 's backend" where
  "io_backend_of b mh = \<lparr>bk_get = (\<lambda>k s. raising (io_get b mh k s)),
     bk_set = (\<lambda>k v ttl stale s. raising (io_set b mh k v ttl stale s)),
     bk_delete = (\<lambda>k s. raising (io_delete b mh k s)),
     bk_get_buffer = None, bk_set_streaming = None,
     bk_get_with_freshness = Some (\<lambda>k s. raising (io_get_with_freshness b mh k s)),
     bk_get_ttl = Some (\<lambda>k s. ttl_answer (io_get_ttl b mh k s)),
     bk_refresh_ttl = Some (\<lambda>k t s. case io_refresh_ttl b mh k t s of (r, s1) \<Rightarrow> (Inr r, s1))\<rparr>"

section \<open>Polling ends\<close>

text \<open>
  Time passes in every iteration (at least \<open>\<epsilon>\<close> besides the sleep) and the jitter is at least a half. While more than half a second
  remains, a quarter of a second passes per iteration once the delay has grown; after that the remaining time halves.
\<close>

definition poll_within ::
  "'s io_backend \<Rightarrow> headers \<Rightarrow> poll_env \<Rightarrow> string \<Rightarrow> pyfloat \<Rightarrow> real \<Rightarrow> nat \<Rightarrow> nat \<Rightarrow> real \<Rightarrow> real \<Rightarrow> bool" where
  "poll_within b mh pe key timeout deadline n i delay now \<longleftrightarrow>
     (\<forall>s. \<exists>r k s'. poll_lock b mh pe key timeout deadline i delay now s = Some (r, k, s') \<and> k \<le> i + n)"

lemma poll_within_done: "deadline \<le> now \<Longrightarrow> poll_within b mh pe key timeout deadline n i delay now"
  by (simp add: poll_within_def poll_lock.simps)

lemma poll_within_mono: "poll_within b mh pe key timeout deadline n i delay now \<Longrightarrow> n \<le> m \<Longrightarrow> poll_within b mh pe key timeout deadline m i delay now"
  unfolding poll_within_def by (meson add_left_mono le_trans)

definition clock_advances :: "real \<Rightarrow> poll_env \<Rightarrow> bool" where
  "clock_advances \<epsilon> pe \<longleftrightarrow> 0 < \<epsilon> \<and> (\<forall>i. \<epsilon> \<le> pe_spent pe i \<and> 0 \<le> pe_random pe i)"

lemma poll_within_step:
  assumes "clock_advances \<epsilon> pe" "0 \<le> delay"
    and next_ok: "\<And>now'. now' \<ge> now + min delay (deadline - now) / 2 + \<epsilon> \<Longrightarrow>
      poll_within b mh pe key timeout deadline n (i + 1) (min (delay * 2) (1 / 2)) now'"
  shows "poll_within b mh pe key timeout deadline (Suc n) i delay now"
  unfolding poll_within_def
proof
  fix s
  show "\<exists>r k s'. poll_lock b mh pe key timeout deadline i delay now s = Some (r, k, s') \<and> k \<le> i + Suc n"
  proof (cases "deadline - now \<le> 0")
    case True
    then show ?thesis by (simp add: poll_lock.simps)
  next
    case False
    let ?now = "now + min delay (deadline - now) * (1 / 2 + pe_random pe i * (1 / 2)) + pe_spent pe i"
    have "min delay (deadline - now) * (1 / 2) \<le> min delay (deadline - now) * (1 / 2 + pe_random pe i * (1 / 2))"
      using assms(1,2) False by (intro mult_left_mono) (auto simp: clock_advances_def)
    moreover have "\<epsilon> \<le> pe_spent pe i" using assms(1) by (simp add: clock_advances_def)
    ultimately have w: "poll_within b mh pe key timeout deadline n (i + 1) (min (delay * 2) (1 / 2)) ?now" by (intro next_ok) simp
    obtain r s1 where t: "try_acquire_lock b mh key timeout s = (r, s1)" by force
    from w obtain q k s' where "poll_lock b mh pe key timeout deadline (i + 1) (min (delay * 2) (1 / 2)) ?now s1 = Some (q, k, s')"
      "k \<le> i + Suc n" unfolding poll_within_def by (metis add.assoc plus_1_eq_Suc)
    with False t show ?thesis by (subst poll_lock.simps) (auto simp: Let_def)
  qed
qed

lemma poll_within_tail:
  assumes "clock_advances \<epsilon> pe"
  shows "deadline - now \<le> 1 / 2 \<Longrightarrow> deadline - now \<le> 2 ^ m * \<epsilon> \<Longrightarrow> poll_within b mh pe key timeout deadline (m + 1) i (1 / 2) now"
proof (induction m arbitrary: i now)
  case 0
  have "poll_within b mh pe key timeout deadline (Suc 0) i (1 / 2) now"
    using assms
  proof (rule poll_within_step)
    fix now' assume "now' \<ge> now + min (1 / 2) (deadline - now) / 2 + \<epsilon>"
    moreover have "min (1 / 2) (deadline - now) = deadline - now" using 0 by simp
    ultimately have "deadline \<le> now'" using 0 assms by (simp add: clock_advances_def field_simps)
    then show "poll_within b mh pe key timeout deadline 0 (i + 1) (min (1 / 2 * 2) (1 / 2)) now'" by (rule poll_within_done)
  qed simp
  then show ?case by simp
next
  case (Suc m)
  have "poll_within b mh pe key timeout deadline (Suc (Suc m)) i (1 / 2) now"
    using assms
  proof (rule poll_within_step)
    fix now' assume "now' \<ge> now + min (1 / 2) (deadline - now) / 2 + \<epsilon>"
    moreover have "min (1 / 2) (deadline - now) = deadline - now" using Suc.prems by simp
    ultimately have half: "deadline - now' \<le> (deadline - now) / 2" using assms by (simp add: clock_advances_def field_simps)
    with Suc.prems have "deadline - now' \<le> 2 ^ m * \<epsilon>" by simp
    moreover have "deadline - now' \<le> 1 / 2" if "now' < deadline" using half Suc.prems(1) by (simp add: field_simps)
    ultimately show "poll_within b mh pe key timeout deadline (Suc m) (i + 1) (min (1 / 2 * 2) (1 / 2)) now'"
      using Suc.IH [of now' "i + 1"] poll_within_done [of deadline now'] by (cases "deadline \<le> now'") auto
  qed simp
  then show ?case by simp
qed

lemma poll_within_linear:
  assumes "clock_advances \<epsilon> pe" "1 / 2 \<le> 2 ^ m * \<epsilon>"
  shows "deadline - now \<le> 1 / 2 + real n / 4 \<Longrightarrow> poll_within b mh pe key timeout deadline (n + m + 1) i (1 / 2) now"
proof (induction n arbitrary: i now)
  case 0
  then show ?case using poll_within_tail [OF assms(1), of deadline now m] assms(2) by simp
next
  case (Suc n)
  show ?case
  proof (cases "deadline - now \<le> 1 / 2")
    case True
    then show ?thesis using assms(2) by (intro poll_within_mono [OF poll_within_tail [OF assms(1), where m = m]]) auto
  next
    case False
    have "poll_within b mh pe key timeout deadline (Suc (n + m + 1)) i (1 / 2) now"
      using assms(1)
    proof (rule poll_within_step)
      fix now' assume "now' \<ge> now + min (1 / 2) (deadline - now) / 2 + \<epsilon>"
      with Suc.prems False assms(1) have "deadline - now' \<le> 1 / 2 + real n / 4" by (simp add: clock_advances_def field_simps)
      with Suc.IH show "poll_within b mh pe key timeout deadline (n + m + 1) (i + 1) (min (1 / 2 * 2) (1 / 2)) now'" by simp
    qed simp
    then show ?thesis by simp
  qed
qed

lemma poll_within_growing:
  assumes "clock_advances \<epsilon> pe" "0 \<le> delay" "0 \<le> deadline - now \<Longrightarrow> deadline - now \<le> x"
    and "\<And>now'. deadline - now' \<le> x \<Longrightarrow> poll_within b mh pe key timeout deadline n (i + 1) (min (delay * 2) (1 / 2)) now'"
  shows "poll_within b mh pe key timeout deadline (Suc n) i delay now"
proof (cases "deadline \<le> now")
  case False
  show ?thesis using assms(1,2)
  proof (rule poll_within_step)
    fix now' assume "now' \<ge> now + min delay (deadline - now) / 2 + \<epsilon>"
    with False assms(1,2,3) have "deadline - now' \<le> x" by (auto simp: clock_advances_def min_def field_simps split: if_splits)
    then show "poll_within b mh pe key timeout deadline n (i + 1) (min (delay * 2) (1 / 2)) now'" by (rule assms(4))
  qed
qed (rule poll_within_done)

lemma poll_within_all:
  assumes "clock_advances \<epsilon> pe" "1 / 2 \<le> 2 ^ m * \<epsilon>" "deadline - now \<le> 1 / 2 + real n / 4"
  shows "poll_within b mh pe key timeout deadline (n + m + 5) i (1 / 20) now"
proof -
  let ?x = "1 / 2 + real n / 4"
  let ?P = "\<lambda>n i d now. poll_within b mh pe key timeout deadline n i d now"
  note grow = poll_within_growing [OF assms(1), where x = ?x and b = b and mh = mh and key = key and timeout = timeout and deadline = deadline]
  have d5: "?P (n + m + 1) i (1 / 2) t" if "deadline - t \<le> ?x" for i t by (rule poll_within_linear [OF assms(1,2) that])
  have d4: "?P (Suc (n + m + 1)) i (2 / 5) t" if "deadline - t \<le> ?x" for i t using grow [of "2 / 5" t] d5 that by simp
  have d3: "?P (Suc (Suc (n + m + 1))) i (1 / 5) t" if "deadline - t \<le> ?x" for i t using grow [of "1 / 5" t] d4 that by simp
  have d2: "?P (Suc (Suc (Suc (n + m + 1)))) i (1 / 10) t" if "deadline - t \<le> ?x" for i t using grow [of "1 / 10" t] d3 that by simp
  have "?P (Suc (Suc (Suc (Suc (n + m + 1))))) i (1 / 20) now" using grow [of "1 / 20" now] d2 assms(3) by simp
  then show ?thesis by (simp add: numeral_eq_Suc)
qed

text \<open>
  C26: Acquiring the lock ends. When every attempt takes at least \<open>\<epsilon>\<close> seconds besides its sleep, then with a blocking timeout of at
  most \<open>1/2 + n/4\<close> seconds and \<open>1/2 \<le> 2 ^ m * \<epsilon>\<close> the context manager is entered, or the error is raised, after at most \<open>n + m + 6\<close>
  requests to the lock endpoint (each of them is billed), whatever the server answers.
\<close>

theorem lock_polling_bounded:
  assumes "clock_advances \<epsilon> pe" "1 / 2 \<le> 2 ^ m * \<epsilon>" "bt \<le> 1 / 2 + real n / 4"
  shows "\<exists>r k s'. acquire_attempts b mh pe now key timeout (Some bt) s = Some (r, k, s') \<and> k \<le> n + m + 6"
proof -
  have w: "poll_within b mh pe key timeout (now + bt) (n + m + 5) 1 (1 / 20) now"
    by (rule poll_within_all [OF assms(1,2)]) (use assms(3) in simp)
  obtain r s1 where t: "try_acquire_lock b mh key timeout s = (r, s1)" by force
  from w obtain q k s' where "poll_lock b mh pe key timeout (now + bt) 1 (1 / 20) now s1 = Some (q, k, s')" "k \<le> n + m + 6"
    unfolding poll_within_def by force
  with t show ?thesis by (auto simp: acquire_attempts_def split: sum.splits option.splits)
qed

section \<open>The contract\<close>

text \<open>
  What the service promises: it returns under a key only what was stored there. The key is part of the path unencoded, so this is
  meaningful for keys that do not name another endpoint.
\<close>

definition plain_key :: "string \<Rightarrow> bool" where
  "plain_key k \<longleftrightarrow> CHR ''/'' \<notin> set k \<and> k \<noteq> ''health''"

lemma io_request_cases:
  assumes "io_request b t mh meth endpoint content hdrs s = (r, s')"
  shows "\<exists>q. t meth (''/v1/cache/'' @ endpoint) content (merge_headers hdrs mh) s = (q, s')
    \<and> (\<forall>resp. r = Inr resp \<longrightarrow> q = Inr resp \<and> 200 \<le> rs_status resp \<and> rs_status resp < 300)"
  using assms by (auto simp: io_request_def raise_for_status_def split: prod.splits sum.splits if_splits)

locale http_server =
  fixes b :: "'s io_backend" and good :: "string \<Rightarrow> bytes \<Rightarrow> bool" and ok :: "'s \<Rightarrow> bool"
  assumes http_get: "ok s \<Longrightarrow> t \<in> {io_sync b, io_async b} \<Longrightarrow> t ''GET'' (''/v1/cache/'' @ k) c h s = (q, s') \<Longrightarrow>
      ok s' \<and> (\<forall>resp. q = Inr resp \<longrightarrow> 200 \<le> rs_status resp \<longrightarrow> rs_status resp < 300 \<longrightarrow> plain_key k \<longrightarrow> good k (rs_content resp))"
    and http_put: "ok s \<Longrightarrow> (plain_key k \<longrightarrow> good k v) \<Longrightarrow> io_sync b ''PUT'' (''/v1/cache/'' @ k) (Some v) h s = (q, s') \<Longrightarrow> ok s'"
    and http_other: "ok s \<Longrightarrow> t \<in> {io_sync b, io_async b} \<Longrightarrow> meth \<in> {''DELETE'', ''POST'', ''PATCH''} \<Longrightarrow>
      t meth url c h s = (q, s') \<Longrightarrow> ok s'"
begin

lemma get_keeps:
  "ok s \<Longrightarrow> t \<in> {io_sync b, io_async b} \<Longrightarrow> io_request b t mh ''GET'' k None [] s = (r, s') \<Longrightarrow>
     ok s' \<and> (\<forall>resp. r = Inr resp \<longrightarrow> plain_key k \<longrightarrow> good k (rs_content resp))"
  using http_get [of s t k] by (fastforce dest: io_request_cases)

lemma other_keeps:
  "ok s \<Longrightarrow> t \<in> {io_sync b, io_async b} \<Longrightarrow> meth \<in> {''DELETE'', ''POST'', ''PATCH''} \<Longrightarrow> io_request b t mh meth endpoint c h s = (r, s') \<Longrightarrow> ok s'"
  using http_other [of s t meth] by (blast dest: io_request_cases)

lemma try_acquire_keeps: "ok s \<Longrightarrow> try_acquire_lock b mh key timeout s = (r, s') \<Longrightarrow> ok s'"
  using other_keeps [of s "io_async b" "''POST''"]
  by (auto simp: try_acquire_lock_def request_async_def split: prod.splits sum.splits if_splits)

lemma release_keeps: "ok s \<Longrightarrow> ok (snd (release_lock b mh key i s))"
  using other_keeps [of s "io_async b" "''DELETE''"]
  by (auto simp: release_lock_def request_async_def split: prod.split sum.split)

end

sublocale http_server \<subseteq> io: sound_backend "io_backend_of b mh" "\<lambda>k v. plain_key k \<longrightarrow> good k v" ok for mh
proof unfold_locales
  fix s s' k v ttl stale and r :: "pyexn + bytes option" and q :: "pyexn + unit" and d :: "pyexn + bool"
  assume s: "ok s"
  note simps = io_backend_of_def raising_def on_404_def request_sync_def
  show "ok s' \<and> (\<forall>v. r = Inr (Some v) \<longrightarrow> plain_key k \<longrightarrow> good k v)" if "bk_get (io_backend_of b mh) k s = (r, s')"
    using that get_keeps [OF s, of "io_sync b" mh k]
    by (cases "io_request b (io_sync b) mh ''GET'' k None [] s") (auto simp: simps io_get_def split: sum.splits if_splits)
  show "ok s'" if "plain_key k \<longrightarrow> good k v" "bk_set (io_backend_of b mh) k v ttl stale s = (q, s')"
    using that(2) http_put [OF s that(1)] io_request_cases [of b "io_sync b" mh "''PUT''" k "Some v" "set_headers ttl stale" s]
    by (cases "io_request b (io_sync b) mh ''PUT'' k (Some v) (set_headers ttl stale) s") (auto simp: simps io_set_def split: sum.splits)
  show "ok s'" if "bk_delete (io_backend_of b mh) k s = (d, s')"
    using that other_keeps [OF s, of "io_sync b" "''DELETE''" mh k]
    by (cases "io_request b (io_sync b) mh ''DELETE'' k None [] s") (auto simp: simps io_delete_def split: sum.splits if_splits)
next
  fix g s k r2 s' assume "bk_get_with_freshness (io_backend_of b mh) = Some g" and s: "ok s" and g: "g k s = (r2, s')"
  with get_keeps [OF s, of "io_sync b" mh k] show "ok s' \<and> (\<forall>v stale. r2 = Inr (Some (v, stale)) \<longrightarrow> plain_key k \<longrightarrow> good k v)"
    by (cases "io_request b (io_sync b) mh ''GET'' k None [] s")
       (auto simp: io_backend_of_def raising_def on_404_def request_sync_def io_get_with_freshness_def split: sum.splits if_splits)
next
  fix u s k t s' assume "bk_get_ttl (io_backend_of b mh) = Some u" and s: "ok s" and u: "u k s = (t, s')"
  with get_keeps [OF s, of "io_async b" mh "k @ ''/ttl''"] show "ok s'"
    by (cases "io_request b (io_async b) mh ''GET'' (k @ ''/ttl'') None [] s")
       (auto simp: io_backend_of_def ttl_answer_def request_async_def io_get_ttl_def split: sum.splits json.splits option.splits)
next
  fix v s k n d s' assume "bk_refresh_ttl (io_backend_of b mh) = Some v" and s: "ok s" and v: "v k n s = (d, s')"
  with other_keeps [OF s, of "io_async b" "''PATCH''" mh "k @ ''/ttl''"] show "ok s'"
    by (auto simp: io_backend_of_def request_async_def io_refresh_ttl_def split: sum.splits prod.splits)
qed (simp_all add: io_backend_of_def)

text \<open>With a lock endpoint that is only ever busy, limited or failing for a moment, its lock is one the asynchronous wrapper can rely on.\<close>

locale http_lock_server = http_server +
  assumes http_lock: "ok s \<Longrightarrow> io_async b ''POST'' url c h s = (Inr resp, s') \<Longrightarrow>
      rs_status resp < 300 \<and> 200 \<le> rs_status resp \<or> rs_status resp = 429 \<or> 500 \<le> rs_status resp \<and> rs_status resp < 600"
begin

lemma try_acquire_value: "ok s \<Longrightarrow> try_acquire_lock b mh key timeout s = (r, s') \<Longrightarrow> \<exists>x. r = Inr x"
  using http_lock [of s]
  by (fastforce simp: try_acquire_lock_def request_async_def io_request_def raise_for_status_def classify_http_error_def Let_def
      split: prod.splits sum.splits if_splits)

lemma poll_keeps:
  assumes "poll_lock b mh pe key timeout deadline i delay now s = Some p" "ok s"
  shows "ok (snd (snd p)) \<and> (\<exists>x. fst p = Inr x)"
proof -
  have "b' = b \<longrightarrow> ok t \<longrightarrow> ok (snd (snd p)) \<and> (\<exists>x. fst p = Inr x)"
    if "poll_lock b' mh pe key timeout deadline i delay now t = Some p" for b' mh pe key timeout deadline i delay now t p
  proof (rule poll_lock.raw_induct [where P = "\<lambda>b' mh pe key timeout deadline i delay now t p.
        b' = b \<longrightarrow> ok t \<longrightarrow> ok (snd (snd p)) \<and> (\<exists>x. fst p = Inr x)", OF _ that], intro impI)
    fix poll b' mh pe key timeout deadline i delay now t p
    assume IH: "\<And>b' mh pe key timeout deadline i delay now t p. poll b' mh pe key timeout deadline i delay now t = Some p \<Longrightarrow>
        b' = b \<longrightarrow> ok t \<longrightarrow> ok (snd (snd p)) \<and> (\<exists>x. fst p = Inr x)"
      and body: "(let remaining = deadline - now in if remaining \<le> 0 then Some (Inr None, i, t)
        else let jitter = 1 / 2 + pe_random pe i * (1 / 2) in case try_acquire_lock b' mh key timeout t of
             (r, s1) \<Rightarrow> if r = Inr None then poll b' mh pe key timeout deadline (i + 1) (min (delay * 2) (1 / 2))
                      (now + min delay remaining * jitter + pe_spent pe i) s1
               else Some (r, i + 1, s1)) = Some p"
      and b: "b' = b" and "ok t"
    obtain r t1 where t: "try_acquire_lock b mh key timeout t = (r, t1)" by force
    with \<open>ok t\<close> have "ok t1" "\<exists>x. r = Inr x" using try_acquire_keeps try_acquire_value by blast+
    with body t b \<open>ok t\<close> show "ok (snd (snd p)) \<and> (\<exists>x. fst p = Inr x)"
      by (cases "deadline - now \<le> 0"; cases "r = Inr None") (auto simp: Let_def dest: IH)
  qed
  with assms show ?thesis by blast
qed

end

sublocale http_lock_server \<subseteq> il: lawful_lock "io_lock b mh pe now" ok for mh pe now
proof
  fix s k r s' assume s: "ok s" and e: "lk_enter (io_lock b mh pe now) k s = (r, s')"
  obtain q s1 where t: "try_acquire_lock b mh k (Fin 30) s = (q, s1)" by force
  with s have "ok s1" "\<exists>x. q = Inr x" using try_acquire_keeps try_acquire_value by blast+
  moreover have "ok s2 \<and> (\<exists>x. a = Inr x)"
    if "poll_lock b mh pe k (Fin 30) (now + 5) 1 (1 / 20) now s1 = Some (a, n, s2)" for a n s2
    using poll_keeps [OF that \<open>ok s1\<close>] by simp
  ultimately show "ok s' \<and> (\<forall>e. r = Inl e \<longrightarrow> lock_verdict e = RunUnlocked)"
    using e t s by (fastforce simp: io_lock_def acquire_attempts_def split: option.splits prod.splits sum.splits)
next
  fix s k got p x s' assume "ok s" "lk_exit (io_lock b mh pe now) k got p s = (x, s')"
  then show "ok s'" using release_keeps by (auto simp: io_lock_def split: option.splits)
next
  fix s k got e x s' assume "lk_exit (io_lock b mh pe now) k got (Some e) s = (x, s')" "\<not> is_backend_error e"
  then show "\<exists>y. x = Some y \<and> lock_verdict y = Raise e" by (cases e) (auto simp: io_lock_def lock_verdict_def intro!: exI [of _ e])
qed (simp_all add: io_lock_def)

text \<open>
  A service that is a finite map from paths below \<^verbatim>\<open>/v1/cache/\<close> to values; a lock is an entry at the path of the lock endpoint.
\<close>

definition map_response :: "nat \<Rightarrow> bytes \<Rightarrow> json option \<Rightarrow> http_response" where
  "map_response status content j = \<lparr>rs_status = status, rs_content = content, rs_headers = [], rs_json = j\<rparr>"

definition map_transport :: "(string \<times> bytes) list transport" where
  "map_transport meth url content h s =
     (let k = drop (length ''/v1/cache/'') url in
      if meth = ''PUT'' then (Inr (map_response 201 [] None), AList.update k (case content of None \<Rightarrow> [] | Some v \<Rightarrow> v) s)
      else if meth = ''DELETE'' then (Inr (map_response (if k \<in> fst ` set s then 200 else 404) [] None), AList.delete k s)
      else if meth = ''POST'' then
        (if k \<in> fst ` set s then (Inr (map_response 503 [] None), s)
         else (Inr (map_response 200 [] (Some (JObject [(''lock_id'', JStr ''1'')]))),
               if plain_key k then s else AList.update k [] s))
      else if meth = ''PATCH'' then (Inr (map_response 200 [] None), s)
      else case map_of s k of
             None \<Rightarrow> (Inr (map_response 404 [] None), s)
           | Some v \<Rightarrow> (Inr (map_response 200 v (Some (JObject []))), s))"

definition map_io_backend :: "(string \<times> bytes) list io_backend" where
  "map_io_backend = \<lparr>io_sync = map_transport, io_async = map_transport, io_isa = (\<lambda>_ _. False), io_status_text = (\<lambda>_. [])\<rparr>"

interpretation map_http: http_lock_server map_io_backend good "entries_good (\<lambda>k v. plain_key k \<longrightarrow> good k v)" for good
  by unfold_locales
     (auto simp: map_io_backend_def map_transport_def map_response_def entries_good_def Let_def update_conv' AList.delete_conv'
       split: option.splits if_splits)

text \<open>The wrapper's five seconds with requests of at least a millisecond: at most 33 requests.\<close>

theorem lock_polling_bounded_witness:
  "\<exists>r k s'. acquire_attempts map_io_backend [] \<lparr>pe_random = (\<lambda>_. 0), pe_spent = (\<lambda>_. 1 / 1000)\<rparr> 0 ''k'' (Fin 30) (Some 5) [(''k/lock'', [])] = Some (r, k, s') \<and> k \<le> 18 + 9 + 6"
  by (rule lock_polling_bounded [where \<epsilon> = "1 / 1000"]) (simp_all add: clock_advances_def)

section \<open>A refused lock\<close>

lemma refused_lock:
  assumes "\<And>content h. io_async b ''POST'' (''/v1/cache/'' @ url_encode key @ ''/lock'') content h s = (Inr resp, s1)"
    and "400 \<le> rs_status resp" "rs_status resp < 500" "rs_status resp \<noteq> 429"
  shows "\<exists>e. try_acquire_lock b mh key timeout s = (Inl e, s1)
    \<and> original_exception e = Some (PyExn ''HTTPStatusError'' (io_status_text b resp))"
  using assms
  by (auto simp: try_acquire_lock_def request_async_def io_request_def raise_for_status_def classify_http_error_def Let_def)

text \<open>
  When the lock endpoint refuses a key for good (400 to 499 other than 429: a bad API key, a key the service rejects), an
  asynchronous call that missed does not run without the lock: the \<^verbatim>\<open>HTTPStatusError\<close> is raised to the caller and the
  function is not called.
\<close>

theorem refused_lock_reaches_caller:
  assumes "\<And>content h. io_async b ''POST'' (''/v1/cache/'' @ url_encode key @ ''/lock'') content h (os_backend (w_op w)) = (Inr resp, s1)"
    and "400 \<le> rs_status resp" "rs_status resp < 500" "rs_status resp \<noteq> 429"
  shows "fst (async_miss pg cfg bk (Some (io_lock b mh pe now)) cl key args w) = Inl (PyExn ''HTTPStatusError'' (io_status_text b resp))
    \<and> w_world (snd (async_miss pg cfg bk (Some (io_lock b mh pe now)) cl key args w)) = w_world w"
proof -
  from refused_lock [where timeout = "Fin 30" and mh = mh, OF assms] obtain e
    where t: "try_acquire_lock b mh key (Fin 30) (os_backend (w_op w)) = (Inl e, s1)"
      and o: "original_exception e = Some (PyExn ''HTTPStatusError'' (io_status_text b resp))" by blast
  then have "lk_enter (io_lock b mh pe now) key (os_backend (w_op w)) = (Inl (BackendExn e), s1)"
    by (simp add: io_lock_def acquire_attempts_def)
  moreover have "lock_verdict (BackendExn e) = Raise (PyExn ''HTTPStatusError'' (io_status_text b resp))"
    by (rule lock_verdict_wrapped [OF o]) (simp add: exn_class_defs)
  ultimately show ?thesis
    by (simp add: async_miss_def locked_call_def on_op_def on_backend_def lock_failed_def)
qed

text \<open>A service that refuses every key of a lock.\<close>

definition refusing_backend :: "(string \<times> bytes) list io_backend" where
  "refusing_backend = map_io_backend\<lparr>io_async := (\<lambda>meth url content h s. (Inr (map_response 400 [] None), s))\<rparr>"

theorem refused_lock_reaches_caller_witness:
  "fst (async_miss succ_program (succ_config False) (io_backend_of refusing_backend [])
       (Some (io_lock refusing_backend [] \<lparr>pe_random = (\<lambda>_. 0), pe_spent = (\<lambda>_. 1)\<rparr> 0))
       (quiet_call 1 (io_backend_of refusing_backend [])) ''k'' 2 (succ_wrapper [])) = Inl (PyExn ''HTTPStatusError'' [])"
  using refused_lock_reaches_caller [of refusing_backend "''k''" "succ_wrapper []" "map_response 400 [] None"
      "os_backend (w_op (succ_wrapper []))" succ_program "succ_config False" "io_backend_of refusing_backend []" "[]"
      "\<lparr>pe_random = (\<lambda>_. 0), pe_spent = (\<lambda>_. 1)\<rparr>" 0 "quiet_call 1 (io_backend_of refusing_backend [])" 2]
  by (simp add: refusing_backend_def map_response_def map_io_backend_def)

end
