(* ===== verification/Configuration.thy ===== *)
theory Configuration
  imports Encryption Interop
begin

text \<open>
  Configuration of decorators: the nested groups and their validation (\<^verbatim>\<open>config/nested.py\<close>, \<^verbatim>\<open>config/validation.py\<close>), the unified
  configuration with its presets (\<^verbatim>\<open>config/decorator.py\<close>) and the dispatch of \<^verbatim>\<open>@cache\<close> (\<^verbatim>\<open>decorators/intent.py\<close>). Keyword
  arguments are association lists of dynamically typed values; a configuration is the list of its fields.
\<close>

section \<open>Values\<close>

text \<open>Callables and backends are known by an identifier; \<open>AOther\<close> is an object that is true and not a number.\<close>

datatype atom = ANone | ABool bool | ANum pyfloat | AStr string | AFun nat | ABackend nat | AOther

definition truthy :: "atom \<Rightarrow> bool" where
  "truthy a = (case a of ANone \<Rightarrow> False | ABool b \<Rightarrow> b | ANum x \<Rightarrow> x \<noteq> Fin 0 | AStr s \<Rightarrow> s \<noteq> [] | _ \<Rightarrow> True)"

definition as_number :: "atom \<Rightarrow> pyfloat option" where
  "as_number a = (case a of ANum x \<Rightarrow> Some x | ABool b \<Rightarrow> Some (Fin (if b then 1 else 0)) | _ \<Rightarrow> None)"

definition pf_less :: "pyfloat \<Rightarrow> pyfloat \<Rightarrow> bool" where
  "pf_less x y \<longleftrightarrow> pf_le x y \<and> \<not> pf_le y x"

definition type_error :: pyexn where "type_error = PyExn ''TypeError'' []"

definition configuration_error :: "string \<Rightarrow> pyexn" where "configuration_error = PyExn ''ConfigurationError''"

text \<open>\<^verbatim>\<open>x < bound\<close> on a value that may not be a number.\<close>

definition refuse_below :: "string \<Rightarrow> real \<Rightarrow> atom \<Rightarrow> pyexn + unit" where
  "refuse_below msg bound a =
     (case as_number a of
        None \<Rightarrow> Inl type_error
      | Some x \<Rightarrow> if pf_less x (Fin bound) then Inl (configuration_error msg) else Inr ())"

fun all_checks :: "(pyexn + unit) list \<Rightarrow> pyexn + unit" where
  "all_checks [] = Inr ()"
| "all_checks (Inl e # cs) = Inl e"
| "all_checks (Inr u # cs) = all_checks cs"

lemma all_checks_Inr: "all_checks cs = Inr () \<longleftrightarrow> (\<forall>c \<in> set cs. c = Inr ())"
  by (induction cs rule: all_checks.induct) auto

section \<open>Nested groups\<close>

record l1_settings =
  l1s_enabled :: atom
  l1s_max_size_mb :: atom
  l1s_swr_enabled :: atom
  l1s_swr_threshold_ratio :: atom

definition default_l1_settings :: l1_settings where
  "default_l1_settings = \<lparr>l1s_enabled = ABool True, l1s_max_size_mb = ANone, l1s_swr_enabled = ABool True,
     l1s_swr_threshold_ratio = ANum (Fin (1 / 2))\<rparr>"

definition validate_l1 :: "l1_settings \<Rightarrow> pyexn + unit" where
  "validate_l1 c = all_checks
     [if l1s_max_size_mb c = ANone then Inr () else refuse_below ''L1 max_size_mb must be >= 1'' 1 (l1s_max_size_mb c),
      case as_number (l1s_swr_threshold_ratio c) of
        None \<Rightarrow> Inl type_error
      | Some x \<Rightarrow> if pf_less (Fin 0) x \<and> pf_le x (Fin 1) then Inr () else Inl (configuration_error ''L1 swr_threshold_ratio must be in (0.0, 1.0]'')]"

record breaker_settings =
  brs_enabled :: atom
  brs_failure_threshold :: atom
  brs_success_threshold :: atom
  brs_recovery_timeout :: atom
  brs_half_open_requests :: atom

definition default_breaker_settings :: breaker_settings where
  "default_breaker_settings = \<lparr>brs_enabled = ABool True, brs_failure_threshold = ANum (Fin 5), brs_success_threshold = ANum (Fin 3),
     brs_recovery_timeout = ANum (Fin 30), brs_half_open_requests = ANum (Fin 3)\<rparr>"

definition validate_breaker :: "breaker_settings \<Rightarrow> pyexn + unit" where
  "validate_breaker c = all_checks
     [refuse_below ''failure_threshold must be >= 1'' 1 (brs_failure_threshold c),
      refuse_below ''success_threshold must be >= 1'' 1 (brs_success_threshold c),
      refuse_below ''half_open_requests must be >= 1'' 1 (brs_half_open_requests c)]"

record pressure_settings =
  prs_enabled :: atom
  prs_max_concurrent_requests :: atom
  prs_queue_size :: atom
  prs_timeout :: atom

definition default_pressure_settings :: pressure_settings where
  "default_pressure_settings = \<lparr>prs_enabled = ABool True, prs_max_concurrent_requests = ANum (Fin 100), prs_queue_size = ANum (Fin 1000),
     prs_timeout = ANum (Fin (1 / 10))\<rparr>"

definition validate_pressure :: "pressure_settings \<Rightarrow> pyexn + unit" where
  "validate_pressure c = refuse_below ''max_concurrent_requests must be >= 1'' 1 (prs_max_concurrent_requests c)"

record monitoring_settings =
  mos_collect_stats :: bool
  mos_enable_tracing :: bool
  mos_enable_structured_logging :: bool
  mos_enable_prometheus_metrics :: bool

definition default_monitoring_settings :: monitoring_settings where
  "default_monitoring_settings = \<lparr>mos_collect_stats = True, mos_enable_tracing = True, mos_enable_structured_logging = True,
     mos_enable_prometheus_metrics = True\<rparr>"

record encryption_settings =
  ens_enabled :: atom
  ens_master_key :: atom
  ens_tenant_extractor :: atom
  ens_single_tenant_mode :: atom
  ens_deployment_uuid :: atom
  ens_fail_closed :: atom

definition default_encryption_settings :: encryption_settings where
  "default_encryption_settings = \<lparr>ens_enabled = ANone, ens_master_key = ANone, ens_tenant_extractor = ANone,
     ens_single_tenant_mode = ABool False, ens_deployment_uuid = ANone, ens_fail_closed = ANone\<rparr>"

text \<open>The parts of the environment the configuration reads: the master key of the settings, the API key, and what constructing the
  CacheKit.io backend from the environment gives.\<close>

record config_env =
  cenv_master_key :: "string option"
  cenv_api_key :: bool
  cenv_io_backend :: "pyexn + nat"
  cenv_redis_url :: bool

definition resolve_master_key :: "config_env \<Rightarrow> encryption_settings \<Rightarrow> atom" where
  "resolve_master_key ev c =
     (if truthy (ens_master_key c) then ens_master_key c
      else if truthy_str (cenv_master_key ev) then AStr (the (cenv_master_key ev)) else ANone)"

definition validate_encryption :: "config_env \<Rightarrow> encryption_settings \<Rightarrow> pyexn + unit" where
  "validate_encryption ev c =
     (if truthy (ens_enabled c) \<and> \<not> truthy (resolve_master_key ev c)
      then Inl (configuration_error ''encryption.enabled=True requires encryption.master_key'')
      else if truthy (ens_enabled c) \<and> \<not> truthy (ens_tenant_extractor c) \<and> \<not> truthy (ens_single_tenant_mode c)
      then Inl (configuration_error ''Encryption requires explicit tenant mode'')
      else if truthy (ens_enabled c) \<and> truthy (ens_tenant_extractor c) \<and> truthy (ens_single_tenant_mode c)
      then Inl (configuration_error ''Cannot use both tenant_extractor and single_tenant_mode'')
      else Inr ())"

text \<open>The check of the serialization handler; its result is the resolved key.\<close>

definition validate_encryption_config :: "config_env \<Rightarrow> bool option \<Rightarrow> string option \<Rightarrow> pyexn + unit" where
  "validate_encryption_config ev encryption master_key =
     (if encryption \<noteq> Some True then Inr ()
      else
        let resolved = (if truthy_str master_key then master_key else cenv_master_key ev) in
        if \<not> truthy_str resolved then Inl (configuration_error ''Master key required when encryption=True'')
        else (case fromhex (the resolved) of
                None \<Rightarrow> Inl (configuration_error ''CACHEKIT_MASTER_KEY must be hex-encoded'')
              | Some k \<Rightarrow>
                  if length k < 32 then Inl (configuration_error ''CACHEKIT_MASTER_KEY must be at least 32 bytes (256 bits)'') else Inr ()))"

section \<open>The unified configuration\<close>

datatype oval = OAtom atom | OL1 l1_settings | OBreaker breaker_settings | OPressure pressure_settings
  | OMonitoring monitoring_settings | OEncryption encryption_settings

type_synonym kwargs = "(string \<times> oval) list"

definition default_fields :: kwargs where
  "default_fields =
     [(''ttl'', OAtom ANone), (''stale_ttl'', OAtom ANone), (''swr_by_default'', OAtom (ABool False)), (''namespace'', OAtom ANone),
      (''serializer'', OAtom (AStr ''default'')), (''integrity_checking'', OAtom (ABool True)), (''key'', OAtom ANone),
      (''interop'', OAtom ANone), (''refresh_ttl_on_get'', OAtom (ABool False)), (''ttl_refresh_threshold'', OAtom (ANum (Fin (1 / 2)))),
      (''backend'', OAtom ANone), (''l1'', OL1 default_l1_settings), (''circuit_breaker'', OBreaker default_breaker_settings),
      (''backpressure'', OPressure default_pressure_settings), (''monitoring'', OMonitoring default_monitoring_settings),
      (''encryption'', OEncryption default_encryption_settings)]"

definition field :: "kwargs \<Rightarrow> string \<Rightarrow> oval" where
  "field c k = (case map_of c k of None \<Rightarrow> OAtom ANone | Some v \<Rightarrow> v)"

definition check_ttl :: "oval \<Rightarrow> pyexn + unit" where
  "check_ttl v =
     (if v = OAtom ANone then Inr ()
      else case v of
             OAtom a \<Rightarrow>
               (case as_number a of
                  None \<Rightarrow> Inl type_error
                | Some (Fin x) \<Rightarrow> if x < 0 then Inl (PyExn ''ValueError'' ''ttl must be non-negative'') else Inr ()
                | Some _ \<Rightarrow> Inl (PyExn ''ValueError'' ''ttl must be a finite number''))
           | _ \<Rightarrow> Inl type_error)"

definition check_threshold :: "oval \<Rightarrow> pyexn + unit" where
  "check_threshold v =
     (case v of
        OAtom a \<Rightarrow>
          (case as_number a of
             None \<Rightarrow> Inl type_error
           | Some x \<Rightarrow> if pf_le (Fin 0) x \<and> pf_le x (Fin 1) then Inr () else Inl (configuration_error ''ttl_refresh_threshold must be 0.0-1.0''))
      | _ \<Rightarrow> Inl type_error)"

definition segment_of :: "oval \<Rightarrow> ikey" where
  "segment_of v = (case v of OAtom (AStr s) \<Rightarrow> KeyStr (ucs s) | _ \<Rightarrow> KeyOther [])"

definition check_interop :: "kwargs \<Rightarrow> pyexn + unit" where
  "check_interop c =
     (if field c ''interop'' = OAtom ANone then Inr ()
      else case validate_interop_config (segment_of (field c ''interop''))
                  (if field c ''namespace'' = OAtom ANone then None else Some (segment_of (field c ''namespace'')))
                  (field c ''key'' \<noteq> OAtom ANone) of
             Inl e \<Rightarrow> Inl (configuration_error (exn_str e))
           | Inr _ \<Rightarrow> Inr ())"

text \<open>A group that is not of its class has no \<^verbatim>\<open>validate\<close> method.\<close>

definition no_attribute :: pyexn where "no_attribute = PyExn ''AttributeError'' []"

definition check_group :: "config_env \<Rightarrow> oval \<Rightarrow> pyexn + unit" where
  "check_group ev v =
     (case v of
        OL1 c \<Rightarrow> validate_l1 c
      | OBreaker c \<Rightarrow> validate_breaker c
      | OPressure c \<Rightarrow> validate_pressure c
      | OMonitoring c \<Rightarrow> Inr ()
      | OEncryption c \<Rightarrow> validate_encryption ev c
      | OAtom a \<Rightarrow> Inl no_attribute)"

definition validate_config :: "config_env \<Rightarrow> kwargs \<Rightarrow> pyexn + unit" where
  "validate_config ev c = all_checks
     [check_ttl (field c ''ttl''), check_threshold (field c ''ttl_refresh_threshold''), check_interop c,
      check_group ev (field c ''l1''), check_group ev (field c ''circuit_breaker''), check_group ev (field c ''backpressure''),
      check_group ev (field c ''monitoring''), check_group ev (field c ''encryption'')]"

text \<open>\<^verbatim>\<open>cls(...)\<close> with keyword arguments of the call and \<^verbatim>\<open>**kwargs\<close>: a name given twice or unknown is a \<^verbatim>\<open>TypeError\<close>.\<close>

definition new_config :: "config_env \<Rightarrow> kwargs \<Rightarrow> kwargs \<Rightarrow> pyexn + kwargs" where
  "new_config ev given kwargs =
     (if list_ex (\<lambda>(k, v). map_of given k \<noteq> None) kwargs \<or> list_ex (\<lambda>(k, v). map_of default_fields k = None) kwargs
      then Inl type_error
      else
        let c = fold (\<lambda>(k, v). AList.update k v) (given @ kwargs) default_fields in
        case validate_config ev c of Inl e \<Rightarrow> Inl e | Inr u \<Rightarrow> Inr c)"

text \<open>\<^verbatim>\<open>dataclasses.replace\<close> on a configuration.\<close>

definition replace_config :: "config_env \<Rightarrow> kwargs \<Rightarrow> kwargs \<Rightarrow> pyexn + kwargs" where
  "replace_config ev c kwargs =
     (if list_ex (\<lambda>(k, v). map_of default_fields k = None) kwargs then Inl type_error
      else
        let c1 = fold (\<lambda>(k, v). AList.update k v) kwargs c in
        case validate_config ev c1 of Inl e \<Rightarrow> Inl e | Inr u \<Rightarrow> Inr c1)"

definition monitoring_all :: "bool \<Rightarrow> monitoring_settings" where
  "monitoring_all b = \<lparr>mos_collect_stats = b, mos_enable_tracing = b, mos_enable_structured_logging = b, mos_enable_prometheus_metrics = b\<rparr>"

definition preset_groups :: "bool \<Rightarrow> bool \<Rightarrow> bool \<Rightarrow> bool \<Rightarrow> monitoring_settings \<Rightarrow> kwargs" where
  "preset_groups integrity swr breaker pressure monitoring =
     [(''integrity_checking'', OAtom (ABool integrity)),
      (''l1'', OL1 (default_l1_settings\<lparr>l1s_enabled := ABool True, l1s_swr_enabled := ABool swr\<rparr>)),
      (''circuit_breaker'', OBreaker (default_breaker_settings\<lparr>brs_enabled := ABool breaker\<rparr>)),
      (''backpressure'', OPressure (default_pressure_settings\<lparr>prs_enabled := ABool pressure\<rparr>)),
      (''monitoring'', OMonitoring monitoring)]"

definition preset_minimal where "preset_minimal ev kwargs = new_config ev (preset_groups False False False True (monitoring_all False)) kwargs"
definition preset_production where "preset_production ev kwargs = new_config ev (preset_groups True True True True (monitoring_all True)) kwargs"
definition preset_dev where
  "preset_dev ev kwargs = new_config ev (preset_groups True True True True ((monitoring_all True)\<lparr>mos_enable_prometheus_metrics := False\<rparr>)) kwargs"
definition preset_test where "preset_test ev kwargs = new_config ev (preset_groups False False False False (monitoring_all False)) kwargs"

definition atom_of :: "oval \<Rightarrow> atom" where
  "atom_of v = (case v of OAtom a \<Rightarrow> a | _ \<Rightarrow> AOther)"

definition popped :: "string \<Rightarrow> kwargs \<Rightarrow> atom" where
  "popped k kwargs = atom_of (field kwargs k)"

definition preset_secure :: "config_env \<Rightarrow> atom \<Rightarrow> atom \<Rightarrow> kwargs \<Rightarrow> pyexn + kwargs" where
  "preset_secure ev master_key tenant_extractor kwargs =
     (let explicit_single_tenant = popped ''single_tenant_mode'' kwargs;
          kwargs1 = fold AList.delete [''single_tenant_mode'', ''deployment_uuid'', ''fail_closed'', ''integrity_checking''] kwargs;
          extractor = (if truthy tenant_extractor then tenant_extractor else ANone);
          single = (if explicit_single_tenant \<noteq> ANone then explicit_single_tenant else ABool (extractor = ANone))
      in new_config ev
           (preset_groups True True True True (monitoring_all True)
            @ [(''encryption'', OEncryption \<lparr>ens_enabled = ABool True, ens_master_key = master_key, ens_tenant_extractor = extractor,
                  ens_single_tenant_mode = single, ens_deployment_uuid = popped ''deployment_uuid'' kwargs,
                  ens_fail_closed = popped ''fail_closed'' kwargs\<rparr>)]) kwargs1)"

definition preset_io :: "config_env \<Rightarrow> kwargs \<Rightarrow> pyexn + kwargs" where
  "preset_io ev kwargs =
     (if \<not> cenv_api_key ev then Inl (configuration_error ''CACHEKIT_API_KEY environment variable required for @cache.io'')
      else case cenv_io_backend ev of
             Inl e \<Rightarrow> Inl e
           | Inr b \<Rightarrow> new_config ev ([(''backend'', OAtom (ABackend b)), (''swr_by_default'', OAtom (ABool True))]
                @ preset_groups True True True True (monitoring_all True)) kwargs)"

text \<open>The three tiers of the module-level resolution; the result of the last one is a fresh Redis backend.\<close>

definition resolve_backend_tiers :: "config_env \<Rightarrow> atom option \<Rightarrow> atom \<Rightarrow> nat \<Rightarrow> pyexn + atom" where
  "resolve_backend_tiers ev explicit default_backend fresh =
     (case explicit of
        Some b \<Rightarrow> Inr b
      | None \<Rightarrow>
          if default_backend \<noteq> ANone then Inr default_backend
          else if cenv_redis_url ev then Inr (ABackend fresh)
          else Inl (configuration_error ''No backend configured.''))"

definition to_dict_fields :: "kwargs \<Rightarrow> (string \<times> atom) list" where
  "to_dict_fields c =
     [(k, atom_of (field c k)). k \<leftarrow> [''ttl'', ''namespace'', ''serializer'', ''key'', ''refresh_ttl_on_get'', ''ttl_refresh_threshold'', ''backend'']]
     @ (case field c ''l1'' of OL1 l \<Rightarrow> [(''l1_enabled'', l1s_enabled l), (''l1_max_size_mb'', l1s_max_size_mb l)] | _ \<Rightarrow> [])
     @ (case field c ''circuit_breaker'' of
          OBreaker b \<Rightarrow> [(''circuit_breaker'', brs_enabled b), (''failure_threshold'', brs_failure_threshold b),
            (''success_threshold'', brs_success_threshold b), (''recovery_timeout'', brs_recovery_timeout b),
            (''half_open_requests'', brs_half_open_requests b)]
        | _ \<Rightarrow> [])
     @ (case field c ''backpressure'' of
          OPressure p \<Rightarrow> [(''backpressure'', prs_enabled p), (''max_concurrent_requests'', prs_max_concurrent_requests p),
            (''queue_size'', prs_queue_size p), (''backpressure_timeout'', prs_timeout p)]
        | _ \<Rightarrow> [])
     @ (case field c ''monitoring'' of
          OMonitoring m \<Rightarrow> [(''collect_stats'', ABool (mos_collect_stats m)), (''enable_tracing'', ABool (mos_enable_tracing m)),
            (''enable_structured_logging'', ABool (mos_enable_structured_logging m)), (''enable_prometheus_metrics'', ABool (mos_enable_prometheus_metrics m))]
        | _ \<Rightarrow> [])
     @ (case field c ''encryption'' of
          OEncryption e \<Rightarrow> [(''encryption'', ens_enabled e), (''master_key'', if truthy (ens_master_key e) then AStr ''[REDACTED]'' else ANone),
            (''tenant_extractor'', ens_tenant_extractor e)]
        | _ \<Rightarrow> [])"

end
