(* ===== verification/Settings.thy ===== *)
theory Settings
  imports Configuration CachekitIO_Config
begin

text \<open>
  The global settings (\<^verbatim>\<open>config/settings.py\<close>) with the bounds of their fields, the keyring rules, the redaction of validation errors and of
  every printed form, and the lazily built instance that heals itself (\<^verbatim>\<open>config/singleton.py\<close>). Loading the environment is a parameter.
\<close>

datatype arrow_codec = Zstd | Lz4 | NoCodec

record settings =
  st_arrow_compression :: arrow_codec
  st_retry_on_timeout :: bool
  st_max_retries :: int
  st_retry_delay_ms :: int
  st_early_refresh_ratio :: real
  st_enable_corruption_detection :: bool
  st_enable_prometheus_metrics :: bool
  st_default_ttl :: int
  st_ttl_min :: int
  st_ttl_max :: int
  st_max_key_size :: int
  st_max_value_size :: int
  st_l1_enabled :: bool
  st_l1_max_size_mb :: int
  st_l1_cleanup_interval_seconds :: int
  st_log_sampling_rate :: real
  st_log_buffer_size :: int
  st_log_batch_size :: int
  st_log_flush_interval :: real
  st_deployment_uuid :: "string option"
  st_dev_mode :: bool
  st_master_key :: "string option"
  st_previous_master_keys :: "string list"
  st_fail_closed :: bool
  st_backend_provider_class :: "string option"

definition default_settings :: settings where
  "default_settings = \<lparr>st_arrow_compression = Zstd, st_retry_on_timeout = True, st_max_retries = 3, st_retry_delay_ms = 100,
     st_early_refresh_ratio = 9 / 10, st_enable_corruption_detection = True, st_enable_prometheus_metrics = True,
     st_default_ttl = 3600, st_ttl_min = 60, st_ttl_max = 86400, st_max_key_size = 1024, st_max_value_size = 104857600,
     st_l1_enabled = True, st_l1_max_size_mb = 100, st_l1_cleanup_interval_seconds = 30,
     st_log_sampling_rate = 1 / 10, st_log_buffer_size = 10000, st_log_batch_size = 100, st_log_flush_interval = 1,
     st_deployment_uuid = None, st_dev_mode = False, st_master_key = None, st_previous_master_keys = [], st_fail_closed = False,
     st_backend_provider_class = None\<rparr>"

text \<open>
  A validation error of pydantic: its kind, where it is, and the raw input it carries. The input of an error of the whole model is every
  value the settings were loaded from, the keys included.
\<close>

datatype vinput = IntInput int | RealInput real | ModelInput settings | Redacted

record verror =
  ve_type :: string
  ve_loc :: "string list"
  ve_input :: vinput

definition positive :: "string \<Rightarrow> int \<Rightarrow> verror list" where
  "positive name n = (if n > 0 then [] else [\<lparr>ve_type = ''greater_than'', ve_loc = [name], ve_input = IntInput n\<rparr>])"

definition unit_interval :: "string \<Rightarrow> real \<Rightarrow> verror list" where
  "unit_interval name r =
     (if r < 0 then [\<lparr>ve_type = ''greater_than_equal'', ve_loc = [name], ve_input = RealInput r\<rparr>]
      else if r > 1 then [\<lparr>ve_type = ''less_than_equal'', ve_loc = [name], ve_input = RealInput r\<rparr>] else [])"

definition field_errors :: "settings \<Rightarrow> verror list" where
  "field_errors st =
     (if st_max_retries st < 0 then [\<lparr>ve_type = ''greater_than_equal'', ve_loc = [''max_retries''], ve_input = IntInput (st_max_retries st)\<rparr>] else [])
     @ positive ''retry_delay_ms'' (st_retry_delay_ms st)
     @ unit_interval ''early_refresh_ratio'' (st_early_refresh_ratio st)
     @ positive ''default_ttl'' (st_default_ttl st) @ positive ''ttl_min'' (st_ttl_min st) @ positive ''ttl_max'' (st_ttl_max st)
     @ positive ''max_key_size'' (st_max_key_size st) @ positive ''max_value_size'' (st_max_value_size st)
     @ positive ''l1_max_size_mb'' (st_l1_max_size_mb st) @ positive ''l1_cleanup_interval_seconds'' (st_l1_cleanup_interval_seconds st)
     @ unit_interval ''log_sampling_rate'' (st_log_sampling_rate st)
     @ positive ''log_buffer_size'' (st_log_buffer_size st) @ positive ''log_batch_size'' (st_log_batch_size st)
     @ (if st_log_flush_interval st > 0 then []
        else [\<lparr>ve_type = ''greater_than'', ve_loc = [''log_flush_interval''], ve_input = RealInput (st_log_flush_interval st)\<rparr>])"

definition MAX_PREVIOUS_MASTER_KEYS :: nat where "MAX_PREVIOUS_MASTER_KEYS = 3"

text \<open>\<^verbatim>\<open>str.strip\<close> on ASCII white space.\<close>

definition strip_space :: "string \<Rightarrow> string" where
  "strip_space s = rev (dropWhile ascii_space (rev (dropWhile ascii_space s)))"

definition split_previous_master_keys :: "string \<Rightarrow> string list" where
  "split_previous_master_keys value = [strip_space item. item \<leftarrow> split_on CHR '','' value, strip_space item \<noteq> []]"

fun previous_key_bytes :: "string list \<Rightarrow> pyexn + bytes list" where
  "previous_key_bytes [] = Inr []"
| "previous_key_bytes (k # ks) =
     (case fromhex k of
        None \<Rightarrow> Inl (PyExn ''ValueError'' ''previous_master_keys is not valid hex'')
      | Some b \<Rightarrow>
          if length b < 32 then Inl (PyExn ''ValueError'' ''previous_master_keys must be at least 32 bytes (256 bits) decoded'')
          else (case previous_key_bytes ks of Inl e \<Rightarrow> Inl e | Inr bs \<Rightarrow> Inr (b # bs)))"

definition validate_previous_master_keys :: "settings \<Rightarrow> pyexn + unit" where
  "validate_previous_master_keys st =
     (if length (st_previous_master_keys st) > MAX_PREVIOUS_MASTER_KEYS
      then Inl (PyExn ''ValueError'' ''previous_master_keys accepts at most 3 decrypt-only keys'')
      else case previous_key_bytes (st_previous_master_keys st) of
             Inl e \<Rightarrow> Inl e
           | Inr bs \<Rightarrow>
               (case st_master_key st of
                  None \<Rightarrow> Inr ()
                | Some k \<Rightarrow>
                    (case fromhex k of
                       None \<Rightarrow> Inr ()
                     | Some b \<Rightarrow>
                         if b \<in> set bs then Inl (PyExn ''ValueError'' ''master_key must not appear in previous_master_keys'') else Inr ())))"

definition validate_interdependent_fields :: "settings \<Rightarrow> pyexn + unit" where
  "validate_interdependent_fields st =
     (if st_default_ttl st < st_ttl_min st then Inl (PyExn ''ValueError'' ''default_ttl cannot be less than ttl_min'')
      else if st_default_ttl st > st_ttl_max st then Inl (PyExn ''ValueError'' ''default_ttl cannot be greater than ttl_max'')
      else Inr ())"

text \<open>
  Construction. The fields are checked one by one and every violation is collected; the validators of the whole model run in their order
  only when the fields are right, and the first one that raises ends the validation.
\<close>

definition validate_settings :: "settings \<Rightarrow> verror list + settings" where
  "validate_settings st =
     (if field_errors st \<noteq> [] then Inl (field_errors st)
      else case all_checks [validate_previous_master_keys st, validate_interdependent_fields st] of
             Inl e \<Rightarrow> Inl [\<lparr>ve_type = ''value_error'', ve_loc = [], ve_input = ModelInput st\<rparr>]
           | Inr u \<Rightarrow> Inr st)"

definition sanitize :: "verror \<Rightarrow> verror" where
  "sanitize err = err\<lparr>ve_input := Redacted\<rparr>"

definition new_settings :: "settings \<Rightarrow> verror list + settings" where
  "new_settings st = (case validate_settings st of Inl errs \<Rightarrow> Inl (map sanitize errs) | Inr st \<Rightarrow> Inr st)"

text \<open>The two fields that \<^verbatim>\<open>repr\<close> and \<^verbatim>\<open>str\<close> mask, and those of the dictionary for logs; an empty key is not masked there.\<close>

datatype printed = PrNone | PrRedacted | PrKeysRedacted nat | PrEmptyKey | PrNoKeys

definition masked_keys :: "settings \<Rightarrow> (string \<times> printed) list" where
  "masked_keys st =
     [(''master_key'', if st_master_key st = None then PrNone else PrRedacted),
      (''previous_master_keys'', PrKeysRedacted (length (st_previous_master_keys st)))]"

definition get_safe_repr :: "settings \<Rightarrow> (string \<times> printed) list" where
  "get_safe_repr st =
     [(''master_key'', case st_master_key st of None \<Rightarrow> PrNone | Some k \<Rightarrow> if k = [] then PrEmptyKey else PrRedacted),
      (''previous_master_keys'', if st_previous_master_keys st = [] then PrNoKeys else PrKeysRedacted (length (st_previous_master_keys st)))]"

text \<open>
  The global instance. \<open>from_env\<close> is what the environment yields now and \<open>env_key\<close> whether the master key is in it; an instance built
  before the key appeared is rebuilt.
\<close>

definition get_settings :: "verror list + settings \<Rightarrow> bool \<Rightarrow> settings option \<Rightarrow> (verror list + settings) \<times> settings option" where
  "get_settings from_env env_key inst =
     (let rebuild = (case from_env of Inl e \<Rightarrow> (Inl e, inst) | Inr st \<Rightarrow> (Inr st, Some st)) in
      case inst of
        None \<Rightarrow> rebuild
      | Some st \<Rightarrow> if st_master_key st = None \<and> env_key then rebuild else (Inr st, inst))"

definition reset_settings :: "settings option \<Rightarrow> settings option" where
  "reset_settings inst = None"

lemma previous_key_bytes_ok:
  "previous_key_bytes ks = Inr bs \<Longrightarrow> length bs = length ks \<and> (\<forall>b \<in> set bs. 32 \<le> length b) \<and> map Some bs = map fromhex ks"
  by (induction ks arbitrary: bs) (auto split: option.splits if_splits sum.splits)

text \<open>
  C28: Settings that are accepted have a sound keyring: at most three previous keys, each of them hexadecimal text of at least 32 bytes,
  none of them the current key (compared as bytes, so that spelling does not matter), and a default TTL within its bounds.
\<close>

theorem settings_keyring_sound:
  assumes "new_settings st0 = Inr st"
  shows "length (st_previous_master_keys st) \<le> 3
    \<and> list_all (\<lambda>k. case fromhex k of None \<Rightarrow> False | Some b \<Rightarrow> 32 \<le> length b \<and> (case st_master_key st of None \<Rightarrow> True | Some m \<Rightarrow> fromhex m \<noteq> Some b))
        (st_previous_master_keys st)
    \<and> st_ttl_min st \<le> st_default_ttl st \<and> st_default_ttl st \<le> st_ttl_max st"
proof -
  have st: "st = st0" and v: "validate_previous_master_keys st0 = Inr ()" "validate_interdependent_fields st0 = Inr ()"
    using assms by (auto simp: new_settings_def validate_settings_def all_checks_Inr split: if_splits sum.splits)
  obtain bs where bs: "previous_key_bytes (st_previous_master_keys st) = Inr bs" and len: "length (st_previous_master_keys st) \<le> 3"
    using v(1) st by (auto simp: validate_previous_master_keys_def MAX_PREVIOUS_MASTER_KEYS_def split: if_splits sum.splits)
  have m: "b \<notin> set bs" if "st_master_key st = Some k" "fromhex k = Some b" for k b
    using v(1) st bs that by (auto simp: validate_previous_master_keys_def split: if_splits)
  have "list_all (\<lambda>k. case fromhex k of None \<Rightarrow> False | Some b \<Rightarrow> 32 \<le> length b \<and> (case st_master_key st of None \<Rightarrow> True | Some m \<Rightarrow> fromhex m \<noteq> Some b))
      (st_previous_master_keys st)"
    unfolding list_all_iff
  proof
    fix k assume "k \<in> set (st_previous_master_keys st)"
    then have "fromhex k \<in> set (map Some bs)" using previous_key_bytes_ok [OF bs] by simp
    then obtain b where "fromhex k = Some b" "b \<in> set bs" by auto
    then show "case fromhex k of None \<Rightarrow> False | Some b \<Rightarrow> 32 \<le> length b \<and> (case st_master_key st of None \<Rightarrow> True | Some m \<Rightarrow> fromhex m \<noteq> Some b)"
      using previous_key_bytes_ok [OF bs] m by (auto split: option.split)
  qed
  with len v(2) st show ?thesis by (auto simp: validate_interdependent_fields_def split: if_splits)
qed

definition demo_settings :: settings where
  "demo_settings = default_settings\<lparr>st_master_key := Some (concat (replicate 32 ''ab'')), st_previous_master_keys := [concat (replicate 32 ''cd'')]\<rparr>"

theorem settings_keyring_sound_witness:
  "new_settings demo_settings = Inr demo_settings \<and> length (st_previous_master_keys demo_settings) \<le> 3"
proof -
  have f: "fromhex (concat (replicate 32 ''cd'')) = Some (replicate 32 (205::byte))" "fromhex (concat (replicate 32 ''ab'')) = Some (replicate 32 (171::byte))"
    by code_simp+
  have n: "new_settings demo_settings = Inr demo_settings"
    using f by (simp add: new_settings_def validate_settings_def field_errors_def positive_def unit_interval_def demo_settings_def default_settings_def
        validate_previous_master_keys_def MAX_PREVIOUS_MASTER_KEYS_def validate_interdependent_fields_def)
  from settings_keyring_sound [OF this] n show ?thesis by blast
qed

text \<open>
  No key leaves the settings through a validation error. The errors of a failed construction have the kinds and places of the original
  ones, and none of them carries an input, in particular not the whole model that a rejected keyring would bring along.
\<close>

theorem validation_errors_redacted:
  assumes "new_settings st = Inl errs"
  shows "errs \<noteq> [] \<and> set (map ve_input errs) = {Redacted}
    \<and> (\<exists>raw. validate_settings st = Inl raw \<and> map (\<lambda>e. (ve_type e, ve_loc e)) errs = map (\<lambda>e. (ve_type e, ve_loc e)) raw)"
proof -
  obtain raw where raw: "validate_settings st = Inl raw" "errs = map sanitize raw"
    using assms by (auto simp: new_settings_def split: sum.splits)
  then have "raw \<noteq> []" by (auto simp: validate_settings_def split: if_splits sum.splits)
  with raw show ?thesis by (cases raw) (auto simp: sanitize_def)
qed

theorem validation_errors_redacted_witness:
  "\<exists>errs. new_settings (default_settings\<lparr>st_default_ttl := 5\<rparr>) = Inl errs \<and> set (map ve_input errs) = {Redacted}"
proof -
  obtain errs where "new_settings (default_settings\<lparr>st_default_ttl := 5\<rparr>) = Inl errs"
    by (simp add: new_settings_def validate_settings_def field_errors_def positive_def unit_interval_def default_settings_def
        validate_previous_master_keys_def MAX_PREVIOUS_MASTER_KEYS_def validate_interdependent_fields_def)
  with validation_errors_redacted [OF this] show ?thesis by blast
qed

text \<open>The instance heals itself: once the key is in the environment, every later call returns settings that have it.\<close>

lemma get_settings_heals:
  assumes "get_settings from_env True inst = (Inr st, inst')" "\<And>st. from_env = Inr st \<Longrightarrow> st_master_key st \<noteq> None"
  shows "st_master_key st \<noteq> None \<and> inst' = Some st \<and> get_settings from_env' b inst' = (Inr st, inst')"
  using assms by (auto simp: get_settings_def Let_def split: option.splits sum.splits if_splits)

end
