(* ===== verification/Decorator_Front.thy ===== *)
theory Decorator_Front
  imports Settings
begin

text \<open>
  The front end of the decorators: the dispatch of \<^verbatim>\<open>@cache\<close> and its presets (\<^verbatim>\<open>decorators/intent.py\<close>) and the extraction of tenants
  (\<^verbatim>\<open>decorators/tenant_context.py\<close>).
\<close>

section \<open>Dispatch\<close>

datatype config_arg = NoConfig | GivenConfig kwargs | WrongConfig

text \<open>What is handed on: the arguments of \<^verbatim>\<open>create_local_wrapper\<close>, or a configuration and whether the mode is L1-only.\<close>

datatype resolved = RLocal kwargs | RCached kwargs bool

definition has_key :: "string \<Rightarrow> kwargs \<Rightarrow> bool" where "has_key k ov \<longleftrightarrow> map_of ov k \<noteq> None"

definition map_l1_enabled :: "kwargs \<Rightarrow> (pyexn + unit) \<times> kwargs" where
  "map_l1_enabled ov =
     (if \<not> has_key ''l1_enabled'' ov then (Inr (), ov)
      else
        let rest = AList.delete ''l1'' (AList.delete ''l1_enabled'' ov) in
        case (case map_of ov ''l1'' of None \<Rightarrow> OL1 default_l1_settings | Some v \<Rightarrow> v) of
          OL1 l \<Rightarrow> (Inr (), rest @ [(''l1'', OL1 (l\<lparr>l1s_enabled := popped ''l1_enabled'' ov\<rparr>))])
        | _ \<Rightarrow> (Inl type_error, rest))"

definition enc_keys :: "string list" where
  "enc_keys = [''encryption'', ''master_key'', ''tenant_extractor'', ''single_tenant_mode'', ''deployment_uuid'', ''fail_closed'']"

definition or_default :: "string \<Rightarrow> kwargs \<Rightarrow> atom \<Rightarrow> atom" where
  "or_default k ov d = (if has_key k ov then popped k ov else d)"

definition map_encryption :: "kwargs \<Rightarrow> kwargs" where
  "map_encryption ov =
     (let passthrough = (case map_of ov ''encryption'' of Some (OEncryption e) \<Rightarrow> True | _ \<Rightarrow> False) in
      if passthrough \<or> \<not> list_ex (\<lambda>k. has_key k ov) enc_keys then ov
      else
        let d = default_encryption_settings in
        fold AList.delete enc_keys ov
        @ [(''encryption'', OEncryption \<lparr>ens_enabled = or_default ''encryption'' ov (ens_enabled d),
              ens_master_key = or_default ''master_key'' ov (ens_master_key d),
              ens_tenant_extractor = or_default ''tenant_extractor'' ov (ens_tenant_extractor d),
              ens_single_tenant_mode = or_default ''single_tenant_mode'' ov (ens_single_tenant_mode d),
              ens_deployment_uuid = or_default ''deployment_uuid'' ov (ens_deployment_uuid d),
              ens_fail_closed = or_default ''fail_closed'' ov (ens_fail_closed d)\<rparr>)])"

definition with_backend :: "atom \<Rightarrow> kwargs" where "with_backend b = [(''backend'', OAtom b)]"

text \<open>\<^verbatim>\<open>@cache.secure\<close>: the key of the call or of the settings.\<close>

definition secure_intent :: "config_env \<Rightarrow> atom \<Rightarrow> kwargs \<Rightarrow> (pyexn + kwargs) \<times> kwargs" where
  "secure_intent ev backend ov =
     (let given = popped ''master_key'' ov;
          extractor = popped ''tenant_extractor'' ov;
          ov1 = AList.delete ''tenant_extractor'' (AList.delete ''master_key'' ov);
          master_key = (if truthy given then given
                        else if truthy_str (cenv_master_key ev) then AStr (the (cenv_master_key ev)) else given)
      in if \<not> truthy master_key
         then (Inl (PyExn ''ValueError'' ''cache.secure requires master_key parameter or CACHEKIT_MASTER_KEY environment variable''), ov1)
         else (preset_secure ev master_key (if truthy extractor then extractor else ANone) (with_backend backend @ ov1), ov1))"

text \<open>The inner function \<^verbatim>\<open>decorator\<close>. Its \<^verbatim>\<open>manual_overrides\<close> is one dictionary for every function the decorator is applied to: what is
  left of it is part of the result. \<open>default_backend\<close> is the module-level one.\<close>

definition decorator ::
  "config_env \<Rightarrow> atom \<Rightarrow> config_arg \<Rightarrow> string option \<Rightarrow> kwargs \<Rightarrow> (pyexn + resolved) \<times> kwargs" where
  "decorator ev default_backend config intent ov =
     (if intent = Some ''local'' then
        (if config \<noteq> NoConfig then (Inl type_error, ov) else (Inr (RLocal ov), ov))
      else
        let l1_only = (map_of ov ''backend'' = Some (OAtom ANone));
            given = popped ''backend'' ov;
            ov1 = AList.delete ''backend'' ov;
            backend = (if given = ANone \<and> \<not> l1_only then default_backend else given)
        in case map_l1_enabled ov1 of
             (Inl e, ov2) \<Rightarrow> (Inl e, ov2)
           | (Inr u, ov2) \<Rightarrow>
               (let ov3 = (if config = NoConfig \<and> intent = None then map_encryption ov2 else ov2);
                    done = (\<lambda>r. (case r of Inl e \<Rightarrow> Inl e | Inr c \<Rightarrow> Inr (RCached c l1_only)));
                    args = with_backend backend @ ov3
                in case config of
                     WrongConfig \<Rightarrow> (Inl type_error, ov3)
                   | GivenConfig c \<Rightarrow>
                       (done (if ov3 \<noteq> [] \<or> backend \<noteq> ANone then replace_config ev c (if backend = ANone then ov3 else ov3 @ with_backend backend)
                              else Inr c), ov3)
                   | NoConfig \<Rightarrow>
                       if intent = Some ''minimal'' then (done (preset_minimal ev args), ov3)
                       else if intent = Some ''production'' then (done (preset_production ev args), ov3)
                       else if intent = Some ''secure'' then (case secure_intent ev backend ov3 of (r, ov4) \<Rightarrow> (done r, ov4))
                       else if intent = Some ''dev'' then (done (preset_dev ev args), ov3)
                       else if intent = Some ''test'' then (done (preset_test ev args), ov3)
                       else if intent = Some ''io'' then (done (preset_io ev ov3), ov3)
                       else (done (new_config ev [] args), ov3)))"

section \<open>Tenants\<close>

text \<open>Removing every occurrence of a text, as \<^verbatim>\<open>s.replace(p, "")\<close> does from left to right.\<close>

function remove_all :: "string \<Rightarrow> string \<Rightarrow> string" where
  "remove_all p [] = []"
| "remove_all p (c # s) =
     (if p \<noteq> [] \<and> starts_with p (c # s) then remove_all p (drop (length p) (c # s)) else c # remove_all p s)"
  by pat_completeness auto

termination
  by (relation "measure (\<lambda>(p, s). length s)") (auto simp: Suc_diff_le le_imp_less_Suc)

definition is_hex :: "char \<Rightarrow> bool" where "is_hex c \<longleftrightarrow> hexval c \<noteq> None"

text \<open>The texts \<^verbatim>\<open>int(s, 16)\<close> accepts: white space around, a sign, \<^verbatim>\<open>0x\<close>, single underscores between digits.\<close>

definition int16_digits :: "string \<Rightarrow> string option" where
  "int16_digits s =
     (let t = strip_space s;
          u = (if t \<noteq> [] \<and> hd t \<in> {CHR ''+'', CHR ''-''} then tl t else t);
          v = (if length u \<ge> 2 \<and> hd u = CHR ''0'' \<and> u ! 1 \<in> {CHR ''x'', CHR ''X''} then drop 2 u else u);
          w = (if v \<noteq> u \<and> v \<noteq> [] \<and> hd v = CHR ''_'' then tl v else v)
      in if list_all (\<lambda>g. g \<noteq> [] \<and> list_all is_hex g) (split_on CHR ''_'' w) then Some (concat (split_on CHR ''_'' w)) else None)"

text \<open>\<^verbatim>\<open>uuid.UUID\<close> on a text.\<close>

definition uuid_text :: "string \<Rightarrow> string" where
  "uuid_text s = remove_all ''-'' (strip_chars ''{}'' (remove_all ''uuid:'' (remove_all ''urn:'' s)))"

definition is_uuid :: "string \<Rightarrow> bool" where
  "is_uuid s \<longleftrightarrow> length (uuid_text s) = 32 \<and> int16_digits (uuid_text s) \<noteq> None"

definition validate_tenant_id_format :: "string \<Rightarrow> pyexn + unit" where
  "validate_tenant_id_format t = (if is_uuid t then Inr () else Inl (PyExn ''ValueError'' ''tenant_id must be valid UUID format''))"

text \<open>The three extractors; a keyword argument is given by its text \<^verbatim>\<open>str(value)\<close>.\<close>

definition argument_name_extract :: "string \<Rightarrow> (string \<times> string) list \<Rightarrow> pyexn + string" where
  "argument_name_extract arg_name kwargs =
     (case map_of kwargs arg_name of
        None \<Rightarrow> Inl (PyExn ''ValueError'' ''Tenant ID argument not found in function kwargs'')
      | Some t \<Rightarrow> (case validate_tenant_id_format t of Inl e \<Rightarrow> Inl e | Inr u \<Rightarrow> Inr t))"

definition callable_extract :: "('g \<Rightarrow> pyexn + string) \<Rightarrow> 'g \<Rightarrow> pyexn + string" where
  "callable_extract f args =
     (case f args of Inl e \<Rightarrow> Inl e | Inr t \<Rightarrow> (case validate_tenant_id_format t of Inl e \<Rightarrow> Inl e | Inr u \<Rightarrow> Inr t))"

definition set_tenant_id :: "string \<Rightarrow> string option \<Rightarrow> (pyexn + unit) \<times> string option" where
  "set_tenant_id t ctx = (case validate_tenant_id_format t of Inl e \<Rightarrow> (Inl e, ctx) | Inr u \<Rightarrow> (Inr (), Some t))"

definition context_extract :: "string option \<Rightarrow> pyexn + string" where
  "context_extract ctx = (case ctx of None \<Rightarrow> Inl (PyExn ''ValueError'' ''Tenant ID not set in context'') | Some t \<Rightarrow> Inr t)"

section \<open>Properties\<close>

lemma fold_update_other: "k \<notin> fst ` set kvs \<Longrightarrow> map_of (fold (\<lambda>(k, v). AList.update k v) kvs c) k = map_of c k"
  by (induction kvs arbitrary: c) (auto simp: update_conv')

lemma new_config_field:
  assumes "new_config ev given kwargs = Inr c" "map_of (rev given) k = Some v"
  shows "field c k = v"
proof -
  have c: "c = fold (\<lambda>(k, v). AList.update k v) kwargs (fold (\<lambda>(k, v). AList.update k v) given default_fields)"
    and no: "\<not> list_ex (\<lambda>(k, v). map_of given k \<noteq> None) kwargs"
    using assms(1) by (auto simp: new_config_def Let_def split: if_splits sum.splits)
  have given: "map_of given k \<noteq> None" using assms(2) by (metis map_of_eq_None_iff option.distinct(1) set_rev)
  then have "k \<notin> fst ` set kwargs" using no by (force simp: list_ex_iff)
  moreover have "map_of (fold (\<lambda>(k, v). AList.update k v) xs d) k = Some v" if "map_of (rev xs) k = Some v" for xs d
    using that
  proof (induction xs arbitrary: d rule: rev_induct)
    case (snoc p xs)
    then show ?case by (cases p) (auto simp: update_conv' split: if_splits)
  qed simp
  ultimately show ?thesis using assms(2) c by (simp add: field_def fold_update_other)
qed

lemma new_config_valid: "new_config ev given kwargs = Inr c \<Longrightarrow> validate_config ev c = Inr ()"
  by (auto simp: new_config_def Let_def split: if_splits sum.splits)


definition demo_env :: config_env where
  "demo_env = \<lparr>cenv_master_key = None, cenv_api_key = False, cenv_io_backend = Inl type_error, cenv_redis_url = False\<rparr>"

lemmas front_simps = decorator_def map_l1_enabled_def map_encryption_def has_key_def popped_def atom_of_def field_def with_backend_def
  secure_intent_def preset_secure_def new_config_def default_fields_def preset_groups_def validate_config_def check_ttl_def
  check_threshold_def check_interop_def check_group_def validate_l1_def validate_breaker_def validate_pressure_def
  validate_encryption_def refuse_below_def as_number_def truthy_def pf_less_def resolve_master_key_def
  default_l1_settings_def default_breaker_settings_def default_pressure_settings_def default_monitoring_settings_def
  default_encryption_settings_def monitoring_all_def enc_keys_def demo_env_def


lemma map_l1_enabled_backend: "map_l1_enabled ov = (r, ov') \<Longrightarrow> map_of ov ''backend'' = None \<Longrightarrow> map_of ov' ''backend'' = None"
  by (auto simp: map_l1_enabled_def Let_def AList.delete_conv' map_add_def split: if_splits oval.splits)

lemma map_of_fold_delete: "map_of ov k = None \<Longrightarrow> map_of (fold AList.delete ks ov) k = None"
  by (induction ks arbitrary: ov) (simp_all add: AList.delete_conv')

lemma map_encryption_backend: "map_of ov ''backend'' = None \<Longrightarrow> map_of (map_encryption ov) ''backend'' = None"
  by (auto simp: map_encryption_def Let_def map_of_fold_delete map_add_def)

lemma secure_intent_backend: "map_of ov ''backend'' = None \<Longrightarrow> map_of (snd (secure_intent ev b ov)) ''backend'' = None"
  by (simp add: secure_intent_def Let_def AList.delete_conv')

lemma decorator_flag:
  assumes "decorator ev default_backend config intent ov = (Inr r, ov')" "intent \<noteq> Some ''local''"
  shows "(\<exists>c. r = RCached c (map_of ov ''backend'' = Some (OAtom ANone))) \<and> map_of ov' ''backend'' = None"
proof -
  obtain u ov2 where m: "map_l1_enabled (AList.delete ''backend'' ov) = (Inr u, ov2)"
    using assms by (auto simp: decorator_def Let_def split: prod.splits sum.splits)
  have b2: "map_of ov2 ''backend'' = None" by (rule map_l1_enabled_backend [OF m]) (simp add: AList.delete_conv')
  note frames = map_encryption_backend [OF b2] secure_intent_backend [OF b2]
  have "map_of ov' ''backend'' = None"
    using assms m b2 frames
    by (auto simp: decorator_def Let_def split: config_arg.splits if_splits prod.splits) (metis snd_conv)+
  moreover have "\<exists>c. r = RCached c (map_of ov ''backend'' = Some (OAtom ANone))"
    using assms m by (auto simp: decorator_def Let_def split: config_arg.splits if_splits prod.splits sum.splits)
  ultimately show ?thesis by blast
qed

text \<open>
  A decorator object that is applied to a second function forgets its \<^verbatim>\<open>backend=None\<close>: the first function is cached in L1 only, the
  second one uses the default backend, because the first application has taken the argument out of the shared dictionary.
\<close>

theorem decorator_reuse_loses_backend:
  assumes "map_of ov ''backend'' = Some (OAtom ANone)" "intent \<noteq> Some ''local''"
    and "decorator ev default_backend config intent ov = (Inr r1, ov1)" "decorator ev default_backend config intent ov1 = (Inr r2, ov2)"
  shows "(\<exists>c. r1 = RCached c True) \<and> (\<exists>c. r2 = RCached c False)"
  using decorator_flag [OF assms(3,2)] decorator_flag [OF assms(4,2)] assms(1) by simp

theorem decorator_reuse_loses_backend_witness:
  "\<exists>r1 r2 ov1 ov2. decorator demo_env (ABackend 7) NoConfig None [(''backend'', OAtom ANone)] = (Inr r1, ov1)
     \<and> decorator demo_env (ABackend 7) NoConfig None ov1 = (Inr r2, ov2) \<and> (\<exists>c. r1 = RCached c True) \<and> (\<exists>c. r2 = RCached c False)"
proof -
  obtain r1 where d1: "decorator demo_env (ABackend 7) NoConfig None [(''backend'', OAtom ANone)] = (Inr r1, [])"
    by (simp add: front_simps Let_def)
  obtain r2 where d2: "decorator demo_env (ABackend 7) NoConfig None [] = (Inr r2, [])"
    by (simp add: front_simps Let_def)
  from decorator_reuse_loses_backend [OF _ _ d1 d2] d1 d2 show ?thesis by fastforce
qed

text \<open>
  The presets fix their groups: an override of integrity checking, L1, circuit breaker, backpressure or monitoring is not applied
  but refused with a \<^verbatim>\<open>TypeError\<close> (a second value for the same keyword).
\<close>

theorem presets_refuse_overrides:
  assumes "intent \<in> {''minimal'', ''production'', ''dev'', ''test''}" "k \<in> {''integrity_checking'', ''l1'', ''circuit_breaker'', ''backpressure'', ''monitoring''}"
    and "map_of ov k = Some v" "map_of ov ''l1_enabled'' = None"
  shows "fst (decorator ev default_backend NoConfig (Some intent) ov) = Inl type_error"
proof -
  have k: "k \<noteq> ''backend''" using assms(2) by auto
  have "map_of (AList.delete ''backend'' ov) k = Some v" using assms(3) k by (simp add: AList.delete_conv')
  then have "(k, v) \<in> set (with_backend b @ AList.delete ''backend'' ov)" for b using map_of_SomeD by fastforce
  moreover have "map_of (preset_groups a b c d m) k \<noteq> None" for a b c d m using assms(2) by (auto simp: preset_groups_def)
  ultimately have "new_config ev (preset_groups a b c d m) (with_backend x @ AList.delete ''backend'' ov) = Inl type_error" for a b c d m x
    unfolding new_config_def by (fastforce simp: list_ex_iff)
  moreover have "map_l1_enabled (AList.delete ''backend'' ov) = (Inr (), AList.delete ''backend'' ov)"
    using assms(4) by (simp add: map_l1_enabled_def has_key_def AList.delete_conv')
  ultimately show ?thesis using assms(1)
    by (auto simp: decorator_def Let_def preset_minimal_def preset_production_def preset_dev_def preset_test_def)
qed

text \<open>\<^verbatim>\<open>@cache.minimal(integrity_checking=True)\<close>, the documented way to opt in.\<close>

theorem presets_refuse_overrides_witness:
  "fst (decorator demo_env ANone NoConfig (Some ''minimal'') [(''integrity_checking'', OAtom (ABool True))]) = Inl type_error"
  by (rule presets_refuse_overrides [of _ "''integrity_checking''"]) simp_all

inductive context_reachable :: "string option \<Rightarrow> bool" where
  unset: "context_reachable None"
| set_tenant: "context_reachable ctx \<Longrightarrow> set_tenant_id t ctx = (r, ctx') \<Longrightarrow> context_reachable ctx'"

text \<open>
  C29: Tenant extraction fails closed. Each of the three extractors either raises or returns a tenant in UUID format, in every context that
  \<^verbatim>\<open>set_tenant_id\<close> can have left; there is no default tenant.
\<close>

theorem tenant_extraction_fails_closed:
  assumes "context_reachable ctx"
    and "extracted \<in> {argument_name_extract name kwargs, callable_extract f args, context_extract ctx}" "extracted = Inr t"
  shows "is_uuid t"
proof -
  have "\<And>t. ctx = Some t \<Longrightarrow> is_uuid t"
    using assms(1) by induction (auto simp: set_tenant_id_def validate_tenant_id_format_def split: if_splits)
  with assms(2,3) show ?thesis
    by (auto simp: argument_name_extract_def callable_extract_def context_extract_def validate_tenant_id_format_def
        split: option.splits sum.splits if_splits)
qed

theorem tenant_extraction_fails_closed_witness:
  "is_uuid ''550e8400-e29b-41d4-a716-446655440000''"
proof -
  have u: "is_uuid ''550e8400-e29b-41d4-a716-446655440000''"
    by code_simp
  then have "argument_name_extract ''org'' [(''org'', ''550e8400-e29b-41d4-a716-446655440000'')] = Inr ''550e8400-e29b-41d4-a716-446655440000''"
    by (simp add: argument_name_extract_def validate_tenant_id_format_def)
  from tenant_extraction_fails_closed [OF unset _ this, of "''org''" "[(''org'', ''550e8400-e29b-41d4-a716-446655440000'')]"
      "\<lambda>_. Inl type_error" "()"] this show ?thesis by simp
qed

end
