(* ===== verification/Handler_Setup.thy ===== *)
theory Handler_Setup
  imports Cache_Handler Decorator_Front
begin

text \<open>
  How a serialization handler comes about: the registry of serializers (\<^verbatim>\<open>serializers/__init__.py\<close>), the cache of instances, the
  constructor of \<^verbatim>\<open>CacheSerializationHandler\<close> with its decision about encryption, and the deployment UUID with its file
  (\<^verbatim>\<open>cache_handler.py\<close>). The optional packages, the settings, the file of the home directory and \<^verbatim>\<open>uuid4\<close> are parameters.
\<close>

section \<open>Registry\<close>

datatype ser_class = AutoSerializerC | StandardSerializerC | ArrowSerializerC | OrjsonSerializerC | EncryptionWrapperC

definition SERIALIZER_REGISTRY :: "(string \<times> ser_class) list" where
  "SERIALIZER_REGISTRY = [(''auto'', AutoSerializerC), (''pythonic'', AutoSerializerC), (''default'', StandardSerializerC), (''std'', StandardSerializerC),
     (''arrow'', ArrowSerializerC), (''orjson'', OrjsonSerializerC), (''encrypted'', EncryptionWrapperC)]"

text \<open>An instance: its class, whether it checks integrity, and its identity.\<close>

record ser_instance =
  si_class :: ser_class
  si_integrity :: bool
  si_id :: nat

record registry =
  rg_cache :: "((string \<times> bool) \<times> ser_instance) list"
  rg_instances :: "((string \<times> bool) \<times> ser_instance) list"
  rg_created :: nat

definition empty_registry :: registry where
  "empty_registry = \<lparr>rg_cache = [], rg_instances = [], rg_created = 0\<rparr>"

text \<open>\<open>ctor\<close> is what importing and calling a class raises, if it raises: a missing package, bad settings, a missing key.\<close>

definition get_serializer ::
  "(ser_class \<Rightarrow> pyexn option) \<Rightarrow> string \<Rightarrow> bool \<Rightarrow> registry \<Rightarrow> (pyexn + ser_instance) \<times> registry" where
  "get_serializer ctor name integrity rg =
     (case map_of (rg_cache rg) (name, integrity) of
        Some i \<Rightarrow> (Inr i, rg)
      | None \<Rightarrow>
          (case map_of SERIALIZER_REGISTRY name of
             None \<Rightarrow> (Inl (PyExn ''ValueError'' ''Unknown serializer''), rg)
           | Some c \<Rightarrow>
               (case ctor c of
                  Some e \<Rightarrow> (Inl e, rg)
                | None \<Rightarrow>
                    let i = \<lparr>si_class = c, si_integrity = (if c = EncryptionWrapperC then True else integrity), si_id = rg_created rg\<rparr> in
                    (Inr i, rg\<lparr>rg_cache := ((name, integrity), i) # rg_cache rg, rg_created := Suc (rg_created rg)\<rparr>))))"

text \<open>The argument of a handler: a name, or an object with its class name, whether it has both methods, whether it declares itself
  cross-language, and whether it returns pandas tables.\<close>

datatype ser_arg = SerName string | SerObject string bool bool bool

datatype base_ser = Cached ser_instance | Custom | InteropBase

definition get_cached_serializer_instance ::
  "(ser_class \<Rightarrow> pyexn option) \<Rightarrow> ser_arg \<Rightarrow> bool \<Rightarrow> registry \<Rightarrow> (pyexn + base_ser) \<times> registry" where
  "get_cached_serializer_instance ctor arg integrity rg =
     (case arg of
        SerObject cls protocol cross pandas \<Rightarrow>
          (if protocol then Inr Custom else Inl (PyExn ''TypeError'' ''serializer must be a string name or SerializerProtocol instance''), rg)
      | SerName name \<Rightarrow>
          (case map_of (rg_instances rg) (name, integrity) of
             Some i \<Rightarrow> (Inr (Cached i), rg)
           | None \<Rightarrow>
               (case get_serializer ctor name integrity rg of
                  (Inl e, rg1) \<Rightarrow>
                    (Inl (if is_value_error e then PyExn ''ValueError'' ''For encryption, use encryption=True parameter'' else e), rg1)
                | (Inr i, rg1) \<Rightarrow> (Inr (Cached i), rg1\<lparr>rg_instances := ((name, integrity), i) # rg_instances rg1\<rparr>))))"

section \<open>Deployment UUID\<close>

text \<open>\<^verbatim>\<open>str(uuid.UUID(s))\<close>.\<close>

definition hyphenated :: "string \<Rightarrow> string" where
  "hyphenated d = take 8 d @ ''-'' @ take 4 (drop 8 d) @ ''-'' @ take 4 (drop 12 d) @ ''-'' @ take 4 (drop 16 d) @ ''-'' @ drop 20 d"

definition canonical_uuid :: "string \<Rightarrow> string option" where
  "canonical_uuid s =
     (if length (uuid_text s) \<noteq> 32 then None
      else map_option (\<lambda>d. hyphenated (replicate (32 - length d) CHR ''0'' @ map py_lower d)) (int16_digits (uuid_text s)))"

definition require_canonical_tenant_form :: "bool \<Rightarrow> string \<Rightarrow> string \<Rightarrow> pyexn + unit" where
  "require_canonical_tenant_form interop raw canonical =
     (if interop \<and> strip_space raw \<noteq> canonical
      then Inl (configuration_error ''interop mode requires the deployment UUID to be in canonical lowercase-hyphenated form'') else Inr ())"

text \<open>
  The UUID file: its text, if it exists; whether a write succeeds is \<open>writable\<close>. A failed write may leave no file. \<open>fresh\<close> is the next
  \<^verbatim>\<open>uuid4\<close>.
\<close>

definition configured_uuid :: "bool \<Rightarrow> string \<Rightarrow> pyexn + string" where
  "configured_uuid interop raw =
     (case canonical_uuid raw of
        None \<Rightarrow> Inl (configuration_error ''Invalid deployment_uuid format (must be valid UUID)'')
      | Some c \<Rightarrow> (case require_canonical_tenant_form interop raw c of Inl e \<Rightarrow> Inl e | Inr u \<Rightarrow> Inr c))"

definition get_deterministic_deployment_uuid ::
  "bool \<Rightarrow> verror list + settings \<Rightarrow> bool \<Rightarrow> string \<Rightarrow> string option \<Rightarrow> string option \<Rightarrow> (pyexn + string) \<times> string option" where
  "get_deterministic_deployment_uuid interop conf writable fresh provided file =
     (if truthy_str provided then (configured_uuid interop (the provided), file)
      else case conf of
             Inl errs \<Rightarrow> (Inl (PyExn ''ValidationError'' []), file)
           | Inr st \<Rightarrow>
               if truthy_str (st_deployment_uuid st) then (configured_uuid interop (the (st_deployment_uuid st)), file)
               else if interop then (Inl (configuration_error ''interop mode with encryption requires an explicitly shared deployment UUID''), file)
               else (case (case file of None \<Rightarrow> None | Some t \<Rightarrow> canonical_uuid (strip_space t)) of
                       Some c \<Rightarrow> (Inr c, file)
                     | None \<Rightarrow> (Inr fresh, if writable then Some fresh else file)))"

section \<open>The constructor\<close>

definition SERIALIZER_NAME_ALIASES :: "(string \<times> string) list" where
  "SERIALIZER_NAME_ALIASES = [(''std'', ''default''), (''standard'', ''default''), (''pythonic'', ''auto'')]"

definition CROSS_SDK_SERIALIZER_NAMES :: "string list" where
  "CROSS_SDK_SERIALIZER_NAMES = [''default'', ''std'', ''standard'', ''orjson'', ''arrow'']"

definition frame_tag :: "string \<Rightarrow> string" where
  "frame_tag name = (case map_of SERIALIZER_NAME_ALIASES name of None \<Rightarrow> name | Some n \<Rightarrow> n)"

record 'g handler_args =
  ha_serializer :: ser_arg
  ha_encryption :: "bool option"
  ha_extractor :: "('g \<Rightarrow> pyexn + string) option"
  ha_single_tenant :: bool
  ha_deployment_uuid :: "string option"
  ha_master_key :: "string option"
  ha_integrity :: bool
  ha_fail_closed :: "bool option"
  ha_interop :: bool

record setup_env =
  se_ctor :: "ser_class \<Rightarrow> pyexn option"
  se_settings :: "verror list + settings"
  se_writable :: bool
  se_fresh_uuid :: string

record setup_state =
  ss_registry :: registry
  ss_uuid_file :: "string option"

definition check_interop_args :: "'g handler_args \<Rightarrow> pyexn + unit" where
  "check_interop_args a =
     (if \<not> ha_interop a then Inr ()
      else if ha_extractor a \<noteq> None then Inl (configuration_error ''interop mode does not support tenant_extractor (multi-tenant) encryption'')
      else case ha_serializer a of
             SerName n \<Rightarrow>
               if frame_tag n \<noteq> ''default'' then Inl (configuration_error ''interop mode requires the default (MessagePack) serializer'') else Inr ()
           | SerObject cls protocol cross pandas \<Rightarrow> Inl (configuration_error ''interop mode does not accept a custom serializer instance''))"

text \<open>Encryption, the key and the single-tenant mode that are in force.\<close>

definition resolve_encryption :: "setup_env \<Rightarrow> 'g handler_args \<Rightarrow> pyexn + bool \<times> string option \<times> bool" where
  "resolve_encryption ev a =
     (case ha_encryption a of
        Some b \<Rightarrow> Inr (b, ha_master_key a, ha_single_tenant a)
      | None \<Rightarrow>
          if ha_master_key a = None \<and> ha_extractor a = None then
            (case se_settings ev of
               Inl errs \<Rightarrow> Inl (PyExn ''ValidationError'' [])
             | Inr st \<Rightarrow> if truthy_str (st_master_key st) then Inr (True, st_master_key st, True) else Inr (False, None, ha_single_tenant a))
          else Inr (False, ha_master_key a, ha_single_tenant a))"

definition resolve_fail_closed :: "setup_env \<Rightarrow> 'g handler_args \<Rightarrow> pyexn + bool" where
  "resolve_fail_closed ev a =
     (case ha_fail_closed a of
        Some b \<Rightarrow> Inr b
      | None \<Rightarrow> (case se_settings ev of Inl errs \<Rightarrow> Inl (PyExn ''ValidationError'' []) | Inr st \<Rightarrow> Inr (st_fail_closed st)))"

definition check_tenancy :: "'g handler_args \<Rightarrow> bool \<Rightarrow> pyexn + unit" where
  "check_tenancy a single =
     (if ha_extractor a = None \<and> \<not> single then Inl (configuration_error ''Encryption requires explicit tenant mode.'')
      else if ha_extractor a \<noteq> None \<and> single then Inl (configuration_error ''Cannot use both tenant_extractor and single_tenant_mode.'')
      else case ha_serializer a of
             SerName n \<Rightarrow>
               if n \<notin> set CROSS_SDK_SERIALIZER_NAMES then Inl (configuration_error ''Encryption requires a cross-SDK-compatible serializer'') else Inr ()
           | SerObject cls protocol cross pandas \<Rightarrow>
               if \<not> cross then Inl (configuration_error ''Encryption requires a cross-SDK-compatible serializer'') else Inr ())"

definition serializer_string_name :: "ser_arg \<Rightarrow> string" where
  "serializer_string_name s = (case s of SerName n \<Rightarrow> frame_tag n | SerObject cls protocol cross pandas \<Rightarrow> cls)"

definition returns_pandas :: "ser_arg \<Rightarrow> base_ser \<Rightarrow> bool" where
  "returns_pandas s b =
     (case b of Cached i \<Rightarrow> si_class i = ArrowSerializerC | Custom \<Rightarrow> (case s of SerObject cls protocol cross pandas \<Rightarrow> pandas | _ \<Rightarrow> False) | InteropBase \<Rightarrow> False)"

definition tenant_uuid :: "setup_env \<Rightarrow> 'g handler_args \<Rightarrow> bool \<Rightarrow> bool \<Rightarrow> setup_state \<Rightarrow> (pyexn + string option) \<times> setup_state" where
  "tenant_uuid ev a encryption single ss =
     (if encryption \<and> single then
        (case get_deterministic_deployment_uuid (ha_interop a) (se_settings ev) (se_writable ev) (se_fresh_uuid ev) (ha_deployment_uuid a) (ss_uuid_file ss) of
           (r, file) \<Rightarrow> (map_sum id Some r, ss\<lparr>ss_uuid_file := file\<rparr>))
      else (Inr None, ss))"

definition base_serializer :: "setup_env \<Rightarrow> 'g handler_args \<Rightarrow> setup_state \<Rightarrow> (pyexn + base_ser) \<times> setup_state" where
  "base_serializer ev a ss =
     (if ha_interop a then (Inr InteropBase, ss)
      else case get_cached_serializer_instance (se_ctor ev) (ha_serializer a) (ha_integrity a) (ss_registry ss) of
             (r, rg) \<Rightarrow> (r, ss\<lparr>ss_registry := rg\<rparr>))"

definition new_handler :: "setup_env \<Rightarrow> 'g handler_args \<Rightarrow> setup_state \<Rightarrow> (pyexn + ('g, 'k, 'r) ser_handler \<times> base_ser) \<times> setup_state" where
  "new_handler ev a ss =
     (case check_interop_args a of
        Inl e \<Rightarrow> (Inl e, ss)
      | Inr u \<Rightarrow>
          (case resolve_encryption ev a of
             Inl e \<Rightarrow> (Inl e, ss)
           | Inr (encryption, master_key, single) \<Rightarrow>
               (case resolve_fail_closed ev a of
                  Inl e \<Rightarrow> (Inl e, ss)
                | Inr fail_closed \<Rightarrow>
                    (case (if encryption then check_tenancy a single else Inr ()) of
                       Inl e \<Rightarrow> (Inl e, ss)
                     | Inr u \<Rightarrow>
                         (case tenant_uuid ev a encryption single ss of
                            (Inl e, ss1) \<Rightarrow> (Inl e, ss1)
                          | (Inr uuid, ss1) \<Rightarrow>
                              (case base_serializer ev a ss1 of
                                 (Inl e, ss2) \<Rightarrow> (Inl e, ss2)
                               | (Inr b, ss2) \<Rightarrow>
                                   (Inr (\<lparr>sh_string_name = serializer_string_name (ha_serializer a), sh_return_pandas = returns_pandas (ha_serializer a) b,
                                      sh_encryption = encryption, sh_extractor = ha_extractor a, sh_deployment_uuid = uuid, sh_master_key = master_key,
                                      sh_fail_closed = fail_closed, sh_interop = ha_interop a, sh_wrappers = [], sh_drift_warned = [], sh_counters = []\<rparr>, b),
                                    ss2)))))))"

section \<open>Properties\<close>

text \<open>What a successful construction went through.\<close>

lemma new_handler_steps:
  assumes "new_handler ev a ss = (Inr (h, b), ss')"
  obtains single uuid ss1 where "check_interop_args a = Inr ()" "resolve_encryption ev a = Inr (sh_encryption h, sh_master_key h, single)"
    "sh_encryption h \<Longrightarrow> check_tenancy a single = Inr ()" "tenant_uuid ev a (sh_encryption h) single ss = (Inr uuid, ss1)"
    "sh_deployment_uuid h = uuid" "base_serializer ev a ss1 = (Inr b, ss')" "sh_extractor h = ha_extractor a" "sh_interop h = ha_interop a"
  using assms by (auto simp: new_handler_def split: sum.splits prod.splits if_splits)

lemma configured_uuid_Inr: "configured_uuid interop raw = Inr u \<Longrightarrow> canonical_uuid raw = Some u \<and> (interop \<longrightarrow> strip_space raw = u)"
  by (auto simp: configured_uuid_def require_canonical_tenant_form_def split: option.splits if_splits)

text \<open>
  C33: A handler that encrypts was set up soundly: exactly one tenant mode, a serializer that other languages can read, and in single-tenant
  mode a deployment UUID, which interop mode accepts only from the configuration and only in canonical spelling.
\<close>

theorem encrypting_handler_sound:
  assumes "new_handler ev a ss = (Inr (h, b), ss')" "sh_encryption h"
  shows "(sh_extractor h = None) = (sh_deployment_uuid h \<noteq> None)
    \<and> (case ha_serializer a of SerName n \<Rightarrow> n \<in> set CROSS_SDK_SERIALIZER_NAMES | SerObject cls protocol cross pandas \<Rightarrow> cross)
    \<and> (sh_interop h \<longrightarrow> (\<exists>raw st. (ha_deployment_uuid a = Some raw \<or> se_settings ev = Inr st \<and> st_deployment_uuid st = Some raw)
         \<and> sh_deployment_uuid h = Some (strip_space raw) \<and> canonical_uuid raw = Some (strip_space raw)))"
proof -
  from assms(1) obtain single uuid ss1 where s: "check_interop_args a = Inr ()" "check_tenancy a single = Inr ()"
    "tenant_uuid ev a True single ss = (Inr uuid, ss1)" "sh_deployment_uuid h = uuid" "sh_extractor h = ha_extractor a" "sh_interop h = ha_interop a"
    by (rule new_handler_steps) (use assms(2) in simp)
  have mode: "(ha_extractor a = None) = single"
    and ser: "case ha_serializer a of SerName n \<Rightarrow> n \<in> set CROSS_SDK_SERIALIZER_NAMES | SerObject cls protocol cross pandas \<Rightarrow> cross"
    using s(2) by (auto simp: check_tenancy_def split: if_splits ser_arg.splits)
  have uuid: "single = (uuid \<noteq> None)" using s(3) by (auto simp: tenant_uuid_def map_sum_def split: prod.splits sum.splits if_splits)
  have "\<exists>raw st. (ha_deployment_uuid a = Some raw \<or> se_settings ev = Inr st \<and> st_deployment_uuid st = Some raw)
       \<and> uuid = Some (strip_space raw) \<and> canonical_uuid raw = Some (strip_space raw)" if i: "ha_interop a"
  proof -
    have single: "single" using s(1) i mode by (auto simp: check_interop_args_def split: if_splits)
    obtain u where u: "uuid = Some u" "fst (get_deterministic_deployment_uuid True (se_settings ev) (se_writable ev) (se_fresh_uuid ev)
        (ha_deployment_uuid a) (ss_uuid_file ss)) = Inr u"
      using s(3) single i by (auto simp: tenant_uuid_def map_sum_def split: prod.splits sum.splits)
    show ?thesis
    proof (cases "truthy_str (ha_deployment_uuid a)")
      case True
      then obtain raw where raw: "ha_deployment_uuid a = Some raw" by (cases "ha_deployment_uuid a") auto
      with u True have "configured_uuid True raw = Inr u" by (simp add: get_deterministic_deployment_uuid_def)
      from configured_uuid_Inr [OF this] raw u(1) show ?thesis by auto
    next
      case False
      then obtain st where st: "se_settings ev = Inr st" "truthy_str (st_deployment_uuid st)"
        using u(2) by (auto simp: get_deterministic_deployment_uuid_def split: sum.splits if_splits)
      then obtain raw where raw: "st_deployment_uuid st = Some raw" by (cases "st_deployment_uuid st") auto
      with u False st have "configured_uuid True raw = Inr u" by (simp add: get_deterministic_deployment_uuid_def)
      from configured_uuid_Inr [OF this] raw st(1) u(1) show ?thesis by auto
    qed
  qed
  with mode ser uuid s show ?thesis by auto
qed

text \<open>
  What decides about encryption: an explicit choice always wins; without one, the key of the settings turns it on exactly when neither a
  key nor a tenant extractor is passed. A decorator that is given its own \<^verbatim>\<open>master_key\<close> but no \<^verbatim>\<open>encryption\<close> stores plaintext.
\<close>

theorem encryption_decision:
  assumes "new_handler ev a ss = (Inr (h, b), ss')"
  shows "sh_encryption h = (case ha_encryption a of
      Some choice \<Rightarrow> choice
    | None \<Rightarrow> ha_master_key a = None \<and> ha_extractor a = None \<and> (\<exists>st. se_settings ev = Inr st \<and> truthy_str (st_master_key st)))"
  using assms
  by (rule new_handler_steps) (auto simp: resolve_encryption_def split: option.splits if_splits sum.splits)

text \<open>
  The deployment UUID survives a restart: when it was read from the file or could be written to it, every later construction with the
  same configuration gets the same UUID and leaves the file alone, whatever \<^verbatim>\<open>uuid4\<close> would yield then.
\<close>

theorem deployment_uuid_stable:
  assumes "get_deterministic_deployment_uuid interop conf True fresh provided file = (Inr u, file')" "canonical_uuid (strip_space fresh) = Some fresh"
  shows "get_deterministic_deployment_uuid interop conf writable fresh' provided file' = (Inr u, file')"
  using assms by (auto simp: get_deterministic_deployment_uuid_def split: if_splits sum.splits option.splits)

definition known_names :: "registry \<Rightarrow> bool" where
  "known_names rg \<longleftrightarrow> list_all (\<lambda>e. map_of SERIALIZER_REGISTRY (fst (fst e)) \<noteq> None) (rg_cache rg @ rg_instances rg)"

lemma known_names_lookup:
  "known_names rg \<Longrightarrow> map_of (rg_cache rg) (name, integrity) = Some i \<or> map_of (rg_instances rg) (name, integrity) = Some i
     \<Longrightarrow> map_of SERIALIZER_REGISTRY name \<noteq> None"
proof -
  assume known: "known_names rg"
    and "map_of (rg_cache rg) (name, integrity) = Some i \<or> map_of (rg_instances rg) (name, integrity) = Some i"
  then have "((name, integrity), i) \<in> set (rg_cache rg @ rg_instances rg)" by (auto dest: map_of_SomeD)
  with known have "map_of SERIALIZER_REGISTRY (fst (fst ((name, integrity), i))) \<noteq> None"
    unfolding known_names_def list_all_iff by (rule bspec)
  then show "map_of SERIALIZER_REGISTRY name \<noteq> None" by simp
qed

lemma get_serializer_known: "get_serializer ctor name integrity rg = (r, rg') \<Longrightarrow> known_names rg \<Longrightarrow> known_names rg'"
  by (auto simp: get_serializer_def Let_def known_names_def split: option.splits)

lemma get_serializer_name:
  "get_serializer ctor name integrity rg = (Inr i, rg') \<Longrightarrow> known_names rg \<Longrightarrow> map_of SERIALIZER_REGISTRY name \<noteq> None"
  using known_names_lookup by (fastforce simp: get_serializer_def Let_def split: option.splits)

lemma cached_instance_known:
  assumes "get_cached_serializer_instance ctor arg integrity rg = (r, rg')" "known_names rg"
  shows "known_names rg'"
proof (cases arg)
  case (SerName name)
  show ?thesis
  proof (cases "map_of (rg_instances rg) (name, integrity)")
    case None
    obtain r1 rg1 where g: "get_serializer ctor name integrity rg = (r1, rg1)" by force
    have k: "known_names rg1" using get_serializer_known [OF g assms(2)] .
    show ?thesis
    proof (cases r1)
      case (Inr i)
      have "map_of SERIALIZER_REGISTRY name \<noteq> None" using get_serializer_name assms(2) g Inr by blast
      then show ?thesis using assms(1) SerName None g Inr k by (auto simp: get_cached_serializer_instance_def known_names_def)
    qed (use assms(1) SerName None g k in \<open>auto simp: get_cached_serializer_instance_def\<close>)
  qed (use assms SerName in \<open>auto simp: get_cached_serializer_instance_def\<close>)
qed (use assms in \<open>auto simp: get_cached_serializer_instance_def\<close>)

lemma tenant_uuid_registry: "tenant_uuid ev a e single ss = (r, ss1) \<Longrightarrow> ss_registry ss1 = ss_registry ss"
  by (auto simp: tenant_uuid_def split: if_splits prod.splits)

text \<open>The registries that handlers and direct callers of the factory can have left.\<close>

inductive registries :: "(ser_class \<Rightarrow> pyexn option) \<Rightarrow> registry \<Rightarrow> bool" for ctor where
  start: "registries ctor empty_registry"
| factory: "registries ctor rg \<Longrightarrow> get_serializer ctor name integrity rg = (r, rg') \<Longrightarrow> registries ctor rg'"
| handler: "registries ctor rg \<Longrightarrow> get_cached_serializer_instance ctor arg integrity rg = (r', rg') \<Longrightarrow> registries ctor rg'"

lemma registries_known: "registries ctor rg \<Longrightarrow> known_names rg"
  by (induction rule: registries.induct) (auto simp: known_names_def empty_registry_def dest: get_serializer_known [unfolded known_names_def] cached_instance_known [unfolded known_names_def])

lemma base_serializer_registries:
  "base_serializer ev a ss = (r, ss') \<Longrightarrow> registries (se_ctor ev) (ss_registry ss) \<Longrightarrow> registries (se_ctor ev) (ss_registry ss')"
  by (auto simp: base_serializer_def split: if_splits prod.splits intro: registries.handler)

lemma new_handler_registries:
  assumes "new_handler ev a ss = (r, ss')" "registries (se_ctor ev) (ss_registry ss)"
  shows "registries (se_ctor ev) (ss_registry ss')"
proof -
  have "registries (se_ctor ev) (ss_registry ss1)" if "tenant_uuid ev a e s ss = (q, ss1)" for e s q ss1
    using tenant_uuid_registry [OF that] assms(2) by simp
  with assms show ?thesis
    by (auto simp: new_handler_def split: sum.splits prod.splits if_splits dest: base_serializer_registries)
qed

text \<open>
  The name \<open>standard\<close>, which the checks accept as an alias of the default serializer and as safe under encryption, is not in the
  registry: outside interop mode every handler that asks for it fails, whatever handlers were built before.
\<close>

theorem standard_name_unusable:
  assumes "registries (se_ctor ev) (ss_registry ss)" "ha_serializer a = SerName ''standard''" "\<not> ha_interop a"
  shows "\<exists>e. fst (new_handler ev a ss :: (pyexn + ('g, 'k, 'r) ser_handler \<times> base_ser) \<times> setup_state) = Inl e"
proof -
  have no: "map_of SERIALIZER_REGISTRY ''standard'' = None" by (simp add: SERIALIZER_REGISTRY_def)
  have "\<exists>e. fst (base_serializer ev a ss1) = Inl e" if known: "known_names (ss_registry ss1)" for ss1
  proof -
    have "map_of (rg_instances (ss_registry ss1)) (''standard'', ha_integrity a) = None" "map_of (rg_cache (ss_registry ss1)) (''standard'', ha_integrity a) = None"
      using known_names_lookup [OF known, of "''standard''" "ha_integrity a"] no by (meson not_Some_eq)+
    then show ?thesis using assms(2,3) no by (simp add: base_serializer_def get_cached_serializer_instance_def get_serializer_def)
  qed
  moreover have "known_names (ss_registry ss1)" if "tenant_uuid ev a e s ss = (r, ss1)" for e s r ss1
    using tenant_uuid_registry [OF that] registries_known [OF assms(1)] by simp
  ultimately show ?thesis by (fastforce simp: new_handler_def split: sum.split prod.split)
qed

definition demo_setup :: setup_env where
  "demo_setup = \<lparr>se_ctor = (\<lambda>c. None), se_settings = Inr (default_settings\<lparr>st_master_key := Some ''ab''\<rparr>), se_writable = True,
     se_fresh_uuid = ''550e8400-e29b-41d4-a716-446655440000''\<rparr>"

definition demo_args :: "nat handler_args" where
  "demo_args = \<lparr>ha_serializer = SerName ''std'', ha_encryption = None, ha_extractor = None, ha_single_tenant = False, ha_deployment_uuid = None,
     ha_master_key = None, ha_integrity = True, ha_fail_closed = None, ha_interop = False\<rparr>"

definition demo_start :: setup_state where "demo_start = \<lparr>ss_registry = empty_registry, ss_uuid_file = None\<rparr>"

lemmas setup_simps = new_handler_def check_interop_args_def resolve_encryption_def resolve_fail_closed_def check_tenancy_def tenant_uuid_def
  base_serializer_def get_deterministic_deployment_uuid_def get_cached_serializer_instance_def get_serializer_def SERIALIZER_REGISTRY_def
  CROSS_SDK_SERIALIZER_NAMES_def empty_registry_def demo_setup_def demo_args_def demo_start_def default_settings_def

theorem encrypting_handler_sound_witness:
  "\<exists>h b ss'. new_handler demo_setup demo_args demo_start = (Inr (h :: (nat, unit, unit) ser_handler, b), ss') \<and> sh_encryption h
     \<and> sh_extractor h = None \<and> sh_deployment_uuid h \<noteq> None"
proof -
  obtain h :: "(nat, unit, unit) ser_handler" and b ss' where n: "new_handler demo_setup demo_args demo_start = (Inr (h, b), ss')" "sh_encryption h" "sh_extractor h = None"
    by (simp add: setup_simps Let_def)
  with encrypting_handler_sound [OF n(1,2)] show ?thesis by blast
qed

text \<open>The same decorator with a key of its own.\<close>

theorem encryption_decision_witness:
  "\<exists>h b ss'. new_handler demo_setup (demo_args\<lparr>ha_master_key := Some ''cd''\<rparr>) demo_start = (Inr (h :: (nat, unit, unit) ser_handler, b), ss') \<and> \<not> sh_encryption h"
proof -
  obtain h :: "(nat, unit, unit) ser_handler" and b ss' where n: "new_handler demo_setup (demo_args\<lparr>ha_master_key := Some ''cd''\<rparr>) demo_start = (Inr (h, b), ss')"
    by (simp add: setup_simps Let_def)
  from encryption_decision [OF n] have "\<not> sh_encryption h" by (simp add: demo_args_def)
  with n show ?thesis by blast
qed

theorem deployment_uuid_stable_witness:
  "get_deterministic_deployment_uuid False (Inr default_settings) False ''x'' None (Some ''550e8400-e29b-41d4-a716-446655440000'')
     = (Inr ''550e8400-e29b-41d4-a716-446655440000'', Some ''550e8400-e29b-41d4-a716-446655440000'')"
proof -
  have "get_deterministic_deployment_uuid False (Inr default_settings) True ''550e8400-e29b-41d4-a716-446655440000'' None None
      = (Inr ''550e8400-e29b-41d4-a716-446655440000'', Some ''550e8400-e29b-41d4-a716-446655440000'')"
    by (simp add: get_deterministic_deployment_uuid_def default_settings_def)
  moreover have "canonical_uuid (strip_space ''550e8400-e29b-41d4-a716-446655440000'') = Some ''550e8400-e29b-41d4-a716-446655440000''" by code_simp
  ultimately show ?thesis by (rule deployment_uuid_stable)
qed

theorem standard_name_unusable_witness:
  "\<exists>e. fst (new_handler demo_setup (demo_args\<lparr>ha_serializer := SerName ''standard''\<rparr>) demo_start :: (pyexn + (nat, unit, unit) ser_handler \<times> base_ser) \<times> setup_state) = Inl e"
  by (rule standard_name_unusable) (simp_all add: demo_start_def demo_args_def registries.start)

end
