(* ===== verification/Checksummed_Formats.thy ===== *)
theory Checksummed_Formats
  imports Encryption Interop_Codec
begin

text \<open>
  The serializers that put an 8-byte xxHash3-64 digest in front of their payload: JSON (\<^verbatim>\<open>serializers/orjson_serializer.py\<close>), Arrow
  (\<^verbatim>\<open>serializers/arrow_serializer.py\<close>, buffered and streaming, with its search for record batches of bounded size) and the raw NumPy
  format of \<^verbatim>\<open>serializers/auto_serializer.py\<close>. orjson, pyarrow, numpy and xxhash are parameters.
\<close>

definition serialization_error :: "string \<Rightarrow> pyexn" where "serialization_error = PyExn ''SerializationError''"

definition is_type_error :: "pyexn \<Rightarrow> bool" where "is_type_error = exn_in [''TypeError'', ''JSONEncodeError'']"

lemma serialization_error_is [simp]: "is_serialization_error (serialization_error t)"
  by (simp add: serialization_error_def exn_class_defs)

section \<open>JSON\<close>

record 'j orjson_lib =
  oj_dumps :: "'j \<Rightarrow> pyexn + bytes"
  oj_loads :: "bytes \<Rightarrow> pyexn + 'j"

definition orjson_serialize :: "'j orjson_lib \<Rightarrow> (bytes \<Rightarrow> bytes) \<Rightarrow> bool \<Rightarrow> 'j \<Rightarrow> pyexn + bytes \<times> ser_metadata" where
  "orjson_serialize lib digest integrity obj =
     (case oj_dumps lib obj of
        Inl e \<Rightarrow> Inl (if is_type_error e then PyExn ''TypeError'' ''Object is not JSON-serializable''
                      else if is_value_error e then serialization_error ''Failed to serialize object to JSON'' else e)
      | Inr json_data \<Rightarrow>
          Inr (if integrity then digest json_data @ json_data else json_data,
               base_metadata ORJSON (HStr ''utf-8'') (HBool False) (HStr ''orjson'')))"

definition load_json :: "'j orjson_lib \<Rightarrow> bytes \<Rightarrow> pyexn + 'j" where
  "load_json lib json_data =
     (case oj_loads lib json_data of
        Inl e \<Rightarrow> Inl (if is_value_error e then serialization_error ''Failed to deserialize JSON data'' else e)
      | Inr v \<Rightarrow> Inr v)"

definition orjson_deserialize :: "'j orjson_lib \<Rightarrow> (bytes \<Rightarrow> bytes) \<Rightarrow> bool \<Rightarrow> bytes \<Rightarrow> ser_metadata option \<Rightarrow> pyexn + 'j" where
  "orjson_deserialize lib digest integrity data metadata =
     (if \<not> integrity then load_json lib data
      else if length data < 10 then Inl (serialization_error ''Invalid data: Expected at least 10 bytes'')
      else if digest (drop 8 data) \<noteq> take 8 data then Inl (serialization_error ''Checksum validation failed - data corruption detected'')
      else load_json lib (drop 8 data))"

section \<open>Arrow\<close>

text \<open>
  Record batches. \<open>nbytes offset n\<close> is the size of the slice of \<open>n\<close> rows from \<open>offset\<close>. The inner loop is a binary search for the largest
  number of rows that fits. It starts at \<open>lo = 2\<close>, so that \<open>mid\<close> is never 0; the test for 0 only keeps natural numbers from wrapping.
\<close>

definition TARGET_BATCH_BYTES :: nat where "TARGET_BATCH_BYTES = 8 * 1024 * 1024"

function largest_fit :: "(nat \<Rightarrow> nat) \<Rightarrow> nat \<Rightarrow> nat \<Rightarrow> nat \<Rightarrow> nat" where
  "largest_fit sz lo hi rows =
     (if lo \<le> hi then
        let mid = (lo + hi) div 2 in
        if sz mid \<le> TARGET_BATCH_BYTES then largest_fit sz (mid + 1) hi mid
        else if mid = 0 then rows else largest_fit sz lo (mid - 1) rows
      else rows)"
  by auto
termination
  by (relation "measure (\<lambda>(sz, lo, hi, rows). Suc hi - lo)") auto

declare largest_fit.simps [simp del]

lemma largest_fit_bounds:
  assumes "1 \<le> lo" "1 \<le> rows" "rows < lo"
  shows "1 \<le> largest_fit sz lo hi rows \<and> largest_fit sz lo hi rows \<le> max rows hi
    \<and> (largest_fit sz lo hi rows = rows \<or> sz (largest_fit sz lo hi rows) \<le> TARGET_BATCH_BYTES)"
  using assms
proof (induction sz lo hi rows rule: largest_fit.induct)
  case (1 sz lo hi rows)
  show ?case
  proof (cases "lo \<le> hi")
    case False
    with 1 show ?thesis by (simp add: largest_fit.simps)
  next
    case True
    define mid where "mid = (lo + hi) div 2"
    have mid: "lo \<le> mid" "mid \<le> hi" using True by (auto simp: mid_def)
    show ?thesis
    proof (cases "sz mid \<le> TARGET_BATCH_BYTES")
      case True
      have "largest_fit sz lo hi rows = largest_fit sz (mid + 1) hi mid"
        using True \<open>lo \<le> hi\<close> by (simp add: largest_fit.simps [of sz lo] mid_def Let_def)
      then show ?thesis using "1.IH"(1) [OF \<open>lo \<le> hi\<close> mid_def] True mid 1 by fastforce
    next
      case False
      then have "largest_fit sz lo hi rows = largest_fit sz lo (mid - 1) rows"
        using \<open>lo \<le> hi\<close> mid 1 by (simp add: largest_fit.simps [of sz lo] mid_def Let_def)
      then show ?thesis using "1.IH"(2) [OF \<open>lo \<le> hi\<close> mid_def False] mid 1 by fastforce
    qed
  qed
qed

function bounded_batches :: "(nat \<Rightarrow> nat \<Rightarrow> nat) \<Rightarrow> nat \<Rightarrow> nat \<Rightarrow> (nat \<times> nat) list" where
  "bounded_batches nbytes offset num_rows =
     (if offset < num_rows then
        let rows = largest_fit (nbytes offset) 2 (num_rows - offset) 1 in (offset, rows) # bounded_batches nbytes (offset + rows) num_rows
      else [])"
  by auto
termination
proof (relation "measure (\<lambda>(nbytes, offset, num_rows). num_rows - offset)")
  show "wf (measure (\<lambda>(nbytes, offset, num_rows). num_rows - offset))" by simp
next
  fix nbytes :: "nat \<Rightarrow> nat \<Rightarrow> nat" and offset num_rows rows :: nat
  assume "offset < num_rows" "rows = largest_fit (nbytes offset) 2 (num_rows - offset) 1"
  then show "((nbytes, offset + rows, num_rows), nbytes, offset, num_rows) \<in> measure (\<lambda>(nbytes, offset, num_rows). num_rows - offset)"
    using largest_fit_bounds [of 2 1 "nbytes offset" "num_rows - offset"] by auto
qed

declare bounded_batches.simps [simp del]

text \<open>
  Tables and the IPC writer. \<open>ar_ipc\<close> is the sequence of writes pyarrow makes for a file of these batches; the exceptions of pyarrow are
  known by their class names.
\<close>

datatype 'o arrow_obj = APandas 'o | AStream 'o | ADict 'o | AScalar

datatype return_format = RPandas | RPolars | RArrow

record ('o, 't, 'r) arrow_lib =
  ar_from_pandas :: "'o \<Rightarrow> pyexn + 't"
  ar_table :: "'o \<Rightarrow> pyexn + 't"
  ar_rows :: "'t \<Rightarrow> nat"
  ar_nbytes :: "'t \<Rightarrow> nat \<Rightarrow> nat \<Rightarrow> nat"
  ar_ipc :: "string option \<Rightarrow> 't \<Rightarrow> (nat \<times> nat) list \<Rightarrow> bytes list"
  ar_read :: "bytes \<Rightarrow> pyexn + 't"
  ar_convert :: "return_format \<Rightarrow> 't \<Rightarrow> 'r"
  ar_has_polars :: bool

definition is_arrow_conversion :: "pyexn \<Rightarrow> bool" where
  "is_arrow_conversion = exn_in [''ArrowInvalid'', ''ArrowTypeError'']"

definition to_table :: "('o, 't, 'r) arrow_lib \<Rightarrow> 'o arrow_obj \<Rightarrow> pyexn + 't" where
  "to_table lib obj =
     (case obj of
        APandas x \<Rightarrow> ar_from_pandas lib x
      | AStream x \<Rightarrow> ar_table lib x
      | ADict x \<Rightarrow>
          (case ar_table lib x of
             Inl e \<Rightarrow> Inl (if is_arrow_conversion e \<or> is_type_error e \<or> is_value_error e
                           then PyExn ''TypeError'' ''Got a dict that is not convertible to an Arrow table'' else e)
           | Inr t \<Rightarrow> Inr t)
      | AScalar \<Rightarrow> Inl (PyExn ''TypeError'' ''ArrowSerializer only supports DataFrames or dict of arrays''))"

text \<open>\<open>None\<close> is Python's \<^verbatim>\<open>None\<close>; \<open>setting\<close> is the codec of the settings, or \<open>None\<close> where the configuration cannot be imported.\<close>

definition resolve_compression :: "(pyexn + string) option \<Rightarrow> string option \<Rightarrow> pyexn + string option" where
  "resolve_compression setting compression =
     (let chosen = (if compression = Some ''auto''
                    then (case setting of None \<Rightarrow> Inr (Some ''zstd'') | Some (Inl e) \<Rightarrow> Inl e | Some (Inr c) \<Rightarrow> Inr (Some c))
                    else Inr compression)
      in case chosen of
           Inl e \<Rightarrow> Inl e
         | Inr c \<Rightarrow>
             if c = None \<or> c = Some ''none'' then Inr None
             else if c \<noteq> Some ''zstd'' \<and> c \<noteq> Some ''lz4'' then Inl (PyExn ''ValueError'' ''Invalid compression'')
             else Inr c)"

record arrow_serializer =
  as_return_format :: return_format
  as_compression :: "string option"

definition new_arrow_serializer :: "(pyexn + string) option \<Rightarrow> string \<Rightarrow> string option \<Rightarrow> pyexn + arrow_serializer" where
  "new_arrow_serializer setting return_format compression =
     (case map_of [(''pandas'', RPandas), (''polars'', RPolars), (''arrow'', RArrow)] return_format of
        None \<Rightarrow> Inl (PyExn ''ValueError'' ''Invalid return_format'')
      | Some f \<Rightarrow>
          (case resolve_compression setting compression of
             Inl e \<Rightarrow> Inl e
           | Inr c \<Rightarrow> Inr \<lparr>as_return_format = f, as_compression = c\<rparr>))"

definition arrow_metadata :: "arrow_serializer \<Rightarrow> ser_metadata" where
  "arrow_metadata s = base_metadata ARROW (HStr ''utf-8'') (HBool (as_compression s \<noteq> None)) (HStr ''arrow'')"

definition ipc_writes :: "('o, 't, 'r) arrow_lib \<Rightarrow> arrow_serializer \<Rightarrow> 't \<Rightarrow> bytes list" where
  "ipc_writes lib s table = ar_ipc lib (as_compression s) table (bounded_batches (ar_nbytes lib table) 0 (ar_rows lib table))"

definition arrow_serialize :: "('o, 't, 'r) arrow_lib \<Rightarrow> (bytes \<Rightarrow> bytes) \<Rightarrow> arrow_serializer \<Rightarrow> 'o arrow_obj \<Rightarrow> pyexn + bytes \<times> ser_metadata" where
  "arrow_serialize lib digest s obj =
     (case to_table lib obj of
        Inl e \<Rightarrow> Inl (if is_arrow_conversion e \<or> is_value_error e then serialization_error ''Failed to serialize DataFrame to Arrow IPC format'' else e)
      | Inr table \<Rightarrow> (let buf = concat (ipc_writes lib s table) in Inr (digest buf @ buf, arrow_metadata s)))"

text \<open>A seekable binary file: its contents and the position of the next write.\<close>

record sink =
  sk_data :: bytes
  sk_pos :: nat

definition sink_write :: "bytes \<Rightarrow> sink \<Rightarrow> sink" where
  "sink_write b s = s\<lparr>sk_data := take (sk_pos s) (sk_data s) @ replicate (sk_pos s - length (sk_data s)) 0 @ b @ drop (sk_pos s + length b) (sk_data s),
     sk_pos := sk_pos s + length b\<rparr>"

definition sink_seek :: "nat \<Rightarrow> sink \<Rightarrow> sink" where "sink_seek p s = s\<lparr>sk_pos := p\<rparr>"

text \<open>The hashing adapter; what has been hashed so far stands for the state of the incremental hasher.\<close>

record hashing_sink =
  hs_raw :: sink
  hs_hashed :: bytes
  hs_budget :: "int option"
  hs_written :: nat

definition hs_write :: "bytes \<Rightarrow> hashing_sink \<Rightarrow> (pyexn + nat) \<times> hashing_sink" where
  "hs_write data h =
     (let n = length data; h1 = h\<lparr>hs_written := hs_written h + n\<rparr> in
      case hs_budget h of
        Some m \<Rightarrow>
          if int (hs_written h1) > m then (Inl (PyExn ''ValueError'' ''Streaming serialization exceeded its payload budget''), h1)
          else (Inr n, h1\<lparr>hs_hashed := hs_hashed h @ data, hs_raw := sink_write data (hs_raw h)\<rparr>)
      | None \<Rightarrow> (Inr n, h1\<lparr>hs_hashed := hs_hashed h @ data, hs_raw := sink_write data (hs_raw h)\<rparr>))"

fun hs_writes :: "bytes list \<Rightarrow> hashing_sink \<Rightarrow> (pyexn + unit) \<times> hashing_sink" where
  "hs_writes [] h = (Inr (), h)"
| "hs_writes (d # ds) h = (case hs_write d h of (Inl e, h1) \<Rightarrow> (Inl e, h1) | (Inr n, h1) \<Rightarrow> hs_writes ds h1)"

definition serialize_to_sink ::
  "('o, 't, 'r) arrow_lib \<Rightarrow> (bytes \<Rightarrow> bytes) \<Rightarrow> arrow_serializer \<Rightarrow> 'o arrow_obj \<Rightarrow> sink \<Rightarrow> nat option \<Rightarrow> (pyexn + ser_metadata) \<times> sink" where
  "serialize_to_sink lib digest s obj sink max_bytes =
     (case to_table lib obj of
        Inl e \<Rightarrow> (Inl (if is_arrow_conversion e then serialization_error ''Failed to serialize DataFrame to Arrow IPC format'' else e), sink)
      | Inr table \<Rightarrow>
          let checksum_pos = sk_pos sink;
              h = \<lparr>hs_raw = sink_write (replicate 8 0) sink, hs_hashed = [], hs_budget = map_option (\<lambda>m. int m - 8) max_bytes, hs_written = 0\<rparr>
          in case hs_writes (ipc_writes lib s table) h of
               (Inl e, h1) \<Rightarrow> (Inl e, hs_raw h1)
             | (Inr u, h1) \<Rightarrow>
                 let end_pos = sk_pos (hs_raw h1) in
                 (Inr (arrow_metadata s), sink_seek end_pos (sink_write (digest (hs_hashed h1)) (sink_seek checksum_pos (hs_raw h1)))))"

definition ARROW_MAGIC :: bytes where "ARROW_MAGIC = str_bytes ''ARROW1''"

definition arrow_deserialize ::
  "('o, 't, 'r) arrow_lib \<Rightarrow> (bytes \<Rightarrow> bytes) \<Rightarrow> arrow_serializer \<Rightarrow> bytes \<Rightarrow> ser_metadata option \<Rightarrow> pyexn + 'r" where
  "arrow_deserialize lib digest s data metadata =
     (let open = (\<lambda>body. case ar_read lib body of
                    Inl e \<Rightarrow> Inl (if exn_in [''ArrowInvalid'', ''ArrowSerializationError'', ''OSError''] e
                                  then serialization_error ''Failed to deserialize Arrow IPC data'' else e)
                  | Inr table \<Rightarrow>
                      if as_return_format s = RPolars \<and> \<not> ar_has_polars lib then Inl (serialization_error ''polars not installed'')
                      else Inr (ar_convert lib (as_return_format s) table))
      in if length data \<ge> 14 \<and> take 6 (drop 8 data) = ARROW_MAGIC then
           if digest (drop 8 data) \<noteq> take 8 data then Inl (serialization_error ''Checksum validation failed - data corruption detected'')
           else open (drop 8 data)
         else if length data \<ge> 6 \<and> take 6 data = ARROW_MAGIC then open data
         else Inl (serialization_error ''Invalid data: not a recognized Arrow envelope''))"

section \<open>NumPy\<close>

text \<open>
  An array is known by the text of its dtype, its shape and its bytes in C order. \<open>frombuffer\<close> is \<^verbatim>\<open>np.frombuffer\<close>; its result is the
  number of elements, and \<^verbatim>\<open>reshape\<close> refuses a shape that does not have as many.
\<close>

record ndarray =
  nd_dtype :: ucs
  nd_shape :: "nat list"
  nd_bytes :: bytes

definition le_bytes :: "nat \<Rightarrow> nat \<Rightarrow> bytes" where "le_bytes k n = rev (be_bytes k n)"

definition le_val :: "bytes \<Rightarrow> nat" where "le_val b = be_val (rev b)"

definition NUMPY_MAGIC :: bytes where "NUMPY_MAGIC = str_bytes ''NUMPY_RAW''"

definition shape_data :: "nat list \<Rightarrow> bytes" where "shape_data shape = concat (map (le_bytes 4) shape)"

definition numpy_payload :: "bytes \<Rightarrow> ndarray \<Rightarrow> bytes" where
  "numpy_payload dtype_str arr = NUMPY_MAGIC @ le_bytes 2 (length dtype_str) @ dtype_str
     @ le_bytes 2 (length (shape_data (nd_shape arr))) @ shape_data (nd_shape arr) @ nd_bytes arr"

definition serialize_numpy :: "(bytes \<Rightarrow> bytes) \<Rightarrow> bool \<Rightarrow> ndarray \<Rightarrow> pyexn + bytes" where
  "serialize_numpy digest integrity arr =
     (case utf8 (nd_dtype arr) of
        None \<Rightarrow> Inl (PyExn ''UnicodeEncodeError'' [])
      | Some dtype_str \<Rightarrow>
          if length dtype_str \<ge> 256 ^ 2 \<or> list_ex (\<lambda>dim. dim \<ge> 256 ^ 4) (nd_shape arr) \<or> 4 * length (nd_shape arr) \<ge> 256 ^ 2
          then Inl overflow_error
          else let raw = numpy_payload dtype_str arr in Inr (if integrity then digest raw @ raw else raw))"

fun read_dims :: "bytes \<Rightarrow> nat list" where
  "read_dims [] = []"
| "read_dims (b # bs) = le_val (take 4 (b # bs)) # read_dims (drop 3 bs)"

definition read_numpy :: "(bytes \<Rightarrow> ucs \<Rightarrow> pyexn + nat) \<Rightarrow> bytes \<Rightarrow> pyexn + ndarray" where
  "read_numpy frombuffer data =
     (let dtype_len = le_val (take 2 (drop 9 data));
          shape_at = 11 + dtype_len;
          shape_len = le_val (take 2 (drop shape_at data));
          shape = read_dims (take shape_len (drop (shape_at + 2) data));
          raw_bytes = drop (shape_at + 2 + shape_len) data
      in case utf8_decode (take dtype_len (drop 11 data)) of
           None \<Rightarrow> Inl (PyExn ''UnicodeDecodeError'' [])
         | Some dtype \<Rightarrow>
             (case frombuffer raw_bytes dtype of
                Inl e \<Rightarrow> Inl e
              | Inr n \<Rightarrow>
                  if prod_list shape \<noteq> n then Inl (PyExn ''ValueError'' ''cannot reshape array'')
                  else Inr \<lparr>nd_dtype = dtype, nd_shape = shape, nd_bytes = raw_bytes\<rparr>))"

definition has_numpy_checksum :: "bytes \<Rightarrow> bool" where
  "has_numpy_checksum data \<longleftrightarrow> take 9 data \<noteq> NUMPY_MAGIC \<and> length data \<ge> 17 \<and> take 9 (drop 8 data) = NUMPY_MAGIC"

definition deserialize_numpy :: "(bytes \<Rightarrow> bytes) \<Rightarrow> (bytes \<Rightarrow> ucs \<Rightarrow> pyexn + nat) \<Rightarrow> bytes \<Rightarrow> pyexn + ndarray" where
  "deserialize_numpy digest frombuffer data =
     (if has_numpy_checksum data \<and> digest (drop 8 data) \<noteq> take 8 data
      then Inl (serialization_error ''NumPy integrity check failed: xxHash3-64 checksum mismatch (corrupted cache entry)'')
      else
        let body = (if has_numpy_checksum data then drop 8 data else data) in
        if take 9 body \<noteq> NUMPY_MAGIC then Inl (serialization_error ''Invalid NumPy data format - expected NUMPY_RAW header'')
        else (case read_numpy frombuffer body of
                Inl e \<Rightarrow> Inl (if is_value_error e \<or> exn_in [''IndexError''] e then serialization_error ''Failed to deserialize NumPy array'' else e)
              | Inr arr \<Rightarrow> Inr arr))"

section \<open>Properties of the JSON format\<close>

definition digest_size :: "(bytes \<Rightarrow> bytes) \<Rightarrow> bool" where
  "digest_size digest \<longleftrightarrow> (\<forall>b. length (digest b) = 8)"

lemma digest_parts [simp]: "digest_size digest \<Longrightarrow> take 8 (digest b @ c) = digest b" "digest_size digest \<Longrightarrow> drop 8 (digest b @ c) = c"
  by (simp_all add: digest_size_def)

text \<open>
  With integrity checking, a value is read back exactly when its JSON text has at least two bytes; the ten values whose text is one
  digit are stored and then refused as corrupted on every read. Without integrity checking every value is read back.
\<close>

theorem orjson_reads_back_iff:
  assumes "\<forall>v b. oj_dumps lib v = Inr b \<longrightarrow> oj_loads lib b = Inr v" "digest_size digest"
    and "oj_dumps lib obj = Inr json_data" "orjson_serialize lib digest integrity obj = Inr (data, m)"
  shows "orjson_deserialize lib digest integrity data metadata =
    (if integrity \<and> length json_data < 2 then Inl (serialization_error ''Invalid data: Expected at least 10 bytes'') else Inr obj)"
  using assms by (auto simp: orjson_serialize_def orjson_deserialize_def load_json_def digest_size_def)

definition digit_json :: "nat orjson_lib" where
  "digit_json = \<lparr>oj_dumps = (\<lambda>n. if n < 10 then Inr [word_of_nat (48 + n)] else Inl (PyExn ''JSONEncodeError'' [])),
     oj_loads = (\<lambda>b. case b of [c] \<Rightarrow> Inr (unat c - 48) | _ \<Rightarrow> Inl (PyExn ''JSONDecodeError'' []))\<rparr>"

theorem orjson_reads_back_iff_witness:
  "orjson_deserialize digit_json (\<lambda>b. replicate 8 0) True (replicate 8 0 @ [55]) None
     = Inl (serialization_error ''Invalid data: Expected at least 10 bytes'')"
proof -
  have law: "\<forall>v b. oj_dumps digit_json v = Inr b \<longrightarrow> oj_loads digit_json b = Inr v"
    by (auto simp: digit_json_def unat_word_of_nat_byte simp del: of_nat_add split: if_splits)
  have "orjson_serialize digit_json (\<lambda>b. replicate 8 0) True 7
      = Inr (replicate 8 0 @ [55], base_metadata ORJSON (HStr ''utf-8'') (HBool False) (HStr ''orjson''))"
    by (simp add: orjson_serialize_def digit_json_def)
  from orjson_reads_back_iff [OF law _ _ this, of "[55]" None] show ?thesis
    by (simp add: digest_size_def digit_json_def)
qed

section \<open>Properties of the Arrow format\<close>

lemma length_ARROW_MAGIC [simp]: "length ARROW_MAGIC = 6"
  by (simp add: ARROW_MAGIC_def str_bytes_def)

text \<open>On a monotone size the search ends at a count whose successor no longer fits.\<close>

lemma largest_fit_maximal:
  assumes "largest_fit sz lo hi rows < n" "n \<le> limit" "\<And>i j. i \<le> j \<Longrightarrow> sz i \<le> sz j" "1 \<le> lo" "rows = lo - 1" "rows \<le> hi"
    and "\<And>n. hi < n \<Longrightarrow> n \<le> limit \<Longrightarrow> TARGET_BATCH_BYTES < sz n"
  shows "TARGET_BATCH_BYTES < sz n"
  using assms
proof (induction sz lo hi rows rule: largest_fit.induct)
  case (1 sz lo hi rows)
  show ?case
  proof (cases "lo \<le> hi")
    case False
    with 1 show ?thesis by (simp add: largest_fit.simps)
  next
    case True
    define mid where "mid = (lo + hi) div 2"
    have mid: "lo \<le> mid" "mid \<le> hi" using True by (auto simp: mid_def)
    show ?thesis
    proof (cases "sz mid \<le> TARGET_BATCH_BYTES")
      case True
      then have "largest_fit sz lo hi rows = largest_fit sz (mid + 1) hi mid"
        using \<open>lo \<le> hi\<close> by (simp add: largest_fit.simps [of sz lo] mid_def Let_def)
      then show ?thesis using "1.IH"(1) [OF \<open>lo \<le> hi\<close> mid_def True] "1.prems" mid by auto
    next
      case False
      then have eq: "largest_fit sz lo hi rows = largest_fit sz lo (mid - 1) rows"
        using \<open>lo \<le> hi\<close> mid "1.prems" by (simp add: largest_fit.simps [of sz lo] mid_def Let_def)
      have "TARGET_BATCH_BYTES < sz k" if "mid - 1 < k" for k
        using "1.prems"(3) [of mid k] False that by linarith
      moreover have "rows \<le> mid - 1" using mid "1.prems" by linarith
      ultimately show ?thesis using "1.IH"(2) [OF \<open>lo \<le> hi\<close> mid_def False] "1.prems" mid eq by auto
    qed
  qed
qed

text \<open>
  The batches of a table cover its rows in order, without gap or overlap, and each of them is a single row or within 8 MiB; when the
  size of a slice grows with its rows, no batch could have taken one more row. The search ends for every table.
\<close>

theorem arrow_batches_bounded:
  assumes "\<And>offset i j. i \<le> j \<Longrightarrow> nbytes offset i \<le> nbytes offset j"
  shows "concat (map (\<lambda>(offset, n). [offset ..< offset + n]) (bounded_batches nbytes start num_rows)) = [start ..< num_rows]
    \<and> list_all (\<lambda>(offset, n). 1 \<le> n \<and> (n = 1 \<or> nbytes offset n \<le> TARGET_BATCH_BYTES)
         \<and> (offset + n = num_rows \<or> TARGET_BATCH_BYTES < nbytes offset (Suc n))) (bounded_batches nbytes start num_rows)"
  using assms
proof (induction nbytes start num_rows rule: bounded_batches.induct)
  case (1 nbytes start num_rows)
  show ?case
  proof (cases "start < num_rows")
    case False
    then show ?thesis by (simp add: bounded_batches.simps)
  next
    case True
    define rows where "rows = largest_fit (nbytes start) 2 (num_rows - start) 1"
    have fit: "1 \<le> rows" "rows \<le> num_rows - start" "rows = 1 \<or> nbytes start rows \<le> TARGET_BATCH_BYTES"
      using largest_fit_bounds [of 2 1 "nbytes start" "num_rows - start"] True by (auto simp: rows_def)
    have "TARGET_BATCH_BYTES < nbytes start (Suc rows)" if "start + rows \<noteq> num_rows"
      by (rule largest_fit_maximal [of _ 2 "num_rows - start" 1 _ "num_rows - start"]) (use that fit True "1.prems" in \<open>auto simp: rows_def\<close>)
    moreover have "bounded_batches nbytes start num_rows = (start, rows) # bounded_batches nbytes (start + rows) num_rows"
      using True by (simp add: bounded_batches.simps [of nbytes start] rows_def Let_def)
    moreover have "[start ..< start + rows] @ [start + rows ..< num_rows] = [start ..< num_rows]"
      using fit(2) True upt_add_eq_append [of start "start + rows" "num_rows - (start + rows)"] by simp
    ultimately show ?thesis using "1.IH" [OF True rows_def] "1.prems" fit by auto
  qed
qed

text \<open>Five rows of 3000000 bytes each.\<close>

theorem arrow_batches_bounded_witness:
  "bounded_batches (\<lambda>offset n. n * 3000000) 0 5 = [(0, 2), (2, 2), (4, 1)]
   \<and> concat (map (\<lambda>(offset, n). [offset ..< offset + n]) (bounded_batches (\<lambda>offset n. n * 3000000) 0 5)) = [0 ..< 5]"
proof -
  have "bounded_batches (\<lambda>offset n. n * 3000000) 0 5 = [(0, 2), (2, 2), (4, 1)]"
    by (simp add: bounded_batches.simps largest_fit.simps TARGET_BATCH_BYTES_def Let_def)
  with arrow_batches_bounded [of "\<lambda>offset n. n * 3000000" 0 5] show ?thesis by simp
qed

definition at_end :: "sink \<Rightarrow> bool" where "at_end s \<longleftrightarrow> sk_pos s = length (sk_data s)"

lemma sink_write_at_end: "at_end s \<Longrightarrow> sink_write b s = s\<lparr>sk_data := sk_data s @ b, sk_pos := length (sk_data s @ b)\<rparr>"
  by (simp add: sink_write_def at_end_def)

text \<open>What a run of the adapter leaves in the file: everything, or a prefix within the budget.\<close>

lemma hs_writes_effect:
  assumes "at_end (hs_raw h)" "hs_writes ds h = (r, h')"
  shows "\<exists>p q. concat ds = p @ q \<and> at_end (hs_raw h') \<and> sk_data (hs_raw h') = sk_data (hs_raw h) @ p
    \<and> (case hs_budget h of
         None \<Rightarrow> r = Inr ()
       | Some m \<Rightarrow> (r = Inr () \<longleftrightarrow> ds = [] \<or> int (hs_written h + length (concat ds)) \<le> m)
           \<and> (p = [] \<or> int (hs_written h + length p) \<le> m))
    \<and> (if r = Inr () then q = [] \<and> hs_hashed h' = hs_hashed h @ p else \<exists>t. r = Inl (PyExn ''ValueError'' t))"
  using assms
proof (induction ds arbitrary: h)
  case (Cons d ds)
  show ?case
  proof (cases "hs_write d h")
    case (Pair w h1)
    show ?thesis
    proof (cases w)
      case (Inl e)
      with Pair Cons.prems show ?thesis
        by (auto simp: hs_write_def Let_def split: option.splits if_splits)
    next
      case (Inr n)
      with Pair have h1: "h1 = h\<lparr>hs_written := hs_written h + length d, hs_hashed := hs_hashed h @ d, hs_raw := sink_write d (hs_raw h)\<rparr>"
        and budget: "\<And>m. hs_budget h = Some m \<Longrightarrow> int (hs_written h + length d) \<le> m"
        by (auto simp: hs_write_def Let_def split: option.splits if_splits)
      have end1: "at_end (hs_raw h1)" and data1: "sk_data (hs_raw h1) = sk_data (hs_raw h) @ d"
        using Cons.prems(1) by (simp_all add: h1 sink_write_at_end at_end_def)
      have "hs_writes ds h1 = (r, h')" using Cons.prems(2) Pair Inr by simp
      from Cons.IH [OF end1 this] obtain p q where pq: "concat ds = p @ q" "at_end (hs_raw h')" "sk_data (hs_raw h') = sk_data (hs_raw h1) @ p"
        "case hs_budget h1 of None \<Rightarrow> r = Inr ()
         | Some m \<Rightarrow> (r = Inr () \<longleftrightarrow> ds = [] \<or> int (hs_written h1 + length (concat ds)) \<le> m) \<and> (p = [] \<or> int (hs_written h1 + length p) \<le> m)"
        "if r = Inr () then q = [] \<and> hs_hashed h' = hs_hashed h1 @ p else \<exists>t. r = Inl (PyExn ''ValueError'' t)"
        by blast
      show ?thesis
        by (rule exI [of _ "d @ p"], rule exI [of _ q])
          (use pq data1 budget in \<open>auto simp: h1 algebra_simps split: option.splits if_splits\<close>)
    qed
  qed
qed (auto split: option.split)

text \<open>
  C30: Streaming a table into a file leaves exactly the bytes the buffered serializer returns, behind what the file held before, and
  returns the same metadata. Over the byte budget it raises \<^verbatim>\<open>ValueError\<close> and at most the budget (or the 8 reserved bytes of the
  checksum) has reached the file.
\<close>

theorem streamed_equals_buffered:
  assumes "arrow_serialize lib digest s obj = Inr (env, m)" "digest_size digest" "\<And>c t bs. ar_ipc lib c t bs \<noteq> []"
    and "at_end sink" "serialize_to_sink lib digest s obj sink max_bytes = (r, sink')"
  shows "if (case max_bytes of None \<Rightarrow> True | Some k \<Rightarrow> length env \<le> k)
    then r = Inr m \<and> sk_data sink' = sk_data sink @ env \<and> at_end sink'
    else (\<exists>t. r = Inl (PyExn ''ValueError'' t)) \<and> length (sk_data sink') \<le> length (sk_data sink) + max 8 (the max_bytes)
      \<and> take (length (sk_data sink)) (sk_data sink') = sk_data sink"
proof -
  obtain table where t: "to_table lib obj = Inr table" using assms(1) by (auto simp: arrow_serialize_def split: sum.splits)
  define ws where "ws = ipc_writes lib s table"
  have ne: "ws \<noteq> []" using assms(3) by (simp add: ws_def ipc_writes_def)
  have env: "env = digest (concat ws) @ concat ws" and m: "m = arrow_metadata s"
    using assms(1) t by (auto simp: arrow_serialize_def Let_def ws_def)
  have len: "length env = 8 + length (concat ws)" using assms(2) by (simp add: env digest_size_def)
  define h where "h = \<lparr>hs_raw = sink_write (replicate 8 0) sink, hs_hashed = [], hs_budget = map_option (\<lambda>m. int m - 8) max_bytes, hs_written = 0\<rparr>"
  obtain w h' where w: "hs_writes ws h = (w, h')" by force
  have e: "at_end (hs_raw h)" and d: "sk_data (hs_raw h) = sk_data sink @ replicate 8 0"
    using assms(4) by (auto simp: h_def sink_write_at_end at_end_def)
  from hs_writes_effect [OF e w] obtain p q where pq: "concat ws = p @ q" "at_end (hs_raw h')"
    "sk_data (hs_raw h') = sk_data sink @ replicate 8 0 @ p"
    "case hs_budget h of None \<Rightarrow> w = Inr ()
     | Some m \<Rightarrow> (w = Inr () \<longleftrightarrow> ws = [] \<or> int (hs_written h + length (concat ws)) \<le> m) \<and> (p = [] \<or> int (hs_written h + length p) \<le> m)"
    "if w = Inr () then q = [] \<and> hs_hashed h' = hs_hashed h @ p else \<exists>t. w = Inl (PyExn ''ValueError'' t)"
    unfolding d by auto
  show ?thesis
  proof (cases "w = Inr ()")
    case True
    have fits: "case max_bytes of None \<Rightarrow> True | Some k \<Rightarrow> length env \<le> k"
      using pq(4) ne True len by (auto simp: h_def split: option.splits)
    have c: "concat ws = p" "hs_hashed h' = p" using pq True by (auto simp: h_def)
    have "sk_pos sink = length (sk_data sink)" using assms(4) by (simp add: at_end_def)
    moreover have "serialize_to_sink lib digest s obj sink max_bytes = (Inr (arrow_metadata s),
        sink_seek (sk_pos (hs_raw h')) (sink_write (digest p) (sink_seek (sk_pos sink) (hs_raw h'))))"
      using w True c t by (simp add: serialize_to_sink_def Let_def h_def ws_def)
    ultimately show ?thesis
      using fits assms(2,5) pq(2,3) c m env by (auto simp: sink_write_def sink_seek_def at_end_def digest_size_def)
  next
    case False
    then obtain msg where msg: "w = Inl (PyExn ''ValueError'' msg)" using pq(5) by auto
    then have r: "r = Inl (PyExn ''ValueError'' msg)" "sink' = hs_raw h'"
      using w t assms(5) by (auto simp: serialize_to_sink_def Let_def h_def ws_def)
    have "\<not> (case max_bytes of None \<Rightarrow> True | Some k \<Rightarrow> length env \<le> k)"
      using pq(4) ne False len by (auto simp: h_def split: option.splits)
    moreover have "8 + length p \<le> max 8 (the max_bytes)"
      using pq(4) False by (auto simp: h_def split: option.splits)
    ultimately show ?thesis using r pq(3) by simp
  qed
qed

definition demo_arrow :: "(bytes, bytes, bytes) arrow_lib" where
  "demo_arrow = \<lparr>ar_from_pandas = Inr, ar_table = Inr, ar_rows = length, ar_nbytes = (\<lambda>t offset n. n),
     ar_ipc = (\<lambda>c t bs. ARROW_MAGIC # map (\<lambda>(offset, n). take n (drop offset t)) bs), ar_read = (\<lambda>b. Inr (drop 6 b)),
     ar_convert = (\<lambda>f t. t), ar_has_polars = False\<rparr>"

definition demo_arrow_serializer :: arrow_serializer where
  "demo_arrow_serializer = \<lparr>as_return_format = RPandas, as_compression = Some ''zstd''\<rparr>"

lemma demo_arrow_table: "arrow_serialize demo_arrow (\<lambda>b. replicate 8 7) demo_arrow_serializer (APandas [1, 2, 3])
    = Inr (replicate 8 7 @ ARROW_MAGIC @ [1, 2, 3], arrow_metadata demo_arrow_serializer)"
  by (simp add: arrow_serialize_def to_table_def ipc_writes_def demo_arrow_def demo_arrow_serializer_def Let_def
      bounded_batches.simps largest_fit.simps TARGET_BATCH_BYTES_def)

theorem streamed_equals_buffered_witness:
  "\<exists>r sink'. serialize_to_sink demo_arrow (\<lambda>b. replicate 8 7) demo_arrow_serializer (APandas [1, 2, 3]) \<lparr>sk_data = [67, 75], sk_pos = 2\<rparr> (Some 20) = (r, sink')
     \<and> sk_data sink' = [67, 75] @ replicate 8 7 @ ARROW_MAGIC @ [1, 2, 3]"
proof -
  obtain r sink' where r: "serialize_to_sink demo_arrow (\<lambda>b. replicate 8 7) demo_arrow_serializer (APandas [1, 2, 3])
      \<lparr>sk_data = [67, 75], sk_pos = 2\<rparr> (Some 20) = (r, sink')" by force
  have "sk_data sink' = [67, 75] @ replicate 8 7 @ ARROW_MAGIC @ [1, 2, 3]"
    using streamed_equals_buffered [OF demo_arrow_table _ _ _ r] by (simp add: digest_size_def at_end_def demo_arrow_def)
  with r show ?thesis by blast
qed

section \<open>Properties of the NumPy format\<close>

lemma length_le_bytes [simp]: "length (le_bytes k n) = k"
  by (simp add: le_bytes_def)

lemma le_val_le_bytes [simp]: "n < 256 ^ k \<Longrightarrow> le_val (le_bytes k n) = n"
  by (simp add: le_bytes_def le_val_def)

lemma length_shape_data [simp]: "length (shape_data shape) = 4 * length shape"
  by (induction shape) (simp_all add: shape_data_def)

lemma read_dims_step: "length d = 4 \<Longrightarrow> read_dims (d @ r) = le_val d # read_dims r"
  by (cases d) auto

lemma read_dims_shape: "list_all (\<lambda>dim. dim < 256 ^ 4) shape \<Longrightarrow> read_dims (shape_data shape) = shape"
  by (induction shape) (simp_all add: shape_data_def read_dims_step del: power_numeral)

lemma NUMPY_MAGIC_parts [simp]: "length NUMPY_MAGIC = 9" "take 9 (NUMPY_MAGIC @ r) = NUMPY_MAGIC"
  by (simp_all add: NUMPY_MAGIC_def str_bytes_def)

text \<open>A checksum in front of the magic is never taken for the magic itself: the ninth byte would have to be both \<open>W\<close> and \<open>N\<close>.\<close>

lemma has_numpy_checksum_prefixed: "length d = 8 \<Longrightarrow> take 9 body = NUMPY_MAGIC \<Longrightarrow> has_numpy_checksum (d @ body)"
proof -
  assume d: "length d = 8" and b: "take 9 body = NUMPY_MAGIC"
  have "length (take 9 body) = 9" using b by simp
  then have len: "9 \<le> length body" by simp
  have "take 9 (d @ body) ! 8 = NUMPY_MAGIC ! 0"
    using d b len by (simp add: nth_append) (metis NUMPY_MAGIC_parts(1) nth_take zero_less_numeral)
  moreover have "NUMPY_MAGIC ! 0 \<noteq> NUMPY_MAGIC ! 8" by (simp add: NUMPY_MAGIC_def str_bytes_def)
  ultimately have "take 9 (d @ body) \<noteq> NUMPY_MAGIC" by metis
  with d b len show ?thesis by (simp add: has_numpy_checksum_def)
qed

lemma read_numpy_payload:
  assumes "utf8 (nd_dtype arr) = Some ds" "length ds < 256 ^ 2" "list_all (\<lambda>dim. dim < 256 ^ 4) (nd_shape arr)" "4 * length (nd_shape arr) < 256 ^ 2"
    and "frombuffer (nd_bytes arr) (nd_dtype arr) = Inr (prod_list (nd_shape arr))"
  shows "read_numpy frombuffer (numpy_payload ds arr) = Inr arr"
proof -
  let ?sd = "shape_data (nd_shape arr)"
  have d9: "drop 9 (numpy_payload ds arr) = le_bytes 2 (length ds) @ ds @ le_bytes 2 (length ?sd) @ ?sd @ nd_bytes arr"
    by (simp add: numpy_payload_def)
  then have d11: "drop 11 (numpy_payload ds arr) = ds @ le_bytes 2 (length ?sd) @ ?sd @ nd_bytes arr"
    using drop_drop [of 2 9 "numpy_payload ds arr"] by simp
  then have dn: "drop (11 + length ds + k) (numpy_payload ds arr) = drop k (le_bytes 2 (length ?sd) @ ?sd @ nd_bytes arr)" for k
    using drop_drop [of "length ds + k" 11 "numpy_payload ds arr"] by (simp add: ac_simps)
  have lens: "le_val (take 2 (drop 9 (numpy_payload ds arr))) = length ds"
      "le_val (take 2 (drop (11 + length ds) (numpy_payload ds arr))) = length ?sd"
    using assms(2,4) d9 dn [of 0] by simp_all
  have "read_dims (take (length ?sd) (drop (11 + length ds + 2) (numpy_payload ds arr))) = nd_shape arr"
      "drop (11 + length ds + 2 + length ?sd) (numpy_payload ds arr) = nd_bytes arr"
    using dn [of 2] dn [of "2 + length ?sd"] read_dims_shape [OF assms(3)] by (simp_all add: add.assoc)
  moreover have "utf8_decode (take (length ds) (drop 11 (numpy_payload ds arr))) = Some (nd_dtype arr)" using d11 assms(1) by simp
  ultimately show ?thesis using assms(5) unfolding read_numpy_def Let_def lens by simp
qed

text \<open>
  Round trip of arrays: what the serializer accepted is read back with the same dtype, shape and bytes, with and without a checksum,
  provided numpy finds as many elements in the bytes as the shape has.
\<close>

theorem numpy_roundtrip:
  assumes "serialize_numpy digest integrity arr = Inr data" "digest_size digest"
    and "frombuffer (nd_bytes arr) (nd_dtype arr) = Inr (prod_list (nd_shape arr))"
  shows "deserialize_numpy digest frombuffer data = Inr arr"
proof -
  obtain ds where ds: "utf8 (nd_dtype arr) = Some ds" "length ds < 256 ^ 2" "list_all (\<lambda>dim. dim < 256 ^ 4) (nd_shape arr)"
      "4 * length (nd_shape arr) < 256 ^ 2"
    and data: "data = (if integrity then digest (numpy_payload ds arr) @ numpy_payload ds arr else numpy_payload ds arr)"
    using assms(1) by (auto simp: serialize_numpy_def Let_def list_ex_iff list_all_iff not_le split: option.splits if_splits)
  have magic: "take 9 (numpy_payload ds arr) = NUMPY_MAGIC" by (simp add: numpy_payload_def)
  have "has_numpy_checksum data = integrity"
    using has_numpy_checksum_prefixed [OF _ magic, of "digest (numpy_payload ds arr)"] assms(2) magic
    by (auto simp: data digest_size_def has_numpy_checksum_def)
  moreover have "read_numpy frombuffer (numpy_payload ds arr) = Inr arr" using ds assms(3) by (intro read_numpy_payload)
  ultimately show ?thesis
    using magic assms(2) by (cases integrity) (simp_all add: deserialize_numpy_def Let_def data digest_size_def)
qed

theorem numpy_roundtrip_witness:
  "deserialize_numpy (\<lambda>b. replicate 8 1) (\<lambda>b d. Inr (length b div 2))
     (replicate 8 1 @ NUMPY_MAGIC @ [2, 0] @ [105, 50] @ [8, 0] @ [2, 0, 0, 0, 1, 0, 0, 0] @ [9, 9, 7, 7]) =
   Inr \<lparr>nd_dtype = [105, 50], nd_shape = [2, 1], nd_bytes = [9, 9, 7, 7]\<rparr>"
proof -
  have le: "le_bytes 2 (Suc (Suc 0)) = [2, 0]" "le_bytes 2 (Suc (Suc (Suc (Suc (Suc (Suc (Suc (Suc 0)))))))) = [8, 0]" "le_bytes 4 2 = [2, 0, 0, 0]" "le_bytes 4 (Suc 0) = [1, 0, 0, 0]"
    by code_simp+
  have "serialize_numpy (\<lambda>b. replicate 8 1) True \<lparr>nd_dtype = [105, 50], nd_shape = [2, 1], nd_bytes = [9, 9, 7, 7]\<rparr>
      = Inr (replicate 8 1 @ NUMPY_MAGIC @ [2, 0] @ [105, 50] @ [8, 0] @ [2, 0, 0, 0, 1, 0, 0, 0] @ [9, 9, 7, 7])"
    using le by (simp add: serialize_numpy_def numpy_payload_def shape_data_def utf8_def utf8_nats_def utf8_char_def scalar_def)
  from numpy_roundtrip [OF this, of "\<lambda>b d. Inr (length b div 2)"] show ?thesis by (simp add: digest_size_def)
qed

section \<open>The contract of the three formats\<close>

text \<open>
  A format whose reader verifies the digest of everything behind it, as soon as what is behind it has the shape of a body.
\<close>

locale checksummed =
  fixes digest :: "bytes \<Rightarrow> bytes"
    and body_ok :: "bytes \<Rightarrow> bool"
    and read :: "bytes \<Rightarrow> pyexn + 'a"
  assumes mismatch_refused: "length d = 8 \<Longrightarrow> body_ok body \<Longrightarrow> digest body \<noteq> d \<Longrightarrow> \<exists>t. read (d @ body) = Inl (serialization_error t)"
begin

lemma read_verifies: "length d = 8 \<Longrightarrow> body_ok body \<Longrightarrow> read (d @ body) = Inr v \<Longrightarrow> digest body = d"
  using mismatch_refused by fastforce

lemma corruption_refused:
  assumes "length (digest body) = 8" "body_ok body'" "digest body' \<noteq> digest body"
  shows "\<exists>t. read (digest body @ body') = Inl (serialization_error t)"
  using mismatch_refused assms by blast

lemma damaged_digest_refused:
  assumes "length d = 8" "body_ok body" "d \<noteq> digest body"
  shows "\<exists>t. read (d @ body) = Inl (serialization_error t)"
  using mismatch_refused assms by metis

end

interpretation json_format: checksummed digest "\<lambda>b. 2 \<le> length b" "\<lambda>data. orjson_deserialize lib digest True data md" for lib digest md
  by unfold_locales (auto simp: orjson_deserialize_def)

interpretation arrow_format: checksummed digest "\<lambda>b. take 6 b = ARROW_MAGIC" "\<lambda>data. arrow_deserialize lib digest s data md" for lib digest s md
proof
  fix d body :: bytes
  assume d: "length d = 8" "take 6 body = ARROW_MAGIC" "digest body \<noteq> d"
  have "length (take 6 body) = 6" by (simp add: d(2))
  with d show "\<exists>t. arrow_deserialize lib digest s (d @ body) md = Inl (serialization_error t)"
    by (auto simp: arrow_deserialize_def Let_def)
qed

interpretation numpy_format: checksummed digest "\<lambda>b. take 9 b = NUMPY_MAGIC" "\<lambda>data. deserialize_numpy digest frombuffer data" for digest frombuffer
  using has_numpy_checksum_prefixed by unfold_locales (auto simp: deserialize_numpy_def)



text \<open>Round trip of tables, when pyarrow reads back the file it wrote.\<close>

lemma arrow_roundtrip:
  assumes "arrow_serialize lib digest s obj = Inr (data, m)" "digest_size digest" "to_table lib obj = Inr table"
    and "take 6 (concat (ipc_writes lib s table)) = ARROW_MAGIC" "ar_read lib (concat (ipc_writes lib s table)) = Inr table"
    and "as_return_format s = RPolars \<Longrightarrow> ar_has_polars lib"
  shows "arrow_deserialize lib digest s data metadata = Inr (ar_convert lib (as_return_format s) table)"
proof -
  let ?b = "concat (ipc_writes lib s table)"
  have data: "data = digest ?b @ ?b" using assms(1,3) by (auto simp: arrow_serialize_def Let_def)
  have "length (take 6 ?b) = 6" by (simp add: assms(4))
  then have "6 \<le> length ?b" by simp
  with assms data show ?thesis by (auto simp: arrow_deserialize_def Let_def digest_size_def)
qed

end
