(* ===== verification/Msgpack_Serializers.thy ===== *)
theory Msgpack_Serializers
  imports Checksummed_Formats
begin

text \<open>
  The two MessagePack serializers: the language-neutral \<^verbatim>\<open>StandardSerializer\<close> (\<^verbatim>\<open>serializers/standard_serializer.py\<close>) and the
  \<^verbatim>\<open>AutoSerializer\<close> (\<^verbatim>\<open>serializers/auto_serializer.py\<close>) with its markers for Python types and its detection of formats. The msgpack
  library, called with the encoder and decoder callbacks of the source, the storage envelope of the Rust extension, numpy, pandas and the
  parsers of dates and UUIDs are parameters.
\<close>

section \<open>Objects\<close>

text \<open>
  A class is known by what the encoders look at. A set is the list of its elements in iteration order, with whether it is frozen; dates and
  UUIDs are known by their text.
\<close>

record pyclass =
  pc_module :: string
  pc_name :: string
  pc_bases :: "string list"
  pc_model_dump :: bool
  pc_tablename :: bool
  pc_dict :: bool

datatype pobj =
    ONone | OBool bool | OInt int | OFloat f64 | OStr ucs | OBytes bytes
  | OList "pobj list" | OTuple "pobj list" | ODict "(pobj \<times> pobj) list" | OSet bool "pobj list"
  | ODatetime ucs | ODate ucs | OTime ucs | OUuid ucs | OArray ndarray | OObject pyclass

definition text_key :: "string \<Rightarrow> pobj" where "text_key s = OStr (ucs s)"

definition item :: "(pobj \<times> pobj) list \<Rightarrow> string \<Rightarrow> pobj option" where
  "item items k = map_of items (text_key k)"

fun obj_truthy :: "pobj \<Rightarrow> bool" where
  "obj_truthy ONone = False"
| "obj_truthy (OBool b) = b"
| "obj_truthy (OInt n) = (n \<noteq> 0)"
| "obj_truthy (OFloat w) = (w \<noteq> 0 \<and> w \<noteq> 0x8000000000000000)"
| "obj_truthy (OStr s) = (s \<noteq> [])"
| "obj_truthy (OBytes b) = (b \<noteq> [])"
| "obj_truthy (OList vs) = (vs \<noteq> [])"
| "obj_truthy (OTuple vs) = (vs \<noteq> [])"
| "obj_truthy (ODict items) = (items \<noteq> [])"
| "obj_truthy (OSet fr vs) = (vs \<noteq> [])"
| "obj_truthy _ = True"

fun hashable :: "pobj \<Rightarrow> bool" where
  "hashable (OList vs) = False"
| "hashable (ODict items) = False"
| "hashable (OSet fr vs) = fr"
| "hashable (OArray a) = False"
| "hashable (OTuple vs) = list_all hashable vs"
| "hashable _ = True"

section \<open>Encoder and decoder callbacks\<close>

record obj_parsers =
  op_datetime :: "pobj \<Rightarrow> pyexn + pobj"
  op_date :: "pobj \<Rightarrow> pyexn + pobj"
  op_time :: "pobj \<Rightarrow> pyexn + pobj"
  op_uuid :: "pobj \<Rightarrow> pyexn + pobj"

definition marked_value :: "string \<Rightarrow> pobj \<Rightarrow> pobj" where
  "marked_value mark v = ODict [(text_key mark, OBool True), (text_key ''value'', v)]"

fun wrap_tuples :: "pobj \<Rightarrow> pobj" where
  "wrap_tuples (OTuple vs) = marked_value ''__tuple__'' (OList (map wrap_tuples vs))"
| "wrap_tuples (OList vs) = OList (map wrap_tuples vs)"
| "wrap_tuples (ODict items) = ODict (map (\<lambda>(k, v). (k, wrap_tuples v)) items)"
| "wrap_tuples v = v"

definition unsupported :: "string \<Rightarrow> pyexn" where "unsupported = PyExn ''TypeError''"

fun auto_default :: "bool \<Rightarrow> pobj \<Rightarrow> pyexn + pobj" where
  "auto_default has_numpy (ODatetime s) = Inr (marked_value ''__datetime__'' (OStr s))"
| "auto_default has_numpy (ODate s) = Inr (marked_value ''__date__'' (OStr s))"
| "auto_default has_numpy (OTime s) = Inr (marked_value ''__time__'' (OStr s))"
| "auto_default has_numpy (OUuid s) = Inr (marked_value ''__uuid__'' (OStr s))"
| "auto_default has_numpy (OSet fr vs) =
     Inr (ODict [(text_key ''__set__'', OBool True), (text_key ''value'', OList vs), (text_key ''frozen'', OBool fr)])"
| "auto_default has_numpy (OArray a) =
     (if has_numpy
      then Inr (ODict [(text_key ''__ndarray__'', OBool True), (text_key ''data'', OBytes (nd_bytes a)),
             (text_key ''shape'', OList (map (\<lambda>n. OInt (int n)) (nd_shape a))), (text_key ''dtype'', OStr (nd_dtype a))])
      else Inl (unsupported ''AutoSerializer does not support custom classes''))"
| "auto_default has_numpy (OObject c) =
     Inl (unsupported
       (if pc_model_dump c then ''AutoSerializer does not support Pydantic models''
        else if pc_tablename c then ''AutoSerializer does not support ORM models''
        else if pc_dict c \<and> pc_module c \<noteq> ''builtins'' then ''AutoSerializer does not support custom classes''
        else ''Object is not MessagePack serializable''))"
| "auto_default has_numpy _ = Inl (unsupported ''Object is not MessagePack serializable'')"

text \<open>
  \<^verbatim>\<open>np.frombuffer(data, dtype).reshape(shape)\<close> on decoded fields. One dimension may be \<open>-1\<close>, which stands for what is left.
\<close>

fun dims_of :: "pobj list \<Rightarrow> int list option" where
  "dims_of [] = Some []"
| "dims_of (OInt n # vs) = map_option ((#) n) (dims_of vs)"
| "dims_of (v # vs) = None"

definition reshaped :: "nat \<Rightarrow> int list \<Rightarrow> nat list option" where
  "reshaped n dims =
     (let known = prod_list (map nat (filter (\<lambda>d. d \<noteq> - 1) dims)) in
      if list_ex (\<lambda>d. d < - 1) dims \<or> 1 < length (filter (\<lambda>d. d = - 1) dims) then None
      else if - 1 \<in> set dims then
        (if known = 0 \<or> n mod known \<noteq> 0 then None else Some (map (\<lambda>d. if d = - 1 then n div known else nat d) dims))
      else if known = n then Some (map nat dims) else None)"

definition rebuild_array :: "(bytes \<Rightarrow> ucs \<Rightarrow> pyexn + nat) \<Rightarrow> pobj \<Rightarrow> pobj \<Rightarrow> pobj \<Rightarrow> pyexn + pobj" where
  "rebuild_array frombuffer data shape dtype =
     (case (data, dtype, shape) of
        (OBytes b, OStr d, OList vs) \<Rightarrow>
          (case frombuffer b d of
             Inl e \<Rightarrow> Inl e
           | Inr n \<Rightarrow>
               (case dims_of vs of
                  None \<Rightarrow> Inl (PyExn ''TypeError'' ''object cannot be interpreted as an integer'')
                | Some dims \<Rightarrow>
                    (case reshaped n dims of
                       None \<Rightarrow> Inl (PyExn ''ValueError'' ''cannot reshape array'')
                     | Some sh \<Rightarrow> Inr (OArray \<lparr>nd_dtype = d, nd_shape = sh, nd_bytes = b\<rparr>))))
      | _ \<Rightarrow> Inl (PyExn ''TypeError'' ''data type not understood''))"

definition is_marked :: "(pobj \<times> pobj) list \<Rightarrow> string \<Rightarrow> bool" where
  "is_marked items mark \<longleftrightarrow> item items mark = Some (OBool True)"

definition with_value :: "(pobj \<times> pobj) list \<Rightarrow> (pobj \<Rightarrow> pyexn + pobj) \<Rightarrow> pyexn + pobj" where
  "with_value items f = (case item items ''value'' of None \<Rightarrow> Inl (serialization_error ''missing value field in cached data'') | Some v \<Rightarrow> f v)"

definition list_value :: "(pobj list \<Rightarrow> pyexn + pobj) \<Rightarrow> pobj \<Rightarrow> pyexn + pobj" where
  "list_value f v = (case v of OList vs \<Rightarrow> f vs | _ \<Rightarrow> Inl (serialization_error ''expected list''))"

definition make_set :: "bool \<Rightarrow> pobj list \<Rightarrow> pyexn + pobj" where
  "make_set fr vs = (if list_all hashable vs then Inr (OSet fr (remdups vs)) else Inl (PyExn ''TypeError'' ''unhashable type''))"

definition auto_object_hook :: "obj_parsers \<Rightarrow> (bytes \<Rightarrow> ucs \<Rightarrow> pyexn + nat) \<Rightarrow> bool \<Rightarrow> pobj \<Rightarrow> pyexn + pobj" where
  "auto_object_hook ps frombuffer has_numpy v =
     (case v of
        ODict items \<Rightarrow>
          if is_marked items ''__datetime__'' then with_value items (op_datetime ps)
          else if is_marked items ''__date__'' then with_value items (op_date ps)
          else if is_marked items ''__time__'' then with_value items (op_time ps)
          else if is_marked items ''__uuid__'' then
            with_value items (\<lambda>x. case op_uuid ps x of
                Inl e \<Rightarrow> Inl (if is_value_error e \<or> is_type_error e then serialization_error ''Invalid UUID format in cached data'' else e)
              | Inr u \<Rightarrow> Inr u)
          else if is_marked items ''__tuple__'' then with_value items (list_value (\<lambda>vs. Inr (OTuple vs)))
          else if is_marked items ''__set__'' then
            with_value items (list_value (make_set (case item items ''frozen'' of None \<Rightarrow> False | Some f \<Rightarrow> obj_truthy f)))
          else if is_marked items ''__ndarray__'' then
            (if \<not> has_numpy then Inl (serialization_error ''Cannot deserialize numpy array: numpy is not installed'')
             else (case (item items ''data'', item items ''shape'', item items ''dtype'') of
                     (Some d, Some s, Some t) \<Rightarrow> rebuild_array frombuffer d s t
                   | _ \<Rightarrow> Inl (serialization_error ''Invalid ndarray format: missing required fields in cached data'')))
          else Inr v
      | _ \<Rightarrow> Inr v)"

fun standard_default :: "pobj \<Rightarrow> pyexn + pobj" where
  "standard_default (ODatetime s) = Inr (marked_value ''__datetime__'' (OStr s))"
| "standard_default (ODate s) = Inr (marked_value ''__date__'' (OStr s))"
| "standard_default (OTime s) = Inr (marked_value ''__time__'' (OStr s))"
| "standard_default (OArray a) = Inl (unsupported ''StandardSerializer does not support NumPy arrays'')"
| "standard_default (OUuid s) = Inl (unsupported ''StandardSerializer does not support custom classes'')"
| "standard_default (OObject c) =
     Inl (unsupported
       (if pc_module c = ''pandas.core.frame'' \<and> pc_name c = ''DataFrame'' \<or> pc_module c = ''pandas.core.series'' \<and> pc_name c = ''Series''
        then ''StandardSerializer does not support pandas DataFrames or Series''
        else if ''BaseModel'' \<in> set (pc_bases c) then ''StandardSerializer does not support Pydantic models''
        else if list_ex (\<lambda>b. b \<in> {''Model'', ''DeclarativeBase'', ''Base''}) (pc_bases c) then ''StandardSerializer does not support ORM models''
        else if pc_module c \<noteq> ''builtins'' then ''StandardSerializer does not support custom classes''
        else ''Object is not supported by StandardSerializer''))"
| "standard_default _ = Inl (unsupported ''Object is not supported by StandardSerializer'')"

definition truthy_item :: "(pobj \<times> pobj) list \<Rightarrow> string \<Rightarrow> bool" where
  "truthy_item items mark \<longleftrightarrow> (case item items mark of None \<Rightarrow> False | Some v \<Rightarrow> obj_truthy v)"

definition with_some_value :: "(pobj \<times> pobj) list \<Rightarrow> (pobj \<Rightarrow> pyexn + pobj) \<Rightarrow> pyexn + pobj" where
  "with_some_value items f =
     (case item items ''value'' of
        None \<Rightarrow> Inl (serialization_error ''missing value field in cached data'')
      | Some v \<Rightarrow> if v = ONone then Inl (serialization_error ''missing value field in cached data'') else f v)"

definition standard_object_hook :: "obj_parsers \<Rightarrow> pobj \<Rightarrow> pyexn + pobj" where
  "standard_object_hook ps v =
     (case v of
        ODict items \<Rightarrow>
          if truthy_item items ''__datetime__'' then with_some_value items (op_datetime ps)
          else if truthy_item items ''__date__'' then with_some_value items (op_date ps)
          else if truthy_item items ''__time__'' then with_some_value items (op_time ps)
          else Inr v
      | _ \<Rightarrow> Inr v)"

section \<open>The serializers\<close>

text \<open>
  \<^verbatim>\<open>packb\<close> and \<^verbatim>\<open>unpackb\<close> with the callback they are given; \<^verbatim>\<open>ByteStorage.store\<close>, \<^verbatim>\<open>retrieve\<close> and \<^verbatim>\<open>validate\<close>. A failed \<^verbatim>\<open>retrieve\<close> raises
  \<^verbatim>\<open>ValueError\<close>.
\<close>

record pack_lib =
  pl_packb :: "(pobj \<Rightarrow> pyexn + pobj) \<Rightarrow> pobj \<Rightarrow> pyexn + bytes"
  pl_unpackb :: "(pobj \<Rightarrow> pyexn + pobj) \<Rightarrow> bytes \<Rightarrow> pyexn + pobj"
  pl_store :: "bytes \<Rightarrow> string \<Rightarrow> pyexn + bytes"
  pl_retrieve :: "bytes \<Rightarrow> pyexn + bytes \<times> string"
  pl_validate :: "bytes \<Rightarrow> bool"
  pl_parsers :: obj_parsers

definition msgpack_metadata :: "bool \<Rightarrow> string \<Rightarrow> ser_metadata" where
  "msgpack_metadata compressed original_type = base_metadata MSGPACK (HStr ''utf-8'') (HBool compressed) (HStr original_type)"

text \<open>The envelope around packed bytes, when integrity checking is on.\<close>

definition enveloped :: "pack_lib \<Rightarrow> bool \<Rightarrow> string \<Rightarrow> pyexn + bytes \<Rightarrow> pyexn + bytes" where
  "enveloped lib integrity fmt packed = (case packed of Inl e \<Rightarrow> Inl e | Inr b \<Rightarrow> if integrity then pl_store lib b fmt else Inr b)"

definition standard_serialize :: "pack_lib \<Rightarrow> bool \<Rightarrow> pobj \<Rightarrow> pyexn + bytes \<times> ser_metadata" where
  "standard_serialize lib integrity obj =
     (case enveloped lib integrity ''msgpack'' (pl_packb lib standard_default obj) of
        Inl e \<Rightarrow> Inl (if is_type_error e then e
                      else if is_value_error e then serialization_error ''Failed to serialize object to MessagePack'' else e)
      | Inr b \<Rightarrow> Inr (b, msgpack_metadata integrity ''msgpack''))"

definition is_unpack_exception :: "pyexn \<Rightarrow> bool" where
  "is_unpack_exception = exn_in [''UnpackException'', ''BufferFull'', ''OutOfData'', ''FormatError'', ''StackError'', ''ExtraData'', ''UnpackValueError'']"

definition standard_deserialize :: "pack_lib \<Rightarrow> bool \<Rightarrow> bytes \<Rightarrow> ser_metadata option \<Rightarrow> pyexn + pobj" where
  "standard_deserialize lib integrity data metadata =
     (case (case (if integrity then map_sum id fst (pl_retrieve lib data) else Inr data) of
              Inl e \<Rightarrow> Inl e
            | Inr msgpack_data \<Rightarrow> pl_unpackb lib (standard_object_hook (pl_parsers lib)) msgpack_data) of
        Inl e \<Rightarrow> Inl (if is_serialization_error e then e
                      else if is_unpack_exception e \<or> is_value_error e \<or> is_type_error e then serialization_error ''Failed to deserialize MessagePack data''
                      else e)
      | Inr v \<Rightarrow> Inr v)"

section \<open>The automatic serializer\<close>

text \<open>
  Tables. A column is a plain numeric buffer or a list of cells, each with whether pandas counts it as missing; the index is absent when it
  is the unnamed default. What pandas builds from decoded columns is a parameter.
\<close>

datatype column = NumericCol bytes ucs | ObjectCol "(bool \<times> pobj) list"

record frame =
  fr_columns :: "pobj list"
  fr_index :: "pobj list option"
  fr_data :: "(pobj \<times> column) list"

record series =
  se_name :: pobj
  se_index :: "pobj list option"
  se_column :: column

datatype auto_obj = Plain pobj | Frame frame | Series series

record auto_lib =
  al_pack :: pack_lib
  al_digest :: "bytes \<Rightarrow> bytes"
  al_frombuffer :: "bytes \<Rightarrow> ucs \<Rightarrow> pyexn + nat"
  al_has_numpy :: bool
  al_has_pandas :: bool
  al_arrow :: "auto_obj serializer option"
  al_make_frame :: "(pobj \<times> column) list \<Rightarrow> pobj \<Rightarrow> pobj \<Rightarrow> pyexn + frame"
  al_make_series :: "column \<Rightarrow> pobj \<Rightarrow> pobj \<Rightarrow> pyexn + series"

definition auto_hook :: "auto_lib \<Rightarrow> pobj \<Rightarrow> pyexn + pobj" where
  "auto_hook lib = auto_object_hook (pl_parsers (al_pack lib)) (al_frombuffer lib) (al_has_numpy lib)"

definition auto_unpackb :: "auto_lib \<Rightarrow> bytes \<Rightarrow> pyexn + pobj" where
  "auto_unpackb lib = pl_unpackb (al_pack lib) (auto_hook lib)"

definition auto_packb :: "auto_lib \<Rightarrow> pobj \<Rightarrow> pyexn + bytes" where
  "auto_packb lib = pl_packb (al_pack lib) (auto_default (al_has_numpy lib))"

definition na_safe_object_list :: "(bool \<times> pobj) list \<Rightarrow> pobj" where
  "na_safe_object_list cells = OList (map (\<lambda>(is_na, v). if is_na then ONone else v) cells)"

definition column_fields :: "column \<Rightarrow> (pobj \<times> pobj) list" where
  "column_fields c =
     (case c of
        NumericCol b d \<Rightarrow> [(text_key ''type'', text_key ''numeric''), (text_key ''data'', OBytes b), (text_key ''dtype'', OStr d)]
      | ObjectCol cells \<Rightarrow> [(text_key ''type'', text_key ''object''), (text_key ''data'', na_safe_object_list cells)])"

definition index_field :: "pobj list option \<Rightarrow> pobj" where
  "index_field ix = (case ix of None \<Rightarrow> ONone | Some vs \<Rightarrow> OList vs)"

definition serialize_dataframe :: "auto_lib \<Rightarrow> bool \<Rightarrow> frame \<Rightarrow> pyexn + bytes" where
  "serialize_dataframe lib integrity df = enveloped (al_pack lib) integrity ''dataframe'' (auto_packb lib
     (ODict [(text_key ''columns'', OList (fr_columns df)), (text_key ''index'', index_field (fr_index df)),
        (text_key ''data'', ODict (map (\<lambda>(k, c). (k, ODict (column_fields c))) (fr_data df)))]))"

definition serialize_series :: "auto_lib \<Rightarrow> bool \<Rightarrow> series \<Rightarrow> pyexn + bytes" where
  "serialize_series lib integrity se = enveloped (al_pack lib) integrity ''series'' (auto_packb lib
     (ODict ([(text_key ''name'', se_name se), (text_key ''index'', index_field (se_index se))] @ column_fields (se_column se))))"

definition serialize_msgpack :: "auto_lib \<Rightarrow> bool \<Rightarrow> pobj \<Rightarrow> pyexn + bytes" where
  "serialize_msgpack lib integrity obj = enveloped (al_pack lib) integrity ''msgpack'' (auto_packb lib (wrap_tuples obj))"

definition auto_serialize :: "auto_lib \<Rightarrow> bool \<Rightarrow> auto_obj \<Rightarrow> pyexn + bytes \<times> ser_metadata" where
  "auto_serialize lib integrity obj =
     (let tagged = (\<lambda>compressed t r. map_sum id (\<lambda>b. (b, msgpack_metadata compressed t)) r) in
      case obj of
        Plain (OArray a) \<Rightarrow>
          if al_has_numpy lib then tagged False ''numpy'' (serialize_numpy (al_digest lib) integrity a)
          else tagged integrity ''msgpack'' (serialize_msgpack lib integrity (OArray a))
      | Plain v \<Rightarrow> tagged integrity ''msgpack'' (serialize_msgpack lib integrity v)
      | Frame df \<Rightarrow>
          (case al_arrow lib of
             Some ar \<Rightarrow> sr_serialize ar obj
           | None \<Rightarrow> tagged integrity ''dataframe'' (serialize_dataframe lib integrity df))
      | Series se \<Rightarrow> tagged integrity ''series'' (serialize_series lib integrity se))"

text \<open>\<^verbatim>\<open>d[k]\<close> on a decoded value.\<close>

definition subscript :: "pobj \<Rightarrow> string \<Rightarrow> pyexn + pobj" where
  "subscript v k =
     (case v of
        ODict items \<Rightarrow> (case item items k of None \<Rightarrow> Inl (PyExn ''KeyError'' k) | Some x \<Rightarrow> Inr x)
      | _ \<Rightarrow> Inl (PyExn ''TypeError'' ''indices must be integers''))"

definition read_column :: "auto_lib \<Rightarrow> pobj \<Rightarrow> pyexn + column" where
  "read_column lib info =
     (case subscript info ''type'' of
        Inl e \<Rightarrow> Inl e
      | Inr t \<Rightarrow>
          (case subscript info ''data'' of
             Inl e \<Rightarrow> Inl e
           | Inr d \<Rightarrow>
               if t \<noteq> text_key ''numeric'' then Inr (ObjectCol (case d of OList vs \<Rightarrow> map (Pair False) vs | _ \<Rightarrow> [(False, d)]))
               else (case subscript info ''dtype'' of
                       Inl e \<Rightarrow> Inl e
                     | Inr dt \<Rightarrow>
                         (case (d, dt) of
                            (OBytes b, OStr s) \<Rightarrow> (case al_frombuffer lib b s of Inl e \<Rightarrow> Inl e | Inr n \<Rightarrow> Inr (NumericCol b s))
                          | _ \<Rightarrow> Inl (PyExn ''TypeError'' ''a bytes-like object is required'')))))"

fun read_columns :: "auto_lib \<Rightarrow> (pobj \<times> pobj) list \<Rightarrow> pyexn + (pobj \<times> column) list" where
  "read_columns lib [] = Inr []"
| "read_columns lib ((k, info) # rest) =
     (case read_column lib info of
        Inl e \<Rightarrow> Inl e
      | Inr c \<Rightarrow> (case read_columns lib rest of Inl e \<Rightarrow> Inl e | Inr cs \<Rightarrow> Inr ((k, c) # cs)))"

definition not_bytes :: pyexn where "not_bytes = PyExn ''TypeError'' ''a bytes-like object is required''"

definition deserialize_dataframe :: "auto_lib \<Rightarrow> pobj \<Rightarrow> pyexn + auto_obj" where
  "deserialize_dataframe lib v =
     (if \<not> al_has_pandas lib then Inl (PyExn ''RuntimeError'' ''Pandas not installed'') else
      case (case v of ODict items \<Rightarrow> Inr v | OBytes b \<Rightarrow> auto_unpackb lib b | _ \<Rightarrow> Inl not_bytes) of
        Inl e \<Rightarrow> Inl e
      | Inr d \<Rightarrow>
          (case subscript d ''data'' of
             Inl e \<Rightarrow> Inl e
           | Inr (ODict infos) \<Rightarrow>
               (case read_columns lib infos of
                  Inl e \<Rightarrow> Inl e
                | Inr cs \<Rightarrow>
                    (case (subscript d ''columns'', subscript d ''index'') of
                       (Inr cols, Inr ix) \<Rightarrow> map_sum id Frame (al_make_frame lib cs cols ix)
                     | (Inl e, _) \<Rightarrow> Inl e
                     | (_, Inl e) \<Rightarrow> Inl e))
           | Inr _ \<Rightarrow> Inl (PyExn ''AttributeError'' ''items'')))"

definition deserialize_series :: "auto_lib \<Rightarrow> pobj \<Rightarrow> pyexn + auto_obj" where
  "deserialize_series lib v =
     (if \<not> al_has_pandas lib then Inl (PyExn ''RuntimeError'' ''Pandas not installed'') else
      case (case v of ODict items \<Rightarrow> Inr v | OBytes b \<Rightarrow> auto_unpackb lib b | _ \<Rightarrow> Inl not_bytes) of
        Inl e \<Rightarrow> Inl e
      | Inr d \<Rightarrow>
          (case read_column lib d of
             Inl e \<Rightarrow> Inl e
           | Inr c \<Rightarrow>
               (case (subscript d ''name'', subscript d ''index'') of
                  (Inr nm, Inr ix) \<Rightarrow> map_sum id Series (al_make_series lib c nm ix)
                | (Inl e, _) \<Rightarrow> Inl e
                | (_, Inl e) \<Rightarrow> Inl e)))"

definition auto_numpy :: "auto_lib \<Rightarrow> bytes \<Rightarrow> pyexn + auto_obj" where
  "auto_numpy lib data =
     (if \<not> al_has_numpy lib then Inl (PyExn ''RuntimeError'' ''NumPy not installed'')
      else map_sum id (\<lambda>a. Plain (OArray a)) (deserialize_numpy (al_digest lib) (al_frombuffer lib) data))"

definition auto_arrow :: "auto_lib \<Rightarrow> bytes \<Rightarrow> ser_metadata option \<Rightarrow> pyexn + auto_obj" where
  "auto_arrow lib data metadata =
     (case al_arrow lib of
        Some ar \<Rightarrow> sr_deserialize ar data metadata
      | None \<Rightarrow> Inl (serialization_error ''Cannot deserialize Arrow format: ArrowSerializer not available''))"

definition unpack_then :: "auto_lib \<Rightarrow> (pobj \<Rightarrow> pyexn + auto_obj) \<Rightarrow> bytes \<Rightarrow> pyexn + auto_obj" where
  "unpack_then lib f b = (case auto_unpackb lib b of Inl e \<Rightarrow> Inl e | Inr v \<Rightarrow> f v)"

text \<open>The table branches: a failed integrity check is an error of its own.\<close>

definition checked_table :: "auto_lib \<Rightarrow> bool \<Rightarrow> string \<Rightarrow> (pobj \<Rightarrow> pyexn + auto_obj) \<Rightarrow> bytes \<Rightarrow> pyexn + auto_obj" where
  "checked_table lib integrity msg f data =
     (if integrity \<and> length data > 4 then
        (case pl_retrieve (al_pack lib) data of
           Inl e \<Rightarrow> Inl (if is_value_error e \<or> is_serialization_error e then serialization_error msg else e)
         | Inr (original, fmt) \<Rightarrow> unpack_then lib f original)
      else unpack_then lib f data)"

text \<open>What is done with the contents of an envelope, and with bytes that are taken for no envelope.\<close>

definition read_envelope :: "auto_lib \<Rightarrow> bytes \<Rightarrow> ser_metadata option \<Rightarrow> pyexn + auto_obj" where
  "read_envelope lib data metadata =
     (case pl_retrieve (al_pack lib) data of
        Inl e \<Rightarrow> Inl e
      | Inr (original, format_id) \<Rightarrow>
          (let detected = (case metadata of Some m \<Rightarrow> sm_original_type m | None \<Rightarrow> HStr format_id) in
           if detected = HStr ''numpy'' then auto_numpy lib original
           else if detected = HStr ''dataframe'' then unpack_then lib (deserialize_dataframe lib) original
           else if detected = HStr ''series'' then unpack_then lib (deserialize_series lib) original
           else unpack_then lib (Inr \<circ> Plain) original))"

definition read_unenveloped :: "auto_lib \<Rightarrow> bytes \<Rightarrow> ser_metadata option \<Rightarrow> pyexn + auto_obj" where
  "read_unenveloped lib data metadata =
     (if length data \<ge> 14 \<and> take 6 (drop 8 data) = ARROW_MAGIC \<or> length data \<ge> 6 \<and> take 6 data = ARROW_MAGIC
      then auto_arrow lib data metadata
      else case auto_unpackb lib data of
             Inl e \<Rightarrow> if is_serialization_error e then Inl e else auto_numpy lib data
           | Inr v \<Rightarrow> Inr (Plain v))"

definition looks_like_numpy :: "bytes \<Rightarrow> bool" where
  "looks_like_numpy data \<longleftrightarrow> take 9 data = NUMPY_MAGIC \<or> length data \<ge> 17 \<and> take 9 (drop 8 data) = NUMPY_MAGIC"

definition auto_deserialize :: "auto_lib \<Rightarrow> bool \<Rightarrow> bytes \<Rightarrow> ser_metadata option \<Rightarrow> pyexn + auto_obj" where
  "auto_deserialize lib integrity data metadata =
     (let detected = (case metadata of Some m \<Rightarrow> sm_original_type m | None \<Rightarrow> HNone) in
      if looks_like_numpy data then auto_numpy lib data
      else if detected = HStr ''numpy'' then auto_numpy lib data
      else if detected = HStr ''arrow'' then auto_arrow lib data metadata
      else if detected = HStr ''dataframe'' then
        checked_table lib integrity ''DataFrame integrity check failed (corrupted cache entry)'' (deserialize_dataframe lib) data
      else if detected = HStr ''series'' then
        checked_table lib integrity ''Series integrity check failed (corrupted cache entry)'' (deserialize_series lib) data
      else if integrity then
        (case read_envelope lib data metadata of
           Inr v \<Rightarrow> Inr v
         | Inl e \<Rightarrow> if is_serialization_error e then Inl e else read_unenveloped lib data metadata)
      else read_unenveloped lib data metadata)"

definition validate_data :: "auto_lib \<Rightarrow> bool \<Rightarrow> bytes \<Rightarrow> pyexn + bool" where
  "validate_data lib integrity data =
     (if integrity then Inr (pl_validate (al_pack lib) data)
      else case auto_unpackb lib data of
             Inr v \<Rightarrow> Inr True
           | Inl e \<Rightarrow> if is_unpack_exception e \<or> is_value_error e \<or> is_type_error e \<or> exn_in [''AttributeError''] e then Inr False else Inl e)"

end
