(* ===== verification/Msgpack_Roundtrip.thy ===== *)
theory Msgpack_Roundtrip
  imports Msgpack_Serializers
begin

text \<open>
  What the two MessagePack serializers guarantee: the documented behaviour of the msgpack library as a specification on documents, the
  round trips of both serializers through it, and what happens to entries that cannot be read.
\<close>

section \<open>The library\<close>

text \<open>
  A document, what \<^verbatim>\<open>packb\<close> makes of an object with its \<^verbatim>\<open>default\<close> callback (asked once for an object the format does not have, with a limit
  on the nesting), and what \<^verbatim>\<open>unpackb\<close> makes of a document with its \<^verbatim>\<open>object_hook\<close> (applied to every map, innermost first; only text and
  bytes are accepted as keys).
\<close>

datatype mdoc =
    MNil | MBool bool | MInt int | MFloat f64 | MStr ucs | MBin bytes | MArr "mdoc list" | MMap "(mdoc \<times> mdoc) list"

fun all_of :: "('a \<Rightarrow> pyexn + 'b) \<Rightarrow> 'a list \<Rightarrow> pyexn + 'b list" where
  "all_of f [] = Inr []"
| "all_of f (x # xs) = (case f x of Inl e \<Rightarrow> Inl e | Inr y \<Rightarrow> (case all_of f xs of Inl e \<Rightarrow> Inl e | Inr ys \<Rightarrow> Inr (y # ys)))"

definition both :: "('a \<Rightarrow> pyexn + 'b) \<Rightarrow> 'a \<times> 'a \<Rightarrow> pyexn + 'b \<times> 'b" where
  "both f kv = (case f (fst kv) of Inl e \<Rightarrow> Inl e | Inr k \<Rightarrow> (case f (snd kv) of Inl e \<Rightarrow> Inl e | Inr v \<Rightarrow> Inr (k, v)))"

fun native :: "pobj \<Rightarrow> bool" where
  "native (OInt n) = (INT64_MIN \<le> n \<and> n \<le> UINT64_MAX)"
| "native ONone = True" | "native (OBool b) = True" | "native (OFloat w) = True" | "native (OStr s) = True" | "native (OBytes b) = True"
| "native (OList vs) = True" | "native (OTuple vs) = True" | "native (ODict items) = True"
| "native _ = False"

fun node :: "(pobj \<Rightarrow> pyexn + mdoc) \<Rightarrow> pobj \<Rightarrow> pyexn + mdoc" where
  "node f ONone = Inr MNil"
| "node f (OBool b) = Inr (MBool b)"
| "node f (OInt n) = (if native (OInt n) then Inr (MInt n) else Inl (PyExn ''OverflowError'' []))"
| "node f (OFloat w) = Inr (MFloat w)"
| "node f (OStr s) = (if list_all scalar s then Inr (MStr s) else Inl (PyExn ''UnicodeEncodeError'' []))"
| "node f (OBytes b) = Inr (MBin b)"
| "node f (OList vs) = map_sum id MArr (all_of f vs)"
| "node f (OTuple vs) = map_sum id MArr (all_of f vs)"
| "node f (ODict items) = map_sum id MMap (all_of (both f) items)"
| "node f _ = Inl (PyExn ''TypeError'' ''can not serialize object'')"

primrec document :: "(pobj \<Rightarrow> pyexn + pobj) \<Rightarrow> nat \<Rightarrow> pobj \<Rightarrow> pyexn + mdoc" where
  "document dflt 0 v = Inl (PyExn ''ValueError'' ''recursion limit exceeded'')"
| "document dflt (Suc n) v =
     (case (if native v then Inr v else dflt v) of Inl e \<Rightarrow> Inl e | Inr w \<Rightarrow> node (document dflt n) w)"

fun revive :: "(pobj \<Rightarrow> pyexn + pobj) \<Rightarrow> mdoc \<Rightarrow> pyexn + pobj"
  and revive_all :: "(pobj \<Rightarrow> pyexn + pobj) \<Rightarrow> mdoc list \<Rightarrow> pyexn + pobj list"
  and revive_items :: "(pobj \<Rightarrow> pyexn + pobj) \<Rightarrow> (mdoc \<times> mdoc) list \<Rightarrow> pyexn + (pobj \<times> pobj) list" where
  "revive hook MNil = Inr ONone"
| "revive hook (MBool b) = Inr (OBool b)"
| "revive hook (MInt n) = Inr (OInt n)"
| "revive hook (MFloat w) = Inr (OFloat w)"
| "revive hook (MStr s) = Inr (OStr s)"
| "revive hook (MBin b) = Inr (OBytes b)"
| "revive hook (MArr ds) = map_sum id OList (revive_all hook ds)"
| "revive hook (MMap m) = (case revive_items hook m of Inl e \<Rightarrow> Inl e | Inr items \<Rightarrow> hook (ODict items))"
| "revive_all hook [] = Inr []"
| "revive_all hook (d # ds) =
     (case revive hook d of Inl e \<Rightarrow> Inl e | Inr v \<Rightarrow> (case revive_all hook ds of Inl e \<Rightarrow> Inl e | Inr vs \<Rightarrow> Inr (v # vs)))"
| "revive_items hook [] = Inr []"
| "revive_items hook ((k, d) # m) =
     (case revive hook d of
        Inl e \<Rightarrow> Inl e
      | Inr v \<Rightarrow>
          (case k of
             MStr s \<Rightarrow> (case revive_items hook m of Inl e \<Rightarrow> Inl e | Inr rest \<Rightarrow> Inr ((OStr s, v) # rest))
           | MBin b \<Rightarrow> (case revive_items hook m of Inl e \<Rightarrow> Inl e | Inr rest \<Rightarrow> Inr ((OBytes b, v) # rest))
           | _ \<Rightarrow> Inl (PyExn ''ValueError'' ''is not allowed for map key when strict_map_key=True'')))"

definition msgpack_lawful :: "nat \<Rightarrow> pack_lib \<Rightarrow> bool" where
  "msgpack_lawful limit lib \<longleftrightarrow>
     (\<forall>dflt v b. pl_packb lib dflt v = Inr b \<longrightarrow>
        (\<exists>d. document dflt limit v = Inr d \<and> (\<forall>hook. pl_unpackb lib hook b = revive hook d)))"

text \<open>The envelope: what was stored is retrieved.\<close>

definition storage_lawful :: "pack_lib \<Rightarrow> bool" where
  "storage_lawful lib \<longleftrightarrow> (\<forall>b fmt env. pl_store lib b fmt = Inr env \<longrightarrow> pl_retrieve lib env = Inr (b, fmt))"

section \<open>Markers\<close>

lemma all_of_back:
  assumes "all_of f vs = Inr ds" "\<And>v d. v \<in> set vs \<Longrightarrow> f v = Inr d \<Longrightarrow> revive hook d = Inr (g v)"
  shows "revive_all hook ds = Inr (map g vs)"
  using assms
proof (induction vs arbitrary: ds)
  case (Cons v vs)
  from Cons.prems(1) obtain d ds' where d: "f v = Inr d" "all_of f vs = Inr ds'" "ds = d # ds'" by (auto split: sum.splits)
  have "revive hook d = Inr (g v)" using Cons.prems(2) [of v d] d(1) by simp
  moreover have "revive_all hook ds' = Inr (map g vs)" by (rule Cons.IH [OF d(2) Cons.prems(2) [OF list.set_intros(2)]])
  ultimately show ?case using d(3) by simp
qed simp

lemma all_of_map: "all_of (f \<circ> g) vs = all_of f (map g vs)"
  by (induction vs) (simp_all split: sum.split)

lemma both_Inr: "both f (k, v) = Inr p \<longleftrightarrow> (\<exists>a b. f k = Inr a \<and> f v = Inr b \<and> p = (a, b))"
  by (auto simp: both_def split: sum.splits)

definition key_ok :: "pobj \<Rightarrow> bool" where
  "key_ok k \<longleftrightarrow> (case k of OStr s \<Rightarrow> True | OBytes b \<Rightarrow> True | _ \<Rightarrow> False)"

lemma document_key:
  "key_ok k \<Longrightarrow> document dflt n k = Inr d \<Longrightarrow> (case k of OStr s \<Rightarrow> d = MStr s | OBytes b \<Rightarrow> d = MBin b | _ \<Rightarrow> False)"
  by (cases n; cases k) (auto simp: key_ok_def split: if_splits)

lemma all_of_items_back:
  assumes "all_of (both (document dflt n)) (map (\<lambda>(k, v). (k, pre v)) items) = Inr ds" "\<And>k v. (k, v) \<in> set items \<Longrightarrow> key_ok k"
    and "\<And>k v d. (k, v) \<in> set items \<Longrightarrow> document dflt n (pre v) = Inr d \<Longrightarrow> revive hook d = Inr (g v)"
  shows "revive_items hook ds = Inr (map (\<lambda>(k, v). (k, g v)) items)"
  using assms
proof (induction items arbitrary: ds)
  case (Cons kv items)
  obtain k v where kv: "kv = (k, v)" by force
  from Cons.prems(1) obtain dk dv ds' where d: "document dflt n k = Inr dk" "document dflt n (pre v) = Inr dv"
    "all_of (both (document dflt n)) (map (\<lambda>(k, v). (k, pre v)) items) = Inr ds'" "ds = (dk, dv) # ds'"
    by (auto simp: kv both_Inr split: sum.splits)
  have "revive_items hook ds' = Inr (map (\<lambda>(k, v). (k, g v)) items)"
    by (rule Cons.IH [OF d(3) Cons.prems(2) [OF list.set_intros(2)] Cons.prems(3) [OF list.set_intros(2)]])
  moreover have "revive hook dv = Inr (g v)" using Cons.prems(3) [of k v dv] d(2) by (simp add: kv)
  moreover have "key_ok k" using Cons.prems(2) [of k v] by (simp add: kv)
  ultimately show ?case using document_key [OF _ d(1)] by (cases k) (auto simp: kv d(4) key_ok_def)
qed simp

lemma text_key_simps [simp]: "text_key s = text_key t \<longleftrightarrow> ucs s = ucs t" "key_ok (text_key s)"
  by (auto simp: text_key_def key_ok_def)

text \<open>
  What the automatic serializer restores: keys are text or bytes, no dictionary carries one of its markers, the elements of a set are
  hashable and contain no tuple, dates, UUIDs and arrays are read back by their parsers.
\<close>

definition auto_marks :: "string list" where
  "auto_marks = [''__datetime__'', ''__date__'', ''__time__'', ''__uuid__'', ''__tuple__'', ''__set__'', ''__ndarray__'']"

fun tuple_free :: "pobj \<Rightarrow> bool" where
  "tuple_free (OTuple vs) = False"
| "tuple_free (OList vs) = list_all tuple_free vs"
| "tuple_free (ODict items) = list_all (\<lambda>kv. tuple_free (snd kv)) items"
| "tuple_free _ = True"

lemma wrap_tuple_free: "tuple_free v \<Longrightarrow> wrap_tuples v = v"
proof (induction v rule: tuple_free.induct)
  case (2 vs)
  then show ?case by (simp add: list_all_iff map_idI)
next
  case (3 items)
  then have "map (\<lambda>(k, v). (k, wrap_tuples v)) items = items" by (intro map_idI) (fastforce simp: list_all_iff)
  then show ?case by simp
qed simp_all

fun storable :: "obj_parsers \<Rightarrow> (bytes \<Rightarrow> ucs \<Rightarrow> pyexn + nat) \<Rightarrow> pobj \<Rightarrow> bool" where
  "storable ps fb (OList vs) = list_all (storable ps fb) vs"
| "storable ps fb (OTuple vs) = list_all (storable ps fb) vs"
| "storable ps fb (ODict items) =
     (list_all (\<lambda>kv. key_ok (fst kv) \<and> storable ps fb (snd kv)) items \<and> list_all (\<lambda>m. \<not> is_marked items m) auto_marks)"
| "storable ps fb (OSet fr vs) = (distinct vs \<and> list_all (\<lambda>v. hashable v \<and> tuple_free v \<and> storable ps fb v) vs)"
| "storable ps fb (ODatetime s) = (op_datetime ps (OStr s) = Inr (ODatetime s))"
| "storable ps fb (ODate s) = (op_date ps (OStr s) = Inr (ODate s))"
| "storable ps fb (OTime s) = (op_time ps (OStr s) = Inr (OTime s))"
| "storable ps fb (OUuid s) = (op_uuid ps (OStr s) = Inr (OUuid s))"
| "storable ps fb (OArray a) = (fb (nd_bytes a) (nd_dtype a) = Inr (prod_list (nd_shape a)))"
| "storable ps fb _ = True"

lemma document_Suc: "document dflt n v = Inr d \<Longrightarrow> \<exists>m. n = Suc m"
  by (cases n) auto

lemma dims_of_ints: "dims_of (map (\<lambda>n. OInt (int n)) ns) = Some (map int ns)"
  by (induction ns) simp_all

lemma reshaped_ints: "reshaped (prod_list ns) (map int ns) = Some ns"
proof -
  have "filter (\<lambda>d. d \<noteq> - 1) (map int ns) = map int ns" "filter (\<lambda>d. d = - 1) (map int ns) = []"
    by (auto simp: filter_id_conv filter_empty_conv)
  moreover have "map nat (map int ns) = ns" by (simp add: map_idI)
  ultimately show ?thesis by (auto simp: reshaped_def Let_def list_ex_iff simp del: map_map)
qed

lemma ucs_marks: "ucs s = ucs t \<longleftrightarrow> s = t"
  by (auto simp: ucs_def inj_map_eq_map inj_def)

lemmas marker_simps = text_key_def item_def is_marked_def ucs_marks with_value_def list_value_def

lemma document_int: "document dflt n (OInt k) = Inr d \<Longrightarrow> native (OInt k) \<Longrightarrow> d = MInt k"
  by (cases n) (auto split: if_splits)

text \<open>A value behind a marker, as both encoders write it.\<close>

lemma node_marked:
  assumes "node (document dflt n) (marked_value mark w) = Inr d"
  obtains dv where "d = MMap [(MStr (ucs mark), MBool True), (MStr (ucs ''value''), dv)]" "document dflt n w = Inr dv"
proof -
  obtain dk dt dl dv where "document dflt n (text_key mark) = Inr dk" "document dflt n (OBool True) = Inr dt"
    "document dflt n (text_key ''value'') = Inr dl" "document dflt n w = Inr dv" "d = MMap [(dk, dt), (dl, dv)]"
    using assms by (auto simp: marked_value_def both_Inr split: sum.splits)
  moreover from this(1-3) have "dk = MStr (ucs mark)" "dt = MBool True" "dl = MStr (ucs ''value'')"
    by (cases n; auto simp: text_key_def split: if_splits)+
  ultimately show thesis using that by simp
qed

lemma document_default:
  "\<not> native v \<Longrightarrow> dflt v = Inr w \<Longrightarrow> document dflt n v = Inr d \<Longrightarrow> \<exists>m. node (document dflt m) w = Inr d"
  by (cases n) auto

lemma document_native: "native v \<Longrightarrow> document dflt n v = Inr d \<Longrightarrow> \<exists>m. node (document dflt m) v = Inr d"
  by (cases n) auto

lemma native_marked: "native (marked_value mark v)"
  by (simp add: marked_value_def)

lemma document_text: "document dflt n (OStr s) = Inr d \<Longrightarrow> d = MStr s"
  by (cases n) (auto split: if_splits)

text \<open>A text behind a marker is given to the parser of the marker.\<close>

lemma revive_marked_text:
  assumes "node (document dflt n) (marked_value mark (OStr s)) = Inr d"
  shows "revive hook d = hook (marked_value mark (OStr s))"
proof -
  from assms obtain dv where d: "d = MMap [(MStr (ucs mark), MBool True), (MStr (ucs ''value''), dv)]" "document dflt n (OStr s) = Inr dv"
    by (rule node_marked)
  from document_text [OF d(2)] show ?thesis by (simp add: d(1) marked_value_def text_key_def)
qed

lemma default_text_back:
  assumes "document dflt n v = Inr d" "\<not> native v" "dflt v = Inr (marked_value mark (OStr s))"
  shows "revive hook d = hook (marked_value mark (OStr s))"
  using document_default [OF assms(2,3,1)] revive_marked_text by blast

text \<open>Objects without parts that the encoder either passes on or refuses.\<close>

definition leaf :: "pobj \<Rightarrow> bool" where
  "leaf v \<longleftrightarrow> (case v of OList vs \<Rightarrow> False | OTuple vs \<Rightarrow> False | ODict items \<Rightarrow> False | _ \<Rightarrow> True)"

lemma leaf_back:
  assumes "document dflt n v = Inr d" "leaf v" "native v \<or> (\<exists>e. dflt v = Inl e)"
  shows "revive hook d = Inr v"
  using assms by (cases n; cases v) (auto simp: leaf_def split: if_splits)

lemma auto_hook_text:
  "auto_object_hook ps fb hn (marked_value ''__datetime__'' v) = op_datetime ps v"
  "auto_object_hook ps fb hn (marked_value ''__date__'' v) = op_date ps v"
  "auto_object_hook ps fb hn (marked_value ''__time__'' v) = op_time ps v"
  "op_uuid ps v = Inr u \<Longrightarrow> auto_object_hook ps fb hn (marked_value ''__uuid__'' v) = Inr u"
  "auto_object_hook ps fb hn (marked_value ''__tuple__'' (OList vs)) = Inr (OTuple vs)"
  by (simp_all add: auto_object_hook_def marked_value_def marker_simps)

lemma auto_hook_set:
  "list_all hashable vs \<Longrightarrow> distinct vs \<Longrightarrow>
   auto_object_hook ps fb hn (ODict [(text_key ''__set__'', OBool True), (text_key ''value'', OList vs), (text_key ''frozen'', OBool fr)]) = Inr (OSet fr vs)"
  by (simp add: auto_object_hook_def marker_simps make_set_def distinct_remdups_id)

lemma auto_hook_array:
  "fb (nd_bytes a) (nd_dtype a) = Inr (prod_list (nd_shape a)) \<Longrightarrow>
   auto_object_hook ps fb True (ODict [(text_key ''__ndarray__'', OBool True), (text_key ''data'', OBytes (nd_bytes a)),
     (text_key ''shape'', OList (map (\<lambda>n. OInt (int n)) (nd_shape a))), (text_key ''dtype'', OStr (nd_dtype a))]) = Inr (OArray a)"
  by (simp add: auto_object_hook_def marker_simps rebuild_array_def dims_of_ints reshaped_ints)

lemma auto_hook_plain: "list_all (\<lambda>m. \<not> is_marked items m) auto_marks \<Longrightarrow> auto_object_hook ps fb hn (ODict items) = Inr (ODict items)"
  by (simp add: auto_object_hook_def auto_marks_def)

lemma document_list:
  assumes "document dflt n (OList (map g vs)) = Inr d"
  obtains m ds where "d = MArr ds" "all_of (document dflt m \<circ> g) vs = Inr ds"
  using assms by (cases n) (auto simp: map_sum_def all_of_map split: sum.splits)

lemma document_scalars:
  "document dflt n (text_key k) = Inr d \<Longrightarrow> d = MStr (ucs k)" "document dflt n (OBool b) = Inr d \<Longrightarrow> d = MBool b"
  "document dflt n (OBytes bs) = Inr d \<Longrightarrow> d = MBin bs"
  by (cases n; auto simp: text_key_def split: if_splits)+

lemma node_set:
  assumes "node (document dflt n) (ODict [(text_key ''__set__'', OBool True), (text_key ''value'', OList vs), (text_key ''frozen'', OBool fr)]) = Inr d"
  obtains dv where "d = MMap [(MStr (ucs ''__set__''), MBool True), (MStr (ucs ''value''), dv), (MStr (ucs ''frozen''), MBool fr)]"
    "document dflt n (OList vs) = Inr dv"
  using assms by (auto simp: both_Inr dest: document_scalars split: sum.splits)

lemma node_array:
  assumes "node (document dflt n) (ODict [(text_key ''__ndarray__'', OBool True), (text_key ''data'', OBytes b), (text_key ''shape'', OList vs),
      (text_key ''dtype'', OStr t)]) = Inr d"
  obtains dv where "d = MMap [(MStr (ucs ''__ndarray__''), MBool True), (MStr (ucs ''data''), MBin b), (MStr (ucs ''shape''), dv),
      (MStr (ucs ''dtype''), MStr t)]"
    "document dflt n (OList vs) = Inr dv"
  using assms by (auto simp: both_Inr dest: document_scalars document_text split: sum.splits)

lemma revive_ints:
  assumes "document (auto_default hn) n (OList (map (\<lambda>k. OInt (int k)) ks)) = Inr d"
  shows "revive hook d = Inr (OList (map (\<lambda>k. OInt (int k)) ks))"
proof -
  from assms obtain m ds where d: "d = MArr ds" "all_of (document (auto_default hn) m \<circ> (\<lambda>k. OInt (int k))) ks = Inr ds" by (rule document_list)
  have "revive hook dk = Inr (OInt (int k))" if "document (auto_default hn) m (OInt (int k)) = Inr dk" for k dk
    using that by (cases m) (auto split: if_splits)
  then have "revive_all hook ds = Inr (map (\<lambda>k. OInt (int k)) ks)" using all_of_back [OF d(2)] by auto
  then show ?thesis by (simp add: d(1))
qed

lemma auto_codec:
  assumes "storable ps fb v" "document (auto_default hn) n (wrap_tuples v) = Inr d"
  shows "revive (auto_object_hook ps fb hn) d = Inr v"
  using assms
proof (induction ps fb v arbitrary: n d rule: storable.induct)
  case (1 ps fb vs)
  from "1.prems"(2) obtain m ds where d: "d = MArr ds" "all_of (document (auto_default hn) m \<circ> wrap_tuples) vs = Inr ds"
    by (auto elim: document_list)
  have "revive_all (auto_object_hook ps fb hn) ds = Inr (map id vs)"
    by (rule all_of_back [OF d(2)]) (use 1 in \<open>auto simp: list_all_iff\<close>)
  then show ?case by (simp add: d(1))
next
  case (2 ps fb vs)
  have "document (auto_default hn) n (marked_value ''__tuple__'' (OList (map wrap_tuples vs))) = Inr d" using "2.prems"(2) by simp
  from document_native [OF native_marked this] obtain m
    where "node (document (auto_default hn) m) (marked_value ''__tuple__'' (OList (map wrap_tuples vs))) = Inr d" by blast
  then obtain dv where d: "d = MMap [(MStr (ucs ''__tuple__''), MBool True), (MStr (ucs ''value''), dv)]"
    "document (auto_default hn) m (OList (map wrap_tuples vs)) = Inr dv" by (rule node_marked)
  from d(2) obtain k ds where ds: "dv = MArr ds" "all_of (document (auto_default hn) k \<circ> wrap_tuples) vs = Inr ds" by (rule document_list)
  have "revive_all (auto_object_hook ps fb hn) ds = Inr (map id vs)"
    by (rule all_of_back [OF ds(2)]) (use 2 in \<open>auto simp: list_all_iff\<close>)
  then show ?case
    using auto_hook_text(5) [of ps fb hn vs] by (simp add: d(1) ds(1) marked_value_def text_key_def)
next
  case (3 ps fb items)
  then obtain m ds where d: "d = MMap ds" "all_of (both (document (auto_default hn) m)) (map (\<lambda>(k, v). (k, wrap_tuples v)) items) = Inr ds"
    by (cases n) (auto simp: map_sum_def split: sum.splits)
  have "revive_items (auto_object_hook ps fb hn) ds = Inr (map (\<lambda>(k, v). (k, id v)) items)"
    by (rule all_of_items_back [OF d(2)]) (use 3 in \<open>fastforce simp: list_all_iff\<close>)+
  then show ?case using 3 auto_hook_plain by (simp add: d(1))
next
  case (4 ps fb fr vs)
  have nn: "\<not> native (OSet fr vs)" and doc: "document (auto_default hn) n (OSet fr vs) = Inr d" using "4.prems"(2) by simp_all
  from document_default [OF nn auto_default.simps(5) doc] obtain m where "node (document (auto_default hn) m)
      (ODict [(text_key ''__set__'', OBool True), (text_key ''value'', OList vs), (text_key ''frozen'', OBool fr)]) = Inr d"
    by blast
  then obtain dv where d: "d = MMap [(MStr (ucs ''__set__''), MBool True), (MStr (ucs ''value''), dv), (MStr (ucs ''frozen''), MBool fr)]"
    "document (auto_default hn) m (OList (map id vs)) = Inr dv" unfolding list.map_id by (rule node_set)
  from d(2) obtain k ds where ds: "dv = MArr ds" "all_of (document (auto_default hn) k \<circ> id) vs = Inr ds" by (rule document_list)
  have "revive_all (auto_object_hook ps fb hn) ds = Inr (map id vs)"
    by (rule all_of_back [OF ds(2)]) (use 4 wrap_tuple_free in \<open>auto simp: list_all_iff\<close>)
  then show ?case
    using auto_hook_set [of vs ps fb hn fr] "4.prems"(1) by (simp add: d(1) ds(1) text_key_def list_all_iff)
next
  case (9 ps fb a)
  show ?case
  proof (cases hn)
    case False
    with "9.prems"(2) show ?thesis by (cases n) simp_all
  next
    case True
    have nn: "\<not> native (OArray a)" and doc: "document (auto_default hn) n (OArray a) = Inr d"
      and df: "auto_default hn (OArray a) = Inr (ODict [(text_key ''__ndarray__'', OBool True), (text_key ''data'', OBytes (nd_bytes a)),
          (text_key ''shape'', OList (map (\<lambda>k. OInt (int k)) (nd_shape a))), (text_key ''dtype'', OStr (nd_dtype a))])"
      using "9.prems"(2) True by simp_all
    from document_default [OF nn df doc] obtain m where "node (document (auto_default hn) m)
        (ODict [(text_key ''__ndarray__'', OBool True), (text_key ''data'', OBytes (nd_bytes a)),
          (text_key ''shape'', OList (map (\<lambda>k. OInt (int k)) (nd_shape a))), (text_key ''dtype'', OStr (nd_dtype a))]) = Inr d"
      by blast
    then obtain dv where d: "d = MMap [(MStr (ucs ''__ndarray__''), MBool True), (MStr (ucs ''data''), MBin (nd_bytes a)), (MStr (ucs ''shape''), dv),
        (MStr (ucs ''dtype''), MStr (nd_dtype a))]"
      "document (auto_default hn) m (OList (map (\<lambda>k. OInt (int k)) (nd_shape a))) = Inr dv" by (rule node_array)
    show ?thesis using auto_hook_array [of fb a ps] "9.prems"(1) True revive_ints [OF d(2)] by (simp add: d(1) text_key_def)
  qed
next
  case (5 ps fb s)
  then show ?case using default_text_back [of _ n "ODatetime s" d] by (simp add: auto_hook_text)
next
  case (6 ps fb s)
  then show ?case using default_text_back [of _ n "ODate s" d] by (simp add: auto_hook_text)
next
  case (7 ps fb s)
  then show ?case using default_text_back [of _ n "OTime s" d] by (simp add: auto_hook_text)
next
  case (8 ps fb s)
  then show ?case using default_text_back [of _ n "OUuid s" d] by (simp add: auto_hook_text)
qed (simp, erule leaf_back, simp add: leaf_def, fastforce)+

text \<open>What the standard serializer gives back: tuples are lists.\<close>

fun listed :: "pobj \<Rightarrow> pobj" where
  "listed (OTuple vs) = OList (map listed vs)"
| "listed (OList vs) = OList (map listed vs)"
| "listed (ODict items) = ODict (map (\<lambda>(k, v). (k, listed v)) items)"
| "listed v = v"

definition standard_marks :: "string list" where "standard_marks = [''__datetime__'', ''__date__'', ''__time__'']"

fun neutral :: "obj_parsers \<Rightarrow> pobj \<Rightarrow> bool" where
  "neutral ps (OList vs) = list_all (neutral ps) vs"
| "neutral ps (OTuple vs) = list_all (neutral ps) vs"
| "neutral ps (ODict items) =
     (list_all (\<lambda>kv. key_ok (fst kv) \<and> neutral ps (snd kv)) items \<and> list_all (\<lambda>m. \<not> truthy_item items m) standard_marks)"
| "neutral ps (ODatetime s) = (op_datetime ps (OStr s) = Inr (ODatetime s))"
| "neutral ps (ODate s) = (op_date ps (OStr s) = Inr (ODate s))"
| "neutral ps (OTime s) = (op_time ps (OStr s) = Inr (OTime s))"
| "neutral ps _ = True"

lemma truthy_listed: "obj_truthy (listed v) = obj_truthy v"
  by (cases v) simp_all

lemma truthy_item_listed: "truthy_item (map (\<lambda>(k, v). (k, listed v)) items) m = truthy_item items m"
  by (simp add: truthy_item_def item_def map_of_map truthy_listed split: option.split)

lemma standard_hook_text:
  "standard_object_hook ps (marked_value ''__datetime__'' (OStr s)) = op_datetime ps (OStr s)"
  "standard_object_hook ps (marked_value ''__date__'' (OStr s)) = op_date ps (OStr s)"
  "standard_object_hook ps (marked_value ''__time__'' (OStr s)) = op_time ps (OStr s)"
  by (simp_all add: standard_object_hook_def marked_value_def truthy_item_def with_some_value_def marker_simps)

lemma standard_hook_plain: "list_all (\<lambda>m. \<not> truthy_item items m) standard_marks \<Longrightarrow> standard_object_hook ps (ODict items) = Inr (ODict items)"
  by (simp add: standard_object_hook_def standard_marks_def)

lemma standard_codec:
  assumes "neutral ps v" "document standard_default n v = Inr d"
  shows "revive (standard_object_hook ps) d = Inr (listed v)"
  using assms
proof (induction ps v arbitrary: n d rule: neutral.induct)
  case (1 ps vs)
  from "1.prems"(2) obtain m ds where d: "d = MArr ds" "all_of (document standard_default m \<circ> id) vs = Inr ds"
    by (auto elim: document_list [of _ _ id, simplified])
  have "revive_all (standard_object_hook ps) ds = Inr (map listed vs)"
    by (rule all_of_back [OF d(2)]) (use 1 in \<open>auto simp: list_all_iff\<close>)
  then show ?case by (simp add: d(1))
next
  case (2 ps vs)
  from "2.prems"(2) obtain m ds where d: "d = MArr ds" "all_of (document standard_default m) vs = Inr ds"
    by (cases n) (auto simp: map_sum_def split: sum.splits)
  have "revive_all (standard_object_hook ps) ds = Inr (map listed vs)"
    by (rule all_of_back [OF d(2)]) (use 2 in \<open>auto simp: list_all_iff\<close>)
  then show ?case by (simp add: d(1))
next
  case (3 ps items)
  then obtain m ds where d: "d = MMap ds" "all_of (both (document standard_default m)) (map (\<lambda>(k, v). (k, id v)) items) = Inr ds"
    by (cases n) (auto simp: map_sum_def split: sum.splits)
  have "revive_items (standard_object_hook ps) ds = Inr (map (\<lambda>(k, v). (k, listed v)) items)"
    by (rule all_of_items_back [OF d(2)]) (use 3 in \<open>fastforce simp: list_all_iff\<close>)+
  then show ?case using "3.prems"(1) by (simp add: d(1) standard_hook_plain truthy_item_listed)
next
  case (4 ps s)
  then show ?case using default_text_back [of _ n "ODatetime s" d] by (simp add: standard_hook_text)
next
  case (5 ps s)
  then show ?case using default_text_back [of _ n "ODate s" d] by (simp add: standard_hook_text)
next
  case (6 ps s)
  then show ?case using default_text_back [of _ n "OTime s" d] by (simp add: standard_hook_text)
qed (simp, erule leaf_back, simp add: leaf_def, fastforce)+

section \<open>Round trips\<close>

text \<open>
  A pair of callbacks with a preparation of objects, and the objects it restores. Both serializers share what follows from it through the
  library and the envelope.
\<close>

locale marker_codec =
  fixes pre :: "pobj \<Rightarrow> pobj"
    and dflt hook :: "pobj \<Rightarrow> pyexn + pobj"
    and ok :: "pobj \<Rightarrow> bool"
    and restored :: "pobj \<Rightarrow> pobj"
  assumes codec: "ok v \<Longrightarrow> document dflt n (pre v) = Inr d \<Longrightarrow> revive hook d = Inr (restored v)"
begin

lemma unpacked: "msgpack_lawful limit lib \<Longrightarrow> ok v \<Longrightarrow> pl_packb lib dflt (pre v) = Inr b \<Longrightarrow> pl_unpackb lib hook b = Inr (restored v)"
  unfolding msgpack_lawful_def using codec by metis

lemma through_envelope:
  assumes "msgpack_lawful limit lib" "storage_lawful lib" "ok v" "enveloped lib integrity fmt (pl_packb lib dflt (pre v)) = Inr data"
  shows "\<exists>b. (if integrity then pl_retrieve lib data = Inr (b, fmt) else b = data) \<and> pl_unpackb lib hook b = Inr (restored v)"
  using assms unpacked by (fastforce simp: enveloped_def storage_lawful_def split: sum.splits if_splits)

end

interpretation auto_markers: marker_codec wrap_tuples "auto_default hn" "auto_object_hook ps fb hn" "storable ps fb" "\<lambda>v. v" for hn ps fb
  by unfold_locales (rule auto_codec)

interpretation standard_markers: marker_codec "\<lambda>v. v" standard_default "standard_object_hook ps" "neutral ps" listed for ps
  by unfold_locales (rule standard_codec)

text \<open>
  Round trip of the standard serializer: a value it accepted is read back, with tuples as lists, with and without the envelope,
  when its dictionaries have text or bytes as keys and do not carry a marker of a date.
\<close>

theorem standard_roundtrip:
  assumes "msgpack_lawful limit lib" "storage_lawful lib" "neutral (pl_parsers lib) v" "standard_serialize lib integrity v = Inr (data, m)"
  shows "standard_deserialize lib integrity data metadata = Inr (listed v)"
proof -
  have "enveloped lib integrity ''msgpack'' (pl_packb lib standard_default v) = Inr data"
    using assms(4) by (auto simp: standard_serialize_def split: sum.splits)
  from standard_markers.through_envelope [OF assms(1-3) this] show ?thesis
    by (auto simp: standard_deserialize_def map_sum_def split: if_splits)
qed

definition mistaken :: "bytes \<Rightarrow> bool" where
  "mistaken data \<longleftrightarrow> looks_like_numpy data \<or> length data \<ge> 14 \<and> take 6 (drop 8 data) = ARROW_MAGIC \<or> length data \<ge> 6 \<and> take 6 data = ARROW_MAGIC"

lemma auto_serialize_array:
  "auto_serialize lib integrity (Plain (OArray a)) = Inr (data, m) \<Longrightarrow> al_has_numpy lib \<Longrightarrow> serialize_numpy (al_digest lib) integrity a = Inr data"
  by (auto simp: auto_serialize_def Let_def map_sum_def split: sum.splits)

lemma auto_serialize_plain:
  assumes "auto_serialize lib integrity (Plain v) = Inr (data, m)" "\<And>a. v = OArray a \<Longrightarrow> \<not> al_has_numpy lib"
  shows "enveloped (al_pack lib) integrity ''msgpack'' (auto_packb lib (wrap_tuples v)) = Inr data \<and> m = msgpack_metadata integrity ''msgpack''"
proof -
  have "auto_serialize lib integrity (Plain v) = map_sum id (\<lambda>b. (b, msgpack_metadata integrity ''msgpack'')) (serialize_msgpack lib integrity v)"
    using assms(2) by (cases v) (simp_all add: auto_serialize_def Let_def)
  with assms(1) show ?thesis by (auto simp: serialize_msgpack_def map_sum_def split: sum.splits)
qed

lemma numpy_entry_detected:
  assumes "serialize_numpy digest integrity a = Inr data" "digest_size digest"
  shows "looks_like_numpy data"
proof -
  obtain ds where data: "data = (if integrity then digest (numpy_payload ds a) @ numpy_payload ds a else numpy_payload ds a)"
    using assms(1) by (auto simp: serialize_numpy_def Let_def split: option.splits if_splits)
  have "take 9 (numpy_payload ds a) = NUMPY_MAGIC" by (simp add: numpy_payload_def)
  moreover from this have "9 \<le> length (numpy_payload ds a)" by (metis NUMPY_MAGIC_parts(1) length_take min.absorb_iff2)
  ultimately show ?thesis using assms(2) by (auto simp: data looks_like_numpy_def digest_size_def)
qed

text \<open>The branch for entries of no special type, which is where plain values are read.\<close>

lemma auto_deserialize_plain:
  assumes "\<not> looks_like_numpy data" "sm_original_type m = HStr ''msgpack''"
  shows "auto_deserialize lib integrity data (Some m) =
    (if integrity then (case read_envelope lib data (Some m) of
         Inr v \<Rightarrow> Inr v | Inl e \<Rightarrow> if is_serialization_error e then Inl e else read_unenveloped lib data (Some m))
     else read_unenveloped lib data (Some m))"
  using assms by (simp add: auto_deserialize_def Let_def)

lemma read_unenveloped_plain:
  "\<not> mistaken data \<Longrightarrow> auto_unpackb lib data = Inr v \<Longrightarrow> read_unenveloped lib data metadata = Inr (Plain v)"
  by (auto simp: read_unenveloped_def mistaken_def)

lemma msgpack_metadata_type [simp]: "sm_original_type (msgpack_metadata c t) = HStr t"
  by (simp add: msgpack_metadata_def base_metadata_def)


text \<open>
  A damaged envelope is refused by the standard serializer and by the table branches of the automatic one; on its default branch the
  failed integrity check is dropped and the bytes of the envelope, which are MessagePack themselves, are returned as the value.
\<close>

theorem damaged_envelope_returned:
  assumes "pl_retrieve (al_pack lib) data = Inl (PyExn ''ValueError'' t)" "auto_unpackb lib data = Inr w" "\<not> mistaken data" "4 < length data"
  shows "auto_deserialize lib True data (Some (msgpack_metadata True ''msgpack'')) = Inr (Plain w)
    \<and> (\<exists>s. standard_deserialize (al_pack lib) True data metadata = Inl (serialization_error s))
    \<and> (\<exists>s. auto_deserialize lib True data (Some (msgpack_metadata True ''dataframe'')) = Inl (serialization_error s))
    \<and> (\<exists>s. auto_deserialize lib True data (Some (msgpack_metadata True ''series'')) = Inl (serialization_error s))"
proof -
  have n: "\<not> looks_like_numpy data" using assms(3) by (simp add: mistaken_def)
  have "auto_deserialize lib True data (Some (msgpack_metadata True ''msgpack'')) = Inr (Plain w)"
    using n assms(1) read_unenveloped_plain [OF assms(3,2)] by (simp add: auto_deserialize_plain read_envelope_def exn_class_defs)
  then show ?thesis
    using n assms(1,4) by (auto simp: auto_deserialize_def Let_def checked_table_def standard_deserialize_def exn_class_defs)
qed

text \<open>
  A dictionary with an integer as key is stored by the automatic serializer, and what is read back is not the dictionary but the
  decoded bytes of the envelope itself, without an error.
\<close>

theorem integer_keys_return_envelope:
  assumes "msgpack_lawful limit (al_pack lib)" "storage_lawful (al_pack lib)" "storable (pl_parsers (al_pack lib)) (al_frombuffer lib) v"
    and "auto_serialize lib True (Plain (ODict [(OInt k, v)])) = Inr (data, m)" "auto_unpackb lib data = Inr w" "\<not> mistaken data"
  shows "auto_deserialize lib True data (Some m) = Inr (Plain w)"
proof -
  have m: "m = msgpack_metadata True ''msgpack''" and env: "enveloped (al_pack lib) True ''msgpack'' (auto_packb lib (wrap_tuples (ODict [(OInt k, v)]))) = Inr data"
    using auto_serialize_plain [OF assms(4)] by auto
  then obtain b where b: "pl_packb (al_pack lib) (auto_default (al_has_numpy lib)) (ODict [(OInt k, wrap_tuples v)]) = Inr b"
      and ret: "pl_retrieve (al_pack lib) data = Inr (b, ''msgpack'')"
    using assms(2) by (auto simp: enveloped_def storage_lawful_def auto_packb_def split: sum.splits)
  then obtain d where d: "document (auto_default (al_has_numpy lib)) limit (ODict [(OInt k, wrap_tuples v)]) = Inr d"
      "auto_unpackb lib b = revive (auto_hook lib) d"
    using assms(1) by (fastforce simp: msgpack_lawful_def auto_unpackb_def)
  have nat: "native (ODict [(OInt k, wrap_tuples v)])" by simp
  from document_native [OF nat d(1)] obtain n
    where nd: "node (document (auto_default (al_has_numpy lib)) n) (ODict [(OInt k, wrap_tuples v)]) = Inr d" by blast
  then obtain p where p: "both (document (auto_default (al_has_numpy lib)) n) (OInt k, wrap_tuples v) = Inr p" "d = MMap [p]"
    by (cases "both (document (auto_default (al_has_numpy lib)) n) (OInt k, wrap_tuples v)") auto
  then obtain dk dv where dd: "d = MMap [(dk, dv)]" "document (auto_default (al_has_numpy lib)) n (OInt k) = Inr dk"
      "document (auto_default (al_has_numpy lib)) n (wrap_tuples v) = Inr dv"
    unfolding both_Inr by blast
  have "dk = MInt k" using dd(2) by (cases n) (auto split: if_splits)
  moreover have "revive (auto_hook lib) dv = Inr v" unfolding auto_hook_def by (rule auto_codec [OF assms(3) dd(3)])
  ultimately have "auto_unpackb lib b = Inl (PyExn ''ValueError'' ''is not allowed for map key when strict_map_key=True'')"
    using d(2) dd(1) by simp
  then have "read_envelope lib data (Some m) = Inl (PyExn ''ValueError'' ''is not allowed for map key when strict_map_key=True'')"
    by (simp add: read_envelope_def ret m unpack_then_def)
  then show ?thesis
    using assms(6) read_unenveloped_plain [OF assms(6,5)] by (simp add: auto_deserialize_plain m mistaken_def exn_class_defs)
qed

section \<open>A library at work\<close>

text \<open>A library that knows five documents in their MessagePack form, and an envelope with a simple checksum.\<close>

definition demo_trailer :: "bytes \<Rightarrow> bytes" where
  "demo_trailer b = 0x98 # replicate 8 (b ! 1) @ [word_of_nat (length b), 0xA7] @ str_bytes ''msgpack''"

definition demo_store :: "bytes \<Rightarrow> string \<Rightarrow> pyexn + bytes" where
  "demo_store b fmt = (if fmt = ''msgpack'' \<and> length b < 128 then Inr ([0x94, 0xC4, word_of_nat (length b)] @ b @ demo_trailer b)
     else Inl (PyExn ''ValueError'' ''Storage failed''))"

definition demo_retrieve :: "bytes \<Rightarrow> pyexn + bytes \<times> string" where
  "demo_retrieve env =
     (let n = unat (env ! 2); rest = drop 3 env; b = take n rest in
      if take 2 env = [0x94, 0xC4] \<and> drop n rest = demo_trailer b then Inr (b, ''msgpack'')
      else Inl (PyExn ''ValueError'' ''Retrieval failed''))"

definition envelope_doc :: "bytes \<Rightarrow> mdoc" where
  "envelope_doc b = MArr [MBin b, MArr (replicate 8 (MInt 1)), MInt 3, MStr (ucs ''msgpack'')]"

definition envelope_bytes :: "bytes \<Rightarrow> bytes" where
  "envelope_bytes b = [0x94, 0xC4, 3] @ b @ 0x98 # replicate 8 1 @ [3, 0xA7] @ str_bytes ''msgpack''"

definition demo_table :: "(mdoc \<times> bytes) list" where
  "demo_table =
     [(MMap [(MStr (ucs ''__tuple__''), MBool True), (MStr (ucs ''value''), MArr [MInt 1])],
         [0x82, 0xA9] @ str_bytes ''__tuple__'' @ [0xC3, 0xA5] @ str_bytes ''value'' @ [0x91, 1]),
      (MArr [MInt 1], [0x91, 1]),
      (MMap [(MInt 1, MNil)], [0x81, 1, 0xC0]),
      (envelope_doc [0x81, 1, 0xC0], envelope_bytes [0x81, 1, 0xC0]),
      (envelope_doc [0x81, 2, 0xC0], envelope_bytes [0x81, 2, 0xC0])]"

definition demo_pack :: pack_lib where
  "demo_pack =
     \<lparr>pl_packb = (\<lambda>dflt v. case document dflt 20 v of
                     Inl e \<Rightarrow> Inl e
                   | Inr d \<Rightarrow> (case map_of demo_table d of None \<Rightarrow> Inl overflow_error | Some b \<Rightarrow> Inr b)),
      pl_unpackb = (\<lambda>hook b. case map_of (map (\<lambda>(d, b). (b, d)) demo_table) b of
                     None \<Rightarrow> Inl (PyExn ''FormatError'' []) | Some d \<Rightarrow> revive hook d),
      pl_store = demo_store, pl_retrieve = demo_retrieve, pl_validate = (\<lambda>b. case demo_retrieve b of Inl e \<Rightarrow> False | Inr x \<Rightarrow> True),
      pl_parsers = \<lparr>op_datetime = Inr, op_date = Inr, op_time = Inr, op_uuid = Inr\<rparr>\<rparr>"

lemma demo_table_inverse: "map_of demo_table d = Some b \<Longrightarrow> map_of (map (\<lambda>(d, b). (b, d)) demo_table) b = Some d"
  by (auto simp: demo_table_def envelope_doc_def envelope_bytes_def str_bytes_def ucs_def split: if_splits)

lemma demo_pack_lawful: "msgpack_lawful 20 demo_pack" "storage_lawful demo_pack"
proof -
  show "msgpack_lawful 20 demo_pack"
    by (auto simp: msgpack_lawful_def demo_pack_def demo_table_inverse split: sum.splits option.splits)
  show "storage_lawful demo_pack"
    by (auto simp: storage_lawful_def demo_pack_def demo_store_def demo_retrieve_def Let_def unat_word_of_nat_byte simp del: drop_drop split: if_splits)
qed

definition demo_auto :: auto_lib where
  "demo_auto = \<lparr>al_pack = demo_pack, al_digest = (\<lambda>b. replicate 8 0), al_frombuffer = (\<lambda>b d. Inr (length b)), al_has_numpy = True,
     al_has_pandas = False, al_arrow = None, al_make_frame = (\<lambda>cs c i. Inl not_bytes), al_make_series = (\<lambda>c n i. Inl not_bytes)\<rparr>"

lemma demo_parts [simp]: "al_pack demo_auto = demo_pack" "digest_size (al_digest demo_auto)"
  by (simp_all add: demo_auto_def digest_size_def)

theorem standard_roundtrip_witness:
  "standard_serialize demo_pack False (OTuple [OInt 1]) = Inr ([0x91, 1], msgpack_metadata False ''msgpack'')
   \<and> standard_deserialize demo_pack False [0x91, 1] None = Inr (OList [OInt 1])"
proof -
  have s: "standard_serialize demo_pack False (OTuple [OInt 1]) = Inr ([0x91, 1], msgpack_metadata False ''msgpack'')"
    by code_simp
  from standard_roundtrip [OF demo_pack_lawful _ this] s show ?thesis by simp
qed

lemma scalar_ucs: "list_all scalar (ucs s)"
proof -
  have "scalar (of_char c)" for c using nat_of_char_less_256 [of c] unfolding scalar_def by linarith
  then show ?thesis by (auto simp: ucs_def list_all_iff)
qed

lemma tuple_document:
  "document (auto_default hn) 20 (wrap_tuples (OTuple [OInt 1])) = Inr (MMap [(MStr (ucs ''__tuple__''), MBool True), (MStr (ucs ''value''), MArr [MInt 1])])"
proof -
  have doc: "document (auto_default hn) (Suc (Suc (Suc n))) (wrap_tuples (OTuple [OInt 1]))
      = Inr (MMap [(MStr (ucs ''__tuple__''), MBool True), (MStr (ucs ''value''), MArr [MInt 1])])" for n
    by (simp add: marked_value_def text_key_def both_def scalar_ucs INT64_MIN_def UINT64_MAX_def)
  have "20 = Suc (Suc (Suc 17))" by simp
  then show ?thesis using doc [of 17] by metis
qed

definition tuple_entry :: bytes where
  "tuple_entry = [0x82, 0xA9] @ str_bytes ''__tuple__'' @ [0xC3, 0xA5] @ str_bytes ''value'' @ [0x91, 1]"


definition decoded_envelope :: "bytes \<Rightarrow> pobj" where
  "decoded_envelope b = OList [OBytes b, OList (replicate 8 (OInt 1)), OInt 3, OStr (ucs ''msgpack'')]"

theorem damaged_envelope_returned_witness:
  "auto_deserialize demo_auto True (envelope_bytes [0x81, 2, 0xC0]) (Some (msgpack_metadata True ''msgpack'')) = Inr (Plain (decoded_envelope [0x81, 2, 0xC0]))"
proof -
  have "pl_retrieve (al_pack demo_auto) (envelope_bytes [0x81, 2, 0xC0]) = Inl (PyExn ''ValueError'' ''Retrieval failed'')" by code_simp
  moreover have "auto_unpackb demo_auto (envelope_bytes [0x81, 2, 0xC0]) = Inr (decoded_envelope [0x81, 2, 0xC0])" by code_simp
  moreover have "\<not> mistaken (envelope_bytes [0x81, 2, 0xC0])" "4 < length (envelope_bytes [0x81, 2, 0xC0])" by code_simp+
  ultimately show ?thesis using damaged_envelope_returned by blast
qed

theorem integer_keys_return_envelope_witness:
  "auto_serialize demo_auto True (Plain (ODict [(OInt 1, ONone)])) = Inr (envelope_bytes [0x81, 1, 0xC0], msgpack_metadata True ''msgpack'')
   \<and> auto_deserialize demo_auto True (envelope_bytes [0x81, 1, 0xC0]) (Some (msgpack_metadata True ''msgpack'')) = Inr (Plain (decoded_envelope [0x81, 1, 0xC0]))"
proof -
  have s: "auto_serialize demo_auto True (Plain (ODict [(OInt 1, ONone)])) = Inr (envelope_bytes [0x81, 1, 0xC0], msgpack_metadata True ''msgpack'')" by code_simp
  moreover have "auto_unpackb demo_auto (envelope_bytes [0x81, 1, 0xC0]) = Inr (decoded_envelope [0x81, 1, 0xC0])" by code_simp
  moreover have "\<not> mistaken (envelope_bytes [0x81, 1, 0xC0])" by code_simp
  ultimately show ?thesis using integer_keys_return_envelope [of 20 demo_auto ONone 1] demo_pack_lawful by simp
qed

end
