(* ===== verification/Metrics_Registry.thy ===== *)
theory Metrics_Registry
  imports Backend_Errors "HOL-Library.List_Lexorder" "HOL-Library.Char_ord"
begin

text \<open>
  \<^verbatim>\<open>reliability/metrics_collection.py\<close>: the metric store shared by the process, the collectors that write to it, and the collector that
  passes metrics to a worker thread through a bounded queue. The clock is a parameter; log lines are left out.
\<close>

section \<open>The shared store\<close>

type_synonym labels = "(string, string) odict"

record metrics_store =
  ms_data :: "(string, (string, real) odict) odict"
  ms_timestamps :: "(string, real) odict"

definition empty_store :: metrics_store where
  "empty_store = \<lparr>ms_data = [], ms_timestamps = []\<rparr>"

record collector =
  co_name :: string
  co_labels :: labels

definition make_collector :: "string \<Rightarrow> collector" where
  "make_collector name = \<lparr>co_name = name, co_labels = []\<rparr>"

definition with_labels :: "collector \<Rightarrow> labels \<Rightarrow> collector" where
  "with_labels c ls = \<lparr>co_name = co_name c, co_labels = ls\<rparr>"

text \<open>\<^verbatim>\<open>{**a, **b}\<close>.\<close>

definition merge_dict :: "('k, 'v) odict \<Rightarrow> ('k, 'v) odict \<Rightarrow> ('k, 'v) odict" where
  "merge_dict a b = fold (\<lambda>(k, v). AList.update k v) b a"

definition label_text :: "string \<times> string \<Rightarrow> string" where
  "label_text kv = fst kv @ ''='' @ snd kv"

definition labels_key :: "labels \<Rightarrow> string" where
  "labels_key ls = (if ls = [] then ''default'' else str_join ''|'' (map label_text (sort_key fst ls)))"

text \<open>\<^verbatim>\<open>defaultdict\<close> look-ups create the inner dictionary.\<close>

definition inner :: "string \<Rightarrow> metrics_store \<Rightarrow> (string, real) odict" where
  "inner name s = (case map_of (ms_data s) name of None \<Rightarrow> [] | Some d \<Rightarrow> d)"

definition value_of :: "string \<Rightarrow> string \<Rightarrow> metrics_store \<Rightarrow> real" where
  "value_of name key s = (case map_of (inner name s) key of None \<Rightarrow> 0 | Some v \<Rightarrow> v)"

definition write_metric :: "string \<Rightarrow> string \<Rightarrow> real \<Rightarrow> real \<Rightarrow> metrics_store \<Rightarrow> metrics_store" where
  "write_metric name key v now s =
     \<lparr>ms_data = AList.update name (AList.update key v (inner name s)) (ms_data s),
      ms_timestamps = AList.update (name @ '':'' @ key) now (ms_timestamps s)\<rparr>"

text \<open>
  The first argument of \<^verbatim>\<open>inc\<close> is a dictionary of labels, but one caller passes a number: \<^verbatim>\<open>value or {}\<close> is empty for zero, and
  unpacking any other number with \<^verbatim>\<open>**\<close> raises.
\<close>

datatype inc_arg = NoLabels | Labels labels | Number real

fun inc_labels :: "inc_arg \<Rightarrow> pyexn + labels" where
  "inc_labels NoLabels = Inr []"
| "inc_labels (Labels ls) = Inr ls"
| "inc_labels (Number v) = (if v = 0 then Inr [] else Inl (PyExn ''TypeError'' ''object is not a mapping''))"

definition inc :: "collector \<Rightarrow> inc_arg \<Rightarrow> real \<Rightarrow> metrics_store \<Rightarrow> (pyexn + unit) \<times> metrics_store" where
  "inc c arg now s =
     (case inc_labels arg of
        Inl e \<Rightarrow> (Inl e, s)
      | Inr ls \<Rightarrow>
          let key = labels_key (merge_dict (co_labels c) ls) in
          (Inr (), write_metric (co_name c) key (value_of (co_name c) key s + 1) now s))"

definition set_metric :: "collector \<Rightarrow> real \<Rightarrow> labels \<Rightarrow> real \<Rightarrow> metrics_store \<Rightarrow> metrics_store" where
  "set_metric c v ls now s = write_metric (co_name c) (labels_key (merge_dict (co_labels c) ls)) v now s"

definition observe :: "collector \<Rightarrow> real \<Rightarrow> labels \<Rightarrow> real \<Rightarrow> metrics_store \<Rightarrow> metrics_store" where
  "observe c v ls now s = set_metric c v ls now s"

definition get_metric_value :: "collector \<Rightarrow> labels \<Rightarrow> metrics_store \<Rightarrow> real \<times> metrics_store" where
  "get_metric_value c ls s =
     (value_of (co_name c) (labels_key (merge_dict (co_labels c) ls)) s,
      if map_of (ms_data s) (co_name c) = None then s\<lparr>ms_data := AList.update (co_name c) [] (ms_data s)\<rparr> else s)"

definition cache_operations :: collector where
  "cache_operations = make_collector ''cache_operations_total''"

definition cache_latency :: collector where
  "cache_latency = make_collector ''cache_operation_duration_seconds''"

definition circuit_breaker_state :: collector where
  "circuit_breaker_state = make_collector ''circuit_breaker_state''"

definition get_all_metrics :: "metrics_store \<Rightarrow> (string, (string, real) odict) odict" where
  "get_all_metrics s = ms_data s"

section \<open>The collector with a worker\<close>

datatype metric_type = CounterT | HistogramT | GaugeT

record queued_metric =
  qm_type :: metric_type
  qm_name :: string
  qm_value :: real
  qm_labels :: labels

record worker_collector =
  wc_max_queue :: int
  wc_queue :: "queued_metric list"
  wc_metrics :: "(string, (string, real) odict) odict"
  wc_processed :: nat
  wc_dropped :: nat
  wc_queue_size :: nat
  wc_shutdown :: bool
  wc_worker_alive :: bool

definition start_worker :: "worker_collector \<Rightarrow> worker_collector" where
  "start_worker w = (if wc_worker_alive w then w else w\<lparr>wc_shutdown := False, wc_worker_alive := True\<rparr>)"

definition make_worker_collector :: "int \<Rightarrow> worker_collector" where
  "make_worker_collector n =
     start_worker \<lparr>wc_max_queue = n, wc_queue = [], wc_metrics = [], wc_processed = 0, wc_dropped = 0, wc_queue_size = 0,
       wc_shutdown = False, wc_worker_alive = False\<rparr>"

text \<open>A \<^verbatim>\<open>queue.Queue\<close> whose size is not positive is unbounded.\<close>

definition queue_full :: "int \<Rightarrow> 'a list \<Rightarrow> bool" where
  "queue_full maxsize q \<longleftrightarrow> 0 < maxsize \<and> maxsize \<le> int (length q)"

definition enqueue_metric :: "queued_metric \<Rightarrow> worker_collector \<Rightarrow> worker_collector" where
  "enqueue_metric m w =
     (if queue_full (wc_max_queue w) (wc_queue w) then w\<lparr>wc_dropped := wc_dropped w + 1\<rparr>
      else w\<lparr>wc_queue := wc_queue w @ [m], wc_queue_size := length (wc_queue w) + 1\<rparr>)"

definition record_counter :: "string \<Rightarrow> labels \<Rightarrow> real \<Rightarrow> worker_collector \<Rightarrow> worker_collector" where
  "record_counter name ls v = enqueue_metric \<lparr>qm_type = CounterT, qm_name = name, qm_value = v, qm_labels = ls\<rparr>"

definition record_histogram :: "string \<Rightarrow> real \<Rightarrow> labels \<Rightarrow> worker_collector \<Rightarrow> worker_collector" where
  "record_histogram name v ls = enqueue_metric \<lparr>qm_type = HistogramT, qm_name = name, qm_value = v, qm_labels = ls\<rparr>"

definition record_gauge :: "string \<Rightarrow> real \<Rightarrow> labels \<Rightarrow> worker_collector \<Rightarrow> worker_collector" where
  "record_gauge name v ls = enqueue_metric \<lparr>qm_type = GaugeT, qm_name = name, qm_value = v, qm_labels = ls\<rparr>"

definition record_operation :: "string \<Rightarrow> real \<Rightarrow> labels \<Rightarrow> worker_collector \<Rightarrow> worker_collector" where
  "record_operation op duration ls = record_histogram (op @ ''_duration'') duration ls"

definition try_prometheus_metric :: "queued_metric \<Rightarrow> real \<Rightarrow> metrics_store \<Rightarrow> bool \<times> metrics_store" where
  "try_prometheus_metric m now s =
     (if qm_name m = ''redis_cache_operations_total'' then
        (case inc (with_labels cache_operations (qm_labels m)) (Number (qm_value m)) now s of
           (Inl e, s1) \<Rightarrow> (False, s1)
         | (Inr u, s1) \<Rightarrow> (True, s1))
      else if qm_name m = ''redis_cache_operation_duration_seconds'' then
        (True, observe (with_labels cache_latency (qm_labels m)) (qm_value m) [] now s)
      else if qm_name m = ''redis_circuit_breaker_state'' then
        (True, set_metric (with_labels circuit_breaker_state (qm_labels m)) (qm_value m) [] now s)
      else (False, s))"

definition local_inner :: "string \<Rightarrow> (string, (string, real) odict) odict \<Rightarrow> (string, real) odict" where
  "local_inner name d = (case map_of d name of None \<Rightarrow> [] | Some i \<Rightarrow> i)"

definition local_value :: "string \<Rightarrow> string \<Rightarrow> (string, (string, real) odict) odict \<Rightarrow> real" where
  "local_value name key d = (case map_of (local_inner name d) key of None \<Rightarrow> 0 | Some v \<Rightarrow> v)"

definition process_metric ::
  "queued_metric \<Rightarrow> real \<Rightarrow> worker_collector \<times> metrics_store \<Rightarrow> worker_collector \<times> metrics_store" where
  "process_metric m now ws =
     (case ws of (w, s) \<Rightarrow>
        (case try_prometheus_metric m now s of
           (True, s1) \<Rightarrow> (w, s1)
         | (False, s1) \<Rightarrow>
             let key = labels_key (qm_labels m); d = wc_metrics w;
                 v = (if qm_type m = CounterT then local_value (qm_name m) key d + qm_value m else qm_value m) in
             (w\<lparr>wc_metrics := AList.update (qm_name m) (AList.update key v (local_inner (qm_name m) d)) d\<rparr>, s1)))"

text \<open>One iteration of the worker: nothing after the shutdown, else the next metric, or a time-out on an empty queue.\<close>

definition worker_iteration :: "real \<Rightarrow> worker_collector \<times> metrics_store \<Rightarrow> worker_collector \<times> metrics_store" where
  "worker_iteration now ws =
     (case ws of (w, s) \<Rightarrow>
        if \<not> wc_worker_alive w then (w, s)
        else if wc_shutdown w then (w\<lparr>wc_worker_alive := False\<rparr>, s)
        else case wc_queue w of
               [] \<Rightarrow> (w, s)
             | m # q \<Rightarrow>
                 (case process_metric m now (w\<lparr>wc_queue := q\<rparr>, s) of
                    (w1, s1) \<Rightarrow> (w1\<lparr>wc_processed := wc_processed w1 + 1, wc_queue_size := length (wc_queue w1)\<rparr>, s1)))"

definition clear_metrics :: "worker_collector \<Rightarrow> worker_collector" where
  "clear_metrics w = w\<lparr>wc_metrics := [], wc_processed := 0, wc_dropped := 0\<rparr>"

definition shutdown :: "worker_collector \<Rightarrow> worker_collector" where
  "shutdown w = (if wc_shutdown w then w else w\<lparr>wc_shutdown := True\<rparr>)"

record worker_report =
  wr_processed :: nat
  wr_dropped :: nat
  wr_queue_size :: nat
  wr_local :: "(string, (string, real) odict) odict"

definition get_worker_stats :: "worker_collector \<Rightarrow> worker_report" where
  "get_worker_stats w =
     \<lparr>wr_processed = wc_processed w, wr_dropped = wc_dropped w, wr_queue_size = length (wc_queue w), wr_local = wc_metrics w\<rparr>"

text \<open>The global collector is created once and gets a new worker when its old one died.\<close>

definition get_worker_collector :: "worker_collector option \<Rightarrow> worker_collector" where
  "get_worker_collector g =
     (case g of
        None \<Rightarrow> make_worker_collector 1000
      | Some w \<Rightarrow> if wc_worker_alive w then w else start_worker w)"

section \<open>Prometheus registry\<close>

text \<open>Objects of the class registry: a metric of the library, or the stand-in for one that could not be created.\<close>

datatype 'm registered = Native 'm | StandIn collector

definition get_or_create_metric ::
  "(string \<Rightarrow> string list \<Rightarrow> pyexn + 'm) \<Rightarrow> string \<Rightarrow> string list \<Rightarrow> (string, 'm registered) odict
     \<Rightarrow> 'm registered \<times> (string, 'm registered) odict" where
  "get_or_create_metric mk name labelnames reg =
     (case map_of reg name of
        Some m \<Rightarrow> (m, reg)
      | None \<Rightarrow>
          let m = (case mk name labelnames of Inr x \<Rightarrow> Native x | Inl e \<Rightarrow> StandIn (make_collector name)) in
          (m, AList.update name m reg))"

section \<open>Properties\<close>

lemma merge_empty [simp]: "merge_dict a [] = a"
  by (simp add: merge_dict_def)

lemma value_of_write [simp]:
  "value_of n k (write_metric name key v now s) = (if n = name \<and> k = key then v else value_of n k s)"
  by (auto simp: value_of_def write_metric_def inner_def update_conv' split: option.splits)

lemma local_value_update:
  "local_value n k (AList.update name (AList.update key v (local_inner name d)) d) = (if n = name \<and> k = key then v else local_value n k d)"
  by (auto simp: local_value_def local_inner_def update_conv' split: option.splits)

text \<open>
  The runs of a collector: any number of threads record, the worker iterates, and anybody shuts it down or asks for the global instance
  again. The lists are the metrics that entered the queue, those the worker took, and the number that were refused.
\<close>

inductive wc_run :: "int \<Rightarrow> queued_metric list \<Rightarrow> queued_metric list \<Rightarrow> nat \<Rightarrow> worker_collector \<Rightarrow> metrics_store \<Rightarrow> bool" for n where
  fresh: "wc_run n [] [] 0 (make_worker_collector n) s"
| record_ok: "wc_run n (acc @ [m]) done lost (enqueue_metric m w) s" if "wc_run n acc done lost w s" "\<not> queue_full n (wc_queue w)"
| record_full: "wc_run n acc done (Suc lost) (enqueue_metric m w) s" if "wc_run n acc done lost w s" "queue_full n (wc_queue w)"
| work: "wc_run n acc (done @ [m]) lost w1 s1"
    if "wc_run n acc done lost w s" "wc_worker_alive w" "\<not> wc_shutdown w" "wc_queue w = m # q" "worker_iteration now (w, s) = (w1, s1)"
| idle: "wc_run n acc done lost w1 s1"
    if "wc_run n acc done lost w s" "\<not> wc_worker_alive w \<or> wc_shutdown w \<or> wc_queue w = []" "worker_iteration now (w, s) = (w1, s1)"
| stop: "wc_run n acc done lost (shutdown w) s" if "wc_run n acc done lost w s"
| again: "wc_run n acc done lost (get_worker_collector (Some w)) s" if "wc_run n acc done lost w s"

lemma process_metric_frame:
  "process_metric m now (w, s) = (w1, s1) \<Longrightarrow> wc_queue w1 = wc_queue w \<and> wc_max_queue w1 = wc_max_queue w \<and> wc_processed w1 = wc_processed w
     \<and> wc_dropped w1 = wc_dropped w"
  by (auto simp: process_metric_def Let_def split: prod.splits bool.splits)

lemma worker_took:
  assumes "worker_iteration now (w, s) = (w1, s1)" "wc_worker_alive w" "\<not> wc_shutdown w" "wc_queue w = m # q"
  obtains w2 where "process_metric m now (w\<lparr>wc_queue := q\<rparr>, s) = (w2, s1)"
    "w1 = w2\<lparr>wc_processed := wc_processed w + 1, wc_queue_size := length q\<rparr>" "wc_queue w2 = q" "wc_max_queue w2 = wc_max_queue w"
    "wc_dropped w2 = wc_dropped w"
proof -
  obtain w2 s2 where p: "process_metric m now (w\<lparr>wc_queue := q\<rparr>, s) = (w2, s2)" by force
  with assms process_metric_frame [OF p] show ?thesis by (intro that [of w2]) (auto simp: worker_iteration_def)
qed

lemma worker_idle:
  "worker_iteration now (w, s) = (w1, s1) \<Longrightarrow> \<not> wc_worker_alive w \<or> wc_shutdown w \<or> wc_queue w = []
     \<Longrightarrow> w1 = w \<or> w1 = w\<lparr>wc_worker_alive := False\<rparr>"
  by (auto simp: worker_iteration_def split: if_splits)

definition wc_frame :: "worker_collector \<Rightarrow> worker_collector \<Rightarrow> bool" where
  "wc_frame w w1 \<longleftrightarrow> wc_queue w1 = wc_queue w \<and> wc_max_queue w1 = wc_max_queue w \<and> wc_processed w1 = wc_processed w
     \<and> wc_dropped w1 = wc_dropped w \<and> wc_metrics w1 = wc_metrics w"

lemma control_frame:
  "wc_frame w (shutdown w)" "wc_frame w (get_worker_collector (Some w))"
  "worker_iteration now (w, s) = (w1, s1) \<Longrightarrow> \<not> wc_worker_alive w \<or> wc_shutdown w \<or> wc_queue w = [] \<Longrightarrow> wc_frame w w1"
  using worker_idle [of now w s w1 s1] by (auto simp: wc_frame_def shutdown_def get_worker_collector_def start_worker_def)

lemma wc_accounts:
  assumes "wc_run n acc done lost w s"
  shows "acc = done @ wc_queue w \<and> wc_max_queue w = n \<and> wc_processed w = length done \<and> wc_dropped w = lost
    \<and> (0 < n \<longrightarrow> int (length (wc_queue w)) \<le> n)"
  using assms
proof induction
  case (work acc "done" lost w s m q now w1 s1)
  obtain w2 where "w1 = w2\<lparr>wc_processed := wc_processed w + 1, wc_queue_size := length q\<rparr>" "wc_queue w2 = q" "wc_max_queue w2 = wc_max_queue w"
    "wc_dropped w2 = wc_dropped w"
    using work.hyps(5,2-4) by (rule worker_took)
  with work.IH work.hyps(4) show ?case by auto
qed (auto simp: make_worker_collector_def start_worker_def enqueue_metric_def queue_full_def control_frame(1,2) [unfolded wc_frame_def]
      dest!: control_frame(3) [unfolded wc_frame_def])

definition counted_sum :: "string \<Rightarrow> string \<Rightarrow> queued_metric list \<Rightarrow> real" where
  "counted_sum name key ms = sum_list (map qm_value (filter (\<lambda>m. qm_name m = name \<and> labels_key (qm_labels m) = key) ms))"

definition elsewhere :: "string \<Rightarrow> bool" where
  "elsewhere name \<longleftrightarrow> name = ''redis_cache_operation_duration_seconds'' \<or> name = ''redis_circuit_breaker_state''"

lemma shared_counter_zero:
  "try_prometheus_metric m now s = (True, s1) \<Longrightarrow> \<not> elsewhere (qm_name m) \<Longrightarrow> qm_value m = 0"
  by (auto simp: try_prometheus_metric_def elsewhere_def inc_def Let_def split: prod.splits sum.splits if_split_asm)

lemma process_counter:
  assumes "process_metric m now (w, s) = (w1, s1)" "\<not> elsewhere name" "qm_name m = name \<Longrightarrow> qm_type m = CounterT"
  shows "local_value name key (wc_metrics w1) = local_value name key (wc_metrics w) + counted_sum name key [m]"
proof (cases "try_prometheus_metric m now s")
  case (Pair shared s2)
  show ?thesis
  proof (cases shared)
    case True
    then have "qm_name m = name \<Longrightarrow> qm_value m = 0" using shared_counter_zero [of m now s s2] Pair assms(2) by simp
    then show ?thesis using assms(1) True Pair by (auto simp: process_metric_def counted_sum_def)
  next
    case False
    then show ?thesis using assms(1,3) Pair by (auto simp: process_metric_def counted_sum_def Let_def local_value_update)
  qed
qed

lemma wc_counters:
  assumes "wc_run n acc done lost w s" "\<not> elsewhere name" "\<forall>m \<in> set acc. qm_name m = name \<longrightarrow> qm_type m = CounterT"
  shows "local_value name key (wc_metrics w) = counted_sum name key done"
  using assms
proof (induction arbitrary: rule: wc_run.induct)
  case (work acc "done" lost w s m q now w1 s1)
  obtain w2 where w2: "process_metric m now (w\<lparr>wc_queue := q\<rparr>, s) = (w2, s1)" "w1 = w2\<lparr>wc_processed := wc_processed w + 1, wc_queue_size := length q\<rparr>"
    using work.hyps(5,2-4) by (rule worker_took) auto
  have "m \<in> set acc" using wc_accounts [OF work.hyps(1)] work.hyps(4) by auto
  then have "qm_name m = name \<Longrightarrow> qm_type m = CounterT" using work.prems(2) by blast
  from process_counter [OF w2(1) work.prems(1) this] work.IH [OF work.prems] w2(2) show ?case by (simp add: counted_sum_def)
qed (auto simp: make_worker_collector_def start_worker_def enqueue_metric_def control_frame(1,2) [unfolded wc_frame_def] local_value_def
      local_inner_def counted_sum_def dest!: control_frame(3) [unfolded wc_frame_def])

text \<open>
  Nothing is lost or counted twice on the way through the queue: what was accepted is what the worker took, in that order, followed by
  what still waits; the reported numbers are exact, the queue keeps its bound, and a counter equals the sum of the values the worker took.
\<close>

theorem worker_conserves:
  assumes "wc_run n acc done lost w s"
  shows "acc = done @ wc_queue w
    \<and> get_worker_stats w = \<lparr>wr_processed = length done, wr_dropped = lost, wr_queue_size = length acc - length done, wr_local = wc_metrics w\<rparr>
    \<and> (0 < n \<longrightarrow> int (length (wc_queue w)) \<le> n)
    \<and> (\<forall>name key. \<not> elsewhere name \<and> (\<forall>m \<in> set acc. qm_name m = name \<longrightarrow> qm_type m = CounterT)
         \<longrightarrow> local_value name key (wc_metrics w) = sum_list (map qm_value (filter (\<lambda>m. qm_name m = name \<and> labels_key (qm_labels m) = key) done)))"
  using wc_accounts [OF assms] wc_counters [OF assms] by (auto simp: get_worker_stats_def counted_sum_def)

definition demo_metric :: queued_metric where
  "demo_metric = \<lparr>qm_type = CounterT, qm_name = ''hits'', qm_value = 2, qm_labels = []\<rparr>"

lemma demo_run:
  "\<exists>w s. wc_run 1 [demo_metric] [demo_metric] 1 w s \<and> local_value ''hits'' ''default'' (wc_metrics w) = 2"
proof -
  let ?w0 = "make_worker_collector 1" and ?w1 = "enqueue_metric demo_metric (make_worker_collector 1)"
  let ?w2 = "enqueue_metric demo_metric ?w1"
  note defs = make_worker_collector_def start_worker_def enqueue_metric_def queue_full_def
  have "wc_run 1 ([] @ [demo_metric]) [] 0 ?w1 empty_store" by (rule record_ok [OF fresh]) (simp add: defs)
  then have "wc_run 1 [demo_metric] [] 1 ?w2 empty_store" using record_full [of 1 "[demo_metric]" "[]" 0 ?w1] by (simp add: defs)
  moreover obtain w3 s3 where w3: "worker_iteration 0 (?w2, empty_store) = (w3, s3)" by force
  ultimately have "wc_run 1 [demo_metric] ([] @ [demo_metric]) 1 w3 s3" by (elim work [where q = "[]"]) (simp_all add: defs)
  moreover have "local_value ''hits'' ''default'' (wc_metrics w3) = 2"
    using w3 by (auto simp: defs worker_iteration_def process_metric_def try_prometheus_metric_def demo_metric_def local_value_def local_inner_def
        labels_key_def Let_def)
  ultimately show ?thesis by auto
qed

theorem worker_conserves_witness:
  "\<exists>w s. wc_run 1 [demo_metric] [demo_metric] 1 w s \<and> wc_queue w = [] \<and> wr_dropped (get_worker_stats w) = 1
     \<and> local_value ''hits'' ''default'' (wc_metrics w) = 2"
proof -
  obtain w s where r: "wc_run 1 [demo_metric] [demo_metric] 1 w s" "local_value ''hits'' ''default'' (wc_metrics w) = 2" using demo_run by blast
  with worker_conserves [OF r(1)] show ?thesis by (intro exI [of _ w] exI [of _ s]) auto
qed

text \<open>
  Counters for the shared total of cache operations never reach it: the amount is passed where labels are expected, so a positive amount
  raises, is swallowed and ends up in the local dictionary, while an amount of zero adds one.
\<close>

theorem shared_total_unreachable:
  assumes "qm_name m = ''redis_cache_operations_total''" "process_metric m now (w, s) = (w1, s1)"
  shows "value_of ''cache_operations_total'' key s1 =
    value_of ''cache_operations_total'' key s + (if qm_value m = 0 \<and> key = labels_key (qm_labels m) then 1 else 0)"
  using assms
  by (auto simp: process_metric_def try_prometheus_metric_def inc_def Let_def with_labels_def cache_operations_def make_collector_def
      split: prod.splits bool.splits sum.splits if_splits)

theorem shared_total_unreachable_witness:
  "value_of ''cache_operations_total'' ''default''
     (snd (process_metric \<lparr>qm_type = CounterT, qm_name = ''redis_cache_operations_total'', qm_value = 5, qm_labels = []\<rparr> 0
        (make_worker_collector 10, empty_store))) = 0"
  using shared_total_unreachable [of "\<lparr>qm_type = CounterT, qm_name = ''redis_cache_operations_total'', qm_value = 5, qm_labels = []\<rparr>" 0
      "make_worker_collector 10" empty_store _ _ "''default''"]
  by (cases "process_metric \<lparr>qm_type = CounterT, qm_name = ''redis_cache_operations_total'', qm_value = 5, qm_labels = []\<rparr> 0
        (make_worker_collector 10, empty_store)")
     (simp add: value_of_def inner_def empty_store_def)

text \<open>Different sets of labels can share a key: the separators are not escaped.\<close>

lemma label_keys_collide: "labels_key [(''a'', ''1|b=2'')] = labels_key [(''a'', ''1''), (''b'', ''2'')]"
  by (simp add: labels_key_def label_text_def)

end
