(* ===== verification/Async_Metrics.thy ===== *)
theory Async_Metrics
  imports Metrics_Registry "HOL-Library.Sublist" "HOL-Library.Multiset"
begin

text \<open>
  \<^verbatim>\<open>reliability/async_metrics.py\<close>: the collector that writes to Prometheus directly at low frequency and through a queue and a worker
  thread at high frequency, with a pool of reused dictionaries. The dictionaries are objects of an explicit heap, because the pool, the
  queue and the batch of the worker share them. The Prometheus client is a parameter; the fields \<^verbatim>\<open>hit\<close> and \<^verbatim>\<open>timestamp\<close> of a metric,
  which nothing reads, are left out.
\<close>

section \<open>Prometheus\<close>

datatype metric_kind = CounterK | HistogramK | GaugeK

text \<open>Creating a metric yields a handle or raises; \<^verbatim>\<open>labels(...)\<close> followed by \<^verbatim>\<open>inc\<close>, \<^verbatim>\<open>observe\<close> or \<^verbatim>\<open>set\<close> succeeds or raises.\<close>

record 'p prom_client =
  pc_available :: bool
  pc_create :: "metric_kind \<Rightarrow> string \<Rightarrow> string list \<Rightarrow> 'p \<Rightarrow> (pyexn + nat) \<times> 'p"
  pc_update :: "nat \<Rightarrow> labels \<Rightarrow> real \<Rightarrow> 'p \<Rightarrow> (pyexn + unit) \<times> 'p"
  pc_suffix :: string

text \<open>The cached metric objects and the client.\<close>

type_synonym 'p prom_state = "(string, nat) odict \<times> 'p"
type_synonym 'p prom_call = "'p prom_state \<Rightarrow> (pyexn + unit) \<times> 'p prom_state"

definition is_duplicate :: "pyexn \<Rightarrow> bool" where
  "is_duplicate e = (case e of PyExn c t \<Rightarrow> c = ''ValueError'' \<and> sublist ''Duplicated timeseries'' t | BackendExn b \<Rightarrow> False)"

definition get_metric :: "'p prom_client \<Rightarrow> metric_kind \<Rightarrow> string \<Rightarrow> string list \<Rightarrow> 'p prom_state \<Rightarrow> (pyexn + nat) \<times> 'p prom_state" where
  "get_metric pc kind name labelnames st =
     (case st of (cached, p) \<Rightarrow>
        (case map_of cached name of
           Some h \<Rightarrow> (Inr h, st)
         | None \<Rightarrow>
             (case (case pc_create pc kind name labelnames p of
                      (Inl e, p1) \<Rightarrow> if is_duplicate e then pc_create pc kind (name @ ''_'' @ pc_suffix pc) labelnames p1 else (Inl e, p1)
                    | (Inr h, p1) \<Rightarrow> (Inr h, p1)) of
                (Inl e, p2) \<Rightarrow> (Inl e, (cached, p2))
              | (Inr h, p2) \<Rightarrow> (Inr h, (AList.update name h cached, p2)))))"

primrec seq_calls :: "'p prom_call list \<Rightarrow> 'p prom_call" where
  "seq_calls [] st = (Inr (), st)"
| "seq_calls (f # fs) st = (case f st of (Inl e, st1) \<Rightarrow> (Inl e, st1) | (Inr u, st1) \<Rightarrow> seq_calls fs st1)"

definition update_handle :: "'p prom_client \<Rightarrow> nat \<Rightarrow> labels \<Rightarrow> real \<Rightarrow> 'p prom_call" where
  "update_handle pc h ls v st = (case pc_update pc h ls v (snd st) of (r, p) \<Rightarrow> (r, (fst st, p)))"

definition with_metric :: "'p prom_client \<Rightarrow> metric_kind \<Rightarrow> string \<Rightarrow> string list \<Rightarrow> (nat \<Rightarrow> 'p prom_call) \<Rightarrow> 'p prom_call" where
  "with_metric pc kind name labelnames k st =
     (case get_metric pc kind name labelnames st of (Inl e, st1) \<Rightarrow> (Inl e, st1) | (Inr h, st1) \<Rightarrow> k h st1)"

section \<open>Metrics and their groups\<close>

datatype metric_dict =
    CacheOperation (m_operation: string) (m_namespace: string) (m_success: bool) (m_duration: real) (m_serializer: string) (m_bytes: int)
  | BreakerState (m_namespace: string) (m_state: string) (m_transitions: int)
  | CounterMetric (m_name: string) (m_labels: labels) (m_value: real)
  | HistogramMetric (m_name: string) (m_labels: labels) (m_value: real)

type_synonym op_key = "string \<times> string \<times> bool \<times> string"

definition or_else :: "'v \<Rightarrow> ('k, 'v) odict \<Rightarrow> 'k \<Rightarrow> 'v" where
  "or_else d al k = (case map_of al k of None \<Rightarrow> d | Some v \<Rightarrow> v)"

fun group_cache_op :: "metric_dict \<Rightarrow> (op_key, nat \<times> real \<times> int) odict \<Rightarrow> (op_key, nat \<times> real \<times> int) odict" where
  "group_cache_op (CacheOperation op ns ok d ser sz) g =
     (case or_else (0, 0, 0) g (op, ns, ok, ser) of (n, dd, ss) \<Rightarrow> AList.update (op, ns, ok, ser) (Suc n, dd + d, ss + sz) g)"
| "group_cache_op _ g = g"

fun group_breaker :: "metric_dict \<Rightarrow> (string \<times> string, nat) odict \<Rightarrow> (string \<times> string, nat) odict" where
  "group_breaker (BreakerState ns st tr) g = AList.update (ns, st) (Suc (or_else 0 g (ns, st))) g"
| "group_breaker _ g = g"

fun group_counter :: "metric_dict \<Rightarrow> (string, (labels, real) odict) odict \<Rightarrow> (string, (labels, real) odict) odict" where
  "group_counter (CounterMetric name ls v) g =
     (let i = or_else [] g name; k = sort_key fst ls in AList.update name (AList.update k (or_else 0 i k + v) i) g)"
| "group_counter _ g = g"

fun group_histogram :: "metric_dict \<Rightarrow> (string, (real \<times> labels) list) odict \<Rightarrow> (string, (real \<times> labels) list) odict" where
  "group_histogram (HistogramMetric name ls v) g = AList.update name (or_else [] g name @ [(v, sort_key fst ls)]) g"
| "group_histogram _ g = g"

definition py_bool :: "bool \<Rightarrow> string" where
  "py_bool b = (if b then ''True'' else ''False'')"

definition op_labels :: "string \<Rightarrow> string \<Rightarrow> bool \<Rightarrow> string \<Rightarrow> labels" where
  "op_labels op ns ok ser = [(''operation'', op), (''namespace'', ns), (''success'', py_bool ok), (''serializer'', ser)]"

definition shape_labels :: "string \<Rightarrow> string \<Rightarrow> string \<Rightarrow> labels" where
  "shape_labels op ns ser = [(''operation'', op), (''namespace'', ns), (''serializer'', ser)]"

definition cache_op_calls :: "'p prom_client \<Rightarrow> nat \<Rightarrow> nat \<Rightarrow> nat \<Rightarrow> op_key \<times> nat \<times> real \<times> int \<Rightarrow> 'p prom_call list" where
  "cache_op_calls pc hc ht hs g =
     (case g of ((op, ns, ok, ser), n, d, sz) \<Rightarrow>
        update_handle pc hc (op_labels op ns ok ser) (real n)
        # (if d > 0 then [update_handle pc ht (shape_labels op ns ser) (d / real n)] else [])
        @ (if sz > 0 then [update_handle pc hs (shape_labels op ns ser) (real_of_int sz / real n)] else []))"

definition counter_calls :: "'p prom_client \<Rightarrow> string \<times> (labels, real) odict \<Rightarrow> 'p prom_call list" where
  "counter_calls pc g =
     (case g of (name, vals) \<Rightarrow>
        if vals = [] then []
        else [with_metric pc CounterK name (map fst (fst (hd vals))) (\<lambda>h. seq_calls (map (\<lambda>(ls, v). update_handle pc h ls v) vals))])"

definition histogram_calls :: "'p prom_client \<Rightarrow> string \<times> (real \<times> labels) list \<Rightarrow> 'p prom_call list" where
  "histogram_calls pc g =
     (case g of (name, obs) \<Rightarrow>
        if obs = [] then []
        else [with_metric pc HistogramK name (map fst (snd (hd obs))) (\<lambda>h. seq_calls (map (\<lambda>(v, ls). update_handle pc h ls v) obs))])"

definition update_prometheus_metrics ::
  "'p prom_client \<Rightarrow> (op_key, nat \<times> real \<times> int) odict \<Rightarrow> (string \<times> string, nat) odict \<Rightarrow> (string, (labels, real) odict) odict
     \<Rightarrow> (string, (real \<times> labels) list) odict \<Rightarrow> 'p prom_call" where
  "update_prometheus_metrics pc cache_ops states counters histograms =
     with_metric pc CounterK ''cache_operations_total'' [''operation'', ''namespace'', ''success'', ''serializer''] (\<lambda>hc.
     with_metric pc HistogramK ''cache_operation_duration_ms'' [''operation'', ''namespace'', ''serializer''] (\<lambda>ht.
     with_metric pc HistogramK ''cache_operation_size_bytes'' [''operation'', ''namespace'', ''serializer''] (\<lambda>hs.
     with_metric pc GaugeK ''circuit_breaker_state'' [''namespace'', ''state''] (\<lambda>hg.
       seq_calls (concat (map (cache_op_calls pc hc ht hs) cache_ops)
         @ map (\<lambda>((ns, st), n). update_handle pc hg [(''namespace'', ns), (''state'', st)] (real n)) states
         @ concat (map (counter_calls pc) counters)
         @ concat (map (histogram_calls pc) histograms))))))"

text \<open>What \<^verbatim>\<open>_flush_batch\<close> does with the contents of a batch.\<close>

definition deliver :: "'p prom_client \<Rightarrow> metric_dict list \<Rightarrow> 'p prom_call" where
  "deliver pc ms =
     update_prometheus_metrics pc (fold group_cache_op ms []) (fold group_breaker ms []) (fold group_counter ms []) (fold group_histogram ms [])"

section \<open>The collector\<close>

text \<open>The worker with its batch and the time of its last flush, or a thread that has ended.\<close>

datatype worker = NotStarted | Working "nat list" real | Gone

record 'p acollector =
  ac_batch_size :: int
  ac_flush_interval :: real
  ac_max_queue :: int
  ac_auto :: bool
  ac_ops :: nat
  ac_start :: real
  ac_last_check :: real
  ac_sync :: bool
  ac_queue :: "nat list option"
  ac_stopped :: bool
  ac_worker :: worker
  ac_dropped :: nat
  ac_pool :: "nat list"
  ac_heap :: "nat \<Rightarrow> metric_dict option"
  ac_next :: nat
  ac_prom :: "'p prom_state"

definition init_async_mode :: "real \<Rightarrow> 'p acollector \<Rightarrow> 'p acollector" where
  "init_async_mode now c =
     (if ac_queue c = None then c\<lparr>ac_queue := Some [], ac_stopped := False, ac_worker := Working [] now\<rparr> else c)"

definition make_acollector :: "int \<Rightarrow> real \<Rightarrow> int \<Rightarrow> bool option \<Rightarrow> bool \<Rightarrow> real \<Rightarrow> 'p \<Rightarrow> 'p acollector" where
  "make_acollector batch_size interval max_queue sync_mode auto now p =
     (let sync = (if sync_mode = None \<and> auto then True else (case sync_mode of None \<Rightarrow> False | Some b \<Rightarrow> b));
          c = \<lparr>ac_batch_size = batch_size, ac_flush_interval = interval, ac_max_queue = max_queue, ac_auto = auto, ac_ops = 0, ac_start = now,
               ac_last_check = now, ac_sync = sync, ac_queue = None, ac_stopped = False, ac_worker = NotStarted, ac_dropped = 0, ac_pool = [],
               ac_heap = (\<lambda>a. None), ac_next = 0, ac_prom = ([], p)\<rparr> in
      if sync then c else init_async_mode now c)"

definition get_pooled_metric_data :: "'p acollector \<Rightarrow> nat \<times> 'p acollector" where
  "get_pooled_metric_data c =
     (if ac_pool c \<noteq> [] then (last (ac_pool c), c\<lparr>ac_pool := butlast (ac_pool c)\<rparr>) else (ac_next c, c\<lparr>ac_next := Suc (ac_next c)\<rparr>))"

definition return_to_pool :: "nat \<Rightarrow> 'p acollector \<Rightarrow> 'p acollector" where
  "return_to_pool a c = (if length (ac_pool c) < 100 then c\<lparr>ac_pool := ac_pool c @ [a]\<rparr> else c)"

definition fill_metric :: "nat \<Rightarrow> metric_dict \<Rightarrow> 'p acollector \<Rightarrow> 'p acollector" where
  "fill_metric a m c = c\<lparr>ac_heap := (ac_heap c)(a := Some m)\<rparr>"

definition put_metric :: "nat \<Rightarrow> 'p acollector \<Rightarrow> 'p acollector" where
  "put_metric a c =
     (case ac_queue c of
        None \<Rightarrow> c
      | Some q \<Rightarrow> if queue_full (ac_max_queue c) q then return_to_pool a (c\<lparr>ac_dropped := Suc (ac_dropped c)\<rparr>) else c\<lparr>ac_queue := Some (q @ [a])\<rparr>)"

text \<open>The four \<^verbatim>\<open>_record_..._async\<close> methods differ only in the dictionary they fill.\<close>

definition record_async :: "metric_dict \<Rightarrow> 'p acollector \<Rightarrow> (pyexn + unit) \<times> 'p acollector" where
  "record_async m c =
     (if ac_queue c = None then (Inl (PyExn ''AssertionError'' ''Async metrics not initialized''), c)
      else case get_pooled_metric_data c of (a, c1) \<Rightarrow> (Inr (), put_metric a (fill_metric a m c1)))"

definition sync_calls :: "'p prom_client \<Rightarrow> metric_dict \<Rightarrow> 'p prom_call" where
  "sync_calls pc m =
     (case m of
        CacheOperation op ns ok d ser sz \<Rightarrow>
          seq_calls ([with_metric pc CounterK ''cache_operations_total'' [''operation'', ''namespace'', ''success'', ''serializer'']
                        (\<lambda>h. update_handle pc h (op_labels op ns ok ser) 1)]
            @ (if d > 0 then [with_metric pc HistogramK ''cache_operation_duration_ms'' [''operation'', ''namespace'', ''serializer'']
                        (\<lambda>h. update_handle pc h (shape_labels op ns ser) d)] else [])
            @ (if sz > 0 then [with_metric pc HistogramK ''cache_operation_size_bytes'' [''operation'', ''namespace'', ''serializer'']
                        (\<lambda>h. update_handle pc h (shape_labels op ns ser) (real_of_int sz))] else []))
      | BreakerState ns st tr \<Rightarrow>
          with_metric pc GaugeK ''circuit_breaker_state'' [''namespace'', ''state'']
            (\<lambda>h. update_handle pc h [(''namespace'', ns), (''state'', st)] (real_of_int tr))
      | CounterMetric name ls v \<Rightarrow> with_metric pc CounterK name (map fst ls) (\<lambda>h. update_handle pc h ls v)
      | HistogramMetric name ls v \<Rightarrow> with_metric pc HistogramK name (map fst ls) (\<lambda>h. update_handle pc h ls v))"

definition record_sync :: "'p prom_client \<Rightarrow> metric_dict \<Rightarrow> 'p acollector \<Rightarrow> (pyexn + unit) \<times> 'p acollector" where
  "record_sync pc m c =
     (if \<not> pc_available pc then (Inr (), c) else case sync_calls pc m (ac_prom c) of (r, st) \<Rightarrow> (r, c\<lparr>ac_prom := st\<rparr>))"

definition should_check_mode :: "real \<Rightarrow> 'p acollector \<Rightarrow> bool \<times> 'p acollector" where
  "should_check_mode now c = (if now - ac_last_check c > 5 then (True, c\<lparr>ac_last_check := now\<rparr>) else (False, c))"

definition maybe_switch_mode :: "real \<Rightarrow> 'p acollector \<Rightarrow> 'p acollector" where
  "maybe_switch_mode now c =
     (let elapsed = now - ac_start c; rate = real (ac_ops c) / elapsed in
      if ac_ops c < 10 \<or> elapsed < 1 then c
      else if ac_sync c \<and> rate > 100 then init_async_mode now (c\<lparr>ac_sync := False\<rparr>)
      else if \<not> ac_sync c \<and> rate < 10 then (c\<lparr>ac_sync := True\<rparr>)\<lparr>ac_stopped := (if ac_queue c = None then ac_stopped c else True)\<rparr>
      else c)"

definition record_metric :: "'p prom_client \<Rightarrow> real \<Rightarrow> metric_dict \<Rightarrow> 'p acollector \<Rightarrow> (pyexn + unit) \<times> 'p acollector" where
  "record_metric pc now m c =
     (let c1 = c\<lparr>ac_ops := Suc (ac_ops c)\<rparr>;
          c2 = (if ac_auto c1 then (case should_check_mode now c1 of (check, c') \<Rightarrow> if check then maybe_switch_mode now c' else c') else c1) in
      if ac_sync c2 then record_sync pc m c2 else record_async m c2)"

definition record_operation_metric ::
  "'p prom_client \<Rightarrow> real \<Rightarrow> string \<Rightarrow> string \<Rightarrow> bool \<Rightarrow> real \<Rightarrow> string \<Rightarrow> int \<Rightarrow> 'p acollector \<Rightarrow> (pyexn + unit) \<times> 'p acollector" where
  "record_operation_metric pc now op ns ok d ser sz = record_metric pc now (CacheOperation op ns ok d ser sz)"

definition record_circuit_breaker_state ::
  "'p prom_client \<Rightarrow> real \<Rightarrow> string \<Rightarrow> string \<Rightarrow> int \<Rightarrow> 'p acollector \<Rightarrow> (pyexn + unit) \<times> 'p acollector" where
  "record_circuit_breaker_state pc now ns st tr = record_metric pc now (BreakerState ns st tr)"

definition record_counter_metric ::
  "'p prom_client \<Rightarrow> real \<Rightarrow> string \<Rightarrow> labels \<Rightarrow> real \<Rightarrow> 'p acollector \<Rightarrow> (pyexn + unit) \<times> 'p acollector" where
  "record_counter_metric pc now name ls v = record_metric pc now (CounterMetric name ls v)"

definition record_histogram_metric ::
  "'p prom_client \<Rightarrow> real \<Rightarrow> string \<Rightarrow> real \<Rightarrow> labels \<Rightarrow> 'p acollector \<Rightarrow> (pyexn + unit) \<times> 'p acollector" where
  "record_histogram_metric pc now name v ls = record_metric pc now (HistogramMetric name ls v)"

definition contents :: "'p acollector \<Rightarrow> nat list \<Rightarrow> metric_dict list" where
  "contents c as = map (\<lambda>a. the (ac_heap c a)) as"

definition flush_batch :: "'p prom_client \<Rightarrow> nat list \<Rightarrow> 'p acollector \<Rightarrow> (pyexn + unit) \<times> 'p acollector" where
  "flush_batch pc batch c =
     (let c1 = fold return_to_pool batch c in
      if \<not> pc_available pc then (Inr (), c1)
      else case deliver pc (contents c batch) (ac_prom c) of (r, st) \<Rightarrow> (r, c1\<lparr>ac_prom := st\<rparr>))"

text \<open>The check after the \<^verbatim>\<open>try\<close> block: an exception here ends the thread.\<close>

definition force_flush :: "'p prom_client \<Rightarrow> real \<Rightarrow> nat list \<Rightarrow> real \<Rightarrow> 'p acollector \<Rightarrow> 'p acollector" where
  "force_flush pc now batch last_flush c =
     (if batch \<noteq> [] \<and> now - last_flush > ac_flush_interval c then
        (case flush_batch pc batch c of (Inl e, c1) \<Rightarrow> c1\<lparr>ac_worker := Gone\<rparr> | (Inr u, c1) \<Rightarrow> c1\<lparr>ac_worker := Working [] now\<rparr>)
      else c\<lparr>ac_worker := Working batch last_flush\<rparr>)"

text \<open>
  One iteration: the stop flag, then a metric from the queue, or a time-out when it is empty. An exception of the flush of a full batch is
  logged and the batch kept; one in the \<^verbatim>\<open>except queue.Empty\<close> handler ends the thread.
\<close>

definition metrics_iteration :: "'p prom_client \<Rightarrow> real \<Rightarrow> real \<Rightarrow> 'p acollector \<Rightarrow> 'p acollector" where
  "metrics_iteration pc t1 t2 c =
     (case ac_worker c of
        Working batch last_flush \<Rightarrow>
          (if ac_stopped c then (if batch \<noteq> [] then snd (flush_batch pc batch c) else c)\<lparr>ac_worker := Gone\<rparr>
           else case ac_queue c of
                  Some (a # q) \<Rightarrow>
                    (let c1 = c\<lparr>ac_queue := Some q\<rparr>; b1 = batch @ [a] in
                     if int (length b1) \<ge> ac_batch_size c
                     then (case flush_batch pc b1 c1 of
                             (Inl e, c2) \<Rightarrow> force_flush pc t2 b1 last_flush c2
                           | (Inr u, c2) \<Rightarrow> force_flush pc t2 [] t1 c2)
                     else force_flush pc t2 b1 last_flush c1)
                | _ \<Rightarrow>
                    (if batch \<noteq> [] then (case flush_batch pc batch c of
                        (Inl e, c1) \<Rightarrow> c1\<lparr>ac_worker := Gone\<rparr> | (Inr u, c1) \<Rightarrow> force_flush pc t2 [] t1 c1)
                     else force_flush pc t2 [] last_flush c))
      | _ \<Rightarrow> c)"

definition shutdown_metrics :: "'p acollector \<Rightarrow> 'p acollector" where
  "shutdown_metrics c = (if \<not> ac_sync c \<and> ac_queue c \<noteq> None then c\<lparr>ac_stopped := True\<rparr> else c)"

record metrics_report =
  mr_mode :: string
  mr_total :: nat
  mr_dropped :: nat
  mr_uptime :: real
  mr_rate :: real
  mr_auto :: bool
  mr_pool :: nat

definition get_metrics_stats :: "real \<Rightarrow> 'p acollector \<Rightarrow> metrics_report" where
  "get_metrics_stats now c =
     (let elapsed = now - ac_start c in
      \<lparr>mr_mode = (if ac_sync c then ''sync'' else ''async''), mr_total = ac_ops c, mr_dropped = ac_dropped c, mr_uptime = elapsed,
       mr_rate = (if elapsed > 0 then real (ac_ops c) / elapsed else 0), mr_auto = ac_auto c, mr_pool = length (ac_pool c)\<rparr>)"

definition get_global_collector :: "bool option \<Rightarrow> bool \<Rightarrow> real \<Rightarrow> 'p \<Rightarrow> 'p acollector option \<Rightarrow> 'p acollector" where
  "get_global_collector sync_mode auto now p g =
     (case g of Some c \<Rightarrow> c | None \<Rightarrow> make_acollector 100 (1 / 10) 10000 sync_mode auto now p)"

section \<open>Runs\<close>

text \<open>A client none of whose operations raises.\<close>

definition quiet :: "'p prom_client \<Rightarrow> bool" where
  "quiet pc \<longleftrightarrow> pc_available pc \<and> (\<forall>kind name ls p. \<exists>h p1. pc_create pc kind name ls p = (Inr h, p1))
     \<and> (\<forall>h ls v p. \<exists>p1. pc_update pc h ls v p = (Inr (), p1))"

definition silent_call :: "'p prom_call \<Rightarrow> bool" where
  "silent_call f \<longleftrightarrow> (\<forall>st. \<exists>st1. f st = (Inr (), st1))"

lemma quiet_callD: "silent_call f \<Longrightarrow> \<exists>st1. f st = (Inr (), st1)"
  unfolding silent_call_def by blast

lemma quiet_callI: "(\<And>st. \<exists>st1. f st = (Inr (), st1)) \<Longrightarrow> silent_call f"
  unfolding silent_call_def by blast

lemma quiet_seq: "list_all silent_call fs \<Longrightarrow> silent_call (seq_calls fs)"
proof (induction fs)
  case (Cons f fs)
  show ?case
  proof (rule quiet_callI)
    fix st
    have q: "silent_call f" "silent_call (seq_calls fs)" using Cons by simp_all
    obtain st1 where "f st = (Inr (), st1)" using quiet_callD [OF q(1)] by blast
    moreover obtain st2 where "seq_calls fs st1 = (Inr (), st2)" using quiet_callD [OF q(2)] by blast
    ultimately show "\<exists>st2. seq_calls (f # fs) st = (Inr (), st2)" by simp
  qed
qed (simp add: silent_call_def)

lemma quiet_update: "quiet pc \<Longrightarrow> silent_call (update_handle pc h ls v)"
  unfolding quiet_def silent_call_def update_handle_def by (metis (mono_tags, lifting) case_prod_conv)

lemma quiet_with:
  fixes pc :: "'p prom_client"
  assumes "quiet pc" "\<And>h. silent_call (k h)"
  shows "silent_call (with_metric pc kind name ls k)"
proof (rule quiet_callI)
  fix st :: "'p prom_state"
  obtain cached p where st: "st = (cached, p)" by force
  obtain h p1 where "pc_create pc kind name ls p = (Inr h, p1)" using assms(1) unfolding quiet_def by blast
  then obtain h' st' where "get_metric pc kind name ls st = (Inr h', st')" using st by (cases "map_of cached name") (auto simp: get_metric_def)
  with quiet_callD [OF assms(2), of h' st'] show "\<exists>st1. with_metric pc kind name ls k st = (Inr (), st1)" by (auto simp: with_metric_def)
qed

lemma quiet_deliver: "quiet pc \<Longrightarrow> silent_call (deliver pc ms)"
  unfolding deliver_def update_prometheus_metrics_def
  by (intro quiet_with quiet_seq)
     (auto simp: list_all_iff cache_op_calls_def counter_calls_def histogram_calls_def split: if_splits
       intro!: quiet_update quiet_with quiet_seq)

definition batch_of :: "'p acollector \<Rightarrow> nat list" where
  "batch_of c = (case ac_worker c of Working b t \<Rightarrow> b | _ \<Rightarrow> [])"

definition queued :: "'p acollector \<Rightarrow> nat list" where
  "queued c = (case ac_queue c of None \<Rightarrow> [] | Some q \<Rightarrow> q)"

text \<open>The dictionaries an iteration of the worker hands to \<^verbatim>\<open>_flush_batch\<close>.\<close>

definition flushed_now :: "real \<Rightarrow> 'p acollector \<Rightarrow> nat list" where
  "flushed_now t2 c =
     (case ac_worker c of
        Working b l \<Rightarrow>
          if ac_stopped c then b
          else (case ac_queue c of
                  Some (a # q) \<Rightarrow> if ac_batch_size c \<le> int (length (b @ [a])) \<or> t2 - l > ac_flush_interval c then b @ [a] else []
                | _ \<Rightarrow> b)
      | _ \<Rightarrow> [])"

lemma pool_after: "fold return_to_pool as c = c\<lparr>ac_pool := ac_pool c @ take (100 - length (ac_pool c)) as\<rparr>"
proof (induction as arbitrary: c)
  case (Cons a as)
  show ?case
  proof (cases "length (ac_pool c) < 100")
    case True
    then have "100 - length (ac_pool c) = Suc (100 - Suc (length (ac_pool c)))" by simp
    with Cons True show ?thesis by (simp add: return_to_pool_def)
  qed (use Cons in \<open>simp add: return_to_pool_def\<close>)
qed simp

lemma flush_quiet:
  assumes "quiet pc"
  shows "flush_batch pc b c = (Inr (), c\<lparr>ac_pool := ac_pool c @ take (100 - length (ac_pool c)) b, ac_prom := snd (deliver pc (contents c b) (ac_prom c))\<rparr>)"
proof -
  obtain st where st: "deliver pc (contents c b) (ac_prom c) = (Inr (), st)" using quiet_callD [OF quiet_deliver [OF assms]] by blast
  have "pc_available pc" using assms by (simp add: quiet_def)
  with st show ?thesis by (simp add: flush_batch_def pool_after Let_def)
qed

definition prom_after :: "'p prom_client \<Rightarrow> metric_dict list \<Rightarrow> 'p prom_state \<Rightarrow> 'p prom_state" where
  "prom_after pc ms st = (if ms = [] then st else snd (deliver pc ms st))"

lemma contents_frame [simp]:
  "contents (c\<lparr>ac_queue := x\<rparr>) as = contents c as" "contents (c\<lparr>ac_worker := w\<rparr>) as = contents c as"
  "contents (c\<lparr>ac_pool := ps\<rparr>) as = contents c as" "contents (c\<lparr>ac_prom := y\<rparr>) as = contents c as"
  by (simp_all add: contents_def)

lemma contents_empty [simp]: "contents c as = [] \<longleftrightarrow> as = []"
  by (simp add: contents_def)

lemma contents_append [simp]: "contents c (as @ bs) = contents c as @ contents c bs"
  by (simp add: contents_def)

text \<open>With such a client an iteration only moves dictionaries on: from the queue to the batch, from the batch to Prometheus and the pool.\<close>

lemma iteration_quiet:
  assumes "quiet pc" "ac_queue c = Some q"
  obtains w q' where
    "metrics_iteration pc t1 t2 c = c\<lparr>ac_queue := Some q', ac_worker := w, ac_pool := ac_pool c @ take (100 - length (ac_pool c)) (flushed_now t2 c),
       ac_prom := prom_after pc (contents c (flushed_now t2 c)) (ac_prom c)\<rparr>"
    "batch_of c @ q = flushed_now t2 c @ (case w of Working b t \<Rightarrow> b | _ \<Rightarrow> []) @ q'" "length q' \<le> length q"
proof (cases "ac_worker c")
  case (Working b l)
  note defs = metrics_iteration_def flushed_now_def force_flush_def prom_after_def batch_of_def flush_quiet [OF assms(1)] Let_def
  consider "ac_stopped c" | "\<not> ac_stopped c" "q = []" | a q1 where "\<not> ac_stopped c" "q = a # q1" by (cases q) auto
  then show ?thesis
  proof cases
    case 1
    then show ?thesis using assms(2) Working by (intro that [of Gone q]) (auto simp: defs)
  next
    case 2
    then show ?thesis
      using assms(2) Working by (intro that [of "Working [] (if b = [] then l else t1)" q]) (auto simp: defs)
  next
    case (3 a q1)
    show ?thesis
    proof (cases "ac_batch_size c \<le> int (length (b @ [a]))")
      case True
      then show ?thesis using assms(2) Working 3 by (intro that [of "Working [] t1" q1]) (auto simp: defs)
    next
      case False
      then show ?thesis
        using assms(2) Working 3
        by (intro that [of "if t2 - l > ac_flush_interval c then Working [] t2 else Working (b @ [a]) l" q1]) (auto simp: defs)
    qed
  qed
qed (use assms in \<open>auto simp: metrics_iteration_def flushed_now_def prom_after_def batch_of_def intro!: that [of "ac_worker c" q]\<close>)

text \<open>
  The runs of a collector in asynchronous mode. A thread that records is in two steps: it takes and fills a dictionary, later it puts it
  into the queue; meanwhile \<open>hands\<close> holds its dictionary. \<open>acc\<close> are the metrics that entered the queue, and \<open>hist\<close> is what was done to
  Prometheus: a direct update (\<open>Inl\<close>) or a batch (\<open>Inr\<close>).
\<close>

definition apply_log :: "'p prom_client \<Rightarrow> metric_dict + metric_dict list \<Rightarrow> 'p prom_state \<Rightarrow> 'p prom_state" where
  "apply_log pc e st = (case e of Inl m \<Rightarrow> snd (sync_calls pc m st) | Inr ms \<Rightarrow> snd (deliver pc ms st))"

definition batches :: "(metric_dict + metric_dict list) list \<Rightarrow> metric_dict list" where
  "batches hist = concat (map (\<lambda>e. case e of Inl m \<Rightarrow> [] | Inr ms \<Rightarrow> ms) hist)"

inductive mc_run ::
  "'p prom_client \<Rightarrow> 'p acollector \<Rightarrow> (nat, nat) odict \<Rightarrow> metric_dict list \<Rightarrow> (metric_dict + metric_dict list) list \<Rightarrow> 'p acollector \<Rightarrow> bool" for pc c0 where
  begin_run: "mc_run pc c0 [] [] [] c0"
| take_dict: "mc_run pc c0 ((t, a) # hands) acc hist (fill_metric a m c1)"
    if "mc_run pc c0 hands acc hist c" "t \<notin> fst ` set hands" "get_pooled_metric_data c = (a, c1)"
| put_dict: "mc_run pc c0 (AList.delete t hands) (if queue_full (ac_max_queue c) (queued c) then acc else acc @ contents c [a]) hist (put_metric a c)"
    if "mc_run pc c0 hands acc hist c" "map_of hands t = Some a"
| direct: "mc_run pc c0 hands acc (hist @ [Inl m]) (snd (record_sync pc m c))" if "mc_run pc c0 hands acc hist c"
| iterate: "mc_run pc c0 hands acc (hist @ (if flushed_now t2 c = [] then [] else [Inr (contents c (flushed_now t2 c))])) (metrics_iteration pc t1 t2 c)"
    if "mc_run pc c0 hands acc hist c"
| switch: "mc_run pc c0 hands acc hist (maybe_switch_mode now (c\<lparr>ac_ops := n, ac_last_check := l\<rparr>))" if "mc_run pc c0 hands acc hist c"
| stop_run: "mc_run pc c0 hands acc hist (shutdown_metrics c)" if "mc_run pc c0 hands acc hist c"

definition owned :: "(nat, nat) odict \<Rightarrow> 'p acollector \<Rightarrow> nat list" where
  "owned hands c = map snd hands @ batch_of c @ queued c"

definition mc_inv :: "'p prom_client \<Rightarrow> 'p acollector \<Rightarrow> (nat, nat) odict \<Rightarrow> metric_dict list \<Rightarrow> (metric_dict + metric_dict list) list \<Rightarrow> 'p acollector \<Rightarrow> bool" where
  "mc_inv pc c0 hands acc hist c \<longleftrightarrow>
     ac_queue c \<noteq> None \<and> distinct (ac_pool c @ owned hands c) \<and> (\<forall>a \<in> set (ac_pool c @ owned hands c). a < ac_next c) \<and> distinct (map fst hands)
     \<and> length (ac_pool c) \<le> 100 \<and> ac_max_queue c = ac_max_queue c0 \<and> (0 < ac_max_queue c \<longrightarrow> int (length (queued c)) \<le> ac_max_queue c)
     \<and> batches hist @ contents c (batch_of c @ queued c) = acc \<and> ac_prom c = fold (apply_log pc) hist (ac_prom c0)"

lemma queue_update [simp]: "batch_of (c\<lparr>ac_queue := x\<rparr>) = batch_of c" "queued (c\<lparr>ac_queue := Some q\<rparr>) = q"
  by (simp_all add: batch_of_def queued_def)

lemma contents_fill: "a \<notin> set as \<Longrightarrow> contents (fill_metric a m c) as = contents c as"
  by (auto simp: contents_def fill_metric_def)

lemma take_owned:
  assumes "get_pooled_metric_data c = (a, c1)" "distinct (ac_pool c @ rest)" "\<forall>a \<in> set (ac_pool c @ rest). a < ac_next c"
  shows "a \<notin> set rest \<and> distinct (ac_pool c1 @ a # rest) \<and> (\<forall>x \<in> set (ac_pool c1 @ a # rest). x < ac_next c1) \<and> length (ac_pool c1) \<le> length (ac_pool c)
    \<and> ac_queue c1 = ac_queue c \<and> ac_worker c1 = ac_worker c \<and> ac_heap c1 = ac_heap c \<and> ac_prom c1 = ac_prom c \<and> ac_max_queue c1 = ac_max_queue c"
proof (cases "ac_pool c = []")
  case True
  then show ?thesis using assms by (auto simp: get_pooled_metric_data_def)
next
  case False
  then obtain ps x where p: "ac_pool c = ps @ [x]" by (metis append_butlast_last_id)
  then show ?thesis using assms by (auto simp: get_pooled_metric_data_def)
qed

lemma delete_hands:
  assumes "map_of hands t = Some a" "distinct (map fst hands)"
  shows "mset (map snd hands) = add_mset a (mset (map snd (AList.delete t hands)))" "distinct (map fst (AList.delete t hands))"
proof -
  show "mset (map snd hands) = add_mset a (mset (map snd (AList.delete t hands)))"
    using assms by (induction hands) (auto simp: delete_notin delete_simps)
  show "distinct (map fst (AList.delete t hands))" using assms(2) by (simp add: distinct_map_fst_delete)
qed

lemma pool_recycle:
  "distinct (ps @ hs @ fs @ rs) \<Longrightarrow> distinct ((ps @ take n fs) @ hs @ rs) \<and> set ((ps @ take n fs) @ hs @ rs) \<subseteq> set (ps @ hs @ fs @ rs)"
  by (auto dest: in_set_takeD)

lemma take_inv:
  assumes inv: "mc_inv pc c0 hands acc hist c" and "t \<notin> fst ` set hands" "get_pooled_metric_data c = (a, c1)"
  shows "mc_inv pc c0 ((t, a) # hands) acc hist (fill_metric a m c1)"
proof -
  have "a \<notin> set (owned hands c) \<and> distinct (ac_pool c1 @ a # owned hands c) \<and> (\<forall>x \<in> set (ac_pool c1 @ a # owned hands c). x < ac_next c1)
    \<and> length (ac_pool c1) \<le> length (ac_pool c) \<and> ac_queue c1 = ac_queue c \<and> ac_worker c1 = ac_worker c \<and> ac_heap c1 = ac_heap c
    \<and> ac_prom c1 = ac_prom c \<and> ac_max_queue c1 = ac_max_queue c"
    by (intro take_owned assms(3)) (use inv in \<open>auto simp: mc_inv_def\<close>)
  moreover from this have "contents (fill_metric a m c1) (batch_of c @ queued c) = contents c (batch_of c @ queued c)"
    by (subst contents_fill) (auto simp: owned_def contents_def)
  ultimately show ?thesis
    using inv assms(2) by (auto simp: mc_inv_def owned_def fill_metric_def batch_of_def queued_def)
qed

lemma put_inv:
  assumes inv: "mc_inv pc c0 hands acc hist c" and "map_of hands t = Some a"
  shows "mc_inv pc c0 (AList.delete t hands) (if queue_full (ac_max_queue c) (queued c) then acc else acc @ contents c [a]) hist (put_metric a c)"
proof -
  note d = delete_hands [OF assms(2)]
  then have m: "mset (map snd hands) = add_mset a (mset (map snd (AList.delete t hands)))" "distinct (map fst (AList.delete t hands))"
    using inv by (auto simp: mc_inv_def)
  obtain q where q: "ac_queue c = Some q" using inv by (auto simp: mc_inv_def)
  have own: "mset (owned hands c) = add_mset a (mset (map snd (AList.delete t hands) @ batch_of c @ queued c))"
    using m(1) by (simp add: owned_def)
  have sets: "set (owned hands c) = insert a (set (map snd (AList.delete t hands) @ batch_of c @ queued c))"
    using own by (metis set_mset_add_mset_insert set_mset_mset)
  have dis: "distinct (a # map snd (AList.delete t hands) @ batch_of c @ queued c)"
    using inv own by (metis distinct_append mc_inv_def mset.simps(2) mset_eq_imp_distinct_iff)
  have pool: "set (ac_pool c) \<inter> insert a (set (map snd (AList.delete t hands) @ batch_of c @ queued c)) = {}" "distinct (ac_pool c)"
    "\<forall>x \<in> set (ac_pool c) \<union> insert a (set (map snd (AList.delete t hands) @ batch_of c @ queued c)). x < ac_next c"
    using inv sets by (auto simp: mc_inv_def)
  show ?thesis
  proof (cases "queue_full (ac_max_queue c) (queued c)")
    case True
    then have c: "put_metric a c = c\<lparr>ac_dropped := Suc (ac_dropped c), ac_pool := ac_pool c @ take (100 - length (ac_pool c)) [a]\<rparr>"
      using q by (auto simp: put_metric_def queued_def return_to_pool_def)
    show ?thesis
      using inv True q pool dis m(2) unfolding c
      by (auto simp: mc_inv_def owned_def batch_of_def queued_def contents_def take_Cons split: nat.splits)
  next
    case False
    then have c: "put_metric a c = c\<lparr>ac_queue := Some (queued c @ [a])\<rparr>" using q by (simp add: put_metric_def queued_def)
    have "int (length (queued c @ [a])) \<le> ac_max_queue c" if "0 < ac_max_queue c" using False that by (simp add: queue_full_def)
    moreover have "batches hist @ contents c (batch_of c @ queued c @ [a]) = acc @ contents c [a]" using inv by (simp add: mc_inv_def)
    ultimately show ?thesis
      using inv False pool dis m(2) unfolding c mc_inv_def owned_def by (intro conjI) auto
  qed
qed

lemma iterate_inv:
  assumes inv: "mc_inv pc c0 hands acc hist c" and "quiet pc"
  shows "mc_inv pc c0 hands acc (hist @ (if flushed_now t2 c = [] then [] else [Inr (contents c (flushed_now t2 c))])) (metrics_iteration pc t1 t2 c)"
proof -
  obtain q where q: "ac_queue c = Some q" using inv by (auto simp: mc_inv_def)
  let ?fl = "flushed_now t2 c"
  obtain w q' where it: "metrics_iteration pc t1 t2 c = c\<lparr>ac_queue := Some q', ac_worker := w,
      ac_pool := ac_pool c @ take (100 - length (ac_pool c)) ?fl, ac_prom := prom_after pc (contents c ?fl) (ac_prom c)\<rparr>"
    and split: "batch_of c @ q = ?fl @ (case w of Working b t \<Rightarrow> b | _ \<Rightarrow> []) @ q'" and len: "length q' \<le> length q"
    using iteration_quiet [OF assms(2) q] by metis
  have own: "owned hands c = map snd hands @ ?fl @ (case w of Working b t \<Rightarrow> b | _ \<Rightarrow> []) @ q'"
    using split q by (simp add: owned_def queued_def)
  have c': "batch_of (metrics_iteration pc t1 t2 c) = (case w of Working b t \<Rightarrow> b | _ \<Rightarrow> [])" "queued (metrics_iteration pc t1 t2 c) = q'"
    "contents (metrics_iteration pc t1 t2 c) = contents c" "ac_pool (metrics_iteration pc t1 t2 c) = ac_pool c @ take (100 - length (ac_pool c)) ?fl"
    "ac_next (metrics_iteration pc t1 t2 c) = ac_next c" "ac_max_queue (metrics_iteration pc t1 t2 c) = ac_max_queue c"
    "ac_prom (metrics_iteration pc t1 t2 c) = prom_after pc (contents c ?fl) (ac_prom c)" "ac_queue (metrics_iteration pc t1 t2 c) = Some q'"
    unfolding it by (simp_all add: batch_of_def queued_def contents_def fun_eq_iff)
  have places: "distinct ((ac_pool c @ take (100 - length (ac_pool c)) ?fl) @ map snd hands @ (case w of Working b t \<Rightarrow> b | _ \<Rightarrow> []) @ q')
    \<and> set ((ac_pool c @ take (100 - length (ac_pool c)) ?fl) @ map snd hands @ (case w of Working b t \<Rightarrow> b | _ \<Rightarrow> []) @ q')
       \<subseteq> set (ac_pool c @ map snd hands @ ?fl @ (case w of Working b t \<Rightarrow> b | _ \<Rightarrow> []) @ q')"
    by (rule pool_recycle) (use inv own in \<open>simp add: mc_inv_def\<close>)
  have below: "\<forall>a \<in> set (ac_pool c @ map snd hands @ ?fl @ (case w of Working b t \<Rightarrow> b | _ \<Rightarrow> []) @ q'). a < ac_next c"
    using inv own by (simp add: mc_inv_def)
  have order: "batches (hist @ (if ?fl = [] then [] else [Inr (contents c ?fl)])) @ contents c ((case w of Working b t \<Rightarrow> b | _ \<Rightarrow> []) @ q') = acc"
    using inv q split by (cases "?fl = []") (simp_all add: mc_inv_def batches_def queued_def flip: contents_append)
  have prom: "prom_after pc (contents c ?fl) (ac_prom c) = fold (apply_log pc) (hist @ (if ?fl = [] then [] else [Inr (contents c ?fl)])) (ac_prom c0)"
    using inv by (simp add: mc_inv_def prom_after_def apply_log_def)
  have old: "distinct (map fst hands)" "length (ac_pool c) \<le> 100" "ac_max_queue c = ac_max_queue c0"
    "0 < ac_max_queue c \<longrightarrow> int (length q') \<le> ac_max_queue c"
    using inv len q by (auto simp: mc_inv_def queued_def)
  then have "length (ac_pool c @ take (100 - length (ac_pool c)) ?fl) \<le> 100" by simp
  with places below order prom old show ?thesis unfolding mc_inv_def owned_def c' by blast
qed

lemma run_inv:
  assumes "mc_run pc c0 hands acc hist c" "quiet pc" "mc_inv pc c0 [] [] [] c0"
  shows "mc_inv pc c0 hands acc hist c"
  using assms
proof induction
  case (switch hands acc hist c now n l)
  then show ?case by (auto simp: mc_inv_def maybe_switch_mode_def init_async_mode_def Let_def owned_def batch_of_def queued_def contents_def)
next
  case (direct hands acc hist c m)
  then show ?case
    by (auto simp: mc_inv_def record_sync_def quiet_def owned_def batch_of_def queued_def contents_def batches_def apply_log_def split: prod.splits)
next
  case (stop_run hands acc hist c)
  then show ?case by (auto simp: mc_inv_def shutdown_metrics_def owned_def batch_of_def queued_def contents_def)
next
  case (take_dict hands acc hist c t a c1 m)
  then show ?case by (intro take_inv)
next
  case (put_dict hands acc hist c t a)
  then show ?case by (intro put_inv)
next
  case (iterate hands acc hist c t2 t1)
  then show ?case by (intro iterate_inv)
qed

section \<open>Properties\<close>


definition null_client :: "unit prom_client" where
  "null_client = \<lparr>pc_available = True, pc_create = (\<lambda>kind name ls p. (Inr 0, p)), pc_update = (\<lambda>h ls v p. (Inr (), p)), pc_suffix = []\<rparr>"


text \<open>The sum for a counter that a batch reports is the sum of its recorded amounts.\<close>

lemma or_else_update [simp]: "or_else d (AList.update k v al) k' = (if k' = k then v else or_else d al k')"
  by (simp add: or_else_def update_conv')

lemma counters_grouped:
  "or_else 0 (or_else [] (fold group_counter ms g) name) k =
     or_else 0 (or_else [] g name) k
     + sum_list (map m_value (filter (\<lambda>m. case m of CounterMetric n ls v \<Rightarrow> n = name \<and> sort_key fst ls = k | _ \<Rightarrow> False) ms))"
proof (induction ms arbitrary: g)
  case (Cons m ms)
  then show ?case by (cases m) (auto simp: Let_def)
qed simp

text \<open>The operations of a collector, for sequences of calls.\<close>

datatype mc_op = Record real metric_dict | Iterate real real | Shutdown

fun mc_exec :: "'p prom_client \<Rightarrow> mc_op \<Rightarrow> 'p acollector \<Rightarrow> 'p acollector" where
  "mc_exec pc (Record now m) c = snd (record_metric pc now m c)"
| "mc_exec pc (Iterate t1 t2) c = metrics_iteration pc t1 t2 c"
| "mc_exec pc Shutdown c = shutdown_metrics c"

definition stuck :: "nat list \<Rightarrow> 'p acollector \<Rightarrow> bool" where
  "stuck q c \<longleftrightarrow> ac_worker c = Gone \<and> (\<exists>q'. ac_queue c = Some (q @ q'))"

lemma stuck_async: "stuck q c \<Longrightarrow> stuck q (snd (record_async m c))"
  by (auto simp: stuck_def record_async_def get_pooled_metric_data_def put_metric_def fill_metric_def return_to_pool_def)

lemma stuck_sync: "stuck q c \<Longrightarrow> stuck q (snd (record_sync pc m c))"
  by (auto simp: stuck_def record_sync_def split: prod.splits)

lemma stuck_mode: "stuck q c \<Longrightarrow> stuck q (maybe_switch_mode now c)" "stuck q c \<Longrightarrow> stuck q (snd (should_check_mode now c))"
  "stuck q c \<Longrightarrow> stuck q (c\<lparr>ac_ops := n\<rparr>)"
  by (auto simp: stuck_def maybe_switch_mode_def init_async_mode_def should_check_mode_def Let_def)

lemma stuck_exec: "stuck q c \<Longrightarrow> stuck q (mc_exec pc op c)"
proof (cases op)
  case (Record now m)
  assume s: "stuck q c"
  obtain check c' where k: "should_check_mode now (c\<lparr>ac_ops := Suc (ac_ops c)\<rparr>) = (check, c')" by force
  have s0: "stuck q (c\<lparr>ac_ops := Suc (ac_ops c)\<rparr>)" by (rule stuck_mode(3) [OF s])
  have s1: "stuck q c'" using stuck_mode(2) [OF s0, of now] k by simp
  show ?thesis
    using s0 s1 k Record by (auto simp: record_metric_def Let_def intro: stuck_async stuck_sync stuck_mode(1))
qed (auto simp: stuck_def metrics_iteration_def shutdown_metrics_def)

text \<open>
  C35: A worker that has ended is never replaced: once the collector fell back to direct updates and its thread stopped, whatever is in the
  queue stays there through every later call, also when the collector switches to the queue again.
\<close>

theorem stopped_worker_never_returns:
  assumes "ac_worker c = Gone" "ac_queue c = Some q"
  shows "\<exists>q'. ac_queue (fold (mc_exec pc) ops c) = Some (q @ q') \<and> ac_worker (fold (mc_exec pc) ops c) = Gone"
proof -
  have "stuck q (fold (mc_exec pc) ops c)" if "stuck q c" for c :: "'a acollector"
    using that by (induction ops arbitrary: c) (auto intro: stuck_exec)
  moreover have "stuck q c" using assms by (simp add: stuck_def)
  ultimately show ?thesis unfolding stuck_def by blast
qed

text \<open>A collector that turned asynchronous, back, and asynchronous again: its three metrics stay in the queue.\<close>

definition busy_collector :: "unit acollector" where
  "busy_collector = (make_acollector 1 1 5 None True 0 ())\<lparr>ac_ops := 1000\<rparr>"

definition idle_collector :: "unit acollector" where
  "idle_collector = fold (mc_exec null_client)
     [Record 6 (CounterMetric ''a'' [] 1), Record 200 (CounterMetric ''b'' [] 1), Iterate 201 201] busy_collector"

lemma idle_collector: "ac_worker idle_collector = Gone" "ac_queue idle_collector = Some [0]" "ac_sync idle_collector" "ac_start idle_collector = 0"
  by (simp_all add: idle_collector_def busy_collector_def make_acollector_def record_metric_def should_check_mode_def maybe_switch_mode_def
      init_async_mode_def record_async_def get_pooled_metric_data_def fill_metric_def put_metric_def queue_full_def record_sync_def
      null_client_def sync_calls_def with_metric_def get_metric_def update_handle_def metrics_iteration_def Let_def)

theorem stopped_worker_never_returns_witness:
  "\<exists>q'. ac_queue (fold (mc_exec null_client) [Record 300 (CounterMetric ''c'' [] 1), Iterate 301 301] (idle_collector\<lparr>ac_ops := 99999\<rparr>)) = Some ([0] @ q')"
  using stopped_worker_never_returns [of "idle_collector\<lparr>ac_ops := 99999\<rparr>" "[0]" null_client
      "[Record 300 (CounterMetric ''c'' [] 1), Iterate 301 301]"] idle_collector
  by auto

text \<open>
  A failed flush breaks the separation: the dictionaries of a full batch go back to the pool before Prometheus is updated, but the batch
  keeps them when the update raises, so the next recorded metric overwrites one that is still to be delivered.
\<close>

theorem failed_flush_overwrites:
  assumes "ac_worker c = Working b l" "\<not> ac_stopped c" "ac_queue c = Some (a # q)" "int (length b) + 1 \<ge> ac_batch_size c"
    "pc_available pc" "fst (deliver pc (contents c (b @ [a])) (ac_prom c)) = Inl e" "length (ac_pool c) + length b < 100" "t2 - l \<le> ac_flush_interval c"
    "the (ac_heap c a) \<noteq> m"
  shows "ac_worker (metrics_iteration pc t1 t2 c) = Working (b @ [a]) l \<and> fst (get_pooled_metric_data (metrics_iteration pc t1 t2 c)) = a
    \<and> contents (snd (record_async m (metrics_iteration pc t1 t2 c))) (b @ [a]) \<noteq> contents c (b @ [a])"
proof -
  obtain st where d: "deliver pc (contents c (b @ [a])) (ac_prom c) = (Inl e, st)" using assms(6) by (metis prod.collapse)
  have pool: "take (100 - length (ac_pool c)) (b @ [a]) = b @ [a]" using assms(7) by simp
  have flush: "flush_batch pc (b @ [a]) (c\<lparr>ac_queue := Some q\<rparr>) = (Inl e, c\<lparr>ac_queue := Some q, ac_pool := ac_pool c @ b @ [a], ac_prom := st\<rparr>)"
    unfolding flush_batch_def pool_after Let_def using assms(5) d pool by (simp del: contents_append)
  have it: "metrics_iteration pc t1 t2 c = c\<lparr>ac_queue := Some q, ac_pool := ac_pool c @ b @ [a], ac_prom := st, ac_worker := Working (b @ [a]) l\<rparr>"
    using assms(1-4,8) flush by (simp add: metrics_iteration_def force_flush_def Let_def)
  show ?thesis
    unfolding it using assms(9)
    by (auto simp: get_pooled_metric_data_def record_async_def put_metric_def fill_metric_def contents_def return_to_pool_def)
qed

definition strict_client :: "unit prom_client" where
  "strict_client = null_client\<lparr>pc_update := (\<lambda>h ls v p. (Inl (PyExn ''ValueError'' ''Incorrect label names''), p))\<rparr>"

definition full_collector :: "unit acollector" where
  "full_collector = snd (record_async (CounterMetric ''a'' [] 1) (make_acollector 1 1 5 (Some False) True 0 ()))"

lemma full_collector:
  "ac_worker full_collector = Working [] 0" "\<not> ac_stopped full_collector" "ac_queue full_collector = Some [0]" "ac_batch_size full_collector = 1"
  "ac_heap full_collector 0 = Some (CounterMetric ''a'' [] 1)" "ac_pool full_collector = []" "ac_prom full_collector = ([], ())"
  "ac_flush_interval full_collector = 1"
  by (simp_all add: full_collector_def record_async_def make_acollector_def init_async_mode_def get_pooled_metric_data_def fill_metric_def put_metric_def
      queue_full_def)

theorem failed_flush_overwrites_witness:
  "contents (snd (record_async (CounterMetric ''b'' [] 1) (metrics_iteration strict_client 1 1 full_collector))) [0] \<noteq> contents full_collector [0]"
proof -
  have "fst (deliver strict_client (contents full_collector ([] @ [0])) (ac_prom full_collector)) = Inl (PyExn ''ValueError'' ''Incorrect label names'')"
    by (simp add: full_collector contents_def deliver_def update_prometheus_metrics_def with_metric_def get_metric_def strict_client_def null_client_def
        counter_calls_def update_handle_def Let_def or_else_def)
  from failed_flush_overwrites [OF full_collector(1,2) _ _ _ this, of "[]" 1 "CounterMetric ''b'' [] 1" 1] show ?thesis
    by (auto simp: full_collector strict_client_def null_client_def)
qed

end
