(* ===== verification/Structured_Logging.thy ===== *)
theory Structured_Logging
  imports Metrics_Registry CachekitIO_Config
begin

text \<open>
  \<^verbatim>\<open>logging.py\<close>: the ring buffer and its writer, the sampling logger with its masking of sensitive fields, and the patterns that mask cache
  keys. The ring is a bounded queue in the sense of the locale \<open>bounded_queue\<close>. Clock, random draw, thread identity and the text of a
  value (\<^verbatim>\<open>str\<close>) are parameters; regular expressions are read on ASCII text.
\<close>

section \<open>Bounded queues\<close>

text \<open>The contract of a buffer between producers and a consumer: refuse when full, hand out in order.\<close>

locale bounded_queue =
  fixes rel :: "'r \<Rightarrow> 'e list \<Rightarrow> bool" and app :: "'e \<Rightarrow> 'r \<Rightarrow> bool \<times> 'r" and drn :: "nat \<Rightarrow> 'r \<Rightarrow> 'e list \<times> 'r" and cap :: "'r \<Rightarrow> nat"
  assumes bounded: "rel r q \<Longrightarrow> length q \<le> cap r"
    and accepted: "rel r q \<Longrightarrow> app e r = (ok, r') \<Longrightarrow> ok = (length q < cap r) \<and> rel r' (if ok then q @ [e] else q) \<and> cap r' = cap r"
    and drained: "rel r q \<Longrightarrow> drn n r = (xs, r') \<Longrightarrow> xs = take n q \<and> rel r' (drop n q) \<and> cap r' = cap r"
begin

text \<open>A sequence of calls yields what was accepted and what was drained.\<close>

fun calls :: "('e + nat) list \<Rightarrow> 'r \<Rightarrow> 'e list \<times> 'e list \<times> 'r" where
  "calls [] r = ([], [], r)"
| "calls (Inl e # cs) r =
     (case app e r of (ok, r1) \<Rightarrow> (case calls cs r1 of (acc, out, r2) \<Rightarrow> ((if ok then e # acc else acc), out, r2)))"
| "calls (Inr n # cs) r = (case drn n r of (xs, r1) \<Rightarrow> (case calls cs r1 of (acc, out, r2) \<Rightarrow> (acc, xs @ out, r2)))"

lemma calls_fifo: "rel r q \<Longrightarrow> calls cs r = (acc, out, r') \<Longrightarrow> \<exists>q'. rel r' q' \<and> q @ acc = out @ q' \<and> length q' \<le> cap r"
proof (induction cs r arbitrary: q acc out r' rule: calls.induct)
  case (1 r)
  then show ?case using bounded by auto
next
  case (2 e cs r)
  obtain ok r1 where a: "app e r = (ok, r1)" by force
  obtain acc1 out1 r2 where c: "calls cs r1 = (acc1, out1, r2)" using prod_cases3 by blast
  note st = accepted [OF 2(2) a]
  from 2(1) [OF a [symmetric] _ c] st obtain q' where "rel r2 q'" "(if ok then q @ [e] else q) @ acc1 = out1 @ q'" "length q' \<le> cap r" by metis
  with 2(3) a c show ?case by (auto split: if_splits)
next
  case (3 n cs r)
  obtain xs r1 where d: "drn n r = (xs, r1)" by force
  obtain acc1 out1 r2 where c: "calls cs r1 = (acc1, out1, r2)" using prod_cases3 by blast
  note st = drained [OF 3(2) d]
  from 3(1) [OF d [symmetric] _ c] st obtain q' where q': "rel r2 q'" "drop n q @ acc1 = out1 @ q'" "length q' \<le> cap r" by metis
  have "q @ acc1 = take n q @ out1 @ q'" using q'(2) by (metis append.assoc append_take_drop_id)
  with q' 3(3) d c st show ?case by auto
qed

end

section \<open>The ring\<close>

record 'e ring =
  rb_size :: nat
  rb_buffer :: "'e option list"
  rb_write :: nat
  rb_read :: nat

definition make_ring :: "nat \<Rightarrow> 'e ring" where
  "make_ring n = \<lparr>rb_size = n, rb_buffer = replicate n None, rb_write = 0, rb_read = 0\<rparr>"

text \<open>\<^verbatim>\<open>append\<close> in two parts: the positions it reads first, and the two writes.\<close>

definition next_slot :: "'e ring \<Rightarrow> nat \<times> nat" where
  "next_slot r = (rb_write r, (rb_write r + 1) mod rb_size r)"

definition store_slot :: "nat \<times> nat \<Rightarrow> 'e \<Rightarrow> 'e ring \<Rightarrow> 'e ring" where
  "store_slot p e r = r\<lparr>rb_buffer := (rb_buffer r)[fst p := Some e], rb_write := snd p\<rparr>"

definition ring_append :: "'e \<Rightarrow> 'e ring \<Rightarrow> bool \<times> 'e ring" where
  "ring_append e r = (if snd (next_slot r) = rb_read r then (False, r) else (True, store_slot (next_slot r) e r))"

primrec drain :: "nat \<Rightarrow> 'e ring \<Rightarrow> 'e list \<times> 'e ring" where
  "drain 0 r = ([], r)"
| "drain (Suc n) r =
     (if rb_read r = rb_write r then ([], r)
      else let i = rb_read r; entry = rb_buffer r ! i;
               r1 = (if entry \<noteq> None then r\<lparr>rb_buffer := (rb_buffer r)[i := None]\<rparr> else r)\<lparr>rb_read := (i + 1) mod rb_size r\<rparr>;
               (xs, r2) = drain n r1 in
           ((case entry of None \<Rightarrow> xs | Some e \<Rightarrow> e # xs), r2))"

text \<open>The entries from the read to the write position.\<close>

definition ring_rel :: "'e ring \<Rightarrow> 'e list \<Rightarrow> bool" where
  "ring_rel r q \<longleftrightarrow> length q < rb_size r \<and> length (rb_buffer r) = rb_size r \<and> rb_read r < rb_size r
     \<and> rb_write r = (rb_read r + length q) mod rb_size r \<and> (\<forall>i < length q. rb_buffer r ! ((rb_read r + i) mod rb_size r) = Some (q ! i))"

lemma mod_add_less:
  fixes i j n r :: nat
  assumes "i < j" "j < n"
  shows "(r + i) mod n \<noteq> (r + j) mod n"
proof
  assume eq: "(r + i) mod n = (r + j) mod n"
  have "r + i \<le> r + j" using assms(1) by simp
  then have "n dvd (r + j) - (r + i)" using mod_eq_dvd_iff_nat eq by metis
  then have "n dvd j - i" by simp
  moreover have "0 < j - i" "j - i < n" using assms by simp_all
  ultimately show False using nat_dvd_not_less by blast
qed

lemma mod_add_inject:
  fixes i j n r :: nat
  assumes "i < n" "j < n" and eq: "(r + i) mod n = (r + j) mod n"
  shows "i = j"
proof (rule ccontr)
  assume "i \<noteq> j"
  then consider "i < j" | "j < i" by arith
  then show False
  proof cases
    case 1
    from mod_add_less [OF this assms(2)] eq show False by blast
  next
    case 2
    from mod_add_less [OF this assms(1)] eq [symmetric] show False by (rule notE)
  qed
qed

lemma ring_full: "ring_rel r q \<Longrightarrow> snd (next_slot r) = rb_read r \<longleftrightarrow> length q + 1 = rb_size r"
proof -
  assume r: "ring_rel r q"
  have n: "snd (next_slot r) = (rb_read r + (length q + 1)) mod rb_size r" using r by (simp add: ring_rel_def next_slot_def mod_Suc_eq)
  show ?thesis
  proof (cases "length q + 1 = rb_size r")
    case False
    with r have "length q + 1 < rb_size r" by (auto simp: ring_rel_def)
    from mod_add_less [OF _ this, of 0 "rb_read r"] n r False show ?thesis by (simp add: ring_rel_def)
  qed (use n r in \<open>simp add: ring_rel_def\<close>)
qed

lemma store_next:
  assumes "ring_rel r q" "length q + 1 < rb_size r"
  shows "ring_rel (store_slot (next_slot r) e r) (q @ [e])"
proof -
  have w: "rb_write r = (rb_read r + length q) mod rb_size r" "rb_write r < rb_size r" using assms by (auto simp: ring_rel_def)
  have "(rb_buffer r)[rb_write r := Some e] ! ((rb_read r + i) mod rb_size r) = Some ((q @ [e]) ! i)" if i: "i < Suc (length q)" for i
  proof (cases "i = length q")
    case False
    then have "(rb_read r + i) mod rb_size r \<noteq> rb_write r" using mod_add_inject [of i "rb_size r" "length q" "rb_read r"] i w assms(2) by auto
    with False i assms(1) show ?thesis by (simp add: ring_rel_def nth_append)
  qed (use w assms in \<open>simp add: ring_rel_def\<close>)
  with assms w show ?thesis by (auto simp: ring_rel_def store_slot_def next_slot_def mod_Suc_eq)
qed

lemma ring_append_rel:
  assumes "ring_rel r q" "ring_append e r = (ok, r')"
  shows "ok = (length q < rb_size r - 1) \<and> ring_rel r' (if ok then q @ [e] else q) \<and> rb_size r' - 1 = rb_size r - 1"
proof (cases "length q + 1 = rb_size r")
  case True
  then show ?thesis using assms ring_full [OF assms(1)] by (auto simp: ring_append_def)
next
  case False
  then have "length q + 1 < rb_size r" using assms(1) by (simp add: ring_rel_def)
  with store_next [OF assms(1) this, of e] ring_full [OF assms(1)] assms(2) show ?thesis by (auto simp: ring_append_def store_slot_def)
qed

lemma drain_rel:
  assumes "ring_rel r q" "drain n r = (xs, r')"
  shows "xs = take n q \<and> ring_rel r' (drop n q) \<and> rb_size r' = rb_size r"
  using assms
proof (induction n arbitrary: r q xs r')
  case (Suc n)
  show ?case
  proof (cases q)
    case Nil
    then show ?thesis using Suc.prems by (auto simp: ring_rel_def)
  next
    case (Cons e q1)
    have ne: "rb_read r \<noteq> rb_write r"
    proof
      assume "rb_read r = rb_write r"
      then have "(rb_read r + 0) mod rb_size r = (rb_read r + length q) mod rb_size r" using Suc.prems(1) by (simp add: ring_rel_def)
      moreover have "length q < rb_size r" "0 < rb_size r" using Suc.prems(1) by (auto simp: ring_rel_def)
      ultimately show False using mod_add_inject [of 0 "rb_size r" "length q" "rb_read r"] Cons by auto
    qed
    have "rb_buffer r ! ((rb_read r + 0) mod rb_size r) = Some (q ! 0)" using Suc.prems(1) Cons by (auto simp: ring_rel_def)
    then have e: "rb_buffer r ! rb_read r = Some e" using Suc.prems(1) Cons by (simp add: ring_rel_def)
    define r1 where "r1 = r\<lparr>rb_buffer := (rb_buffer r)[rb_read r := None], rb_read := (rb_read r + 1) mod rb_size r\<rparr>"
    have "(rb_buffer r)[rb_read r := None] ! (((rb_read r + 1) mod rb_size r + i) mod rb_size r) = Some (q1 ! i)" if i: "i < length q1" for i
    proof -
      have p: "((rb_read r + 1) mod rb_size r + i) mod rb_size r = (rb_read r + Suc i) mod rb_size r" by (simp add: mod_simps)
      have "Suc i < rb_size r" "0 < rb_size r" using i Cons Suc.prems(1) by (auto simp: ring_rel_def)
      then have "(rb_read r + Suc i) mod rb_size r \<noteq> rb_read r"
        using mod_add_inject [of "Suc i" "rb_size r" 0 "rb_read r"] Suc.prems(1) by (auto simp: ring_rel_def)
      moreover have "rb_buffer r ! ((rb_read r + Suc i) mod rb_size r) = Some (q ! Suc i)" using i Cons Suc.prems(1) by (auto simp: ring_rel_def)
      ultimately show ?thesis using p Cons by simp
    qed
    then have "ring_rel r1 q1" using Suc.prems(1) Cons by (auto simp: r1_def ring_rel_def mod_simps)
    moreover obtain ys r2 where d: "drain n r1 = (ys, r2)" by force
    ultimately have "ys = take n q1 \<and> ring_rel r2 (drop n q1) \<and> rb_size r2 = rb_size r1" by (rule Suc.IH)
    moreover have "xs = e # ys" "r' = r2" using Suc.prems(2) ne e d by (auto simp: r1_def Let_def)
    ultimately show ?thesis using Cons by (simp add: r1_def)
  qed
qed simp

interpretation log_ring: bounded_queue ring_rel ring_append drain "\<lambda>r. rb_size r - 1"
proof
  show "length q \<le> rb_size r - 1" if "ring_rel r q" for r :: "'a ring" and q using that by (auto simp: ring_rel_def)
qed (use ring_append_rel drain_rel in fastforce)+

section \<open>Masking of text\<close>

text \<open>
  The regular expressions the module uses: character classes, bounded and unbounded repetition of a class, and word boundaries. \<open>matches\<close>
  lists the possible ends in the order in which the backtracking matcher of \<^verbatim>\<open>re\<close> tries them.
\<close>

datatype rx = Rep "char \<Rightarrow> bool" nat "nat option" | Boundary | Chain "rx list"

type_synonym rx_state = "char option \<times> string \<times> string"

definition is_word :: "char option \<Rightarrow> bool" where
  "is_word c = (case c of None \<Rightarrow> False | Some x \<Rightarrow> let n = of_char x :: nat in
     48 \<le> n \<and> n \<le> 57 \<or> 65 \<le> n \<and> n \<le> 90 \<or> 97 \<le> n \<and> n \<le> 122 \<or> n = 95)"

fun head_of :: "string \<Rightarrow> char option" where
  "head_of [] = None"
| "head_of (c # s) = Some c"

fun rep_matches :: "(char \<Rightarrow> bool) \<Rightarrow> nat \<Rightarrow> nat option \<Rightarrow> char option \<Rightarrow> string \<Rightarrow> string \<Rightarrow> rx_state list" where
  "rep_matches p lo hi prev got [] = (if lo = 0 then [(prev, got, [])] else [])"
| "rep_matches p lo hi prev got (c # s) =
     (if p c \<and> hi \<noteq> Some 0 then rep_matches p (lo - 1) (map_option (\<lambda>n. n - 1) hi) (Some c) (got @ [c]) s else [])
     @ (if lo = 0 then [(prev, got, c # s)] else [])"

fun matches :: "rx \<Rightarrow> rx_state \<Rightarrow> rx_state list" and chain_matches :: "rx list \<Rightarrow> rx_state \<Rightarrow> rx_state list" where
  "matches (Rep p lo hi) (prev, got, s) = rep_matches p lo hi prev got s"
| "matches Boundary (prev, got, s) = (if is_word prev \<noteq> is_word (head_of s) then [(prev, got, s)] else [])"
| "matches (Chain rs) st = chain_matches rs st"
| "chain_matches [] st = [st]"
| "chain_matches (r # rs) st = concat (map (chain_matches rs) (matches r st))"

text \<open>\<^verbatim>\<open>re.sub\<close>: the text is scanned from the left; \<open>n\<close> bounds the number of steps by its length.\<close>

fun sub_scan :: "rx \<Rightarrow> (string \<Rightarrow> string) \<Rightarrow> nat \<Rightarrow> char option \<Rightarrow> string \<Rightarrow> string" where
  "sub_scan r f 0 prev s = s"
| "sub_scan r f (Suc n) prev s =
     (case matches r (prev, [], s) of
        (prev', got, rest) # _ \<Rightarrow>
          if got = [] then (case s of [] \<Rightarrow> [] | c # t \<Rightarrow> c # sub_scan r f n (Some c) t) else f got @ sub_scan r f n prev' rest
      | [] \<Rightarrow> (case s of [] \<Rightarrow> [] | c # t \<Rightarrow> c # sub_scan r f n (Some c) t))"

definition re_sub :: "rx \<Rightarrow> (string \<Rightarrow> string) \<Rightarrow> string \<Rightarrow> string" where
  "re_sub r f s = sub_scan r f (Suc (length s)) None s"

definition is_letter :: "char \<Rightarrow> bool" where
  "is_letter c = (let n = of_char c :: nat in 65 \<le> n \<and> n \<le> 90 \<or> 97 \<le> n \<and> n \<le> 122)"

definition is_blank :: "char \<Rightarrow> bool" where
  "is_blank c = (let n = of_char c :: nat in 9 \<le> n \<and> n \<le> 13 \<or> 28 \<le> n \<and> n \<le> 32)"

definition lit :: "char \<Rightarrow> rx" where
  "lit c = Rep (\<lambda>x. x = c) 1 (Some 1)"

definition digits :: "nat \<Rightarrow> rx" where
  "digits n = Rep is_digit n (Some n)"

definition optional :: "(char \<Rightarrow> bool) \<Rightarrow> rx" where
  "optional p = Rep p 0 (Some 1)"

definition some_of :: "(char \<Rightarrow> bool) \<Rightarrow> rx" where
  "some_of p = Rep p 1 None"

definition dash_or_blank :: "char \<Rightarrow> bool" where
  "dash_or_blank c \<longleftrightarrow> c = CHR ''-'' \<or> is_blank c"

definition phone_gap :: "char \<Rightarrow> bool" where
  "phone_gap c \<longleftrightarrow> c = CHR ''-'' \<or> c = CHR ''.'' \<or> is_blank c"

definition token_char :: "char \<Rightarrow> bool" where
  "token_char c \<longleftrightarrow> is_letter c \<or> is_digit c \<or> c = CHR ''-'' \<or> c = CHR ''_''"

definition mask_patterns :: "(rx \<times> (string \<Rightarrow> string)) list" where
  "mask_patterns =
     [(Chain [Boundary, digits 3, lit CHR ''-'', digits 2, lit CHR ''-'', digits 4, Boundary], \<lambda>m. ''XXX-XX-XXXX''),
      (Chain [Boundary, digits 9, Boundary], \<lambda>m. ''XXXXXXXXX''),
      (Chain [Boundary, digits 4, optional dash_or_blank, digits 4, optional dash_or_blank, digits 4, optional dash_or_blank, digits 4, Boundary],
        \<lambda>m. ''XXXX-XXXX-XXXX-XXXX''),
      (Chain [Boundary, some_of (\<lambda>c. is_letter c \<or> is_digit c \<or> c \<in> set ''._%+-''), lit CHR ''@'',
              some_of (\<lambda>c. is_letter c \<or> is_digit c \<or> c \<in> set ''.-''), lit CHR ''.'', Rep (\<lambda>c. is_letter c \<or> c = CHR ''|'') 2 None, Boundary],
        \<lambda>m. ''XXX@XXX.XXX''),
      (Chain [Boundary, digits 3, optional phone_gap, digits 3, optional phone_gap, digits 4, Boundary], \<lambda>m. ''XXX-XXX-XXXX''),
      (Chain [lit CHR ''('', digits 3, lit CHR '')'', optional is_blank, digits 3, optional phone_gap, digits 4, Boundary], \<lambda>m. ''(XXX) XXX-XXXX''),
      (Chain [Boundary, some_of token_char, lit CHR ''.'', some_of token_char, lit CHR ''.'', some_of token_char, Boundary], \<lambda>m. ''XXX.XXX.XXX''),
      (Chain [Boundary, Rep token_char 20 None, Boundary], \<lambda>m. if length m > 30 then ''XXXXX...XXXXX'' else ''XXX'')]"

definition mask_sensitive_patterns :: "string \<Rightarrow> string" where
  "mask_sensitive_patterns s = fold (\<lambda>(r, f) t. re_sub r f t) mask_patterns s"

text \<open>A match splits the text, so a step of the scan that consumes anything shortens what is left, and \<open>length s + 1\<close> steps are enough.\<close>

lemma rep_matches_split: "(prev', got', rest) \<in> set (rep_matches p lo hi prev got s) \<Longrightarrow> got' @ rest = got @ s"
  by (induction p lo hi prev got s rule: rep_matches.induct) (auto split: if_splits)

lemma matches_split:
  shows "st' \<in> set (matches r st) \<Longrightarrow> fst (snd st') @ snd (snd st') = fst (snd st) @ snd (snd st)"
    and "st' \<in> set (chain_matches rs st) \<Longrightarrow> fst (snd st') @ snd (snd st') = fst (snd st) @ snd (snd st)"
proof (induction r st and rs st arbitrary: st' and st' rule: matches_chain_matches.induct)
  case (1 p lo hi prev got s)
  obtain a b c where "st' = (a, b, c)" by (metis prod_cases3)
  then show ?case using 1 by (simp add: rep_matches_split)
next
  case (5 r rs st)
  obtain mid where "mid \<in> set (matches r st)" "st' \<in> set (chain_matches rs mid)" using 5(3) by auto
  then show ?case using 5(1)[of mid] 5(2)[of mid st'] by simp
qed (auto split: if_splits)

lemma first_match_split: "matches r (prev, [], s) = (prev', got, rest) # others \<Longrightarrow> got @ rest = s"
  using matches_split(1)[of "(prev', got, rest)" r "(prev, [], s)"] by simp

lemma sub_scan_enough: "length s < n \<Longrightarrow> length s < m \<Longrightarrow> sub_scan r f n prev s = sub_scan r f m prev s"
proof (induction n arbitrary: m prev s)
  case (Suc n)
  obtain k where m: "m = Suc k" using Suc.prems(2) by (cases m) auto
  have skip: "(case s of [] \<Rightarrow> [] | c # t \<Rightarrow> c # sub_scan r f n (Some c) t) = (case s of [] \<Rightarrow> [] | c # t \<Rightarrow> c # sub_scan r f k (Some c) t)"
  proof (cases s)
    case (Cons c t)
    then have "length t < n" "length t < k" using Suc.prems m by simp_all
    from Suc.IH[OF this] show ?thesis using Cons by simp
  qed simp
  have hop: "sub_scan r f n prev' rest = sub_scan r f k prev' rest"
    if "matches r (prev, [], s) = (prev', got, rest) # others" "got \<noteq> []" for prev' got rest others
  proof -
    have "length got + length rest = length s" using first_match_split[OF that(1)] by (metis length_append)
    moreover have "0 < length got" using that(2) by simp
    ultimately have "length rest < n" "length rest < k" using Suc.prems m by linarith+
    then show ?thesis by (rule Suc.IH)
  qed
  show ?case unfolding m using skip hop by (auto split: list.split)
qed simp

section \<open>The logger\<close>

datatype log_value = LStr string | LNum real | LBool bool | LNone | LObject nat

type_synonym fields = "(string, log_value) odict"

record log_entry =
  le_timestamp :: real
  le_level :: string
  le_message :: string
  le_extra :: fields

definition entry_dict :: "log_entry \<Rightarrow> fields" where
  "entry_dict e = merge_dict [(''timestamp'', LNum (le_timestamp e)), (''level'', LStr (le_level e)), (''message'', LStr (le_message e))] (le_extra e)"

record logger =
  lg_name :: string
  lg_mask :: bool
  lg_ring :: "log_entry ring"
  lg_threshold :: int
  lg_hostname :: string
  lg_pid :: int
  lg_trace :: "nat \<Rightarrow> string option"
  lg_correlation :: "nat \<Rightarrow> string option"

definition make_logger :: "real \<Rightarrow> nat \<Rightarrow> string \<Rightarrow> bool \<Rightarrow> string \<Rightarrow> int \<Rightarrow> logger" where
  "make_logger rate buffer_size name masking host pid =
     \<lparr>lg_name = name, lg_mask = masking, lg_ring = make_ring buffer_size, lg_threshold = \<lfloor>rate * 100\<rfloor>, lg_hostname = host, lg_pid = pid,
      lg_trace = (\<lambda>t. None), lg_correlation = (\<lambda>t. None)\<rparr>"

definition should_sample :: "int \<Rightarrow> logger \<Rightarrow> bool" where
  "should_sample draw lg \<longleftrightarrow> draw < lg_threshold lg"

fun contains :: "string \<Rightarrow> string \<Rightarrow> bool" where
  "contains p [] = (p = [])"
| "contains p (c # s) = (starts_with p (c # s) \<or> contains p s)"

definition pii_keys :: "string list" where
  "pii_keys = [''password'', ''token'', ''secret'', ''key'', ''auth'']"

definition sensitive :: "string \<Rightarrow> bool" where
  "sensitive k \<longleftrightarrow> list_ex (\<lambda>p. contains p (map py_lower k)) pii_keys"

definition mask_pii :: "fields \<Rightarrow> fields" where
  "mask_pii data = map (\<lambda>(k, v). (k, if sensitive k then LStr ''****'' else v)) data"

definition build_entry :: "real \<Rightarrow> nat \<Rightarrow> string \<Rightarrow> string \<Rightarrow> fields \<Rightarrow> logger \<Rightarrow> log_entry" where
  "build_entry now tid level msg kwargs lg =
     \<lparr>le_timestamp = now, le_level = level, le_message = msg,
      le_extra = merge_dict [(''logger'', LStr (lg_name lg)), (''hostname'', LStr (lg_hostname lg)), (''pid'', LNum (real_of_int (lg_pid lg))),
        (''thread_id'', LNum (real tid))] (mask_pii kwargs)\<rparr>"

definition push_entry :: "log_entry \<Rightarrow> logger \<Rightarrow> logger" where
  "push_entry e lg = lg\<lparr>lg_ring := snd (ring_append e (lg_ring lg))\<rparr>"

definition py_upper :: "char \<Rightarrow> char" where
  "py_upper c = (let n = of_char c :: nat in if 97 \<le> n \<and> n \<le> 122 then char_of (n - 32) else c)"

definition log_message :: "int \<Rightarrow> real \<Rightarrow> nat \<Rightarrow> string \<Rightarrow> string \<Rightarrow> fields \<Rightarrow> logger \<Rightarrow> logger" where
  "log_message draw now tid level msg kwargs lg =
     (if should_sample draw lg then push_entry (build_entry now tid (map py_upper level) msg kwargs lg) lg else lg)"

definition log_error :: "real \<Rightarrow> nat \<Rightarrow> string \<Rightarrow> fields \<Rightarrow> logger \<Rightarrow> logger" where
  "log_error now tid msg kwargs lg = push_entry (build_entry now tid ''ERROR'' msg kwargs lg) lg"

text \<open>A record on a standard logger: its name, level, message and structured context.\<close>

record std_record =
  sr_logger :: string
  sr_level :: string
  sr_message :: string
  sr_structured :: fields

definition get_context :: "real \<Rightarrow> nat \<Rightarrow> logger \<Rightarrow> fields" where
  "get_context now tid lg =
     [(''timestamp'', LNum now), (''thread_id'', LNum (real tid))]
     @ (if truthy_str (lg_trace lg tid) then [(''trace_id'', LStr (the (lg_trace lg tid)))] else [])
     @ (if truthy_str (lg_correlation lg tid) then [(''correlation_id'', LStr (the (lg_correlation lg tid)))] else [])"

definition truthy_value :: "log_value \<Rightarrow> bool" where
  "truthy_value v = (case v of LStr s \<Rightarrow> s \<noteq> [] | LNum x \<Rightarrow> x \<noteq> 0 | LBool b \<Rightarrow> b | LNone \<Rightarrow> False | LObject n \<Rightarrow> True)"

definition operation_status :: "string \<Rightarrow> fields \<Rightarrow> string" where
  "operation_status op kwargs =
     (if map_of kwargs ''error'' \<noteq> None then ''error''
      else if op = ''get'' \<and> map_of kwargs ''hit'' \<noteq> None then (if truthy_value (the (map_of kwargs ''hit'')) then ''hit'' else ''miss'')
      else ''success'')"

text \<open>A duration that is no number raises, after the counter was updated, and is ignored.\<close>

definition count_operation :: "(log_value \<Rightarrow> string) \<Rightarrow> real \<Rightarrow> string \<Rightarrow> fields \<Rightarrow> metrics_store \<Rightarrow> metrics_store" where
  "count_operation py_str now op kwargs s =
     (let field = (\<lambda>k d. case map_of kwargs k of None \<Rightarrow> d | Some v \<Rightarrow> py_str v);
          s1 = snd (inc (with_labels cache_operations
                 [(''operation'', op), (''status'', operation_status op kwargs), (''serializer'', field ''serializer'' []),
                  (''namespace'', field ''namespace'' ''default'')]) NoLabels now s) in
      case map_of kwargs ''duration_ms'' of
        Some (LNum d) \<Rightarrow> observe (with_labels cache_latency [(''operation'', op), (''serializer'', field ''serializer'' [])]) (d / 1000) [] now s1
      | Some (LBool b) \<Rightarrow>
          observe (with_labels cache_latency [(''operation'', op), (''serializer'', field ''serializer'' [])]) (of_bool b / 1000) [] now s1
      | _ \<Rightarrow> s1)"

definition display_key :: "logger \<Rightarrow> string \<Rightarrow> string" where
  "display_key lg key = (if lg_mask lg \<and> key \<noteq> [] then mask_sensitive_patterns key else take 50 key)"

definition cache_operation ::
  "(log_value \<Rightarrow> string) \<Rightarrow> real \<Rightarrow> nat \<Rightarrow> string \<Rightarrow> string \<Rightarrow> fields \<Rightarrow> logger \<Rightarrow> metrics_store \<times> std_record list \<Rightarrow> metrics_store \<times> std_record list" where
  "cache_operation py_str now tid op key kwargs lg out =
     (count_operation py_str now op kwargs (fst out),
      snd out @ [\<lparr>sr_logger = lg_name lg, sr_level = (if map_of kwargs ''error'' \<noteq> None then ''ERROR'' else ''INFO''), sr_message = ''cache_operation'',
        sr_structured = merge_dict (get_context now tid lg) (merge_dict [(''operation'', LStr op), (''cache_key'', LStr (display_key lg key))] kwargs)\<rparr>])"

definition log_cache_hit where
  "log_cache_hit py_str now tid key kwargs lg out = cache_operation py_str now tid ''get'' key (merge_dict [(''hit'', LBool True)] kwargs) lg out"

definition log_cache_miss where
  "log_cache_miss py_str now tid key kwargs lg out = cache_operation py_str now tid ''get'' key (merge_dict [(''hit'', LBool False)] kwargs) lg out"

definition log_cache_stored where
  "log_cache_stored py_str now tid key kwargs lg out = cache_operation py_str now tid ''set'' key kwargs lg out"

definition redis_operation_failed where
  "redis_operation_failed py_str now tid op key etext etype kwargs lg out =
     cache_operation py_str now tid op key (merge_dict [(''error'', LStr etext), (''error_type'', LStr etype)] kwargs) lg out"

definition circuit_breaker_state_change ::
  "real \<Rightarrow> string \<Rightarrow> string \<Rightarrow> string option \<Rightarrow> fields \<Rightarrow> logger \<Rightarrow> metrics_store \<Rightarrow> logger \<times> metrics_store" where
  "circuit_breaker_state_change now from_state to_state reason kwargs lg s =
     (push_entry \<lparr>le_timestamp = now, le_level = ''WARNING'', le_message = ''circuit_breaker_state_change'',
        le_extra = merge_dict [(''logger'', LStr (lg_name lg)), (''from_state'', LStr from_state), (''to_state'', LStr to_state),
          (''reason'', case reason of None \<Rightarrow> LNone | Some x \<Rightarrow> LStr x)] kwargs\<rparr> lg,
      set_metric circuit_breaker_state
        (case map_of [(''CLOSED'', 0), (''OPEN'', 2), (''HALF_OPEN'', 1)] (map py_upper to_state) of Some v \<Rightarrow> v | None \<Rightarrow> - 1) [] now s)"

definition connection_pool_utilization :: "int \<Rightarrow> real \<Rightarrow> nat \<Rightarrow> real \<Rightarrow> real \<Rightarrow> fields \<Rightarrow> logger \<Rightarrow> std_record list \<Rightarrow> logger \<times> std_record list" where
  "connection_pool_utilization draw now tid u rounded kwargs lg out =
     (log_message draw now tid ''INFO'' ''pool_utilization'' (merge_dict [(''utilization'', LNum rounded)] kwargs) lg,
      out @ [\<lparr>sr_logger = lg_name lg, sr_level = (if u > 9 / 10 then ''WARNING'' else ''INFO''),
        sr_message = (if u > 9 / 10 then ''High connection pool utilization'' else ''Connection pool utilization''),
        sr_structured = merge_dict [(''utilization'', LNum u)] kwargs\<rparr>])"

definition set_trace_id :: "nat \<Rightarrow> string \<Rightarrow> logger \<Rightarrow> logger" where
  "set_trace_id tid x lg = lg\<lparr>lg_trace := (lg_trace lg)(tid := Some x)\<rparr>"

definition clear_trace_id :: "nat \<Rightarrow> logger \<Rightarrow> logger" where
  "clear_trace_id tid lg = lg\<lparr>lg_trace := (lg_trace lg)(tid := None)\<rparr>"

definition set_logger_correlation :: "nat \<Rightarrow> string \<Rightarrow> logger \<Rightarrow> logger" where
  "set_logger_correlation tid x lg = lg\<lparr>lg_correlation := (lg_correlation lg)(tid := Some x)\<rparr>"

text \<open>Entering a span names the thread's trace if it has none; leaving it logs a debug line and keeps the trace.\<close>

definition span_enter :: "string \<Rightarrow> nat \<Rightarrow> logger \<Rightarrow> logger" where
  "span_enter fresh tid lg = (if truthy_str (lg_trace lg tid) then lg else set_trace_id tid fresh lg)"

definition span_exit :: "int \<Rightarrow> real \<Rightarrow> real \<Rightarrow> nat \<Rightarrow> string \<Rightarrow> fields \<Rightarrow> logger \<Rightarrow> logger" where
  "span_exit draw start now tid name kwargs lg =
     (if start = 0 then lg
      else log_message draw now tid ''DEBUG'' (''Span completed: '' @ name)
             (merge_dict [(''span_name'', LStr name), (''duration_ms'', LNum ((now - start) * 1000))] kwargs) lg)"

text \<open>One round of the writer: a batch is drained and written; entries that cannot be encoded are dropped.\<close>

definition write_batch :: "(fields \<Rightarrow> string option) \<Rightarrow> log_entry list \<Rightarrow> (string \<times> string) list" where
  "write_batch dumps es = List.map_filter (\<lambda>e. map_option (Pair (le_level e)) (dumps (entry_dict e))) es"

definition writer_round :: "(fields \<Rightarrow> string option) \<Rightarrow> nat \<Rightarrow> logger \<Rightarrow> (string \<times> string) list \<times> logger" where
  "writer_round dumps batch_size lg = (case drain batch_size (lg_ring lg) of (es, r) \<Rightarrow> (write_batch dumps es, lg\<lparr>lg_ring := r\<rparr>))"

definition get_structured_logger :: "(string \<Rightarrow> bool \<Rightarrow> logger) \<Rightarrow> string \<Rightarrow> bool \<Rightarrow> (string, logger) odict \<Rightarrow> logger \<times> (string, logger) odict" where
  "get_structured_logger mk name masking loggers =
     (let k = name @ '':'' @ (if masking then ''True'' else ''False'') in
      case map_of loggers k of Some lg \<Rightarrow> (lg, loggers) | None \<Rightarrow> (mk name masking, AList.update k (mk name masking) loggers))"

section \<open>Properties\<close>

lemma make_ring_rel: "0 < n \<Longrightarrow> ring_rel (make_ring n) []"
  by (simp add: ring_rel_def make_ring_def)

text \<open>
  C36: The ring is a bounded first-in first-out queue: over any sequence of appends and drains, what was drained and then what is still in
  the buffer is exactly what was accepted, in order, and at most one entry less than the size of the buffer waits.
\<close>

theorem ring_buffer_fifo:
  assumes "0 < n" "log_ring.calls cs (make_ring n :: 'e ring) = (acc, out, r)"
  shows "\<exists>q. ring_rel r q \<and> acc = out @ q \<and> length q \<le> n - 1"
  using log_ring.calls_fifo [OF make_ring_rel [OF assms(1)] assms(2)] by (simp add: make_ring_def)

theorem ring_buffer_fifo_witness:
  "\<exists>r q. log_ring.calls [Inl 1, Inl 2, Inr (Suc 0), Inl 3] (make_ring 2 :: int ring) = ([1, 3], [1], r) \<and> ring_rel r q \<and> q = [3]"
proof -
  have m: "(make_ring 2 :: int ring) = \<lparr>rb_size = 2, rb_buffer = [None, None], rb_write = 0, rb_read = 0\<rparr>"
    by (simp add: make_ring_def numeral_2_eq_2)
  obtain acc out r where r: "log_ring.calls [Inl 1, Inl 2, Inr (Suc 0), Inl 3] (make_ring 2 :: int ring) = (acc, out, r)" using prod_cases3 by blast
  then have c: "acc = [1, 3]" "out = [1]" by (simp_all add: m ring_append_def next_slot_def store_slot_def)
  from ring_buffer_fifo [OF _ r] c obtain q where "ring_rel r q" "[1, 3] = [1] @ q" by auto
  with r c show ?thesis by auto
qed

text \<open>
  The buffer is not safe for two producers: when both read the write position before either stores, both believe to have stored, and the
  first entry is lost.
\<close>

theorem racing_appends_lose:
  assumes "ring_rel r q" "length q + 1 < rb_size r"
  shows "next_slot r = slot \<Longrightarrow> ring_rel (store_slot slot e2 (store_slot slot e1 r)) (q @ [e2])"
proof -
  assume slot: "next_slot r = slot"
  have "store_slot slot e2 (store_slot slot e1 r) = store_slot (next_slot r) e2 r" using slot by (simp add: store_slot_def)
  with store_next [OF assms] show ?thesis by simp
qed

theorem racing_appends_lose_witness:
  "let r = (make_ring 3 :: string ring); slot = next_slot r in fst (drain 5 (store_slot slot ''b'' (store_slot slot ''a'' r))) = [''b'']"
proof -
  let ?r = "make_ring 3 :: string ring"
  have "ring_rel (store_slot (next_slot ?r) ''b'' (store_slot (next_slot ?r) ''a'' ?r)) ([] @ [''b''])"
    by (rule racing_appends_lose [OF make_ring_rel _ refl]) (simp_all add: make_ring_def)
  from drain_rel [OF this, of 5] show ?thesis
    by (cases "drain 5 (store_slot (next_slot ?r) ''b'' (store_slot (next_slot ?r) ''a'' ?r))") (simp add: Let_def)
qed

text \<open>A buffer of one slot, which the settings accept, takes nothing: every entry is refused.\<close>

lemma single_slot_refuses: "ring_append e (make_ring 1) = (False, make_ring 1)"
  by (simp add: ring_append_def next_slot_def make_ring_def)

lemma set_merge_dict: "set (merge_dict a b) \<subseteq> set a \<union> set b"
proof (induction b arbitrary: a)
  case (Cons x b)
  obtain k v where x: "x = (k, v)" by force
  have "merge_dict a (x # b) = merge_dict (AList.update k v a) b" by (simp add: merge_dict_def x)
  moreover have "set (AList.update k v a) \<subseteq> insert (k, v) (set a)" by (induction a) auto
  ultimately show ?case using Cons [of "AList.update k v a"] x by auto
qed simp

lemma fixed_fields: "\<not> sensitive ''logger'' \<and> \<not> sensitive ''hostname'' \<and> \<not> sensitive ''pid'' \<and> \<not> sensitive ''thread_id''"
  by code_simp

lemma built_masked: "(k, v) \<in> set (le_extra (build_entry now tid level msg kwargs lg)) \<Longrightarrow> sensitive k \<Longrightarrow> v = LStr ''****''"
proof -
  assume kv: "(k, v) \<in> set (le_extra (build_entry now tid level msg kwargs lg))" and s: "sensitive k"
  from kv set_merge_dict have "(k, v) \<in> set [(''logger'', LStr (lg_name lg)), (''hostname'', LStr (lg_hostname lg)),
      (''pid'', LNum (real_of_int (lg_pid lg))), (''thread_id'', LNum (real tid))] \<union> set (mask_pii kwargs)"
    unfolding build_entry_def log_entry.simps by blast
  with s fixed_fields show ?thesis by (auto simp: mask_pii_def split: if_splits)
qed

text \<open>
  C37: What \<^verbatim>\<open>log\<close>, its shorthands and \<^verbatim>\<open>error\<close> add to the buffer holds no value of a field whose name speaks of a password, token, secret,
  key or authorization; the entries already waiting stay.
\<close>

theorem logged_fields_masked:
  assumes "ring_rel (lg_ring lg) q" "lg' = log_message draw now tid level msg kwargs lg \<or> lg' = log_error now tid msg kwargs lg"
  shows "\<exists>new. ring_rel (lg_ring lg') (q @ new) \<and> list_all (\<lambda>e. list_all (\<lambda>(k, v). sensitive k \<longrightarrow> v = LStr ''****'') (le_extra e)) new"
proof -
  have push: "\<exists>new. ring_rel (lg_ring (push_entry e lg)) (q @ new) \<and> set new \<subseteq> {e}" for e
  proof -
    obtain ok r where a: "ring_append e (lg_ring lg) = (ok, r)" by force
    from ring_append_rel [OF assms(1) a] a show ?thesis
      by (intro exI [of _ "if ok then [e] else []"]) (auto simp: push_entry_def split: if_splits)
  qed
  have masked: "list_all (\<lambda>(k, v). sensitive k \<longrightarrow> v = LStr ''****'') (le_extra (build_entry now tid l msg kwargs lg))" for l
    using built_masked unfolding list_all_iff by blast
  consider "lg' = lg" | l where "lg' = push_entry (build_entry now tid l msg kwargs lg) lg"
    using assms(2) by (auto simp: log_message_def log_error_def split: if_splits)
  then show ?thesis
  proof cases
    case 1
    then show ?thesis using assms(1) by (intro exI [of _ "[]"]) simp
  next
    case (2 l)
    with push [of "build_entry now tid l msg kwargs lg"] masked [of l] show ?thesis unfolding list_all_iff by blast
  qed
qed

lemma demo_pii: "sensitive ''Api_Key''"
  by code_simp

theorem logged_fields_masked_witness:
  "\<exists>new. ring_rel (lg_ring (log_error 1 7 ''boom'' [(''Api_Key'', LStr ''s3cr3t'')] (make_logger (1 / 10) 4 ''x'' True ''h'' 1))) ([] @ new)
     \<and> list_all (\<lambda>e. list_all (\<lambda>(k, v). sensitive k \<longrightarrow> v = LStr ''****'') (le_extra e)) new"
proof (rule logged_fields_masked [OF _ disjI2 [OF refl]])
  show "ring_rel (lg_ring (make_logger (1 / 10) 4 ''x'' True ''h'' 1)) []" using make_ring_rel [of 4] by (simp add: make_logger_def)
qed

text \<open>State changes of the breaker and structured cache operations bypass this masking: their fields are logged as they are.\<close>

lemma breaker_change_unmasked:
  assumes "ring_rel (lg_ring lg) q" "length q + 1 < rb_size (lg_ring lg)"
  shows "\<exists>e. ring_rel (lg_ring (fst (circuit_breaker_state_change now f t reason [(''api_key'', LStr secret)] lg s))) (q @ [e])
    \<and> (''api_key'', LStr secret) \<in> set (le_extra e)"
  using ring_full [OF assms(1)] assms(2)
  by (auto simp: circuit_breaker_state_change_def push_entry_def ring_append_def merge_dict_def Let_def intro!: exI store_next [OF assms])

lemma cache_operation_unmasked:
  "map_of (sr_structured (last (snd (cache_operation py_str now tid op key [(''api_key'', v)] lg out)))) ''api_key'' = Some v"
  by (simp add: cache_operation_def merge_dict_def update_conv')

end
