(* ===== verification/Backend_Provider.thy ===== *)
theory Backend_Provider
  imports Remote_Backends Settings
begin

text \<open>
  How a backend is found: the dependency container (\<^verbatim>\<open>di.py\<close>), the configuration and connection pools of Redis and Memcached, the
  resolution of a client provider by \<^verbatim>\<open>RedisBackend\<close>, the tenant-scoped provider, and the environment-driven choice of
  \<^verbatim>\<open>DefaultBackendProvider\<close> with the slot in which a decorated function keeps its backend. Opening connections and pinging are parameters.
\<close>

section \<open>Dependency container\<close>

text \<open>Interfaces and implementations are known by their class names; an instance by its class and a serial number.\<close>

datatype instance_of = Inst string nat

record container =
  di_services :: "(string, string \<times> bool) odict"
  di_singletons :: "(string, instance_of) odict"
  di_created :: nat

definition new_container :: container where
  "new_container = \<lparr>di_services = [], di_singletons = [], di_created = 0\<rparr>"

definition di_register :: "string \<Rightarrow> string \<Rightarrow> bool \<Rightarrow> container \<Rightarrow> container" where
  "di_register iface impl singleton c = c\<lparr>di_services := AList.update iface (impl, singleton) (di_services c)\<rparr>"

definition di_get :: "string \<Rightarrow> container \<Rightarrow> (pyexn + instance_of) \<times> container" where
  "di_get iface c =
     (case map_of (di_services c) iface of
        None \<Rightarrow> (Inl (PyExn ''ValueError'' (''Service '' @ iface @ '' not registered'')), c)
      | Some (impl, singleton) \<Rightarrow>
          (if singleton then
             (case map_of (di_singletons c) iface of
                Some i \<Rightarrow> (Inr i, c)
              | None \<Rightarrow> (Inr (Inst impl (di_created c)),
                  c\<lparr>di_singletons := AList.update iface (Inst impl (di_created c)) (di_singletons c), di_created := Suc (di_created c)\<rparr>))
           else (Inr (Inst impl (di_created c)), c\<lparr>di_created := Suc (di_created c)\<rparr>)))"

definition clear_singletons :: "container \<Rightarrow> container" where
  "clear_singletons c = c\<lparr>di_singletons := []\<rparr>"

text \<open>The registrations of the package itself (\<^verbatim>\<open>cache_handler.py\<close>).\<close>

definition package_container :: container where
  "package_container = di_register ''BackendProviderInterface'' ''DefaultBackendProvider'' True
     (di_register ''LoggerProvider'' ''DefaultLoggerProvider'' True new_container)"

section \<open>Redis configuration and pools\<close>

type_synonym environment = "string \<Rightarrow> string option"

record redis_config =
  rcf_url :: string
  rcf_pool_size :: int
  rcf_socket_timeout :: real
  rcf_connect_timeout :: real
  rcf_keepalive :: bool
  rcf_disable_hiredis :: bool

text \<open>The URL is the first of the two variables that is set; the other fields are validated to be positive.\<close>

definition env_redis_url :: "environment \<Rightarrow> string" where
  "env_redis_url env = (case env ''CACHEKIT_REDIS_URL'' of Some u \<Rightarrow> u | None \<Rightarrow> (case env ''REDIS_URL'' of Some u \<Rightarrow> u | None \<Rightarrow> ''redis://localhost:6379''))"

definition valid_redis_config :: "redis_config \<Rightarrow> bool" where
  "valid_redis_config cfg \<longleftrightarrow> rcf_pool_size cfg > 0 \<and> rcf_socket_timeout cfg > 0 \<and> rcf_connect_timeout cfg > 0"

definition default_redis_config :: "environment \<Rightarrow> redis_config" where
  "default_redis_config env = \<lparr>rcf_url = env_redis_url env, rcf_pool_size = 10, rcf_socket_timeout = 5, rcf_connect_timeout = 5, rcf_keepalive = True,
     rcf_disable_hiredis = False\<rparr>"

definition resolve_max_connections :: "int option \<Rightarrow> redis_config \<Rightarrow> pyexn + int" where
  "resolve_max_connections override cfg =
     (case override of
        None \<Rightarrow> Inr (rcf_pool_size cfg)
      | Some n \<Rightarrow> if n \<le> 0 then Inl (PyExn ''ValueError'' ''max_connections must be > 0'') else Inr n)"

record conn_pool =
  cp_url :: string
  cp_decode :: bool
  cp_max :: int
  cp_socket_timeout :: real
  cp_connect_timeout :: real

text \<open>Both the synchronous and the asynchronous pool are built with these arguments.\<close>

definition create_connection_pool :: "string \<Rightarrow> redis_config option \<Rightarrow> redis_config \<Rightarrow> int option \<Rightarrow> pyexn + conn_pool" where
  "create_connection_pool url config env_cfg override =
     (let cfg = (case config of Some c \<Rightarrow> c | None \<Rightarrow> env_cfg) in
      case resolve_max_connections override cfg of
        Inl e \<Rightarrow> Inl e
      | Inr n \<Rightarrow> Inr \<lparr>cp_url = url, cp_decode = False, cp_max = n, cp_socket_timeout = rcf_socket_timeout cfg, cp_connect_timeout = rcf_connect_timeout cfg\<rparr>)"

text \<open>The global pool and the client each thread keeps; pools are told apart by a serial number.\<close>

record redis_globals =
  rg_pool :: "(nat \<times> conn_pool) option"
  rg_thread_client :: "nat \<Rightarrow> nat option"
  rg_serial :: nat
  rg_disconnected :: "nat list"

definition get_redis_client :: "redis_config \<Rightarrow> redis_globals \<Rightarrow> (pyexn + nat) \<times> redis_globals" where
  "get_redis_client env_cfg g =
     (case rg_pool g of
        Some (i, p) \<Rightarrow> (Inr i, g)
      | None \<Rightarrow>
          (case create_connection_pool (rcf_url env_cfg) (Some env_cfg) env_cfg None of
             Inl e \<Rightarrow> (Inl e, g)
           | Inr p \<Rightarrow> (Inr (rg_serial g), g\<lparr>rg_pool := Some (rg_serial g, p), rg_serial := Suc (rg_serial g)\<rparr>)))"

definition get_cached_redis_client :: "redis_config \<Rightarrow> nat \<Rightarrow> redis_globals \<Rightarrow> (pyexn + nat) \<times> redis_globals" where
  "get_cached_redis_client env_cfg tid g =
     (case rg_thread_client g tid of
        Some i \<Rightarrow> (Inr i, g)
      | None \<Rightarrow>
          (case get_redis_client env_cfg g of
             (Inl e, g1) \<Rightarrow> (Inl e, g1)
           | (Inr i, g1) \<Rightarrow> (Inr i, g1\<lparr>rg_thread_client := (rg_thread_client g1)(tid := Some i)\<rparr>)))"

text \<open>Only the calling thread forgets its client.\<close>

definition reset_global_pool :: "nat \<Rightarrow> redis_globals \<Rightarrow> redis_globals" where
  "reset_global_pool tid g =
     g\<lparr>rg_disconnected := (case rg_pool g of Some (i, p) \<Rightarrow> i # rg_disconnected g | None \<Rightarrow> rg_disconnected g),
       rg_pool := None, rg_thread_client := (rg_thread_client g)(tid := None)\<rparr>"

section \<open>Providers\<close>

text \<open>The argument of \<^verbatim>\<open>RedisBackend\<close>: nothing, a URL, or a configuration.\<close>

datatype redis_arg = NoUrl | Url string | Config redis_config

datatype client_provider = Given nat | Pooled conn_pool | Registered instance_of

definition pooled_provider :: "string \<Rightarrow> redis_config \<Rightarrow> pyexn + client_provider" where
  "pooled_provider url cfg = (case create_connection_pool url (Some cfg) cfg None of Inl e \<Rightarrow> Inl e | Inr p \<Rightarrow> Inr (Pooled p))"

definition new_redis_backend ::
  "redis_config \<Rightarrow> redis_arg \<Rightarrow> nat option \<Rightarrow> container \<Rightarrow> (pyexn + client_provider) \<times> container" where
  "new_redis_backend env_cfg arg given di =
     (let cfg = (case arg of Config c \<Rightarrow> c | _ \<Rightarrow> env_cfg);
          explicit = (case arg of Config c \<Rightarrow> Some (rcf_url c) | Url u \<Rightarrow> Some u | NoUrl \<Rightarrow> None);
          url = (if truthy_str explicit then the explicit else rcf_url cfg) in
      if url = [] then (Inl (BackendExn (BackendError ''REDIS_URL configuration not set.'' UNKNOWN None (Some ''init'') None)), di)
      else case given of
             Some i \<Rightarrow> (Inr (Given i), di)
           | None \<Rightarrow>
               if truthy_str explicit then (pooled_provider (the explicit) cfg, di)
               else (case di_get ''CacheClientProvider'' di of
                       (Inr i, di1) \<Rightarrow> (Inr (Registered i), di1)
                     | (Inl e, di1) \<Rightarrow> (pooled_provider url cfg, di1)))"

text \<open>The pool of the tenant-scoped provider has the size of its argument; the ping decides whether construction succeeds.\<close>

record redis_provider =
  rp_pool :: conn_pool

definition new_redis_provider :: "classifier \<Rightarrow> redis_config \<Rightarrow> (conn_pool \<Rightarrow> pyexn + unit) \<Rightarrow> string \<Rightarrow> int \<Rightarrow> pyexn + redis_provider" where
  "new_redis_provider classify env_cfg ping url pool_size =
     (case (case create_connection_pool url None env_cfg (Some pool_size) of
              Inl e \<Rightarrow> Inl e | Inr p \<Rightarrow> (case ping p of Inl e \<Rightarrow> Inl e | Inr u \<Rightarrow> Inr p)) of
        Inl e \<Rightarrow> Inl (BackendExn (classify e (Some ''init'') None))
      | Inr p \<Rightarrow> Inr \<lparr>rp_pool = p\<rparr>)"

definition provider_backend :: "string option \<Rightarrow> redis_provider \<Rightarrow> pyexn + per_request" where
  "provider_backend tenant rp = (case make_per_request tenant of Inl t \<Rightarrow> Inl (PyExn ''RuntimeError'' t) | Inr b \<Rightarrow> Inr b)"

section \<open>Choice of the backend\<close>

datatype choice = ChooseIO | ChooseRedis | ChooseMemcached | ChooseFile

definition SELECTORS :: "(string \<times> choice) list" where
  "SELECTORS = [(''CACHEKIT_API_KEY'', ChooseIO), (''CACHEKIT_REDIS_URL'', ChooseRedis), (''CACHEKIT_MEMCACHED_SERVERS'', ChooseMemcached),
     (''CACHEKIT_FILE_CACHE_DIR'', ChooseFile)]"

definition detect :: "environment \<Rightarrow> pyexn + choice option" where
  "detect env =
     (let matched = filter (\<lambda>(var, k). truthy_str (env var)) SELECTORS in
      if length matched > 1
      then Inl (configuration_error (''Ambiguous backend auto-detection: multiple selectors set ('' @ str_join '', '' (map fst matched) @ '')''))
      else Inr (case matched of [] \<Rightarrow> None | m # ms \<Rightarrow> Some (snd m)))"

text \<open>A backend object: one of the three process-wide ones, or a tenant's view of Redis.\<close>

datatype found = IOBackend nat | MemcachedBackendObj nat | FileBackendObj nat | TenantRedis per_request

record provider_state =
  ps_io :: "nat option"
  ps_redis :: "redis_provider option"
  ps_memcached :: "nat option"
  ps_file :: "nat option"
  ps_serial :: nat

definition new_provider :: provider_state where
  "new_provider = \<lparr>ps_io = None, ps_redis = None, ps_memcached = None, ps_file = None, ps_serial = 0\<rparr>"

text \<open>
  The constructors that may raise, and the tenant of each execution context (a thread, or a task with its copy of the context): the
  context variable starts at \<^verbatim>\<open>None\<close> in each.
\<close>

record provider_env =
  pe_environment :: environment
  pe_construct :: "choice \<Rightarrow> pyexn + unit"
  pe_redis_config :: "pyexn + redis_config"
  pe_classify :: classifier
  pe_ping :: "conn_pool \<Rightarrow> pyexn + unit"

type_synonym tenants = "nat \<Rightarrow> string option"

definition keep_instance :: "(nat \<Rightarrow> found) \<Rightarrow> nat option \<Rightarrow> pyexn + unit \<Rightarrow> (nat \<Rightarrow> provider_state \<Rightarrow> provider_state) \<Rightarrow> provider_state
    \<Rightarrow> (pyexn + found) \<times> provider_state" where
  "keep_instance mk slot ctor put ps =
     (case slot of
        Some i \<Rightarrow> (Inr (mk i), ps)
      | None \<Rightarrow> (case ctor of Inl e \<Rightarrow> (Inl e, ps) | Inr u \<Rightarrow> (Inr (mk (ps_serial ps)), put (ps_serial ps) (ps\<lparr>ps_serial := Suc (ps_serial ps)\<rparr>))))"

definition redis_backend_for :: "provider_env \<Rightarrow> nat \<Rightarrow> provider_state \<times> tenants \<Rightarrow> (pyexn + found) \<times> provider_state \<times> tenants" where
  "redis_backend_for pe ctx st =
     (case st of (ps, tn) \<Rightarrow>
        (case ps_redis ps of
           Some rp \<Rightarrow> (map_sum id TenantRedis (provider_backend (tn ctx) rp), ps, tn)
         | None \<Rightarrow>
             (case pe_redis_config pe of
                Inl e \<Rightarrow> (Inl e, ps, tn)
              | Inr cfg \<Rightarrow>
                  (case new_redis_provider (pe_classify pe) cfg (pe_ping pe) (rcf_url cfg) 50 of
                     Inl e \<Rightarrow> (Inl e, ps, tn)
                   | Inr rp \<Rightarrow>
                       let tn1 = (if tn ctx = None then tn(ctx := Some ''default'') else tn) in
                       (map_sum id TenantRedis (provider_backend (tn1 ctx) rp), ps\<lparr>ps_redis := Some rp\<rparr>, tn1)))))"

definition get_backend :: "provider_env \<Rightarrow> nat \<Rightarrow> provider_state \<times> tenants \<Rightarrow> (pyexn + found) \<times> provider_state \<times> tenants" where
  "get_backend pe ctx st =
     (case detect (pe_environment pe) of
        Inl e \<Rightarrow> (Inl e, st)
      | Inr choice \<Rightarrow>
          (case choice of
             Some ChooseIO \<Rightarrow> (case keep_instance IOBackend (ps_io (fst st)) (pe_construct pe ChooseIO) (\<lambda>i ps. ps\<lparr>ps_io := Some i\<rparr>) (fst st) of
                (r, ps) \<Rightarrow> (r, ps, snd st))
           | Some ChooseMemcached \<Rightarrow>
               (case keep_instance MemcachedBackendObj (ps_memcached (fst st)) (pe_construct pe ChooseMemcached) (\<lambda>i ps. ps\<lparr>ps_memcached := Some i\<rparr>) (fst st) of
                  (r, ps) \<Rightarrow> (r, ps, snd st))
           | Some ChooseFile \<Rightarrow>
               (case keep_instance FileBackendObj (ps_file (fst st)) (pe_construct pe ChooseFile) (\<lambda>i ps. ps\<lparr>ps_file := Some i\<rparr>) (fst st) of
                  (r, ps) \<Rightarrow> (r, ps, snd st))
           | _ \<Rightarrow> redis_backend_for pe ctx st))"

text \<open>The slot of a decorated function: the backend of its first successful look-up.\<close>

definition wrapper_backend ::
  "provider_env \<Rightarrow> nat \<Rightarrow> found option \<times> provider_state \<times> tenants \<Rightarrow> (pyexn + found) \<times> found option \<times> provider_state \<times> tenants" where
  "wrapper_backend pe ctx st =
     (case st of (slot, pst) \<Rightarrow>
        (case slot of
           Some b \<Rightarrow> (Inr b, slot, pst)
         | None \<Rightarrow> (case get_backend pe ctx pst of (Inl e, pst1) \<Rightarrow> (Inl e, None, pst1) | (Inr b, pst1) \<Rightarrow> (Inr b, Some b, pst1))))"

section \<open>Memcached servers\<close>

text \<open>\<^verbatim>\<open>int(s)\<close> on ASCII text: white space around, a sign, single underscores between digits.\<close>

definition py_int_text :: "string \<Rightarrow> int option" where
  "py_int_text s =
     (let t = strip_space s;
          u = (if t \<noteq> [] \<and> hd t \<in> {CHR ''+'', CHR ''-''} then tl t else t);
          gs = split_on CHR ''_'' u in
      if list_all (\<lambda>g. g \<noteq> [] \<and> list_all is_digit g) gs
      then Some ((if t \<noteq> [] \<and> hd t = CHR ''-'' then - 1 else 1) * int (int_of_digits (concat gs))) else None)"

definition rsplit_colon :: "string \<Rightarrow> string \<times> string" where
  "rsplit_colon s = (rev (tl (dropWhile (\<lambda>c. c \<noteq> CHR '':'') (rev s))), rev (takeWhile (\<lambda>c. c \<noteq> CHR '':'') (rev s)))"

definition validate_server :: "string \<Rightarrow> pyexn + unit" where
  "validate_server s =
     (if CHR '':'' \<notin> set s then Inl (PyExn ''ValueError'' ''Server address must be in 'host:port' format'')
      else case py_int_text (snd (rsplit_colon s)) of
             None \<Rightarrow> Inl (PyExn ''ValueError'' ''Port must be numeric'')
           | Some p \<Rightarrow> if 1 \<le> p \<and> p \<le> 65535 then Inr () else Inl (PyExn ''ValueError'' ''Port must be 1-65535''))"

fun validate_each :: "string list \<Rightarrow> pyexn + unit" where
  "validate_each [] = Inr ()"
| "validate_each (s # ss) = (case validate_server s of Inl e \<Rightarrow> Inl e | Inr u \<Rightarrow> validate_each ss)"

definition validate_servers :: "string list \<Rightarrow> pyexn + string list" where
  "validate_servers v =
     (if v = [] then Inl (PyExn ''ValueError'' ''At least one Memcached server must be specified'')
      else case validate_each v of Inl e \<Rightarrow> Inl e | Inr u \<Rightarrow> Inr v)"

definition parse_server :: "string \<Rightarrow> pyexn + string \<times> int" where
  "parse_server s =
     (if CHR '':'' \<notin> set s then Inl (PyExn ''ValueError'' ''not enough values to unpack'')
      else case py_int_text (snd (rsplit_colon s)) of None \<Rightarrow> Inl (PyExn ''ValueError'' ''invalid literal for int()'') | Some p \<Rightarrow> Inr (fst (rsplit_colon s), p))"

section \<open>Properties\<close>

text \<open>
  An explicit Redis URL is the one that is used: whatever the environment and the container say, the backend gets a pool of its own
  bound to that URL, or its configuration is refused; only a provider passed as an object takes precedence.
\<close>

theorem explicit_url_used:
  assumes "new_redis_backend env_cfg arg None di = (Inr p, di')" "arg = Url u \<or> arg = Config c \<and> rcf_url c = u" "u \<noteq> []"
  shows "(\<exists>pool. p = Pooled pool \<and> cp_url pool = u \<and> \<not> cp_decode pool \<and> cp_max pool = rcf_pool_size (case arg of Config c \<Rightarrow> c | _ \<Rightarrow> env_cfg)) \<and> di' = di"
  using assms by (auto simp: new_redis_backend_def pooled_provider_def create_connection_pool_def resolve_max_connections_def Let_def)

theorem explicit_url_used_witness:
  "\<exists>pool di. new_redis_backend (default_redis_config (\<lambda>v. Some ''redis://other'')) (Url ''redis://mine'') None package_container = (Inr (Pooled pool), di)
     \<and> cp_url pool = ''redis://mine''"
proof -
  let ?cfg = "default_redis_config (\<lambda>v. Some ''redis://other'')"
  obtain p di where n: "new_redis_backend ?cfg (Url ''redis://mine'') None package_container = (Inr p, di)"
    by (simp add: new_redis_backend_def pooled_provider_def create_connection_pool_def resolve_max_connections_def Let_def)
  from explicit_url_used [OF n] n show ?thesis by fastforce
qed

lemma two_matches:
  assumes "distinct xs"
  shows "1 < length (filter P xs) \<longleftrightarrow> (\<exists>a \<in> set xs. \<exists>b \<in> set xs. a \<noteq> b \<and> P a \<and> P b)"
proof -
  have "length (filter P xs) = card (set (filter P xs))" by (metis assms distinct_card distinct_filter)
  then have "1 < length (filter P xs) \<longleftrightarrow> \<not> (\<forall>a \<in> set (filter P xs). \<forall>b \<in> set (filter P xs). a = b)"
    using card_le_Suc0_iff_eq [of "set (filter P xs)"] by auto
  then show ?thesis by auto
qed

lemma selectors_distinct: "distinct (map fst SELECTORS)"
  by (simp add: SELECTORS_def)

lemma detect_Inl: "(\<exists>e. detect env = Inl e) \<longleftrightarrow> 1 < length (filter (\<lambda>(v, k). truthy_str (env v)) SELECTORS)"
  by (simp add: detect_def Let_def)

lemma detect_Inr: "detect env = Inr r \<Longrightarrow> r = (case filter (\<lambda>(v, k). truthy_str (env v)) SELECTORS of [] \<Rightarrow> None | m # ms \<Rightarrow> Some (snd m))"
  by (auto simp: detect_def Let_def split: if_splits)

text \<open>
  Auto-detection is unambiguous: it fails exactly when two of the four prefixed selectors are set, and otherwise names the one that is
  set; \<^verbatim>\<open>REDIS_URL\<close> never counts.
\<close>

theorem detection_unambiguous:
  "((\<exists>e. detect env = Inl e) \<longleftrightarrow> (\<exists>a \<in> set SELECTORS. \<exists>b \<in> set SELECTORS. a \<noteq> b \<and> truthy_str (env (fst a)) \<and> truthy_str (env (fst b))))
    \<and> (detect env = Inr (Some k) \<longrightarrow> (\<exists>v. (v, k) \<in> set SELECTORS \<and> truthy_str (env v)))
    \<and> (detect env = Inr None \<longleftrightarrow> \<not> (\<exists>a \<in> set SELECTORS. truthy_str (env (fst a))))"
proof (intro conjI)
  have d: "distinct SELECTORS" using selectors_distinct by (simp add: distinct_map)
  show "(\<exists>e. detect env = Inl e) \<longleftrightarrow> (\<exists>a \<in> set SELECTORS. \<exists>b \<in> set SELECTORS. a \<noteq> b \<and> truthy_str (env (fst a)) \<and> truthy_str (env (fst b)))"
    unfolding detect_Inl two_matches [OF d] by (simp add: case_prod_beta)
  show "detect env = Inr (Some k) \<longrightarrow> (\<exists>v. (v, k) \<in> set SELECTORS \<and> truthy_str (env v))"
  proof
    assume "detect env = Inr (Some k)"
    from detect_Inr [OF this] obtain v ms where "filter (\<lambda>(v, k). truthy_str (env v)) SELECTORS = (v, k) # ms" by (auto split: list.splits)
    then have "(v, k) \<in> set (filter (\<lambda>(v, k). truthy_str (env v)) SELECTORS)" by simp
    then show "\<exists>v. (v, k) \<in> set SELECTORS \<and> truthy_str (env v)" by auto
  qed
  have "detect env = Inr None \<longleftrightarrow> filter (\<lambda>(v, k). truthy_str (env v)) SELECTORS = []"
    by (auto simp: detect_def Let_def split: list.splits)
  then show "detect env = Inr None \<longleftrightarrow> \<not> (\<exists>a \<in> set SELECTORS. truthy_str (env (fst a)))" by (auto simp: filter_empty_conv case_prod_beta)
qed

theorem detection_unambiguous_witness:
  "detect (\<lambda>v. if v = ''REDIS_URL'' then Some ''redis://x'' else None) = Inr None"
  using detection_unambiguous [of "\<lambda>v. if v = ''REDIS_URL'' then Some ''redis://x'' else None" ChooseIO] by (simp add: SELECTORS_def)

lemma kept_instance: "keep_instance mk slot ctor put ps = (Inr b, ps1) \<Longrightarrow> \<exists>i. b = mk i"
  by (auto simp: keep_instance_def split: option.splits sum.splits)

lemma provider_backend_tenant: "map_sum id TenantRedis (provider_backend tenant rp) = Inr (TenantRedis b) \<longleftrightarrow> (\<exists>t. tenant = Some t \<and> b = \<lparr>pr_tenant = url_encode t\<rparr>)"
  by (cases tenant) (auto simp: provider_backend_def make_per_request_def)

lemma redis_backend_tenant:
  "redis_backend_for pe ctx st = (Inr (TenantRedis b), st1) \<Longrightarrow> \<exists>t. snd st1 ctx = Some t \<and> b = \<lparr>pr_tenant = url_encode t\<rparr>"
  by (cases st) (auto simp: redis_backend_for_def Let_def provider_backend_tenant split: option.splits sum.splits if_splits)

lemma get_backend_tenant:
  assumes "get_backend pe ctx st = (Inr (TenantRedis b), st1)"
  shows "\<exists>t. snd st1 ctx = Some t \<and> b = \<lparr>pr_tenant = url_encode t\<rparr>"
proof -
  have "redis_backend_for pe ctx st = (Inr (TenantRedis b), st1)"
    using assms by (auto simp: get_backend_def split: sum.splits option.splits choice.splits prod.splits dest!: kept_instance)
  then show ?thesis by (rule redis_backend_tenant)
qed

text \<open>
  C38: A decorated function keeps the tenant of its first call: once its slot is filled with a tenant's view of Redis, every later call, from
  whatever context and tenant, reads and writes under that first tenant.
\<close>

theorem first_tenant_kept:
  assumes "wrapper_backend pe ctx (None, st) = (Inr (TenantRedis b), slot, st1)" "snd st1 ctx = Some t"
  shows "b = \<lparr>pr_tenant = url_encode t\<rparr> \<and> wrapper_backend pe ctx' (slot, st2) = (Inr (TenantRedis b), slot, st2)"
proof -
  have "get_backend pe ctx st = (Inr (TenantRedis b), st1)" "slot = Some (TenantRedis b)"
    using assms(1) by (auto simp: wrapper_backend_def split: prod.splits sum.splits)
  with get_backend_tenant [OF this(1)] assms(2) show ?thesis by (auto simp: wrapper_backend_def)
qed

text \<open>An environment with a reachable Redis and nothing selected.\<close>

definition demo_provider_env :: provider_env where
  "demo_provider_env = \<lparr>pe_environment = (\<lambda>v. None), pe_construct = (\<lambda>c. Inr ()), pe_redis_config = Inr (default_redis_config (\<lambda>v. None)),
     pe_classify = (\<lambda>e op k. BackendError [] UNKNOWN (Some e) op k), pe_ping = (\<lambda>p. Inr ())\<rparr>"

lemma demo_first_backend:
  "get_backend demo_provider_env ctx (new_provider, tn) =
     (Inr (TenantRedis \<lparr>pr_tenant = url_encode (case tn ctx of None \<Rightarrow> ''default'' | Some t \<Rightarrow> t)\<rparr>),
      new_provider\<lparr>ps_redis := Some \<lparr>rp_pool = \<lparr>cp_url = ''redis://localhost:6379'', cp_decode = False, cp_max = 50, cp_socket_timeout = 5, cp_connect_timeout = 5\<rparr>\<rparr>\<rparr>,
      tn(ctx := Some (case tn ctx of None \<Rightarrow> ''default'' | Some t \<Rightarrow> t)))"
  by (auto simp: get_backend_def detect_def SELECTORS_def demo_provider_env_def redis_backend_for_def new_provider_def new_redis_provider_def
      create_connection_pool_def resolve_max_connections_def provider_backend_def make_per_request_def default_redis_config_def env_redis_url_def
      Let_def split: option.splits)

theorem first_tenant_kept_witness:
  "\<exists>slot st1 b. wrapper_backend demo_provider_env 0 (None, new_provider, (\<lambda>c. if c = 0 then Some ''acme'' else Some ''rival'')) = (Inr (TenantRedis b), slot, st1)
     \<and> wrapper_backend demo_provider_env 1 (slot, st1) = (Inr (TenantRedis b), slot, st1) \<and> b = \<lparr>pr_tenant = url_encode ''acme''\<rparr>"
proof -
  let ?tn = "\<lambda>c :: nat. if c = 0 then Some ''acme'' else Some ''rival''"
  obtain ps where g: "get_backend demo_provider_env 0 (new_provider, ?tn) = (Inr (TenantRedis \<lparr>pr_tenant = url_encode ''acme''\<rparr>), ps, ?tn(0 := Some ''acme''))"
    using demo_first_backend [of 0 ?tn] by simp
  then have w: "wrapper_backend demo_provider_env 0 (None, new_provider, ?tn)
      = (Inr (TenantRedis \<lparr>pr_tenant = url_encode ''acme''\<rparr>), Some (TenantRedis \<lparr>pr_tenant = url_encode ''acme''\<rparr>), ps, ?tn(0 := Some ''acme''))"
    by (simp add: wrapper_backend_def)
  from first_tenant_kept [OF w, of "''acme''" 1 "(ps, ?tn(0 := Some ''acme''))"] w show ?thesis by auto
qed

text \<open>
  The default tenant is set only in the context that created the provider: in any other context without a tenant the look-up fails,
  although the deployment is a single-tenant one.
\<close>

theorem default_tenant_first_context_only:
  assumes "detect (pe_environment pe) = Inr None \<or> detect (pe_environment pe) = Inr (Some ChooseRedis)" "ps_redis ps = Some rp" "tn ctx = None"
  shows "get_backend pe ctx (ps, tn) = (Inl (PyExn ''RuntimeError'' ''RuntimeError: tenant_id cannot be None''), ps, tn)"
  using assms by (auto simp: get_backend_def redis_backend_for_def provider_backend_def make_per_request_def)

theorem default_tenant_first_context_only_witness:
  "\<exists>st e. get_backend demo_provider_env 0 (new_provider, (\<lambda>c. None)) = (Inr (TenantRedis \<lparr>pr_tenant = url_encode ''default''\<rparr>), st)
     \<and> get_backend demo_provider_env 1 st = (Inl e, st)"
proof -
  obtain ps rp where g: "get_backend demo_provider_env 0 (new_provider, (\<lambda>c. None))
      = (Inr (TenantRedis \<lparr>pr_tenant = url_encode ''default''\<rparr>), ps, (\<lambda>c. None)(0 := Some ''default''))" "ps_redis ps = Some rp"
    using demo_first_backend [of 0 "\<lambda>c. None"] by simp
  have "detect (pe_environment demo_provider_env) = Inr None" by (simp add: detect_def SELECTORS_def demo_provider_env_def)
  from default_tenant_first_context_only [OF disjI1 [OF this] g(2), of "(\<lambda>c. None)(0 := Some ''default'')" 1] g(1) show ?thesis by auto
qed

text \<open>
  Every server list that passes validation can be parsed, each entry into its host and a port between 1 and 65535.
\<close>

theorem validated_servers_parse:
  assumes "validate_servers v = Inr w" "s \<in> set w"
  shows "\<exists>host p. parse_server s = Inr (host, p) \<and> 1 \<le> p \<and> p \<le> 65535"
proof -
  have "validate_each v = Inr ()" "w = v" using assms(1) by (auto simp: validate_servers_def split: if_splits sum.splits)
  moreover have "validate_each ss = Inr () \<Longrightarrow> s \<in> set ss \<Longrightarrow> validate_server s = Inr ()" for ss
    by (induction ss) (auto split: sum.splits)
  ultimately have "validate_server s = Inr ()" using assms(2) by blast
  then show ?thesis by (auto simp: validate_server_def parse_server_def split: if_splits option.splits)
qed

theorem validated_servers_parse_witness: "\<exists>host p. parse_server ''mc1:11211'' = Inr (host, p) \<and> 1 \<le> p \<and> p \<le> 65535"
proof -
  have "validate_servers [''mc1:11211''] = Inr [''mc1:11211'']" by code_simp
  from validated_servers_parse [OF this, of "''mc1:11211''"] show ?thesis by simp
qed

text \<open>The size of the tenant-scoped pool is the constant 50: the configured size is not read.\<close>

lemma provider_ignores_pool_size:
  "new_redis_provider classify cfg (\<lambda>p. Inr ()) url 50 = Inr rp \<Longrightarrow> cp_max (rp_pool rp) = 50"
  by (auto simp: new_redis_provider_def create_connection_pool_def resolve_max_connections_def Let_def)

text \<open>A singleton survives a new registration of its interface.\<close>

lemma singleton_survives_registration:
  "di_get iface c = (Inr i, c1) \<Longrightarrow> map_of (di_singletons c1) iface = Some i \<Longrightarrow> di_get iface (di_register iface impl True c1) = (Inr i, di_register iface impl True c1)"
  by (simp add: di_get_def di_register_def update_conv')

end
