(* ===== verification/Health_Checks.thy ===== *)
theory Health_Checks
  imports Structured_Logging Backend_Provider
begin

text \<open>
  \<^verbatim>\<open>health.py\<close> with the health checks of the Redis and Memcached backends, the pool monitor (\<^verbatim>\<open>monitoring/pool_monitor.py\<close>) and the
  correlation tracker (\<^verbatim>\<open>monitoring/correlation_tracking.py\<close>). What a backend, a pool manager or a breaker answers is a parameter; date texts
  are represented by the time itself.
\<close>

section \<open>Status\<close>

datatype health_level_status = HEALTHY | DEGRADED | UNHEALTHY

fun severity :: "health_level_status \<Rightarrow> nat" where
  "severity HEALTHY = 0"
| "severity DEGRADED = 1"
| "severity UNHEALTHY = 2"

text \<open>The statuses in order of severity.\<close>

instantiation health_level_status :: linorder
begin

definition less_eq_health_level_status :: "health_level_status \<Rightarrow> health_level_status \<Rightarrow> bool" where
  "less_eq_health_level_status a b \<longleftrightarrow> severity a \<le> severity b"

definition less_health_level_status :: "health_level_status \<Rightarrow> health_level_status \<Rightarrow> bool" where
  "less_health_level_status a b \<longleftrightarrow> severity a < severity b"

instance
proof
  fix x y z :: health_level_status
  show "x \<le> y \<Longrightarrow> y \<le> x \<Longrightarrow> x = y" by (cases x; cases y) (simp_all add: less_eq_health_level_status_def)
qed (auto simp: less_eq_health_level_status_def less_health_level_status_def)

end

definition status_value :: "health_level_status \<Rightarrow> string" where
  "status_value s = (case s of HEALTHY \<Rightarrow> ''healthy'' | DEGRADED \<Rightarrow> ''degraded'' | UNHEALTHY \<Rightarrow> ''unhealthy'')"

datatype level = PING | BASIC | FULL

record component_health =
  ch_name :: string
  ch_status :: health_level_status
  ch_message :: string
  ch_details :: fields
  ch_last_check :: "real option"

record health_result =
  hr_status :: health_level_status
  hr_components :: "component_health list"
  hr_duration :: real
  hr_timestamp :: real

definition is_healthy :: "health_result \<Rightarrow> bool" where
  "is_healthy r \<longleftrightarrow> hr_status r \<noteq> UNHEALTHY"

record result_dict =
  rd_status :: string
  rd_timestamp :: real
  rd_duration_ms :: real
  rd_components :: "(string \<times> string \<times> string) list"
  rd_healthy :: bool

definition result_to_dict :: "health_result \<Rightarrow> result_dict" where
  "result_to_dict r = \<lparr>rd_status = status_value (hr_status r), rd_timestamp = hr_timestamp r, rd_duration_ms = hr_duration r,
     rd_components = map (\<lambda>c. (ch_name c, status_value (ch_status c), ch_message c)) (hr_components r), rd_healthy = is_healthy r\<rparr>"

definition determine_overall_status :: "component_health list \<Rightarrow> health_level_status" where
  "determine_overall_status cs =
     (if list_ex (\<lambda>c. ch_status c = UNHEALTHY) cs then UNHEALTHY else if list_ex (\<lambda>c. ch_status c = DEGRADED) cs then DEGRADED else HEALTHY)"

section \<open>Health checks of the backends\<close>

datatype info_reply = InfoDict fields | InfoOther string

definition info_fields :: "real \<Rightarrow> fields \<Rightarrow> fields" where
  "info_fields latency info =
     (let get = (\<lambda>k d. case map_of info k of None \<Rightarrow> d | Some v \<Rightarrow> v) in
      [(''backend_type'', LStr ''redis''), (''latency_ms'', LNum latency), (''version'', get ''redis_version'' (LStr ''unknown'')),
       (''used_memory_human'', get ''used_memory_human'' (LStr ''unknown'')), (''connected_clients'', get ''connected_clients'' (LNum 0))])"

definition unexpected_info :: "string \<Rightarrow> pyexn" where
  "unexpected_info t = BackendExn (BackendError (''Redis INFO returned unexpected type: '' @ t) UNKNOWN None (Some ''health_check'') (Some ''N/A''))"

text \<open>Client, ping and info in that order, each of which may raise; \<open>latency\<close> is the measured and rounded time.\<close>

definition redis_probe :: "pyexn + unit \<Rightarrow> pyexn + unit \<Rightarrow> pyexn + info_reply \<Rightarrow> pyexn + fields" where
  "redis_probe client ping info =
     (case client of
        Inl e \<Rightarrow> Inl e
      | Inr u \<Rightarrow> (case ping of
          Inl e \<Rightarrow> Inl e
        | Inr u \<Rightarrow> (case info of Inl e \<Rightarrow> Inl e | Inr (InfoOther t) \<Rightarrow> Inl (unexpected_info t) | Inr (InfoDict d) \<Rightarrow> Inr d)))"

definition class_of :: "pyexn \<Rightarrow> string" where
  "class_of e = (case e of BackendExn b \<Rightarrow> ''BackendError'' | PyExn c t \<Rightarrow> c)"

definition redis_health_check :: "pyexn + unit \<Rightarrow> pyexn + unit \<Rightarrow> pyexn + info_reply \<Rightarrow> real \<Rightarrow> bool \<times> fields" where
  "redis_health_check client ping info latency =
     (case redis_probe client ping info of
        Inr d \<Rightarrow> (True, info_fields latency d)
      | Inl e \<Rightarrow> (False, [(''backend_type'', LStr ''redis''), (''latency_ms'', LNum (- 1)), (''error'', LStr (exn_str e)), (''error_type'', LStr (class_of e))]))"

definition per_request_health_check :: "classifier \<Rightarrow> pyexn + unit \<Rightarrow> pyexn + info_reply \<Rightarrow> real \<Rightarrow> bool \<times> fields" where
  "per_request_health_check classify ping info latency =
     (case redis_probe (Inr ()) ping info of
        Inr d \<Rightarrow> (True, info_fields latency d)
      | Inl e \<Rightarrow>
          let b = classify e (Some ''health_check'') None in
          (False, [(''backend_type'', LStr ''redis''), (''latency_ms'', LNum (- 1)), (''error'', LStr (message b)),
            (''error_type'', LStr (error_type_value (error_type b)))]))"

definition memcached_health_check :: "pyexn + bytes option \<Rightarrow> real \<Rightarrow> nat \<Rightarrow> bool \<times> fields" where
  "memcached_health_check got latency servers =
     (case got of
        Inr v \<Rightarrow> (True, [(''backend_type'', LStr ''memcached''), (''latency_ms'', LNum latency), (''configured_servers'', LNum (real servers))])
      | Inl e \<Rightarrow> (False, [(''backend_type'', LStr ''memcached''), (''latency_ms'', LNum latency), (''error'', LStr (exn_str e)),
          (''configured_servers'', LNum (real servers))]))"

section \<open>The checker\<close>

text \<open>What the injected objects answer: a dictionary or an exception, and the four attributes of a breaker.\<close>

record breaker_view =
  bv_state :: string
  bv_failures :: int
  bv_successes :: int
  bv_last_failure :: "real option"

record checker =
  hc_timeout :: real
  hc_pool :: "(pyexn + fields) option"
  hc_breaker :: "(pyexn + breaker_view) option"
  hc_last_result :: "health_result option"
  hc_last_time :: "real option"

definition new_checker :: "real \<Rightarrow> (pyexn + fields) option \<Rightarrow> (pyexn + breaker_view) option \<Rightarrow> checker" where
  "new_checker timeout pool breaker = \<lparr>hc_timeout = timeout, hc_pool = pool, hc_breaker = breaker, hc_last_result = None, hc_last_time = None\<rparr>"

definition CACHE_DURATION :: real where "CACHE_DURATION = 10"

definition is_cached_result_valid :: "real \<Rightarrow> checker \<Rightarrow> bool" where
  "is_cached_result_valid now hc =
     (case (hc_last_result hc, hc_last_time hc) of (Some r, Some t) \<Rightarrow> t \<noteq> 0 \<and> now - t < CACHE_DURATION | _ \<Rightarrow> False)"

definition cache_result :: "real \<Rightarrow> health_result \<Rightarrow> checker \<Rightarrow> checker" where
  "cache_result now r hc = hc\<lparr>hc_last_result := Some r, hc_last_time := Some now\<rparr>"

text \<open>How the check of the Redis backend ended: with an answer, an exception, or (asynchronously) a time-out.\<close>

datatype probe = Answer bool fields | Raised pyexn | TimedOut

text \<open>The provider comes from the container; the backend built on it is asked only when there is one.\<close>

definition probe_redis :: "container \<Rightarrow> (instance_of \<Rightarrow> probe) \<Rightarrow> probe \<times> container" where
  "probe_redis di ask = (case di_get ''CacheClientProvider'' di of (Inl e, di1) \<Rightarrow> (Raised e, di1) | (Inr i, di1) \<Rightarrow> (ask i, di1))"

definition check_redis :: "real \<Rightarrow> probe \<Rightarrow> component_health" where
  "check_redis now p =
     (let mk = (\<lambda>s m d. \<lparr>ch_name = ''redis'', ch_status = s, ch_message = m, ch_details = d, ch_last_check = Some now\<rparr>) in
      case p of
        Answer True d \<Rightarrow> mk HEALTHY ''Redis is responsive'' d
      | Answer False d \<Rightarrow> mk UNHEALTHY ''Redis health check failed'' d
      | TimedOut \<Rightarrow> mk UNHEALTHY ''Redis health check timeout'' []
      | Raised e \<Rightarrow> mk UNHEALTHY (''Redis health check failed: '' @ exn_str e) [(''error_type'', LStr (class_of e))])"

definition quick_ping :: "probe \<Rightarrow> bool" where
  "quick_ping p = (case p of Answer ok d \<Rightarrow> ok | _ \<Rightarrow> False)"

text \<open>\<^verbatim>\<open>utilization > 0.95\<close> raises for a value that is no number.\<close>

definition number_of :: "log_value \<Rightarrow> real option" where
  "number_of v = (case v of LNum x \<Rightarrow> Some x | LBool b \<Rightarrow> Some (of_bool b) | _ \<Rightarrow> None)"

definition check_connection_pool :: "real \<Rightarrow> (pyexn + fields) option \<Rightarrow> component_health" where
  "check_connection_pool now pool =
     (let mk = (\<lambda>s m d. \<lparr>ch_name = ''connection_pool'', ch_status = s, ch_message = m, ch_details = d, ch_last_check = Some now\<rparr>) in
      case pool of
        None \<Rightarrow> mk DEGRADED ''Connection pool not initialized'' []
      | Some (Inl e) \<Rightarrow> mk UNHEALTHY (''Failed to check connection pool: '' @ exn_str e) [(''error_type'', LStr (class_of e))]
      | Some (Inr stats) \<Rightarrow>
          (case number_of (case map_of stats ''utilization_ratio'' of None \<Rightarrow> LNum 0 | Some v \<Rightarrow> v) of
             None \<Rightarrow> mk UNHEALTHY ''Failed to check connection pool'' [(''error_type'', LStr ''TypeError'')]
           | Some u \<Rightarrow>
               if u > 95 / 100 then mk UNHEALTHY ''Connection pool is nearly exhausted'' stats
               else if u > 9 / 10 then mk DEGRADED ''Connection pool utilization is very high'' stats
               else mk HEALTHY ''Connection pool is healthy'' stats))"

definition check_circuit_breaker :: "real \<Rightarrow> (pyexn + breaker_view) option \<Rightarrow> component_health" where
  "check_circuit_breaker now breaker =
     (let mk = (\<lambda>s m d. \<lparr>ch_name = ''circuit_breaker'', ch_status = s, ch_message = m, ch_details = d, ch_last_check = Some now\<rparr>) in
      case breaker of
        None \<Rightarrow> mk HEALTHY ''Circuit breaker not in use'' []
      | Some (Inl e) \<Rightarrow> mk UNHEALTHY (''Failed to check circuit breaker: '' @ exn_str e) [(''error_type'', LStr (class_of e))]
      | Some (Inr b) \<Rightarrow>
          let d = [(''state'', LStr (bv_state b)), (''failure_count'', LNum (real_of_int (bv_failures b))),
                   (''success_count'', LNum (real_of_int (bv_successes b))),
                   (''last_failure_time'', case bv_last_failure b of None \<Rightarrow> LNone | Some t \<Rightarrow> LNum t)] in
          if bv_state b = ''OPEN'' then mk UNHEALTHY ''Circuit breaker is OPEN - Redis operations are bypassed'' d
          else if bv_state b = ''HALF_OPEN'' then mk DEGRADED ''Circuit breaker is HALF_OPEN - testing recovery'' d
          else mk HEALTHY ''Circuit breaker is CLOSED - normal operation'' d)"

text \<open>The sum over the shared counter cannot raise on the numbers of the metric store.\<close>

definition check_metrics_collection :: "real \<Rightarrow> metrics_store \<Rightarrow> component_health" where
  "check_metrics_collection now s =
     \<lparr>ch_name = ''metrics'', ch_status = HEALTHY, ch_message = ''Prometheus metrics are being collected'',
      ch_details = [(''cache_operations_total'', LNum (real_of_int \<lfloor>sum_list (map snd (inner ''cache_operations_total'' s))\<rfloor>)), (''collectors_active'', LBool True)],
      ch_last_check = Some now\<rparr>"

record health_env =
  he_ask :: "instance_of \<Rightarrow> probe"
  he_prometheus :: bool
  he_metrics :: metrics_store

definition gather :: "health_env \<Rightarrow> real \<Rightarrow> level \<Rightarrow> checker \<Rightarrow> probe \<Rightarrow> component_health list" where
  "gather he now lvl hc p =
     (let redis = check_redis now p;
          more = [check_connection_pool now (hc_pool hc), check_circuit_breaker now (hc_breaker hc)] in
      case lvl of
        PING \<Rightarrow> [redis]
      | BASIC \<Rightarrow> redis # more
      | FULL \<Rightarrow> (redis # more) @ (if he_prometheus he then [check_metrics_collection now (he_metrics he)] else []))"

text \<open>\<open>perform_health_check\<close> models both the synchronous and the asynchronous method; the log line of a full check is left out.\<close>

definition perform_health_check ::
  "health_env \<Rightarrow> real \<Rightarrow> real \<Rightarrow> bool \<Rightarrow> level \<Rightarrow> checker \<times> container \<Rightarrow> health_result \<times> checker \<times> container" where
  "perform_health_check he now later force lvl st =
     (case st of (hc, di) \<Rightarrow>
        if \<not> force \<and> is_cached_result_valid now hc then (the (hc_last_result hc), hc, di)
        else case probe_redis di (he_ask he) of (p, di1) \<Rightarrow>
               let cs = gather he now lvl hc p;
                   r = \<lparr>hr_status = determine_overall_status cs, hr_components = cs, hr_duration = (later - now) * 1000, hr_timestamp = later\<rparr> in
               (r, cache_result later r hc, di1))"

text \<open>The global checker finds its optional parts in the container; \<open>pool_of\<close> and \<open>breaker_of\<close> are their answers.\<close>

definition get_health_checker ::
  "(instance_of \<Rightarrow> pyexn + fields) \<Rightarrow> (instance_of \<Rightarrow> pyexn + breaker_view) \<Rightarrow> real \<Rightarrow> checker option \<Rightarrow> container \<Rightarrow> checker \<times> container" where
  "get_health_checker pool_of breaker_of timeout global di =
     (case global of
        Some hc \<Rightarrow> (hc, di)
      | None \<Rightarrow>
          (case di_get ''PoolManagerProtocol'' di of (pm, di1) \<Rightarrow>
             (case di_get ''CircuitBreakerProtocol'' di1 of (cb, di2) \<Rightarrow>
                (new_checker timeout (case pm of Inl e \<Rightarrow> None | Inr i \<Rightarrow> Some (pool_of i)) (case cb of Inl e \<Rightarrow> None | Inr i \<Rightarrow> Some (breaker_of i)), di2))))"

definition health_check_handler :: "health_env \<Rightarrow> real \<Rightarrow> real \<Rightarrow> bool \<Rightarrow> checker \<times> container \<Rightarrow> result_dict \<times> checker \<times> container" where
  "health_check_handler he now later force st = (case perform_health_check he now later force FULL st of (r, st1) \<Rightarrow> (result_to_dict r, st1))"

section \<open>Pool monitor\<close>

record pool_stats =
  pst_created :: int
  pst_available :: nat
  pst_in_use :: nat
  pst_utilization :: real
  pst_timestamp :: real

definition empty_pool_stats :: pool_stats where
  "empty_pool_stats = \<lparr>pst_created = 0, pst_available = 0, pst_in_use = 0, pst_utilization = 0, pst_timestamp = 0\<rparr>"

record monitor =
  pm_threshold :: int
  pm_stats :: "pool_stats option"
  pm_last_update :: real
  pm_total :: nat
  pm_sampled :: nat
  pm_samples :: "(real \<times> real) list"
  pm_last_log :: real

definition new_monitor :: "real \<Rightarrow> monitor" where
  "new_monitor rate = \<lparr>pm_threshold = \<lfloor>rate * 100\<rfloor>, pm_stats = None, pm_last_update = 0, pm_total = 0, pm_sampled = 0, pm_samples = [], pm_last_log = 0\<rparr>"

definition stats_stale :: "real \<Rightarrow> monitor \<Rightarrow> bool" where
  "stats_stale now m \<longleftrightarrow> now - pm_last_update m > 5"

text \<open>The pool, when it is initialised: created connections, and how many are available and in use.\<close>

definition calculate_pool_stats :: "real \<Rightarrow> (int \<times> nat \<times> nat) option \<Rightarrow> pool_stats" where
  "calculate_pool_stats now pool =
     (case pool of
        None \<Rightarrow> empty_pool_stats
      | Some (created, available, in_use) \<Rightarrow>
          \<lparr>pst_created = created, pst_available = available, pst_in_use = in_use,
           pst_utilization = (if created > 0 then real in_use / real_of_int created else 0), pst_timestamp = now\<rparr>)"

definition get_pool_stats :: "real \<Rightarrow> (int \<times> nat \<times> nat) option \<Rightarrow> monitor \<Rightarrow> pool_stats \<times> monitor" where
  "get_pool_stats now pool m =
     (if \<not> stats_stale now m \<and> pm_stats m \<noteq> None then (the (pm_stats m), m)
      else let s = calculate_pool_stats now pool in (s, m\<lparr>pm_stats := Some s, pm_last_update := now\<rparr>))"

text \<open>\<^verbatim>\<open>deque(maxlen=100)\<close>.\<close>

definition push_sample :: "real \<times> real \<Rightarrow> (real \<times> real) list \<Rightarrow> (real \<times> real) list" where
  "push_sample x xs = (let ys = xs @ [x] in drop (length ys - 100) ys)"

definition on_connection_acquire :: "int \<Rightarrow> real \<Rightarrow> (int \<times> nat \<times> nat) option \<Rightarrow> monitor \<Rightarrow> monitor" where
  "on_connection_acquire draw now pool m =
     (let m1 = m\<lparr>pm_total := Suc (pm_total m)\<rparr> in
      if draw \<ge> pm_threshold m then m1
      else case get_pool_stats now pool (m1\<lparr>pm_sampled := Suc (pm_sampled m1)\<rparr>) of (s, m2) \<Rightarrow>
             let m3 = m2\<lparr>pm_samples := push_sample (now, pst_utilization s) (pm_samples m2)\<rparr> in
             if now - pm_last_log m3 \<ge> 60 then m3\<lparr>pm_last_log := now\<rparr> else m3)"

definition force_stats_update :: "monitor \<Rightarrow> monitor" where
  "force_stats_update m = m\<lparr>pm_last_update := 0\<rparr>"

record pool_health =
  ph_status :: string
  ph_samples :: nat
  ph_percentiles :: "(real \<times> real \<times> real) option"

text \<open>The percentiles before they are rounded to three digits; \<^verbatim>\<open>int(n * 0.95)\<close> for at most 100 samples is \<open>n * 95 div 100\<close>.\<close>

definition get_health_metrics :: "monitor \<Rightarrow> pool_health" where
  "get_health_metrics m =
     (let us = sort (map snd (pm_samples m)); n = length us in
      if us = [] then \<lparr>ph_status = ''unknown'', ph_samples = 0, ph_percentiles = None\<rparr>
      else let p95 = us ! (n * 95 div 100) in
           \<lparr>ph_status = (if p95 > 9 / 10 then ''critical'' else if p95 > 3 / 4 then ''warning'' else ''healthy''), ph_samples = n,
            ph_percentiles = Some (us ! (n div 2), p95, us ! (n * 99 div 100))\<rparr>)"

section \<open>Correlation\<close>

text \<open>The identifiers of the threads, and the logger that is kept in step, if one is set.\<close>

record tracker_state =
  ct_ids :: "nat \<Rightarrow> string option"
  ct_logger :: "logger option"

definition set_correlation_id :: "nat \<Rightarrow> string \<Rightarrow> tracker_state \<Rightarrow> tracker_state" where
  "set_correlation_id tid x t = t\<lparr>ct_ids := (ct_ids t)(tid := Some x), ct_logger := map_option (set_trace_id tid x) (ct_logger t)\<rparr>"

definition clear_correlation_id :: "nat \<Rightarrow> tracker_state \<Rightarrow> tracker_state" where
  "clear_correlation_id tid t = t\<lparr>ct_ids := (ct_ids t)(tid := None), ct_logger := map_option (clear_trace_id tid) (ct_logger t)\<rparr>"

definition set_structured_logger :: "nat \<Rightarrow> logger \<Rightarrow> tracker_state \<Rightarrow> tracker_state" where
  "set_structured_logger tid lg t =
     t\<lparr>ct_logger := Some (if truthy_str (ct_ids t tid) then set_trace_id tid (the (ct_ids t tid)) lg else lg)\<rparr>"

text \<open>The context manager around a body, which may raise; \<open>fresh\<close> is the generated identifier.\<close>

definition correlation_context ::
  "nat \<Rightarrow> string \<Rightarrow> string option \<Rightarrow> (string \<Rightarrow> tracker_state \<Rightarrow> (pyexn + 'a) \<times> tracker_state) \<Rightarrow> tracker_state \<Rightarrow> (pyexn + 'a) \<times> tracker_state" where
  "correlation_context tid fresh given body t =
     (let x = (case given of None \<Rightarrow> fresh | Some i \<Rightarrow> i) in
      case body x (set_correlation_id tid x t) of (r, t1) \<Rightarrow>
        (r, (case ct_ids t tid of Some p \<Rightarrow> set_correlation_id tid p t1 | None \<Rightarrow> clear_correlation_id tid t1)))"

section \<open>Properties\<close>

lemma overall_unhealthy: "determine_overall_status cs = UNHEALTHY \<longleftrightarrow> UNHEALTHY \<in> ch_status ` set cs"
  by (force simp: determine_overall_status_def list_ex_iff)

lemma overall_upper: "c \<in> set cs \<Longrightarrow> ch_status c \<le> determine_overall_status cs"
  by (cases "ch_status c") (auto simp: determine_overall_status_def list_ex_iff less_eq_health_level_status_def)

lemma overall_member: "cs \<noteq> [] \<Longrightarrow> determine_overall_status cs \<in> ch_status ` set cs"
proof -
  assume "cs \<noteq> []"
  then obtain c where c: "c \<in> set cs" by (cases cs) auto
  show ?thesis
  proof (cases "determine_overall_status cs")
    case HEALTHY
    then have "ch_status c = HEALTHY" using overall_upper [OF c] by (cases "ch_status c") (auto simp: less_eq_health_level_status_def)
    with HEALTHY c show ?thesis by force
  next
    case DEGRADED
    then show ?thesis by (force simp: determine_overall_status_def list_ex_iff split: if_splits)
  next
    case UNHEALTHY
    then show ?thesis using overall_unhealthy [of cs] by simp
  qed
qed

lemma overall_is_max: "cs \<noteq> [] \<Longrightarrow> determine_overall_status cs = Max (ch_status ` set cs)"
  by (rule Max_eqI [symmetric]) (auto intro: overall_upper overall_member)

text \<open>
  C39: The overall status of a fresh check is the worst status among its components, whatever the level, and the check is healthy for its
  callers exactly when no component is unhealthy.
\<close>

theorem overall_status_is_worst:
  assumes "perform_health_check he now later True lvl (hc, di) = (r, st)"
  shows "hr_components r \<noteq> [] \<and> hr_status r = Max (ch_status ` set (hr_components r)) \<and> is_healthy r = (UNHEALTHY \<notin> ch_status ` set (hr_components r))"
proof -
  obtain p di1 where p: "probe_redis di (he_ask he) = (p, di1)" by force
  have c: "hr_components r = gather he now lvl hc p" "hr_status r = determine_overall_status (gather he now lvl hc p)"
    using assms p by (auto simp: perform_health_check_def Let_def)
  have "gather he now lvl hc p \<noteq> []" by (cases lvl) (simp_all add: gather_def Let_def)
  with c overall_unhealthy [of "gather he now lvl hc p"] overall_is_max [of "gather he now lvl hc p"] show ?thesis by (simp add: is_healthy_def)
qed

theorem overall_status_is_worst_witness:
  "hr_status (fst (perform_health_check \<lparr>he_ask = (\<lambda>i. TimedOut), he_prometheus = False, he_metrics = empty_store\<rparr> 1 2 True BASIC (new_checker 5 None None, package_container)))
     = UNHEALTHY"
proof -
  let ?he = "\<lparr>he_ask = (\<lambda>i. TimedOut), he_prometheus = False, he_metrics = empty_store\<rparr>"
  obtain r st where c: "perform_health_check ?he 1 2 True BASIC (new_checker 5 None None, package_container) = (r, st)" using prod.exhaust by blast
  have "UNHEALTHY \<in> ch_status ` set (hr_components r)"
    using c by (auto simp: perform_health_check_def probe_redis_def di_get_def package_container_def di_register_def new_container_def gather_def check_redis_def Let_def)
  with overall_status_is_worst [OF c] have "hr_status r = UNHEALTHY" unfolding is_healthy_def by blast
  with c show ?thesis by simp
qed

text \<open>
  A cached answer ignores the level that is asked for: within ten seconds of a quick ping, a full check that is not forced returns the
  single component of the ping.
\<close>

theorem cached_answer_ignores_level:
  assumes "perform_health_check he now later True PING (hc, di) = (r, hc', di')" "later \<noteq> 0" "now2 - later < 10"
  shows "perform_health_check he now2 later2 False lvl (hc', di') = (r, hc', di') \<and> length (hr_components r) = 1"
  using assms by (auto simp: perform_health_check_def cache_result_def is_cached_result_valid_def CACHE_DURATION_def gather_def Let_def split: prod.splits)

theorem cached_answer_ignores_level_witness:
  "\<exists>r st. perform_health_check \<lparr>he_ask = (\<lambda>i. TimedOut), he_prometheus = True, he_metrics = empty_store\<rparr> 100 101 True PING (new_checker 5 None None, package_container) = (r, st)
     \<and> fst (perform_health_check \<lparr>he_ask = (\<lambda>i. TimedOut), he_prometheus = True, he_metrics = empty_store\<rparr> 105 106 False FULL st) = r
     \<and> length (hr_components r) = 1"
proof -
  let ?he = "\<lparr>he_ask = (\<lambda>i. TimedOut), he_prometheus = True, he_metrics = empty_store\<rparr>"
  obtain r hc' di' where c: "perform_health_check ?he 100 101 True PING (new_checker 5 None None, package_container) = (r, hc', di')" using prod_cases3 by blast
  from cached_answer_ignores_level [OF c, of 105 106 FULL] c show ?thesis by auto
qed

text \<open>
  C40: With the registrations the package makes itself, every fresh check is unhealthy, whatever Redis answers: the client provider that the
  check asks the container for is not among them.
\<close>

theorem unregistered_provider_unhealthy:
  assumes "map_of (di_services di) ''CacheClientProvider'' = None"
  shows "hr_status (fst (perform_health_check he now later True lvl (hc, di))) = UNHEALTHY \<and> \<not> quick_ping (fst (probe_redis di ask))"
proof -
  have p: "probe_redis di f = (Raised (PyExn ''ValueError'' ''Service CacheClientProvider not registered''), di)" for f
    using assms by (simp add: probe_redis_def di_get_def)
  have "UNHEALTHY \<in> ch_status ` set (gather he now lvl hc (Raised e))" for e
    by (cases lvl) (simp_all add: gather_def check_redis_def Let_def)
  then show ?thesis using p by (simp add: perform_health_check_def Let_def overall_unhealthy quick_ping_def)
qed

theorem unregistered_provider_unhealthy_witness:
  "hr_status (fst (perform_health_check \<lparr>he_ask = (\<lambda>i. Answer True []), he_prometheus = False, he_metrics = empty_store\<rparr> 1 2 True FULL (new_checker 5 None None, package_container)))
     = UNHEALTHY"
  using unregistered_provider_unhealthy [of package_container] by (simp add: package_container_def di_register_def new_container_def)

text \<open>The runs of a monitor.\<close>

inductive monitored :: "real \<Rightarrow> monitor \<Rightarrow> bool" for rate where
  fresh_monitor: "monitored rate (new_monitor rate)"
| acquired: "monitored rate (on_connection_acquire draw now pool m)" if "monitored rate m" "0 \<le> draw"
| looked: "monitored rate (snd (get_pool_stats now pool m))" if "monitored rate m"
| forced: "monitored rate (force_stats_update m)" if "monitored rate m"

lemma push_sample_length: "length xs \<le> 100 \<Longrightarrow> length (push_sample x xs) \<le> 100 \<and> length (push_sample x xs) \<le> Suc (length xs)"
  by (simp add: push_sample_def Let_def)

lemma pool_stats_frame:
  "get_pool_stats now pool m = (s, m') \<Longrightarrow> pm_samples m' = pm_samples m \<and> pm_sampled m' = pm_sampled m \<and> pm_total m' = pm_total m
     \<and> pm_threshold m' = pm_threshold m \<and> pm_last_log m' = pm_last_log m"
  by (auto simp: get_pool_stats_def Let_def split: if_splits)

lemma monitored_bounds:
  "monitored rate m \<Longrightarrow> length (pm_samples m) \<le> 100 \<and> length (pm_samples m) \<le> pm_sampled m \<and> pm_sampled m \<le> pm_total m
     \<and> (pm_threshold m \<le> 0 \<longrightarrow> pm_sampled m = 0)"
proof (induction rule: monitored.induct)
  case (acquired m draw now pool)
  obtain s m2 where g: "get_pool_stats now pool (m\<lparr>pm_total := Suc (pm_total m), pm_sampled := Suc (pm_sampled m)\<rparr>) = (s, m2)" by force
  let ?m = "on_connection_acquire draw now pool m"
  show ?case
  proof (cases "draw \<ge> pm_threshold m")
    case True
    then show ?thesis using acquired.IH by (simp add: on_connection_acquire_def Let_def)
  next
    case False
    with g pool_stats_frame [OF g] have "pm_samples ?m = push_sample (now, pst_utilization s) (pm_samples m)" "pm_sampled ?m = Suc (pm_sampled m)"
      "pm_total ?m = Suc (pm_total m)" "pm_threshold ?m = pm_threshold m"
      by (simp_all add: on_connection_acquire_def Let_def)
    with acquired False push_sample_length [of "pm_samples m" "(now, pst_utilization s)"] show ?thesis by simp
  qed
next
  case (looked m now pool)
  obtain s m' where g: "get_pool_stats now pool m = (s, m')" by force
  with looked.IH pool_stats_frame [OF g] show ?case by simp
qed (auto simp: new_monitor_def force_stats_update_def)

text \<open>
  The monitor stays within its memory and reports real samples: at most a hundred are kept, no more than were sampled, and the three
  percentiles are samples in ascending order.
\<close>

theorem monitor_percentiles_sound:
  assumes "monitored rate m" "ph_percentiles (get_health_metrics m) = Some (p50, p95, p99)"
  shows "length (pm_samples m) \<le> 100 \<and> pm_sampled m \<le> pm_total m \<and> {p50, p95, p99} \<subseteq> snd ` set (pm_samples m) \<and> p50 \<le> p95 \<and> p95 \<le> p99"
proof -
  let ?us = "sort (map snd (pm_samples m))"
  let ?n = "length ?us"
  have ne: "?us \<noteq> []" using assms(2) by (auto simp: get_health_metrics_def Let_def split: if_splits)
  then have n: "0 < ?n" by (cases ?us) auto
  have p: "p50 = ?us ! (?n div 2)" "p95 = ?us ! (?n * 95 div 100)" "p99 = ?us ! (?n * 99 div 100)"
    using assms(2) ne by (simp_all add: get_health_metrics_def Let_def)
  have i: "?n div 2 \<le> ?n * 95 div 100" "?n * 95 div 100 \<le> ?n * 99 div 100" "?n * 99 div 100 < ?n" using n by linarith+
  then have "p50 \<le> p95" "p95 \<le> p99" unfolding p by (auto intro!: sorted_nth_mono)
  moreover have "p50 \<in> set ?us" "p95 \<in> set ?us" "p99 \<in> set ?us" unfolding p by (rule nth_mem, use i in linarith)+
  ultimately show ?thesis using monitored_bounds [OF assms(1)] by auto
qed

theorem monitor_percentiles_sound_witness:
  "\<exists>m p50 p95 p99. monitored 1 m \<and> ph_percentiles (get_health_metrics m) = Some (p50, p95, p99) \<and> p50 \<le> p95 \<and> p95 \<le> p99 \<and> p99 = 1 / 2"
proof -
  let ?m = "on_connection_acquire 0 100 (Some (10, 5, 5)) (new_monitor 1)"
  have m: "monitored 1 ?m" by (rule acquired [OF fresh_monitor]) simp
  have h: "ph_percentiles (get_health_metrics ?m) = Some (1 / 2, 1 / 2, 1 / 2)"
    by (simp add: on_connection_acquire_def new_monitor_def get_pool_stats_def stats_stale_def calculate_pool_stats_def push_sample_def get_health_metrics_def Let_def)
  from monitor_percentiles_sound [OF m h] m h show ?thesis by blast
qed

text \<open>The context manager restores the identifier of its thread, also when the body raises or changes it.\<close>

lemma correlation_restored: "ct_ids (snd (correlation_context tid fresh given body t)) tid = ct_ids t tid"
  by (auto simp: correlation_context_def set_correlation_id_def clear_correlation_id_def Let_def split: prod.splits option.splits)

end
