(* ===== verification/Reliability_Profiles.thy ===== *)
theory Reliability_Profiles
  imports Health_Checks Decorator_Front
begin

text \<open>\<^verbatim>\<open>reliability/profiles.py\<close>: the three profiles, the decorator arguments made from them, and the recommendation.\<close>

datatype profile = MINIMAL | BALANCED | FULL_PROFILE

record profile_config =
  pc_circuit_breaker :: bool
  pc_backpressure :: bool
  pc_collect_stats :: bool
  pc_async_metrics :: bool
  pc_structured_logging :: bool
  pc_health_level :: level
  pc_health_cache :: real
  pc_max_concurrent :: int
  pc_batch_size :: int
  pc_flush_interval :: real
  pc_mask :: bool
  pc_pressure_reads :: bool
  pc_pressure_timeout :: real
  pc_lazy_masking :: bool
  pc_log_level :: string

definition default_profile :: profile_config where
  "default_profile = \<lparr>pc_circuit_breaker = True, pc_backpressure = True, pc_collect_stats = True, pc_async_metrics = True, pc_structured_logging = True,
     pc_health_level = PING, pc_health_cache = 5, pc_max_concurrent = 100, pc_batch_size = 100, pc_flush_interval = 1 / 10, pc_mask = True,
     pc_pressure_reads = False, pc_pressure_timeout = 1 / 10, pc_lazy_masking = True, pc_log_level = ''INFO''\<rparr>"

definition get_profile_config :: "profile \<Rightarrow> profile_config" where
  "get_profile_config p =
     (case p of
        MINIMAL \<Rightarrow> default_profile\<lparr>pc_backpressure := False, pc_collect_stats := False, pc_async_metrics := False, pc_structured_logging := False,
          pc_health_cache := 1, pc_max_concurrent := 1000, pc_log_level := ''WARNING''\<rparr>
      | BALANCED \<Rightarrow> default_profile\<lparr>pc_health_level := BASIC\<rparr>
      | FULL_PROFILE \<Rightarrow> default_profile\<lparr>pc_health_level := FULL, pc_health_cache := 30, pc_max_concurrent := 50, pc_batch_size := 50,
          pc_flush_interval := 1 / 20, pc_pressure_reads := True, pc_pressure_timeout := 1 / 2, pc_log_level := ''DEBUG''\<rparr>)"

definition level_value :: "level \<Rightarrow> string" where
  "level_value l = (case l of PING \<Rightarrow> ''ping'' | BASIC \<Rightarrow> ''basic'' | FULL \<Rightarrow> ''full'')"

definition profile_core :: "profile_config \<Rightarrow> kwargs" where
  "profile_core c =
     [(''circuit_breaker'', OAtom (ABool (pc_circuit_breaker c))), (''backpressure'', OAtom (ABool (pc_backpressure c))),
      (''max_concurrent_requests'', OAtom (ANum (Fin (real_of_int (pc_max_concurrent c))))), (''collect_stats'', OAtom (ABool (pc_collect_stats c))),
      (''enable_tracing'', OAtom (ABool (pc_async_metrics c))), (''enable_structured_logging'', OAtom (ABool (pc_structured_logging c)))]"

definition get_decorator_kwargs :: "profile \<Rightarrow> kwargs \<Rightarrow> kwargs" where
  "get_decorator_kwargs p overrides = merge_dict (profile_core (get_profile_config p)) overrides"

definition create_optimized_decorator_config :: "profile \<Rightarrow> kwargs \<Rightarrow> kwargs" where
  "create_optimized_decorator_config p overrides =
     (let c = get_profile_config p in
      merge_dict (profile_core c
        @ [(''_use_async_metrics'', OAtom (ABool (pc_async_metrics c))), (''_use_lightweight_health'', OAtom (ABool True)),
           (''_health_check_level'', OAtom (AStr (level_value (pc_health_level c)))), (''_lazy_pii_masking'', OAtom (ABool (pc_lazy_masking c))),
           (''_backpressure_read_ops'', OAtom (ABool (pc_pressure_reads c))),
           (''_metrics_batch_size'', OAtom (ANum (Fin (real_of_int (pc_batch_size c))))),
           (''_metrics_flush_interval'', OAtom (ANum (Fin (pc_flush_interval c))))]) overrides)"

definition recommend_profile :: "int \<Rightarrow> string \<Rightarrow> bool \<Rightarrow> profile" where
  "recommend_profile rps criticality latency_sensitive =
     (if rps > 1000 \<or> latency_sensitive then (if criticality = ''low'' then MINIMAL else BALANCED)
      else if rps < 100 \<and> criticality = ''high'' then FULL_PROFILE
      else BALANCED)"

section \<open>Properties\<close>

text \<open>A name that no field and no flattened argument has survives the preparation of the arguments.\<close>

definition foreign :: "string \<Rightarrow> bool" where
  "foreign k \<longleftrightarrow> map_of default_fields k = None \<and> k \<noteq> ''l1_enabled'' \<and> k \<notin> set enc_keys"

lemma merge_dict_key: "k \<in> fst ` set a \<Longrightarrow> k \<in> fst ` set (merge_dict a b)"
  by (induction b arbitrary: a) (auto simp: merge_dict_def dom_update case_prod_beta)

lemma delete_key: "k \<in> fst ` set a \<Longrightarrow> k \<noteq> k' \<Longrightarrow> k \<in> fst ` set (AList.delete k' a)"
  by (simp add: AList.delete_keys)

lemma fold_delete_key: "k \<in> fst ` set a \<Longrightarrow> k \<notin> set ks \<Longrightarrow> k \<in> fst ` set (fold AList.delete ks a)"
  by (induction ks arbitrary: a) (auto simp: AList.delete_keys)

lemma foreign_l1: "foreign k \<Longrightarrow> k \<noteq> ''l1'' \<and> k \<noteq> ''l1_enabled'' \<and> k \<noteq> ''backend''"
  by (auto simp: foreign_def default_fields_def)

lemma map_l1_key:
  assumes "k \<in> fst ` set ov" "foreign k" "map_l1_enabled ov = (r, ov')"
  shows "k \<in> fst ` set ov'"
proof -
  let ?rest = "AList.delete ''l1'' (AList.delete ''l1_enabled'' ov)"
  have rest: "k \<in> fst ` set ?rest" using assms(1) foreign_l1 [OF assms(2)] by (intro delete_key) auto
  have "ov' = ov \<or> (\<exists>xs. ov' = ?rest @ xs)" using assms(3) by (auto simp: map_l1_enabled_def Let_def split: if_splits oval.splits)
  then show ?thesis
  proof (elim disjE exE)
    fix xs assume "ov' = ?rest @ xs"
    with rest show ?thesis by (simp only: set_append image_Un Un_iff simp_thms)
  qed (use assms(1) in simp)
qed

lemma map_encryption_key: "k \<in> fst ` set ov \<Longrightarrow> foreign k \<Longrightarrow> k \<in> fst ` set (map_encryption ov)"
  using fold_delete_key [of k ov enc_keys] by (auto simp: map_encryption_def Let_def foreign_def)

lemma foreign_refused: "k \<in> fst ` set args \<Longrightarrow> foreign k \<Longrightarrow> new_config ev [] args = Inl type_error"
  by (auto simp: new_config_def list_ex_iff foreign_def)

lemma foreign_argument:
  assumes "k \<in> fst ` set ov" "foreign k"
  shows "fst (decorator ev default_backend NoConfig None ov) = Inl type_error"
proof -
  obtain r ov2 where m: "map_l1_enabled (AList.delete ''backend'' ov) = (r, ov2)" by force
  have "k \<in> fst ` set (AList.delete ''backend'' ov)" using assms(1) foreign_l1 [OF assms(2)] by (intro delete_key) auto
  then have "k \<in> fst ` set (map_encryption ov2)" using map_l1_key m assms(2) map_encryption_key by blast
  then have n: "new_config ev [] (with_backend b @ map_encryption ov2) = Inl type_error" for b
    by (intro foreign_refused [OF _ assms(2)]) auto
  show ?thesis
  proof (cases r)
    case (Inl e)
    then have "e = type_error" using m by (auto simp: map_l1_enabled_def Let_def split: if_splits oval.splits)
    with Inl m show ?thesis by (simp add: decorator_def Let_def)
  qed (use m n in \<open>simp add: decorator_def Let_def\<close>)
qed

text \<open>
  The arguments made from a profile cannot be passed to the decorator: whatever the profile and the overrides, it refuses them with a
  \<^verbatim>\<open>TypeError\<close>, because their flat names are no fields of the configuration.
\<close>

theorem profile_arguments_refused:
  "fst (decorator ev default_backend NoConfig None (get_decorator_kwargs p overrides)) = Inl type_error
    \<and> fst (decorator ev default_backend NoConfig None (create_optimized_decorator_config p overrides)) = Inl type_error"
proof -
  have f: "foreign ''collect_stats''" by (simp add: foreign_def default_fields_def enc_keys_def)
  have "''collect_stats'' \<in> fst ` set (get_decorator_kwargs p overrides)" "''collect_stats'' \<in> fst ` set (create_optimized_decorator_config p overrides)"
    by (auto simp: get_decorator_kwargs_def create_optimized_decorator_config_def profile_core_def Let_def intro!: merge_dict_key)
  with f show ?thesis by (simp add: foreign_argument)
qed

text \<open>A latency-sensitive or busy application is never given the full profile, an application of low criticality never loses the breaker.\<close>

lemma recommendation_bounds:
  "rps > 1000 \<or> latency \<Longrightarrow> recommend_profile rps c latency \<noteq> FULL_PROFILE" "pc_circuit_breaker (get_profile_config (recommend_profile rps c latency))"
  by (auto simp: recommend_profile_def get_profile_config_def default_profile_def)

end
