(* ===== verification/Async_Operations.thy ===== *)
theory Async_Operations
  imports Cache_Handler Key_Generator
begin

text \<open>
  The asynchronous methods of \<^verbatim>\<open>StandardCacheHandler\<close> and \<^verbatim>\<open>CacheOperationHandler\<close> that write, the key of a call without its control
  argument, and the invalidator (\<^verbatim>\<open>cache_handler.py\<close>). \<^verbatim>\<open>asyncio.to_thread\<close> runs the synchronous operation to its end and is transparent.
\<close>

section \<open>Operations\<close>

definition with_backpressure_async ::
  "('s \<Rightarrow> (pyexn + 'b) \<times> 's) \<Rightarrow> ('g, 'k, 'r, 's) op_state \<Rightarrow> (pyexn + 'b) \<times> ('g, 'k, 'r, 's) op_state" where
  "with_backpressure_async f st = with_backpressure f st"

definition std_set_async ::
  "'s backend \<Rightarrow> string \<Rightarrow> bytes \<Rightarrow> int option \<Rightarrow> int option \<Rightarrow> ('g, 'k, 'r, 's) op_state \<Rightarrow> bool \<times> ('g, 'k, 'r, 's) op_state" where
  "std_set_async bk key v ttl stale_ttl st =
     (case (if stale_ttl \<noteq> None \<and> bk_get_with_freshness bk \<noteq> None
            then with_backpressure_async (bk_set bk key v ttl stale_ttl) st
            else with_backpressure_async (bk_set bk key v ttl None) st) of
        (Inl e, st1) \<Rightarrow> (False, st1)
      | (Inr u, st1) \<Rightarrow> (True, st1))"

definition std_set_streaming_async ::
  "'s backend \<Rightarrow> string \<Rightarrow> pyexn + bytes \<Rightarrow> int option \<Rightarrow> ('g, 'k, 'r, 's) op_state \<Rightarrow> bool option \<times> ('g, 'k, 'r, 's) op_state" where
  "std_set_streaming_async bk key produced ttl st =
     (case bk_set_streaming bk of
        None \<Rightarrow> (None, st)
      | Some f \<Rightarrow> (case with_backpressure_async (f key produced ttl) st of (Inl e, st1) \<Rightarrow> (Some False, st1) | (Inr u, st1) \<Rightarrow> (Some True, st1)))"

definition std_delete_async ::
  "'s backend \<Rightarrow> string \<Rightarrow> ('g, 'k, 'r, 's) op_state \<Rightarrow> bool \<times> ('g, 'k, 'r, 's) op_state" where
  "std_delete_async bk key st = (case with_backpressure_async (bk_delete bk key) st of (Inl e, st1) \<Rightarrow> (False, st1) | (Inr b, st1) \<Rightarrow> (b, st1))"

definition buffered_async ::
  "('a, 'k, 'r) ser_env \<Rightarrow> 's backend \<Rightarrow> bytes \<Rightarrow> string \<Rightarrow> 'a \<Rightarrow> int option \<Rightarrow> 'g \<Rightarrow> ('g, 'k, 'r, 's) op_state
   \<Rightarrow> (pyexn + bytes option) \<times> ('g, 'k, 'r, 's) op_state" where
  "buffered_async en bk nonce key obj ttl args st =
     (case on_ser (serialize_data en nonce args obj key) st of
        (Inl e, st1) \<Rightarrow> if is_interop_error e then (Inl e, st1) else (Inr None, st1)
      | (Inr data, st1) \<Rightarrow> (case std_set_async bk key data ttl None st1 of (stored, st2) \<Rightarrow> (Inr (Some data), st2)))"

definition store_result_async ::
  "('a, 'k, 'r) ser_env \<Rightarrow> 's backend \<Rightarrow> bytes \<Rightarrow> string \<Rightarrow> 'a \<Rightarrow> int option \<Rightarrow> 'g \<Rightarrow> ('g, 'k, 'r, 's) op_state
   \<Rightarrow> (pyexn + bytes option) \<times> ('g, 'k, 'r, 's) op_state" where
  "store_result_async en bk nonce key obj ttl args st =
     (if supports_streaming (os_ser st) then
        (case std_set_streaming_async bk key (write_serialized_to en obj (os_ser st)) ttl st of
           (Some streamed, st1) \<Rightarrow> (Inr None, st1)
         | (None, st1) \<Rightarrow> buffered_async en bk nonce key obj ttl args st1)
      else buffered_async en bk nonce key obj ttl args st)"

text \<open>The key of a call: \<^verbatim>\<open>_bypass_cache\<close> is left out of the keyword arguments.\<close>

definition bypass_name :: ucs where
  "bypass_name = map of_char ''_bypass_cache''"

definition get_cache_key ::
  "(bytes \<Rightarrow> ucs) \<Rightarrow> (ucs \<Rightarrow> ucs) \<Rightarrow> (nval \<Rightarrow> string + bytes) \<Rightarrow> ucs \<times> ucs \<Rightarrow> pyval list \<Rightarrow> (ucs \<times> pyval) list
   \<Rightarrow> ucs option \<Rightarrow> bool \<Rightarrow> string \<Rightarrow> key_error + ucs" where
  "get_cache_key blake2b digest packb func args kwargs namespace ic serializer_type =
     generate_key blake2b digest packb func args (filter (\<lambda>(k, v). k \<noteq> bypass_name) kwargs) namespace ic serializer_type"

text \<open>The invalidator; \<open>key_of\<close> is its key generator on the call.\<close>

record 's invalidator =
  iv_backend :: "'s backend option"
  iv_integrity :: bool

definition set_invalidator_backend :: "'s backend \<Rightarrow> 's invalidator \<Rightarrow> 's invalidator" where
  "set_invalidator_backend bk iv = iv\<lparr>iv_backend := Some bk\<rparr>"

definition invalidator_run :: "(bool \<Rightarrow> pyexn + string) \<Rightarrow> 's invalidator \<Rightarrow> 's \<Rightarrow> (pyexn + unit) \<times> 's" where
  "invalidator_run key_of iv s =
     (case iv_backend iv of
        None \<Rightarrow> (Inl (PyExn ''RuntimeError'' ''Backend must be set before calling invalidate_cache''), s)
      | Some bk \<Rightarrow> (case key_of (iv_integrity iv) of Inl e \<Rightarrow> (Inl e, s) | Inr key \<Rightarrow> (Inr (), snd (bk_delete bk key s))))"

section \<open>Properties\<close>

text \<open>
  The asynchronous methods that write do what their synchronous twins do: \<^verbatim>\<open>store_result_async\<close> is \<^verbatim>\<open>store_result\<close> without a stale
  window, and setting, streaming and deleting agree on result and state.
\<close>

theorem async_writes_agree:
  "store_result_async en bk nonce key obj ttl args st = store_result en bk nonce key obj ttl args None st
    \<and> std_set_async bk key v ttl stale st = std_set bk key v ttl stale st
    \<and> std_set_streaming_async bk key produced ttl st = std_set_streaming bk key produced ttl st
    \<and> std_delete_async bk key st = std_delete bk key st"
proof (intro conjI)
  have set: "std_set_async bk key v ttl stale st = std_set bk key v ttl stale st" for v stale st
    by (simp add: std_set_async_def std_set_def with_backpressure_async_def Let_def)
  show "std_set_async bk key v ttl stale st = std_set bk key v ttl stale st" by (rule set)
  have stream: "std_set_streaming_async bk key p ttl st = std_set_streaming bk key p ttl st" for p st
    by (simp add: std_set_streaming_async_def std_set_streaming_def with_backpressure_async_def split: option.splits)
  show "std_set_streaming_async bk key produced ttl st = std_set_streaming bk key produced ttl st" by (rule stream)
  show "std_delete_async bk key st = std_delete bk key st" by (simp add: std_delete_async_def std_delete_def swallow_def with_backpressure_async_def)
  have "buffered_async en bk nonce key obj ttl args st = store_buffered en bk nonce key obj ttl args None st" for st
    unfolding buffered_async_def store_buffered_def set ..
  then show "store_result_async en bk nonce key obj ttl args st = store_result en bk nonce key obj ttl args None st"
    by (auto simp: store_result_async_def store_result_def stream split: prod.splits option.splits)
qed

lemma bypass_irrelevant:
  "get_cache_key b d p f args (xs @ (bypass_name, v) # ys) ns ic st = get_cache_key b d p f args (xs @ ys) ns ic st"
  by (simp add: get_cache_key_def)

end
