(* ===== verification/Spec2Isabelle.thy ===== *)
theory Spec2Isabelle
  imports Refresh_Pools Local_Wrapper File_Backend Interop_Values CachekitIO_Backend Handler_Setup Msgpack_Roundtrip Async_Metrics Reliability_Profiles
    Async_Operations
begin

text \<open>
  Verification of cachekit, a caching library for Python (sources under \<^verbatim>\<open>src/src/cachekit\<close>; the paths below are relative to it).

  \<^bold>\<open>The program.\<close> A function decorated with \<^verbatim>\<open>@cache\<close> looks its result up before it runs. The call computes a key from the arguments,
  asks the circuit breaker, looks into the in-process cache L1, then into the backend L2 (Redis, Memcached, a directory or the cachekit.io
  service), and on a miss runs the function and stores the result. Between the wrapper and the backend the cache handler serializes the
  value, encrypts it on request under a key derived per tenant, and puts it into an envelope. Around this path are the reliability
  components (breaker, backpressure, metrics, health checks, logging) and the configuration that decides which of them a function gets.
  \<^verbatim>\<open>@cache.local()\<close> is a second, independent path over a cache of object references.

  \<^bold>\<open>Foundations.\<close>
  \<^item> \<open>CK_Prelude\<close>: byte strings, big-endian integers, association lists as Python dictionaries, the collections of simplification rules.
  \<^item> \<open>Backend_Errors\<close> (\<^verbatim>\<open>backends/errors.py\<close>, \<^verbatim>\<open>reliability/error_classification.py\<close>, the three \<^verbatim>\<open>error_handler.py\<close>): exceptions as a
    datatype, results as a sum. The locale \<open>error_classifier\<close> is interpreted on all three classifiers.
  \<^item> \<open>Cache_Contract\<close>: the locales \<open>cache_store\<close> and \<open>replacing_store\<close>: a cache may forget and never invents. Interpreted on the L1 cache,
    the object cache and the file backend.

  \<^bold>\<open>Reliability.\<close>
  \<^item> \<open>Circuit_Breaker\<close>, \<open>Load_Control\<close>, \<open>Orchestrator\<close> (\<^verbatim>\<open>reliability/circuit_breaker.py\<close>, \<^verbatim>\<open>reliability/load_control.py\<close>,
    \<^verbatim>\<open>decorators/orchestrator.py\<close>): the state machine and its invariant over every client; every interleaving of threads in the two-stage
    admission control and its bounds; the gate as the wrappers use it, which never leaves the open state again.
  \<^item> \<open>Metrics_Registry\<close>, \<open>Async_Metrics\<close> (\<^verbatim>\<open>reliability/metrics_collection.py\<close>, \<^verbatim>\<open>reliability/async_metrics.py\<close>): the shared store and both
    collectors. The second keeps its pooled dictionaries on an explicit heap, so that a dictionary handed back too early is visible; its
    threads are a step relation. Shown: what is delivered is what was accepted, in order, while no flush fails and the worker lives, and
    what happens otherwise.
  \<^item> \<open>Structured_Logging\<close> (\<^verbatim>\<open>logging.py\<close>): the ring buffer refines a bounded queue (locale \<open>bounded_queue\<close>), two racing appends lose an
    entry, sensitive fields are masked; the eight patterns are regular expressions with their own matcher.
  \<^item> \<open>Health_Checks\<close> (\<^verbatim>\<open>health.py\<close>, \<^verbatim>\<open>monitoring/pool_monitor.py\<close>, \<^verbatim>\<open>monitoring/correlation_tracking.py\<close>, \<^verbatim>\<open>health_check\<close> of the
    backends): statuses are a linear order and the overall status is the worst of the components.
  \<^item> \<open>Reliability_Profiles\<close> (\<^verbatim>\<open>reliability/profiles.py\<close>): the profiles and the decorator arguments made of them.

  \<^bold>\<open>In-process caches.\<close>
  \<^item> \<open>L1_Cache\<close> (\<^verbatim>\<open>l1_cache.py\<close>): memory bounds, the latest write is served, stale-while-revalidate with versions.
  \<^item> \<open>Object_Cache\<close>, \<open>Local_Wrapper\<close> (\<^verbatim>\<open>object_cache.py\<close>, \<^verbatim>\<open>decorators/local_wrapper.py\<close>): bounds, generations (a refresh never brings an
    entry back), the size estimator over object graphs with cycles, and transparency of the local decorator.

  \<^bold>\<open>Backends.\<close>
  \<^item> \<open>File_Backend\<close> (\<^verbatim>\<open>backends/file\<close>): a directory as a map from names to contents, with injected faults of the system calls.
  \<^item> \<open>Remote_Backends\<close>, \<open>Backend_Contract\<close>, \<open>Backend_Instances\<close> (\<^verbatim>\<open>backends/redis\<close>, \<^verbatim>\<open>backends/memcached\<close>): the operations over a client
    that is a parameter; the locale \<open>sound_backend\<close> (what is returned under a key was written under it) and, by \<open>sublocale\<close>, the fact that
    a lawful server (\<open>redis_server\<close>) makes the backend sound; tenants are isolated by the encoding of their keys.
  \<^item> \<open>CachekitIO_Config\<close>, \<open>CachekitIO_Backend\<close> (\<^verbatim>\<open>backends/cachekitio\<close>): address checks, clients, every request of the HTTP backend, the
    lock with its polling; \<open>http_server\<close> and \<open>http_lock_server\<close> give \<open>sound_backend\<close> and \<open>lawful_lock\<close>.
  \<^item> \<open>Backend_Provider\<close> (\<^verbatim>\<open>di.py\<close>, \<^verbatim>\<open>backends/provider.py\<close>, the Redis and Memcached configuration and clients): how a backend is found.

  \<^bold>\<open>Values as bytes.\<close>
  \<^item> \<open>Envelope\<close>, \<open>Encryption\<close> (\<^verbatim>\<open>serializers/wrapper.py\<close>, \<^verbatim>\<open>serializers/base.py\<close>, \<^verbatim>\<open>serializers/encryption_wrapper.py\<close>): the frame byte by
    byte, the associated data, the keyring and its rotation.
  \<^item> \<open>Checksummed_Formats\<close>, \<open>Msgpack_Serializers\<close>, \<open>Msgpack_Roundtrip\<close> (the other files of \<^verbatim>\<open>serializers\<close>): the locale \<open>checksummed\<close>
    on the JSON, Arrow and NumPy formats, the locale \<open>marker_codec\<close> on both MessagePack serializers, round trips and refusals.
  \<^item> \<open>Interop_Text\<close>, \<open>Interop_Codec\<close>, \<open>Interop\<close>, \<open>Interop_Values\<close> (\<^verbatim>\<open>interop.py\<close>, \<^verbatim>\<open>serializers/interop_serializer.py\<close>): UTF-8, IEEE 754
    and the canonical MessagePack encoder; keys identify calls and values are read back.
  \<^item> \<open>Key_Generator\<close> (\<^verbatim>\<open>key_generator.py\<close>): normalisation of arguments and what a key determines.
  \<^item> \<open>Cache_Handler\<close>, \<open>Handler_Setup\<close>, \<open>Async_Operations\<close> (\<^verbatim>\<open>cache_handler.py\<close>, \<^verbatim>\<open>serializers/__init__.py\<close>): both directions of
    serialization, authenticity of what is read, the operations over a backend, the constructor with its encryption decision, and the
    agreement of the asynchronous writes with the synchronous ones.

  \<^bold>\<open>The decorators.\<close>
  \<^item> \<open>Function_Stats\<close> (\<^verbatim>\<open>decorators/session.py\<close>, \<^verbatim>\<open>decorators/stats_context.py\<close>, the counters of \<^verbatim>\<open>decorators/wrapper.py\<close>): counters of a
    session never decrease, across forks and redecorations.
  \<^item> \<open>Wrapper_State\<close>, \<open>Sync_Wrapper\<close>, \<open>Async_Wrapper\<close> (\<^verbatim>\<open>create_cache_wrapper\<close> of \<^verbatim>\<open>decorators/wrapper.py\<close>): a whole call on every branch.
  \<^item> \<open>Wrapper_Refinement\<close>, \<open>Async_Refinement\<close>: the abstract specification of a decorated function is the function itself. The locales
    \<open>decorated\<close> and \<open>decorated_lock\<close> collect a sound backend, the codec laws, a function determined by its arguments and a key that
    determines the outcome; every history of calls, refreshes, invalidations and clears then returns what the function returns.
  \<^item> \<open>Sync_Properties\<close>, \<open>Async_Properties\<close>, \<open>Refresh_Pools\<close>: what one call does whatever the backend is: exceptions, executions, tampered
    entries, the context variable, bounded background refreshes.
  \<^item> \<open>Configuration\<close>, \<open>Settings\<close>, \<open>Decorator_Front\<close> (\<^verbatim>\<open>config\<close>, \<^verbatim>\<open>decorators/intent.py\<close>, \<^verbatim>\<open>decorators/tenant_context.py\<close>): validation, presets,
    the keyring rules, the extraction of tenants.

  \<^bold>\<open>Parameters and idealisations.\<close> Code of other packages is an argument of the definitions that use it: the Redis, Memcached and HTTP
  clients, the Rust cipher and storage envelope, msgpack, orjson, pyarrow, pandas, numpy, hashes, Prometheus, the clock and random draws.
  What a theorem needs of them is a named hypothesis, and every such theorem has an instance on concrete functions. Floating-point
  times and costs are reals; the exact bits appear only where they are stored (\<open>Interop_Codec\<close>). Exceptions carry their class and the
  data the program reads, with shortened messages. The patterns of the logger match ASCII text. A call of a wrapper or of a locked
  operation is one step; interleavings are modelled where the code has shared state without a lock around it or depends on the
  order (backpressure, refresh generations, the ring buffer, both metrics queues, forks). \<^verbatim>\<open>asyncio.to_thread\<close> runs its argument.

  \<^bold>\<open>Termination.\<close> Recursion is structural or has a termination proof: eviction, the walk of the size estimator
  over a heap with cycles (by the objects not yet visited), the search for record batches, the normalisation of arguments, the parsing
  of associated data. The polling of the remote lock may in principle go on, so it is a partial function into the option type, and
  that it returns, within a bound on its requests, is a theorem. Only the scan of \<^verbatim>\<open>re.sub\<close> counts its steps; one more than the length of
  the text is enough, since a step that matches anything consumes it (\<open>sub_scan_enough\<close>).

  \<^bold>\<open>Not modelled.\<close> The hiredis switch, protocol declarations, re-exports and lazy imports, the attributes of \<^verbatim>\<open>decorators/main.py\<close>, the JSON
  formatter of the logger, spans, and reports that no decision of the program reads.
\<close>

end
